(* ===== verification/Prelude.thy ===== *)
theory Prelude
  imports Main
begin

text \<open>
  Shared vocabulary of the development: Go strings as byte lists, the routines of
  \<open>strings\<close>, \<open>strconv\<close> and \<open>fmt\<close> that the controller uses, and the generic facts about
  them the components share.  A \<^typ>\<open>char\<close> is one byte, so \<open>length\<close> is Go's \<open>len\<close>.
  Case conversion and case folding are those of ASCII: the strings the controller folds
  (regions, account names, SHOW column names, the platform user's name) are ASCII by
  their own validation.
\<close>

named_theorems go_str \<open>lengths and shapes of the results of the string routines\<close>

named_theorems handler_defs \<open>the definitions of guards and wrappers unfolded in every handler proof\<close>

type_synonym time = int
  \<comment> \<open>nanoseconds on the wall clock\<close>

type_synonym duration = int
  \<comment> \<open>nanoseconds\<close>

subsection \<open>Bytes\<close>

definition byte_of :: "char \<Rightarrow> nat" where
  "byte_of c = of_char c"

definition in_range :: "nat \<Rightarrow> nat \<Rightarrow> char \<Rightarrow> bool" where
  "in_range lo hi c \<longleftrightarrow> lo \<le> byte_of c \<and> byte_of c \<le> hi"

definition is_upper :: "char \<Rightarrow> bool" where
  "is_upper c = in_range 65 90 c"

definition is_lower :: "char \<Rightarrow> bool" where
  "is_lower c = in_range 97 122 c"

definition is_digit :: "char \<Rightarrow> bool" where
  "is_digit c = in_range 48 57 c"

definition is_alpha :: "char \<Rightarrow> bool" where
  "is_alpha c \<longleftrightarrow> is_upper c \<or> is_lower c"

definition is_alnum :: "char \<Rightarrow> bool" where
  "is_alnum c \<longleftrightarrow> is_alpha c \<or> is_digit c"

lemmas byte_class_defs =
  byte_of_def in_range_def is_upper_def is_lower_def is_digit_def is_alpha_def is_alnum_def

abbreviation dquote :: char where "dquote \<equiv> CHR 0x22"
abbreviation squote :: char where "squote \<equiv> CHR 0x27"
abbreviation bslash :: char where "bslash \<equiv> CHR 0x5C"

lemma byte_of_less [simp]: "byte_of c < 256"
proof -
  have "of_char (char_of (byte_of c)) = byte_of c mod 256" by (rule of_char_of)
  then show ?thesis by (simp add: byte_of_def)
qed

subsection \<open>Routines of \<open>strings\<close>\<close>

definition upper_char :: "char \<Rightarrow> char" where
  "upper_char c = (if is_lower c then char_of (byte_of c - 32) else c)"

definition lower_char :: "char \<Rightarrow> char" where
  "lower_char c = (if is_upper c then char_of (byte_of c + 32) else c)"

definition to_upper :: "string \<Rightarrow> string" where
  "to_upper s = map upper_char s"

definition to_lower :: "string \<Rightarrow> string" where
  "to_lower s = map lower_char s"

definition equal_fold :: "string \<Rightarrow> string \<Rightarrow> bool" where
  "equal_fold s t \<longleftrightarrow> to_lower s = to_lower t"

text \<open>\<open>strings.ReplaceAll\<close> with a one-byte pattern, the only use the controller makes of it.\<close>

definition replace_all :: "char \<Rightarrow> string \<Rightarrow> string \<Rightarrow> string" where
  "replace_all c new s = concat (map (\<lambda>x. if x = c then new else [x]) s)"

fun index_byte :: "string \<Rightarrow> char \<Rightarrow> nat option" where
  "index_byte [] c = None"
| "index_byte (x # xs) c = (if x = c then Some 0 else map_option Suc (index_byte xs c))"

definition has_prefix :: "string \<Rightarrow> string \<Rightarrow> bool" where
  "has_prefix s p \<longleftrightarrow> take (length p) s = p"

fun contains_sub :: "string \<Rightarrow> string \<Rightarrow> bool" where
  "contains_sub [] p \<longleftrightarrow> p = []"
| "contains_sub (x # xs) p \<longleftrightarrow> has_prefix (x # xs) p \<or> contains_sub xs p"

fun str_join :: "string \<Rightarrow> string list \<Rightarrow> string" where
  "str_join sep [] = []"
| "str_join sep [x] = x"
| "str_join sep (x # y # ys) = x @ sep @ str_join sep (y # ys)"

lemma replace_all_Nil [simp]: "replace_all c new [] = []"
  by (simp add: replace_all_def)

lemma replace_all_Cons [simp]:
  "replace_all c new (x # xs) = (if x = c then new else [x]) @ replace_all c new xs"
  by (simp add: replace_all_def)

lemma replace_all_append [simp]:
  "replace_all c new (xs @ ys) = replace_all c new xs @ replace_all c new ys"
  by (simp add: replace_all_def)

lemma replace_all_single: "replace_all c [d] s = map (\<lambda>x. if x = c then d else x) s"
  by (induction s) auto

lemma length_replace_all_single [simp, go_str]: "length (replace_all c [d] s) = length s"
  by (simp add: replace_all_single)

lemma replace_all_absent: "c \<notin> set s \<Longrightarrow> replace_all c new s = s"
  by (induction s) auto

lemma length_to_lower [simp, go_str]: "length (to_lower s) = length s"
  by (simp add: to_lower_def)

lemma length_to_upper [simp, go_str]: "length (to_upper s) = length s"
  by (simp add: to_upper_def)

lemma byte_of_char_of [simp]: "byte_of (char_of n) = n mod 256"
  by (simp add: byte_of_def)

lemma byte_of_lower_char: "is_upper c \<Longrightarrow> byte_of (lower_char c) = byte_of c + 32"
  by (simp add: lower_char_def is_upper_def in_range_def)

lemma byte_of_upper_char: "is_lower c \<Longrightarrow> byte_of (upper_char c) = byte_of c - 32"
  using less_imp_diff_less [OF byte_of_less [of c], of 32] by (simp add: upper_char_def)

lemma lower_char_id [simp]: "\<not> is_upper c \<Longrightarrow> lower_char c = c"
  by (simp add: lower_char_def)

lemma upper_char_id [simp]: "\<not> is_lower c \<Longrightarrow> upper_char c = c"
  by (simp add: upper_char_def)

lemma list_all_weaken: "list_all P xs \<Longrightarrow> (\<And>x. P x \<Longrightarrow> Q x) \<Longrightarrow> list_all Q xs"
  by (auto simp: list_all_iff)

lemma equal_fold_refl [simp]: "equal_fold s s"
  by (simp add: equal_fold_def)

lemma equal_fold_sym: "equal_fold s t \<longleftrightarrow> equal_fold t s"
  by (auto simp: equal_fold_def)

lemma equal_fold_trans: "equal_fold s t \<Longrightarrow> equal_fold t u \<Longrightarrow> equal_fold s u"
  by (simp add: equal_fold_def)

lemma index_byte_Some:
  "index_byte s c = Some i \<Longrightarrow> i < length s \<and> s ! i = c \<and> c \<notin> set (take i s)"
proof (induction s arbitrary: i)
  case (Cons x xs)
  show ?case
  proof (cases "x = c")
    case False
    with Cons.prems obtain j where "index_byte xs c = Some j" "i = Suc j" by auto
    with Cons.IH [of j] False show ?thesis by auto
  qed (use Cons.prems in auto)
qed simp

lemma index_byte_None: "index_byte s c = None \<longleftrightarrow> c \<notin> set s"
  by (induction s) auto

lemma index_byte_append: "c \<notin> set p \<Longrightarrow> index_byte (p @ c # r) c = Some (length p)"
  by (induction p) auto

lemma has_prefix_append [simp]: "has_prefix (p @ s) p"
  by (simp add: has_prefix_def)

lemma has_prefix_iff: "has_prefix s p \<longleftrightarrow> (\<exists>r. s = p @ r)"
  unfolding has_prefix_def by (metis append_eq_conv_conj append_take_drop_id)

lemma has_prefix_simps [simp]:
  "has_prefix s []" "\<not> has_prefix [] (c # p)"
  "has_prefix (x # s) (c # p) \<longleftrightarrow> x = c \<and> has_prefix s p"
  by (auto simp: has_prefix_iff)

text \<open>Two prefixes of one string agree where both are defined.\<close>

lemma has_prefix_clash: "has_prefix s (x # p) \<Longrightarrow> x \<noteq> y \<Longrightarrow> \<not> has_prefix s (y # q)"
  by (auto simp: has_prefix_iff)

subsection \<open>Decimal numbers: \<open>%d\<close> and \<open>strconv.Atoi\<close>\<close>

definition digit_char :: "nat \<Rightarrow> char" where
  "digit_char n = char_of (48 + n)"

fun show_nat :: "nat \<Rightarrow> string" where
  "show_nat n = (if n < 10 then [digit_char n] else show_nat (n div 10) @ [digit_char (n mod 10)])"

declare show_nat.simps [simp del]

definition show_int :: "int \<Rightarrow> string" where
  "show_int i = (if i < 0 then CHR ''-'' # show_nat (nat (- i)) else show_nat (nat i))"

fun read_digits :: "nat \<Rightarrow> string \<Rightarrow> nat option" where
  "read_digits acc [] = Some acc"
| "read_digits acc (c # cs) =
     (if is_digit c then read_digits (10 * acc + (byte_of c - 48)) cs else None)"

definition read_nat :: "string \<Rightarrow> nat option" where
  "read_nat s = (if s = [] then None else read_digits 0 s)"

text \<open>\<open>strconv.Atoi\<close> on a 64-bit platform: an optional sign, decimal digits, in range.\<close>

definition atoi :: "string \<Rightarrow> int option" where
  "atoi s =
     (let r = (case s of
                 [] \<Rightarrow> None
               | c # cs \<Rightarrow>
                   if c = CHR ''-'' then map_option (\<lambda>n. - int n) (read_nat cs)
                   else if c = CHR ''+'' then map_option int (read_nat cs)
                   else map_option int (read_nat s))
      in case r of
           None \<Rightarrow> None
         | Some i \<Rightarrow> if - (2 ^ 63) \<le> i \<and> i < 2 ^ 63 then Some i else None)"

lemma byte_of_digit_char [simp]: "d < 10 \<Longrightarrow> byte_of (digit_char d) = 48 + d"
  by (simp add: byte_of_def digit_char_def)

lemma is_digit_digit_char [simp]: "d < 10 \<Longrightarrow> is_digit (digit_char d)"
  by (simp add: is_digit_def in_range_def)

lemma show_nat_nonempty [simp]: "show_nat n \<noteq> []"
  by (subst show_nat.simps) simp

lemma show_nat_digits: "list_all is_digit (show_nat n)"
proof (induction n rule: show_nat.induct)
  case (1 n)
  then show ?case by (subst show_nat.simps) auto
qed

lemma read_digits_append:
  "read_digits acc (xs @ ys) = Option.bind (read_digits acc xs) (\<lambda>a. read_digits a ys)"
  by (induction xs arbitrary: acc) auto

lemma read_digits_show_nat: "read_digits 0 (show_nat n) = Some n"
proof (induction n rule: show_nat.induct)
  case (1 n)
  show ?case
  proof (cases "n < 10")
    case True
    then show ?thesis by (subst show_nat.simps) simp
  next
    case False
    with 1 have "read_digits 0 (show_nat (n div 10)) = Some (n div 10)" by simp
    with False show ?thesis by (subst show_nat.simps) (simp add: read_digits_append)
  qed
qed

lemma read_nat_show_nat [simp]: "read_nat (show_nat n) = Some n"
  by (simp add: read_nat_def read_digits_show_nat)

lemma show_nat_inject [simp]: "show_nat m = show_nat n \<longleftrightarrow> m = n"
  using read_nat_show_nat by (metis option.inject)

lemma not_digit_sign: "\<not> is_digit (CHR ''-'')" "\<not> is_digit (CHR ''+'')"
  by (simp_all add: byte_class_defs)

lemma hd_show_nat_digit: "show_nat n = c # cs \<Longrightarrow> is_digit c"
  using show_nat_digits [of n] by simp

lemma atoi_show_int: "- (2 ^ 63) \<le> i \<Longrightarrow> i < 2 ^ 63 \<Longrightarrow> atoi (show_int i) = Some i"
proof (cases "i < 0")
  case True
  assume "- (2 ^ 63) \<le> i"
  with True show ?thesis by (simp add: atoi_def show_int_def)
next
  case False
  assume "i < 2 ^ 63"
  obtain c cs where s: "show_nat (nat i) = c # cs"
    using show_nat_nonempty [of "nat i"] by (cases "show_nat (nat i)") auto
  then have "is_digit c" by (rule hd_show_nat_digit)
  with not_digit_sign have "c \<noteq> CHR ''-''" "c \<noteq> CHR ''+''" by auto
  moreover have "read_nat (c # cs) = Some (nat i)"
    using read_nat_show_nat [of "nat i"] s by simp
  ultimately show ?thesis
    using False \<open>i < 2 ^ 63\<close> s by (simp add: atoi_def show_int_def)
qed

subsection \<open>Quoting: \<open>%q\<close>\<close>

text \<open>
  \<open>strconv.Quote\<close> on ASCII bytes; the bytes of a multi-byte rune are kept as they are,
  as Quote does for a printable rune.
\<close>

definition hex_digit :: "nat \<Rightarrow> char" where
  "hex_digit n = (if n < 10 then char_of (48 + n) else char_of (87 + n))"

definition quote_char :: "char \<Rightarrow> string" where
  "quote_char c =
     (let n = byte_of c in
      if c = dquote then [bslash, dquote]
      else if c = bslash then [bslash, bslash]
      else if n = 7 then [bslash, CHR ''a'']
      else if n = 8 then [bslash, CHR ''b'']
      else if n = 12 then [bslash, CHR ''f'']
      else if n = 10 then [bslash, CHR ''n'']
      else if n = 13 then [bslash, CHR ''r'']
      else if n = 9 then [bslash, CHR ''t'']
      else if n = 11 then [bslash, CHR ''v'']
      else if n < 32 \<or> n = 127 then [bslash, CHR ''x'', hex_digit (n div 16), hex_digit (n mod 16)]
      else [c])"

definition quote_go :: "string \<Rightarrow> string" where
  "quote_go s = dquote # concat (map quote_char s) @ [dquote]"

text \<open>\<open>%t\<close> on a boolean.\<close>

definition show_bool :: "bool \<Rightarrow> string" where
  "show_bool b = (if b then ''true'' else ''false'')"

subsection \<open>Lists, options and maps\<close>

lemma list_all_replace_single:
  assumes "list_all P s" and "P d"
  shows "list_all P (replace_all c [d] s)"
  using assms by (induction s) auto

lemma find_Some_set: "List.find P xs = Some x \<Longrightarrow> x \<in> set xs \<and> P x"
  by (auto simp: find_Some_iff)

lemma find_None_set: "List.find P xs = None \<longleftrightarrow> (\<forall>x. x \<in> set xs \<longrightarrow> \<not> P x)"
  by (auto simp: find_None_iff)

lemma find_append:
  "List.find P (xs @ ys) = (case List.find P xs of None \<Rightarrow> List.find P ys | Some x \<Rightarrow> Some x)"
  by (induction xs) auto

lemma map_of_rev_distinct:
  assumes "distinct (map fst xs)"
  shows "map_of (rev xs) = map_of xs"
proof
  fix k
  from assms have d: "distinct (map fst (rev xs))" by (simp add: rev_map [symmetric])
  show "map_of (rev xs) k = map_of xs k"
  proof (cases "map_of xs k")
    case None
    then have "map_of (rev xs) k = None" by (simp add: map_of_eq_None_iff)
    with None show ?thesis by simp
  next
    case (Some v)
    with assms have "(k, v) \<in> set (rev xs)" by simp
    with d Some show ?thesis by simp
  qed
qed

lemma sum_case_Inl_iff: "isl r \<longleftrightarrow> (\<exists>e. r = Inl e)"
  by (cases r) auto

end
