(* ===== verification/Errors.thy ===== *)
theory Errors
  imports Prelude
begin

text \<open>
  \<open>internal/errors/errors.go\<close> and the Go error values the controller inspects.
  A Go error is a tree: the concrete error and what it wraps.  \<open>UserError\<close> is the
  unexported \<open>userError\<close>; \<open>ErrPendingDeletion\<close> the sentinel of package secrets;
  \<open>Errorf\<close> an error made by \<open>fmt.Errorf\<close> (its rendered text and its \<open>%w\<close> operands, in
  order), or another package's wrapper with that behaviour; \<open>JoinError\<close> the value of
  \<open>errors.Join\<close>; \<open>StmtError\<close> is \<open>statement.Error\<close>; the constructors after it are the
  errors of other packages the source looks at, with the fields it reads and the text
  their own Error method returns.
\<close>

datatype gerror =
    UserError string
  | ErrPendingDeletion
  | Errorf string "gerror list"
  | JoinError "gerror list"
  | StmtError (se_label: string) (se_statement: string) (se_query_id: string)
      (se_number: int) (se_sqlstate: string) (se_err: gerror)
  | SnowflakeError (sf_number: int) (sf_sqlstate: string) (sf_query_id: string) (sf_text: string)
  | InvalidRequestException (ir_message: string) (ir_text: string)
  | ResourceNotFoundException string
  | Foreign string

type_synonym 'a result = "gerror + 'a"

text \<open>The two idioms of error handling: \<open>x, err := f(); if err != nil { return err }\<close>, and a
  sequence of checks of which the first to fail is returned.\<close>

definition and_then :: "'a result \<Rightarrow> ('a \<Rightarrow> 'b result) \<Rightarrow> 'b result" where
  "and_then r f = (case r of Inl e \<Rightarrow> Inl e | Inr a \<Rightarrow> f a)"

fun first_error :: "gerror option list \<Rightarrow> gerror option" where
  "first_error [] = None"
| "first_error (Some e # cs) = Some e"
| "first_error (None # cs) = first_error cs"

lemma and_then_simps [simp]: "and_then (Inl e) f = Inl e" "and_then (Inr a) f = f a"
  by (simp_all add: and_then_def)

lemma and_then_Inr: "and_then r f = Inr b \<longleftrightarrow> (\<exists>a. r = Inr a \<and> f a = Inr b)"
  by (cases r) simp_all

lemma and_then_Inl: "and_then r f = Inl e \<longleftrightarrow> r = Inl e \<or> (\<exists>a. r = Inr a \<and> f a = Inl e)"
  by (cases r) simp_all

lemma first_error_None: "first_error cs = None \<longleftrightarrow> (\<forall>c. c \<in> set cs \<longrightarrow> c = None)"
  by (induction cs rule: first_error.induct) auto

lemma first_error_Some: "first_error cs = Some e \<Longrightarrow> Some e \<in> set cs"
  by (induction cs rule: first_error.induct) auto

subsection \<open>Chains: \<open>errors.Is\<close> and \<open>errors.As\<close>\<close>

text \<open>The errors reached by unwrapping, outermost first and depth first, as the standard
  library visits them.\<close>

fun err_chain :: "gerror \<Rightarrow> gerror list" where
  "err_chain (Errorf m es) = Errorf m es # concat (map err_chain es)"
| "err_chain (JoinError es) = JoinError es # concat (map err_chain es)"
| "err_chain (StmtError l st q n ss e) = StmtError l st q n ss e # err_chain e"
| "err_chain e = [e]"

fun is_user_node :: "gerror \<Rightarrow> bool" where
  "is_user_node (UserError m) = True"
| "is_user_node _ = False"

definition errors_Is :: "gerror \<Rightarrow> gerror \<Rightarrow> bool" where
  "errors_Is e target \<longleftrightarrow> List.member (err_chain e) target"

definition errors_As :: "(gerror \<Rightarrow> bool) \<Rightarrow> gerror \<Rightarrow> gerror option" where
  "errors_As is_target e = List.find is_target (err_chain e)"

definition IsUserError :: "gerror \<Rightarrow> bool" where
  "IsUserError e \<longleftrightarrow> errors_As is_user_node e \<noteq> None"

lemma err_chain_self [simp]: "e \<in> set (err_chain e)"
  by (cases e) auto

lemma IsUserError_iff: "IsUserError e \<longleftrightarrow> (\<exists>m. UserError m \<in> set (err_chain e))"
proof -
  have "is_user_node x \<longleftrightarrow> (\<exists>m. x = UserError m)" for x by (cases x) auto
  then show ?thesis by (auto simp: IsUserError_def errors_As_def find_None_set)
qed

lemma IsUserError_simps [simp]:
  "IsUserError (UserError m)"
  "IsUserError (Errorf m es) \<longleftrightarrow> (\<exists>e \<in> set es. IsUserError e)"
  "IsUserError (JoinError es) \<longleftrightarrow> (\<exists>e \<in> set es. IsUserError e)"
  "IsUserError (StmtError l st q n ss e) \<longleftrightarrow> IsUserError e"
  "\<not> IsUserError ErrPendingDeletion"
  "\<not> IsUserError (SnowflakeError i ss q t)"
  "\<not> IsUserError (InvalidRequestException t t')"
  "\<not> IsUserError (ResourceNotFoundException t)"
  "\<not> IsUserError (Foreign t)"
  by (auto simp: IsUserError_iff)

lemma errors_Is_iff: "errors_Is e t \<longleftrightarrow> t \<in> set (err_chain e)"
  by (simp add: errors_Is_def)

subsection \<open>Error texts\<close>

fun is_snowflake :: "gerror \<Rightarrow> bool" where
  "is_snowflake (SnowflakeError n ss q t) = True"
| "is_snowflake _ = False"

text \<open>The Error methods: \<open>errors.Join\<close> puts the texts on lines of their own, and
  \<open>statement.Error\<close> shows the driver's code when its chain holds a driver error.\<close>

fun err_text :: "gerror \<Rightarrow> string" where
  "err_text (UserError m) = m"
| "err_text ErrPendingDeletion = ''secrets: identifier pending deletion''"
| "err_text (Errorf m es) = m"
| "err_text (JoinError es) = str_join [CHR 0x0A] (map err_text es)"
| "err_text (StmtError l st q n ss e) =
     (if errors_As is_snowflake e \<noteq> None
      then l @ '': failed (Number='' @ show_int n @ '' SQLState='' @ ss @ ''): '' @ err_text e
      else l @ '': failed: '' @ err_text e)"
| "err_text (SnowflakeError n ss q t) = t"
| "err_text (InvalidRequestException m t) = t"
| "err_text (ResourceNotFoundException t) = t"
| "err_text (Foreign t) = t"

text \<open>\<open>fmt.Errorf("<pre>%w", err)\<close>: the form of almost every wrapping in the source.\<close>

definition wrap :: "string \<Rightarrow> gerror \<Rightarrow> gerror" where
  "wrap pre e = Errorf (pre @ err_text e) [e]"

text \<open>\<open>fmt.Errorf\<close> without \<open>%w\<close>: a leaf.\<close>

definition plain_error :: "string \<Rightarrow> gerror" where
  "plain_error m = Errorf m []"

lemma IsUserError_wrap [simp]: "IsUserError (wrap pre e) \<longleftrightarrow> IsUserError e"
  by (simp add: wrap_def)

lemma IsUserError_plain [simp]: "\<not> IsUserError (plain_error m)"
  by (simp add: plain_error_def)

lemma err_text_wrap [simp]: "err_text (wrap pre e) = pre @ err_text e"
  by (simp add: wrap_def)

lemma errors_Is_wrap [simp]:
  "t \<noteq> wrap pre e \<Longrightarrow> errors_Is (wrap pre e) t \<longleftrightarrow> errors_Is e t"
  by (auto simp: errors_Is_iff wrap_def)

subsection \<open>\<open>NewUserError\<close>\<close>

definition maxMsgLen :: nat where
  "maxMsgLen = 256"

definition defaultEmptyMsg :: string where
  "defaultEmptyMsg =
     ''invalid configuration '' @ [CHR 0xE2, CHR 0x80, CHR 0x94] @ '' no details provided''"

definition NewUserError :: "string \<Rightarrow> gerror" where
  "NewUserError msg =
     (if msg = [] then UserError defaultEmptyMsg
      else if length msg > maxMsgLen then UserError (take maxMsgLen msg @ ''...'')
      else UserError msg)"

lemma IsUserError_NewUserError [simp]: "IsUserError (NewUserError m)"
  by (simp add: NewUserError_def)

lemma err_chain_NewUserError [simp]: "err_chain (NewUserError m) = [NewUserError m]"
  by (simp add: NewUserError_def)

lemma NewUserError_not_sentinel [simp]: "NewUserError m \<noteq> ErrPendingDeletion"
  by (simp add: NewUserError_def)

subsection \<open>Properties\<close>

text \<open>Whatever message it is given, NewUserError makes an error that is classified as a user
  error, also under any wrapping, with a non-empty text of at most 259 bytes: the message
  itself when it has 1 to 256 bytes, its first 256 bytes and an ellipsis when it has more.\<close>

theorem NewUserError_text:
  "(let t = err_text (NewUserError msg) in t \<noteq> [] \<and> length t \<le> 259 \<and>
      take 256 t = (if msg = [] then defaultEmptyMsg else take 256 msg)) \<and>
   IsUserError (NewUserError msg) \<and> IsUserError (wrap pre (NewUserError msg))"
  by (simp add: NewUserError_def maxMsgLen_def defaultEmptyMsg_def Let_def min_def)

end
