(* ===== verification/Go_Regex.thy ===== *)
theory Go_Regex
  imports Prelude
begin

text \<open>
  The regular expressions of the source, as data: \<open>rexp\<close> has the operators the
  patterns use, \<open>re_match\<close> decides \<open>regexp.MatchString\<close> for a pattern anchored by
  \<open>^\<close> and \<open>$\<close> by Brzozowski derivatives (executable), and \<open>re_lang\<close> is the language
  of a pattern.  \<open>re_match_iff\<close> says the two agree, so every fact about a pattern of the
  source is a fact about its language.
\<close>

datatype rexp =
    RZero
  | ROne
  | RCls "char \<Rightarrow> bool"
  | RSeq rexp rexp
  | RAlt rexp rexp
  | RStar rexp

definition re_conc :: "string set \<Rightarrow> string set \<Rightarrow> string set" where
  "re_conc A B = {xs @ ys | xs ys. xs \<in> A \<and> ys \<in> B}"

inductive_set re_star :: "string set \<Rightarrow> string set" for A :: "string set" where
  star_Nil: "[] \<in> re_star A"
| star_step: "xs \<in> A \<Longrightarrow> ys \<in> re_star A \<Longrightarrow> xs @ ys \<in> re_star A"

primrec re_lang :: "rexp \<Rightarrow> string set" where
  "re_lang RZero = {}"
| "re_lang ROne = {[]}"
| "re_lang (RCls P) = {[c] | c. P c}"
| "re_lang (RSeq r s) = re_conc (re_lang r) (re_lang s)"
| "re_lang (RAlt r s) = re_lang r \<union> re_lang s"
| "re_lang (RStar r) = re_star (re_lang r)"

primrec re_nullable :: "rexp \<Rightarrow> bool" where
  "re_nullable RZero = False"
| "re_nullable ROne = True"
| "re_nullable (RCls P) = False"
| "re_nullable (RSeq r s) = (re_nullable r \<and> re_nullable s)"
| "re_nullable (RAlt r s) = (re_nullable r \<or> re_nullable s)"
| "re_nullable (RStar r) = True"

text \<open>Constructors that drop the trivial parts, so that derivatives stay small.\<close>

fun mk_seq :: "rexp \<Rightarrow> rexp \<Rightarrow> rexp" where
  "mk_seq RZero s = RZero"
| "mk_seq ROne s = s"
| "mk_seq r s = RSeq r s"

fun mk_alt :: "rexp \<Rightarrow> rexp \<Rightarrow> rexp" where
  "mk_alt RZero s = s"
| "mk_alt r RZero = r"
| "mk_alt r s = RAlt r s"

primrec re_deriv :: "char \<Rightarrow> rexp \<Rightarrow> rexp" where
  "re_deriv c RZero = RZero"
| "re_deriv c ROne = RZero"
| "re_deriv c (RCls P) = (if P c then ROne else RZero)"
| "re_deriv c (RSeq r s) =
     (if re_nullable r then mk_alt (mk_seq (re_deriv c r) s) (re_deriv c s)
      else mk_seq (re_deriv c r) s)"
| "re_deriv c (RAlt r s) = mk_alt (re_deriv c r) (re_deriv c s)"
| "re_deriv c (RStar r) = mk_seq (re_deriv c r) (RStar r)"

fun re_match :: "rexp \<Rightarrow> string \<Rightarrow> bool" where
  "re_match r [] = re_nullable r"
| "re_match r (c # cs) = re_match (re_deriv c r) cs"

subsection \<open>The matcher decides the language\<close>

lemma re_conc_iff: "w \<in> re_conc A B \<longleftrightarrow> (\<exists>xs ys. w = xs @ ys \<and> xs \<in> A \<and> ys \<in> B)"
  by (auto simp: re_conc_def)

lemma re_conc_empty [simp]: "re_conc {} B = {}" "re_conc A {} = {}"
  by (auto simp: re_conc_def)

lemma re_conc_eps [simp]: "re_conc {[]} B = B" "re_conc A {[]} = A"
  by (auto simp: re_conc_def)

lemma re_lang_mk_seq [simp]: "re_lang (mk_seq r s) = re_conc (re_lang r) (re_lang s)"
  by (cases r) simp_all

lemma re_lang_mk_alt [simp]: "re_lang (mk_alt r s) = re_lang r \<union> re_lang s"
  by (cases r; cases s) auto

lemma re_nullable_iff: "re_nullable r \<longleftrightarrow> [] \<in> re_lang r"
  by (induction r) (auto simp: re_conc_iff star_Nil)

lemma Nil_in_re_star [simp]: "[] \<in> re_star A"
  by (rule star_Nil)

lemma Cons_in_re_star:
  "c # cs \<in> re_star A \<longleftrightarrow> (\<exists>xs ys. cs = xs @ ys \<and> c # xs \<in> A \<and> ys \<in> re_star A)"
proof
  assume "c # cs \<in> re_star A"
  then show "\<exists>xs ys. cs = xs @ ys \<and> c # xs \<in> A \<and> ys \<in> re_star A"
  proof (induction "c # cs" arbitrary: c cs rule: re_star.induct)
    case (star_step xs ys)
    then show ?case by (cases xs) auto
  qed
next
  assume "\<exists>xs ys. cs = xs @ ys \<and> c # xs \<in> A \<and> ys \<in> re_star A"
  then obtain xs ys where "cs = xs @ ys" "c # xs \<in> A" "ys \<in> re_star A" by blast
  then show "c # cs \<in> re_star A"
    using star_step [of "c # xs" A ys] by simp
qed

lemma Cons_in_re_conc:
  "c # cs \<in> re_conc A B \<longleftrightarrow>
     (\<exists>xs ys. cs = xs @ ys \<and> c # xs \<in> A \<and> ys \<in> B) \<or> ([] \<in> A \<and> c # cs \<in> B)"
  unfolding re_conc_iff
  by (auto simp: Cons_eq_append_conv)

lemma re_deriv_lang: "cs \<in> re_lang (re_deriv c r) \<longleftrightarrow> c # cs \<in> re_lang r"
proof (induction r arbitrary: cs)
  case (RSeq r s)
  have key: "cs \<in> re_conc (re_lang (re_deriv c r)) B \<longleftrightarrow>
      (\<exists>xs ys. cs = xs @ ys \<and> c # xs \<in> re_lang r \<and> ys \<in> B)" for B
    by (simp add: re_conc_iff RSeq)
  show ?case by (simp add: Cons_in_re_conc re_nullable_iff key RSeq)
next
  case (RStar r)
  have "cs \<in> re_conc (re_lang (re_deriv c r)) B \<longleftrightarrow>
      (\<exists>xs ys. cs = xs @ ys \<and> c # xs \<in> re_lang r \<and> ys \<in> B)" for B
    by (simp add: re_conc_iff RStar)
  then show ?case by (simp add: Cons_in_re_star)
qed auto

lemma re_match_iff: "re_match r s \<longleftrightarrow> s \<in> re_lang r"
  by (induction s arbitrary: r) (auto simp: re_nullable_iff re_deriv_lang)

subsection \<open>The derived operators of the patterns\<close>

definition re_plus :: "rexp \<Rightarrow> rexp" where
  "re_plus r = RSeq r (RStar r)"

primrec re_rep :: "nat \<Rightarrow> rexp \<Rightarrow> rexp" where
  "re_rep 0 r = ROne"
| "re_rep (Suc n) r = RSeq r (re_rep n r)"

definition re_lit :: "string \<Rightarrow> rexp" where
  "re_lit s = foldr (\<lambda>c r. RSeq (RCls (\<lambda>x. x = c)) r) s ROne"

text \<open>An unanchored pattern matches when some substring does.\<close>

definition re_search :: "rexp \<Rightarrow> string \<Rightarrow> bool" where
  "re_search r s = re_match (RSeq (RStar (RCls (\<lambda>_. True))) (RSeq r (RStar (RCls (\<lambda>_. True))))) s"

lemma re_star_Cls: "s \<in> re_star {[c] | c. P c} \<longleftrightarrow> list_all P s"
proof (induction s)
  case (Cons c cs)
  then show ?case by (auto simp: Cons_in_re_star)
qed simp

lemma re_lang_star_Cls [simp]: "re_lang (RStar (RCls P)) = {s. list_all P s}"
  using re_star_Cls by auto

lemma re_lang_lit [simp]: "re_lang (re_lit s) = {s}"
  unfolding re_lit_def by (induction s) (auto simp: re_conc_def)

lemma re_conc_Cls:
  "s \<in> re_conc {[c] | c. P c} B \<longleftrightarrow> (case s of [] \<Rightarrow> False | c # cs \<Rightarrow> P c \<and> cs \<in> B)"
proof (cases s)
  case (Cons c cs)
  then show ?thesis by (simp add: Cons_in_re_conc)
qed (auto simp: re_conc_iff)

lemma re_lang_rep_Cls: "s \<in> re_lang (re_rep n (RCls P)) \<longleftrightarrow> length s = n \<and> list_all P s"
proof (induction n arbitrary: s)
  case (Suc n)
  then show ?case by (cases s) (auto simp: re_conc_Cls)
qed auto

lemma re_search_iff:
  "re_search r s \<longleftrightarrow> (\<exists>a m b. s = a @ m @ b \<and> m \<in> re_lang r)"
  unfolding re_search_def re_match_iff
  by (simp add: re_conc_iff list_all_iff del: re_lang.simps(6)) blast

text \<open>The shape \<open>^[P][Q]*$\<close> shared by most patterns of the source.\<close>

definition re_head_tail :: "(char \<Rightarrow> bool) \<Rightarrow> (char \<Rightarrow> bool) \<Rightarrow> rexp" where
  "re_head_tail P Q = RSeq (RCls P) (RStar (RCls Q))"

lemma re_match_head_tail:
  "re_match (re_head_tail P Q) s \<longleftrightarrow> (case s of [] \<Rightarrow> False | c # cs \<Rightarrow> P c \<and> list_all Q cs)"
  unfolding re_match_iff re_head_tail_def
  by (simp add: re_conc_Cls del: re_lang.simps(6) split: list.splits)

end
