(* ===== verification/Identifier.thy ===== *)
theory Identifier
  imports Errors Go_Regex
begin

text \<open>
  \<open>internal/secrets/identifier.go\<close>: the names credentials are stored under.  The main
  lemma is unique decodability: what follows the prefix determines its segments, up to the
  \<open>_\<close>/\<open>-\<close> translation, although segments may contain and even end with a dash.
\<close>

definition maxIdentifierLen :: nat where
  "maxIdentifierLen = 127"

definition seg_char :: "char \<Rightarrow> bool" where
  "seg_char c \<longleftrightarrow> is_alnum c \<or> c = CHR ''_'' \<or> c = CHR ''-''"

definition sep_char :: "char \<Rightarrow> bool" where
  "sep_char c \<longleftrightarrow> c = CHR ''-'' \<or> c = CHR ''_''"

definition segmentPattern :: rexp where
  "segmentPattern = re_head_tail is_alnum seg_char"

definition separatorRunPattern :: rexp where
  "separatorRunPattern = RSeq (re_rep 2 (RCls sep_char)) (RStar (RCls sep_char))"

definition segment_error :: "string \<Rightarrow> string \<Rightarrow> gerror" where
  "segment_error name value =
     NewUserError (''invalid secret identifier segment '' @ quote_go value @ '' for '' @ name @
       '': must start with a letter or digit and contain only letters, digits, single '' @
       [squote, CHR ''_'', squote] @ '', or single '' @ [squote, CHR ''-'', squote] @
       '' (no repeated '' @ [squote, CHR ''-'', squote, CHR ''/'', squote, CHR ''_'', squote] @ '')'')"

definition validateSegment :: "string \<Rightarrow> string \<Rightarrow> gerror option" where
  "validateSegment name value =
     (if \<not> re_match segmentPattern value \<or> re_search separatorRunPattern value
      then Some (segment_error name value) else None)"

definition toSecretSafe :: "string \<Rightarrow> string" where
  "toSecretSafe s = replace_all (CHR ''_'') ''-'' s"

definition ident_length_error :: "string \<Rightarrow> gerror" where
  "ident_length_error value =
     plain_error (''secret identifier '' @ quote_go value @ '' is '' @ show_nat (length value) @
       '' characters, which exceeds the '' @ show_nat maxIdentifierLen @
       ''-character limit shared by supported secrets-manager backends'')"

definition checkLen :: "string \<Rightarrow> gerror option" where
  "checkLen value = (if length value > maxIdentifierLen then Some (ident_length_error value) else None)"

datatype ident = Identifier (ident_value: string)

text \<open>The loop over the named segments returns the first failure.\<close>

fun validate_segments :: "(string \<times> string) list \<Rightarrow> gerror option" where
  "validate_segments [] = None"
| "validate_segments ((name, value) # segs) =
     (case validateSegment name value of Some e \<Rightarrow> Some e | None \<Rightarrow> validate_segments segs)"

definition tenant_value :: "string \<Rightarrow> string \<Rightarrow> string \<Rightarrow> string" where
  "tenant_value org namespace accountName =
     ''yk-'' @ toSecretSafe org @ ''--'' @ toSecretSafe namespace @ ''--'' @ toSecretSafe accountName"

definition NewTenantIdentifier :: "string \<Rightarrow> string \<Rightarrow> string \<Rightarrow> ident result" where
  "NewTenantIdentifier org namespace accountName =
     (case validate_segments [(''org'', org), (''namespace'', namespace), (''accountName'', accountName)] of
        Some e \<Rightarrow> Inl e
      | None \<Rightarrow>
          let value = tenant_value org namespace accountName
          in (case checkLen value of Some e \<Rightarrow> Inl e | None \<Rightarrow> Inr (Identifier value)))"

definition orgadmin_value :: "string \<Rightarrow> string \<Rightarrow> string" where
  "orgadmin_value org orgAdminAccount =
     ''yk-orgadmin--'' @ toSecretSafe org @ ''--'' @ toSecretSafe orgAdminAccount"

definition NewOrgAdminIdentifier :: "string \<Rightarrow> string \<Rightarrow> ident result" where
  "NewOrgAdminIdentifier org orgAdminAccount =
     (case validate_segments [(''org'', org), (''orgAdminAccount'', orgAdminAccount)] of
        Some e \<Rightarrow> Inl e
      | None \<Rightarrow>
          let value = orgadmin_value org orgAdminAccount
          in (case checkLen value of Some e \<Rightarrow> Inl e | None \<Rightarrow> Inr (Identifier value)))"

subsection \<open>Valid segments\<close>

text \<open>What the two patterns say, without regular expressions.\<close>

fun adjacent_seps :: "string \<Rightarrow> bool" where
  "adjacent_seps (x # y # zs) \<longleftrightarrow> (sep_char x \<and> sep_char y) \<or> adjacent_seps (y # zs)"
| "adjacent_seps _ \<longleftrightarrow> False"

definition valid_segment :: "string \<Rightarrow> bool" where
  "valid_segment s \<longleftrightarrow>
     (case s of [] \<Rightarrow> False | c # cs \<Rightarrow> is_alnum c \<and> list_all seg_char cs) \<and> \<not> adjacent_seps s"

lemma adjacent_seps_split: "adjacent_seps (a @ x # y # b)" if "sep_char x" "sep_char y"
proof (induction a)
  case (Cons c a)
  then show ?case by (cases a) auto
qed (use that in simp)

lemma adjacent_seps_obtain:
  assumes "adjacent_seps s"
  obtains a x y b where "s = a @ x # y # b" "sep_char x" "sep_char y"
  using assms
proof (induction s arbitrary: thesis rule: adjacent_seps.induct)
  case (1 x y zs)
  show ?case
  proof (cases "sep_char x \<and> sep_char y")
    case True
    then show ?thesis using "1.prems"(1) [of "[]" x y zs] by simp
  next
    case False
    with "1.prems"(2) have "adjacent_seps (y # zs)" by simp
    from "1.IH" [OF _ this] obtain a u v b
      where "y # zs = a @ u # v # b" "sep_char u" "sep_char v" by blast
    then show ?thesis using "1.prems"(1) [of "x # a" u v b] by simp
  qed
qed simp_all

lemma re_search_separatorRun: "re_search separatorRunPattern s \<longleftrightarrow> adjacent_seps s"
proof
  assume "re_search separatorRunPattern s"
  then obtain a m b u v where s: "s = a @ m @ b" and m: "m = u @ v"
    and u: "length u = 2" "list_all sep_char u"
    by (auto simp: re_search_iff separatorRunPattern_def re_conc_iff re_lang_rep_Cls
        simp del: re_rep.simps)
  from u(1) obtain x y where "u = [x, y]" by (auto simp: length_Suc_conv numeral_2_eq_2)
  with s m u(2) adjacent_seps_split [of x y a "v @ b"] show "adjacent_seps s" by simp
next
  assume "adjacent_seps s"
  then obtain a x y b where s: "s = a @ [x, y] @ b" and "sep_char x" "sep_char y"
    by (auto elim: adjacent_seps_obtain)
  then have "[x, y] \<in> re_lang (re_rep 2 (RCls sep_char))" by (simp add: re_lang_rep_Cls)
  then have "[x, y] \<in> re_lang separatorRunPattern"
    unfolding separatorRunPattern_def by (force simp: re_conc_iff)
  with s show "re_search separatorRunPattern s" unfolding re_search_iff by blast
qed

lemma validateSegment_None: "validateSegment name value = None \<longleftrightarrow> valid_segment value"
  by (simp add: validateSegment_def segmentPattern_def re_match_head_tail re_search_separatorRun
      valid_segment_def)

lemma validateSegment_Some:
  "validateSegment name value = Some e \<longleftrightarrow> \<not> valid_segment value \<and> e = segment_error name value"
  using validateSegment_None [of name "value"]
  by (auto simp: validateSegment_def split: if_splits)

lemma validate_segments_None:
  "validate_segments segs = None \<longleftrightarrow> (\<forall>(name, value) \<in> set segs. valid_segment value)"
  by (induction segs rule: validate_segments.induct)
    (auto simp: validateSegment_None validateSegment_Some split: option.splits)

lemma validate_segments_user: "validate_segments segs = Some e \<Longrightarrow> IsUserError e"
  by (induction segs rule: validate_segments.induct)
    (auto simp: validateSegment_Some segment_error_def split: option.splits)

lemma NewTenantIdentifier_Inr:
  "NewTenantIdentifier org ns acct = Inr i \<longleftrightarrow>
     valid_segment org \<and> valid_segment ns \<and> valid_segment acct \<and>
     length (tenant_value org ns acct) \<le> maxIdentifierLen \<and> i = Identifier (tenant_value org ns acct)"
  using validate_segments_None [of "[(''org'', org), (''namespace'', ns), (''accountName'', acct)]"]
  by (auto simp: NewTenantIdentifier_def Let_def checkLen_def split: option.splits
      simp del: validate_segments.simps)

lemma NewOrgAdminIdentifier_Inr:
  "NewOrgAdminIdentifier org acct = Inr i \<longleftrightarrow>
     valid_segment org \<and> valid_segment acct \<and>
     length (orgadmin_value org acct) \<le> maxIdentifierLen \<and> i = Identifier (orgadmin_value org acct)"
  using validate_segments_None [of "[(''org'', org), (''orgAdminAccount'', acct)]"]
  by (auto simp: NewOrgAdminIdentifier_def Let_def checkLen_def split: option.splits
      simp del: validate_segments.simps)

subsection \<open>Unique decodability\<close>

fun double_dash :: "string \<Rightarrow> bool" where
  "double_dash (x # y # zs) \<longleftrightarrow> (x = CHR ''-'' \<and> y = CHR ''-'') \<or> double_dash (y # zs)"
| "double_dash _ \<longleftrightarrow> False"

definition safe_segment :: "string \<Rightarrow> bool" where
  "safe_segment s \<longleftrightarrow>
     (case s of [] \<Rightarrow> False | c # cs \<Rightarrow> c \<noteq> CHR ''-'') \<and> \<not> double_dash s"

lemma double_dash_append: "double_dash (xs @ CHR ''-'' # CHR ''-'' # ys)"
proof (induction xs)
  case (Cons a xs)
  then show ?case by (cases xs) auto
qed simp

lemma double_dash_toSecretSafe: "double_dash (toSecretSafe t) \<Longrightarrow> adjacent_seps t"
  by (induction t rule: adjacent_seps.induct)
    (auto simp: toSecretSafe_def sep_char_def split: if_splits)

lemma toSecretSafe_safe:
  assumes "valid_segment s"
  shows "safe_segment (toSecretSafe s)"
proof -
  from assms obtain c cs where s: "s = c # cs" "is_alnum c" "\<not> adjacent_seps s"
    by (auto simp: valid_segment_def split: list.splits)
  then have "c \<noteq> CHR ''-''" "c \<noteq> CHR ''_''" by (auto simp: byte_class_defs)
  with s double_dash_toSecretSafe [of s] show ?thesis
    by (auto simp: safe_segment_def toSecretSafe_def)
qed

text \<open>The separator after a segment is the last two dashes of the run it ends with.\<close>

lemma split_segment_aux:
  assumes "s @ ''--'' @ r = t @ ''--'' @ r'" and "\<not> double_dash t"
    and "hd r \<noteq> CHR ''-''" and "length s \<le> length t"
  shows "s = t"
proof -
  from assms(1,4) obtain u where u: "t = s @ u" "''--'' @ r = u @ ''--'' @ r'"
    by (auto simp: append_eq_append_conv2)
  show ?thesis
  proof (cases u)
    case (Cons a v)
    with u(2) have a: "a = CHR ''-''" "CHR ''-'' # r = v @ ''--'' @ r'" by auto
    show ?thesis
    proof (cases v)
      case Nil
      with a(2) have "r = CHR ''-'' # r'" by simp
      with assms(3) show ?thesis by simp
    next
      case (Cons b v')
      with a(2) have "b = CHR ''-''" by simp
      with u(1) a(1) \<open>u = a # v\<close> Cons have "t = s @ CHR ''-'' # CHR ''-'' # v'" by simp
      with assms(2) double_dash_append show ?thesis by blast
    qed
  qed (use u in simp)
qed

lemma split_segment:
  assumes eq: "s @ ''--'' @ r = t @ ''--'' @ r'"
    and dd: "\<not> double_dash s" "\<not> double_dash t"
    and hd: "hd r \<noteq> CHR ''-''" "hd r' \<noteq> CHR ''-''"
  shows "s = t \<and> r = r'"
proof -
  have "s = t"
  proof (cases "length s \<le> length t")
    case True
    from split_segment_aux [OF eq dd(2) hd(1) True] show ?thesis .
  next
    case False
    then have "length t \<le> length s" by simp
    from split_segment_aux [OF eq [symmetric] dd(1) hd(2) this] show ?thesis ..
  qed
  with eq show ?thesis by simp
qed

lemma safe_segment_hd: "safe_segment s \<Longrightarrow> hd (s @ r) \<noteq> CHR ''-''"
  by (auto simp: safe_segment_def split: list.splits)

lemma safe_segment_dd: "safe_segment s \<Longrightarrow> \<not> double_dash s"
  by (simp add: safe_segment_def)

lemma join2_inject:
  assumes eq: "a @ ''--'' @ b = a' @ ''--'' @ b'"
    and safe: "safe_segment a" "safe_segment b" "safe_segment a'" "safe_segment b'"
  shows "a = a' \<and> b = b'"
proof -
  have "hd b \<noteq> CHR ''-''" "hd b' \<noteq> CHR ''-''"
    using safe safe_segment_hd [of b "[]"] safe_segment_hd [of b' "[]"] by simp_all
  with safe show ?thesis by (intro split_segment [OF eq] safe_segment_dd)
qed

lemma join3_inject:
  assumes eq: "a @ ''--'' @ b @ ''--'' @ c = a' @ ''--'' @ b' @ ''--'' @ c'"
    and safe: "safe_segment a" "safe_segment b" "safe_segment c"
      "safe_segment a'" "safe_segment b'" "safe_segment c'"
  shows "a = a' \<and> b = b' \<and> c = c'"
proof -
  have h: "hd (b @ ''--'' @ c) \<noteq> CHR ''-''" "hd (b' @ ''--'' @ c') \<noteq> CHR ''-''"
    using safe(2,5) by (simp_all add: safe_segment_hd del: append_Cons hd_append2)
  have "a = a' \<and> b @ ''--'' @ c = b' @ ''--'' @ c'"
    using safe h by (intro split_segment [OF eq] safe_segment_dd)
  with safe join2_inject [of b c b' c'] show ?thesis by blast
qed

lemma NewTenantIdentifier_inject:
  assumes "NewTenantIdentifier o1 n1 a1 = Inr i" and "NewTenantIdentifier o2 n2 a2 = Inr i"
  shows "toSecretSafe o1 = toSecretSafe o2 \<and> toSecretSafe n1 = toSecretSafe n2 \<and>
         toSecretSafe a1 = toSecretSafe a2"
  using assms
  by (intro join3_inject) (auto simp: NewTenantIdentifier_Inr tenant_value_def intro: toSecretSafe_safe)

text \<open>A tenant identifier has one segment more than an org-admin identifier, but the
  prefix of the latter reads as a tenant organization of its own.\<close>

lemma tenant_orgadmin_overlap:
  assumes "NewTenantIdentifier o1 n1 a1 = Inr i" and "NewOrgAdminIdentifier o2 a2 = Inr i"
  shows "toSecretSafe o1 = ''orgadmin'' \<and> toSecretSafe n1 = toSecretSafe o2 \<and>
         toSecretSafe a1 = toSecretSafe a2"
proof -
  have "safe_segment ''orgadmin''" by (simp add: safe_segment_def)
  with assms show ?thesis
    by (intro join3_inject)
      (auto simp: NewTenantIdentifier_Inr NewOrgAdminIdentifier_Inr tenant_value_def
        orgadmin_value_def intro: toSecretSafe_safe)
qed

lemma toSecretSafe_id: "CHR ''_'' \<notin> set s \<Longrightarrow> toSecretSafe s = s"
  by (simp add: toSecretSafe_def replace_all_absent)

lemma length_toSecretSafe [simp, go_str]: "length (toSecretSafe s) = length s"
  by (simp add: toSecretSafe_def)

lemma length_tenant_value [go_str]:
  "length (tenant_value org ns acct) = 7 + length org + length ns + length acct"
  by (simp add: tenant_value_def)

subsection \<open>Properties\<close>

text \<open>C31: Two tenants get the same secret identifier only if their organization, namespace and
  account names agree up to exchanging underscores for dashes, so names without underscores
  never collide; an identifier has at most 127 bytes.\<close>

theorem tenant_identifier_injective:
  assumes "NewTenantIdentifier o1 n1 a1 = Inr i" and "NewTenantIdentifier o2 n2 a2 = Inr i"
  shows "toSecretSafe o1 = toSecretSafe o2 \<and> toSecretSafe n1 = toSecretSafe n2 \<and>
    toSecretSafe a1 = toSecretSafe a2 \<and> length (ident_value i) \<le> 127 \<and>
    (CHR ''_'' \<notin> set (o1 @ n1 @ a1 @ o2 @ n2 @ a2) \<longrightarrow> o1 = o2 \<and> n1 = n2 \<and> a1 = a2)"
proof -
  note j = NewTenantIdentifier_inject [OF assms]
  from assms(1) have "length (ident_value i) \<le> 127"
    by (simp add: NewTenantIdentifier_Inr maxIdentifierLen_def)
  with j show ?thesis by (auto simp: toSecretSafe_id)
qed

lemma tenant_identifier_injective_witness:
  "\<exists>i. NewTenantIdentifier ''acme'' ''team-a'' ''dev_1'' = Inr i \<and> NewTenantIdentifier ''acme'' ''team-a'' ''dev-1'' = Inr i \<and>
     toSecretSafe ''dev_1'' = toSecretSafe ''dev-1'' \<and> length (ident_value i) \<le> 127"
proof -
  have v: "valid_segment ''acme''" "valid_segment ''team-a''" "valid_segment ''dev_1''" "valid_segment ''dev-1''"
    by (simp_all add: valid_segment_def seg_char_def sep_char_def byte_class_defs)
  let ?i = "Identifier (tenant_value ''acme'' ''team-a'' ''dev-1'')"
  have "NewTenantIdentifier ''acme'' ''team-a'' ''dev_1'' = Inr ?i" "NewTenantIdentifier ''acme'' ''team-a'' ''dev-1'' = Inr ?i"
    unfolding NewTenantIdentifier_Inr using v
    by (simp_all add: tenant_value_def toSecretSafe_def maxIdentifierLen_def)
  with tenant_identifier_injective [OF this] show ?thesis by blast
qed

text \<open>A tenant identifier can be confused with the org-admin credential's only for an
  organization that reads orgadmin.\<close>

theorem tenant_not_orgadmin:
  assumes "NewTenantIdentifier org ns acct = Inr i" and "toSecretSafe org \<noteq> ''orgadmin''"
  shows "NewOrgAdminIdentifier org' acct' \<noteq> Inr i"
  using tenant_orgadmin_overlap [OF assms(1)] assms(2) by blast

lemma tenant_not_orgadmin_witness:
  "\<exists>i. NewTenantIdentifier ''acme'' ''ns'' ''acct'' = Inr i \<and> NewOrgAdminIdentifier ''ns'' ''acct'' \<noteq> Inr i"
proof -
  have "NewTenantIdentifier ''acme'' ''ns'' ''acct'' = Inr (Identifier (tenant_value ''acme'' ''ns'' ''acct''))"
    unfolding NewTenantIdentifier_Inr
    by (simp add: valid_segment_def seg_char_def sep_char_def byte_class_defs tenant_value_def
        toSecretSafe_def maxIdentifierLen_def)
  from tenant_not_orgadmin [OF this, of "''ns''" "''acct''"] this show ?thesis by (simp add: toSecretSafe_def)
qed

end
