(* ===== verification/World.thy ===== *)
theory World
  imports Errors Identifier
begin

text \<open>
  The boundary of the program.  Everything the source calls that is not under \<open>src/\<close> is a
  function of the environment record \<open>env\<close> over an abstract world state, an argument of the
  definitions that use it: the clock, the UUID generator, RSA key generation and the
  x509/pem/json codecs, and the Snowflake driver behind \<open>*sql.DB\<close>.  The program's own state
  is the record \<open>sys\<close>, which the components extend with their fields.  Its \<open>trace\<close> field is
  a ghost: each call that leaves the process appends an \<open>effect\<close>, in order, and nothing reads
  it.  Contexts are not modelled: a cancelled context is one of the errors a call may return.
\<close>

type_synonym db = nat
  \<comment> \<open>the identity of a \<open>*sql.DB\<close>\<close>

type_synonym rsa_key = nat
  \<comment> \<open>the identity of an \<open>*rsa.PrivateKey\<close>\<close>

subsection \<open>SQL results\<close>

text \<open>A scanned value: a string, NULL, or a value of another type with the text a
  \<open>sql.NullString\<close> gets for it.\<close>

datatype sql_val = SqlString string | SqlNull | SqlOther string

text \<open>What the driver returns for a query: the result of Columns, the Scan result of each
  row in order, and the final \<open>rows.Err()\<close>.\<close>

record rows =
  rows_columns :: "string list result"
  rows_scan :: "sql_val list result list"
  rows_err :: "gerror option"

text \<open>\<open>statement.Executor\<close>, over the state \<open>'s\<close> its implementation works on.\<close>

record 's executor =
  ex_ExecContext :: "string \<Rightarrow> string list \<Rightarrow> 's \<Rightarrow> gerror option \<times> 's"
  ex_QueryContext :: "string \<Rightarrow> string list \<Rightarrow> 's \<Rightarrow> rows result \<times> 's"

text \<open>\<open>gosnowflake.Config\<close>: the fields the pool sets.\<close>

record sf_config =
  sfc_Account :: string
  sfc_Host :: string
  sfc_User :: string
  sfc_PrivateKey :: rsa_key
  sfc_Role :: string
  sfc_Authenticator :: string
  sfc_DisableOCSPChecks :: bool

text \<open>The JSON object a credential is stored as.\<close>

record cred_json =
  cj_username :: string
  cj_public_key :: string
  cj_private_key :: string

record 'w env =
  env_now :: "'w \<Rightarrow> time \<times> 'w"
  env_uuid :: "'w \<Rightarrow> string \<times> 'w"
  env_rsaGenerate :: "nat \<Rightarrow> 'w \<Rightarrow> rsa_key result \<times> 'w"
  env_marshalPKIX :: "rsa_key \<Rightarrow> string result"
  env_marshalPKCS8 :: "rsa_key \<Rightarrow> string result"
  env_parsePKCS8 :: "string \<Rightarrow> rsa_key option result"
  env_pemEncode :: "string \<Rightarrow> string \<Rightarrow> string"
  env_pemDecode :: "string \<Rightarrow> string option"
  env_jsonMarshal :: "cred_json \<Rightarrow> string result"
  env_jsonUnmarshal :: "string \<Rightarrow> cred_json result"
  env_timeText :: "time \<Rightarrow> string"
  env_durationText :: "duration \<Rightarrow> string"
  env_exec :: "db \<Rightarrow> string \<Rightarrow> string list \<Rightarrow> 'w \<Rightarrow> gerror option \<times> 'w"
  env_query :: "db \<Rightarrow> string \<Rightarrow> string list \<Rightarrow> 'w \<Rightarrow> rows result \<times> 'w"
  env_openDB :: "sf_config \<Rightarrow> 'w \<Rightarrow> db \<times> 'w"
  env_ping :: "db \<Rightarrow> duration \<Rightarrow> 'w \<Rightarrow> gerror option \<times> 'w"
  env_closeDB :: "db \<Rightarrow> 'w \<Rightarrow> gerror option \<times> 'w"
  env_setLimits :: "db \<Rightarrow> int \<Rightarrow> int \<Rightarrow> duration \<Rightarrow> duration \<Rightarrow> 'w \<Rightarrow> 'w"

subsection \<open>The state and its trace\<close>

datatype effect =
    GetSecret ident
  | CreateSecret ident string
  | UpdateSecret ident string
  | DeleteSecret ident
  | OpenDB db sf_config
  | PingDB db
  | CloseDB db
  | ExecSQL db string "string list"
  | QuerySQL db string "string list"
  | LogPrintf string
  | LogDebug string "(string \<times> string) list"
  | LogInfo string "(string \<times> string) list"
  | GetNamespace string
  | UpdateAccountStatus string string
  | ListPermits string
  | UpdatePermitStatus string string string
  | EmitEvent string string string

record 'w sys =
  world :: 'w
  trace :: "effect list"

definition call :: "effect \<Rightarrow> ('w \<Rightarrow> 'a \<times> 'w) \<Rightarrow> ('w, 'z) sys_scheme \<Rightarrow> 'a \<times> ('w, 'z) sys_scheme" where
  "call ef f s = (case f (world s) of (r, w) \<Rightarrow> (r, s\<lparr>world := w, trace := trace s @ [ef]\<rparr>))"

text \<open>Calls that stay in the process: clock readings, random bytes.\<close>

definition local_call :: "('w \<Rightarrow> 'a \<times> 'w) \<Rightarrow> ('w, 'z) sys_scheme \<Rightarrow> 'a \<times> ('w, 'z) sys_scheme" where
  "local_call f s = (case f (world s) of (r, w) \<Rightarrow> (r, s\<lparr>world := w\<rparr>))"

definition now :: "'w env \<Rightarrow> ('w, 'z) sys_scheme \<Rightarrow> time \<times> ('w, 'z) sys_scheme" where
  "now E s = local_call (env_now E) s"

definition db_executor :: "'w env \<Rightarrow> db \<Rightarrow> ('w, 'z) sys_scheme executor" where
  "db_executor E d =
     \<lparr>ex_ExecContext = (\<lambda>q args. call (ExecSQL d q args) (env_exec E d q args)),
      ex_QueryContext = (\<lambda>q args. call (QuerySQL d q args) (env_query E d q args))\<rparr>"

definition close_db :: "'w env \<Rightarrow> db \<Rightarrow> ('w, 'z) sys_scheme \<Rightarrow> gerror option \<times> ('w, 'z) sys_scheme" where
  "close_db E d s = call (CloseDB d) (env_closeDB E d) s"

text \<open>\<open>emits P s s'\<close>: between the two states only effects satisfying \<open>P\<close> were added to the
  trace.\<close>

definition emits :: "(effect \<Rightarrow> bool) \<Rightarrow> ('w, 'z) sys_scheme \<Rightarrow> ('w, 'z) sys_scheme \<Rightarrow> bool" where
  "emits P s s' \<longleftrightarrow> (\<exists>efs. trace s' = trace s @ efs \<and> list_all P efs)"

lemma emits_refl [simp, intro]: "emits P s s"
  by (simp add: emits_def)

lemma emits_same: "trace s' = trace s \<Longrightarrow> emits P s s'"
  by (simp add: emits_def)

lemma emits_one: "trace s' = trace s @ [ef] \<Longrightarrow> P ef \<Longrightarrow> emits P s s'"
  by (simp add: emits_def)

lemma emits_trans [trans]: "emits P s s1 \<Longrightarrow> emits P s1 s2 \<Longrightarrow> emits P s s2"
  unfolding emits_def by (metis append.assoc list_all_append)

lemma emits_mono: "emits P s s' \<Longrightarrow> (\<And>ef. P ef \<Longrightarrow> Q ef) \<Longrightarrow> emits Q s s'"
  unfolding emits_def using list_all_weaken by blast

lemma emits_set: "emits P s s' \<Longrightarrow> ef \<in> set (trace s') \<Longrightarrow> ef \<in> set (trace s) \<or> P ef"
  by (auto simp: emits_def list_all_iff)

text \<open>Appending an effect that has no result: a log line, an event.\<close>

definition emit :: "effect \<Rightarrow> ('w, 'z) sys_scheme \<Rightarrow> ('w, 'z) sys_scheme" where
  "emit ef s = s\<lparr>trace := trace s @ [ef]\<rparr>"

lemma emit_simps [simp]:
  "world (emit ef s) = world s" "trace (emit ef s) = trace s @ [ef]"
  "sys.more (emit ef s) = sys.more s"
  by (simp_all add: emit_def)

lemma call_frame:
  "call ef f s = (r, s') \<Longrightarrow>
     f (world s) = (r, world s') \<and> trace s' = trace s @ [ef] \<and> sys.more s' = sys.more s"
  by (auto simp: call_def split: prod.splits)

lemma local_call_frame:
  "local_call f s = (r, s') \<Longrightarrow>
     f (world s) = (r, world s') \<and> trace s' = trace s \<and> sys.more s' = sys.more s"
  by (auto simp: local_call_def split: prod.splits)

lemma now_frame:
  "now E s = (t, s') \<Longrightarrow>
     env_now E (world s) = (t, world s') \<and> trace s' = trace s \<and> sys.more s' = sys.more s"
  unfolding now_def by (rule local_call_frame)

end
