(* ===== verification/Go_Crypto.thy ===== *)
theory Go_Crypto
  imports Prelude "HOL-Library.Word" "HOL-Library.Code_Target_Numeral"
begin

text \<open>
  The parts of Go's standard library the account name and the key fingerprint are built
  from: \<open>crypto/sha256.Sum256\<close> (FIPS 180-4), \<open>encoding/base32.StdEncoding\<close> and
  \<open>encoding/base64.StdEncoding\<close> (RFC 4648).  Bytes are \<^typ>\<open>char\<close>s.  The lemmas give the
  lengths and alphabets the naming proofs need.
\<close>

unbundle bit_operations_syntax

subsection \<open>SHA-256\<close>

type_synonym w32 = "32 word"

text \<open>The constants of SHA-256 are the first 32 bits of the fractional parts of the roots of the
  first primes: cube roots for the rounds, square roots for the initial state.  \<open>root_bits\<close> is the
  integer \<open>e\<close>-th root, one bit at a time.\<close>

fun root_bits :: "nat \<Rightarrow> nat \<Rightarrow> nat \<Rightarrow> nat \<Rightarrow> nat" where
  "root_bits e 0 r n = r"
| "root_bits e (Suc k) r n = root_bits e k (if (r + 2 ^ k) ^ e \<le> n then r + 2 ^ k else r) n"

definition first_primes :: "nat list" where
  "first_primes = filter (\<lambda>p. list_all (\<lambda>d. p mod d \<noteq> 0) [2..<p]) [2..<312]"

definition root_fraction :: "nat \<Rightarrow> nat \<Rightarrow> w32" where
  "root_fraction e p = of_nat (root_bits e 40 0 (p * 2 ^ (32 * e)))"

definition sha_k :: "w32 list" where
  "sha_k = map (root_fraction 3) first_primes"

definition sha_init :: "w32 list" where
  "sha_init = map (root_fraction 2) (take 8 first_primes)"

definition small_sigma :: "nat \<Rightarrow> nat \<Rightarrow> nat \<Rightarrow> w32 \<Rightarrow> w32" where
  "small_sigma a b c x = word_rotr a x XOR word_rotr b x XOR drop_bit c x"

definition big_sigma :: "nat \<Rightarrow> nat \<Rightarrow> nat \<Rightarrow> w32 \<Rightarrow> w32" where
  "big_sigma a b c x = word_rotr a x XOR word_rotr b x XOR word_rotr c x"

definition next_word :: "w32 list \<Rightarrow> w32" where
  "next_word ws =
     (let t = length ws
      in small_sigma 17 19 10 (ws ! (t - 2)) + ws ! (t - 7)
         + small_sigma 7 18 3 (ws ! (t - 15)) + ws ! (t - 16))"

primrec sha_schedule :: "nat \<Rightarrow> w32 list \<Rightarrow> w32 list" where
  "sha_schedule 0 ws = ws"
| "sha_schedule (Suc n) ws = sha_schedule n (ws @ [next_word ws])"

fun sha_round :: "w32 list \<Rightarrow> w32 \<times> w32 \<Rightarrow> w32 list" where
  "sha_round [a, b, c, d, e, f, g, h] (k, w) =
     (let t1 = h + big_sigma 6 11 25 e + ((e AND f) XOR (NOT e AND g)) + k + w;
          t2 = big_sigma 2 13 22 a + ((a AND b) XOR (a AND c) XOR (b AND c))
      in [t1 + t2, a, b, c, d + t1, e, f, g])"
| "sha_round s _ = s"

definition sha_block :: "w32 list \<Rightarrow> w32 list \<Rightarrow> w32 list" where
  "sha_block s ws = map2 (+) s (foldl sha_round s (zip sha_k (sha_schedule 48 ws)))"

definition w32_of_bytes :: "string \<Rightarrow> w32" where
  "w32_of_bytes bs = of_nat (foldl (\<lambda>a b. 256 * a + byte_of b) 0 bs)"

definition bytes_of_nat :: "nat \<Rightarrow> nat \<Rightarrow> string" where
  "bytes_of_nat n x = map (\<lambda>i. char_of (x div 256 ^ i)) (rev [0..<n])"

fun chunks :: "nat \<Rightarrow> 'a list \<Rightarrow> 'a list list" where
  "chunks n [] = []"
| "chunks n (x # xs) = (if n = 0 then [] else take n (x # xs) # chunks n (drop n (x # xs)))"

definition sha_pad :: "string \<Rightarrow> string" where
  "sha_pad m =
     m @ [CHR 0x80] @ replicate ((119 - length m mod 64) mod 64) (CHR 0x00)
       @ bytes_of_nat 8 (8 * length m)"

definition sum256 :: "string \<Rightarrow> string" where
  "sum256 m =
     (let blocks = map (map w32_of_bytes \<circ> chunks 4) (chunks 64 (sha_pad m));
          s = foldl sha_block sha_init blocks
      in concat (map (\<lambda>i. bytes_of_nat 4 (unat (s ! i))) [0..<8]))"

lemma length_bytes_of_nat [simp]: "length (bytes_of_nat n x) = n"
  by (simp add: bytes_of_nat_def)

lemma length_sum256 [simp, go_str]: "length (sum256 m) = 32"
  by (simp add: sum256_def Let_def length_concat comp_def upt_rec)

subsection \<open>Base 32 and base 64\<close>

definition bits_of_byte :: "char \<Rightarrow> bool list" where
  "bits_of_byte c = map (\<lambda>i. odd (byte_of c div 2 ^ i)) (rev [0..<8])"

definition nat_of_bits :: "bool list \<Rightarrow> nat" where
  "nat_of_bits bs = foldl (\<lambda>a b. 2 * a + of_bool b) 0 bs"

text \<open>RFC 4648: \<open>w\<close>-bit groups, the last one filled up with zero bits, one character per
  group, and \<open>=\<close> up to a multiple of \<open>q\<close> characters.\<close>

definition enc_groups :: "nat \<Rightarrow> string \<Rightarrow> string \<Rightarrow> string" where
  "enc_groups w alphabet bs =
     map (\<lambda>g. alphabet ! nat_of_bits (g @ replicate (w - length g) False))
         (chunks w (concat (map bits_of_byte bs)))"

definition enc_padded :: "nat \<Rightarrow> nat \<Rightarrow> string \<Rightarrow> string \<Rightarrow> string" where
  "enc_padded w q alphabet bs =
     (let e = enc_groups w alphabet bs
      in e @ replicate ((q - length e mod q) mod q) (CHR ''=''))"

definition base32_alphabet :: string where
  "base32_alphabet = ''ABCDEFGHIJKLMNOPQRSTUVWXYZ234567''"

definition base64_alphabet :: string where
  "base64_alphabet = ''ABCDEFGHIJKLMNOPQRSTUVWXYZabcdefghijklmnopqrstuvwxyz0123456789+/''"

definition base32_std :: "string \<Rightarrow> string" where
  "base32_std bs = enc_padded 5 8 base32_alphabet bs"

definition base64_std :: "string \<Rightarrow> string" where
  "base64_std bs = enc_padded 6 4 base64_alphabet bs"

lemma length_chunks: "0 < n \<Longrightarrow> length (chunks n xs) = (length xs + n - 1) div n"
proof (induction n xs rule: chunks.induct)
  case (2 n x xs)
  show ?case
  proof (cases "length (x # xs) \<le> n")
    case True
    have "(length (x # xs) + n - 1) div n = 1"
      using True 2(2) by (intro div_nat_eqI) auto
    with True 2(2) show ?thesis by simp
  next
    case False
    then have "(length (x # xs) + n - 1) div n = Suc ((length (drop n (x # xs)) + n - 1) div n)"
      using 2(2) le_div_geq [of n "length (x # xs) + n - 1"] by simp
    with 2 show ?thesis by simp
  qed
qed simp

lemma chunks_length_le: "g \<in> set (chunks n xs) \<Longrightarrow> length g \<le> n"
  by (induction n xs rule: chunks.induct) (auto split: if_splits)

lemma length_bits_of_byte [simp]: "length (bits_of_byte c) = 8"
  by (simp add: bits_of_byte_def)

lemma length_concat_bits: "length (concat (map bits_of_byte bs)) = 8 * length bs"
  by (induction bs) auto

lemma nat_of_bits_snoc [simp]: "nat_of_bits (bs @ [b]) = 2 * nat_of_bits bs + of_bool b"
  by (simp add: nat_of_bits_def)

lemma nat_of_bits_less: "nat_of_bits bs < 2 ^ length bs"
proof (induction bs rule: rev_induct)
  case (snoc b bs)
  then show ?case by (cases b) auto
qed (simp add: nat_of_bits_def)

lemma enc_groups_alphabet:
  assumes "length alphabet = 2 ^ w"
  shows "set (enc_groups w alphabet bs) \<subseteq> set alphabet"
proof
  fix c assume "c \<in> set (enc_groups w alphabet bs)"
  then obtain g where g: "g \<in> set (chunks w (concat (map bits_of_byte bs)))"
    and c: "c = alphabet ! nat_of_bits (g @ replicate (w - length g) False)"
    by (auto simp: enc_groups_def)
  from g have "length (g @ replicate (w - length g) False) = w"
    using chunks_length_le by fastforce
  then have "nat_of_bits (g @ replicate (w - length g) False) < length alphabet"
    using nat_of_bits_less assms by metis
  with c show "c \<in> set alphabet" by simp
qed

lemma length_enc_groups:
  "0 < w \<Longrightarrow> length (enc_groups w alphabet bs) = (8 * length bs + w - 1) div w"
  by (simp add: enc_groups_def length_chunks length_concat_bits)

text \<open>The encoded digest: 52 characters of the alphabet before the padding.\<close>

lemma take_base32_sum256:
  assumes "n \<le> 52"
  shows "length (take n (base32_std (sum256 m))) = n"
    and "set (take n (base32_std (sum256 m))) \<subseteq> set base32_alphabet"
proof -
  let ?e = "enc_groups 5 base32_alphabet (sum256 m)"
  have len: "length ?e = 52" by (simp add: length_enc_groups)
  then have t: "take n (base32_std (sum256 m)) = take n ?e"
    using assms by (simp add: base32_std_def enc_padded_def Let_def)
  show "length (take n (base32_std (sum256 m))) = n" using assms len t by simp
  have "length base32_alphabet = 2 ^ 5" by (simp add: base32_alphabet_def)
  then have "set ?e \<subseteq> set base32_alphabet" by (rule enc_groups_alphabet)
  then show "set (take n (base32_std (sum256 m))) \<subseteq> set base32_alphabet"
    unfolding t using set_take_subset by fastforce
qed

end
