(* ===== verification/Credentials.thy ===== *)
theory Credentials
  imports World Go_Crypto
begin

text \<open>
  \<open>internal/secrets/credentials.go\<close>: generating a keypair, and the JSON form a credential
  is stored in.  RSA, x509, pem and json are the environment's; what the package does with
  their results, the empty-field check and the time stamp included, is modelled.
\<close>

definition minRSABits :: nat where
  "minRSABits = 2048"

record credentials =
  c_Username :: string
  c_PublicKey :: string
  c_PrivateKey :: string
  c_RotatedAt :: time

definition keygen_error :: "gerror \<Rightarrow> gerror" where
  "keygen_error e = wrap ''failed to generate RSA key pair: '' e"

definition GenerateKeyPair ::
  "'w env \<Rightarrow> ('w, 'z) sys_scheme \<Rightarrow> (string \<times> string) result \<times> ('w, 'z) sys_scheme" where
  "GenerateKeyPair E s =
     (case local_call (env_rsaGenerate E minRSABits) s of
        (Inl e, s1) \<Rightarrow> (Inl (keygen_error e), s1)
      | (Inr key, s1) \<Rightarrow>
          (case env_marshalPKIX E key of
             Inl e \<Rightarrow> (Inl (keygen_error e), s1)
           | Inr pubDER \<Rightarrow>
               let pubB64 = base64_std pubDER in
               (case env_marshalPKCS8 E key of
                  Inl e \<Rightarrow> (Inl (keygen_error e), s1)
                | Inr privDER \<Rightarrow>
                    (Inr (pubB64, env_pemEncode E ''PRIVATE KEY'' privDER), s1))))"

definition NewCredentials ::
  "'w env \<Rightarrow> string \<Rightarrow> ('w, 'z) sys_scheme \<Rightarrow> credentials result \<times> ('w, 'z) sys_scheme" where
  "NewCredentials E username s =
     (case GenerateKeyPair E s of
        (Inl e, s1) \<Rightarrow> (Inl e, s1)
      | (Inr (pub, priv), s1) \<Rightarrow>
          (case now E s1 of
             (t, s2) \<Rightarrow>
               (Inr \<lparr>c_Username = username, c_PublicKey = pub, c_PrivateKey = priv, c_RotatedAt = t\<rparr>, s2)))"

definition marshalCredentials :: "'w env \<Rightarrow> credentials \<Rightarrow> string result" where
  "marshalCredentials E c =
     env_jsonMarshal E
       \<lparr>cj_username = c_Username c, cj_public_key = c_PublicKey c, cj_private_key = c_PrivateKey c\<rparr>"

definition empty_field_error :: gerror where
  "empty_field_error =
     plain_error ''failed to unmarshal credentials: username, public_key, and private_key must all be non-empty''"

definition unmarshalCredentials :: "'w env \<Rightarrow> string \<Rightarrow> time \<Rightarrow> credentials result" where
  "unmarshalCredentials E data rotatedAt =
     (case env_jsonUnmarshal E data of
        Inl e \<Rightarrow> Inl (wrap ''failed to unmarshal credentials: '' e)
      | Inr c \<Rightarrow>
          if cj_username c = [] \<or> cj_public_key c = [] \<or> cj_private_key c = []
          then Inl empty_field_error
          else Inr \<lparr>c_Username = cj_username c, c_PublicKey = cj_public_key c,
                    c_PrivateKey = cj_private_key c, c_RotatedAt = rotatedAt\<rparr>)"

text \<open>The JSON object of a credential, and what the code relies on of \<open>encoding/json\<close>:
  decoding an encoded object gives it back.\<close>

definition cred_json_of :: "credentials \<Rightarrow> cred_json" where
  "cred_json_of c =
     \<lparr>cj_username = c_Username c, cj_public_key = c_PublicKey c, cj_private_key = c_PrivateKey c\<rparr>"

definition json_roundtrips :: "'w env \<Rightarrow> credentials \<Rightarrow> bool" where
  "json_roundtrips E c \<longleftrightarrow>
     (case env_jsonMarshal E (cred_json_of c) of
        Inl e \<Rightarrow> True
      | Inr d \<Rightarrow> env_jsonUnmarshal E d = Inr (cred_json_of c))"

lemma unmarshal_marshal:
  assumes "json_roundtrips E c" and "marshalCredentials E c = Inr d"
    and "c_Username c \<noteq> []" "c_PublicKey c \<noteq> []" "c_PrivateKey c \<noteq> []"
  shows "unmarshalCredentials E d t = Inr (c\<lparr>c_RotatedAt := t\<rparr>)"
  using assms
  by (auto simp: json_roundtrips_def marshalCredentials_def unmarshalCredentials_def cred_json_of_def)

lemma unmarshalCredentials_complete:
  "unmarshalCredentials E d t = Inr c \<Longrightarrow>
     c_Username c \<noteq> [] \<and> c_PublicKey c \<noteq> [] \<and> c_PrivateKey c \<noteq> [] \<and> c_RotatedAt c = t"
  by (auto simp: unmarshalCredentials_def split: sum.splits if_splits)

lemma GenerateKeyPair_frame:
  "GenerateKeyPair E s = (r, s') \<Longrightarrow> trace s' = trace s \<and> sys.more s' = sys.more s"
  by (auto simp: GenerateKeyPair_def Let_def dest!: local_call_frame
      split: prod.splits sum.splits)

lemma NewCredentials_frame:
  "NewCredentials E u s = (r, s') \<Longrightarrow> trace s' = trace s \<and> sys.more s' = sys.more s"
  by (auto simp: NewCredentials_def dest!: GenerateKeyPair_frame now_frame
      split: prod.splits sum.splits)

lemma NewCredentials_username:
  "NewCredentials E u s = (Inr c, s') \<Longrightarrow> c_Username c = u"
  by (auto simp: NewCredentials_def split: prod.splits sum.splits)

end
