(* ===== verification/KeyStore.thy ===== *)
theory KeyStore
  imports World
begin

text \<open>
  The \<open>secrets.KeyStore\<close> interface and its two implementations: the in-memory
  \<open>FakeKeyStore\<close> of \<open>internal/secrets/fake.go\<close> and the AWS Secrets Manager store of
  \<open>internal/secrets/aws/keystore.go\<close>.  The interface's promises (\<open>keystore.go\<close>) are the
  laws of the locale \<open>key_store\<close>, over a view of the backend as a map from identifiers to
  slots; \<open>scheduling_key_store\<close> adds what a healthy store does when it does not fail.  A write that
  reports an error promises nothing about its effect: it may have been refused, or carried out with its
  answer lost on the way; both are allowed by the laws.
\<close>

record 'w key_store =
  ks_Get :: "ident \<Rightarrow> 'w \<Rightarrow> (string \<times> time) result \<times> 'w"
  ks_Create :: "ident \<Rightarrow> string \<Rightarrow> 'w \<Rightarrow> gerror option \<times> 'w"
  ks_Update :: "ident \<Rightarrow> string \<Rightarrow> 'w \<Rightarrow> gerror option \<times> 'w"
  ks_Delete :: "ident \<Rightarrow> 'w \<Rightarrow> gerror option \<times> 'w"

text \<open>What a backend holds at an identifier: nothing, a readable value with the time it was
  written, or a value scheduled for deletion.\<close>

datatype slot = Absent | Live string time | Pending string time

fun is_live :: "slot \<Rightarrow> bool" where
  "is_live (Live v t) = True"
| "is_live _ = False"

fun is_pending :: "slot \<Rightarrow> bool" where
  "is_pending (Pending v t) = True"
| "is_pending _ = False"

subsection \<open>The contract\<close>

locale key_store =
  fixes ks :: "'w key_store"
    and view :: "'w \<Rightarrow> ident \<Rightarrow> slot"
    and inv :: "'w \<Rightarrow> bool"
  assumes get_frame: "inv w \<Longrightarrow> ks_Get ks i w = (r, w') \<Longrightarrow> inv w' \<and> view w' = view w"
    and get_live: "inv w \<Longrightarrow> ks_Get ks i w = (Inr (v, t), w') \<Longrightarrow> view w i = Live v t"
    and create_None: "inv w \<Longrightarrow> ks_Create ks i v w = (None, w') \<Longrightarrow>
      inv w' \<and> view w i = Absent \<and> (\<exists>t. view w' = (view w)(i := Live v t))"
    and create_Some: "inv w \<Longrightarrow> ks_Create ks i v w = (Some e, w') \<Longrightarrow>
      inv w' \<and> (view w' = view w \<or> view w i = Absent \<and> (\<exists>t. view w' = (view w)(i := Live v t)))"
    and create_pending: "inv w \<Longrightarrow> ks_Create ks i v w = (Some e, w') \<Longrightarrow>
      errors_Is e ErrPendingDeletion \<Longrightarrow> is_pending (view w i)"
    and update_None: "inv w \<Longrightarrow> ks_Update ks i v w = (None, w') \<Longrightarrow>
      inv w' \<and> is_live (view w i) \<and> (\<exists>t. view w' = (view w)(i := Live v t))"
    and update_Some: "inv w \<Longrightarrow> ks_Update ks i v w = (Some e, w') \<Longrightarrow>
      inv w' \<and> (view w' = view w \<or> is_live (view w i) \<and> (\<exists>t. view w' = (view w)(i := Live v t)))"
    and delete_None: "inv w \<Longrightarrow> ks_Delete ks i w = (None, w') \<Longrightarrow>
      inv w' \<and> (\<exists>x. \<not> is_live x \<and> view w' = (view w)(i := x))"
    and delete_Some: "inv w \<Longrightarrow> ks_Delete ks i w = (Some e, w') \<Longrightarrow>
      inv w' \<and> (view w' = view w \<or> (\<exists>x. \<not> is_live x \<and> view w' = (view w)(i := x)))"
begin

text \<open>Create never replaces a value, and never creates next to a pending one: on an occupied identifier
  it fails, and that failure changed nothing.\<close>

lemma create_occupied:
  assumes "inv w" and "view w i \<noteq> Absent" and "ks_Create ks i v w = (r, w')"
  shows "r \<noteq> None \<and> view w' = view w"
  using assms create_None [of w i v w'] create_Some [of w i v _ w'] by (cases r) auto

text \<open>Update never creates.\<close>

lemma update_absent:
  assumes "inv w" and "\<not> is_live (view w i)" and "ks_Update ks i v w = (r, w')"
  shows "r \<noteq> None \<and> view w' = view w"
  using assms update_None [of w i v w'] update_Some [of w i v _ w'] by (cases r) auto

lemma get_not_live:
  assumes "inv w" and "\<not> is_live (view w i)" and "ks_Get ks i w = (r, w')"
  shows "isl r"
  using assms get_live [of w i _ _ w'] by (cases r) auto

text \<open>An operation on one identifier leaves the others alone.\<close>

lemma others_unchanged:
  assumes "inv w" and "j \<noteq> i"
  shows "ks_Create ks i v w = (r, w') \<Longrightarrow> view w' j = view w j"
    and "ks_Update ks i v w = (r, w') \<Longrightarrow> view w' j = view w j"
    and "ks_Delete ks i w = (r, w') \<Longrightarrow> view w' j = view w j"
proof -
  show "ks_Create ks i v w = (r, w') \<Longrightarrow> view w' j = view w j"
    using assms create_None [of w i v w'] create_Some [of w i v _ w'] by (cases r) auto
  show "ks_Update ks i v w = (r, w') \<Longrightarrow> view w' j = view w j"
    using assms update_None [of w i v w'] update_Some [of w i v _ w'] by (cases r) auto
  show "ks_Delete ks i w = (r, w') \<Longrightarrow> view w' j = view w j"
    using assms delete_None [of w i w'] delete_Some [of w i _ w'] by (cases r) auto
qed

lemma writes_inv:
  assumes "inv w"
  shows "ks_Create ks i v w = (r, w') \<Longrightarrow> inv w'" and "ks_Update ks i v w = (r, w') \<Longrightarrow> inv w'"
    and "ks_Delete ks i w = (r, w') \<Longrightarrow> inv w'"
  using assms create_None [of w i v w'] create_Some [of w i v _ w'] update_None [of w i v w']
    update_Some [of w i v _ w'] delete_None [of w i w'] delete_Some [of w i _ w'] by (cases r; blast)+

end

locale scheduling_key_store = key_store +
  assumes get_total: "inv w \<Longrightarrow> view w i = Live v t \<Longrightarrow> \<exists>w'. ks_Get ks i w = (Inr (v, t), w')"
    and create_total: "inv w \<Longrightarrow> view w i = Absent \<Longrightarrow> \<exists>w'. ks_Create ks i v w = (None, w')"
    and create_on_pending: "inv w \<Longrightarrow> is_pending (view w i) \<Longrightarrow>
      \<exists>e w'. ks_Create ks i v w = (Some e, w') \<and> errors_Is e ErrPendingDeletion"
    and update_total: "inv w \<Longrightarrow> is_live (view w i) \<Longrightarrow> \<exists>w'. ks_Update ks i v w = (None, w')"
    and delete_total: "inv w \<Longrightarrow> \<exists>w'. ks_Delete ks i w = (None, w') \<and>
      view w' = (view w)(i := (case view w i of Live v t \<Rightarrow> Pending v t | x \<Rightarrow> x))"
begin

text \<open>A deleted identifier stays occupied: nothing can be created there while the removal is
  pending, and deleting again changes nothing.\<close>

lemma deleted_stays_occupied:
  assumes "inv w" and "is_live (view w i)" and "ks_Delete ks i w = (r, w1)"
    and "ks_Create ks i v w1 = (r', w2)"
  shows "r = None \<and> (\<exists>e. r' = Some e \<and> errors_Is e ErrPendingDeletion) \<and> view w2 = view w1"
proof -
  from delete_total [OF assms(1), of i] assms(3)
  have r: "r = None" and v: "view w1 = (view w)(i := (case view w i of Live v t \<Rightarrow> Pending v t | x \<Rightarrow> x))"
    by auto
  from assms(1,3) r have inv1: "inv w1" using delete_None by blast
  from v assms(2) have p: "is_pending (view w1 i)" by (cases "view w i") auto
  from create_on_pending [OF inv1 p, of v] assms(4)
  obtain e where "r' = Some e" "errors_Is e ErrPendingDeletion" by auto
  moreover from p have "view w1 i \<noteq> Absent" by auto
  ultimately show ?thesis using r create_occupied [OF inv1 _ assms(4)] by blast
qed

lemma delete_idempotent:
  assumes "inv w" and "ks_Delete ks i w = (r, w1)" and "ks_Delete ks i w1 = (r', w2)"
  shows "r' = None \<and> view w2 = view w1"
proof -
  from delete_total [OF assms(1), of i] assms(2)
  have r: "r = None" and v: "view w1 = (view w)(i := (case view w i of Live v t \<Rightarrow> Pending v t | x \<Rightarrow> x))"
    by auto
  from assms(1,2) r have inv1: "inv w1" using delete_None by blast
  from v have "(case view w1 i of Live v t \<Rightarrow> Pending v t | x \<Rightarrow> x) = view w1 i"
    by (cases "view w i") auto
  with delete_total [OF inv1, of i] assms(3) show ?thesis by auto
qed

end

end
