(* ===== verification/FakeKeyStore.thy ===== *)
theory FakeKeyStore
  imports KeyStore
begin

text \<open>
  \<open>internal/secrets/fake.go\<close>, the in-memory store every consumer tests against.  The hooks
  are optional functions, the clock's \<open>n\<close>-th reading is \<open>fk_Clock n\<close>, and the mutex is
  the atomicity of each definition.
\<close>

record fakeEntry =
  fe_value :: string
  fe_modifiedAt :: time
  fe_pendingDeletion :: bool

record fakeKeyStore =
  fk_OnGet :: "(ident \<Rightarrow> gerror option) option"
  fk_OnCreate :: "(ident \<Rightarrow> gerror option) option"
  fk_OnUpdate :: "(ident \<Rightarrow> gerror option) option"
  fk_OnDelete :: "(ident \<Rightarrow> gerror option) option"
  fk_Clock :: "nat \<Rightarrow> time"
  fk_ticks :: nat
  fk_SchedulesDeletion :: bool
  fk_entries :: "ident \<Rightarrow> fakeEntry option"

definition NewFakeKeyStore :: "(nat \<Rightarrow> time) \<Rightarrow> fakeKeyStore" where
  "NewFakeKeyStore clock =
     \<lparr>fk_OnGet = None, fk_OnCreate = None, fk_OnUpdate = None, fk_OnDelete = None,
      fk_Clock = clock, fk_ticks = 0, fk_SchedulesDeletion = False, fk_entries = (\<lambda>_. None)\<rparr>"

definition hook_error :: "(ident \<Rightarrow> gerror option) option \<Rightarrow> ident \<Rightarrow> gerror option" where
  "hook_error h idt = (case h of None \<Rightarrow> None | Some f \<Rightarrow> f idt)"

definition fk_absent_error :: "ident \<Rightarrow> gerror" where
  "fk_absent_error idt = plain_error (''secrets: no secret stored at '' @ ident_value idt)"

definition fk_pending_error :: "ident \<Rightarrow> gerror" where
  "fk_pending_error idt =
     plain_error (''secrets: the secret at '' @ ident_value idt @ '' is scheduled for deletion'')"

definition fk_occupied_error :: "ident \<Rightarrow> gerror" where
  "fk_occupied_error idt = plain_error (''secrets: a secret already exists at '' @ ident_value idt)"

definition fk_reuse_error :: "ident \<Rightarrow> gerror" where
  "fk_reuse_error idt =
     wrap (''secrets: the secret at '' @ ident_value idt @
       '' is scheduled for deletion and its identifier cannot be reused: '') ErrPendingDeletion"

definition fk_not_scheduled_error :: "ident \<Rightarrow> gerror" where
  "fk_not_scheduled_error idt =
     plain_error (''secrets: no secret scheduled for deletion at '' @ ident_value idt)"

text \<open>Recording a value: one reading of the clock.\<close>

definition fk_store :: "ident \<Rightarrow> string \<Rightarrow> fakeKeyStore \<Rightarrow> fakeKeyStore" where
  "fk_store idt v f =
     f\<lparr>fk_entries := (fk_entries f)(idt \<mapsto>
         \<lparr>fe_value = v, fe_modifiedAt = fk_Clock f (fk_ticks f), fe_pendingDeletion = False\<rparr>),
       fk_ticks := Suc (fk_ticks f)\<rparr>"

definition fake_Get :: "ident \<Rightarrow> fakeKeyStore \<Rightarrow> (string \<times> time) result \<times> fakeKeyStore" where
  "fake_Get idt f =
     (case hook_error (fk_OnGet f) idt of
        Some e \<Rightarrow> (Inl e, f)
      | None \<Rightarrow>
          (case fk_entries f idt of
             None \<Rightarrow> (Inl (fk_absent_error idt), f)
           | Some entry \<Rightarrow>
               if fe_pendingDeletion entry then (Inl (fk_pending_error idt), f)
               else (Inr (fe_value entry, fe_modifiedAt entry), f)))"

definition fake_Create :: "ident \<Rightarrow> string \<Rightarrow> fakeKeyStore \<Rightarrow> gerror option \<times> fakeKeyStore" where
  "fake_Create idt v f =
     (case hook_error (fk_OnCreate f) idt of
        Some e \<Rightarrow> (Some e, f)
      | None \<Rightarrow>
          (case fk_entries f idt of
             Some existing \<Rightarrow>
               if fe_pendingDeletion existing then (Some (fk_reuse_error idt), f)
               else (Some (fk_occupied_error idt), f)
           | None \<Rightarrow> (None, fk_store idt v f)))"

definition fake_Update :: "ident \<Rightarrow> string \<Rightarrow> fakeKeyStore \<Rightarrow> gerror option \<times> fakeKeyStore" where
  "fake_Update idt v f =
     (case hook_error (fk_OnUpdate f) idt of
        Some e \<Rightarrow> (Some e, f)
      | None \<Rightarrow>
          (case fk_entries f idt of
             None \<Rightarrow> (Some (fk_absent_error idt), f)
           | Some existing \<Rightarrow>
               if fe_pendingDeletion existing then (Some (fk_pending_error idt), f)
               else (None, fk_store idt v f)))"

definition fake_Delete :: "ident \<Rightarrow> fakeKeyStore \<Rightarrow> gerror option \<times> fakeKeyStore" where
  "fake_Delete idt f =
     (case hook_error (fk_OnDelete f) idt of
        Some e \<Rightarrow> (Some e, f)
      | None \<Rightarrow>
          if \<not> fk_SchedulesDeletion f then (None, f\<lparr>fk_entries := (fk_entries f)(idt := None)\<rparr>)
          else (case fk_entries f idt of
                  None \<Rightarrow> (None, f)
                | Some entry \<Rightarrow>
                    (None, f\<lparr>fk_entries := (fk_entries f)(idt \<mapsto> entry\<lparr>fe_pendingDeletion := True\<rparr>)\<rparr>)))"

definition fake_Restore :: "ident \<Rightarrow> fakeKeyStore \<Rightarrow> gerror option \<times> fakeKeyStore" where
  "fake_Restore idt f =
     (case fk_entries f idt of
        None \<Rightarrow> (Some (fk_not_scheduled_error idt), f)
      | Some entry \<Rightarrow>
          if \<not> fe_pendingDeletion entry then (Some (fk_not_scheduled_error idt), f)
          else (None, f\<lparr>fk_entries := (fk_entries f)(idt \<mapsto> entry\<lparr>fe_pendingDeletion := False\<rparr>)\<rparr>))"

definition fake_key_store :: "fakeKeyStore key_store" where
  "fake_key_store =
     \<lparr>ks_Get = fake_Get, ks_Create = fake_Create, ks_Update = fake_Update, ks_Delete = fake_Delete\<rparr>"

subsection \<open>The fake implements the contract\<close>

definition fake_view :: "fakeKeyStore \<Rightarrow> ident \<Rightarrow> slot" where
  "fake_view f idt =
     (case fk_entries f idt of
        None \<Rightarrow> Absent
      | Some e \<Rightarrow> if fe_pendingDeletion e then Pending (fe_value e) (fe_modifiedAt e)
                  else Live (fe_value e) (fe_modifiedAt e))"

text \<open>A create hook that forges the sentinel would break the contract; no other hook can.\<close>

definition fake_inv :: "fakeKeyStore \<Rightarrow> bool" where
  "fake_inv f \<longleftrightarrow>
     (\<forall>idt. case hook_error (fk_OnCreate f) idt of
             None \<Rightarrow> True | Some e \<Rightarrow> \<not> errors_Is e ErrPendingDeletion)"

definition fake_healthy :: "fakeKeyStore \<Rightarrow> bool" where
  "fake_healthy f \<longleftrightarrow>
     fk_OnGet f = None \<and> fk_OnCreate f = None \<and> fk_OnUpdate f = None \<and> fk_OnDelete f = None \<and>
     fk_SchedulesDeletion f"

lemmas fake_ops = fake_key_store_def fake_Get_def fake_Create_def fake_Update_def fake_Delete_def

lemma fake_view_upd:
  "fake_view (f\<lparr>fk_entries := (fk_entries f)(idt := x)\<rparr>) =
     (fake_view f)(idt := (case x of None \<Rightarrow> Absent
        | Some e \<Rightarrow> if fe_pendingDeletion e then Pending (fe_value e) (fe_modifiedAt e)
                    else Live (fe_value e) (fe_modifiedAt e)))"
  by (auto simp: fake_view_def)

lemma fake_view_store:
  "fake_view (fk_store idt v f) = (fake_view f)(idt := Live v (fk_Clock f (fk_ticks f)))"
  by (auto simp: fake_view_def fk_store_def)

lemma fake_inv_upd [simp]:
  "fake_inv (fk_store idt v f) = fake_inv f"
  "fake_inv (f\<lparr>fk_entries := m\<rparr>) = fake_inv f"
  by (simp_all add: fake_inv_def fk_store_def)

lemma fake_healthy_upd [simp]:
  "fake_healthy (fk_store idt v f) = fake_healthy f"
  "fake_healthy (f\<lparr>fk_entries := m\<rparr>) = fake_healthy f"
  by (simp_all add: fake_healthy_def fk_store_def)

lemma fake_healthy_hooks [simp]:
  assumes "fake_healthy f"
  shows "hook_error (fk_OnGet f) idt = None" "hook_error (fk_OnCreate f) idt = None"
    "hook_error (fk_OnUpdate f) idt = None" "hook_error (fk_OnDelete f) idt = None"
    "fk_SchedulesDeletion f"
  using assms by (simp_all add: fake_healthy_def hook_error_def)

lemma fk_errors_sentinel [simp]:
  "\<not> errors_Is (fk_occupied_error idt) ErrPendingDeletion"
  "errors_Is (fk_reuse_error idt) ErrPendingDeletion"
  by (simp_all add: fk_occupied_error_def fk_reuse_error_def plain_error_def errors_Is_iff wrap_def)

lemma fake_key_store_contract:
  assumes "\<And>f. P f \<Longrightarrow> fake_inv f"
    and "\<And>idt v f. P (fk_store idt v f) = P f" and "\<And>m f. P (f\<lparr>fk_entries := m\<rparr>) = P f"
  shows "key_store fake_key_store fake_view P"
proof
  fix w i r w' assume "P w" "ks_Get fake_key_store i w = (r, w')"
  then show "P w' \<and> fake_view w' = fake_view w"
    by (auto simp: fake_ops split: option.splits if_splits)
next
  fix w i v t w' assume "ks_Get fake_key_store i w = (Inr (v, t), w')"
  then show "fake_view w i = Live v t"
    by (auto simp: fake_ops fake_view_def split: option.splits if_splits)
next
  fix w i v w' assume "P w" "ks_Create fake_key_store i v w = (None, w')"
  then show "P w' \<and> fake_view w i = Absent \<and> (\<exists>t. fake_view w' = (fake_view w)(i := Live v t))"
    by (auto simp: fake_ops assms fake_view_store split: option.splits if_splits)
      (auto simp: fake_view_def)
next
  fix w i v e w' assume "P w" "ks_Create fake_key_store i v w = (Some e, w')"
  then have "P w' \<and> fake_view w' = fake_view w"
    by (auto simp: fake_ops split: option.splits if_splits)
  then show "P w' \<and> (fake_view w' = fake_view w \<or> fake_view w i = Absent \<and> (\<exists>t. fake_view w' = (fake_view w)(i := Live v t)))" by blast
next
  fix w i v e w'
  assume "P w" "ks_Create fake_key_store i v w = (Some e, w')" "errors_Is e ErrPendingDeletion"
  then show "is_pending (fake_view w i)"
    using assms(1) [of w]
    by (auto simp: fake_ops fake_view_def fake_inv_def split: option.splits if_splits)
next
  fix w i v w' assume "P w" "ks_Update fake_key_store i v w = (None, w')"
  then show "P w' \<and> is_live (fake_view w i) \<and> (\<exists>t. fake_view w' = (fake_view w)(i := Live v t))"
    by (auto simp: fake_ops assms fake_view_store split: option.splits if_splits)
      (auto simp: fake_view_def)
next
  fix w i v e w' assume "P w" "ks_Update fake_key_store i v w = (Some e, w')"
  then have "P w' \<and> fake_view w' = fake_view w"
    by (auto simp: fake_ops split: option.splits if_splits)
  then show "P w' \<and> (fake_view w' = fake_view w \<or> is_live (fake_view w i) \<and> (\<exists>t. fake_view w' = (fake_view w)(i := Live v t)))" by blast
next
  fix w i w' assume "P w" and d: "ks_Delete fake_key_store i w = (None, w')"
  then have "P w'" by (auto simp: fake_ops assms split: option.splits if_splits)
  moreover have "w' = w \<and> fake_view w i = Absent \<or> (\<exists>x. \<not> is_live x \<and> fake_view w' = (fake_view w)(i := x))"
    using d by (force simp: fake_ops fake_view_upd fake_view_def split: option.splits if_splits)
  ultimately show "P w' \<and> (\<exists>x. \<not> is_live x \<and> fake_view w' = (fake_view w)(i := x))"
    by (metis fun_upd_triv is_live.simps(2))
next
  fix w i e w' assume "P w" "ks_Delete fake_key_store i w = (Some e, w')"
  then have "P w' \<and> fake_view w' = fake_view w"
    by (auto simp: fake_ops split: option.splits if_splits)
  then show "P w' \<and> (fake_view w' = fake_view w \<or> (\<exists>x. \<not> is_live x \<and> fake_view w' = (fake_view w)(i := x)))" by blast
qed

interpretation fake: key_store fake_key_store fake_view fake_inv
  by (rule fake_key_store_contract) simp_all

lemma fake_healthy_inv: "fake_healthy f \<Longrightarrow> fake_inv f"
  by (simp add: fake_inv_def)

interpretation fakes: scheduling_key_store fake_key_store fake_view fake_healthy
proof (intro scheduling_key_store.intro scheduling_key_store_axioms.intro)
  show "key_store fake_key_store fake_view fake_healthy"
    by (rule fake_key_store_contract) (simp_all add: fake_healthy_inv)
next
  fix w i v t assume "fake_healthy w" "fake_view w i = Live v t"
  then show "\<exists>w'. ks_Get fake_key_store i w = (Inr (v, t), w')"
    by (auto simp: fake_ops fake_view_def split: option.splits if_splits)
next
  fix w i v assume "fake_healthy w" "fake_view w i = Absent"
  then show "\<exists>w'. ks_Create fake_key_store i v w = (None, w')"
    by (auto simp: fake_ops fake_view_def split: option.splits if_splits)
next
  fix w i v assume "fake_healthy w" "is_pending (fake_view w i)"
  then show "\<exists>e w'. ks_Create fake_key_store i v w = (Some e, w') \<and> errors_Is e ErrPendingDeletion"
    by (auto simp: fake_ops fake_view_def split: option.splits if_splits)
next
  fix w i v assume "fake_healthy w" "is_live (fake_view w i)"
  then show "\<exists>w'. ks_Update fake_key_store i v w = (None, w')"
    by (auto simp: fake_ops fake_view_def split: option.splits if_splits)
next
  fix w i assume "fake_healthy w"
  then show "\<exists>w'. ks_Delete fake_key_store i w = (None, w') \<and>
      fake_view w' = (fake_view w)(i := (case fake_view w i of Live v t \<Rightarrow> Pending v t | x \<Rightarrow> x))"
    by (auto simp: fake_ops fake_view_upd split: option.splits) (auto simp: fake_view_def)
qed

text \<open>Restore undoes a scheduled removal, and only that.\<close>

lemma fake_Restore_Delete:
  assumes "fake_healthy f" and "fake_view f idt = Live v t"
  shows "\<exists>f1 f2. fake_Delete idt f = (None, f1) \<and> fake_Restore idt f1 = (None, f2) \<and>
    fake_view f2 = fake_view f"
  using assms
  by (auto simp: fake_Delete_def fake_Restore_def fake_view_upd fake_view_def
      split: option.splits if_splits)

end
