(* ===== verification/KeyManager.thy ===== *)
theory KeyManager
  imports Credentials FakeKeyStore
begin

text \<open>
  \<open>internal/secrets/manager.go\<close>: the TTL cache every consumer reads credentials through.
  The struct's constant fields are \<open>key_manager\<close>, its map of entries is a field of the
  state.  In the context of \<open>key_store\<close> the lemmas show that the cache stays coherent with
  the store as long as this manager is the only writer, and what a reader therefore sees.
\<close>

record cacheEntry =
  ce_value :: string
  ce_modifiedAt :: time
  ce_expires :: time

record 'w key_manager =
  km_store :: "'w key_store"
  km_ttl :: duration

definition NewKeyManager :: "'w key_store \<Rightarrow> duration \<Rightarrow> 'w key_manager" where
  "NewKeyManager store ttl = \<lparr>km_store = store, km_ttl = ttl\<rparr>"

record 'w km_sys = "'w sys" +
  km_entries :: "ident \<Rightarrow> cacheEntry option"

definition Invalidate :: "ident \<Rightarrow> ('w, 'z) km_sys_scheme \<Rightarrow> ('w, 'z) km_sys_scheme" where
  "Invalidate i s = s\<lparr>km_entries := (km_entries s)(i := None)\<rparr>"

text \<open>The part of \<open>get\<close> after a cache miss.\<close>

definition km_fetch ::
  "'w env \<Rightarrow> 'w key_manager \<Rightarrow> ident \<Rightarrow> ('w, 'z) km_sys_scheme
     \<Rightarrow> (string \<times> time) result \<times> ('w, 'z) km_sys_scheme" where
  "km_fetch E km i s =
     (case call (GetSecret i) (ks_Get (km_store km) i) s of
        (Inl e, s1) \<Rightarrow> (Inl e, s1)
      | (Inr (v, modifiedAt), s1) \<Rightarrow>
          (case now E s1 of
             (t, s2) \<Rightarrow>
               (Inr (v, modifiedAt),
                s2\<lparr>km_entries := (km_entries s2)
                     (i \<mapsto> \<lparr>ce_value = v, ce_modifiedAt = modifiedAt, ce_expires = t + km_ttl km\<rparr>)\<rparr>)))"

definition km_get ::
  "'w env \<Rightarrow> 'w key_manager \<Rightarrow> ident \<Rightarrow> ('w, 'z) km_sys_scheme
     \<Rightarrow> (string \<times> time) result \<times> ('w, 'z) km_sys_scheme" where
  "km_get E km i s =
     (case km_entries s i of
        None \<Rightarrow> km_fetch E km i s
      | Some entry \<Rightarrow>
          (case now E s of
             (t, s1) \<Rightarrow>
               if t < ce_expires entry then (Inr (ce_value entry, ce_modifiedAt entry), s1)
               else km_fetch E km i s1))"

definition km_create ::
  "'w key_manager \<Rightarrow> ident \<Rightarrow> string \<Rightarrow> ('w, 'z) km_sys_scheme
     \<Rightarrow> gerror option \<times> ('w, 'z) km_sys_scheme" where
  "km_create km i v s =
     (case call (CreateSecret i v) (ks_Create (km_store km) i v) s of
        (Some e, s1) \<Rightarrow> (Some e, s1)
      | (None, s1) \<Rightarrow> (None, Invalidate i s1))"

definition km_update ::
  "'w key_manager \<Rightarrow> ident \<Rightarrow> string \<Rightarrow> ('w, 'z) km_sys_scheme
     \<Rightarrow> gerror option \<times> ('w, 'z) km_sys_scheme" where
  "km_update km i v s =
     (case call (UpdateSecret i v) (ks_Update (km_store km) i v) s of
        (Some e, s1) \<Rightarrow> (Some e, s1)
      | (None, s1) \<Rightarrow> (None, Invalidate i s1))"

definition CreateCredentials ::
  "'w env \<Rightarrow> 'w key_manager \<Rightarrow> ident \<Rightarrow> string \<Rightarrow> ('w, 'z) km_sys_scheme
     \<Rightarrow> credentials result \<times> ('w, 'z) km_sys_scheme" where
  "CreateCredentials E km i username s =
     (case NewCredentials E username s of
        (Inl e, s1) \<Rightarrow> (Inl e, s1)
      | (Inr creds, s1) \<Rightarrow>
          (case marshalCredentials E creds of
             Inl e \<Rightarrow> (Inl e, s1)
           | Inr v \<Rightarrow>
               (case km_create km i v s1 of
                  (Some e, s2) \<Rightarrow> (Inl e, s2)
                | (None, s2) \<Rightarrow> (Inr creds, s2))))"

definition UpdateCredentials ::
  "'w env \<Rightarrow> 'w key_manager \<Rightarrow> ident \<Rightarrow> credentials \<Rightarrow> ('w, 'z) km_sys_scheme
     \<Rightarrow> gerror option \<times> ('w, 'z) km_sys_scheme" where
  "UpdateCredentials E km i creds s =
     (case marshalCredentials E creds of
        Inl e \<Rightarrow> (Some e, s)
      | Inr v \<Rightarrow> km_update km i v s)"

definition GetCredentials ::
  "'w env \<Rightarrow> 'w key_manager \<Rightarrow> ident \<Rightarrow> ('w, 'z) km_sys_scheme
     \<Rightarrow> credentials result \<times> ('w, 'z) km_sys_scheme" where
  "GetCredentials E km i s =
     (case km_get E km i s of
        (Inl e, s1) \<Rightarrow> (Inl e, s1)
      | (Inr (v, rotatedAt), s1) \<Rightarrow> (unmarshalCredentials E v rotatedAt, s1))"

definition DeleteCredentials ::
  "'w key_manager \<Rightarrow> ident \<Rightarrow> ('w, 'z) km_sys_scheme
     \<Rightarrow> gerror option \<times> ('w, 'z) km_sys_scheme" where
  "DeleteCredentials km i s =
     (case call (DeleteSecret i) (ks_Delete (km_store km) i) s of
        (Some e, s1) \<Rightarrow> (Some e, s1)
      | (None, s1) \<Rightarrow> (None, Invalidate i s1))"

subsection \<open>Frames\<close>

text \<open>The manager touches the world, the trace and its own entries; the components above it
  keep their fields.\<close>

lemma call_km_frame:
  "call ef f (s :: ('w, 'z) km_sys_scheme) = (r, s') \<Longrightarrow>
     f (world s) = (r, world s') \<and> trace s' = trace s @ [ef] \<and> km_entries s' = km_entries s \<and>
     km_sys.more s' = km_sys.more s"
  by (auto simp: call_def split: prod.splits)

lemma now_km_frame:
  "now E (s :: ('w, 'z) km_sys_scheme) = (t, s') \<Longrightarrow>
     env_now E (world s) = (t, world s') \<and> trace s' = trace s \<and> km_entries s' = km_entries s \<and>
     km_sys.more s' = km_sys.more s"
  by (auto simp: now_def local_call_def split: prod.splits)

lemma Invalidate_simps [simp]:
  "world (Invalidate i s) = world s" "trace (Invalidate i s) = trace s"
  "km_entries (Invalidate i s) = (km_entries s)(i := None)"
  "km_sys.more (Invalidate i s) = km_sys.more s"
  by (simp_all add: Invalidate_def)

lemma NewCredentials_km_frame:
  "NewCredentials E u (s :: ('w, 'z) km_sys_scheme) = (r, s') \<Longrightarrow>
     trace s' = trace s \<and> km_entries s' = km_entries s \<and> km_sys.more s' = km_sys.more s"
  by (auto simp: NewCredentials_def GenerateKeyPair_def Let_def now_def local_call_def
      split: prod.splits sum.splits)

lemma km_fetch_frame:
  "km_fetch E km i s = (r, s') \<Longrightarrow> trace s' = trace s @ [GetSecret i] \<and> km_sys.more s' = km_sys.more s"
  by (auto simp: km_fetch_def dest!: call_km_frame now_km_frame split: prod.splits sum.splits)

lemma km_get_frame:
  "km_get E km i s = (r, s') \<Longrightarrow>
     (trace s' = trace s \<or> trace s' = trace s @ [GetSecret i]) \<and> km_sys.more s' = km_sys.more s"
  by (auto simp: km_get_def dest!: km_fetch_frame now_km_frame
      split: prod.splits option.splits if_splits)

lemma GetCredentials_frame:
  "GetCredentials E km i s = (r, s') \<Longrightarrow>
     (trace s' = trace s \<or> trace s' = trace s @ [GetSecret i]) \<and> km_sys.more s' = km_sys.more s"
  by (auto simp: GetCredentials_def dest!: km_get_frame split: prod.splits sum.splits)

lemma km_create_frame:
  "km_create km i v s = (r, s') \<Longrightarrow>
     trace s' = trace s @ [CreateSecret i v] \<and> km_sys.more s' = km_sys.more s"
  by (auto simp: km_create_def dest!: call_km_frame split: prod.splits option.splits)

lemma km_update_frame:
  "km_update km i v s = (r, s') \<Longrightarrow>
     trace s' = trace s @ [UpdateSecret i v] \<and> km_sys.more s' = km_sys.more s"
  by (auto simp: km_update_def dest!: call_km_frame split: prod.splits option.splits)

lemma CreateCredentials_frame:
  "CreateCredentials E km i u s = (r, s') \<Longrightarrow>
     (trace s' = trace s \<or> (\<exists>v. trace s' = trace s @ [CreateSecret i v])) \<and>
     km_sys.more s' = km_sys.more s"
  by (auto simp: CreateCredentials_def dest!: NewCredentials_km_frame km_create_frame
      split: prod.splits sum.splits option.splits)

lemma UpdateCredentials_frame:
  "UpdateCredentials E km i c s = (r, s') \<Longrightarrow>
     (trace s' = trace s \<or> (\<exists>v. trace s' = trace s @ [UpdateSecret i v])) \<and>
     km_sys.more s' = km_sys.more s"
  by (auto simp: UpdateCredentials_def dest!: km_update_frame split: sum.splits)

lemma DeleteCredentials_frame:
  "DeleteCredentials km i s = (r, s') \<Longrightarrow>
     trace s' = trace s @ [DeleteSecret i] \<and> km_sys.more s' = km_sys.more s"
  by (auto simp: DeleteCredentials_def dest!: call_km_frame split: prod.splits option.splits)

subsection \<open>Coherence, for every store that keeps the contract\<close>

text \<open>Every cached entry, expired or not, is what the store holds.  A write that fails is not followed by
  an invalidation, so after it that is known of the other identifiers only.\<close>

definition coherent :: "('w \<Rightarrow> ident \<Rightarrow> slot) \<Rightarrow> ('w, 'z) km_sys_scheme \<Rightarrow> bool" where
  "coherent view s \<longleftrightarrow>
     (\<forall>i e. km_entries s i = Some e \<longrightarrow> view (world s) i = Live (ce_value e) (ce_modifiedAt e))"

definition coherent_but :: "ident \<Rightarrow> ('w \<Rightarrow> ident \<Rightarrow> slot) \<Rightarrow> ('w, 'z) km_sys_scheme \<Rightarrow> bool" where
  "coherent_but j view s \<longleftrightarrow>
     (\<forall>i e. i \<noteq> j \<longrightarrow> km_entries s i = Some e \<longrightarrow> view (world s) i = Live (ce_value e) (ce_modifiedAt e))"

text \<open>The clock is read from the world but is no part of the store.\<close>

definition clock_frame :: "'w env \<Rightarrow> ('w \<Rightarrow> ident \<Rightarrow> slot) \<Rightarrow> ('w \<Rightarrow> bool) \<Rightarrow> bool" where
  "clock_frame E view good \<longleftrightarrow>
     (\<forall>w t w'. env_now E w = (t, w') \<longrightarrow> good w \<longrightarrow> view w' = view w \<and> good w')"

context key_store
begin

lemma km_fetch_coherent:
  assumes "clock_frame E view inv" and "km_store km = ks" and "inv (world s)" and "coherent view s"
    and "km_fetch E km i s = (r, s')"
  shows "inv (world s') \<and> coherent view s' \<and> view (world s') = view (world s) \<and>
    (\<forall>v t. r = Inr (v, t) \<longrightarrow> view (world s) i = Live v t)"
proof -
  obtain r1 s1 where c: "call (GetSecret i) (ks_Get ks i) s = (r1, s1)" by fastforce
  note f1 = call_km_frame [OF c]
  with assms(3) have s1: "inv (world s1)" "view (world s1) = view (world s)"
    using get_frame by blast+
  have live: "view (world s) i = Live v t" if "r1 = Inr (v, t)" for v t
    using get_live [OF assms(3)] f1 that by blast
  show ?thesis
  proof (cases r1)
    case (Inl e)
    then show ?thesis
      using assms(2,4,5) c s1 f1 by (auto simp: km_fetch_def coherent_def)
  next
    case (Inr vt)
    obtain v t where vt: "vt = (v, t)" by (cases vt)
    obtain t2 s2 where n: "now E s1 = (t2, s2)" by fastforce
    note f2 = now_km_frame [OF n]
    with assms(1) s1 have s2: "inv (world s2)" "view (world s2) = view (world s)"
      by (auto simp: clock_frame_def)
    show ?thesis
      using assms(2,4,5) c n s2 f1 f2 live Inr vt
      by (auto simp: km_fetch_def coherent_def split: if_splits)
  qed
qed

lemma km_get_coherent:
  assumes "clock_frame E view inv" and "km_store km = ks" and "inv (world s)" and "coherent view s"
    and "km_get E km i s = (r, s')"
  shows "inv (world s') \<and> coherent view s' \<and> view (world s') = view (world s) \<and>
    (\<forall>v t. r = Inr (v, t) \<longrightarrow> view (world s) i = Live v t)"
proof (cases "km_entries s i")
  case None
  with assms km_fetch_coherent show ?thesis by (simp add: km_get_def)
next
  case (Some entry)
  obtain t s1 where n: "now E s = (t, s1)" by fastforce
  note f = now_km_frame [OF n]
  with assms(1,3) have s1: "inv (world s1)" "view (world s1) = view (world s)"
    by (auto simp: clock_frame_def)
  with f assms(4) have co: "coherent view s1" by (simp add: coherent_def)
  show ?thesis
  proof (cases "t < ce_expires entry")
    case True
    with Some n assms(4,5) co s1 show ?thesis by (auto simp: km_get_def coherent_def)
  next
    case False
    with Some n assms(5) have "km_fetch E km i s1 = (r, s')" by (simp add: km_get_def)
    from km_fetch_coherent [OF assms(1,2) s1(1) co this] s1(2) show ?thesis by simp
  qed
qed

lemma km_create_coherent:
  assumes "km_store km = ks" and "inv (world s)" and "coherent view s"
    and "km_create km i v s = (r, s')"
  shows "inv (world s') \<and> coherent view s' \<and>
    (case r of Some e \<Rightarrow> view (world s) i \<noteq> Absent \<longrightarrow> view (world s') = view (world s)
     | None \<Rightarrow> view (world s) i = Absent \<and> (\<exists>t. view (world s') = (view (world s))(i := Live v t)))"
proof -
  obtain r1 s1 where c: "call (CreateSecret i v) (ks_Create ks i v) s = (r1, s1)" by fastforce
  note f = call_km_frame [OF c]
  show ?thesis
    using assms c f create_None [OF assms(2), of i v "world s1"]
      create_Some [OF assms(2), of i v _ "world s1"]
    by (cases r1) (auto simp: km_create_def coherent_def)
qed

lemma km_update_coherent:
  assumes "km_store km = ks" and "inv (world s)" and "coherent view s"
    and "km_update km i v s = (r, s')"
  shows "inv (world s') \<and>
    (case r of Some e \<Rightarrow> coherent_but i view s' \<and> (view (world s') = view (world s) \<longrightarrow> coherent view s')
     | None \<Rightarrow> coherent view s' \<and> is_live (view (world s) i) \<and>
         (\<exists>t. view (world s') = (view (world s))(i := Live v t)))"
proof -
  obtain r1 s1 where c: "call (UpdateSecret i v) (ks_Update ks i v) s = (r1, s1)" by fastforce
  note f = call_km_frame [OF c]
  show ?thesis
    using assms c f update_None [OF assms(2), of i v "world s1"]
      update_Some [OF assms(2), of i v _ "world s1"]
    by (cases r1) (auto simp: km_update_def coherent_def coherent_but_def)
qed

lemma DeleteCredentials_coherent:
  assumes "km_store km = ks" and "inv (world s)" and "coherent view s"
    and "DeleteCredentials km i s = (r, s')"
  shows "inv (world s') \<and>
    (case r of Some e \<Rightarrow> coherent_but i view s' \<and> (view (world s') = view (world s) \<longrightarrow> coherent view s')
     | None \<Rightarrow> coherent view s' \<and> (\<exists>x. \<not> is_live x \<and> view (world s') = (view (world s))(i := x)))"
proof -
  obtain r1 s1 where c: "call (DeleteSecret i) (ks_Delete ks i) s = (r1, s1)" by fastforce
  note f = call_km_frame [OF c]
  show ?thesis
    using assms c f delete_None [OF assms(2), of i "world s1"]
      delete_Some [OF assms(2), of i _ "world s1"]
    by (cases r1) (auto simp: DeleteCredentials_def coherent_def coherent_but_def)
qed

text \<open>A reader after a successful write sees the written value, or an error.\<close>

lemma read_your_writes:
  assumes "clock_frame E view inv" and "km_store km = ks" and "inv (world s)" and "coherent view s"
    and "km_update km i v s = (None, s1)" and "km_get E km i s1 = (Inr (v', t), s2)"
  shows "v' = v"
proof -
  from km_update_coherent [OF assms(2-5)] obtain t'
    where i: "inv (world s1)" and co: "coherent view s1" and v: "view (world s1) i = Live v t'"
    by auto
  from km_get_coherent [OF assms(1,2) i co assms(6)] v show ?thesis by simp
qed

text \<open>After a delete nothing is served any more, whatever was cached.\<close>

lemma no_read_after_delete:
  assumes "clock_frame E view inv" and "km_store km = ks" and "inv (world s)" and "coherent view s"
    and "DeleteCredentials km i s = (None, s1)" and "km_get E km i s1 = (r, s2)"
  shows "isl r"
proof -
  from DeleteCredentials_coherent [OF assms(2-5)]
  have i: "inv (world s1)" and co: "coherent view s1" and v: "\<not> is_live (view (world s1) i)"
    by auto
  from km_get_coherent [OF assms(1,2) i co assms(6)] v show ?thesis by (cases r) auto
qed

end

end
