(* ===== verification/Host.thy ===== *)
theory Host
  imports Errors
begin

text \<open>
  \<open>internal/snowflake/host/host.go\<close>: the connection host and browser URL of an account,
  from its locator and its cloud-region string.  The lemmas say exactly which regions are
  accepted, that a refusal is a user error, and that no two accounts share a host.
\<close>

definition privateLinkSuffix :: string where
  "privateLinkSuffix = ''.privatelink.snowflakecomputing.com''"

definition publicSuffix :: string where
  "publicSuffix = ''.snowflakecomputing.com''"

definition validClouds :: "string \<Rightarrow> bool" where
  "validClouds c \<longleftrightarrow> c = ''aws'' \<or> c = ''azure'' \<or> c = ''gcp''"

definition region_format_error :: "string \<Rightarrow> gerror" where
  "region_format_error region =
     NewUserError (''region '' @ [squote] @ region @ [squote] @
       '' does not match the expected cloud-region format (expected: aws-eu-central-1)'')"

definition regionSegment :: "string \<Rightarrow> string result" where
  "regionSegment region =
     (case index_byte region (CHR ''-'') of
        None \<Rightarrow> Inl (region_format_error region)
      | Some idx \<Rightarrow>
          if \<not> validClouds (take idx region) then Inl (region_format_error region)
          else if region = ''aws-eu-central-1'' then Inr ''eu-central-1''
          else Inr (drop (idx + 1) region @ ''.'' @ take idx region))"

definition Hostname :: "string \<Rightarrow> string \<Rightarrow> bool \<Rightarrow> string result" where
  "Hostname locator region usePrivateLink =
     (case regionSegment region of
        Inl e \<Rightarrow> Inl e
      | Inr segment \<Rightarrow>
          let suffix = (if usePrivateLink then privateLinkSuffix else publicSuffix)
          in Inr (locator @ ''.'' @ segment @ suffix))"

definition host_URL :: "string \<Rightarrow> string \<Rightarrow> bool \<Rightarrow> string result" where
  "host_URL locator region usePrivateLink =
     (case Hostname locator region usePrivateLink of
        Inl e \<Rightarrow> Inl e
      | Inr hostname \<Rightarrow> Inr (''https://'' @ hostname))"

subsection \<open>Accepted regions\<close>

definition cloud_region :: "string \<Rightarrow> bool" where
  "cloud_region region \<longleftrightarrow>
     (\<exists>cloud rest. validClouds cloud \<and> region = cloud @ CHR ''-'' # rest)"

lemma validClouds_no_dash: "validClouds c \<Longrightarrow> CHR ''-'' \<notin> set c"
  by (auto simp: validClouds_def)

lemma validClouds_no_dot: "validClouds c \<Longrightarrow> CHR ''.'' \<notin> set c"
  by (auto simp: validClouds_def)

lemma regionSegment_Inr:
  assumes "validClouds cloud"
  shows "regionSegment (cloud @ CHR ''-'' # rest) =
    Inr (if cloud @ CHR ''-'' # rest = ''aws-eu-central-1'' then ''eu-central-1''
         else rest @ ''.'' @ cloud)"
  using assms by (simp add: regionSegment_def index_byte_append validClouds_no_dash)

lemma regionSegment_Inl:
  assumes "\<not> cloud_region region"
  shows "regionSegment region = Inl (region_format_error region)"
proof (cases "index_byte region (CHR ''-'')")
  case (Some i)
  from index_byte_Some [OF this] have "region = take i region @ CHR ''-'' # drop (Suc i) region"
    by (metis id_take_nth_drop)
  with assms Some show ?thesis by (auto simp: regionSegment_def cloud_region_def)
qed (simp add: regionSegment_def)

lemma regionSegment_cases:
  obtains (bad) "\<not> cloud_region region" "regionSegment region = Inl (region_format_error region)"
  | (central) "region = ''aws-eu-central-1''" "regionSegment region = Inr ''eu-central-1''"
  | (general) cloud rest where "validClouds cloud" "region = cloud @ CHR ''-'' # rest"
      "region \<noteq> ''aws-eu-central-1''" "regionSegment region = Inr (rest @ ''.'' @ cloud)"
proof (cases "cloud_region region")
  case True
  then obtain cloud rest where "validClouds cloud" "region = cloud @ CHR ''-'' # rest"
    by (auto simp: cloud_region_def)
  then show ?thesis
    using central general [of cloud rest] regionSegment_Inr [of cloud rest]
    by (cases "region = ''aws-eu-central-1''") simp_all
qed (use bad regionSegment_Inl in blast)

lemma Hostname_Inr_iff: "(\<exists>h. Hostname locator region pl = Inr h) \<longleftrightarrow> cloud_region region"
proof (cases rule: regionSegment_cases [of region])
  case central
  have "cloud_region ''aws-eu-central-1''"
    unfolding cloud_region_def by (intro exI [of _ "''aws''"] exI [of _ "''eu-central-1''"])
      (simp add: validClouds_def)
  with central show ?thesis by (simp add: Hostname_def)
next
  case (general cloud rest)
  then show ?thesis by (auto simp: Hostname_def cloud_region_def Let_def)
qed (simp add: Hostname_def)

lemma Hostname_Inl_user:
  "Hostname locator region pl = Inl e \<Longrightarrow> e = region_format_error region \<and> IsUserError e"
  by (cases rule: regionSegment_cases [of region])
    (auto simp: Hostname_def Let_def region_format_error_def)

lemma host_URL_Hostname:
  "host_URL locator region pl = map_sum id (\<lambda>h. ''https://'' @ h) (Hostname locator region pl)"
  by (simp add: host_URL_def split: sum.splits)

subsection \<open>Hosts identify accounts\<close>

lemma append_dot_inject:
  assumes "xs @ CHR ''.'' # ys = xs' @ CHR ''.'' # ys'"
    and "CHR ''.'' \<notin> set ys" and "CHR ''.'' \<notin> set ys'"
  shows "xs = xs' \<and> ys = ys'"
proof -
  have "takeWhile (\<lambda>c. c \<noteq> CHR ''.'') (rev (zs @ CHR ''.'' # ws)) = rev ws"
    if "CHR ''.'' \<notin> set ws" for zs ws
    using that by (subst rev_append) (auto simp: takeWhile_tail)
  then have "rev ys = rev ys'" using assms by metis
  with assms show ?thesis by simp
qed

lemma regionSegment_inject:
  assumes "regionSegment r = Inr s" and "regionSegment r' = Inr s"
  shows "r = r'"
proof (cases rule: regionSegment_cases [of r])
  case central
  with assms show ?thesis
  proof (cases rule: regionSegment_cases [of r'])
    case (general cloud rest)
    with central assms have "CHR ''.'' \<in> set ''eu-central-1''" by auto
    then show ?thesis by simp
  qed auto
next
  case (general cloud rest)
  show ?thesis
  proof (cases rule: regionSegment_cases [of r'])
    case bad
    with assms show ?thesis by simp
  next
    case central
    with general assms have "rest @ ''.'' @ cloud = ''eu-central-1''" by simp
    then have "CHR ''.'' \<in> set ''eu-central-1''"
      by (metis in_set_conv_decomp append_Cons append_Nil)
    then show ?thesis by simp
  next
    case (general cloud' rest')
    with \<open>regionSegment r = Inr (rest @ ''.'' @ cloud)\<close> assms
    have "rest @ CHR ''.'' # cloud = rest' @ CHR ''.'' # cloud'" by simp
    moreover have "CHR ''.'' \<notin> set cloud" "CHR ''.'' \<notin> set cloud'"
      using \<open>validClouds cloud\<close> \<open>validClouds cloud'\<close> by (simp_all add: validClouds_no_dot)
    ultimately have "rest = rest' \<and> cloud = cloud'" by (rule append_dot_inject)
    with general \<open>r = cloud @ CHR ''-'' # rest\<close> show ?thesis by simp
  qed
qed (use assms in simp)

lemma Hostname_inject:
  assumes "Hostname l r pl = Inr h" and "Hostname l' r' pl = Inr h"
    and "CHR ''.'' \<notin> set l" and "CHR ''.'' \<notin> set l'"
  shows "l = l' \<and> r = r'"
proof -
  from assms(1) obtain s where s: "regionSegment r = Inr s"
      "h = l @ CHR ''.'' # s @ (if pl then privateLinkSuffix else publicSuffix)"
    by (auto simp: Hostname_def Let_def split: sum.splits)
  from assms(2) obtain s' where s': "regionSegment r' = Inr s'"
      "h = l' @ CHR ''.'' # s' @ (if pl then privateLinkSuffix else publicSuffix)"
    by (auto simp: Hostname_def Let_def split: sum.splits)
  have "takeWhile (\<lambda>c. c \<noteq> CHR ''.'') (zs @ CHR ''.'' # ws) = zs" if "CHR ''.'' \<notin> set zs" for zs ws
    using that by (auto simp: takeWhile_tail)
  then have "l = l'" using s(2) s'(2) assms(3,4) by metis
  with s(2) s'(2) have "s = s'" by simp
  with s(1) s'(1) have "r = r'" by (metis regionSegment_inject)
  with \<open>l = l'\<close> show ?thesis by simp
qed

subsection \<open>Properties\<close>

text \<open>Hostname fails exactly for regions that are not a known cloud, a dash and a rest, always
  with a user error; and for dot-free locators two targets with the same host are the same
  locator and region.\<close>

theorem Hostname_identifies:
  "((\<exists>h. Hostname l r pl = Inr h) \<longleftrightarrow> cloud_region r) \<and>
   (\<forall>e. Hostname l r pl = Inl e \<longrightarrow> IsUserError e) \<and>
   (CHR ''.'' \<notin> set l \<and> CHR ''.'' \<notin> set l' \<and> Hostname l r pl = Inr h \<and> Hostname l' r' pl = Inr h \<longrightarrow>
      l = l' \<and> r = r')"
  using Hostname_Inr_iff Hostname_Inl_user Hostname_inject by blast

lemma Hostname_identifies_witness:
  "Hostname ''xy12345'' ''aws-us-east-1'' True = Inr ''xy12345.us-east-1.aws.privatelink.snowflakecomputing.com'' \<and>
   cloud_region ''aws-us-east-1'' \<and> (\<exists>e. Hostname ''xy12345'' ''moon'' True = Inl e \<and> IsUserError e)"
proof -
  have h: "Hostname ''xy12345'' ''aws-us-east-1'' True =
      Inr ''xy12345.us-east-1.aws.privatelink.snowflakecomputing.com''"
    by (simp add: Hostname_def regionSegment_def validClouds_def privateLinkSuffix_def Let_def)
  obtain e where e: "Hostname ''xy12345'' ''moon'' True = Inl e"
    by (simp add: Hostname_def regionSegment_def)
  from Hostname_identifies [of "''xy12345''" "''moon''" True] e have "IsUserError e" by blast
  with Hostname_identifies [of "''xy12345''" "''aws-us-east-1''" True] h e show ?thesis by blast
qed

end
