(* ===== verification/Go_Duration.thy ===== *)
theory Go_Duration
  imports Prelude
begin

text \<open>
  \<open>time.ParseDuration\<close> of the standard library, which the base configuration and the
  end-to-end harness read durations with.  The amounts are the library's \<open>uint64\<close> values,
  kept in range by the checks it makes.  The fractional part of a number is computed exactly
  where the library multiplies in \<open>float64\<close>, so the two agree up to a nanosecond there.
\<close>

definition nanosecond :: nat where "nanosecond = 1"
definition microsecond :: nat where "microsecond = 1000"
definition millisecond :: nat where "millisecond = 1000000"
definition second :: nat where "second = 1000000000"
definition minute :: nat where "minute = 60000000000"
definition hour :: nat where "hour = 3600000000000"

lemmas unit_defs = nanosecond_def microsecond_def millisecond_def second_def minute_def hour_def

definition unitMap :: "string \<Rightarrow> nat option" where
  "unitMap u =
     (if u = ''ns'' then Some nanosecond
      else if u = ''us'' \<or> u = [CHR 0xC2, CHR 0xB5, CHR ''s''] \<or> u = [CHR 0xCE, CHR 0xBC, CHR ''s'']
        then Some microsecond
      else if u = ''ms'' then Some millisecond
      else if u = ''s'' then Some second
      else if u = ''m'' then Some minute
      else if u = ''h'' then Some hour
      else None)"

definition num_char :: "char \<Rightarrow> bool" where
  "num_char c \<longleftrightarrow> c = CHR ''.'' \<or> is_digit c"

definition digits_value :: "string \<Rightarrow> nat" where
  "digits_value ds = foldl (\<lambda>acc c. 10 * acc + (byte_of c - 48)) 0 ds"

text \<open>One number with its unit: the nanoseconds it stands for and the text after it.\<close>

definition duration_item :: "string \<Rightarrow> (nat \<times> string) option" where
  "duration_item s =
     (let pre = takeWhile is_digit s;
          s1 = dropWhile is_digit s;
          dot = (s1 \<noteq> [] \<and> hd s1 = CHR ''.'');
          post = (if dot then takeWhile is_digit (tl s1) else []);
          s2 = (if dot then dropWhile is_digit (tl s1) else s1);
          u = takeWhile (\<lambda>c. \<not> num_char c) s2;
          v = digits_value pre
      in if s = [] \<or> \<not> num_char (hd s) then None
         else if v > 2 ^ 63 then None
         else if pre = [] \<and> post = [] then None
         else (case unitMap u of
                 None \<Rightarrow> None
               | Some unit \<Rightarrow>
                   if v > 2 ^ 63 div unit then None
                   else let v' = v * unit + digits_value post * unit div 10 ^ length post
                        in if v' > 2 ^ 63 then None
                           else Some (v', dropWhile (\<lambda>c. \<not> num_char c) s2)))"

lemma unitMap_nonempty: "unitMap u = Some n \<Longrightarrow> u \<noteq> []"
  by (auto simp: unitMap_def)

lemma dropWhile_len: "length (dropWhile P xs) \<le> length xs"
  by (rule length_dropWhile_le)

lemma duration_item_shorter:
  assumes "duration_item s = Some (v, r)"
  shows "length r < length s"
proof -
  define s1 where "s1 = dropWhile is_digit s"
  define dot where "dot = (s1 \<noteq> [] \<and> hd s1 = CHR ''.'')"
  define s2 where "s2 = (if dot then dropWhile is_digit (tl s1) else s1)"
  from assms have u: "unitMap (takeWhile (\<lambda>c. \<not> num_char c) s2) \<noteq> None"
      and r: "r = dropWhile (\<lambda>c. \<not> num_char c) s2"
    by (auto simp: duration_item_def Let_def s1_def s2_def dot_def split: if_splits option.splits)
  from u have "takeWhile (\<lambda>c. \<not> num_char c) s2 \<noteq> []" using unitMap_nonempty by blast
  then obtain c cs where c: "s2 = c # cs" "\<not> num_char c"
    by (cases s2) (auto split: if_splits)
  have "length r < length s2" using r c length_dropWhile_le [of "\<lambda>c. \<not> num_char c" cs] by simp
  moreover have "length s2 \<le> length s"
    unfolding s2_def s1_def
    using length_dropWhile_le [of is_digit s]
      length_dropWhile_le [of is_digit "tl (dropWhile is_digit s)"]
    by (auto simp del: length_dropWhile_le)
  ultimately show ?thesis by simp
qed

function parse_items :: "nat \<Rightarrow> string \<Rightarrow> nat option" where
  "parse_items d s =
     (if s = [] then Some d
      else (case duration_item s of
              None \<Rightarrow> None
            | Some (v, r) \<Rightarrow> if d + v > 2 ^ 63 then None else parse_items (d + v) r))"
  by pat_completeness auto
termination
  by (relation "measure (\<lambda>(d, s). length s)") (auto dest: duration_item_shorter)

declare parse_items.simps [simp del]

definition ParseDuration :: "string \<Rightarrow> duration option" where
  "ParseDuration s0 =
     (let neg = (s0 \<noteq> [] \<and> hd s0 = CHR ''-'');
          s = (if s0 \<noteq> [] \<and> (hd s0 = CHR ''-'' \<or> hd s0 = CHR ''+'') then tl s0 else s0)
      in if s = ''0'' then Some 0
         else if s = [] then None
         else (case parse_items 0 s of
                 None \<Rightarrow> None
               | Some d \<Rightarrow>
                   if neg then Some (- int d)
                   else if d > 2 ^ 63 - 1 then None
                   else Some (int d)))"

lemma parse_items_le: "parse_items d s = Some r \<Longrightarrow> d \<le> 2 ^ 63 \<Longrightarrow> r \<le> 2 ^ 63"
proof (induction d s rule: parse_items.induct)
  case (1 d s)
  show ?case
    using 1(2,3) 1(1) by (simp add: parse_items.simps [of d s] split: if_splits option.splits prod.splits)
qed

text \<open>Every parsed duration fits the \<open>int64\<close> it is returned in.\<close>

lemma ParseDuration_range: "ParseDuration s = Some d \<Longrightarrow> - (2 ^ 63) \<le> d \<and> d < 2 ^ 63"
  using parse_items_le [of 0]
  by (fastforce simp: ParseDuration_def Let_def split: if_splits option.splits)

text \<open>A whole number of one unit, the form the documentation gives for every setting.\<close>

lemma digits_value_read: "list_all is_digit ds \<Longrightarrow> read_digits a ds = Some (foldl (\<lambda>acc c. 10 * acc + (byte_of c - 48)) a ds)"
  by (induction ds arbitrary: a) auto

lemma digits_value_show_nat [simp]: "digits_value (show_nat n) = n"
  using digits_value_read [OF show_nat_digits [of n], of 0] read_digits_show_nat [of n]
  by (simp add: digits_value_def)

lemma show_nat_span:
  assumes "t = [] \<or> \<not> is_digit (hd t)"
  shows "takeWhile is_digit (show_nat n @ t) = show_nat n"
    and "dropWhile is_digit (show_nat n @ t) = t"
proof -
  have all: "\<forall>c \<in> set (show_nat n). is_digit c"
    using show_nat_digits [of n] by (simp add: list_all_iff)
  have "takeWhile is_digit t = []" and "dropWhile is_digit t = t"
    using assms by (cases t; simp)+
  with all show "takeWhile is_digit (show_nat n @ t) = show_nat n"
    and "dropWhile is_digit (show_nat n @ t) = t"
    by (simp_all add: takeWhile_append2 dropWhile_append2)
qed

lemma unitMap_cases:
  assumes "unitMap u = Some k"
  shows "list_all (\<lambda>c. \<not> num_char c) u \<and> u \<noteq> [] \<and> 0 < k"
  using assms
  by (auto simp: unitMap_def unit_defs num_char_def byte_class_defs split: if_splits)

lemma ParseDuration_show_nat:
  assumes "unitMap u = Some k" and "n * k < 2 ^ 63"
  shows "ParseDuration (show_nat n @ u) = Some (int (n * k))"
proof -
  note uk = unitMap_cases [OF assms(1)]
  then have un: "\<forall>c \<in> set u. \<not> num_char c" by (simp add: list_all_iff)
  from uk un have hd: "\<not> num_char (hd u)" by (cases u) auto
  then have hdu: "\<not> is_digit (hd u)" "hd u \<noteq> CHR ''.''" by (auto simp: num_char_def)
  obtain c cs where s: "show_nat n = c # cs"
    using show_nat_nonempty [of n] by (cases "show_nat n") auto
  then have c: "is_digit c" by (rule hd_show_nat_digit)
  have n: "n \<le> 2 ^ 63 div k"
    using assms(2) uk by (metis div_le_mono nonzero_mult_div_cancel_right less_imp_le less_numeral_extra(3))
  have nk: "n \<le> n * k" using uk by simp
  with assms(2) have n63: "\<not> n > 2 ^ 63" by linarith
  have item: "duration_item (show_nat n @ u) = Some (n * k, [])"
  proof -
    have h: "hd (show_nat n @ u) = c" using s by simp
    have t: "takeWhile (\<lambda>c. \<not> num_char c) u = u" "dropWhile (\<lambda>c. \<not> num_char c) u = []"
      using un by simp_all
    have nc: "num_char c" using c by (simp add: num_char_def)
    have sp: "takeWhile is_digit (show_nat n @ u) = show_nat n"
        "dropWhile is_digit (show_nat n @ u) = u"
      using hdu by (simp_all add: show_nat_span)
    show ?thesis
      unfolding duration_item_def Let_def sp h
      using n n63 assms(2) uk by (simp add: hdu nc t assms(1) digits_value_def [of "[]"])
  qed
  have items: "parse_items 0 (show_nat n @ u) = Some (n * k)"
    using assms(2) item
    by (subst parse_items.simps) (simp add: parse_items.simps [of _ "[]"])
  have neq: "c \<noteq> CHR ''-''" "c \<noteq> CHR ''+''" using c not_digit_sign by auto
  have "show_nat n @ u \<noteq> ''0''"
  proof
    assume "show_nat n @ u = ''0''"
    with s uk show False by (cases cs; cases u) auto
  qed
  with items neq s assms(2) show ?thesis
    by (auto simp: ParseDuration_def Let_def)
qed

end
