(* ===== verification/BaseConfig.thy ===== *)
theory BaseConfig
  imports Identifier Host Go_Duration
begin

text \<open>
  \<open>internal/config/base/base.go\<close>: loading the provider-wide configuration.  The file system
  and yaml.v3 are parameters: reading a file of the directory, parsing bytes into a node tree,
  and decoding a tree into the raw settings.  Everything the package decides on that input is
  modelled: the cloud section, the shape checks in their order, the defaults and bounds.
\<close>

subsection \<open>Constants and patterns\<close>

definition defaultMaxConnectionPoolSize :: int where "defaultMaxConnectionPoolSize = 10"
definition defaultMaxIdleConnections :: int where "defaultMaxIdleConnections = 2"
definition defaultConnectionMaxLifetime :: duration where "defaultConnectionMaxLifetime = 30 * int minute"
definition defaultConnectionMaxIdleTime :: duration where "defaultConnectionMaxIdleTime = 5 * int minute"
definition defaultConnectionProbeTimeout :: duration where "defaultConnectionProbeTimeout = 10 * int second"
definition defaultAccountCreationGracePeriod :: duration where
  "defaultAccountCreationGracePeriod = 5 * int minute"
definition defaultSecretsCacheTTL :: duration where "defaultSecretsCacheTTL = 5 * int minute"
definition defaultRotationInterval :: duration where "defaultRotationInterval = 4320 * int hour"
definition defaultDeletionGracePeriodDays :: int where "defaultDeletionGracePeriodDays = 30"
definition minDeletionGracePeriodDays :: int where "minDeletionGracePeriodDays = 7"
definition maxDeletionGracePeriodDays :: int where "maxDeletionGracePeriodDays = 90"

lemmas base_defaults =
  defaultMaxConnectionPoolSize_def defaultMaxIdleConnections_def defaultConnectionMaxLifetime_def
  defaultConnectionMaxIdleTime_def defaultConnectionProbeTimeout_def
  defaultAccountCreationGracePeriod_def defaultSecretsCacheTTL_def defaultRotationInterval_def
  defaultDeletionGracePeriodDays_def minDeletionGracePeriodDays_def maxDeletionGracePeriodDays_def

definition identifierPattern :: rexp where
  "identifierPattern = re_head_tail is_alpha (\<lambda>c. is_alnum c \<or> c = CHR ''_'')"

definition awsRegionPattern :: rexp where
  "awsRegionPattern =
     RSeq (re_rep 2 (RCls is_lower))
       (RSeq (re_plus (RSeq (re_lit ''-'') (re_plus (RCls is_lower))))
         (RSeq (re_lit ''-'') (RCls is_digit)))"

definition hex_char :: "char \<Rightarrow> bool" where
  "hex_char c \<longleftrightarrow> is_digit c \<or> in_range 97 102 c \<or> in_range 65 70 c"

definition kms_name :: rexp where
  "kms_name = re_plus (RCls (\<lambda>c. is_alnum c \<or> c = CHR ''/'' \<or> c = CHR ''_'' \<or> c = CHR ''-''))"

definition kmsKeyIDPattern :: rexp where
  "kmsKeyIDPattern =
     RAlt
       (RSeq (re_lit ''arn:aws:kms:'')
         (RSeq (re_plus (RCls (\<lambda>c. is_lower c \<or> is_digit c \<or> c = CHR ''-'')))
           (RSeq (re_lit '':'') (RSeq (re_rep 12 (RCls is_digit))
             (RSeq (re_lit '':'') (RSeq (RAlt (re_lit ''key'') (re_lit ''alias''))
               (RSeq (re_lit ''/'') kms_name)))))))
       (RAlt (RSeq (re_lit ''alias/'') kms_name)
         (RSeq (re_rep 8 (RCls hex_char)) (RSeq (re_lit ''-'')
           (RSeq (re_rep 4 (RCls hex_char)) (RSeq (re_lit ''-'')
             (RSeq (re_rep 4 (RCls hex_char)) (RSeq (re_lit ''-'')
               (RSeq (re_rep 4 (RCls hex_char)) (RSeq (re_lit ''-'')
                 (re_rep 12 (RCls hex_char)))))))))))"

definition accountLocatorPattern :: rexp where
  "accountLocatorPattern = re_plus (RCls is_alnum)"

definition orgAdminRegionPattern :: rexp where
  "orgAdminRegionPattern =
     RSeq (RAlt (re_lit ''aws'') (RAlt (re_lit ''azure'') (re_lit ''gcp'')))
       (RSeq (re_lit ''-'')
         (re_head_tail is_lower (\<lambda>c. is_lower c \<or> is_digit c \<or> c = CHR ''-'')))"

definition cloudSectionKeys :: "string \<Rightarrow> bool" where
  "cloudSectionKeys k \<longleftrightarrow> k = ''aws'' \<or> k = ''azure'' \<or> k = ''gcp''"

subsection \<open>Settings\<close>

record snowflakeSettings =
  sf_Org :: string
  sf_OrgAdminAccount :: string
  sf_OrgAdminAccountLocator :: string
  sf_OrgAdminAccountRegion :: string
  sf_UsePrivateLink :: bool
  sf_DisableOCSPChecks :: bool
  sf_MaxConnectionPoolSize :: int
  sf_MaxIdleConnections :: int
  sf_ConnectionMaxLifetime :: duration
  sf_ConnectionMaxIdleTime :: duration
  sf_ConnectionProbeTimeout :: duration
  sf_AccountCreationGracePeriod :: duration

record awsSettings =
  aws_Region :: string
  aws_KmsKeyId :: string

record secretsSettings =
  sec_CacheTTL :: duration
  sec_RotationInterval :: duration

record deletionSettings =
  del_GracePeriodDays :: int
  del_Protection :: bool

record config =
  cfg_Snowflake :: snowflakeSettings
  cfg_AWS :: awsSettings
  cfg_Secrets :: secretsSettings
  cfg_Deletion :: deletionSettings
  cfg_cloudProvider :: string

definition CloudProvider :: "config \<Rightarrow> string" where
  "CloudProvider c = cfg_cloudProvider c"

record rawSnowflake =
  rsf_Org :: string
  rsf_OrgAdminAccount :: string
  rsf_OrgAdminAccountLocator :: string
  rsf_OrgAdminAccountRegion :: string
  rsf_UsePrivateLink :: "bool option"
  rsf_DisableOCSPChecks :: "bool option"
  rsf_MaxConnectionPoolSize :: "int option"
  rsf_MaxIdleConnections :: "int option"
  rsf_ConnectionMaxLifetime :: string
  rsf_ConnectionMaxIdleTime :: string
  rsf_ConnectionProbeTimeout :: string
  rsf_AccountCreationGracePeriod :: string

record rawAWS =
  raws_Region :: string
  raws_KmsKeyId :: string

record rawSecrets =
  rsec_CacheTTL :: string
  rsec_RotationInterval :: string

record rawDeletion =
  rdel_GracePeriodDays :: "int option"
  rdel_Protection :: "bool option"

record rawConfig =
  raw_Snowflake :: rawSnowflake
  raw_AWS :: rawAWS
  raw_Secrets :: rawSecrets
  raw_Deletion :: rawDeletion

definition zero_raw :: rawConfig where
  "zero_raw =
     \<lparr>raw_Snowflake = \<lparr>rsf_Org = [], rsf_OrgAdminAccount = [], rsf_OrgAdminAccountLocator = [],
        rsf_OrgAdminAccountRegion = [], rsf_UsePrivateLink = None, rsf_DisableOCSPChecks = None,
        rsf_MaxConnectionPoolSize = None, rsf_MaxIdleConnections = None,
        rsf_ConnectionMaxLifetime = [], rsf_ConnectionMaxIdleTime = [],
        rsf_ConnectionProbeTimeout = [], rsf_AccountCreationGracePeriod = []\<rparr>,
      raw_AWS = \<lparr>raws_Region = [], raws_KmsKeyId = []\<rparr>,
      raw_Secrets = \<lparr>rsec_CacheTTL = [], rsec_RotationInterval = []\<rparr>,
      raw_Deletion = \<lparr>rdel_GracePeriodDays = None, rdel_Protection = None\<rparr>\<rparr>"

text \<open>\<open>yaml.Node\<close>, the fields the package reads, and the outcome of \<open>os.ReadFile\<close>.\<close>

datatype yaml_kind = ZeroNode | DocumentNode | SequenceNode | MappingNode | ScalarNode | AliasNode

datatype yaml_node =
  YamlNode (yn_kind: yaml_kind) (yn_value: string) (yn_content: "yaml_node list")

datatype file_read = FileData string | FileNotExist gerror | FileError gerror

record base_io =
  io_read :: "string \<Rightarrow> string \<Rightarrow> file_read"
    \<comment> \<open>directory and file name, joined by \<open>filepath.Join\<close>\<close>
  io_unmarshal :: "string \<Rightarrow> yaml_node result"
  io_decode :: "yaml_node \<Rightarrow> rawConfig result"

subsection \<open>The loader\<close>

text \<open>The mapping's keys are its even entries; an odd last entry is not looked at.\<close>

fun cloud_keys :: "yaml_node list \<Rightarrow> string list" where
  "cloud_keys (k # v # ns) =
     (if cloudSectionKeys (yn_value k) then yn_value k # cloud_keys ns else cloud_keys ns)"
| "cloud_keys _ = []"

definition detectCloudSections :: "yaml_node \<Rightarrow> string list" where
  "detectCloudSections root =
     (if yn_kind root \<noteq> DocumentNode \<or> yn_content root = [] then []
      else let mapping = hd (yn_content root)
           in if yn_kind mapping \<noteq> MappingNode then [] else cloud_keys (yn_content mapping))"

definition positive_int_error :: "string \<Rightarrow> int \<Rightarrow> gerror" where
  "positive_int_error fieldPath i =
     NewUserError (fieldPath @ '' '' @ [squote] @ show_int i @ [squote] @ '' must be a positive integer'')"

definition resolvePositiveInt :: "string \<Rightarrow> int option \<Rightarrow> int \<Rightarrow> int result" where
  "resolvePositiveInt fieldPath raw def =
     (case raw of
        None \<Rightarrow> Inr def
      | Some i \<Rightarrow> if i \<le> 0 then Inl (positive_int_error fieldPath i) else Inr i)"

definition negative_int_error :: "string \<Rightarrow> int \<Rightarrow> gerror" where
  "negative_int_error fieldPath i =
     NewUserError (fieldPath @ '' '' @ [squote] @ show_int i @ [squote] @ '' must not be negative'')"

definition resolveNonNegativeInt :: "string \<Rightarrow> int option \<Rightarrow> int \<Rightarrow> int result" where
  "resolveNonNegativeInt fieldPath raw def =
     (case raw of
        None \<Rightarrow> Inr def
      | Some i \<Rightarrow> if i < 0 then Inl (negative_int_error fieldPath i) else Inr i)"

definition int_range_error :: "string \<Rightarrow> int \<Rightarrow> int \<Rightarrow> int \<Rightarrow> gerror" where
  "int_range_error fieldPath i lo hi =
     NewUserError (fieldPath @ '' '' @ [squote] @ show_int i @ [squote] @ '' must be between '' @
       show_int lo @ '' and '' @ show_int hi)"

definition resolveIntInRange :: "string \<Rightarrow> int option \<Rightarrow> int \<Rightarrow> int \<Rightarrow> int \<Rightarrow> int result" where
  "resolveIntInRange fieldPath raw def lo hi =
     (case raw of
        None \<Rightarrow> Inr def
      | Some i \<Rightarrow> if i < lo \<or> i > hi then Inl (int_range_error fieldPath i lo hi) else Inr i)"

definition duration_format_error :: "string \<Rightarrow> string \<Rightarrow> gerror" where
  "duration_format_error fieldPath raw =
     NewUserError (fieldPath @ '' '' @ [squote] @ raw @ [squote] @
       '' does not match the expected format (expected: a Go duration string, e.g. 30m)'')"

definition duration_sign_error :: "string \<Rightarrow> string \<Rightarrow> gerror" where
  "duration_sign_error fieldPath raw =
     NewUserError (fieldPath @ '' '' @ [squote] @ raw @ [squote] @ '' must be a positive duration'')"

definition resolvePositiveDuration :: "string \<Rightarrow> string \<Rightarrow> duration \<Rightarrow> duration result" where
  "resolvePositiveDuration fieldPath raw def =
     (if raw = [] then Inr def
      else (case ParseDuration raw of
              None \<Rightarrow> Inl (duration_format_error fieldPath raw)
            | Some d \<Rightarrow> if d \<le> 0 then Inl (duration_sign_error fieldPath raw) else Inr d))"

definition required_error :: "string \<Rightarrow> gerror" where
  "required_error fieldPath = NewUserError (fieldPath @ '' is required in base.yaml'')"

definition format_error :: "string \<Rightarrow> string \<Rightarrow> string \<Rightarrow> gerror" where
  "format_error fieldPath v expected =
     NewUserError (fieldPath @ '' '' @ [squote] @ v @ [squote] @
       '' does not match the expected format (expected: '' @ expected @ '')'')"

definition check_required :: "string \<Rightarrow> rexp \<Rightarrow> string \<Rightarrow> string \<Rightarrow> gerror option" where
  "check_required fieldPath pattern expected v =
     (if v = [] then Some (required_error fieldPath)
      else if \<not> re_match pattern v then Some (format_error fieldPath v expected)
      else None)"

definition check_optional :: "string \<Rightarrow> rexp \<Rightarrow> string \<Rightarrow> string \<Rightarrow> gerror option" where
  "check_optional fieldPath pattern expected v =
     (if v \<noteq> [] \<and> \<not> re_match pattern v then Some (format_error fieldPath v expected) else None)"

definition check_raw :: "rawConfig \<Rightarrow> gerror option" where
  "check_raw raw = first_error
     [check_required ''snowflake.org'' identifierPattern ''my_org_name''
        (rsf_Org (raw_Snowflake raw)),
      check_required ''snowflake.orgAdminAccount'' identifierPattern ''my_org_admin_account_name''
        (rsf_OrgAdminAccount (raw_Snowflake raw)),
      check_required ''snowflake.orgAdminAccountLocator'' accountLocatorPattern ''xy12345''
        (rsf_OrgAdminAccountLocator (raw_Snowflake raw)),
      check_required ''snowflake.orgAdminAccountRegion'' orgAdminRegionPattern
        ''aws-eu-central-1 or azure-westeurope'' (rsf_OrgAdminAccountRegion (raw_Snowflake raw)),
      check_optional ''aws.region'' awsRegionPattern ''eu-central-1'' (raws_Region (raw_AWS raw)),
      check_optional ''aws.kmsKeyId'' kmsKeyIDPattern
        ''a KMS key ID, alias, or ARN, e.g. alias/my-key'' (raws_KmsKeyId (raw_AWS raw))]"

definition deref :: "'a option \<Rightarrow> 'a \<Rightarrow> 'a" where
  "deref p d = (case p of None \<Rightarrow> d | Some x \<Rightarrow> x)"

text \<open>The rest of Load, once every check has passed: defaults and bounds.\<close>

definition resolve_config :: "rawConfig \<Rightarrow> string \<Rightarrow> config result" where
  "resolve_config raw cloud =
     (let rs = raw_Snowflake raw in
      and_then (resolvePositiveInt ''snowflake.maxConnectionPoolSize''
        (rsf_MaxConnectionPoolSize rs) defaultMaxConnectionPoolSize) (\<lambda>maxConnectionPoolSize.
      and_then (resolveNonNegativeInt ''snowflake.maxIdleConnections''
        (rsf_MaxIdleConnections rs) defaultMaxIdleConnections) (\<lambda>maxIdleConnections.
      and_then (resolvePositiveDuration ''snowflake.connectionMaxLifetime''
        (rsf_ConnectionMaxLifetime rs) defaultConnectionMaxLifetime) (\<lambda>connectionMaxLifetime.
      and_then (resolvePositiveDuration ''snowflake.connectionMaxIdleTime''
        (rsf_ConnectionMaxIdleTime rs) defaultConnectionMaxIdleTime) (\<lambda>connectionMaxIdleTime.
      and_then (resolvePositiveDuration ''snowflake.connectionProbeTimeout''
        (rsf_ConnectionProbeTimeout rs) defaultConnectionProbeTimeout) (\<lambda>connectionProbeTimeout.
      and_then (resolvePositiveDuration ''snowflake.accountCreationGracePeriod''
        (rsf_AccountCreationGracePeriod rs) defaultAccountCreationGracePeriod)
          (\<lambda>accountCreationGracePeriod.
      and_then (resolvePositiveDuration ''secrets.cacheTtl''
        (rsec_CacheTTL (raw_Secrets raw)) defaultSecretsCacheTTL) (\<lambda>cacheTTL.
      and_then (resolvePositiveDuration ''secrets.rotationInterval''
        (rsec_RotationInterval (raw_Secrets raw)) defaultRotationInterval) (\<lambda>rotationInterval.
      and_then (resolveIntInRange ''deletion.gracePeriodDays''
        (rdel_GracePeriodDays (raw_Deletion raw)) defaultDeletionGracePeriodDays
        minDeletionGracePeriodDays maxDeletionGracePeriodDays) (\<lambda>deletionGracePeriodDays.
      Inr \<lparr>cfg_Snowflake = \<lparr>
             sf_Org = rsf_Org rs,
             sf_OrgAdminAccount = rsf_OrgAdminAccount rs,
             sf_OrgAdminAccountLocator = rsf_OrgAdminAccountLocator rs,
             sf_OrgAdminAccountRegion = rsf_OrgAdminAccountRegion rs,
             sf_UsePrivateLink = deref (rsf_UsePrivateLink rs) True,
             sf_DisableOCSPChecks = deref (rsf_DisableOCSPChecks rs) False,
             sf_MaxConnectionPoolSize = maxConnectionPoolSize,
             sf_MaxIdleConnections = maxIdleConnections,
             sf_ConnectionMaxLifetime = connectionMaxLifetime,
             sf_ConnectionMaxIdleTime = connectionMaxIdleTime,
             sf_ConnectionProbeTimeout = connectionProbeTimeout,
             sf_AccountCreationGracePeriod = accountCreationGracePeriod\<rparr>,
           cfg_AWS = \<lparr>aws_Region = raws_Region (raw_AWS raw), aws_KmsKeyId = raws_KmsKeyId (raw_AWS raw)\<rparr>,
           cfg_Secrets = \<lparr>sec_CacheTTL = cacheTTL, sec_RotationInterval = rotationInterval\<rparr>,
           cfg_Deletion = \<lparr>del_GracePeriodDays = deletionGracePeriodDays,
             del_Protection = deref (rdel_Protection (raw_Deletion raw)) True\<rparr>,
           cfg_cloudProvider = cloud\<rparr>))))))))))"

definition base_parse_error :: "gerror \<Rightarrow> gerror" where
  "base_parse_error e = NewUserError (''failed to parse base.yaml: '' @ err_text e)"

definition no_cloud_error :: gerror where
  "no_cloud_error = NewUserError ''base.yaml must contain one cloud section (one of: aws, azure, gcp)''"

definition several_clouds_error :: "string list \<Rightarrow> gerror" where
  "several_clouds_error cloudSections =
     NewUserError (''base.yaml contains several cloud sections ('' @ str_join '', '' cloudSections @
       ''); exactly one is allowed'')"

definition base_decode :: "base_io \<Rightarrow> yaml_node \<Rightarrow> rawConfig result" where
  "base_decode io root =
     (if yn_kind root = DocumentNode \<and> yn_content root \<noteq> [] then io_decode io root
      else Inr zero_raw)"

definition base_Load :: "base_io \<Rightarrow> string \<Rightarrow> config result" where
  "base_Load io configDir =
     (case io_read io configDir ''base.yaml'' of
        FileNotExist e \<Rightarrow> Inl (NewUserError (''base.yaml not found in '' @ configDir))
      | FileError e \<Rightarrow> Inl (wrap ''reading base.yaml: '' e)
      | FileData data \<Rightarrow>
          (case io_unmarshal io data of
             Inl e \<Rightarrow> Inl (base_parse_error e)
           | Inr root \<Rightarrow>
               (case base_decode io root of
                  Inl e \<Rightarrow> Inl (base_parse_error e)
                | Inr raw \<Rightarrow>
                    (case detectCloudSections root of
                       [] \<Rightarrow> Inl no_cloud_error
                     | [cloud] \<Rightarrow>
                         (case check_raw raw of
                            Some e \<Rightarrow> Inl e
                          | None \<Rightarrow> resolve_config raw cloud)
                     | cloudSections \<Rightarrow> Inl (several_clouds_error cloudSections)))))"

subsection \<open>What a loaded configuration guarantees\<close>

text \<open>The bounds every consumer relies on, and the shapes of the names.\<close>

definition settings_in_bounds :: "config \<Rightarrow> bool" where
  "settings_in_bounds c \<longleftrightarrow>
     0 < sf_MaxConnectionPoolSize (cfg_Snowflake c) \<and> 0 \<le> sf_MaxIdleConnections (cfg_Snowflake c) \<and>
     0 < sf_ConnectionMaxLifetime (cfg_Snowflake c) \<and> 0 < sf_ConnectionMaxIdleTime (cfg_Snowflake c) \<and>
     0 < sf_ConnectionProbeTimeout (cfg_Snowflake c) \<and>
     0 < sf_AccountCreationGracePeriod (cfg_Snowflake c) \<and>
     0 < sec_CacheTTL (cfg_Secrets c) \<and> 0 < sec_RotationInterval (cfg_Secrets c) \<and>
     minDeletionGracePeriodDays \<le> del_GracePeriodDays (cfg_Deletion c) \<and>
     del_GracePeriodDays (cfg_Deletion c) \<le> maxDeletionGracePeriodDays"

definition sf_name :: "string \<Rightarrow> bool" where
  "sf_name s \<longleftrightarrow> (case s of [] \<Rightarrow> False
     | c # cs \<Rightarrow> is_alpha c \<and> list_all (\<lambda>c. is_alnum c \<or> c = CHR ''_'') cs)"

lemma resolve_bounds:
  "resolvePositiveInt f r d = Inr i \<Longrightarrow> 0 < d \<Longrightarrow> 0 < i"
  "resolveNonNegativeInt f r d = Inr i \<Longrightarrow> 0 \<le> d \<Longrightarrow> 0 \<le> i"
  "resolveIntInRange f r d lo hi = Inr i \<Longrightarrow> lo \<le> d \<Longrightarrow> d \<le> hi \<Longrightarrow> lo \<le> i \<and> i \<le> hi"
  "resolvePositiveDuration f t d = Inr i \<Longrightarrow> 0 < d \<Longrightarrow> 0 < i"
  by (auto simp: resolvePositiveInt_def resolveNonNegativeInt_def resolveIntInRange_def
      resolvePositiveDuration_def split: option.splits if_splits)

lemma resolve_user:
  "resolvePositiveInt f r d = Inl e \<Longrightarrow> IsUserError e"
  "resolveNonNegativeInt f r d = Inl e \<Longrightarrow> IsUserError e"
  "resolveIntInRange f r d lo hi = Inl e \<Longrightarrow> IsUserError e"
  "resolvePositiveDuration f t d = Inl e \<Longrightarrow> IsUserError e"
  by (auto simp: resolvePositiveInt_def resolveNonNegativeInt_def resolveIntInRange_def
      resolvePositiveDuration_def positive_int_error_def negative_int_error_def int_range_error_def
      duration_format_error_def duration_sign_error_def split: option.splits if_splits)

lemma defaults_in_bounds:
  "0 < defaultMaxConnectionPoolSize" "0 \<le> defaultMaxIdleConnections"
  "0 < defaultConnectionMaxLifetime" "0 < defaultConnectionMaxIdleTime"
  "0 < defaultConnectionProbeTimeout" "0 < defaultAccountCreationGracePeriod"
  "0 < defaultSecretsCacheTTL" "0 < defaultRotationInterval"
  "minDeletionGracePeriodDays \<le> defaultDeletionGracePeriodDays"
  "defaultDeletionGracePeriodDays \<le> maxDeletionGracePeriodDays"
  by (simp_all add: base_defaults unit_defs)

lemma resolve_config_bounds: "resolve_config raw cloud = Inr c \<Longrightarrow> settings_in_bounds c"
  unfolding resolve_config_def Let_def and_then_Inr settings_in_bounds_def
  using defaults_in_bounds
  by (elim exE conjE) (auto dest!: resolve_bounds)

lemma resolve_config_copies:
  "resolve_config raw cloud = Inr c \<Longrightarrow>
     sf_Org (cfg_Snowflake c) = rsf_Org (raw_Snowflake raw) \<and>
     sf_OrgAdminAccount (cfg_Snowflake c) = rsf_OrgAdminAccount (raw_Snowflake raw) \<and>
     sf_OrgAdminAccountLocator (cfg_Snowflake c) = rsf_OrgAdminAccountLocator (raw_Snowflake raw) \<and>
     sf_OrgAdminAccountRegion (cfg_Snowflake c) = rsf_OrgAdminAccountRegion (raw_Snowflake raw) \<and>
     del_Protection (cfg_Deletion c) = deref (rdel_Protection (raw_Deletion raw)) True \<and>
     cfg_cloudProvider c = cloud"
  unfolding resolve_config_def Let_def and_then_Inr
  by (elim exE conjE) auto

lemma resolve_config_user: "resolve_config raw cloud = Inl e \<Longrightarrow> IsUserError e"
  unfolding resolve_config_def Let_def and_then_Inl
  by (elim disjE exE conjE) (auto dest: resolve_user)

lemma check_user:
  "check_required f p x v = Some e \<Longrightarrow> IsUserError e"
  "check_optional f p x v = Some e \<Longrightarrow> IsUserError e"
  by (auto simp: check_required_def check_optional_def required_error_def format_error_def
      split: if_splits)

lemma check_raw_user: "check_raw raw = Some e \<Longrightarrow> IsUserError e"
  unfolding check_raw_def by (drule first_error_Some) (auto dest: check_user [OF sym])

lemma check_required_None: "check_required f p x v = None \<longleftrightarrow> v \<noteq> [] \<and> re_match p v"
  by (auto simp: check_required_def)

lemma orgAdminRegion_cloud_region:
  assumes "re_match orgAdminRegionPattern region"
  shows "cloud_region region"
  using assms
  unfolding re_match_iff orgAdminRegionPattern_def cloud_region_def validClouds_def
  by (auto simp: re_conc_iff)

lemma identifierPattern_sf_name: "re_match identifierPattern v \<longleftrightarrow> sf_name v"
  by (simp add: identifierPattern_def re_match_head_tail sf_name_def)

lemma check_raw_None:
  "check_raw raw = None \<Longrightarrow>
     sf_name (rsf_Org (raw_Snowflake raw)) \<and> sf_name (rsf_OrgAdminAccount (raw_Snowflake raw)) \<and>
     rsf_OrgAdminAccountLocator (raw_Snowflake raw) \<noteq> [] \<and>
     re_match accountLocatorPattern (rsf_OrgAdminAccountLocator (raw_Snowflake raw)) \<and>
     cloud_region (rsf_OrgAdminAccountRegion (raw_Snowflake raw))"
  unfolding check_raw_def first_error_None
  by (auto simp: check_required_None identifierPattern_sf_name orgAdminRegion_cloud_region)

lemma cloud_keys_set: "set (cloud_keys ns) \<subseteq> {''aws'', ''azure'', ''gcp''}"
  by (induction ns rule: cloud_keys.induct) (auto simp: cloudSectionKeys_def)

lemma detectCloudSections_set: "set (detectCloudSections root) \<subseteq> {''aws'', ''azure'', ''gcp''}"
  using cloud_keys_set by (simp add: detectCloudSections_def Let_def)

lemma base_Load_Inr:
  "base_Load io dir = Inr c \<longleftrightarrow>
     (\<exists>data root raw cloud. io_read io dir ''base.yaml'' = FileData data \<and>
        io_unmarshal io data = Inr root \<and> base_decode io root = Inr raw \<and>
        detectCloudSections root = [cloud] \<and> check_raw raw = None \<and>
        resolve_config raw cloud = Inr c)"
  by (auto simp: base_Load_def split: file_read.splits sum.splits list.splits option.splits)

lemma base_Load_region:
  "base_Load io dir = Inr c \<Longrightarrow> cloud_region (sf_OrgAdminAccountRegion (cfg_Snowflake c))"
  by (auto simp: base_Load_Inr dest!: check_raw_None resolve_config_copies)

lemma base_Load_clouds:
  "base_Load io dir = Inr c \<Longrightarrow> validClouds (cfg_cloudProvider c)"
proof -
  assume "base_Load io dir = Inr c"
  then obtain root raw cloud where "detectCloudSections root = [cloud]"
      and "resolve_config raw cloud = Inr c"
    unfolding base_Load_Inr by blast
  with detectCloudSections_set [of root] resolve_config_copies [of raw cloud c] show ?thesis
    by (auto simp: validClouds_def)
qed

subsection \<open>Properties\<close>

text \<open>A minimal file and what a reader makes of it, for the witnesses.\<close>

definition sample_raw :: rawConfig where
  "sample_raw = zero_raw\<lparr>raw_Snowflake := (raw_Snowflake zero_raw)
     \<lparr>rsf_Org := ''acme'', rsf_OrgAdminAccount := ''admin'', rsf_OrgAdminAccountLocator := ''xy1'',
      rsf_OrgAdminAccountRegion := ''gcp-eu'', rsf_ConnectionProbeTimeout := ''3s''\<rparr>\<rparr>"

definition sample_root :: yaml_node where
  "sample_root = YamlNode DocumentNode [] [YamlNode MappingNode []
     [YamlNode ScalarNode ''snowflake'' [], YamlNode MappingNode [] [],
      YamlNode ScalarNode ''aws'' [], YamlNode MappingNode [] []]]"

definition sample_io :: base_io where
  "sample_io = \<lparr>io_read = (\<lambda>d n. FileData []), io_unmarshal = (\<lambda>d. Inr sample_root),
     io_decode = (\<lambda>n. Inr sample_raw)\<rparr>"

lemma sample_check: "check_raw sample_raw = None"
  unfolding check_raw_def first_error_None
  by (auto simp: check_required_def check_optional_def sample_raw_def zero_raw_def
      identifierPattern_def accountLocatorPattern_def orgAdminRegionPattern_def
      re_head_tail_def re_plus_def re_lit_def byte_class_defs)

lemma sample_probe: "ParseDuration ''3s'' = Some 3000000000"
proof -
  have "show_nat 3 = ''3''" by (simp add: show_nat.simps digit_char_def char_of_def bit_0)
  moreover have "unitMap ''s'' = Some second" by (simp add: unitMap_def)
  ultimately show ?thesis
    using ParseDuration_show_nat [of "''s''" second 3] by (simp add: second_def)
qed

lemma sample_loads: "\<exists>c. base_Load sample_io ''/etc'' = Inr c"
proof -
  have "detectCloudSections sample_root = [''aws'']"
    by (simp add: detectCloudSections_def sample_root_def cloudSectionKeys_def)
  moreover have "base_decode sample_io sample_root = Inr sample_raw"
    by (simp add: base_decode_def sample_io_def sample_root_def)
  moreover have "\<exists>c. resolve_config sample_raw ''aws'' = Inr c"
    by (simp add: resolve_config_def Let_def sample_raw_def zero_raw_def resolvePositiveInt_def
        resolveNonNegativeInt_def resolvePositiveDuration_def resolveIntInRange_def sample_probe)
  ultimately show ?thesis
    using sample_check unfolding base_Load_Inr by (auto simp: sample_io_def)
qed

text \<open>C33: A configuration that loads is within every documented bound: pool sizes and
  durations are positive, the deletion window is between 7 and 90 days, exactly one known cloud
  is selected, and the names have the shape of Snowflake identifiers.\<close>

theorem Load_in_bounds:
  assumes "base_Load io configDir = Inr cfg"
  shows "settings_in_bounds cfg \<and> validClouds (CloudProvider cfg) \<and>
    sf_name (sf_Org (cfg_Snowflake cfg)) \<and> sf_name (sf_OrgAdminAccount (cfg_Snowflake cfg))"
proof -
  from assms obtain raw cloud where "check_raw raw = None" "resolve_config raw cloud = Inr cfg"
    unfolding base_Load_Inr by blast
  with check_raw_None resolve_config_bounds resolve_config_copies base_Load_clouds [OF assms]
  show ?thesis by (simp add: CloudProvider_def)
qed

lemma Load_in_bounds_witness:
  "\<exists>c. base_Load sample_io ''/etc'' = Inr c \<and> settings_in_bounds c"
  using sample_loads Load_in_bounds by blast

text \<open>With a loaded configuration the org-admin host can always be built: no region the
  loader accepts is refused by the host builder.\<close>

theorem Load_orgadmin_host:
  assumes "base_Load io configDir = Inr cfg"
  shows "\<exists>h. Hostname (sf_OrgAdminAccountLocator (cfg_Snowflake cfg))
    (sf_OrgAdminAccountRegion (cfg_Snowflake cfg)) (sf_UsePrivateLink (cfg_Snowflake cfg)) = Inr h"
  using base_Load_region [OF assms] by (simp add: Hostname_Inr_iff)

lemma Load_orgadmin_host_witness:
  "\<exists>c h. base_Load sample_io ''/etc'' = Inr c \<and>
    Hostname (sf_OrgAdminAccountLocator (cfg_Snowflake c)) (sf_OrgAdminAccountRegion (cfg_Snowflake c))
      (sf_UsePrivateLink (cfg_Snowflake c)) = Inr h"
  using sample_loads Load_orgadmin_host by blast

text \<open>A failure of the loader is a user error, except when the file exists and cannot be
  read: then it is the read error, wrapped.\<close>

theorem Load_errors:
  assumes "base_Load io configDir = Inl e"
  shows "case io_read io configDir ''base.yaml'' of
      FileError err \<Rightarrow> e = wrap ''reading base.yaml: '' err
    | _ \<Rightarrow> IsUserError e"
  using assms
  by (auto simp: base_Load_def base_parse_error_def no_cloud_error_def several_clouds_error_def
      dest: check_raw_user resolve_config_user
      split: file_read.splits sum.splits list.splits option.splits)

lemma Load_errors_witness:
  "\<exists>e. base_Load (sample_io\<lparr>io_unmarshal := (\<lambda>d. Inl (Foreign ''bad''))\<rparr>) ''/etc'' = Inl e \<and>
    IsUserError e"
proof -
  define io where "io = sample_io\<lparr>io_unmarshal := (\<lambda>d. Inl (Foreign ''bad''))\<rparr>"
  have "base_Load io ''/etc'' = Inl (base_parse_error (Foreign ''bad''))"
    by (simp add: io_def base_Load_def sample_io_def)
  with Load_errors [OF this] show ?thesis unfolding io_def by (auto simp: sample_io_def)
qed


end
