(* ===== verification/Statement.thy ===== *)
theory Statement
  imports World "HOL-Library.Multiset" "HOL-Library.AList"
begin

text \<open>
  Package \<open>internal/snowflake/statement\<close>: the renderers (\<open>render.go\<close>), the decorated error
  (\<open>errors.go\<close>, whose Error and Unwrap are the \<open>StmtError\<close> equations of \<open>err_text\<close> and
  \<open>err_chain\<close>), materialised rows (\<open>result.go\<close>) and the runner (\<open>statement.go\<close>).  The
  renderers are shown safe against a lexer of Snowflake's quoted tokens.
\<close>

subsection \<open>Renderers\<close>

definition bareIdentifierPattern :: rexp where
  "bareIdentifierPattern = re_head_tail is_alpha (\<lambda>c. is_alnum c \<or> c = CHR ''_'')"

definition QuoteIdentifier :: "string \<Rightarrow> string" where
  "QuoteIdentifier name = [dquote] @ replace_all dquote [dquote, dquote] name @ [dquote]"

definition QuoteLiteral :: "string \<Rightarrow> string" where
  "QuoteLiteral s =
     (let escaped = replace_all bslash [bslash, bslash] s;
          escaped = replace_all squote [squote, squote] escaped
      in [squote] @ escaped @ [squote])"

definition bare_identifier_error :: "string \<Rightarrow> gerror" where
  "bare_identifier_error name =
     NewUserError (''Parameter name '' @ [squote] @ name @ [squote] @
       '' is not a valid bare identifier (expected: letters, digits, underscore, starting with a letter)'')"

definition BareIdentifier :: "string \<Rightarrow> string result" where
  "BareIdentifier name =
     (if \<not> re_match bareIdentifierPattern name then Inl (bare_identifier_error name) else Inr name)"

text \<open>
  Snowflake's reading of a quoted token, from after the opening quote: the token's value and
  the text left after it.  In a string literal a backslash escapes the byte after it; in a
  quoted identifier only the doubled quote is special.
\<close>

definition unescape :: "char \<Rightarrow> char" where
  "unescape c =
     (if c = CHR ''n'' then CHR 0x0A else if c = CHR ''t'' then CHR 0x09
      else if c = CHR ''r'' then CHR 0x0D else if c = CHR ''0'' then CHR 0x00 else c)"

fun lex_literal :: "string \<Rightarrow> (string \<times> string) option" where
  "lex_literal [] = None"
| "lex_literal [c] = (if c = squote then Some ([], []) else None)"
| "lex_literal (c # d # cs) =
     (if c = squote then
        (if d = squote then map_option (\<lambda>(t, r). (squote # t, r)) (lex_literal cs)
         else Some ([], d # cs))
      else if c = bslash then map_option (\<lambda>(t, r). (unescape d # t, r)) (lex_literal cs)
      else map_option (\<lambda>(t, r). (c # t, r)) (lex_literal (d # cs)))"

fun lex_quoted_ident :: "string \<Rightarrow> (string \<times> string) option" where
  "lex_quoted_ident [] = None"
| "lex_quoted_ident [c] = (if c = dquote then Some ([], []) else None)"
| "lex_quoted_ident (c # d # cs) =
     (if c = dquote then
        (if d = dquote then map_option (\<lambda>(t, r). (dquote # t, r)) (lex_quoted_ident cs)
         else Some ([], d # cs))
      else map_option (\<lambda>(t, r). (c # t, r)) (lex_quoted_ident (d # cs)))"

lemma quote_literal_step:
  assumes "rest = [] \<or> hd rest \<noteq> squote"
  shows "lex_literal (replace_all squote [squote, squote] (replace_all bslash [bslash, bslash] s) @
    squote # rest) = Some (s, rest)"
proof (induction s)
  case Nil
  then show ?case using assms by (cases rest) auto
next
  case (Cons c s)
  let ?q = "replace_all squote [squote, squote] (replace_all bslash [bslash, bslash] s) @ squote # rest"
  obtain d q where q: "?q = d # q" by (cases ?q) auto
  show ?case
  proof (cases "c = bslash")
    case True
    then show ?thesis using Cons.IH by (simp add: unescape_def)
  next
    case False
    show ?thesis
    proof (cases "c = squote")
      case True
      then show ?thesis using Cons.IH by simp
    next
      case f: False
      with False have e: "replace_all squote [squote, squote]
          (replace_all bslash [bslash, bslash] (c # s)) @ squote # rest = c # ?q" by simp
      show ?thesis using Cons.IH False f unfolding e q by simp
    qed
  qed
qed

lemma quote_ident_step:
  assumes "rest = [] \<or> hd rest \<noteq> dquote"
  shows "lex_quoted_ident (replace_all dquote [dquote, dquote] s @ dquote # rest) = Some (s, rest)"
proof (induction s)
  case Nil
  then show ?case using assms by (cases rest) auto
next
  case (Cons c s)
  let ?q = "replace_all dquote [dquote, dquote] s @ dquote # rest"
  obtain d q where q: "?q = d # q" by (cases ?q) auto
  show ?case
  proof (cases "c = dquote")
    case False
    then have e: "replace_all dquote [dquote, dquote] (c # s) @ dquote # rest = c # ?q" by simp
    show ?thesis using Cons.IH False unfolding e q by simp
  qed (use Cons.IH in simp)
qed

lemma BareIdentifier_cases:
  "BareIdentifier name =
     (if name \<noteq> [] \<and> is_alpha (hd name) \<and> list_all (\<lambda>c. is_alnum c \<or> c = CHR ''_'') (tl name)
      then Inr name else Inl (bare_identifier_error name))"
  unfolding BareIdentifier_def bareIdentifierPattern_def re_match_head_tail
  by (cases name) simp_all

subsection \<open>Decorated errors\<close>

definition newError :: "string \<Rightarrow> string \<Rightarrow> gerror \<Rightarrow> gerror" where
  "newError label statement err =
     (case errors_As is_snowflake err of
        None \<Rightarrow> StmtError label statement [] 0 [] err
      | Some sfErr \<Rightarrow>
          StmtError label statement (sf_query_id sfErr) (sf_number sfErr) (sf_sqlstate sfErr) err)"

lemma err_chain_newError [simp]: "err_chain (newError l q e) = newError l q e # err_chain e"
  by (simp add: newError_def split: option.split)

lemma newError_simps [simp]:
  "IsUserError (newError l q e) \<longleftrightarrow> IsUserError e"
  "newError l q e \<noteq> ErrPendingDeletion"
  "se_label (newError l q e) = l" "se_statement (newError l q e) = q" "se_err (newError l q e) = e"
  by (simp_all add: newError_def split: option.split)

lemma newError_sqlstate:
  "se_sqlstate (newError l q e) =
     (case errors_As is_snowflake e of None \<Rightarrow> [] | Some sf \<Rightarrow> sf_sqlstate sf)"
  by (simp add: newError_def split: option.split)

subsection \<open>Materialised rows\<close>

text \<open>A Row is a Go map; the association list is the map in the order a range over it visits
  it, with each key once.  \<open>row_of\<close> is the loop that fills it: a repeated column name
  overwrites.\<close>

type_synonym row = "(string \<times> sql_val) list"

definition row_of :: "string list \<Rightarrow> sql_val list \<Rightarrow> row" where
  "row_of columns values = fold (\<lambda>(c, v) r. AList.update c v r) (zip columns values) []"

record query_result =
  qr_Columns :: "string list"
  qr_Rows :: "row list"

definition row_Value :: "row option \<Rightarrow> string \<Rightarrow> sql_val option" where
  "row_Value r column =
     (case r of
        None \<Rightarrow> None
      | Some kvs \<Rightarrow>
          (case map_of kvs column of
             Some v \<Rightarrow> Some v
           | None \<Rightarrow> map_option snd (List.find (\<lambda>(key, v). equal_fold key column) kvs)))"

definition row_StringValue :: "row option \<Rightarrow> string \<Rightarrow> string option" where
  "row_StringValue r column =
     (case row_Value r column of
        None \<Rightarrow> None
      | Some raw \<Rightarrow> (case raw of SqlString s \<Rightarrow> Some s | _ \<Rightarrow> None))"

definition row_Found :: "row option \<Rightarrow> bool" where
  "row_Found r \<longleftrightarrow> r \<noteq> None"

fun find_row :: "string \<Rightarrow> string \<Rightarrow> row list \<Rightarrow> row option" where
  "find_row column val [] = None"
| "find_row column val (row # rows) =
     (case row_StringValue (Some row) column of
        None \<Rightarrow> find_row column val rows
      | Some s \<Rightarrow> if equal_fold s val then Some row else find_row column val rows)"

definition FindRow :: "query_result \<Rightarrow> string \<Rightarrow> string \<Rightarrow> row option" where
  "FindRow r column val = find_row column val (qr_Rows r)"

definition row_matches :: "string \<Rightarrow> string \<Rightarrow> row \<Rightarrow> bool" where
  "row_matches column val row \<longleftrightarrow>
     (\<exists>s. row_StringValue (Some row) column = Some s \<and> equal_fold s val)"

lemma find_row_find: "find_row column val rows = List.find (row_matches column val) rows"
  by (induction rows) (auto simp: row_matches_def split: option.splits)

text \<open>No two columns differ by case only: then the order of the range does not matter.\<close>

definition fold_distinct :: "row \<Rightarrow> bool" where
  "fold_distinct kvs \<longleftrightarrow> distinct (map (to_lower \<circ> fst) kvs)"

lemma fold_distinct_keys: "fold_distinct kvs \<Longrightarrow> distinct (map fst kvs)"
  unfolding fold_distinct_def by (metis distinct_map map_map)

lemma fold_distinct_perm: "mset kvs = mset kvs' \<Longrightarrow> fold_distinct kvs \<Longrightarrow> fold_distinct kvs'"
  unfolding fold_distinct_def
  by (metis mset_eq_imp_distinct_iff mset_map)

lemma find_key_unique:
  assumes "fold_distinct kvs" and "(k, v) \<in> set kvs" and "equal_fold k column"
  shows "List.find (\<lambda>(key, v). equal_fold key column) kvs = Some (k, v)"
  using assms
proof (induction kvs)
  case (Cons kv kvs)
  obtain k' v' where kv: "kv = (k', v')" by (cases kv)
  show ?case
  proof (cases "(k, v) = kv")
    case False
    with Cons.prems have m: "(k, v) \<in> set kvs" by simp
    with Cons.prems(1) kv have "to_lower k' \<noteq> to_lower k"
      by (auto simp: fold_distinct_def image_iff)
    with Cons.prems(3) have "\<not> equal_fold k' column" by (auto simp: equal_fold_def)
    with Cons.IH Cons.prems m kv show ?thesis by (simp add: fold_distinct_def)
  qed (use Cons.prems in auto)
qed simp

lemma row_Value_fold:
  assumes "fold_distinct kvs"
  shows "row_Value (Some kvs) column =
    map_option snd (List.find (\<lambda>(key, v). equal_fold key column) kvs)"
proof (cases "map_of kvs column")
  case (Some v)
  then have "(column, v) \<in> set kvs" by (rule map_of_SomeD)
  from find_key_unique [OF assms this equal_fold_refl] Some show ?thesis
    by (simp add: row_Value_def)
qed (simp add: row_Value_def)

lemma row_Value_perm_aux:
  assumes "mset kvs = mset kvs'" and "fold_distinct kvs"
  shows "row_Value (Some kvs) column = row_Value (Some kvs') column"
proof -
  from assms have d': "fold_distinct kvs'" by (rule fold_distinct_perm)
  show ?thesis
  proof (cases "List.find (\<lambda>(key, v). equal_fold key column) kvs")
    case None
    then have "List.find (\<lambda>(key, v). equal_fold key column) kvs' = None"
      using assms(1) by (auto simp: find_None_set dest: mset_eq_setD)
    with None show ?thesis using assms(2) d' by (simp add: row_Value_fold)
  next
    case (Some kv)
    obtain k v where kv: "kv = (k, v)" by (cases kv)
    with find_Some_set [OF Some] assms(1) have "(k, v) \<in> set kvs'" "equal_fold k column"
      by (auto dest: mset_eq_setD)
    from find_key_unique [OF d' this] Some kv show ?thesis
      using assms(2) d' by (simp add: row_Value_fold)
  qed
qed

lemma map_of_fold_update:
  "map_of (fold (\<lambda>(c, v) r. AList.update c v r) cvs r) = map_of (rev cvs @ r)"
  by (induction cvs arbitrary: r) (auto simp: update_conv' fun_eq_iff map_add_def split: option.split)

lemma map_of_row_of: "map_of (row_of columns vs) = map_of (rev (zip columns vs))"
  by (simp add: row_of_def map_of_fold_update)

subsection \<open>The runner\<close>

record 's runner =
  rn_exec :: "'s executor"

definition statement_New :: "'s executor \<Rightarrow> 's runner" where
  "statement_New exec = \<lparr>rn_exec = exec\<rparr>"

definition runner_Exec :: "'s runner \<Rightarrow> string \<Rightarrow> string \<Rightarrow> string list \<Rightarrow> 's \<Rightarrow> gerror option \<times> 's" where
  "runner_Exec r label sql args s =
     (case ex_ExecContext (rn_exec r) sql args s of
        (Some err, s1) \<Rightarrow> (Some (newError label sql err), s1)
      | (None, s1) \<Rightarrow> (None, s1))"

text \<open>The loop over \<open>rows.Next\<close>: the first row that cannot be scanned ends it.\<close>

fun scan_rows :: "string list \<Rightarrow> sql_val list result list \<Rightarrow> row list result" where
  "scan_rows columns [] = Inr []"
| "scan_rows columns (Inl e # rs) = Inl e"
| "scan_rows columns (Inr values # rs) =
     (case scan_rows columns rs of Inl e \<Rightarrow> Inl e | Inr matched \<Rightarrow> Inr (row_of columns values # matched))"

definition materialize :: "string \<Rightarrow> string \<Rightarrow> rows \<Rightarrow> query_result result" where
  "materialize label sql rs =
     (case rows_columns rs of
        Inl e \<Rightarrow> Inl (newError label sql e)
      | Inr columns \<Rightarrow>
          (case scan_rows columns (rows_scan rs) of
             Inl e \<Rightarrow> Inl (newError label sql e)
           | Inr matched \<Rightarrow>
               (case rows_err rs of
                  Some e \<Rightarrow> Inl (newError label sql e)
                | None \<Rightarrow>
                    if matched = [] then Inr \<lparr>qr_Columns = [], qr_Rows = []\<rparr>
                    else Inr \<lparr>qr_Columns = columns, qr_Rows = matched\<rparr>)))"

definition runner_Query ::
  "'s runner \<Rightarrow> string \<Rightarrow> string \<Rightarrow> string list \<Rightarrow> 's \<Rightarrow> query_result result \<times> 's" where
  "runner_Query r label sql args s =
     (case ex_QueryContext (rn_exec r) sql args s of
        (Inl err, s1) \<Rightarrow> (Inl (newError label sql err), s1)
      | (Inr rs, s1) \<Rightarrow> (materialize label sql rs, s1))"

lemma scan_rows_Inr:
  "scan_rows columns rs = Inr matched \<longleftrightarrow>
     (\<exists>vss. rs = map Inr vss \<and> matched = map (row_of columns) vss)"
proof (induction columns rs arbitrary: matched rule: scan_rows.induct)
  case (3 columns "values" rs)
  show ?case
  proof
    assume "scan_rows columns (Inr values # rs) = Inr matched"
    then obtain m where "scan_rows columns rs = Inr m" "matched = row_of columns values # m"
      by (auto split: sum.splits)
    with 3 obtain vss where "rs = map Inr vss" "m = map (row_of columns) vss" by blast
    with \<open>matched = _\<close> show "\<exists>vss. Inr values # rs = map Inr vss \<and> matched = map (row_of columns) vss"
      by (intro exI [of _ "values # vss"]) simp
  next
    assume "\<exists>vss. Inr values # rs = map Inr vss \<and> matched = map (row_of columns) vss"
    then obtain vs where "rs = map Inr vs" "matched = row_of columns values # map (row_of columns) vs"
      by (auto simp: Cons_eq_map_conv)
    with 3 [of "map (row_of columns) vs"] show "scan_rows columns (Inr values # rs) = Inr matched"
      by auto
  qed
qed auto

lemma materialize_Inr:
  "materialize label sql rs = Inr res \<longleftrightarrow>
     (\<exists>columns vss. rows_columns rs = Inr columns \<and> rows_scan rs = map Inr vss \<and>
        rows_err rs = None \<and>
        res = \<lparr>qr_Columns = (if vss = [] then [] else columns), qr_Rows = map (row_of columns) vss\<rparr>)"
proof -
  have scan: "scan_rows columns (map Inr vss) = Inr (map (row_of columns) vss)" for columns vss
    by (simp add: scan_rows_Inr)
  then show ?thesis
    by (auto simp: materialize_def scan_rows_Inr scan split: sum.splits option.splits if_splits)
qed

text \<open>The runner over a pooled connection: one effect per statement.\<close>

lemma runner_Exec_frame:
  assumes "runner_Exec (statement_New (db_executor E d)) label sql args s = (r, s')"
  shows "trace s' = trace s @ [ExecSQL d sql args] \<and> sys.more s' = sys.more s \<and>
    (\<exists>r0. env_exec E d sql args (world s) = (r0, world s') \<and> r = map_option (newError label sql) r0)"
  using assms
  by (auto simp: runner_Exec_def statement_New_def db_executor_def dest!: call_frame
      split: prod.splits option.splits)

lemma runner_Query_frame:
  assumes "runner_Query (statement_New (db_executor E d)) label sql args s = (r, s')"
  shows "trace s' = trace s @ [QuerySQL d sql args] \<and> sys.more s' = sys.more s \<and>
    (\<exists>r0. env_query E d sql args (world s) = (r0, world s') \<and>
      r = (case r0 of Inl e \<Rightarrow> Inl (newError label sql e) | Inr rs \<Rightarrow> materialize label sql rs))"
  using assms
  by (auto simp: runner_Query_def statement_New_def db_executor_def dest!: call_frame
      split: prod.splits sum.splits)

subsection \<open>Properties\<close>

text \<open>C32: A quoted literal is one token: whatever the string and whatever follows it (short of a
  further quote), Snowflake's lexer reads back exactly that string and stops where the literal
  ends, so no value can break out of its literal.\<close>

theorem QuoteLiteral_roundtrip:
  assumes "rest = [] \<or> hd rest \<noteq> squote"
  shows "\<exists>body. QuoteLiteral v @ rest = squote # body \<and> lex_literal body = Some (v, rest)"
  using quote_literal_step [OF assms, of v] by (simp add: QuoteLiteral_def Let_def)

lemma QuoteLiteral_roundtrip_witness:
  "\<exists>body. QuoteLiteral ([bslash, squote] @ ''; DROP'') @ '' LIMIT 1'' = squote # body \<and>
     lex_literal body = Some ([bslash, squote] @ ''; DROP'', '' LIMIT 1'')"
proof -
  have "'' LIMIT 1'' = [] \<or> hd '' LIMIT 1'' \<noteq> squote" by simp
  from QuoteLiteral_roundtrip [OF this] show ?thesis by blast
qed

text \<open>A quoted identifier is one token as well, for every name.\<close>

theorem QuoteIdentifier_roundtrip:
  assumes "rest = [] \<or> hd rest \<noteq> dquote"
  shows "\<exists>body. QuoteIdentifier name @ rest = dquote # body \<and> lex_quoted_ident body = Some (name, rest)"
  using quote_ident_step [OF assms, of name] by (simp add: QuoteIdentifier_def)

lemma QuoteIdentifier_roundtrip_witness:
  "\<exists>body. QuoteIdentifier [CHR ''a'', dquote, CHR ''b''] @ '' x'' = dquote # body \<and>
     lex_quoted_ident body = Some ([CHR ''a'', dquote, CHR ''b''], '' x'')"
proof -
  have "'' x'' = [] \<or> hd '' x'' \<noteq> dquote" by simp
  from QuoteIdentifier_roundtrip [OF this] show ?thesis by blast
qed

text \<open>Query returns all rows or an error: a result has one row for each row of the driver, in
  order, each holding every column's value, only if no scan and no iteration failed; otherwise
  the error is decorated with the label and the statement and keeps the driver's cause.\<close>

theorem Query_all_or_error:
  assumes "runner_Query (statement_New ex) label sql args s = (r, s')"
  shows "case r of
      Inr res \<Rightarrow> (\<exists>rs columns vss. ex_QueryContext ex sql args s = (Inr rs, s') \<and>
        rows_columns rs = Inr columns \<and> rows_scan rs = map Inr vss \<and> rows_err rs = None \<and>
        length (qr_Rows res) = length vss \<and>
        (\<forall>k < length vss. map_of (qr_Rows res ! k) = map_of (rev (zip columns (vss ! k)))))
    | Inl e \<Rightarrow> se_label e = label \<and> se_statement e = sql \<and> tl (err_chain e) = err_chain (se_err e)"
proof -
  have e: "se_label (newError label sql x) = label \<and> se_statement (newError label sql x) = sql \<and>
      tl (err_chain (newError label sql x)) = err_chain (se_err (newError label sql x))" for x by simp
  obtain r0 s0 where q: "ex_QueryContext ex sql args s = (r0, s0)" by fastforce
  show ?thesis
  proof (cases r0)
    case (Inl x)
    with q assms e show ?thesis by (auto simp: runner_Query_def statement_New_def)
  next
    case (Inr rs)
    with q assms have r: "r = materialize label sql rs" "s' = s0"
      by (simp_all add: runner_Query_def statement_New_def)
    show ?thesis
    proof (cases r)
      case (Inl x)
      have "\<exists>y. materialize label sql rs = Inl (newError label sql y)" if "materialize label sql rs = Inl x" for x
        using that by (auto simp: materialize_def split: sum.splits option.splits if_splits)
      with r Inl obtain y where "x = newError label sql y" by fastforce
      with Inl e show ?thesis by simp
    next
      case (Inr res)
      with r have "materialize label sql rs = Inr res" by simp
      then obtain columns vss where "rows_columns rs = Inr columns" "rows_scan rs = map Inr vss"
          "rows_err rs = None" "qr_Rows res = map (row_of columns) vss"
        by (auto simp: materialize_Inr)
      with Inr q \<open>r0 = Inr rs\<close> r(2) show ?thesis by (auto simp: map_of_row_of)
    qed
  qed
qed

lemma Query_all_or_error_witness:
  "let ex = \<lparr>ex_ExecContext = (\<lambda>q a s. (None, s)),
       ex_QueryContext = (\<lambda>q a s. (Inr \<lparr>rows_columns = Inr [''c''], rows_scan = [Inr [SqlString ''v'']], rows_err = None\<rparr>, s))\<rparr>;
     (r, s') = runner_Query (statement_New ex) ''show'' ''SHOW X'' [] (0 :: nat) in
   \<exists>res. r = Inr res \<and> length (qr_Rows res) = 1 \<and> map_of (qr_Rows res ! 0) = [''c'' \<mapsto> SqlString ''v'']"
proof -
  let ?ex = "\<lparr>ex_ExecContext = (\<lambda>q a s. (None, s)),
       ex_QueryContext = (\<lambda>q a s. (Inr \<lparr>rows_columns = Inr [''c''], rows_scan = [Inr [SqlString ''v'']], rows_err = None\<rparr>, s))\<rparr>"
  obtain r s' where q: "runner_Query (statement_New ?ex) ''show'' ''SHOW X'' [] (0 :: nat) = (r, s')" by fastforce
  then have "\<exists>res. r = Inr res"
    by (auto simp: runner_Query_def statement_New_def materialize_def)
  with Query_all_or_error [OF q] q show ?thesis by (auto simp: Let_def)
qed

text \<open>Reading a column does not depend on the order in which Go visits the row map, as long as
  no two columns differ only in case.\<close>

theorem Value_order_independent:
  assumes "mset kvs = mset kvs'" and "fold_distinct kvs"
  shows "row_Value (Some kvs) column = row_Value (Some kvs') column \<and>
    row_StringValue (Some kvs) column = row_StringValue (Some kvs') column"
  using row_Value_perm_aux [OF assms] by (simp add: row_StringValue_def)

lemma Value_order_independent_witness:
  "row_Value (Some [(''NAME'', SqlString ''x''), (''email'', SqlNull)]) ''name'' =
   row_Value (Some [(''email'', SqlNull), (''NAME'', SqlString ''x'')]) ''name''"
proof -
  have "mset [(''NAME'', SqlString ''x''), (''email'', SqlNull)] = mset [(''email'', SqlNull), (''NAME'', SqlString ''x'')]"
    by simp
  moreover have "fold_distinct [(''NAME'', SqlString ''x''), (''email'', SqlNull)]" by code_simp
  ultimately show ?thesis using Value_order_independent by blast
qed

end
