(* ===== verification/Pool.thy ===== *)
theory Pool
  imports KeyManager BaseConfig Statement
begin

text \<open>
  Package \<open>internal/snowflake/pool\<close>: the cache of connections (\<open>pool.go\<close>), dialing
  (\<open>connect.go\<close>) and inline credential rotation (\<open>rotate.go\<close>).  The pool's constant fields
  are the record \<open>pool\<close>; the ones it writes extend the state.  A method that holds a mutex
  throughout is one step of the model, the mutex itself the field \<open>ps_keyLocks\<close>, which gives
  each target its own.
\<close>

record tenantKey =
  tk_namespace :: string
  tk_accountName :: string

record tenantEntry =
  te_db :: db
  te_locator :: string
  te_region :: string

record 'w pool_sys = "'w km_sys" +
  ps_orgAdminDB :: "db option"
  ps_entries :: "(tenantKey \<times> tenantEntry) list"
    \<comment> \<open>the map, in the order a range visits it\<close>
  ps_keyLocks :: "(tenantKey \<times> nat) list"

record dialConfig =
  dc_snowflake :: sf_config
  dc_probeTimeout :: duration

record ('w, 's) pool =
  pl_keyManager :: "'w key_manager"
  pl_cfg :: config
  pl_dial :: "dialConfig \<Rightarrow> 's \<Rightarrow> db result \<times> 's"

subsection \<open>Dialing\<close>

definition open_db :: "'w env \<Rightarrow> sf_config \<Rightarrow> ('w, 'z) sys_scheme \<Rightarrow> db \<times> ('w, 'z) sys_scheme" where
  "open_db E c s =
     (case env_openDB E c (world s) of (d, w) \<Rightarrow> (d, emit (OpenDB d c) (s\<lparr>world := w\<rparr>)))"

definition defaultDial ::
  "'w env \<Rightarrow> dialConfig \<Rightarrow> ('w, 'z) sys_scheme \<Rightarrow> db result \<times> ('w, 'z) sys_scheme" where
  "defaultDial E dc s =
     (case open_db E (dc_snowflake dc) s of
        (db, s1) \<Rightarrow>
          (case call (PingDB db) (env_ping E db (dc_probeTimeout dc)) s1 of
             (Some err, s2) \<Rightarrow> (case close_db E db s2 of (_, s3) \<Rightarrow> (Inl err, s3))
           | (None, s2) \<Rightarrow> (Inr db, s2)))"

definition authTypeJwt :: string where
  "authTypeJwt = ''SNOWFLAKE_JWT''"

definition buildSnowflakeConfig ::
  "string \<Rightarrow> string \<Rightarrow> string \<Rightarrow> rsa_key \<Rightarrow> string \<Rightarrow> bool \<Rightarrow> sf_config" where
  "buildSnowflakeConfig account host user key role disableOCSPChecks =
     \<lparr>sfc_Account = account, sfc_Host = host, sfc_User = user, sfc_PrivateKey = key,
      sfc_Role = role, sfc_Authenticator = authTypeJwt, sfc_DisableOCSPChecks = disableOCSPChecks\<rparr>"

definition publicKeyFingerprint :: "'w env \<Rightarrow> rsa_key \<Rightarrow> string" where
  "publicKeyFingerprint E key =
     (case env_marshalPKIX E key of
        Inl e \<Rightarrow> []
      | Inr der \<Rightarrow> ''SHA256:'' @ base64_std (sum256 der))"

definition parsePrivateKey :: "'w env \<Rightarrow> string \<Rightarrow> rsa_key result" where
  "parsePrivateKey E pemStr =
     (case env_pemDecode E pemStr of
        None \<Rightarrow> Inl (plain_error ''no PEM block found'')
      | Some block \<Rightarrow>
          (case env_parsePKCS8 E block of
             Inl e \<Rightarrow> Inl (wrap ''failed to parse PKCS#8 private key: '' e)
           | Inr None \<Rightarrow> Inl (plain_error ''private key is not an RSA key'')
           | Inr (Some rsaKey) \<Rightarrow> Inr rsaKey))"

definition applyPoolSettings ::
  "'w env \<Rightarrow> db \<Rightarrow> config \<Rightarrow> ('w, 'z) sys_scheme \<Rightarrow> ('w, 'z) sys_scheme" where
  "applyPoolSettings E db cfg s =
     (let sf = cfg_Snowflake cfg
      in s\<lparr>world := env_setLimits E db (sf_MaxConnectionPoolSize sf) (sf_MaxIdleConnections sf)
            (sf_ConnectionMaxLifetime sf) (sf_ConnectionMaxIdleTime sf) (world s)\<rparr>)"

subsection \<open>Rotation\<close>

definition rsaPublicKeySlot :: string where "rsaPublicKeySlot = ''RSA_PUBLIC_KEY''"
definition rsaPublicKey2Slot :: string where "rsaPublicKey2Slot = ''RSA_PUBLIC_KEY_2''"

definition credentialDue ::
  "'w env \<Rightarrow> time \<Rightarrow> duration \<Rightarrow> ('w, 'z) sys_scheme \<Rightarrow> bool \<times> ('w, 'z) sys_scheme" where
  "credentialDue E rotatedAt interval s =
     (case now E s of (t, s1) \<Rightarrow> (rotatedAt < t + (- interval), s1))"

definition pool_quoteIdentifier :: "string \<Rightarrow> string" where
  "pool_quoteIdentifier s = [dquote] @ replace_all dquote [dquote, dquote] (to_upper s) @ [dquote]"

text \<open>\<open>sql.NullString.String\<close>.\<close>

fun null_string :: "sql_val \<Rightarrow> string" where
  "null_string (SqlString s) = s"
| "null_string SqlNull = []"
| "null_string (SqlOther s) = s"

text \<open>The loop over DESC USER: the two fingerprints seen last.\<close>

fun scan_fingerprints ::
  "sql_val list result list \<Rightarrow> string \<Rightarrow> string \<Rightarrow> (string \<times> string) result" where
  "scan_fingerprints [] fp1 fp2 = Inr (fp1, fp2)"
| "scan_fingerprints (Inl e # rs) fp1 fp2 = Inl e"
| "scan_fingerprints (Inr raw # rs) fp1 fp2 =
     (if length raw < 2 then scan_fingerprints rs fp1 fp2
      else if null_string (raw ! 0) = ''RSA_PUBLIC_KEY_FP''
        then scan_fingerprints rs (null_string (raw ! 1)) fp2
      else if null_string (raw ! 0) = ''RSA_PUBLIC_KEY_2_FP''
        then scan_fingerprints rs fp1 (null_string (raw ! 1))
      else scan_fingerprints rs fp1 fp2)"

definition no_slot_error :: "string \<Rightarrow> gerror" where
  "no_slot_error username =
     plain_error (''neither key slot'' @ [squote] @ ''s fingerprint on '' @ username @
       '' matches the stored credential'')"

definition choose_slot :: "string \<Rightarrow> string \<Rightarrow> rows \<Rightarrow> string result" where
  "choose_slot username currentFingerprint rs =
     (case rows_columns rs of
        Inl e \<Rightarrow> Inl e
      | Inr cols \<Rightarrow>
          (case scan_fingerprints (rows_scan rs) [] [] of
             Inl e \<Rightarrow> Inl e
           | Inr (slot1FP, slot2FP) \<Rightarrow>
               (case rows_err rs of
                  Some e \<Rightarrow> Inl e
                | None \<Rightarrow>
                    if slot1FP = currentFingerprint then Inr rsaPublicKey2Slot
                    else if slot2FP = currentFingerprint then Inr rsaPublicKeySlot
                    else Inl (no_slot_error username))))"

definition desc_user_sql :: "string \<Rightarrow> string" where
  "desc_user_sql username = ''DESC USER '' @ pool_quoteIdentifier username"

definition targetSlot ::
  "'w env \<Rightarrow> db \<Rightarrow> string \<Rightarrow> string \<Rightarrow> ('w, 'z) sys_scheme \<Rightarrow> string result \<times> ('w, 'z) sys_scheme" where
  "targetSlot E db username currentFingerprint s =
     (case ex_QueryContext (db_executor E db) (desc_user_sql username) [] s of
        (Inl e, s1) \<Rightarrow> (Inl e, s1)
      | (Inr rs, s1) \<Rightarrow> (choose_slot username currentFingerprint rs, s1))"

definition alter_user_sql :: "string \<Rightarrow> string \<Rightarrow> string \<Rightarrow> string" where
  "alter_user_sql username slot publicKey =
     ''ALTER USER '' @ pool_quoteIdentifier username @ '' SET '' @ slot @ '' = '' @
     [squote] @ publicKey @ [squote]"

definition rotateCredential ::
  "'w env \<Rightarrow> ('w, ('w, 'z) pool_sys_scheme) pool \<Rightarrow> db \<Rightarrow> ident \<Rightarrow> string \<Rightarrow> rsa_key
     \<Rightarrow> ('w, 'z) pool_sys_scheme \<Rightarrow> gerror option \<times> ('w, 'z) pool_sys_scheme" where
  "rotateCredential E p db idt username currentKey s =
     (case targetSlot E db username (publicKeyFingerprint E currentKey) s of
        (Inl err, s1) \<Rightarrow>
          (Some (wrap (''failed to determine rotation slot for '' @ username @ '': '') err), s1)
      | (Inr slot, s1) \<Rightarrow>
          (case NewCredentials E username s1 of
             (Inl err, s2) \<Rightarrow>
               (Some (wrap (''failed to generate rotated credentials for '' @ username @ '': '') err), s2)
           | (Inr fresh, s2) \<Rightarrow>
               (case ex_ExecContext (db_executor E db)
                       (alter_user_sql username slot (c_PublicKey fresh)) [] s2 of
                  (Some err, s3) \<Rightarrow>
                    (Some (wrap (''failed to push rotated public key into '' @ slot @ '' for '' @
                       username @ '': '') err), s3)
                | (None, s3) \<Rightarrow>
                    (case UpdateCredentials E (pl_keyManager p) idt fresh s3 of
                       (Some err, s4) \<Rightarrow>
                         (Some (wrap (''failed to store rotated credentials for '' @ username @ '': '')
                            err), s4)
                     | (None, s4) \<Rightarrow> (None, s4)))))"

definition maybeRotateLocked ::
  "'w env \<Rightarrow> ('w, ('w, 'z) pool_sys_scheme) pool \<Rightarrow> db \<Rightarrow> ident
     \<Rightarrow> ('w, 'z) pool_sys_scheme \<Rightarrow> ('w, 'z) pool_sys_scheme" where
  "maybeRotateLocked E p db idt s =
     (case GetCredentials E (pl_keyManager p) idt s of
        (Inl err, s1) \<Rightarrow> s1
      | (Inr creds, s1) \<Rightarrow>
          (case credentialDue E (c_RotatedAt creds) (sec_RotationInterval (cfg_Secrets (pl_cfg p))) s1 of
             (due, s2) \<Rightarrow>
               if \<not> due then s2
               else (case parsePrivateKey E (c_PrivateKey creds) of
                       Inl err \<Rightarrow> s2
                     | Inr key \<Rightarrow>
                         (case rotateCredential E p db idt (c_Username creds) key s2 of
                            (_, s3) \<Rightarrow> s3))))"

subsection \<open>The pool\<close>

definition pool_New ::
  "'w env \<Rightarrow> 'w key_manager \<Rightarrow> config \<Rightarrow> ('w, ('w, 'z) pool_sys_scheme) pool" where
  "pool_New E keyManager cfg =
     \<lparr>pl_keyManager = keyManager, pl_cfg = cfg, pl_dial = defaultDial E\<rparr>"

text \<open>Locks are numbered in the order they are made.\<close>

definition keyLock :: "tenantKey \<Rightarrow> ('w, 'z) pool_sys_scheme \<Rightarrow> nat \<times> ('w, 'z) pool_sys_scheme" where
  "keyLock key s =
     (case map_of (ps_keyLocks s) key of
        Some l \<Rightarrow> (l, s)
      | None \<Rightarrow>
          let l = length (ps_keyLocks s) in (l, s\<lparr>ps_keyLocks := (key, l) # ps_keyLocks s\<rparr>))"

definition orgadmin_dial_error :: "'w env \<Rightarrow> snowflakeSettings \<Rightarrow> credentials \<Rightarrow> string \<Rightarrow> rsa_key \<Rightarrow> gerror \<Rightarrow> gerror" where
  "orgadmin_dial_error E sf creds hostname key err =
     Errorf (''credentials for org-admin '' @ c_Username creds @
       '' were read successfully, but failed to connect to '' @ hostname @ '': '' @ err_text err @
       '' (tip: run `DESC USER '' @ c_Username creds @
       ''` in Snowflake and compare RSA_PUBLIC_KEY_FP against '' @ publicKeyFingerprint E key @
       ''; DisableOCSPChecks='' @ show_bool (sf_DisableOCSPChecks sf) @ '')'') [err]"

definition OrgAdminDB ::
  "'w env \<Rightarrow> ('w, ('w, 'z) pool_sys_scheme) pool \<Rightarrow> ('w, 'z) pool_sys_scheme
     \<Rightarrow> db result \<times> ('w, 'z) pool_sys_scheme" where
  "OrgAdminDB E p s =
     (let sf = cfg_Snowflake (pl_cfg p) in
      case NewOrgAdminIdentifier (sf_Org sf) (sf_OrgAdminAccount sf) of
        Inl err \<Rightarrow> (Inl err, s)
      | Inr idt \<Rightarrow>
          (case ps_orgAdminDB s of
             Some db \<Rightarrow> (Inr db, maybeRotateLocked E p db idt s)
           | None \<Rightarrow>
               (case Hostname (sf_OrgAdminAccountLocator sf) (sf_OrgAdminAccountRegion sf)
                       (sf_UsePrivateLink sf) of
                  Inl err \<Rightarrow> (Inl err, s)
                | Inr hostname \<Rightarrow>
                    (case GetCredentials E (pl_keyManager p) idt s of
                       (Inl err, s1) \<Rightarrow> (Inl (wrap ''failed to read org-admin credentials: '' err), s1)
                     | (Inr creds, s1) \<Rightarrow>
                         (case parsePrivateKey E (c_PrivateKey creds) of
                            Inl err \<Rightarrow>
                              (Inl (wrap ''failed to parse private key for org-admin: '' err), s1)
                          | Inr key \<Rightarrow>
                              (case pl_dial p
                                 \<lparr>dc_snowflake = buildSnowflakeConfig (sf_OrgAdminAccountLocator sf)
                                    hostname (c_Username creds) key ''GLOBALORGADMIN''
                                    (sf_DisableOCSPChecks sf),
                                  dc_probeTimeout = sf_ConnectionProbeTimeout sf\<rparr> s1 of
                                 (Inl err, s2) \<Rightarrow>
                                   (Inl (orgadmin_dial_error E sf creds hostname key err), s2)
                               | (Inr db, s2) \<Rightarrow>
                                   let s3 = applyPoolSettings E db (pl_cfg p) s2;
                                       s4 = s3\<lparr>ps_orgAdminDB := Some db\<rparr>
                                   in (Inr db, maybeRotateLocked E p db idt s4)))))))"

definition cachedTenant ::
  "tenantKey \<Rightarrow> string \<Rightarrow> string \<Rightarrow> ('w, 'z) pool_sys_scheme \<Rightarrow> db option" where
  "cachedTenant key locator region s =
     (case map_of (ps_entries s) key of
        None \<Rightarrow> None
      | Some entry \<Rightarrow>
          if te_locator entry \<noteq> locator \<or> te_region entry \<noteq> region then None
          else Some (te_db entry))"

definition tenant_dial_error ::
  "'w env \<Rightarrow> snowflakeSettings \<Rightarrow> string \<Rightarrow> credentials \<Rightarrow> string \<Rightarrow> rsa_key \<Rightarrow> gerror \<Rightarrow> gerror" where
  "tenant_dial_error E sf target creds hostname key err =
     Errorf (''credentials for '' @ target @
       '' were read successfully, but failed to connect to '' @ hostname @ '': '' @ err_text err @
       '' (debugging tip: run `DESC USER '' @ c_Username creds @
       ''` in Snowflake and compare RSA_PUBLIC_KEY_FP against '' @ publicKeyFingerprint E key @
       ''; DisableOCSPChecks='' @ show_bool (sf_DisableOCSPChecks sf) @ '')'') [err]"

text \<open>TenantDB from the dialed connection on: put it in the map and close the one it replaces.\<close>

definition replaceTenant ::
  "'w env \<Rightarrow> tenantKey \<Rightarrow> tenantEntry \<Rightarrow> ('w, 'z) pool_sys_scheme \<Rightarrow> ('w, 'z) pool_sys_scheme" where
  "replaceTenant E key entry s =
     (let s1 = s\<lparr>ps_entries := AList.update key entry (ps_entries s)\<rparr>
      in (case map_of (ps_entries s) key of
            None \<Rightarrow> s1
          | Some stale \<Rightarrow> (case close_db E (te_db stale) s1 of (_, s2) \<Rightarrow> s2)))"

text \<open>TenantDB from the cache miss to the tuned connection.\<close>

definition openTenant ::
  "'w env \<Rightarrow> ('w, ('w, 'z) pool_sys_scheme) pool \<Rightarrow> tenantKey \<Rightarrow> string \<Rightarrow> string \<Rightarrow> ident
     \<Rightarrow> ('w, 'z) pool_sys_scheme \<Rightarrow> db result \<times> ('w, 'z) pool_sys_scheme" where
  "openTenant E p key locator region idt s =
     (let sf = cfg_Snowflake (pl_cfg p);
          target = tk_namespace key @ ''/'' @ tk_accountName key in
      case Hostname locator region (sf_UsePrivateLink sf) of
        Inl err \<Rightarrow> (Inl err, s)
      | Inr hostname \<Rightarrow>
          (case GetCredentials E (pl_keyManager p) idt s of
             (Inl err, s1) \<Rightarrow>
               (Inl (wrap (''failed to read tenant credentials for '' @ target @ '': '') err), s1)
           | (Inr creds, s1) \<Rightarrow>
               (case parsePrivateKey E (c_PrivateKey creds) of
                  Inl err \<Rightarrow>
                    (Inl (wrap (''failed to parse private key for '' @ target @ '': '') err), s1)
                | Inr privKey \<Rightarrow>
                    (case pl_dial p
                       \<lparr>dc_snowflake = buildSnowflakeConfig locator hostname (c_Username creds)
                          privKey ''ACCOUNTADMIN'' (sf_DisableOCSPChecks sf),
                        dc_probeTimeout = sf_ConnectionProbeTimeout sf\<rparr> s1 of
                       (Inl err, s2) \<Rightarrow>
                         (Inl (tenant_dial_error E sf target creds hostname privKey err), s2)
                     | (Inr db, s2) \<Rightarrow> (Inr db, applyPoolSettings E db (pl_cfg p) s2)))))"

text \<open>TenantDB on a cache miss.\<close>

definition dialTenant ::
  "'w env \<Rightarrow> ('w, ('w, 'z) pool_sys_scheme) pool \<Rightarrow> tenantKey \<Rightarrow> string \<Rightarrow> string \<Rightarrow> ident
     \<Rightarrow> ('w, 'z) pool_sys_scheme \<Rightarrow> db result \<times> ('w, 'z) pool_sys_scheme" where
  "dialTenant E p key locator region idt s =
     (case openTenant E p key locator region idt s of
        (Inl err, s1) \<Rightarrow> (Inl err, s1)
      | (Inr db, s1) \<Rightarrow>
          (Inr db, replaceTenant E key \<lparr>te_db = db, te_locator = locator, te_region = region\<rparr> s1))"

definition TenantDB ::
  "'w env \<Rightarrow> ('w, ('w, 'z) pool_sys_scheme) pool \<Rightarrow> string \<Rightarrow> string \<Rightarrow> string \<Rightarrow> string
     \<Rightarrow> ('w, 'z) pool_sys_scheme \<Rightarrow> db result \<times> ('w, 'z) pool_sys_scheme" where
  "TenantDB E p namespace accountName locator region s =
     (let key = \<lparr>tk_namespace = namespace, tk_accountName = accountName\<rparr> in
      case NewTenantIdentifier (sf_Org (cfg_Snowflake (pl_cfg p))) namespace accountName of
        Inl err \<Rightarrow> (Inl err, s)
      | Inr idt \<Rightarrow>
          (case keyLock key s of
             (lock, s1) \<Rightarrow>
               (case cachedTenant key locator region s1 of
                  Some db \<Rightarrow> (Inr db, maybeRotateLocked E p db idt s1)
                | None \<Rightarrow>
                    (case dialTenant E p key locator region idt s1 of
                       (Inl err, s2) \<Rightarrow> (Inl err, s2)
                     | (Inr db, s2) \<Rightarrow> (Inr db, maybeRotateLocked E p db idt s2)))))"

definition EvictTenant ::
  "'w env \<Rightarrow> string \<Rightarrow> string \<Rightarrow> ('w, 'z) pool_sys_scheme \<Rightarrow> ('w, 'z) pool_sys_scheme" where
  "EvictTenant E namespace accountName s =
     (let key = \<lparr>tk_namespace = namespace, tk_accountName = accountName\<rparr> in
      case keyLock key s of
        (lock, s1) \<Rightarrow>
          let s2 = s1\<lparr>ps_entries := AList.delete key (ps_entries s1)\<rparr>
          in (case map_of (ps_entries s1) key of
                None \<Rightarrow> s2
              | Some entry \<Rightarrow> (case close_db E (te_db entry) s2 of (_, s3) \<Rightarrow> s3)))"

fun closeEntries ::
  "'w env \<Rightarrow> (tenantKey \<times> tenantEntry) list \<Rightarrow> ('w, 'z) pool_sys_scheme
     \<Rightarrow> gerror list \<times> ('w, 'z) pool_sys_scheme" where
  "closeEntries E [] s = ([], s)"
| "closeEntries E ((key, entry) # es) s =
     (case close_db E (te_db entry) s of
        (r, s1) \<Rightarrow>
          (case closeEntries E es s1 of
             (errs, s2) \<Rightarrow>
               ((case r of
                   None \<Rightarrow> errs
                 | Some err \<Rightarrow>
                     wrap (''failed to close connection for '' @ tk_namespace key @ ''/'' @
                       tk_accountName key @ '': '') err # errs), s2)))"

definition join_errors :: "gerror list \<Rightarrow> gerror option" where
  "join_errors errs = (if errs = [] then None else Some (JoinError errs))"

definition closeOrgAdmin ::
  "'w env \<Rightarrow> ('w, 'z) pool_sys_scheme \<Rightarrow> gerror list \<times> ('w, 'z) pool_sys_scheme" where
  "closeOrgAdmin E s =
     (case ps_orgAdminDB s of
        None \<Rightarrow> ([], s)
      | Some db \<Rightarrow>
          (case close_db E db s of
             (r, s1) \<Rightarrow>
               ((case r of None \<Rightarrow> []
                 | Some err \<Rightarrow> [wrap ''failed to close org-admin connection: '' err]),
                s1\<lparr>ps_orgAdminDB := None\<rparr>)))"

definition pool_Close ::
  "'w env \<Rightarrow> ('w, 'z) pool_sys_scheme \<Rightarrow> gerror option \<times> ('w, 'z) pool_sys_scheme" where
  "pool_Close E s =
     (case closeOrgAdmin E s of
        (errs1, s1) \<Rightarrow>
          (case closeEntries E (ps_entries s1) s1 of
             (errs2, s2) \<Rightarrow> (join_errors (errs1 @ errs2), s2\<lparr>ps_entries := []\<rparr>)))"

subsection \<open>Frames\<close>

text \<open>The connections opened and closed along a trace.\<close>

fun opens :: "effect \<Rightarrow> db list" where
  "opens (OpenDB d c) = [d]"
| "opens _ = []"

fun closes :: "effect \<Rightarrow> db list" where
  "closes (CloseDB d) = [d]"
| "closes _ = []"

definition opened :: "effect list \<Rightarrow> db list" where
  "opened efs = concat (map opens efs)"

definition closed :: "effect list \<Rightarrow> db list" where
  "closed efs = concat (map closes efs)"

lemma opened_simps [simp]:
  "opened [] = []" "opened (e # es) = opens e @ opened es" "opened (xs @ ys) = opened xs @ opened ys"
  by (simp_all add: opened_def)

lemma closed_simps [simp]:
  "closed [] = []" "closed (e # es) = closes e @ closed es" "closed (xs @ ys) = closed xs @ closed ys"
  by (simp_all add: closed_def)

definition same_pool :: "('w, 'z) pool_sys_scheme \<Rightarrow> ('w, 'z) pool_sys_scheme \<Rightarrow> bool" where
  "same_pool s s' \<longleftrightarrow> km_sys.more s' = km_sys.more s"

text \<open>Steps that open and close nothing and leave the pool's fields alone.\<close>

definition quiet :: "('w, 'z) pool_sys_scheme \<Rightarrow> ('w, 'z) pool_sys_scheme \<Rightarrow> bool" where
  "quiet s s' \<longleftrightarrow> same_pool s s' \<and>
     (\<exists>efs. trace s' = trace s @ efs \<and> opened efs = [] \<and> closed efs = [])"

lemma same_pool_fields:
  "same_pool s s' \<Longrightarrow> ps_orgAdminDB s' = ps_orgAdminDB s \<and> ps_entries s' = ps_entries s \<and>
     ps_keyLocks s' = ps_keyLocks s \<and> pool_sys.more s' = pool_sys.more s"
  by (cases s; cases s') (simp add: same_pool_def)

lemma sys_more_same_pool: "sys.more s' = sys.more s \<Longrightarrow> same_pool s s'"
  by (cases s; cases s') (simp add: same_pool_def)

lemma same_pool_trans: "same_pool s s1 \<Longrightarrow> same_pool s1 s2 \<Longrightarrow> same_pool s s2"
  by (simp add: same_pool_def)

lemma quiet_refl [simp, intro]: "quiet s s"
  by (simp add: quiet_def same_pool_def)

lemma quiet_trans [trans]: "quiet s s1 \<Longrightarrow> quiet s1 s2 \<Longrightarrow> quiet s s2"
  unfolding quiet_def using same_pool_trans by (fastforce intro: exI)

lemma quietI:
  "same_pool s s' \<Longrightarrow> trace s' = trace s @ efs \<Longrightarrow> opened efs = [] \<Longrightarrow> closed efs = [] \<Longrightarrow> quiet s s'"
  by (auto simp: quiet_def)

lemma GetCredentials_quiet:
  fixes s :: "('w, 'z) pool_sys_scheme"
  shows "GetCredentials E km idt s = (r, s') \<Longrightarrow> quiet s s'"
  by (drule GetCredentials_frame) (auto simp: same_pool_def intro: quietI [of _ _ "[]"] quietI [of _ _ "[GetSecret idt]"])

lemma UpdateCredentials_quiet:
  fixes s :: "('w, 'z) pool_sys_scheme"
  shows "UpdateCredentials E km idt c s = (r, s') \<Longrightarrow> quiet s s'"
  by (drule UpdateCredentials_frame)
    (auto simp: same_pool_def intro: quietI [of _ _ "[]"] quietI [of _ _ "[UpdateSecret idt v]" for v])

lemma NewCredentials_quiet:
  fixes s :: "('w, 'z) pool_sys_scheme"
  shows "NewCredentials E u s = (r, s') \<Longrightarrow> quiet s s'"
  by (drule NewCredentials_frame) (auto intro: quietI [of _ _ "[]"] sys_more_same_pool)

lemma call_quiet:
  fixes s :: "('w, 'z) pool_sys_scheme"
  shows "call ef f s = (r, s') \<Longrightarrow> opens ef = [] \<Longrightarrow> closes ef = [] \<Longrightarrow> quiet s s'"
  by (drule call_frame) (auto intro: quietI [of _ _ "[ef]"] sys_more_same_pool)

lemma credentialDue_quiet:
  fixes s :: "('w, 'z) pool_sys_scheme"
  shows "credentialDue E t i s = (r, s') \<Longrightarrow> quiet s s'"
  by (auto simp: credentialDue_def dest!: now_frame split: prod.splits
      intro: quietI [of _ _ "[]"] sys_more_same_pool)

lemma targetSlot_quiet:
  fixes s :: "('w, 'z) pool_sys_scheme"
  shows "targetSlot E d u fp s = (r, s') \<Longrightarrow> quiet s s'"
  by (auto simp: targetSlot_def db_executor_def dest!: call_quiet split: prod.splits sum.splits)

lemma rotateCredential_quiet:
  "rotateCredential E p d idt u key s = (r, s') \<Longrightarrow> quiet s s'"
  by (auto simp: rotateCredential_def db_executor_def
      dest!: targetSlot_quiet NewCredentials_quiet UpdateCredentials_quiet call_quiet
      split: prod.splits sum.splits option.splits intro: quiet_trans)

lemma maybeRotateLocked_quiet: "quiet s (maybeRotateLocked E p d idt s)"
  by (auto simp: maybeRotateLocked_def
      dest!: GetCredentials_quiet credentialDue_quiet rotateCredential_quiet
      split: prod.splits sum.splits intro: quiet_trans)

text \<open>A dial leaves one connection open, or none.\<close>

lemma open_db_frame:
  "open_db E c s = (d, s') \<Longrightarrow> trace s' = trace s @ [OpenDB d c] \<and> sys.more s' = sys.more s"
  by (auto simp: open_db_def split: prod.splits)

lemma close_db_frame:
  "close_db E d s = (r, s') \<Longrightarrow> trace s' = trace s @ [CloseDB d] \<and> sys.more s' = sys.more s"
  by (auto simp: close_db_def dest: call_frame)

lemma defaultDial_frame:
  assumes "defaultDial E dc s = (r, s')"
  shows "sys.more s' = sys.more s \<and> (\<exists>d efs. trace s' = trace s @ efs \<and> opened efs = [d] \<and>
    (case r of Inl e \<Rightarrow> closed efs = [d] | Inr d' \<Rightarrow> d' = d \<and> closed efs = []))"
  using assms
  by (fastforce simp: defaultDial_def dest!: open_db_frame call_frame close_db_frame
      split: prod.splits option.splits)

lemma applyPoolSettings_quiet:
  fixes s :: "('w, 'z) pool_sys_scheme"
  shows "quiet s (applyPoolSettings E d cfg s)"
  by (rule quietI [of _ _ "[]"]) (auto simp: applyPoolSettings_def Let_def intro: sys_more_same_pool)

lemma keyLock_frame:
  "keyLock key s = (l, s') \<Longrightarrow> trace s' = trace s \<and> world s' = world s \<and>
     km_entries s' = km_entries s \<and> ps_orgAdminDB s' = ps_orgAdminDB s \<and> ps_entries s' = ps_entries s"
  by (auto simp: keyLock_def Let_def split: option.splits)

subsection \<open>No connection is lost\<close>

definition cached_dbs :: "('w, 'z) pool_sys_scheme \<Rightarrow> db list" where
  "cached_dbs s =
     (case ps_orgAdminDB s of None \<Rightarrow> [] | Some d \<Rightarrow> [d]) @ map (\<lambda>kv. te_db (snd kv)) (ps_entries s)"

text \<open>The pool's invariant: the map has each key once, and every connection opened so far has
  been closed, is cached, or is one of the connections \<open>H\<close> in the hands of calls that are under
  way, each exactly once.\<close>

definition pool_inv :: "db multiset \<Rightarrow> ('w, 'z) pool_sys_scheme \<Rightarrow> bool" where
  "pool_inv H s \<longleftrightarrow>
     distinct (map fst (ps_entries s)) \<and>
     mset (opened (trace s)) = mset (closed (trace s)) + mset (cached_dbs s) + H"

lemma pool_inv_quiet: "quiet s s' \<Longrightarrow> pool_inv H s \<Longrightarrow> pool_inv H s'"
  by (auto simp: quiet_def pool_inv_def cached_dbs_def dest!: same_pool_fields)

lemma mset_update:
  assumes "distinct (map fst es)"
  shows "mset (map (\<lambda>kv. te_db (snd kv)) (AList.update k e es)) +
      (case map_of es k of None \<Rightarrow> {#} | Some stale \<Rightarrow> {#te_db stale#}) =
    mset (map (\<lambda>kv. te_db (snd kv)) es) + {#te_db e#}"
  using assms
proof (induction es)
  case (Cons kv es)
  obtain k' e' where kv: "kv = (k', e')" by (cases kv)
  show ?case
  proof (cases "k' = k")
    case False
    with Cons kv show ?thesis by (simp add: union_assoc)
  qed (use kv in simp)
qed simp

lemma mset_delete:
  assumes "distinct (map fst es)"
  shows "mset (map (\<lambda>kv. te_db (snd kv)) (AList.delete k es)) +
      (case map_of es k of None \<Rightarrow> {#} | Some stale \<Rightarrow> {#te_db stale#}) =
    mset (map (\<lambda>kv. te_db (snd kv)) es)"
  using assms
proof (induction es)
  case (Cons kv es)
  obtain k' e' where kv: "kv = (k', e')" by (cases kv)
  show ?case
  proof (cases "k' = k")
    case True
    with Cons.prems kv have "AList.delete k es = es"
      unfolding AList.delete_eq by (intro filter_True) (auto simp: image_iff)
    with True kv show ?thesis by simp
  qed (use Cons kv in simp)
qed simp


text \<open>What the operations do to the cache, in the two forms a call can take.\<close>

definition entry_for :: "tenantKey \<Rightarrow> ('w, 'z) pool_sys_scheme \<Rightarrow> tenantEntry option" where
  "entry_for key s = map_of (ps_entries s) key"

lemma quiet_inv_trans:
  "quiet s s1 \<Longrightarrow> (pool_inv H s1 \<Longrightarrow> pool_inv H s2) \<Longrightarrow> pool_inv H s \<Longrightarrow> pool_inv H s2"
  using pool_inv_quiet by blast

lemma keyLock_inv: "keyLock key s = (l, s') \<Longrightarrow> pool_inv H s \<Longrightarrow> pool_inv H s'"
  by (drule keyLock_frame) (simp add: pool_inv_def cached_dbs_def)

lemma dial_trace:
  fixes s :: "('w, 'z) pool_sys_scheme"
  assumes "defaultDial E dc s = (r, s')"
  shows "same_pool s s'"
    and "r = Inl e \<Longrightarrow> mset (opened (trace s')) + mset (closed (trace s)) =
      mset (opened (trace s)) + mset (closed (trace s'))"
    and "r = Inr d \<Longrightarrow> mset (opened (trace s')) = mset (opened (trace s)) + {#d#} \<and>
      closed (trace s') = closed (trace s)"
  using defaultDial_frame [OF assms] by (auto intro: sys_more_same_pool)

lemma dial_failed_inv:
  fixes s :: "('w, 'z) pool_sys_scheme"
  assumes "defaultDial E dc s = (Inl e, s')" and "pool_inv H s"
  shows "pool_inv H s'"
proof -
  from defaultDial_frame [OF assms(1)] obtain d efs
    where t: "trace s' = trace s @ efs" "opened efs = [d]" "closed efs = [d]"
      and m: "sys.more s' = sys.more s" by auto
  from same_pool_fields [OF sys_more_same_pool [OF m]] assms(2) t show ?thesis
    by (simp add: pool_inv_def cached_dbs_def)
qed

text \<open>Between a successful dial and the map update, one connection is in the caller's hands.\<close>

lemma dial_ok_inv:
  fixes s :: "('w, 'z) pool_sys_scheme"
  assumes "defaultDial E dc s = (Inr d, s')" and "pool_inv H s"
  shows "pool_inv (add_mset d H) s'"
proof -
  from defaultDial_frame [OF assms(1)] obtain efs
    where t: "trace s' = trace s @ efs" "opened efs = [d]" "closed efs = []"
      and m: "sys.more s' = sys.more s" by auto
  from same_pool_fields [OF sys_more_same_pool [OF m]] assms(2) t show ?thesis
    by (simp add: pool_inv_def cached_dbs_def)
qed

lemma replaceTenant_frame:
  "ps_entries (replaceTenant E key e s) = AList.update key e (ps_entries s) \<and>
   ps_orgAdminDB (replaceTenant E key e s) = ps_orgAdminDB s \<and>
   trace (replaceTenant E key e s) = trace s @
     (case entry_for key s of None \<Rightarrow> [] | Some stale \<Rightarrow> [CloseDB (te_db stale)])"
  by (auto simp: replaceTenant_def entry_for_def Let_def dest!: close_db_frame
      dest: same_pool_fields [OF sys_more_same_pool] split: option.splits prod.splits)

lemma replaceTenant_inv:
  assumes "pool_inv (add_mset (te_db e) H) s"
  shows "pool_inv H (replaceTenant E key e s)"
proof -
  note f = replaceTenant_frame [of E key e s]
  from assms have d: "distinct (map fst (ps_entries s))" by (simp add: pool_inv_def)
  note u = mset_update [OF d, of key e]
  show ?thesis
  proof (cases "map_of (ps_entries s) key")
    case None
    with u f assms show ?thesis
      by (simp add: pool_inv_def cached_dbs_def entry_for_def distinct_update)
  next
    case (Some stale)
    then have "entry_for key s = Some stale" by (simp add: entry_for_def)
    with Some u f assms show ?thesis
      by (simp add: pool_inv_def cached_dbs_def distinct_update)
  qed
qed

lemma replaceTenant_dialed:
  "pool_inv (add_mset d H) s \<Longrightarrow>
     pool_inv H (replaceTenant E key \<lparr>te_db = d, te_locator = l, te_region = r\<rparr> s)"
  by (rule replaceTenant_inv) simp

lemma openTenant_inv:
  assumes "pl_dial p = defaultDial E" and "openTenant E p key locator region idt s = (r, s')"
    and "pool_inv H s"
  shows "case r of Inl e \<Rightarrow> pool_inv H s' | Inr d \<Rightarrow> pool_inv (add_mset d H) s'"
  using assms(2,3)
  by (auto simp: openTenant_def Let_def assms(1) split: sum.splits prod.splits
      dest!: GetCredentials_quiet intro: pool_inv_quiet dial_failed_inv
        pool_inv_quiet [OF applyPoolSettings_quiet] dial_ok_inv)

lemma dialTenant_inv:
  assumes "pl_dial p = defaultDial E" and "dialTenant E p key locator region idt s = (r, s')"
    and "pool_inv H s"
  shows "pool_inv H s'"
  using assms(2)
  by (auto simp: dialTenant_def split: sum.splits prod.splits
      dest!: openTenant_inv [OF assms(1) _ assms(3)] intro: replaceTenant_dialed)

lemma TenantDB_inv:
  assumes "pl_dial p = defaultDial E" and "TenantDB E p ns acct locator region s = (r, s')"
    and "pool_inv H s"
  shows "pool_inv H s'"
  using assms(2,3)
  by (auto simp: TenantDB_def Let_def split: sum.splits prod.splits option.splits
      dest!: keyLock_inv dest: dialTenant_inv [OF assms(1)]
      intro: pool_inv_quiet [OF maybeRotateLocked_quiet])

lemma store_orgadmin_inv:
  assumes "pool_inv (add_mset d H) s" and "ps_orgAdminDB s = None"
  shows "pool_inv H (s\<lparr>ps_orgAdminDB := Some d\<rparr>)"
  using assms by (simp add: pool_inv_def cached_dbs_def)

lemma OrgAdminDB_inv:
  assumes "pl_dial p = defaultDial E" and "OrgAdminDB E p s = (r, s')" and "pool_inv H s"
  shows "pool_inv H s'"
proof (cases "ps_orgAdminDB s")
  case (Some d)
  with assms(2,3) show ?thesis
    by (auto simp: OrgAdminDB_def Let_def split: sum.splits intro: pool_inv_quiet [OF maybeRotateLocked_quiet])
next
  case None
  have step: "pool_inv H (maybeRotateLocked E p d idt (applyPoolSettings E d cfg s2\<lparr>ps_orgAdminDB := Some d\<rparr>))"
    if "quiet s s1" "defaultDial E dc s1 = (Inr d, s2)" for idt d cfg dc s1 s2
  proof -
    from that(1) None have "ps_orgAdminDB s1 = None"
      by (auto simp: quiet_def dest: same_pool_fields)
    with dial_trace(1) [OF that(2)] have "ps_orgAdminDB s2 = None" by (auto dest: same_pool_fields)
    then have n: "ps_orgAdminDB (applyPoolSettings E d cfg s2) = None"
      by (simp add: applyPoolSettings_def Let_def)
    have "pool_inv (add_mset d H) s2" using dial_ok_inv [OF that(2)] pool_inv_quiet [OF that(1) assms(3)] .
    then have "pool_inv (add_mset d H) (applyPoolSettings E d cfg s2)"
      by (rule pool_inv_quiet [OF applyPoolSettings_quiet])
    from store_orgadmin_inv [OF this n] show ?thesis by (rule pool_inv_quiet [OF maybeRotateLocked_quiet])
  qed
  from assms(2,3) None show ?thesis
    by (auto simp: OrgAdminDB_def Let_def assms(1) split: sum.splits prod.splits
        dest!: GetCredentials_quiet intro: pool_inv_quiet dial_failed_inv step)
qed

lemma EvictTenant_frame:
  "ps_entries (EvictTenant E ns acct s) =
     AList.delete \<lparr>tk_namespace = ns, tk_accountName = acct\<rparr> (ps_entries s) \<and>
   ps_orgAdminDB (EvictTenant E ns acct s) = ps_orgAdminDB s \<and>
   trace (EvictTenant E ns acct s) = trace s @
     (case entry_for \<lparr>tk_namespace = ns, tk_accountName = acct\<rparr> s of
        None \<Rightarrow> [] | Some e \<Rightarrow> [CloseDB (te_db e)])"
  by (auto simp: EvictTenant_def entry_for_def Let_def dest!: close_db_frame keyLock_frame
      dest: same_pool_fields [OF sys_more_same_pool] split: option.splits prod.splits)

lemma EvictTenant_inv:
  assumes "pool_inv H s"
  shows "pool_inv H (EvictTenant E ns acct s)"
proof -
  let ?k = "\<lparr>tk_namespace = ns, tk_accountName = acct\<rparr>"
  note f = EvictTenant_frame [of E ns acct s]
  from assms have d: "distinct (map fst (ps_entries s))" by (simp add: pool_inv_def)
  note u = mset_delete [OF d, of ?k]
  show ?thesis
  proof (cases "map_of (ps_entries s) ?k")
    case None
    with u f assms show ?thesis
      by (simp add: pool_inv_def cached_dbs_def entry_for_def distinct_delete)
  next
    case (Some stale)
    then have "entry_for ?k s = Some stale" by (simp add: entry_for_def)
    with Some u f assms show ?thesis
      by (simp add: pool_inv_def cached_dbs_def distinct_delete)
  qed
qed

lemma closeEntries_frame:
  "closeEntries E es s = (errs, s') \<Longrightarrow>
     trace s' = trace s @ map (\<lambda>kv. CloseDB (te_db (snd kv))) es \<and> same_pool s s'"
proof (induction es arbitrary: s errs s')
  case (Cons kv es)
  obtain key e where kv: "kv = (key, e)" by (cases kv)
  obtain r s1 where c: "close_db E (te_db e) s = (r, s1)" by fastforce
  obtain errs2 s2 where es: "closeEntries E es s1 = (errs2, s2)" by fastforce
  from Cons.prems kv c es have "s' = s2" by simp
  with Cons.IH [OF es] close_db_frame [OF c] kv show ?case
    by (auto intro: same_pool_trans sys_more_same_pool)
qed (simp add: same_pool_def)

lemma closed_map [simp]: "closed (map (\<lambda>kv. CloseDB (f kv)) es) = map f es"
  by (induction es) auto

lemma opened_map [simp]: "opened (map (\<lambda>kv. CloseDB (f kv)) es) = []"
  by (induction es) auto

lemma pool_Close_frame:
  assumes "pool_Close E s = (r, s')"
  shows "ps_orgAdminDB s' = None \<and> ps_entries s' = [] \<and>
    trace s' = trace s @ map CloseDB (cached_dbs s)"
proof -
  obtain errs1 s1 where o: "closeOrgAdmin E s = (errs1, s1)" by fastforce
  obtain errs2 s2 where e: "closeEntries E (ps_entries s1) s1 = (errs2, s2)" by fastforce
  from o have f: "ps_orgAdminDB s1 = None \<and> ps_entries s1 = ps_entries s \<and>
      trace s1 = trace s @ (case ps_orgAdminDB s of None \<Rightarrow> [] | Some d \<Rightarrow> [CloseDB d])"
    by (auto simp: closeOrgAdmin_def dest!: close_db_frame dest: same_pool_fields [OF sys_more_same_pool]
        split: option.splits prod.splits)
  from closeEntries_frame [OF e] have "trace s2 = trace s1 @ map (\<lambda>kv. CloseDB (te_db (snd kv))) (ps_entries s1)"
      "same_pool s1 s2" by auto
  with f o e assms show ?thesis
    by (auto simp: pool_Close_def cached_dbs_def comp_def dest!: same_pool_fields split: option.splits)
qed


subsection \<open>The pool as a state machine\<close>

text \<open>The calls of the pool in any order, with any step of the rest of the program that
  neither opens nor closes a connection nor touches the pool between them.\<close>

inductive pool_step ::
  "'w env \<Rightarrow> ('w, ('w, 'z) pool_sys_scheme) pool \<Rightarrow> ('w, 'z) pool_sys_scheme
     \<Rightarrow> ('w, 'z) pool_sys_scheme \<Rightarrow> bool" for E p where
  step_org: "OrgAdminDB E p s = (r, s') \<Longrightarrow> pool_step E p s s'"
| step_tenant: "TenantDB E p ns acct locator region s = (r, s') \<Longrightarrow> pool_step E p s s'"
| step_evict: "pool_step E p s (EvictTenant E ns acct s)"
| step_close: "pool_Close E s = (r, s') \<Longrightarrow> pool_step E p s s'"
| step_other: "quiet s s' \<Longrightarrow> pool_step E p s s'"

definition pool_initial :: "('w, 'z) pool_sys_scheme \<Rightarrow> bool" where
  "pool_initial s \<longleftrightarrow> trace s = [] \<and> ps_orgAdminDB s = None \<and> ps_entries s = [] \<and> ps_keyLocks s = []"

inductive_cases pool_stepE: "pool_step E p s s'"

inductive pool_reachable ::
  "'w env \<Rightarrow> ('w, ('w, 'z) pool_sys_scheme) pool \<Rightarrow> ('w, 'z) pool_sys_scheme \<Rightarrow> bool" for E p where
  reach_init: "pool_initial s \<Longrightarrow> pool_reachable E p s"
| reach_step: "pool_reachable E p s \<Longrightarrow> pool_step E p s s' \<Longrightarrow> pool_reachable E p s'"

lemma lifecycle_CloseDB [simp]: "opened (map CloseDB ds) = []" "closed (map CloseDB ds) = ds"
  using opened_map [of "\<lambda>d. d" ds] closed_map [of "\<lambda>d. d" ds] by simp_all

lemma pool_Close_all:
  assumes "pool_Close E s = (r, s')" and "pool_inv H s"
  shows "cached_dbs s' = [] \<and> ps_entries s' = [] \<and>
    mset (opened (trace s')) = mset (closed (trace s')) + H"
  using pool_Close_frame [OF assms(1)] assms(2)
  by (simp add: pool_inv_def) (simp add: cached_dbs_def)

lemma pool_Close_inv: "pool_Close E s = (r, s') \<Longrightarrow> pool_inv H s \<Longrightarrow> pool_inv H s'"
  by (drule (1) pool_Close_all) (simp add: pool_inv_def)

lemma pool_step_inv:
  "pool_step E p s s' \<Longrightarrow> pl_dial p = defaultDial E \<Longrightarrow> pool_inv H s \<Longrightarrow> pool_inv H s'"
  by (erule pool_stepE)
    (auto intro: OrgAdminDB_inv TenantDB_inv EvictTenant_inv pool_Close_inv pool_inv_quiet)

lemma pool_reachable_inv: "pool_reachable E p s \<Longrightarrow> pl_dial p = defaultDial E \<Longrightarrow> pool_inv {#} s"
proof (induction rule: pool_reachable.induct)
  case (reach_init s)
  then show ?case by (simp add: pool_initial_def pool_inv_def cached_dbs_def)
qed (blast intro: pool_step_inv)

subsection \<open>What a call does to its own target and to the others\<close>

definition fresh_effects :: "('w, 'z) pool_sys_scheme \<Rightarrow> ('w, 'z) pool_sys_scheme \<Rightarrow> db list \<Rightarrow> db list \<Rightarrow> bool" where
  "fresh_effects s s' os cs \<longleftrightarrow> (\<exists>efs. trace s' = trace s @ efs \<and> opened efs = os \<and> closed efs = cs)"

lemma fresh_effects_quiet: "quiet s s' \<Longrightarrow> fresh_effects s s' [] []"
  by (auto simp: quiet_def fresh_effects_def)

lemma fresh_effects_trans:
  "fresh_effects s s1 os cs \<Longrightarrow> fresh_effects s1 s2 os' cs' \<Longrightarrow> fresh_effects s s2 (os @ os') (cs @ cs')"
  unfolding fresh_effects_def by (elim exE conjE) (intro exI conjI, auto)

lemma quiet_entries: "quiet s s' \<Longrightarrow> ps_entries s' = ps_entries s \<and> ps_orgAdminDB s' = ps_orgAdminDB s"
  by (auto simp: quiet_def dest: same_pool_fields)

lemma dialTenant_Inl:
  assumes "pl_dial p = defaultDial E" and "dialTenant E p key locator region idt s = (Inl e, s')"
  shows "ps_entries s' = ps_entries s \<and> ps_orgAdminDB s' = ps_orgAdminDB s \<and>
    (fresh_effects s s' [] [] \<or> (\<exists>d. fresh_effects s s' [d] [d]))"
proof -
  have fin: "ps_entries s2 = ps_entries s \<and> ps_orgAdminDB s2 = ps_orgAdminDB s \<and>
      (fresh_effects s s2 [] [] \<or> (\<exists>d. fresh_effects s s2 [d] [d]))"
    if q: "quiet s s1" and d: "defaultDial E dc s1 = (Inl err, s2)" for dc err s1 s2
  proof -
    from defaultDial_frame [OF d] have m: "sys.more s2 = sys.more s1"
      and f: "\<exists>d. fresh_effects s1 s2 [d] [d]"
      by (auto simp: fresh_effects_def)
    from f fresh_effects_trans [OF fresh_effects_quiet [OF q]]
    have "\<exists>d. fresh_effects s s2 [d] [d]" by fastforce
    with quiet_entries [OF q] same_pool_fields [OF sys_more_same_pool [OF m]] show ?thesis by simp
  qed
  from assms(2) show ?thesis
    by (auto simp: dialTenant_def openTenant_def Let_def assms(1) split: sum.splits prod.splits
        dest!: GetCredentials_quiet dest: quiet_entries fresh_effects_quiet fin)
      (auto simp: fresh_effects_def)
qed

lemma dialTenant_Inr:
  assumes "pl_dial p = defaultDial E" and "dialTenant E p key locator region idt s = (Inr d, s')"
  shows "ps_entries s' = AList.update key \<lparr>te_db = d, te_locator = locator, te_region = region\<rparr>
      (ps_entries s) \<and> ps_orgAdminDB s' = ps_orgAdminDB s \<and>
    fresh_effects s s' [d] (case entry_for key s of None \<Rightarrow> [] | Some stale \<Rightarrow> [te_db stale])"
proof -
  from assms(2) obtain s1 dc s2 r0 where g: "GetCredentials E (pl_keyManager p) idt s = (r0, s1)"
      and d: "defaultDial E dc s1 = (Inr d, s2)"
      and s': "s' = replaceTenant E key \<lparr>te_db = d, te_locator = locator, te_region = region\<rparr>
        (applyPoolSettings E d (pl_cfg p) s2)"
    by (auto simp: dialTenant_def openTenant_def Let_def assms(1) split: sum.splits prod.splits)
  let ?s3 = "applyPoolSettings E d (pl_cfg p) s2"
  note q = GetCredentials_quiet [OF g]
  from defaultDial_frame [OF d] have m: "sys.more s2 = sys.more s1" and f: "fresh_effects s1 s2 [d] []"
    by (auto simp: fresh_effects_def)
  have q3: "quiet s2 ?s3" by (rule applyPoolSettings_quiet)
  have e: "ps_entries ?s3 = ps_entries s \<and> ps_orgAdminDB ?s3 = ps_orgAdminDB s"
    using quiet_entries [OF q] quiet_entries [OF q3] same_pool_fields [OF sys_more_same_pool [OF m]]
    by simp
  have "fresh_effects ?s3 s' [] (case entry_for key s of None \<Rightarrow> [] | Some stale \<Rightarrow> [te_db stale])"
    using replaceTenant_frame [of E key "\<lparr>te_db = d, te_locator = locator, te_region = region\<rparr>" ?s3] e
    unfolding s' fresh_effects_def entry_for_def by (auto split: option.splits)
  with fresh_effects_trans [OF fresh_effects_quiet [OF q] fresh_effects_trans [OF f
      fresh_effects_trans [OF fresh_effects_quiet [OF q3]]]]
  have "fresh_effects s s' [d] (case entry_for key s of None \<Rightarrow> [] | Some stale \<Rightarrow> [te_db stale])"
    by fastforce
  with e replaceTenant_frame [of E key "\<lparr>te_db = d, te_locator = locator, te_region = region\<rparr>" ?s3]
  show ?thesis unfolding s' by simp
qed

lemma keyLock_quietly:
  "keyLock key s = (l, s1) \<Longrightarrow> ps_entries s1 = ps_entries s \<and> ps_orgAdminDB s1 = ps_orgAdminDB s \<and>
     fresh_effects s s1 [] [] \<and> cachedTenant k locator region s1 = cachedTenant k locator region s"
  by (drule keyLock_frame) (simp add: fresh_effects_def cachedTenant_def)

lemma keyLock_distinct:
  assumes "distinct (map snd (ps_keyLocks s))"
    and "\<And>k l. (k, l) \<in> set (ps_keyLocks s) \<Longrightarrow> l < length (ps_keyLocks s)"
    and "keyLock key s = (l, s')"
  shows "map_of (ps_keyLocks s') key = Some l \<and> distinct (map snd (ps_keyLocks s')) \<and>
    (\<forall>k m. (k, m) \<in> set (ps_keyLocks s') \<longrightarrow> m < length (ps_keyLocks s'))"
  using assms by (fastforce simp: keyLock_def Let_def split: option.splits)


end
