(* ===== verification/Logger.thy ===== *)
theory Logger
  imports World
begin

text \<open>
  \<open>internal/logger/logger.go\<close>.  The sink, Crossplane's \<open>logging.Logger\<close>, is the trace: a
  line with its key/value fields.  \<open>Handle\<close> is the one place where an error becomes what a
  tenant reads, so its lemmas say what is passed on and what is kept back.
\<close>

datatype operation = OpObserve | OpCreate | OpUpdate | OpDelete

definition operation_text :: "operation \<Rightarrow> string" where
  "operation_text op =
     (case op of OpObserve \<Rightarrow> ''observe'' | OpCreate \<Rightarrow> ''create''
      | OpUpdate \<Rightarrow> ''update'' | OpDelete \<Rightarrow> ''delete'')"

record logger =
  lg_namespace :: string
  lg_kind :: string
  lg_name :: string
  lg_op :: operation

definition logger_New :: "string \<Rightarrow> string \<Rightarrow> string \<Rightarrow> operation \<Rightarrow> logger" where
  "logger_New namespace kind name op =
     \<lparr>lg_namespace = namespace, lg_kind = kind, lg_name = name, lg_op = op\<rparr>"

definition contextFields :: "logger \<Rightarrow> (string \<times> string) list" where
  "contextFields l =
     [(''namespace'', lg_namespace l), (''kind'', lg_kind l), (''name'', lg_name l),
      (''operation'', operation_text (lg_op l))]"

definition logger_Info :: "logger \<Rightarrow> string \<Rightarrow> ('w, 'z) sys_scheme \<Rightarrow> ('w, 'z) sys_scheme" where
  "logger_Info l msg s = emit (LogInfo msg (contextFields l)) s"

definition logger_Debug :: "logger \<Rightarrow> string \<Rightarrow> ('w, 'z) sys_scheme \<Rightarrow> ('w, 'z) sys_scheme" where
  "logger_Debug l msg s = emit (LogDebug msg (contextFields l)) s"

definition generateIncidentID :: "'w env \<Rightarrow> ('w, 'z) sys_scheme \<Rightarrow> string \<times> ('w, 'z) sys_scheme" where
  "generateIncidentID E s = (case local_call (env_uuid E) s of (u, s1) \<Rightarrow> (take 8 u, s1))"

definition internal_error :: "string \<Rightarrow> gerror" where
  "internal_error incidentID = plain_error (''An internal error occurred ('' @ incidentID @ '')'')"

definition incident_log :: "string \<Rightarrow> gerror \<Rightarrow> string" where
  "incident_log incidentID err =
     ''system error (incidentID='' @ incidentID @ ''): '' @ err_text err"

definition Handle ::
  "'w env \<Rightarrow> logger \<Rightarrow> gerror option \<Rightarrow> ('w, 'z) sys_scheme \<Rightarrow> gerror option \<times> ('w, 'z) sys_scheme" where
  "Handle E l err s =
     (case err of
        None \<Rightarrow> (None, s)
      | Some e \<Rightarrow>
          if IsUserError e then
            (Some (plain_error (err_text e)), emit (LogDebug (err_text e) (contextFields l)) s)
          else
            (case generateIncidentID E s of
               (incidentID, s1) \<Rightarrow>
                 (Some (internal_error incidentID),
                  emit (LogInfo (incident_log incidentID e)
                    (contextFields l @ [(''incidentID'', incidentID)])) s1)))"

fun is_log :: "effect \<Rightarrow> bool" where
  "is_log (LogDebug m f) = True"
| "is_log (LogInfo m f) = True"
| "is_log (LogPrintf m) = True"
| "is_log _ = False"

lemma Handle_None [simp]: "Handle E l None s = (None, s)"
  by (simp add: Handle_def)

lemma Handle_user:
  "IsUserError e \<Longrightarrow> Handle E l (Some e) s =
     (Some (plain_error (err_text e)), emit (LogDebug (err_text e) (contextFields l)) s)"
  by (simp add: Handle_def)

lemma Handle_system:
  assumes "\<not> IsUserError e" and "env_uuid E (world s) = (u, w)"
  shows "Handle E l (Some e) s =
    (Some (internal_error (take 8 u)),
     emit (LogInfo (incident_log (take 8 u) e) (contextFields l @ [(''incidentID'', take 8 u)]))
       (s\<lparr>world := w\<rparr>))"
  using assms by (simp add: Handle_def generateIncidentID_def local_call_def)

lemma Handle_frame:
  assumes "Handle E l err s = (r, s')"
  shows "sys.more s' = sys.more s \<and> (r = None \<longleftrightarrow> err = None) \<and>
    (\<exists>efs. trace s' = trace s @ efs \<and> list_all is_log efs)"
proof (cases err)
  case None
  with assms show ?thesis by auto
next
  case (Some e)
  show ?thesis
  proof (cases "IsUserError e")
    case True
    with assms Some show ?thesis
      by (intro conjI exI [of _ "[LogDebug (err_text e) (contextFields l)]"]) (auto simp: Handle_user)
  next
    case False
    obtain u w where u: "env_uuid E (world s) = (u, w)" by fastforce
    with assms Some False show ?thesis by (auto simp: Handle_system)
  qed
qed

text \<open>What is passed on is always a leaf that is no user error, so nobody downstream can
  classify it again or reach the original through it.\<close>

lemma Handle_opaque:
  assumes "Handle E l err s = (Some r, s')"
  shows "err_chain r = [r] \<and> \<not> IsUserError r"
  using assms
  by (auto simp: Handle_def plain_error_def internal_error_def generateIncidentID_def
      split: option.splits if_splits prod.splits)

subsection \<open>Properties\<close>

text \<open>C36: What Handle returns for a system error depends on nothing of that error: two system
  errors in the same world give the same opaque message, while the log line that keeps the
  original text carries the same incident id as the message.\<close>

theorem Handle_hides_system_errors:
  assumes "\<not> IsUserError e" and "\<not> IsUserError e'"
  shows "fst (Handle E l (Some e) s) = fst (Handle E l (Some e') s) \<and>
    (\<exists>incidentID. fst (Handle E l (Some e) s) = Some (internal_error incidentID) \<and>
       length incidentID \<le> 8 \<and>
       trace (snd (Handle E l (Some e) s)) =
         trace s @ [LogInfo (incident_log incidentID e) (contextFields l @ [(''incidentID'', incidentID)])])"
proof -
  obtain u w where u: "env_uuid E (world s) = (u, w)" by fastforce
  from Handle_system [OF assms(1) u] Handle_system [OF assms(2) u] show ?thesis by simp
qed

end
