(* ===== verification/Api.thy ===== *)
theory Api
  imports Logger
begin

text \<open>
  The API types of \<open>apis/base/v1alpha1\<close>, and what the controllers use of crossplane-runtime:
  conditions, their status and events.  The functions on conditions are crossplane-runtime's,
  so they are the parameter record \<open>xpv1\<close> with their documented behaviour as \<open>xpv1_ok\<close>; the
  structs are plain data.
\<close>

subsection \<open>Conditions and events\<close>

record condition =
  cd_Type :: string
  cd_Status :: string
  cd_Reason :: string
  cd_Message :: string

record event =
  ev_Type :: string
  ev_Reason :: string
  ev_Message :: string

record xpv1 =
  xp_Available :: condition
  xp_Unavailable :: condition
  xp_WithMessage :: "condition \<Rightarrow> string \<Rightarrow> condition"
  xp_GetCondition :: "condition list \<Rightarrow> string \<Rightarrow> condition"
  xp_SetConditions :: "condition list \<Rightarrow> condition list \<Rightarrow> condition list"
  xp_Warning :: "string \<Rightarrow> gerror \<Rightarrow> event"

definition typeReady :: string where "typeReady = ''Ready''"
definition conditionTrue :: string where "conditionTrue = ''True''"

definition xpv1_ok :: "xpv1 \<Rightarrow> bool" where
  "xpv1_ok X \<longleftrightarrow>
     cd_Type (xp_Available X) = typeReady \<and> cd_Status (xp_Available X) = conditionTrue \<and>
     cd_Type (xp_Unavailable X) = typeReady \<and> cd_Status (xp_Unavailable X) \<noteq> conditionTrue \<and>
     (\<forall>c m. cd_Type (xp_WithMessage X c m) = cd_Type c \<and>
        cd_Status (xp_WithMessage X c m) = cd_Status c \<and> cd_Message (xp_WithMessage X c m) = m) \<and>
     (\<forall>cs t. cd_Type (xp_GetCondition X cs t) = t) \<and>
     (\<forall>cs. xp_SetConditions X cs [] = cs) \<and>
     (\<forall>cs c t. xp_GetCondition X (xp_SetConditions X cs [c]) t =
        (if cd_Type c = t then c else xp_GetCondition X cs t))"

text \<open>One implementation with that behaviour: later conditions replace earlier ones of the
  same type, and an absent condition reads as Unknown.\<close>

definition set_condition :: "condition list \<Rightarrow> condition \<Rightarrow> condition list" where
  "set_condition cs c = c # filter (\<lambda>d. cd_Type d \<noteq> cd_Type c) cs"

definition simple_xpv1 :: xpv1 where
  "simple_xpv1 =
     \<lparr>xp_Available = \<lparr>cd_Type = typeReady, cd_Status = conditionTrue, cd_Reason = ''Available'', cd_Message = []\<rparr>,
      xp_Unavailable = \<lparr>cd_Type = typeReady, cd_Status = ''False'', cd_Reason = ''Unavailable'', cd_Message = []\<rparr>,
      xp_WithMessage = (\<lambda>c m. c\<lparr>cd_Message := m\<rparr>),
      xp_GetCondition = (\<lambda>cs t. case List.find (\<lambda>c. cd_Type c = t) cs of
         Some c \<Rightarrow> c
       | None \<Rightarrow> \<lparr>cd_Type = t, cd_Status = ''Unknown'', cd_Reason = [], cd_Message = []\<rparr>),
      xp_SetConditions = foldl set_condition,
      xp_Warning = (\<lambda>r e. \<lparr>ev_Type = ''Warning'', ev_Reason = r, ev_Message = err_text e\<rparr>)\<rparr>"

lemma find_filter_other: "t \<noteq> u \<Longrightarrow>
    List.find (\<lambda>c. cd_Type c = t) (filter (\<lambda>d. cd_Type d \<noteq> u) cs) = List.find (\<lambda>c. cd_Type c = t) cs"
  by (induction cs) auto

lemma simple_xpv1_ok: "xpv1_ok simple_xpv1"
proof -
  have "cd_Type (case List.find (\<lambda>c. cd_Type c = t) cs of Some c \<Rightarrow> c
       | None \<Rightarrow> \<lparr>cd_Type = t, cd_Status = ''Unknown'', cd_Reason = [], cd_Message = []\<rparr>) = t" for t cs
    by (auto split: option.splits dest: find_Some_set)
  then show ?thesis
    by (auto simp: xpv1_ok_def simple_xpv1_def conditionTrue_def set_condition_def find_filter_other)
qed

subsection \<open>SnowflakeAccount\<close>

record objectMeta =
  om_Name :: string
  om_Namespace :: string
  om_Generation :: int
  om_CreationTimestamp :: time
  om_DeletionTimestamp :: "time option"

record identityIntegration =
  ii_Groups :: "string \<Rightarrow> string list option"
  ii_RoleBindings :: "string \<Rightarrow> string option"

record networkRule =
  nr_Connection :: string
  nr_AllowedIPs :: "string list"

record customNetworkRules =
  nw_ServiceUsers :: "string \<Rightarrow> networkRule list option"
  nw_AccountWide :: "networkRule list"

record authException =
  ae_User :: string
  ae_RSAKeyAllowed :: bool
  ae_PATAllowed :: bool
  ae_Reason :: string

record customAuthRules =
  ar_Exceptions :: "authException list"

record accountSpec =
  as_Description :: string
  as_Contact :: string
  as_Region :: string
  as_Environment :: string
  as_CreditQuota :: int
  as_IdentityIntegration :: identityIntegration
  as_CustomNetworkRules :: "customNetworkRules option"
  as_CustomAuthRules :: "customAuthRules option"
  as_ManagementPolicies :: "string list"

record accountStatus =
  st_Conditions :: "condition list"
  st_ObservedGeneration :: int
  st_AccountName :: string
  st_AccountLocator :: string
  st_AccountCreatedAt :: "time option"
  st_AccountURL :: string

record snowflakeAccount =
  sa_Meta :: objectMeta
  sa_Spec :: accountSpec
  sa_Status :: accountStatus

definition snowflakeAccountKind :: string where
  "snowflakeAccountKind = ''SnowflakeAccount''"

definition sa_GetManagementPolicies :: "snowflakeAccount \<Rightarrow> string list" where
  "sa_GetManagementPolicies a = as_ManagementPolicies (sa_Spec a)"

definition sa_SetManagementPolicies :: "string list \<Rightarrow> snowflakeAccount \<Rightarrow> snowflakeAccount" where
  "sa_SetManagementPolicies p a = a\<lparr>sa_Spec := (sa_Spec a)\<lparr>as_ManagementPolicies := p\<rparr>\<rparr>"

definition sa_GetCondition :: "xpv1 \<Rightarrow> string \<Rightarrow> snowflakeAccount \<Rightarrow> condition" where
  "sa_GetCondition X ct a = xp_GetCondition X (st_Conditions (sa_Status a)) ct"

definition sa_SetConditions :: "xpv1 \<Rightarrow> condition list \<Rightarrow> snowflakeAccount \<Rightarrow> snowflakeAccount" where
  "sa_SetConditions X c a =
     a\<lparr>sa_Status := (sa_Status a)\<lparr>st_Conditions := xp_SetConditions X (st_Conditions (sa_Status a)) c\<rparr>\<rparr>"

subsection \<open>DeletionPermit\<close>

record targetRef =
  tr_Kind :: string
  tr_Name :: string

record permitSpec =
  ps_TargetRef :: targetRef
  ps_Duration :: duration
  ps_Reason :: string
  ps_ManagementPolicies :: "string list"

record permitStatus =
  pt_Conditions :: "condition list"
  pt_ObservedGeneration :: int
  pt_ValidUntil :: "time option"
  pt_State :: string

record deletionPermit =
  dp_Meta :: objectMeta
  dp_Spec :: permitSpec
  dp_Status :: permitStatus

definition dp_GetManagementPolicies :: "deletionPermit \<Rightarrow> string list" where
  "dp_GetManagementPolicies r = ps_ManagementPolicies (dp_Spec r)"

definition dp_SetManagementPolicies :: "string list \<Rightarrow> deletionPermit \<Rightarrow> deletionPermit" where
  "dp_SetManagementPolicies p r = r\<lparr>dp_Spec := (dp_Spec r)\<lparr>ps_ManagementPolicies := p\<rparr>\<rparr>"

definition dp_GetCondition :: "xpv1 \<Rightarrow> string \<Rightarrow> deletionPermit \<Rightarrow> condition" where
  "dp_GetCondition X ct r = xp_GetCondition X (pt_Conditions (dp_Status r)) ct"

definition dp_SetConditions :: "xpv1 \<Rightarrow> condition list \<Rightarrow> deletionPermit \<Rightarrow> deletionPermit" where
  "dp_SetConditions X c r =
     r\<lparr>dp_Status := (dp_Status r)\<lparr>pt_Conditions := xp_SetConditions X (pt_Conditions (dp_Status r)) c\<rparr>\<rparr>"

text \<open>No connection secret on either type.\<close>

definition sa_GetWriteConnectionSecretToReference :: "snowflakeAccount \<Rightarrow> string option" where
  "sa_GetWriteConnectionSecretToReference a = None"

definition dp_GetWriteConnectionSecretToReference :: "deletionPermit \<Rightarrow> string option" where
  "dp_GetWriteConnectionSecretToReference r = None"

lemma sa_GetCondition_Set:
  "xpv1_ok X \<Longrightarrow> sa_GetCondition X t (sa_SetConditions X [c] a) =
     (if cd_Type c = t then c else sa_GetCondition X t a)"
  by (simp add: sa_GetCondition_def sa_SetConditions_def xpv1_ok_def)

lemma sa_SetConditions_other [simp]:
  "sa_Meta (sa_SetConditions X cs a) = sa_Meta a" "sa_Spec (sa_SetConditions X cs a) = sa_Spec a"
  "st_AccountLocator (sa_Status (sa_SetConditions X cs a)) = st_AccountLocator (sa_Status a)"
  "st_ObservedGeneration (sa_Status (sa_SetConditions X cs a)) = st_ObservedGeneration (sa_Status a)"
  "st_AccountCreatedAt (sa_Status (sa_SetConditions X cs a)) = st_AccountCreatedAt (sa_Status a)"
  "st_AccountName (sa_Status (sa_SetConditions X cs a)) = st_AccountName (sa_Status a)"
  "st_AccountURL (sa_Status (sa_SetConditions X cs a)) = st_AccountURL (sa_Status a)"
  by (simp_all add: sa_SetConditions_def)

end
