(* ===== verification/Tenant.thy ===== *)
theory Tenant
  imports Host Go_Crypto
begin

text \<open>
  Package \<open>internal/account/tenant\<close>: the resolved account name (\<open>naming.go\<close>), the
  account's login URL (\<open>url.go\<close>) and the readers of the namespace labels
  (\<open>labels.go\<close>).  Label maps are partial functions; Go's two-value lookup is the
  \<open>None\<close>/\<open>Some\<close> of the map.
\<close>

subsection \<open>Naming\<close>

definition namespaceSuffixLen :: nat where
  "namespaceSuffixLen = 5"

definition namespace_suffix :: "string \<Rightarrow> string" where
  "namespace_suffix namespace =
     take namespaceSuffixLen (to_lower (base32_std (sum256 namespace)))"

definition ResolveName :: "string \<Rightarrow> string \<Rightarrow> string" where
  "ResolveName name namespace =
     (let sum = sum256 namespace;
          encoded = to_lower (base32_std sum);
          translated = replace_all (CHR ''-'') ''_'' name
      in translated @ ''_'' @ take namespaceSuffixLen encoded)"

lemma ResolveName_suffix:
  "ResolveName name ns = replace_all (CHR ''-'') ''_'' name @ CHR ''_'' # namespace_suffix ns"
  by (simp add: ResolveName_def namespace_suffix_def Let_def)

lemma namespace_suffix_take:
  "namespace_suffix ns = to_lower (take namespaceSuffixLen (base32_std (sum256 ns)))"
  by (simp add: namespace_suffix_def to_lower_def take_map)

lemma length_namespace_suffix [simp, go_str]: "length (namespace_suffix ns) = 5"
  unfolding namespace_suffix_take namespaceSuffixLen_def
  by (simp only: length_to_lower) (rule take_base32_sum256(1), simp)

definition lower_base32_char :: "char \<Rightarrow> bool" where
  "lower_base32_char c \<longleftrightarrow> is_lower c \<or> in_range 50 55 c"

lemma base32_alphabet_lower:
  assumes "c \<in> set base32_alphabet"
  shows "lower_base32_char (lower_char c)"
proof -
  have "list_all (\<lambda>c. is_upper c \<or> in_range 50 55 c) base32_alphabet"
    by (simp add: base32_alphabet_def byte_class_defs)
  with assms have "is_upper c \<or> in_range 50 55 c" by (simp add: list_all_iff)
  then show ?thesis
  proof
    assume u: "is_upper c"
    then have "is_lower (lower_char c)"
      using byte_of_lower_char [OF u] by (simp add: is_upper_def is_lower_def in_range_def)
    then show ?thesis by (simp add: lower_base32_char_def)
  next
    assume d: "in_range 50 55 c"
    then have "\<not> is_upper c" by (simp add: is_upper_def in_range_def)
    with d show ?thesis by (simp add: lower_base32_char_def)
  qed
qed

lemma namespace_suffix_chars: "list_all lower_base32_char (namespace_suffix ns)"
proof -
  have "namespaceSuffixLen \<le> 52" by (simp add: namespaceSuffixLen_def)
  from take_base32_sum256(2) [OF this, of ns] show ?thesis
    unfolding namespace_suffix_take to_lower_def
    by (auto simp: list_all_iff intro: base32_alphabet_lower)
qed

lemma length_ResolveName [simp, go_str]: "length (ResolveName name ns) = length name + 6"
  by (simp add: ResolveName_suffix)

lemma ResolveName_inject:
  assumes "ResolveName n ns = ResolveName n' ns'"
  shows "replace_all (CHR ''-'') ''_'' n = replace_all (CHR ''-'') ''_'' n'"
    and "namespace_suffix ns = namespace_suffix ns'"
proof -
  have "replace_all (CHR ''-'') ''_'' n = replace_all (CHR ''-'') ''_'' n' \<and>
        CHR ''_'' # namespace_suffix ns = CHR ''_'' # namespace_suffix ns'"
    using assms append_eq_append_conv
      [of "replace_all (CHR ''-'') ''_'' n" "replace_all (CHR ''-'') ''_'' n'"
          "CHR ''_'' # namespace_suffix ns" "CHR ''_'' # namespace_suffix ns'"]
    by (auto simp: ResolveName_suffix)
  then show "replace_all (CHR ''-'') ''_'' n = replace_all (CHR ''-'') ''_'' n'"
    and "namespace_suffix ns = namespace_suffix ns'" by auto
qed

lemma replace_dash_inject:
  assumes "replace_all (CHR ''-'') ''_'' n = replace_all (CHR ''-'') ''_'' n'"
    and "CHR ''_'' \<notin> set n" and "CHR ''_'' \<notin> set n'"
  shows "n = n'"
  using assms
proof (induction n arbitrary: n')
  case Nil
  then show ?case by (cases n') (auto split: if_splits)
next
  case (Cons c n)
  then show ?case by (cases n') (auto split: if_splits)
qed

text \<open>The charset of \<open>ResolveName\<close>, which the account module relies on when it binds
  the name through IDENTIFIER: a bare Snowflake identifier.\<close>

definition ident_char :: "char \<Rightarrow> bool" where
  "ident_char c \<longleftrightarrow> is_alnum c \<or> c = CHR ''_''"

definition k8s_name_char :: "char \<Rightarrow> bool" where
  "k8s_name_char c \<longleftrightarrow> is_lower c \<or> is_digit c \<or> c = CHR ''-''"

lemma list_all_namespace_suffix: "list_all ident_char (namespace_suffix ns)"
  using namespace_suffix_chars [of ns]
  by (rule list_all_weaken) (auto simp: lower_base32_char_def ident_char_def byte_class_defs)

lemma ident_char_ResolveName:
  assumes "list_all k8s_name_char name"
  shows "list_all ident_char (ResolveName name ns)"
proof -
  have "list_all ident_char (replace_all (CHR ''-'') ''_'' name)"
    using assms
    by (induction name) (auto simp: k8s_name_char_def ident_char_def is_alnum_def is_alpha_def)
  then show ?thesis
    using list_all_namespace_suffix by (simp add: ResolveName_suffix ident_char_def)
qed

subsection \<open>Account URL\<close>

definition loginPath :: string where
  "loginPath = ''/console/login''"

definition AccountURL :: "string \<Rightarrow> string \<Rightarrow> bool \<Rightarrow> string result" where
  "AccountURL locator region usePrivateLink =
     (case host_URL locator region usePrivateLink of
        Inl e \<Rightarrow> Inl e
      | Inr url \<Rightarrow> Inr (url @ loginPath))"

lemma AccountURL_Inr_iff: "(\<exists>u. AccountURL l region pl = Inr u) \<longleftrightarrow> cloud_region region"
  using Hostname_Inr_iff [of l region pl]
  by (auto simp: AccountURL_def host_URL_def split: sum.splits)

subsection \<open>Labels\<close>

type_synonym labels = "string \<Rightarrow> string option"

definition departmentLabel :: string where "departmentLabel = ''department''"
definition costCenterLabel :: string where "costCenterLabel = ''cost-center''"
definition creditQuotaLabel :: string where "creditQuotaLabel = ''credit-quota''"
definition alphaTesterLabel :: string where "alphaTesterLabel = ''alpha-tester''"

definition missing_label_error :: "string \<Rightarrow> gerror" where
  "missing_label_error key =
     plain_error (''namespace missing required label '' @ [squote] @ key @ [squote] @
       ''; contact platform ops'')"

definition readLabel :: "labels \<Rightarrow> string \<Rightarrow> string result" where
  "readLabel labels key =
     (case labels key of
        None \<Rightarrow> Inl (missing_label_error key)
      | Some value \<Rightarrow> if value = [] then Inl (missing_label_error key) else Inr value)"

definition Department :: "labels \<Rightarrow> string result" where
  "Department labels = readLabel labels departmentLabel"

definition CostCenter :: "labels \<Rightarrow> string result" where
  "CostCenter labels = readLabel labels costCenterLabel"

definition bad_quota_error :: "string \<Rightarrow> gerror" where
  "bad_quota_error value =
     plain_error (''namespace label '' @ [squote] @ creditQuotaLabel @ [squote] @
       '' must be a non-negative integer, got '' @ quote_go value @ ''; contact platform ops'')"

definition CreditQuota :: "labels \<Rightarrow> int result" where
  "CreditQuota labels =
     (case readLabel labels creditQuotaLabel of
        Inl e \<Rightarrow> Inl e
      | Inr value \<Rightarrow>
          (case atoi value of
             None \<Rightarrow> Inl (bad_quota_error value)
           | Some quota \<Rightarrow> if quota < 0 then Inl (bad_quota_error value) else Inr quota))"

text \<open>\<open>strconv.ParseBool\<close>.\<close>

definition parse_bool :: "string \<Rightarrow> bool option" where
  "parse_bool s =
     (if s = ''1'' \<or> s = ''t'' \<or> s = ''T'' \<or> s = ''true'' \<or> s = ''TRUE'' \<or> s = ''True'' then Some True
      else if s = ''0'' \<or> s = ''f'' \<or> s = ''F'' \<or> s = ''false'' \<or> s = ''FALSE'' \<or> s = ''False''
        then Some False
      else None)"

definition bad_bool_error :: "string \<Rightarrow> gerror" where
  "bad_bool_error value =
     plain_error (''namespace label '' @ [squote] @ alphaTesterLabel @ [squote] @
       '' must be a boolean, got '' @ quote_go value @ ''; contact platform ops'')"

definition AlphaTester :: "labels \<Rightarrow> bool result" where
  "AlphaTester labels =
     (case labels alphaTesterLabel of
        None \<Rightarrow> Inr False
      | Some value \<Rightarrow>
          if value = [] then Inr False
          else (case parse_bool value of
                  None \<Rightarrow> Inl (bad_bool_error value)
                | Some isAlphaTester \<Rightarrow> Inr isAlphaTester))"

lemma CreditQuota_bounds: "CreditQuota labels = Inr q \<Longrightarrow> 0 \<le> q \<and> q < 2 ^ 63"
  by (auto simp: CreditQuota_def atoi_def Let_def split: sum.splits option.splits if_splits)

lemma label_errors_system:
  "readLabel labels key = Inl e \<Longrightarrow> \<not> IsUserError e"
  "CreditQuota labels = Inl e \<Longrightarrow> \<not> IsUserError e"
  "AlphaTester labels = Inl e \<Longrightarrow> \<not> IsUserError e"
  by (auto simp: readLabel_def CreditQuota_def AlphaTester_def missing_label_error_def
      bad_quota_error_def bad_bool_error_def split: option.splits if_splits sum.splits)

lemma CreditQuota_show_int:
  assumes "0 \<le> q" and "q < 2 ^ 63" and "labels creditQuotaLabel = Some (show_int q)"
  shows "CreditQuota labels = Inr q"
proof -
  have "show_int q \<noteq> []" by (simp add: show_int_def)
  with assms atoi_show_int [of q] show ?thesis by (simp add: CreditQuota_def readLabel_def)
qed

subsection \<open>Properties\<close>

text \<open>For Kubernetes names the resolved account name is a bare Snowflake identifier, six bytes
  longer than the resource name, and two resources of one namespace never share one.\<close>

theorem ResolveName_identifies:
  assumes "name \<noteq> []" and "list_all k8s_name_char name" and "list_all k8s_name_char name'"
  shows "list_all ident_char (ResolveName name ns) \<and> length (ResolveName name ns) = length name + 6 \<and>
    (ResolveName name ns = ResolveName name' ns' \<longrightarrow>
       name = name' \<and> namespace_suffix ns = namespace_suffix ns')"
proof -
  have "CHR ''_'' \<notin> set n" if "list_all k8s_name_char n" for n
    using that by (auto simp: list_all_iff k8s_name_char_def byte_class_defs)
  with assms show ?thesis
    by (auto simp: ident_char_ResolveName dest: ResolveName_inject(2) replace_dash_inject [OF ResolveName_inject(1)])
qed

lemma ResolveName_identifies_witness:
  "list_all ident_char (ResolveName ''my-acct'' ''team-a'') \<and> length (ResolveName ''my-acct'' ''team-a'') = 13 \<and>
   ResolveName ''my-acct'' ''team-a'' \<noteq> ResolveName ''myacct'' ''team-a''"
  using ResolveName_identifies [of "''my-acct''" "''myacct''" "''team-a''" "''team-a''"]
  by (simp add: k8s_name_char_def byte_class_defs)

text \<open>A credit quota that is read is a non-negative 64-bit integer, every such integer is read
  back from its decimal text, and a missing or malformed label is a system error, which the
  tenant is not shown.\<close>

theorem CreditQuota_roundtrip:
  "(\<forall>q. CreditQuota labels = Inr q \<longrightarrow> 0 \<le> q \<and> q < 2 ^ 63) \<and>
   (\<forall>e. CreditQuota labels = Inl e \<longrightarrow> \<not> IsUserError e) \<and>
   (\<forall>q. 0 \<le> q \<and> q < 2 ^ 63 \<longrightarrow> CreditQuota (labels(creditQuotaLabel \<mapsto> show_int q)) = Inr q)"
  using CreditQuota_bounds label_errors_system(2) CreditQuota_show_int
  by (metis fun_upd_same)

lemma CreditQuota_roundtrip_witness:
  "CreditQuota (Map.empty(creditQuotaLabel \<mapsto> show_int 100)) = Inr 100"
  using CreditQuota_roundtrip [of Map.empty] by simp

end
