(* ===== verification/ResourceData.thy ===== *)
theory ResourceData
  imports Pool Api Tenant
begin

text \<open>
  \<open>internal/account/pipeline/resourcedata.go\<close>: what a module gets to work on.  The resource and
  the memoised tenant connection are fields of the state, the rest of the struct is constant
  for a call.  The interface \<open>DBPool\<close> is the locale \<open>db_pool\<close>, whose laws say which effects
  a pool may have and that it never touches the resource; the connection pool of package pool
  is shown to keep them.
\<close>

record 'w acc_sys = "'w pool_sys" +
  ac_cr :: snowflakeAccount
  ac_tenantDB :: "db option"

record 's db_pool =
  dbp_OrgAdminDB :: "'s \<Rightarrow> db result \<times> 's"
  dbp_TenantDB :: "string \<Rightarrow> string \<Rightarrow> string \<Rightarrow> string \<Rightarrow> 's \<Rightarrow> db result \<times> 's"
  dbp_EvictTenant :: "string \<Rightarrow> string \<Rightarrow> 's \<Rightarrow> 's"

record 's resourceData =
  rd_namespace :: string
  rd_resolvedName :: string
  rd_namespaceLabels :: labels
  rd_log :: logger
  rd_pool :: "'s db_pool"

abbreviation cr_locator :: "('w, 'z) acc_sys_scheme \<Rightarrow> string" where
  "cr_locator s \<equiv> st_AccountLocator (sa_Status (ac_cr s))"

definition NewResourceData ::
  "labels \<Rightarrow> logger \<Rightarrow> ('w, 'z) acc_sys_scheme db_pool \<Rightarrow> ('w, 'z) acc_sys_scheme
     \<Rightarrow> ('w, 'z) acc_sys_scheme resourceData \<times> ('w, 'z) acc_sys_scheme" where
  "NewResourceData namespaceLabels log p s =
     (let namespace = om_Namespace (sa_Meta (ac_cr s)) in
      (\<lparr>rd_namespace = namespace,
        rd_resolvedName = ResolveName (om_Name (sa_Meta (ac_cr s))) namespace,
        rd_namespaceLabels = namespaceLabels, rd_log = log, rd_pool = p\<rparr>,
       s\<lparr>ac_tenantDB := None\<rparr>))"

definition rd_CR :: "('w, 'z) acc_sys_scheme resourceData \<Rightarrow> ('w, 'z) acc_sys_scheme \<Rightarrow> snowflakeAccount" where
  "rd_CR c s = ac_cr s"

definition ResolvedAccountName :: "'s resourceData \<Rightarrow> string" where
  "ResolvedAccountName c = rd_resolvedName c"

definition NamespaceLabels :: "'s resourceData \<Rightarrow> labels" where
  "NamespaceLabels c = rd_namespaceLabels c"

definition rd_Logger :: "'s resourceData \<Rightarrow> logger" where
  "rd_Logger c = rd_log c"

definition rd_OrgAdminDB ::
  "('w, 'z) acc_sys_scheme resourceData \<Rightarrow> ('w, 'z) acc_sys_scheme
     \<Rightarrow> db result \<times> ('w, 'z) acc_sys_scheme" where
  "rd_OrgAdminDB c s = dbp_OrgAdminDB (rd_pool c) s"

definition no_locator_error :: "string \<Rightarrow> string \<Rightarrow> gerror" where
  "no_locator_error namespace name =
     plain_error (''cannot resolve tenant connection: account locator is not yet known for '' @
       namespace @ ''/'' @ name)"

definition rd_TenantDB ::
  "('w, 'z) acc_sys_scheme resourceData \<Rightarrow> ('w, 'z) acc_sys_scheme
     \<Rightarrow> db result \<times> ('w, 'z) acc_sys_scheme" where
  "rd_TenantDB c s =
     (case ac_tenantDB s of
        Some db \<Rightarrow> (Inr db, s)
      | None \<Rightarrow>
          let cr = ac_cr s; locator = st_AccountLocator (sa_Status cr) in
          if locator = [] then (Inl (no_locator_error (rd_namespace c) (om_Name (sa_Meta cr))), s)
          else (case dbp_TenantDB (rd_pool c) (rd_namespace c) (om_Name (sa_Meta cr)) locator
                       (as_Region (sa_Spec cr)) s of
                  (Inl err, s1) \<Rightarrow> (Inl err, s1)
                | (Inr db, s1) \<Rightarrow> (Inr db, s1\<lparr>ac_tenantDB := Some db\<rparr>)))"

definition rd_EvictTenant ::
  "('w, 'z) acc_sys_scheme resourceData \<Rightarrow> ('w, 'z) acc_sys_scheme \<Rightarrow> ('w, 'z) acc_sys_scheme" where
  "rd_EvictTenant c s = dbp_EvictTenant (rd_pool c) (rd_namespace c) (om_Name (sa_Meta (ac_cr s))) s"

subsection \<open>The interface\<close>

text \<open>What a pool may do on its own account: read and rotate the credential of its target, and
  open, probe and close connections.\<close>

fun pool_effect :: "effect \<Rightarrow> bool" where
  "pool_effect (GetSecret i) = True"
| "pool_effect (UpdateSecret i v) = True"
| "pool_effect (OpenDB d c) = True"
| "pool_effect (PingDB d) = True"
| "pool_effect (CloseDB d) = True"
| "pool_effect (QuerySQL d q args) = (args = [] \<and> has_prefix q ''DESC USER '')"
| "pool_effect (ExecSQL d q args) = (args = [] \<and> has_prefix q ''ALTER USER '')"
| "pool_effect _ = False"

definition pooled :: "('w, 'z) pool_sys_scheme \<Rightarrow> ('w, 'z) pool_sys_scheme \<Rightarrow> bool" where
  "pooled s s' \<longleftrightarrow> pool_sys.more s' = pool_sys.more s \<and> emits pool_effect s s'"

lemma pooled_refl [simp, intro]: "pooled s s"
  by (simp add: pooled_def)

lemma pooled_trans: "pooled s s1 \<Longrightarrow> pooled s1 s2 \<Longrightarrow> pooled s s2"
  unfolding pooled_def using emits_trans by metis

lemma same_pool_more: "same_pool s s' \<Longrightarrow> pool_sys.more s' = pool_sys.more s"
  using same_pool_fields by blast

locale db_pool =
  fixes P :: "('w, 'z) acc_sys_scheme db_pool"
  assumes org_pooled: "dbp_OrgAdminDB P s = (r, s') \<Longrightarrow> pooled s s'"
    and tenant_pooled: "dbp_TenantDB P ns acct l region s = (r, s') \<Longrightarrow> pooled s s'"
    and evict_pooled: "pooled s (dbp_EvictTenant P ns acct s)"
begin

lemma pooled_fields:
  fixes s s' :: "('w, 'z) acc_sys_scheme"
  shows "pooled s s' \<Longrightarrow> ac_cr s' = ac_cr s \<and> ac_tenantDB s' = ac_tenantDB s \<and> emits pool_effect s s'"
  by (cases s; cases s') (simp add: pooled_def)

lemma rd_OrgAdminDB_frame:
  "rd_pool c = P \<Longrightarrow> rd_OrgAdminDB c s = (r, s') \<Longrightarrow> ac_cr s' = ac_cr s \<and> emits pool_effect s s'"
  using org_pooled pooled_fields by (fastforce simp: rd_OrgAdminDB_def)

lemma rd_TenantDB_frame:
  assumes "rd_pool c = P" and "rd_TenantDB c s = (r, s')"
  shows "ac_cr s' = ac_cr s \<and> emits pool_effect s s' \<and> (\<forall>d. r = Inr d \<longrightarrow> ac_tenantDB s' = Some d)"
proof -
  obtain r0 s0 where t: "dbp_TenantDB P (rd_namespace c) (om_Name (sa_Meta (ac_cr s))) (cr_locator s)
      (as_Region (sa_Spec (ac_cr s))) s = (r0, s0)" by fastforce
  note f = pooled_fields [OF tenant_pooled [OF t]]
  from f have "emits pool_effect s (s0\<lparr>ac_tenantDB := x\<rparr>)" for x
    by (auto intro: emits_trans [OF _ emits_same])
  with assms t f show ?thesis
    by (auto simp: rd_TenantDB_def Let_def split: option.splits if_splits sum.splits)
qed

text \<open>The connection is resolved once per call, and never without a locator.\<close>

lemma rd_TenantDB_memo:
  assumes "rd_pool c = P" and "rd_TenantDB c s = (Inr d, s')"
  shows "rd_TenantDB c s' = (Inr d, s')"
  using rd_TenantDB_frame [OF assms] by (simp add: rd_TenantDB_def)

lemma rd_TenantDB_no_locator:
  "ac_tenantDB s = None \<Longrightarrow> cr_locator s = [] \<Longrightarrow>
     rd_TenantDB c s = (Inl (no_locator_error (rd_namespace c) (om_Name (sa_Meta (ac_cr s)))), s)"
  by (simp add: rd_TenantDB_def Let_def)

lemma rd_EvictTenant_frame:
  "rd_pool c = P \<Longrightarrow> ac_cr (rd_EvictTenant c s) = ac_cr s \<and> emits pool_effect s (rd_EvictTenant c s)"
  using evict_pooled pooled_fields by (simp add: rd_EvictTenant_def)

end

subsection \<open>The connection pool implements it\<close>

definition pool_db_pool ::
  "'w env \<Rightarrow> ('w, ('w, 'z) pool_sys_scheme) pool \<Rightarrow> ('w, 'z) pool_sys_scheme db_pool" where
  "pool_db_pool E p =
     \<lparr>dbp_OrgAdminDB = OrgAdminDB E p, dbp_TenantDB = TenantDB E p, dbp_EvictTenant = EvictTenant E\<rparr>"

lemma pooled_step:
  fixes s :: "('w, 'z) pool_sys_scheme"
  assumes "same_pool s s'" and "trace s' = trace s @ efs" and "list_all pool_effect efs"
  shows "pooled s s'"
  using assms same_pool_more by (auto simp: pooled_def emits_def)

lemma GetCredentials_pooled:
  fixes s :: "('w, 'z) pool_sys_scheme"
  shows "GetCredentials E km i s = (r, s') \<Longrightarrow> pooled s s'"
  by (drule GetCredentials_frame)
    (auto simp: same_pool_def intro: pooled_step [of _ _ "[]"] pooled_step [of _ _ "[GetSecret i]"])

lemma UpdateCredentials_pooled:
  fixes s :: "('w, 'z) pool_sys_scheme"
  shows "UpdateCredentials E km i c s = (r, s') \<Longrightarrow> pooled s s'"
  by (drule UpdateCredentials_frame)
    (auto simp: same_pool_def intro: pooled_step [of _ _ "[]"] pooled_step [of _ _ "[UpdateSecret i v]" for v])

lemma NewCredentials_pooled:
  fixes s :: "('w, 'z) pool_sys_scheme"
  shows "NewCredentials E u s = (r, s') \<Longrightarrow> pooled s s'"
  by (drule NewCredentials_frame) (auto intro: pooled_step [of _ _ "[]"] sys_more_same_pool)

lemma call_pooled:
  fixes s :: "('w, 'z) pool_sys_scheme"
  shows "call ef f s = (r, s') \<Longrightarrow> pool_effect ef \<Longrightarrow> pooled s s'"
  by (drule call_frame) (auto intro: pooled_step [of _ _ "[ef]"] sys_more_same_pool)

lemma credentialDue_pooled:
  fixes s :: "('w, 'z) pool_sys_scheme"
  shows "credentialDue E t i s = (r, s') \<Longrightarrow> pooled s s'"
  by (auto simp: credentialDue_def dest!: now_frame split: prod.splits
      intro: pooled_step [of _ _ "[]"] sys_more_same_pool)

lemma desc_user_effect: "pool_effect (QuerySQL d (desc_user_sql u) [])"
  by (simp add: desc_user_sql_def has_prefix_def)

lemma alter_user_effect: "pool_effect (ExecSQL d (alter_user_sql u slot k) [])"
  by (simp add: alter_user_sql_def has_prefix_def)

lemma targetSlot_pooled:
  fixes s :: "('w, 'z) pool_sys_scheme"
  shows "targetSlot E d u fp s = (r, s') \<Longrightarrow> pooled s s'"
  using call_pooled [OF _ desc_user_effect]
  by (fastforce simp: targetSlot_def db_executor_def split: prod.splits sum.splits)

lemma rotateCredential_pooled: "rotateCredential E p d idt u key s = (r, s') \<Longrightarrow> pooled s s'"
  by (auto simp: rotateCredential_def db_executor_def
      dest!: targetSlot_pooled NewCredentials_pooled UpdateCredentials_pooled
        call_pooled [OF _ alter_user_effect]
      split: prod.splits sum.splits option.splits intro: pooled_trans)

lemma maybeRotateLocked_pooled: "pooled s (maybeRotateLocked E p d idt s)"
  by (auto simp: maybeRotateLocked_def
      dest!: GetCredentials_pooled credentialDue_pooled rotateCredential_pooled
      split: prod.splits sum.splits intro: pooled_trans)

lemma defaultDial_pooled:
  fixes s :: "('w, 'z) pool_sys_scheme"
  assumes "defaultDial E dc s = (r, s')"
  shows "pooled s s'"
proof -
  have "emits pool_effect s s'"
    using assms
    by (auto simp: defaultDial_def emits_def dest!: open_db_frame call_frame close_db_frame
        split: prod.splits option.splits)
  moreover have "sys.more s' = sys.more s" using defaultDial_frame [OF assms] by blast
  from same_pool_more [OF sys_more_same_pool [OF this]] have "pool_sys.more s' = pool_sys.more s" .
  ultimately show ?thesis by (simp add: pooled_def)
qed

lemma close_db_pooled:
  fixes s :: "('w, 'z) pool_sys_scheme"
  shows "close_db E d s = (r, s') \<Longrightarrow> pooled s s'"
  by (drule close_db_frame) (auto intro: pooled_step [of _ _ "[CloseDB d]"] sys_more_same_pool)

lemma applyPoolSettings_pooled:
  fixes s :: "('w, 'z) pool_sys_scheme"
  shows "pooled s (applyPoolSettings E d cfg s)"
  by (rule pooled_step [of _ _ "[]"]) (auto simp: applyPoolSettings_def Let_def intro: sys_more_same_pool)

lemma pool_field_pooled [simp, intro]:
  "pooled s (s\<lparr>ps_orgAdminDB := x\<rparr>)" "pooled s (s\<lparr>ps_entries := y\<rparr>)" "pooled s (s\<lparr>ps_keyLocks := z\<rparr>)"
  by (simp_all add: pooled_def emits_same)

lemma keyLock_pooled: "keyLock key s = (l, s') \<Longrightarrow> pooled s s'"
  by (auto simp: keyLock_def Let_def split: option.splits)

lemma replaceTenant_pooled: "pooled s (replaceTenant E key e s)"
  by (auto simp: replaceTenant_def Let_def split: option.splits prod.splits
      dest!: close_db_pooled intro: pooled_trans)

lemma OrgAdminDB_pooled:
  assumes "pl_dial p = defaultDial E" and "OrgAdminDB E p s = (r, s')"
  shows "pooled s s'"
  using assms(2)
  by (auto simp: OrgAdminDB_def Let_def assms(1) split: sum.splits option.splits prod.splits
      dest!: GetCredentials_pooled defaultDial_pooled
      intro: maybeRotateLocked_pooled pooled_trans [OF _ maybeRotateLocked_pooled]
        pooled_trans [OF _ applyPoolSettings_pooled] pooled_trans [OF _ pool_field_pooled(1)]
        pooled_trans)

lemma dialTenant_pooled:
  assumes "pl_dial p = defaultDial E" and "dialTenant E p key l region idt s = (r, s')"
  shows "pooled s s'"
  using assms(2)
  by (auto simp: dialTenant_def openTenant_def Let_def assms(1) split: sum.splits prod.splits
      dest!: GetCredentials_pooled defaultDial_pooled
      intro: pooled_trans [OF _ replaceTenant_pooled] pooled_trans [OF _ applyPoolSettings_pooled]
        pooled_trans)

lemma TenantDB_pooled:
  assumes "pl_dial p = defaultDial E" and "TenantDB E p ns acct l region s = (r, s')"
  shows "pooled s s'"
  using assms(2)
  by (auto simp: TenantDB_def Let_def split: sum.splits prod.splits option.splits
      dest!: keyLock_pooled dialTenant_pooled [OF assms(1)]
      intro: pooled_trans [OF _ maybeRotateLocked_pooled] pooled_trans)

lemma EvictTenant_pooled: "pooled s (EvictTenant E ns acct s)"
  by (auto simp: EvictTenant_def Let_def split: prod.splits option.splits
      dest!: keyLock_pooled close_db_pooled
      intro: pooled_trans [OF _ pool_field_pooled(2)] pooled_trans)

lemma pool_New_dial [simp]: "pl_dial (pool_New E km cfg) = defaultDial E"
  by (simp add: pool_New_def)

interpretation pl: db_pool "pool_db_pool E (pool_New E km cfg)" for E km cfg
  by unfold_locales
    (auto simp: pool_db_pool_def intro: OrgAdminDB_pooled [OF pool_New_dial] TenantDB_pooled [OF pool_New_dial]
        EvictTenant_pooled)

end
