(* ===== verification/Pipeline.thy ===== *)
theory Pipeline
  imports ResourceData
begin

text \<open>
  Package \<open>internal/account/pipeline\<close>: outcomes (\<open>module.go\<close>), condition types
  (\<open>conditions.go\<close>) and the three runs over the registered modules (\<open>pipeline.go\<close>).  The
  \<open>Module\<close> interface is a record of functions; its documented contract is the locale
  \<open>pipeline_module\<close>, and \<open>module_list\<close> proves from it what the pipeline promises, for any
  list of modules.
\<close>

subsection \<open>Outcomes\<close>

definition typeQuotaAvailable :: string where "typeQuotaAvailable = ''QuotaAvailable''"
definition typeIdentitySynced :: string where "typeIdentitySynced = ''IdentitySynced''"

datatype out_state = StateDone | StatePending | StateDrifted | StateFailed

record outcome =
  oc_Module :: string
  oc_State :: out_state
  oc_Reason :: string
  oc_Err :: "gerror option"
  oc_Aborted :: bool
  oc_Condition :: "condition option"
  oc_Events :: "event list"

definition zero_outcome :: outcome where
  "zero_outcome =
     \<lparr>oc_Module = [], oc_State = StateDone, oc_Reason = [], oc_Err = None, oc_Aborted = False,
      oc_Condition = None, oc_Events = []\<rparr>"

definition Done :: outcome where
  "Done = zero_outcome\<lparr>oc_State := StateDone\<rparr>"

definition Pending_oc :: "string \<Rightarrow> outcome" where
  "Pending_oc reason = zero_outcome\<lparr>oc_State := StatePending, oc_Reason := reason\<rparr>"

definition Drifted :: outcome where
  "Drifted = zero_outcome\<lparr>oc_State := StateDrifted\<rparr>"

definition Failed :: "gerror \<Rightarrow> outcome" where
  "Failed err = zero_outcome\<lparr>oc_State := StateFailed, oc_Err := Some err\<rparr>"

definition Abort :: "outcome \<Rightarrow> outcome" where
  "Abort out = (if oc_State out \<noteq> StateDone then out\<lparr>oc_Aborted := True\<rparr> else out)"

definition WithCondition :: "condition \<Rightarrow> outcome \<Rightarrow> outcome" where
  "WithCondition c out = out\<lparr>oc_Condition := Some c\<rparr>"

definition WithEvent :: "event \<Rightarrow> outcome \<Rightarrow> outcome" where
  "WithEvent e out = out\<lparr>oc_Events := oc_Events out @ [e]\<rparr>"

lemmas outcome_defs = Done_def Pending_oc_def Drifted_def Failed_def zero_outcome_def

lemma outcome_states [simp]:
  "oc_State Done = StateDone" "oc_State (Pending_oc r) = StatePending"
  "oc_State Drifted = StateDrifted" "oc_State (Failed e) = StateFailed"
  "\<not> oc_Aborted Done" "\<not> oc_Aborted (Pending_oc r)" "\<not> oc_Aborted (Failed e)"
  "oc_Err (Failed e) = Some e" "oc_Reason (Pending_oc r) = r"
  by (simp_all add: outcome_defs)

lemma Abort_simps [simp]:
  "oc_State (Abort out) = oc_State out" "oc_Err (Abort out) = oc_Err out"
  "oc_Reason (Abort out) = oc_Reason out"
  "oc_Events (Abort out) = oc_Events out" "oc_Condition (Abort out) = oc_Condition out"
  by (simp_all add: Abort_def)

lemma Abort_aborted: "\<not> oc_Aborted out \<Longrightarrow> oc_Aborted (Abort out) \<longleftrightarrow> oc_State out \<noteq> StateDone"
  by (simp add: Abort_def)

text \<open>The derived values of a run.\<close>

fun outcomes_Err :: "outcome list \<Rightarrow> gerror option" where
  "outcomes_Err [] = None"
| "outcomes_Err (out # outs) = (if oc_State out = StateFailed then oc_Err out else outcomes_Err outs)"

fun all_state_done :: "outcome list \<Rightarrow> bool" where
  "all_state_done [] = True"
| "all_state_done (out # outs) = (if oc_State out \<noteq> StateDone then False else all_state_done outs)"

definition AllDone :: "outcome list \<Rightarrow> bool" where
  "AllDone outs = (if outs = [] then False else all_state_done outs)"

fun outcomes_Conditions :: "outcome list \<Rightarrow> condition list" where
  "outcomes_Conditions [] = []"
| "outcomes_Conditions (out # outs) =
     (case oc_Condition out of None \<Rightarrow> [] | Some c \<Rightarrow> [c]) @ outcomes_Conditions outs"

definition outcomes_Events :: "outcome list \<Rightarrow> event list" where
  "outcomes_Events outs = concat (map oc_Events outs)"

fun PendingReason :: "outcome list \<Rightarrow> string" where
  "PendingReason [] = []"
| "PendingReason (out # outs) = (if oc_State out = StatePending then oc_Reason out else PendingReason outs)"

lemma AllDone_iff: "AllDone outs \<longleftrightarrow> outs \<noteq> [] \<and> list_all (\<lambda>out. oc_State out = StateDone) outs"
proof -
  have "all_state_done outs \<longleftrightarrow> list_all (\<lambda>out. oc_State out = StateDone) outs" by (induction outs) auto
  then show ?thesis by (simp add: AllDone_def)
qed

lemma AllDone_no_Err: "AllDone outs \<Longrightarrow> outcomes_Err outs = None"
proof -
  have "list_all (\<lambda>out. oc_State out = StateDone) outs \<Longrightarrow> outcomes_Err outs = None"
    by (induction outs) auto
  then show "AllDone outs \<Longrightarrow> outcomes_Err outs = None" by (simp add: AllDone_iff)
qed

subsection \<open>Runs\<close>

record 's pmodule =
  md_Name :: string
  md_Observe :: "'s resourceData \<Rightarrow> 's \<Rightarrow> outcome \<times> 's"
  md_Apply :: "'s resourceData \<Rightarrow> 's \<Rightarrow> outcome \<times> 's"
  md_Teardown :: "'s resourceData \<Rightarrow> 's \<Rightarrow> gerror option \<times> 's"

definition accountModuleName :: string where
  "accountModuleName = ''account''"

record 's pipeline =
  pp_modules :: "'s pmodule list"

definition pipeline_New :: "'s pmodule list \<Rightarrow> 's pipeline" where
  "pipeline_New modules = \<lparr>pp_modules = modules\<rparr>"

record observation =
  ob_Outcomes :: "outcome list"
  ob_generationApplied :: bool
  ob_readyLatched :: bool

record apply_result =
  ar_Outcomes :: "outcome list"
  ar_readyLatched :: bool

record external_observation =
  eo_ResourceExists :: bool
  eo_ResourceUpToDate :: bool

text \<open>\<open>pipeline.Report\<close>: what the controller renders from either run.\<close>

record report =
  rp_Events :: "event list"
  rp_Conditions :: "condition list"
  rp_Ready :: condition

definition readyLatched :: "xpv1 \<Rightarrow> ('w, 'z) acc_sys_scheme \<Rightarrow> bool" where
  "readyLatched X s \<longleftrightarrow> cd_Status (sa_GetCondition X typeReady (ac_cr s)) = conditionTrue"

definition ready :: "xpv1 \<Rightarrow> bool \<Rightarrow> bool \<Rightarrow> outcome list \<Rightarrow> condition" where
  "ready X latched satisfied outs =
     (if latched \<or> satisfied then xp_Available X
      else xp_WithMessage X (xp_Unavailable X) (PendingReason outs))"

definition observation_Ready :: "xpv1 \<Rightarrow> observation \<Rightarrow> condition" where
  "observation_Ready X obs = ready X (ob_readyLatched obs) False (ob_Outcomes obs)"

fun outcomes_exists :: "outcome list \<Rightarrow> bool" where
  "outcomes_exists [] = False"
| "outcomes_exists (out # outs) =
     (if oc_Module out = accountModuleName then oc_State out = StateDone \<or> oc_State out = StateDrifted
      else outcomes_exists outs)"

fun no_drift :: "outcome list \<Rightarrow> bool" where
  "no_drift [] = True"
| "no_drift (out # outs) = (if oc_State out = StateDrifted then False else no_drift outs)"

definition upToDate :: "observation \<Rightarrow> bool" where
  "upToDate obs = (if \<not> ob_generationApplied obs then False else no_drift (ob_Outcomes obs))"

definition ExternalObservation :: "observation \<Rightarrow> external_observation" where
  "ExternalObservation obs =
     \<lparr>eo_ResourceExists = outcomes_exists (ob_Outcomes obs), eo_ResourceUpToDate = upToDate obs\<rparr>"

definition result_complete :: "apply_result \<Rightarrow> bool" where
  "result_complete r = AllDone (ar_Outcomes r)"

definition result_Ready :: "xpv1 \<Rightarrow> apply_result \<Rightarrow> condition" where
  "result_Ready X r = ready X (ar_readyLatched r) (result_complete r) (ar_Outcomes r)"

definition observation_report :: "xpv1 \<Rightarrow> observation \<Rightarrow> report" where
  "observation_report X obs =
     \<lparr>rp_Events = outcomes_Events (ob_Outcomes obs),
      rp_Conditions = outcomes_Conditions (ob_Outcomes obs), rp_Ready = observation_Ready X obs\<rparr>"

definition result_report :: "xpv1 \<Rightarrow> apply_result \<Rightarrow> report" where
  "result_report X r =
     \<lparr>rp_Events = outcomes_Events (ar_Outcomes r),
      rp_Conditions = outcomes_Conditions (ar_Outcomes r), rp_Ready = result_Ready X r\<rparr>"

fun observe_modules ::
  "'s pmodule list \<Rightarrow> 's resourceData \<Rightarrow> 's \<Rightarrow> outcome list \<times> 's" where
  "observe_modules [] data s = ([], s)"
| "observe_modules (m # ms) data s =
     (case md_Observe m data s of
        (out, s1) \<Rightarrow>
          (case observe_modules ms data s1 of
             (outs, s2) \<Rightarrow> (out\<lparr>oc_Module := md_Name m\<rparr> # outs, s2)))"

definition pipeline_Observe ::
  "xpv1 \<Rightarrow> ('w, 'z) acc_sys_scheme pipeline \<Rightarrow> ('w, 'z) acc_sys_scheme resourceData
     \<Rightarrow> ('w, 'z) acc_sys_scheme \<Rightarrow> observation \<times> ('w, 'z) acc_sys_scheme" where
  "pipeline_Observe X p data s =
     (let generationApplied = (st_ObservedGeneration (sa_Status (ac_cr s)) = om_Generation (sa_Meta (ac_cr s)));
          latched = readyLatched X s in
      case observe_modules (pp_modules p) data s of
        (outs, s1) \<Rightarrow>
          (\<lparr>ob_Outcomes = outs, ob_generationApplied = generationApplied, ob_readyLatched = latched\<rparr>, s1))"

fun apply_modules ::
  "'s pmodule list \<Rightarrow> 's resourceData \<Rightarrow> 's \<Rightarrow> outcome list \<times> 's" where
  "apply_modules [] data s = ([], s)"
| "apply_modules (m # ms) data s =
     (case md_Apply m data s of
        (out, s1) \<Rightarrow>
          let out = out\<lparr>oc_Module := md_Name m\<rparr> in
          if oc_Aborted out then ([out], s1)
          else (case apply_modules ms data s1 of (outs, s2) \<Rightarrow> (out # outs, s2)))"

definition SetObservedGeneration :: "int \<Rightarrow> snowflakeAccount \<Rightarrow> snowflakeAccount" where
  "SetObservedGeneration g a = a\<lparr>sa_Status := (sa_Status a)\<lparr>st_ObservedGeneration := g\<rparr>\<rparr>"

definition pipeline_Apply ::
  "xpv1 \<Rightarrow> ('w, 'z) acc_sys_scheme pipeline \<Rightarrow> ('w, 'z) acc_sys_scheme resourceData
     \<Rightarrow> ('w, 'z) acc_sys_scheme \<Rightarrow> apply_result \<times> ('w, 'z) acc_sys_scheme" where
  "pipeline_Apply X p data s =
     (let latched = readyLatched X s in
      case apply_modules (pp_modules p) data s of
        (outs, s1) \<Rightarrow>
          let result = \<lparr>ar_Outcomes = outs, ar_readyLatched = latched\<rparr> in
          if result_complete result
          then (result, s1\<lparr>ac_cr := SetObservedGeneration (om_Generation (sa_Meta (ac_cr s1))) (ac_cr s1)\<rparr>)
          else (result, s1))"

fun teardown_modules ::
  "'s pmodule list \<Rightarrow> 's resourceData \<Rightarrow> 's \<Rightarrow> gerror option \<times> 's" where
  "teardown_modules [] data s = (None, s)"
| "teardown_modules (m # ms) data s =
     (case md_Teardown m data s of
        (Some err, s1) \<Rightarrow> (Some err, s1)
      | (None, s1) \<Rightarrow> teardown_modules ms data s1)"

definition pipeline_Destroy ::
  "'s pipeline \<Rightarrow> 's resourceData \<Rightarrow> 's \<Rightarrow> gerror option \<times> 's" where
  "pipeline_Destroy p data s = teardown_modules (rev (pp_modules p)) data s"

subsection \<open>The contract of a module\<close>

text \<open>
  What the interface documents: Observe changes nothing in Snowflake (beyond what the pool does
  to connect) and nothing of the resource but its status; Apply aborts only with an outcome
  that is not Done; no call changes the resource's identity, spec, observed generation or
  conditions, which are the pipeline's and the controller's.
\<close>

definition observe_effect :: "effect \<Rightarrow> bool" where
  "observe_effect ef \<longleftrightarrow> pool_effect ef \<or> is_log ef"

definition cr_kept :: "snowflakeAccount \<Rightarrow> snowflakeAccount \<Rightarrow> bool" where
  "cr_kept a b \<longleftrightarrow>
     sa_Meta b = sa_Meta a \<and> sa_Spec b = sa_Spec a \<and>
     st_ObservedGeneration (sa_Status b) = st_ObservedGeneration (sa_Status a) \<and>
     st_Conditions (sa_Status b) = st_Conditions (sa_Status a)"

lemma cr_kept_refl [simp, intro]: "cr_kept a a"
  by (simp add: cr_kept_def)

lemma cr_kept_trans: "cr_kept a b \<Longrightarrow> cr_kept b c \<Longrightarrow> cr_kept a c"
  by (simp add: cr_kept_def)

locale pipeline_module =
  fixes m :: "('w, 'z) acc_sys_scheme pmodule"
    and P :: "('w, 'z) acc_sys_scheme db_pool"
  assumes observe_effects: "rd_pool d = P \<Longrightarrow> md_Observe m d s = (out, s') \<Longrightarrow>
      emits observe_effect s s' \<and> cr_kept (ac_cr s) (ac_cr s') \<and> cr_locator s' = cr_locator s"
    and apply_abort: "rd_pool d = P \<Longrightarrow> md_Apply m d s = (out, s') \<Longrightarrow> oc_Aborted out \<Longrightarrow>
      oc_State out \<noteq> StateDone"
    and apply_kept: "rd_pool d = P \<Longrightarrow> md_Apply m d s = (out, s') \<Longrightarrow> cr_kept (ac_cr s) (ac_cr s')"
    and teardown_kept: "rd_pool d = P \<Longrightarrow> md_Teardown m d s = (r, s') \<Longrightarrow> cr_kept (ac_cr s) (ac_cr s')"

locale module_list =
  fixes ms :: "('w, 'z) acc_sys_scheme pmodule list"
    and P :: "('w, 'z) acc_sys_scheme db_pool"
  assumes modules: "m \<in> set ms \<Longrightarrow> pipeline_module m P"
begin

text \<open>Observe runs every module and mutates nothing.\<close>

lemma observe_run:
  assumes "rd_pool d = P" and "set ms' \<subseteq> set ms" and "observe_modules ms' d s = (outs, s')"
  shows "emits observe_effect s s' \<and> cr_kept (ac_cr s) (ac_cr s') \<and> cr_locator s' = cr_locator s \<and>
    map oc_Module outs = map md_Name ms'"
  using assms(2,3)
proof (induction ms' arbitrary: s outs)
  case (Cons m ms')
  obtain out s1 where o1: "md_Observe m d s = (out, s1)" by fastforce
  obtain outs2 s2 where o2: "observe_modules ms' d s1 = (outs2, s2)" by fastforce
  from Cons.prems o1 o2 have r: "outs = out\<lparr>oc_Module := md_Name m\<rparr> # outs2" "s' = s2" by auto
  from Cons.prems(1) have "m \<in> set ms" "set ms' \<subseteq> set ms" by simp_all
  from pipeline_module.observe_effects [OF modules [OF this(1)] assms(1) o1]
    Cons.IH [OF this(2) o2 [folded r(2)]] r
  show ?case by (auto intro: emits_trans cr_kept_trans)
qed simp

text \<open>Apply runs a prefix of the modules, and all of them exactly when no outcome aborts; the
  resource's identity is kept.\<close>

lemma apply_run:
  assumes "rd_pool d = P" and "set ms' \<subseteq> set ms" and "apply_modules ms' d s = (outs, s')"
  shows "cr_kept (ac_cr s) (ac_cr s') \<and> map oc_Module outs = take (length outs) (map md_Name ms') \<and>
    (length outs = length ms' \<or> (outs \<noteq> [] \<and> oc_State (last outs) \<noteq> StateDone))"
  using assms(2,3)
proof (induction ms' arbitrary: s outs)
  case (Cons m ms')
  obtain out s1 where a: "md_Apply m d s = (out, s1)" by fastforce
  from Cons.prems(1) have m: "m \<in> set ms" "set ms' \<subseteq> set ms" by simp_all
  note k = pipeline_module.apply_kept [OF modules [OF m(1)] assms(1) a]
  show ?case
  proof (cases "oc_Aborted out")
    case True
    with Cons.prems a have "outs = [out\<lparr>oc_Module := md_Name m\<rparr>]" "s' = s1" by (auto simp: Let_def)
    with k pipeline_module.apply_abort [OF modules [OF m(1)] assms(1) a True] show ?thesis by simp
  next
    case False
    obtain outs2 s2 where a2: "apply_modules ms' d s1 = (outs2, s2)" by fastforce
    with Cons.prems a False have r: "outs = out\<lparr>oc_Module := md_Name m\<rparr> # outs2" "s' = s2"
      by (auto simp: Let_def)
    from Cons.IH [OF m(2) a2 [folded r(2)]] k r show ?thesis by (auto intro: cr_kept_trans)
  qed
qed simp

text \<open>So a run in which every outcome is Done ran every module.\<close>

lemma complete_ran_all:
  assumes "rd_pool d = P" and "apply_modules ms d s = (outs, s')" and "AllDone outs"
  shows "map oc_Module outs = map md_Name ms"
proof -
  from apply_run [OF assms(1) order_refl assms(2)]
  have t: "map oc_Module outs = take (length outs) (map md_Name ms)"
    and l: "length outs = length ms \<or> (outs \<noteq> [] \<and> oc_State (last outs) \<noteq> StateDone)" by auto
  from assms(3) have "outs \<noteq> []" "oc_State (last outs) = StateDone"
    by (auto simp: AllDone_iff list_all_iff)
  with l have "length outs = length ms" by simp
  with t show ?thesis by simp
qed

lemma pipeline_Apply_kept:
  assumes "rd_pool d = P" and "pp_modules p = ms" and "pipeline_Apply X p d s = (r, s')"
  shows "sa_Meta (ac_cr s') = sa_Meta (ac_cr s) \<and> sa_Spec (ac_cr s') = sa_Spec (ac_cr s) \<and>
    st_ObservedGeneration (sa_Status (ac_cr s')) =
      (if result_complete r then om_Generation (sa_Meta (ac_cr s))
       else st_ObservedGeneration (sa_Status (ac_cr s)))"
proof -
  obtain outs s1 where a: "apply_modules ms d s = (outs, s1)" by fastforce
  from apply_run [OF assms(1) order_refl a] have "cr_kept (ac_cr s) (ac_cr s1)" by blast
  with a assms(2,3) show ?thesis
    by (auto simp: pipeline_Apply_def Let_def cr_kept_def SetObservedGeneration_def split: if_splits)
qed

lemma pipeline_Observe_readonly:
  assumes "rd_pool d = P" and "pp_modules p = ms" and "pipeline_Observe X p d s = (obs, s')"
  shows "emits observe_effect s s' \<and> cr_kept (ac_cr s) (ac_cr s') \<and> cr_locator s' = cr_locator s \<and>
    map oc_Module (ob_Outcomes obs) = map md_Name ms"
proof -
  obtain outs s1 where o1: "observe_modules ms d s = (outs, s1)" by fastforce
  with observe_run [OF assms(1) order_refl o1] assms(2,3) show ?thesis
    by (auto simp: pipeline_Observe_def Let_def)
qed

end

text \<open>Teardown order, for any modules.\<close>

lemma teardown_modules_append:
  "teardown_modules (ms @ ms') d s =
     (case teardown_modules ms d s of (Some e, s1) \<Rightarrow> (Some e, s1) | (None, s1) \<Rightarrow> teardown_modules ms' d s1)"
  by (induction ms arbitrary: s) (auto split: prod.splits option.splits)

lemma ready_latched: "ready X True sat outs = xp_Available X"
  by (simp add: ready_def)


end
