(* ===== verification/Go_Net.thy ===== *)
theory Go_Net
  imports Prelude "HOL-Library.Word" "HOL-Library.Code_Target_Numeral"
begin

unbundle bit_operations_syntax

text \<open>
  The part of \<open>net\<close> and \<open>net/netip\<close> behind \<open>net.ParseCIDR\<close> and \<open>IPNet.Contains\<close>, which the
  backplane's containment check is built on.  An address is the byte slice of the library: 4 or
  16 bytes, an IPv4 address also in its 16-byte mapped form.
\<close>

type_synonym ip = "8 word list"

record ip_net =
  net_IP :: ip
  net_Mask :: ip

definition v4InV6Prefix :: ip where
  "v4InV6Prefix = [0, 0, 0, 0, 0, 0, 0, 0, 0, 0, 0xFF, 0xFF]"

definition To4 :: "ip \<Rightarrow> ip option" where
  "To4 x =
     (if length x = 4 then Some x
      else if length x = 16 \<and> take 12 x = v4InV6Prefix then Some (drop 12 x)
      else None)"

subsection \<open>Masks\<close>

text \<open>Byte \<open>i\<close> of a mask with \<open>ones\<close> leading one bits.\<close>

definition mask_byte :: "nat \<Rightarrow> nat \<Rightarrow> 8 word" where
  "mask_byte ones i = NOT (mask (8 - min 8 (ones - 8 * i)))"

definition CIDRMask :: "nat \<Rightarrow> nat \<Rightarrow> ip" where
  "CIDRMask ones bits = map (mask_byte ones) [0..<bits div 8]"

definition and_bytes :: "ip \<Rightarrow> ip \<Rightarrow> ip" where
  "and_bytes xs ms = map2 (AND) xs ms"

text \<open>\<open>IP.Mask\<close>; \<open>None\<close> is the nil of a length mismatch.  ParseCIDR never passes a 16-byte
  mask with a 4-byte address.\<close>

definition ip_Mask :: "ip \<Rightarrow> ip \<Rightarrow> ip option" where
  "ip_Mask x m =
     (let x' = (if length m = 4 \<and> length x = 16 \<and> take 12 x = v4InV6Prefix then drop 12 x else x)
      in if length x' = length m then Some (and_bytes x' m) else None)"

definition networkNumberAndMask :: "ip_net \<Rightarrow> (ip \<times> ip) option" where
  "networkNumberAndMask n =
     (case To4 (net_IP n) of
        Some x \<Rightarrow>
          if length (net_Mask n) = 4 then Some (x, net_Mask n)
          else if length (net_Mask n) = 16 then Some (x, drop 12 (net_Mask n))
          else None
      | None \<Rightarrow>
          if length (net_IP n) = 16 \<and> length (net_Mask n) = 16 then Some (net_IP n, net_Mask n)
          else None)"

definition Contains :: "ip_net \<Rightarrow> ip \<Rightarrow> bool" where
  "Contains n x =
     (case networkNumberAndMask n of
        None \<Rightarrow> False
      | Some (nn, m) \<Rightarrow>
          let x' = (case To4 x of Some y \<Rightarrow> y | None \<Rightarrow> x)
          in length x' = length nn \<and> and_bytes nn m = and_bytes x' m)"

subsection \<open>Parsing addresses\<close>

text \<open>The fields of a dotted quad: decimal, at most 255, no leading zero, four of them.\<close>

definition v4_field :: "string \<Rightarrow> (8 word) option" where
  "v4_field f =
     (case read_nat f of
        None \<Rightarrow> None
      | Some n \<Rightarrow> if n > 255 \<or> (length f > 1 \<and> hd f = CHR ''0'') then None else Some (of_nat n))"

fun split_on :: "char \<Rightarrow> string \<Rightarrow> string list" where
  "split_on c [] = [[]]"
| "split_on c (x # xs) =
     (if x = c then [] # split_on c xs
      else (case split_on c xs of [] \<Rightarrow> [[x]] | f # fs \<Rightarrow> (x # f) # fs))"

definition parseIPv4 :: "string \<Rightarrow> ip option" where
  "parseIPv4 s =
     (let fs = map v4_field (split_on (CHR ''.'') s)
      in if length fs = 4 \<and> list_all (\<lambda>f. f \<noteq> None) fs then Some (map the fs) else None)"

definition hex_value :: "char \<Rightarrow> nat option" where
  "hex_value c =
     (if is_digit c then Some (byte_of c - 48)
      else if in_range 97 102 c then Some (byte_of c - 87)
      else if in_range 65 70 c then Some (byte_of c - 55)
      else None)"

definition hex_group :: "string \<Rightarrow> nat" where
  "hex_group g = foldl (\<lambda>acc c. 16 * acc + the (hex_value c)) 0 g"

text \<open>
  The loop of parseIPv6: the bytes so far and the position of the ellipsis.  Each turn adds
  two bytes (or four, and ends), so eight turns are all the loop's bound \<open>i < 16\<close> allows; what
  is left of the text afterwards is an error of the caller.
\<close>

fun v6_loop :: "nat \<Rightarrow> ip \<Rightarrow> nat option \<Rightarrow> string \<Rightarrow> (ip \<times> nat option \<times> string) option" where
  "v6_loop 0 acc ell s = Some (acc, ell, s)"
| "v6_loop (Suc k) acc ell s =
     (let g = takeWhile (\<lambda>c. hex_value c \<noteq> None) s;
          r = dropWhile (\<lambda>c. hex_value c \<noteq> None) s
      in if length g > 4 \<or> g = [] then None
         else if r \<noteq> [] \<and> hd r = CHR ''.'' then
           if (ell = None \<and> length acc \<noteq> 12) \<or> length acc + 4 > 16 then None
           else (case parseIPv4 s of None \<Rightarrow> None | Some q \<Rightarrow> Some (acc @ q, ell, []))
         else
           let acc' = acc @ [of_nat (hex_group g div 256), of_nat (hex_group g mod 256)]
           in (case r of
                 [] \<Rightarrow> Some (acc', ell, [])
               | c # t \<Rightarrow>
                   if c \<noteq> CHR '':'' \<or> t = [] then None
                   else if hd t = CHR '':'' then
                     if ell \<noteq> None then None
                     else if tl t = [] then Some (acc', Some (length acc'), [])
                     else v6_loop k acc' (Some (length acc')) (tl t)
                   else v6_loop k acc' ell t))"

definition v6_finish :: "ip \<Rightarrow> nat option \<Rightarrow> string \<Rightarrow> ip option" where
  "v6_finish acc ell s =
     (if s \<noteq> [] then None
      else (case ell of
              None \<Rightarrow> if length acc < 16 then None else Some acc
            | Some e \<Rightarrow>
                if length acc < 16 then Some (take e acc @ replicate (16 - length acc) 0 @ drop e acc)
                else None))"

definition parseIPv6 :: "string \<Rightarrow> ip option" where
  "parseIPv6 s =
     (let lead = has_prefix s ''::'';
          s1 = (if lead then drop 2 s else s)
      in if lead \<and> s1 = [] then Some (replicate 16 0)
         else (case v6_loop 8 [] (if lead then Some 0 else None) s1 of
                 None \<Rightarrow> None
               | Some (acc, ell, r) \<Rightarrow> v6_finish acc ell r))"

text \<open>\<open>netip.ParseAddr\<close> without zones, which ParseCIDR refuses: the address as 16 bytes, and
  its bit length.  The first of the three characters decides which parser runs.\<close>

definition v4_mapped :: "ip \<Rightarrow> ip" where
  "v4_mapped q = v4InV6Prefix @ q"

definition ParseAddr :: "string \<Rightarrow> (ip \<times> nat) option" where
  "ParseAddr s =
     (case List.find (\<lambda>c. c = CHR ''.'' \<or> c = CHR '':'' \<or> c = CHR ''%'') s of
        None \<Rightarrow> None
      | Some c \<Rightarrow>
          if c = CHR ''.'' then map_option (\<lambda>q. (v4_mapped q, 32)) (parseIPv4 s)
          else if c = CHR '':'' \<and> CHR ''%'' \<notin> set s then map_option (\<lambda>x. (x, 128)) (parseIPv6 s)
          else None)"

definition ParseCIDR :: "string \<Rightarrow> (ip \<times> ip_net) option" where
  "ParseCIDR s =
     (case index_byte s (CHR ''/'') of
        None \<Rightarrow> None
      | Some i \<Rightarrow>
          (case ParseAddr (take i s) of
             None \<Rightarrow> None
           | Some (addr16, bitlen) \<Rightarrow>
               (case read_nat (drop (i + 1) s) of
                  None \<Rightarrow> None
                | Some n \<Rightarrow>
                    if n > bitlen then None
                    else let m = CIDRMask n bitlen
                         in Some (addr16, \<lparr>net_IP = the (ip_Mask addr16 m), net_Mask = m\<rparr>))))"

text \<open>\<open>IPMask.Size\<close>, its first result: the leading ones of a canonical mask.\<close>

definition byte_bits :: "8 word \<Rightarrow> bool list" where
  "byte_bits b = map (bit b) [7, 6, 5, 4, 3, 2, 1, 0]"

definition mask_ones :: "ip \<Rightarrow> nat" where
  "mask_ones m = length (takeWhile (\<lambda>b. b) (concat (map byte_bits m)))"

lemma length_CIDRMask [simp]: "length (CIDRMask ones bits) = bits div 8"
  by (simp add: CIDRMask_def)

lemma bit_mask_byte: "b < 8 \<Longrightarrow> bit (mask_byte ones i) b \<longleftrightarrow> 8 * i + (7 - b) < ones"
  by (auto simp: mask_byte_def bit_not_iff bit_mask_iff)

lemma byte_bits_mask: "byte_bits (mask_byte ones i) = map (\<lambda>j. j < ones) [8 * i..<8 * i + 8]"
proof -
  have "[8 * i..<8 * i + 8] = map (\<lambda>j. 8 * i + j) [0, 1, 2, 3, 4, 5, 6, 7]"
    by (simp add: upt_conv_Cons eval_nat_numeral)
  then show ?thesis by (simp add: byte_bits_def bit_mask_byte)
qed

lemma concat_mask_bits:
  "concat (map (\<lambda>i. byte_bits (mask_byte ones i)) [0..<k]) = map (\<lambda>j. j < ones) [0..<8 * k]"
proof (induction k)
  case (Suc k)
  have "[0..<8 * Suc k] = [0..<8 * k] @ [8 * k..<8 * k + 8]"
    by (metis add.commute mult_Suc_right upt_add_eq_append zero_le)
  with Suc show ?case by (simp add: byte_bits_mask)
qed simp

lemma takeWhile_less: "length (takeWhile (\<lambda>b. b) (map (\<lambda>j. j < n) [0..<m])) = min n m"
proof (induction m)
  case (Suc m)
  show ?case
  proof (cases "m \<le> n")
    case True
    then have "takeWhile (\<lambda>b. b) (map (\<lambda>j. j < n) [0..<m] @ [m < n]) =
        map (\<lambda>j. j < n) [0..<m] @ takeWhile (\<lambda>b. b) [m < n]"
      by (intro takeWhile_append2) auto
    with True show ?thesis by auto
  next
    case False
    then have "False \<in> set (map (\<lambda>j. j < n) [0..<m])" by (auto intro!: image_eqI [of _ _ n])
    then have "takeWhile (\<lambda>b. b) (map (\<lambda>j. j < n) [0..<m] @ [m < n]) =
        takeWhile (\<lambda>b. b) (map (\<lambda>j. j < n) [0..<m])"
      by (intro takeWhile_append1) auto
    with Suc False show ?thesis by simp
  qed
qed simp

lemma mask_ones_CIDRMask:
  "8 dvd bits \<Longrightarrow> ones \<le> bits \<Longrightarrow> mask_ones (CIDRMask ones bits) = ones"
  using takeWhile_less [of ones "8 * (bits div 8)"] concat_mask_bits [of ones "bits div 8"]
  by (simp add: mask_ones_def CIDRMask_def comp_def)

subsection \<open>A longer mask fixes more\<close>

lemma mask_byte_mono:
  assumes "a \<le> b"
  shows "mask_byte b i AND mask_byte a i = mask_byte a i"
proof (rule bit_eqI)
  fix n assume "possible_bit TYPE(8 word) n"
  then have "n < 8" by simp
  with assms show "bit (mask_byte b i AND mask_byte a i) n \<longleftrightarrow> bit (mask_byte a i) n"
    by (auto simp: bit_and_iff bit_mask_byte)
qed

lemma length_and_bytes [simp]: "length (and_bytes xs ms) = min (length xs) (length ms)"
  by (simp add: and_bytes_def)

lemma nth_and_bytes: "i < length xs \<Longrightarrow> i < length ms \<Longrightarrow> and_bytes xs ms ! i = xs ! i AND ms ! i"
  by (simp add: and_bytes_def)

lemma and_bytes_mono:
  assumes eq: "and_bytes xs (CIDRMask b bits) = and_bytes ys (CIDRMask b bits)"
    and "a \<le> b" and len: "length xs = bits div 8" "length ys = bits div 8"
  shows "and_bytes xs (CIDRMask a bits) = and_bytes ys (CIDRMask a bits)"
proof (rule nth_equalityI)
  fix i assume "i < length (and_bytes xs (CIDRMask a bits))"
  then have i: "i < bits div 8" by simp
  have "xs ! i AND mask_byte b i = ys ! i AND mask_byte b i"
    using arg_cong [OF eq, of "\<lambda>z. z ! i"] i len by (simp add: nth_and_bytes CIDRMask_def)
  then have "xs ! i AND (mask_byte b i AND mask_byte a i) = ys ! i AND (mask_byte b i AND mask_byte a i)"
    by (simp add: and.assoc [symmetric])
  then have "xs ! i AND mask_byte a i = ys ! i AND mask_byte a i"
    using mask_byte_mono [OF \<open>a \<le> b\<close>] by simp
  then show "and_bytes xs (CIDRMask a bits) ! i = and_bytes ys (CIDRMask a bits) ! i"
    using i len by (simp add: nth_and_bytes CIDRMask_def)
qed (use len in simp)

lemma and_bytes_idem: "and_bytes (and_bytes xs ms) ms = and_bytes xs ms"
  by (intro nth_equalityI) (auto simp: nth_and_bytes and.assoc)

subsection \<open>What ParseCIDR returns\<close>

lemma length_parseIPv4: "parseIPv4 s = Some q \<Longrightarrow> length q = 4"
  by (auto simp: parseIPv4_def Let_def split: if_splits)

lemma v6_loop_length:
  "v6_loop k acc ell s = Some (acc', ell', r) \<Longrightarrow> length acc + 2 * k \<le> 16 \<Longrightarrow>
     (\<forall>e. ell = Some e \<longrightarrow> e \<le> length acc) \<Longrightarrow>
     length acc' \<le> 16 \<and> (\<forall>e. ell' = Some e \<longrightarrow> e \<le> length acc')"
proof (induction k acc ell s rule: v6_loop.induct)
  case (2 k acc ell s)
  show ?case
    using "2.prems" "2.IH"
    by (auto simp: Let_def dest!: length_parseIPv4 split: if_splits option.splits list.splits)
      (fastforce+)?
qed auto

lemma length_parseIPv6:
  assumes "parseIPv6 s = Some x"
  shows "length x = 16"
proof (cases "has_prefix s ''::'' \<and> drop 2 s = []")
  case True
  with assms show ?thesis by (auto simp: parseIPv6_def)
next
  case False
  with assms obtain acc ell r where l: "v6_loop 8 [] (if has_prefix s ''::'' then Some 0 else None)
        (if has_prefix s ''::'' then drop 2 s else s) = Some (acc, ell, r)"
      and f: "v6_finish acc ell r = Some x"
    by (auto simp: parseIPv6_def Let_def split: option.splits prod.splits if_splits)
  from v6_loop_length [OF l] have "length acc \<le> 16" "\<forall>e. ell = Some e \<longrightarrow> e \<le> length acc"
    by (auto split: if_splits)
  with f show ?thesis by (auto simp: v6_finish_def split: if_splits option.splits)
qed

text \<open>An address with its family: 4 bytes for IPv4, 16 for IPv6.\<close>

lemma ParseAddr_Some:
  assumes "ParseAddr s = Some (x, bitlen)"
  shows "(bitlen = 32 \<and> (\<exists>q. length q = 4 \<and> x = v4_mapped q)) \<or> (bitlen = 128 \<and> length x = 16)"
  using assms
  by (auto simp: ParseAddr_def dest: length_parseIPv4 length_parseIPv6 split: option.splits if_splits)

lemma ParseCIDR_Some:
  assumes "ParseCIDR s = Some (x, n)"
  obtains (v4) q ones where "length q = 4" "x = v4_mapped q" "ones \<le> 32"
      "n = \<lparr>net_IP = and_bytes q (CIDRMask ones 32), net_Mask = CIDRMask ones 32\<rparr>"
  | (v6) ones where "length x = 16" "ones \<le> 128"
      "n = \<lparr>net_IP = and_bytes x (CIDRMask ones 128), net_Mask = CIDRMask ones 128\<rparr>"
proof -
  from assms obtain a bitlen ones where a: "ParseAddr a = Some (x, bitlen)" "ones \<le> bitlen"
      "n = \<lparr>net_IP = the (ip_Mask x (CIDRMask ones bitlen)), net_Mask = CIDRMask ones bitlen\<rparr>"
    unfolding ParseCIDR_def Let_def
    by (simp split: option.splits prod.splits if_splits) (metis not_less)
  from ParseAddr_Some [OF a(1)] show thesis
  proof (elim disjE conjE exE)
    fix q assume "bitlen = 32" "length q = 4" "x = v4_mapped q"
    with a v4 [of q ones] show thesis
      by (simp add: ip_Mask_def Let_def v4_mapped_def v4InV6Prefix_def)
  next
    assume "bitlen = 128" "length x = 16"
    with a v6 [of ones] show thesis by (simp add: ip_Mask_def Let_def)
  qed
qed


end
