(* ===== verification/Backplane.thy ===== *)
theory Backplane
  imports BaseConfig Go_Net "HOL-Library.List_Lexorder" "HOL-Library.Char_ord"
begin

text \<open>
  \<open>internal/config/backplane/backplane.go\<close>: the catalog of regions.  Reading and decoding the
  file are parameters; the order in which regions are validated, every check of a region, the
  lookups and the containment rule for address ranges are modelled.  A Go map that is only
  looked up is a partial function; the decoded regions, which are also enumerated, are an
  association list with each name once.
\<close>

type_synonym params = "string \<Rightarrow> string option"

record connection =
  cn_Name :: string
  cn_Type :: string
  cn_VpceID :: string
  cn_MaxCidrs :: "string list"

record allowlistEntry =
  al_Connection :: string
  al_AllowedIPs :: "string list"

record region =
  rg_Available :: bool
  rg_Inventory :: "connection list"
  rg_RegionalParameters :: params
  rg_RegionalAllowlist :: "allowlistEntry list"

record backplane =
  bp_GlobalParameters :: params
  bp_Regions :: "string \<Rightarrow> region option"

record rawConnection =
  rc_Connection :: string
  rc_Type :: string
  rc_VpceID :: string
  rc_MaxCidrs :: "string list"

record rawRegion =
  rr_Available :: "bool option"
  rr_Inventory :: "rawConnection list"
  rr_RegionalParameters :: "params option"
  rr_RegionalAllowlist :: "allowlistEntry list"
    \<comment> \<open>\<open>rawAllowlistEntry\<close> has the fields of \<open>AllowlistEntry\<close> and is converted to it\<close>

record rawBackplane =
  rb_GlobalParameters :: "params option"
  rb_Regions :: "(string \<times> rawRegion) list"

record backplane_io =
  bio_read :: "string \<Rightarrow> string \<Rightarrow> file_read"
  bio_unmarshal :: "string \<Rightarrow> rawBackplane result"

subsection \<open>Address ranges\<close>

definition cidr_error :: "string \<Rightarrow> gerror" where
  "cidr_error c = NewUserError ([squote] @ c @ [squote] @ '' is not a valid CIDR'')"

fun contained_in_any :: "ip \<Rightarrow> nat \<Rightarrow> string list \<Rightarrow> bool result" where
  "contained_in_any candidateIP candidateOnes [] = Inr False"
| "contained_in_any candidateIP candidateOnes (r # rs) =
     (case ParseCIDR r of
        None \<Rightarrow> Inl (cidr_error r)
      | Some (_, rangeNet) \<Rightarrow>
          if candidateOnes \<ge> mask_ones (net_Mask rangeNet) \<and> Contains rangeNet candidateIP
          then Inr True else contained_in_any candidateIP candidateOnes rs)"

definition ContainsCIDR :: "string list \<Rightarrow> string \<Rightarrow> bool result" where
  "ContainsCIDR ranges candidate =
     (case ParseCIDR candidate of
        None \<Rightarrow> Inl (cidr_error candidate)
      | Some (candidateIP, candidateNet) \<Rightarrow>
          contained_in_any candidateIP (mask_ones (net_Mask candidateNet)) ranges)"

subsection \<open>Loading one region\<close>

definition inventory_path :: "string \<Rightarrow> nat \<Rightarrow> string" where
  "inventory_path regionName idx = ''regions.'' @ regionName @ ''.inventory['' @ show_nat idx @ '']''"

definition missing_connection_error :: "string \<Rightarrow> nat \<Rightarrow> gerror" where
  "missing_connection_error regionName idx =
     plain_error (inventory_path regionName idx @ ''.connection is required'')"

definition missing_type_error :: "string \<Rightarrow> nat \<Rightarrow> gerror" where
  "missing_type_error regionName idx =
     plain_error (inventory_path regionName idx @ ''.type is required'')"

definition duplicate_connection_error :: "string \<Rightarrow> string \<Rightarrow> gerror" where
  "duplicate_connection_error regionName c =
     plain_error (''regions.'' @ regionName @ ''.inventory contains connection '' @ [squote] @ c @
       [squote] @ '' more than once'')"

definition max_cidr_error :: "string \<Rightarrow> nat \<Rightarrow> string \<Rightarrow> gerror" where
  "max_cidr_error regionName idx cidr =
     plain_error (inventory_path regionName idx @ ''.maxCidrs '' @ [squote] @ cidr @ [squote] @
       '' is not a valid CIDR'')"

definition first_bad_cidr :: "string list \<Rightarrow> string option" where
  "first_bad_cidr cs = List.find (\<lambda>c. ParseCIDR c = None) cs"

fun load_inventory ::
  "string \<Rightarrow> nat \<Rightarrow> string list \<Rightarrow> rawConnection list \<Rightarrow> connection list result" where
  "load_inventory regionName idx seen [] = Inr []"
| "load_inventory regionName idx seen (rc # rcs) =
     (if rc_Connection rc = [] then Inl (missing_connection_error regionName idx)
      else if rc_Type rc = [] then Inl (missing_type_error regionName idx)
      else if rc_Connection rc \<in> set seen
        then Inl (duplicate_connection_error regionName (rc_Connection rc))
      else (case first_bad_cidr (rc_MaxCidrs rc) of
              Some cidr \<Rightarrow> Inl (max_cidr_error regionName idx cidr)
            | None \<Rightarrow>
                and_then (load_inventory regionName (idx + 1) (rc_Connection rc # seen) rcs) (\<lambda>inventory.
                Inr (\<lparr>cn_Name = rc_Connection rc, cn_Type = rc_Type rc, cn_VpceID = rc_VpceID rc,
                      cn_MaxCidrs = rc_MaxCidrs rc\<rparr> # inventory))))"

definition allowlist_path :: "string \<Rightarrow> string" where
  "allowlist_path regionName = ''regions.'' @ regionName @ ''.regionalAllowlist''"

definition unknown_connection_error :: "string \<Rightarrow> string \<Rightarrow> gerror" where
  "unknown_connection_error regionName c =
     plain_error (allowlist_path regionName @ '' references unknown connection '' @
       [squote] @ c @ [squote])"

definition allowed_cidr_error :: "string \<Rightarrow> string \<Rightarrow> string \<Rightarrow> gerror" where
  "allowed_cidr_error regionName c i =
     plain_error (allowlist_path regionName @ '' connection '' @ [squote] @ c @ [squote] @
       '' allowedIPs '' @ [squote] @ i @ [squote] @ '' is not a valid CIDR'')"

definition nothing_to_narrow_error :: "string \<Rightarrow> string \<Rightarrow> gerror" where
  "nothing_to_narrow_error regionName c =
     plain_error (allowlist_path regionName @ '' connection '' @ [squote] @ c @ [squote] @
       '' specifies allowedIPs but this connection has no maxCidrs to narrow'')"

definition not_contained_error :: "string \<Rightarrow> string \<Rightarrow> string \<Rightarrow> string list \<Rightarrow> gerror" where
  "not_contained_error regionName c i maxCidrs =
     plain_error (allowlist_path regionName @ '' connection '' @ [squote] @ c @ [squote] @
       '' allowedIPs '' @ [squote] @ i @ [squote] @ '' is not contained within maxCidrs ['' @
       str_join '' '' maxCidrs @ '']'')"

definition check_allowlist_entry ::
  "string \<Rightarrow> (string \<Rightarrow> connection option) \<Rightarrow> allowlistEntry \<Rightarrow> gerror option" where
  "check_allowlist_entry regionName connByName ra =
     (case connByName (al_Connection ra) of
        None \<Rightarrow> Some (unknown_connection_error regionName (al_Connection ra))
      | Some conn \<Rightarrow>
          (case first_bad_cidr (al_AllowedIPs ra) of
             Some i \<Rightarrow> Some (allowed_cidr_error regionName (al_Connection ra) i)
           | None \<Rightarrow>
               if al_AllowedIPs ra \<noteq> [] \<and> cn_MaxCidrs conn = []
               then Some (nothing_to_narrow_error regionName (al_Connection ra))
               else (case List.find (\<lambda>i. ContainsCIDR (cn_MaxCidrs conn) i \<noteq> Inr True)
                            (al_AllowedIPs ra) of
                       Some i \<Rightarrow> Some (not_contained_error regionName (al_Connection ra) i
                                   (cn_MaxCidrs conn))
                     | None \<Rightarrow> None)))"

definition connByName :: "connection list \<Rightarrow> string \<Rightarrow> connection option" where
  "connByName inventory = map_of (rev (map (\<lambda>c. (cn_Name c, c)) inventory))"

definition no_params :: params where
  "no_params = (\<lambda>_. None)"

definition loadRegion :: "string \<Rightarrow> rawRegion \<Rightarrow> region result" where
  "loadRegion regionName rr =
     and_then (load_inventory regionName 0 [] (rr_Inventory rr)) (\<lambda>inventory.
     (case first_error (map (check_allowlist_entry regionName (connByName inventory))
             (rr_RegionalAllowlist rr)) of
        Some e \<Rightarrow> Inl e
      | None \<Rightarrow>
          Inr \<lparr>rg_Available = deref (rr_Available rr) False,
               rg_Inventory = inventory,
               rg_RegionalParameters = deref (rr_RegionalParameters rr) no_params,
               rg_RegionalAllowlist = rr_RegionalAllowlist rr\<rparr>))"

fun load_regions ::
  "(string \<times> rawRegion) list \<Rightarrow> string list \<Rightarrow> (string \<Rightarrow> region option) \<Rightarrow> (string \<Rightarrow> region option) result" where
  "load_regions raws [] regions = Inr regions"
| "load_regions raws (name # names) regions =
     (case map_of raws name of
        None \<Rightarrow> load_regions raws names regions
      | Some rr \<Rightarrow>
          and_then (loadRegion name rr) (\<lambda>region. load_regions raws names (regions(name \<mapsto> region))))"

definition backplane_Load :: "backplane_io \<Rightarrow> string \<Rightarrow> backplane result" where
  "backplane_Load io configDir =
     (case bio_read io configDir ''backplane.yaml'' of
        FileNotExist e \<Rightarrow> Inl (plain_error (''backplane.yaml not found in '' @ configDir))
      | FileError e \<Rightarrow> Inl (wrap ''reading backplane.yaml: '' e)
      | FileData data \<Rightarrow>
          (case bio_unmarshal io data of
             Inl e \<Rightarrow> Inl (wrap ''failed to parse backplane.yaml: '' e)
           | Inr raw \<Rightarrow>
               and_then (load_regions (rb_Regions raw) (sort (map fst (rb_Regions raw))) (\<lambda>_. None))
                 (\<lambda>regions.
               Inr \<lparr>bp_GlobalParameters = deref (rb_GlobalParameters raw) no_params,
                    bp_Regions = regions\<rparr>)))"

subsection \<open>Lookups\<close>

definition region_unavailable_error :: "string \<Rightarrow> gerror" where
  "region_unavailable_error name =
     NewUserError (''region '' @ [squote] @ name @ [squote] @
       '' is not yet available; choose a different one'')"

definition Region :: "backplane \<Rightarrow> string \<Rightarrow> region result" where
  "Region c name =
     (case bp_Regions c name of
        None \<Rightarrow> Inl (region_unavailable_error name)
      | Some region \<Rightarrow> Inr region)"

definition Connection :: "region \<Rightarrow> string \<Rightarrow> connection option" where
  "Connection r name = List.find (\<lambda>c. cn_Name c = name) (rg_Inventory r)"

subsection \<open>Containment is inclusion\<close>

text \<open>An IPv4 net and a 16-byte net are of different families; a 16-byte net of mapped
  addresses belongs to the latter.\<close>

definition same_family :: "ip_net \<Rightarrow> ip_net \<Rightarrow> bool" where
  "same_family a b \<longleftrightarrow> length (net_Mask a) = length (net_Mask b)"

lemma To4_length4: "length x = 4 \<Longrightarrow> To4 x = Some x"
  by (simp add: To4_def)

lemma To4_mapped: "length q = 4 \<Longrightarrow> To4 (v4_mapped q) = Some q"
  by (simp add: To4_def v4_mapped_def v4InV6Prefix_def)

lemma To4_Some16: "length x = 16 \<Longrightarrow> To4 x = Some y \<longleftrightarrow> take 12 x = v4InV6Prefix \<and> y = drop 12 x"
  by (auto simp: To4_def)

text \<open>An address is compared in its shortest form.\<close>

definition short :: "ip \<Rightarrow> ip" where
  "short x = (case To4 x of Some y \<Rightarrow> y | None \<Rightarrow> x)"

lemma Contains_v4:
  assumes "length q = 4"
  shows "Contains \<lparr>net_IP = and_bytes q (CIDRMask ones 32), net_Mask = CIDRMask ones 32\<rparr> x \<longleftrightarrow>
    length (short x) = 4 \<and> and_bytes q (CIDRMask ones 32) = and_bytes (short x) (CIDRMask ones 32)"
  using assms
  by (auto simp: Contains_def networkNumberAndMask_def To4_length4 short_def Let_def and_bytes_idem)

lemma mask_byte_full: "8 * i + 8 \<le> ones \<Longrightarrow> mask_byte ones i = - 1"
  by (rule bit_eqI) (simp add: bit_mask_byte)

lemma mask_byte_partial: "ones < 8 * i + 8 \<Longrightarrow> x AND mask_byte ones i \<noteq> 0xFF"
proof
  assume lt: "ones < 8 * i + 8" and eq: "x AND mask_byte ones i = 0xFF"
  from lt have "\<not> bit (x AND mask_byte ones i) 0" by (simp add: bit_and_iff bit_mask_byte)
  moreover have "bit (0xFF :: 8 word) 0" by (simp add: bit_0)
  ultimately show False using eq by simp
qed

lemma CIDRMask_split:
  "96 \<le> ones \<Longrightarrow> take 12 (CIDRMask ones 128) = replicate 12 (- 1) \<and>
     drop 12 (CIDRMask ones 128) = CIDRMask (ones - 96) 32"
proof
  assume "96 \<le> ones"
  then show "take 12 (CIDRMask ones 128) = replicate 12 (- 1)"
    by (intro nth_equalityI) (auto simp: CIDRMask_def mask_byte_full)
  show "drop 12 (CIDRMask ones 128) = CIDRMask (ones - 96) 32"
    by (intro nth_equalityI) (auto simp: CIDRMask_def mask_byte_def algebra_simps)
qed

lemma and_bytes_full: "length xs = n \<Longrightarrow> and_bytes xs (replicate n (- 1)) = xs"
  by (intro nth_equalityI) (auto simp: nth_and_bytes)

lemma and_bytes_take: "take n (and_bytes xs ms) = and_bytes (take n xs) (take n ms)"
  by (simp add: and_bytes_def take_map take_zip)

lemma and_bytes_drop: "drop n (and_bytes xs ms) = and_bytes (drop n xs) (drop n ms)"
  by (simp add: and_bytes_def drop_map drop_zip)

text \<open>A masked 16-byte address is a mapped one exactly when the address is, under a mask of at
  least 96 bits.\<close>

lemma To4_masked:
  assumes "length x = 16"
  shows "To4 (and_bytes x (CIDRMask ones 128)) =
    (if 96 \<le> ones then map_option (\<lambda>q. and_bytes q (CIDRMask (ones - 96) 32)) (To4 x) else None)"
proof (cases "96 \<le> ones")
  case True
  from CIDRMask_split [OF True] assms
  have t: "take 12 (and_bytes x (CIDRMask ones 128)) = take 12 x"
    and d: "drop 12 (and_bytes x (CIDRMask ones 128)) = and_bytes (drop 12 x) (CIDRMask (ones - 96) 32)"
    by (simp_all add: and_bytes_take and_bytes_drop and_bytes_full)
  show ?thesis using True assms t d by (simp add: To4_def)
next
  case False
  have "take 12 (and_bytes x (CIDRMask ones 128)) \<noteq> v4InV6Prefix"
  proof
    assume "take 12 (and_bytes x (CIDRMask ones 128)) = v4InV6Prefix"
    then have "take 12 (and_bytes x (CIDRMask ones 128)) ! 11 = v4InV6Prefix ! 11" by simp
    then have "x ! 11 AND mask_byte ones 11 = 0xFF"
      using assms by (simp add: nth_and_bytes CIDRMask_def v4InV6Prefix_def)
    with mask_byte_partial [of ones 11 "x ! 11"] False show False by simp
  qed
  with False assms show ?thesis by (simp add: To4_def)
qed

lemma Contains_v6:
  assumes "length x = 16" and "ones \<le> 128"
  shows "Contains \<lparr>net_IP = and_bytes x (CIDRMask ones 128), net_Mask = CIDRMask ones 128\<rparr> y \<longleftrightarrow>
    (if 96 \<le> ones \<and> To4 x \<noteq> None
     then length (short y) = 4 \<and> and_bytes (short x) (CIDRMask (ones - 96) 32) =
       and_bytes (short y) (CIDRMask (ones - 96) 32)
     else length (short y) = 16 \<and> and_bytes x (CIDRMask ones 128) = and_bytes (short y) (CIDRMask ones 128))"
proof -
  have len: "length q = 4" if "To4 x = Some q" for q
    using that assms(1) by (auto simp: To4_Some16)
  show ?thesis
    using assms CIDRMask_split [of ones] len
    by (auto simp: Contains_def networkNumberAndMask_def To4_masked short_def Let_def and_bytes_idem
        split: option.splits)
qed

lemma short_length: "length x = 16 \<Longrightarrow> length (short x) = (if To4 x = None then 16 else 4)"
  by (auto simp: short_def To4_def)

lemma v6_inclusion:
  assumes "length x = 16" "length y = 16" and "a \<le> b" "b \<le> 128"
    and "Contains \<lparr>net_IP = and_bytes y (CIDRMask a 128), net_Mask = CIDRMask a 128\<rparr> x"
    and "Contains \<lparr>net_IP = and_bytes x (CIDRMask b 128), net_Mask = CIDRMask b 128\<rparr> z"
  shows "Contains \<lparr>net_IP = and_bytes y (CIDRMask a 128), net_Mask = CIDRMask a 128\<rparr> z"
proof (cases "96 \<le> a \<and> To4 y \<noteq> None")
  case True
  from True assms have r: "length (short x) = 4"
      "and_bytes (short y) (CIDRMask (a - 96) 32) = and_bytes (short x) (CIDRMask (a - 96) 32)"
    using Contains_v6 [of y a x] by auto
  with short_length [of x] assms(1) have x4: "To4 x \<noteq> None" by (auto split: if_splits)
  with True assms have c: "length (short z) = 4"
      "and_bytes (short x) (CIDRMask (b - 96) 32) = and_bytes (short z) (CIDRMask (b - 96) 32)"
    using Contains_v6 [of x b z] by auto
  have "and_bytes (short x) (CIDRMask (a - 96) 32) = and_bytes (short z) (CIDRMask (a - 96) 32)"
    using c r(1) \<open>a \<le> b\<close> by (intro and_bytes_mono [OF c(2)]) auto
  with r(2) c(1) True assms show ?thesis using Contains_v6 [of y a z] by auto
next
  case False
  with assms have r: "length (short x) = 16"
      "and_bytes y (CIDRMask a 128) = and_bytes (short x) (CIDRMask a 128)"
    using Contains_v6 [of y a x] by (auto split: if_splits)
  with short_length [of x] assms(1) have x16: "To4 x = None" by (auto split: if_splits)
  then have sx: "short x = x" by (simp add: short_def)
  from x16 assms have c: "length (short z) = 16"
      "and_bytes x (CIDRMask b 128) = and_bytes (short z) (CIDRMask b 128)"
    using Contains_v6 [of x b z] by auto
  have "and_bytes x (CIDRMask a 128) = and_bytes (short z) (CIDRMask a 128)"
    using c assms(1) \<open>a \<le> b\<close> by (intro and_bytes_mono [OF c(2)]) auto
  with r(2) c(1) sx False assms show ?thesis using Contains_v6 [of y a z] by auto
qed

lemma v4_inclusion:
  assumes "length q = 4" "length p = 4" and "a \<le> b"
    and "Contains \<lparr>net_IP = and_bytes p (CIDRMask a 32), net_Mask = CIDRMask a 32\<rparr> (v4_mapped q)"
    and "Contains \<lparr>net_IP = and_bytes q (CIDRMask b 32), net_Mask = CIDRMask b 32\<rparr> z"
  shows "Contains \<lparr>net_IP = and_bytes p (CIDRMask a 32), net_Mask = CIDRMask a 32\<rparr> z"
proof -
  have sq: "short (v4_mapped q) = q" using assms(1) by (simp add: short_def To4_mapped)
  from assms(1,2,4) sq have r: "and_bytes p (CIDRMask a 32) = and_bytes q (CIDRMask a 32)"
    by (simp add: Contains_v4)
  from assms(1,5) have c: "length (short z) = 4"
      "and_bytes q (CIDRMask b 32) = and_bytes (short z) (CIDRMask b 32)"
    by (simp_all add: Contains_v4)
  have "and_bytes q (CIDRMask a 32) = and_bytes (short z) (CIDRMask a 32)"
    using c assms(1,3) by (intro and_bytes_mono [OF c(2)]) auto
  with r c(1) assms(2) show ?thesis by (simp add: Contains_v4)
qed

lemma same_family_inclusion:
  assumes "ParseCIDR c = Some (ci, cn)" and "ParseCIDR r = Some (ri, rn)" and "same_family cn rn"
    and "mask_ones (net_Mask rn) \<le> mask_ones (net_Mask cn)" and "Contains rn ci"
    and "Contains cn z"
  shows "Contains rn z"
  using assms(1)
proof (cases rule: ParseCIDR_Some)
  case c4: (v4 q b)
  from assms(2) show ?thesis
  proof (cases rule: ParseCIDR_Some)
    case (v4 p a)
    with c4 assms(4) have "a \<le> b" by (simp add: mask_ones_CIDRMask)
    with v4_inclusion [of q p a b z] c4 v4 assms(5,6) show ?thesis by simp
  next
    case (v6 a)
    with c4 assms(3) show ?thesis by (simp add: same_family_def)
  qed
next
  case c6: (v6 b)
  from assms(2) show ?thesis
  proof (cases rule: ParseCIDR_Some)
    case (v4 p a)
    with c6 assms(3) show ?thesis by (simp add: same_family_def)
  next
    case (v6 a)
    with c6 assms(4) have "a \<le> b" by (simp add: mask_ones_CIDRMask)
    with v6_inclusion [of ci ri a b z] c6 v6 assms(5,6) show ?thesis by simp
  qed
qed

lemma contained_in_any_True:
  "contained_in_any ci ones rs = Inr True \<Longrightarrow>
     \<exists>r ri rn. r \<in> set rs \<and> ParseCIDR r = Some (ri, rn) \<and> mask_ones (net_Mask rn) \<le> ones \<and> Contains rn ci"
  by (induction rs) (fastforce split: option.splits prod.splits if_splits)+

lemma ContainsCIDR_True:
  assumes "ContainsCIDR ranges c = Inr True"
  obtains ci cn r ri rn where "ParseCIDR c = Some (ci, cn)" "r \<in> set ranges" "ParseCIDR r = Some (ri, rn)"
    "mask_ones (net_Mask rn) \<le> mask_ones (net_Mask cn)" "Contains rn ci"
  using assms contained_in_any_True
  by (auto simp: ContainsCIDR_def split: option.splits prod.splits) blast


text \<open>What the check ought to mean: every address of the candidate is an address of the range.\<close>

definition covers :: "string \<Rightarrow> string \<Rightarrow> bool" where
  "covers r candidate \<longleftrightarrow>
     (\<exists>ci cn ri rn. ParseCIDR candidate = Some (ci, cn) \<and> ParseCIDR r = Some (ri, rn) \<and>
        (\<forall>address. Contains cn address \<longrightarrow> Contains rn address))"

text \<open>The one notation in which it does not mean this: the candidate is a range of IPv4-mapped
  addresses, written as an IPv6 range, and a permitted range is written as an IPv4 one.\<close>

definition ipv4_range :: "string \<Rightarrow> bool" where
  "ipv4_range r = (case ParseCIDR r of Some (_, n) \<Rightarrow> length (net_Mask n) = 4 | None \<Rightarrow> False)"

definition mapped_range :: "string \<Rightarrow> bool" where
  "mapped_range r =
     (case ParseCIDR r of Some (i, n) \<Rightarrow> length (net_Mask n) = 16 \<and> To4 i \<noteq> None | None \<Rightarrow> False)"

definition mixed_notation :: "string list \<Rightarrow> string \<Rightarrow> bool" where
  "mixed_notation ranges candidate \<longleftrightarrow> mapped_range candidate \<and> list_ex ipv4_range ranges"

text \<open>An IPv4 range is never accepted under an IPv6 one: the prefix of an IPv4 range is too short to
  lie in the mapped addresses, and shorter IPv6 ranges hold no IPv4 address.\<close>

lemma v4_not_in_v6:
  assumes "length q = 4" "length y = 16" "a \<le> b" "b \<le> 32"
  shows "\<not> Contains \<lparr>net_IP = and_bytes y (CIDRMask a 128), net_Mask = CIDRMask a 128\<rparr> (v4_mapped q)"
  using assms Contains_v6 [of y a "v4_mapped q"] by (simp add: short_def To4_mapped)

lemma v6_not_in_v4:
  assumes "length x = 16" "To4 x = None" "length p = 4"
  shows "\<not> Contains \<lparr>net_IP = and_bytes p (CIDRMask a 32), net_Mask = CIDRMask a 32\<rparr> x"
  using assms by (simp add: Contains_v4 short_def)

lemma accepted_same_family:
  assumes c: "ParseCIDR c = Some (ci, cn)" and r: "ParseCIDR r = Some (ri, rn)"
    and "mask_ones (net_Mask rn) \<le> mask_ones (net_Mask cn)" and "Contains rn ci"
    and m: "\<not> (mapped_range c \<and> ipv4_range r)"
  shows "same_family cn rn"
  using c
proof (cases rule: ParseCIDR_Some)
  case c4: (v4 q b)
  from r show ?thesis
  proof (cases rule: ParseCIDR_Some)
    case (v4 p a)
    with c4 show ?thesis by (simp add: same_family_def)
  next
    case (v6 a)
    with c4 assms(3) have "a \<le> b" by (simp add: mask_ones_CIDRMask)
    with v4_not_in_v6 [of q ri a b] c4 v6 assms(4) show ?thesis by simp
  qed
next
  case c6: (v6 b)
  from r show ?thesis
  proof (cases rule: ParseCIDR_Some)
    case (v4 p a)
    with m c r c6 have "To4 ci = None" by (simp add: mapped_range_def ipv4_range_def)
    with v6_not_in_v4 [of ci p a] c6 v4 assms(4) show ?thesis by simp
  next
    case (v6 a)
    with c6 show ?thesis by (simp add: same_family_def)
  qed
qed

lemma accepted_covered:
  assumes "ContainsCIDR ranges candidate = Inr True" and "\<not> mixed_notation ranges candidate"
  shows "\<exists>r \<in> set ranges. covers r candidate"
proof -
  from ContainsCIDR_True [OF assms(1)] obtain ci cn r ri rn
    where p: "ParseCIDR candidate = Some (ci, cn)" "r \<in> set ranges" "ParseCIDR r = Some (ri, rn)"
      and c: "mask_ones (net_Mask rn) \<le> mask_ones (net_Mask cn)" "Contains rn ci" by blast
  from assms(2) p(2) have m: "\<not> (mapped_range candidate \<and> ipv4_range r)"
    by (auto simp: mixed_notation_def list_ex_iff)
  have "Contains cn address \<Longrightarrow> Contains rn address" for address
    using same_family_inclusion [OF p(1,3) accepted_same_family [OF p(1,3) c m] c] .
  with p show ?thesis by (auto simp: covers_def)
qed

subsection \<open>What a loaded catalog guarantees\<close>

definition connection_ok :: "connection \<Rightarrow> bool" where
  "connection_ok c \<longleftrightarrow> cn_Name c \<noteq> [] \<and> cn_Type c \<noteq> [] \<and>
     list_all (\<lambda>r. ParseCIDR r \<noteq> None) (cn_MaxCidrs c)"

text \<open>An entry names a connection of the inventory, and each of its ranges lies, address by address,
  inside one range of that connection, the mixed notation excepted.\<close>

definition allowlist_entry_ok :: "region \<Rightarrow> allowlistEntry \<Rightarrow> bool" where
  "allowlist_entry_ok r a \<longleftrightarrow>
     (case Connection r (al_Connection a) of
        None \<Rightarrow> False
      | Some c \<Rightarrow>
          list_all (\<lambda>i. ParseCIDR i \<noteq> None \<and>
              (mixed_notation (cn_MaxCidrs c) i \<or> list_ex (\<lambda>m. covers m i) (cn_MaxCidrs c)))
            (al_AllowedIPs a))"

definition region_ok :: "region \<Rightarrow> bool" where
  "region_ok r \<longleftrightarrow>
     distinct (map cn_Name (rg_Inventory r)) \<and> list_all connection_ok (rg_Inventory r) \<and>
     list_all (allowlist_entry_ok r) (rg_RegionalAllowlist r)"

lemma load_inventory_Inr:
  "load_inventory rn idx seen rcs = Inr conns \<Longrightarrow>
     distinct (map cn_Name conns) \<and> list_all connection_ok conns \<and>
     (\<forall>n. n \<in> set seen \<longrightarrow> n \<notin> cn_Name ` set conns)"
proof (induction rn idx seen rcs arbitrary: conns rule: load_inventory.induct)
  case (2 rn idx seen rc rcs)
  then obtain conns' where ne: "rc_Connection rc \<noteq> []" "rc_Type rc \<noteq> []" "rc_Connection rc \<notin> set seen"
      and bad: "first_bad_cidr (rc_MaxCidrs rc) = None"
      and l: "load_inventory rn (idx + 1) (rc_Connection rc # seen) rcs = Inr conns'"
      and conns: "conns = \<lparr>cn_Name = rc_Connection rc, cn_Type = rc_Type rc, cn_VpceID = rc_VpceID rc,
                      cn_MaxCidrs = rc_MaxCidrs rc\<rparr> # conns'"
    by (auto simp: and_then_Inr split: if_splits option.splits)
  from "2.IH" [OF ne(1,2,3) bad l] ne bad conns show ?case
    by (auto simp: connection_ok_def first_bad_cidr_def find_None_set list_all_iff)
qed simp

lemma connByName_Connection:
  assumes "distinct (map cn_Name conns)" and "rg_Inventory r = conns"
  shows "connByName conns name = Connection r name"
proof -
  have d: "distinct (map fst (map (\<lambda>c. (cn_Name c, c)) conns))" using assms(1) by (simp add: comp_def)
  have "map_of (rev (map (\<lambda>c. (cn_Name c, c)) conns)) = map_of (map (\<lambda>c. (cn_Name c, c)) conns)"
    using d by (rule map_of_rev_distinct)
  moreover have "map_of (map (\<lambda>c. (cn_Name c, c)) xs) name = List.find (\<lambda>c. cn_Name c = name) xs" for xs
    by (induction xs) auto
  ultimately show ?thesis using assms(2) by (simp add: connByName_def Connection_def)
qed

lemma loadRegion_ok:
  assumes "loadRegion rn rr = Inr r"
  shows "region_ok r"
proof -
  from assms obtain conns where l: "load_inventory rn 0 [] (rr_Inventory rr) = Inr conns"
      and e: "first_error (map (check_allowlist_entry rn (connByName conns)) (rr_RegionalAllowlist rr)) = None"
      and r: "rg_Inventory r = conns" "rg_RegionalAllowlist r = rr_RegionalAllowlist rr"
    by (auto simp: loadRegion_def and_then_Inr split: option.splits)
  from load_inventory_Inr [OF l] have conns: "distinct (map cn_Name conns)" "list_all connection_ok conns"
    by auto
  have "allowlist_entry_ok r a" if "a \<in> set (rr_RegionalAllowlist rr)" for a
  proof -
    from e that have "check_allowlist_entry rn (connByName conns) a = None"
      unfolding first_error_None by auto
    then show ?thesis
      unfolding check_allowlist_entry_def connByName_Connection [OF conns(1) r(1)]
      using accepted_covered
      by (auto simp: allowlist_entry_ok_def first_bad_cidr_def find_None_set list_all_iff list_ex_iff
          split: option.splits if_splits)
  qed
  with conns r show ?thesis by (simp add: region_ok_def list_all_iff)
qed

lemma load_regions_ok:
  "load_regions raws names regions = Inr regions' \<Longrightarrow>
     (\<forall>n r. regions n = Some r \<longrightarrow> region_ok r) \<Longrightarrow> regions' n = Some r \<Longrightarrow> region_ok r"
proof (induction raws names regions rule: load_regions.induct)
  case (2 raws name names regions)
  show ?case
  proof (cases "map_of raws name")
    case None
    with 2 show ?thesis by simp
  next
    case (Some rr)
    with "2.prems"(1) obtain region where l: "loadRegion name rr = Inr region"
        and rest: "load_regions raws names (regions(name \<mapsto> region)) = Inr regions'"
      by (auto simp: and_then_Inr)
    have "\<forall>n r. (regions(name \<mapsto> region)) n = Some r \<longrightarrow> region_ok r"
      using "2.prems"(2) loadRegion_ok [OF l] by simp
    with "2.IH"(2) [OF Some rest] "2.prems"(3) show ?thesis by blast
  qed
qed auto

lemma backplane_Load_Inr:
  "backplane_Load io dir = Inr c \<Longrightarrow>
     \<exists>raws. load_regions raws (sort (map fst raws)) (\<lambda>_. None) = Inr (bp_Regions c)"
  by (auto simp: backplane_Load_def and_then_Inr split: file_read.splits sum.splits)

lemma Region_Inr: "Region c name = Inr r \<longleftrightarrow> bp_Regions c name = Some r"
  by (auto simp: Region_def split: option.splits)

lemma Region_Inl_user: "Region c name = Inl e \<Longrightarrow> IsUserError e"
  by (auto simp: Region_def region_unavailable_error_def split: option.splits)

subsection \<open>Properties\<close>

text \<open>C34: Every region of a loaded catalog is consistent: connection names are unique and
  complete, and each allowlist entry names a connection of the inventory and stays within the
  ranges that connection may carry: every address of an allowed range is an address of one of
  them.  The exception the code makes is an allowed range of IPv4-mapped addresses, written as an
  IPv6 range, where the connection's ranges include an IPv4 one.\<close>

theorem loaded_region_ok:
  assumes "backplane_Load io configDir = Inr c" and "Region c name = Inr r"
  shows "distinct (map cn_Name (rg_Inventory r)) \<and>
    (\<forall>conn \<in> set (rg_Inventory r). cn_Name conn \<noteq> [] \<and> cn_Type conn \<noteq> [] \<and>
       (\<forall>m \<in> set (cn_MaxCidrs conn). ParseCIDR m \<noteq> None)) \<and>
    (\<forall>a \<in> set (rg_RegionalAllowlist r). \<exists>conn. Connection r (al_Connection a) = Some conn \<and>
       (\<forall>i \<in> set (al_AllowedIPs a). mixed_notation (cn_MaxCidrs conn) i \<or>
          (\<exists>m \<in> set (cn_MaxCidrs conn). \<exists>ip inet mp mnet.
             ParseCIDR i = Some (ip, inet) \<and> ParseCIDR m = Some (mp, mnet) \<and>
             (\<forall>address. Contains inet address \<longrightarrow> Contains mnet address))))"
proof -
  have r: "region_ok r"
    using backplane_Load_Inr [OF assms(1)] assms(2) load_regions_ok by (auto simp: Region_Inr)
  then have "distinct (map cn_Name (rg_Inventory r)) \<and>
    (\<forall>conn \<in> set (rg_Inventory r). cn_Name conn \<noteq> [] \<and> cn_Type conn \<noteq> [] \<and>
       (\<forall>m \<in> set (cn_MaxCidrs conn). ParseCIDR m \<noteq> None))"
    by (simp add: region_ok_def connection_ok_def list_all_iff)
  moreover have "(\<forall>a \<in> set (rg_RegionalAllowlist r). \<exists>conn. Connection r (al_Connection a) = Some conn \<and>
       (\<forall>i \<in> set (al_AllowedIPs a). mixed_notation (cn_MaxCidrs conn) i \<or>
          (\<exists>m \<in> set (cn_MaxCidrs conn). \<exists>ip inet mp mnet.
             ParseCIDR i = Some (ip, inet) \<and> ParseCIDR m = Some (mp, mnet) \<and>
             (\<forall>address. Contains inet address \<longrightarrow> Contains mnet address))))"
    using r unfolding region_ok_def allowlist_entry_ok_def list_all_iff list_ex_iff covers_def
    by (fastforce split: option.splits)
  ultimately show ?thesis by blast
qed

definition sample_region :: rawRegion where
  "sample_region =
     \<lparr>rr_Available = Some True,
      rr_Inventory = [\<lparr>rc_Connection = ''agn'', rc_Type = ''IPV4'', rc_VpceID = [],
        rc_MaxCidrs = [''10.0.0.0/8'']\<rparr>],
      rr_RegionalParameters = None,
      rr_RegionalAllowlist = [\<lparr>al_Connection = ''agn'', al_AllowedIPs = [''10.1.0.0/16'']\<rparr>]\<rparr>"

definition sample_backplane_io :: backplane_io where
  "sample_backplane_io =
     \<lparr>bio_read = (\<lambda>d n. FileData []),
      bio_unmarshal = (\<lambda>d. Inr \<lparr>rb_GlobalParameters = None,
        rb_Regions = [(''aws-eu-central-1'', sample_region)]\<rparr>)\<rparr>"

definition sample_connection :: connection where
  "sample_connection =
     \<lparr>cn_Name = ''agn'', cn_Type = ''IPV4'', cn_VpceID = [], cn_MaxCidrs = [''10.0.0.0/8'']\<rparr>"

lemma sample_backplane_loads:
  "\<exists>c r. backplane_Load sample_backplane_io d = Inr c \<and> Region c ''aws-eu-central-1'' = Inr r \<and>
     rg_Inventory r = [sample_connection] \<and>
     rg_RegionalAllowlist r = [\<lparr>al_Connection = ''agn'', al_AllowedIPs = [''10.1.0.0/16'']\<rparr>]"
proof -
  have "ParseCIDR ''10.0.0.0/8'' \<noteq> None" "ParseCIDR ''10.1.0.0/16'' \<noteq> None"
      "ContainsCIDR [''10.0.0.0/8''] ''10.1.0.0/16'' = Inr True"
    by code_simp+
  then obtain r where "loadRegion ''aws-eu-central-1'' sample_region = Inr r"
    and "rg_Inventory r = [sample_connection]"
    and "rg_RegionalAllowlist r = [\<lparr>al_Connection = ''agn'', al_AllowedIPs = [''10.1.0.0/16'']\<rparr>]"
    by (auto simp: loadRegion_def sample_region_def first_bad_cidr_def sample_connection_def
        check_allowlist_entry_def connByName_def split: option.splits)
  then show ?thesis by (auto simp: backplane_Load_def sample_backplane_io_def Region_def)
qed

lemma loaded_region_ok_witness:
  "\<exists>c r ip inet mp mnet. backplane_Load sample_backplane_io [] = Inr c \<and>
     Region c ''aws-eu-central-1'' = Inr r \<and> \<not> mixed_notation [''10.0.0.0/8''] ''10.1.0.0/16'' \<and>
     ParseCIDR ''10.1.0.0/16'' = Some (ip, inet) \<and> ParseCIDR ''10.0.0.0/8'' = Some (mp, mnet) \<and>
     (\<forall>address. Contains inet address \<longrightarrow> Contains mnet address)"
proof -
  obtain c r where l: "backplane_Load sample_backplane_io [] = Inr c" "Region c ''aws-eu-central-1'' = Inr r"
    and r: "rg_Inventory r = [sample_connection]"
      "rg_RegionalAllowlist r = [\<lparr>al_Connection = ''agn'', al_AllowedIPs = [''10.1.0.0/16'']\<rparr>]"
    using sample_backplane_loads by blast
  have m: "\<not> mixed_notation [''10.0.0.0/8''] ''10.1.0.0/16''" by code_simp
  from loaded_region_ok [OF l] r m l show ?thesis
    by (auto simp: Connection_def sample_connection_def)
qed

text \<open>C35: When the containment check accepts a range, it really lies inside one of the permitted
  ranges: both are valid, written in the same family, and every address of the one is an address of
  the other.  This holds for any list of ranges, of either family or of both, unless the range is
  one of IPv4-mapped addresses written as an IPv6 range and the list has an IPv4 range.\<close>

theorem ContainsCIDR_inclusion:
  assumes "ContainsCIDR ranges candidate = Inr True"
    and "\<not> (mapped_range candidate \<and> (\<exists>r \<in> set ranges. ipv4_range r))"
  shows "\<exists>r ci cn ri rn. r \<in> set ranges \<and> ParseCIDR candidate = Some (ci, cn) \<and>
    ParseCIDR r = Some (ri, rn) \<and> same_family cn rn \<and>
    (\<forall>address. Contains cn address \<longrightarrow> Contains rn address)"
proof -
  from ContainsCIDR_True [OF assms(1)] obtain ci cn r ri rn
    where p: "ParseCIDR candidate = Some (ci, cn)" "r \<in> set ranges" "ParseCIDR r = Some (ri, rn)"
      and c: "mask_ones (net_Mask rn) \<le> mask_ones (net_Mask cn)" "Contains rn ci" by blast
  from assms(2) p(2) have "\<not> (mapped_range candidate \<and> ipv4_range r)" by blast
  with accepted_same_family [OF p(1,3) c] have f: "same_family cn rn" .
  with same_family_inclusion [OF p(1,3) f c] p show ?thesis by blast
qed

text \<open>A list of both families: the range that contains the IPv4 candidate is the IPv4 one.\<close>

lemma ContainsCIDR_inclusion_witness:
  "ContainsCIDR [''2001:db8::/32'', ''10.0.0.0/8''] ''10.1.0.0/16'' = Inr True \<and>
   (\<exists>ci cn ri rn. ParseCIDR ''10.1.0.0/16'' = Some (ci, cn) \<and> ParseCIDR ''10.0.0.0/8'' = Some (ri, rn) \<and>
      (\<forall>address. Contains cn address \<longrightarrow> Contains rn address))"
proof -
  let ?rs = "[''2001:db8::/32'', ''10.0.0.0/8'']" and ?c = "''10.1.0.0/16''"
  have a: "ContainsCIDR ?rs ?c = Inr True" by code_simp
  have "\<not> mapped_range ?c" by code_simp
  then have m: "\<not> (mapped_range ?c \<and> (\<exists>r \<in> set ?rs. ipv4_range r))" by simp
  have other: "(case (ParseCIDR ?c, ParseCIDR ''2001:db8::/32'') of
      (Some (_, c), Some (_, r)) \<Rightarrow> length (net_Mask c) \<noteq> length (net_Mask r) | _ \<Rightarrow> False)"
    by code_simp
  from ContainsCIDR_inclusion [OF a m] obtain r ci cn ri rn
    where r: "r \<in> set ?rs" "ParseCIDR ?c = Some (ci, cn)" "ParseCIDR r = Some (ri, rn)"
      "same_family cn rn" "\<forall>address. Contains cn address \<longrightarrow> Contains rn address" by blast
  have "r \<noteq> ''2001:db8::/32''"
    using other r(2-4) by (auto simp: same_family_def)
  with r(1) have "r = ''10.0.0.0/8''" by simp
  with a r show ?thesis by blast
qed

text \<open>In that notation the check is wrong: it accepts a range of IPv4-mapped addresses that
  begins inside a permitted IPv4 range and reaches far outside it, because it compares prefix
  lengths counted from different widths.\<close>

theorem ContainsCIDR_mixed_families:
  "mixed_notation [''10.0.0.0/8''] ''::ffff:10.0.0.0/97'' \<and>
   ContainsCIDR [''10.0.0.0/8''] ''::ffff:10.0.0.0/97'' = Inr True \<and>
   (\<exists>ci cn ri rn address. ParseCIDR ''::ffff:10.0.0.0/97'' = Some (ci, cn) \<and>
      ParseCIDR ''10.0.0.0/8'' = Some (ri, rn) \<and> Contains cn address \<and> \<not> Contains rn address)"
proof -
  define cn :: ip_net where "cn = \<lparr>net_IP = [0, 0, 0, 0, 0, 0, 0, 0, 0, 0, 255, 255, 0, 0, 0, 0],
    net_Mask = [255, 255, 255, 255, 255, 255, 255, 255, 255, 255, 255, 255, 128, 0, 0, 0]\<rparr>"
  define rn :: ip_net where "rn = \<lparr>net_IP = [10, 0, 0, 0], net_Mask = [255, 0, 0, 0]\<rparr>"
  have "ParseCIDR ''::ffff:10.0.0.0/97'' =
      Some ([0, 0, 0, 0, 0, 0, 0, 0, 0, 0, 255, 255, 10, 0, 0, 0], cn)"
    unfolding cn_def by code_simp
  moreover have "ParseCIDR ''10.0.0.0/8'' =
      Some ([0, 0, 0, 0, 0, 0, 0, 0, 0, 0, 255, 255, 10, 0, 0, 0], rn)"
    unfolding rn_def by code_simp
  moreover have "Contains cn [11, 0, 0, 1]" unfolding cn_def by code_simp
  moreover have "\<not> Contains rn [11, 0, 0, 1]" unfolding rn_def by code_simp
  moreover have "ContainsCIDR [''10.0.0.0/8''] ''::ffff:10.0.0.0/97'' = Inr True" by code_simp
  moreover have "mixed_notation [''10.0.0.0/8''] ''::ffff:10.0.0.0/97''" by code_simp
  ultimately show ?thesis by blast
qed

end
