(* ===== verification/AccountModule.thy ===== *)
theory AccountModule
  imports Pipeline Backplane
begin

text \<open>
  Package \<open>internal/account/modules/account\<close>: observing, creating, reconciling and dropping a
  tenant's account (\<open>module.go\<close>, \<open>observe.go\<close>, \<open>apply.go\<close>, \<open>teardown.go\<close>).  The module's
  struct is the record \<open>account_module\<close>; each function is one definition over the state, in
  the order the files have them.
\<close>

record 'w account_module =
  am_keyManager :: "'w key_manager"
  am_org :: string
  am_gracePeriod :: duration
  am_deletionGracePeriodDays :: int
  am_usePrivateLink :: bool
  am_backplane :: backplane

definition account_New ::
  "'w key_manager \<Rightarrow> string \<Rightarrow> duration \<Rightarrow> int \<Rightarrow> bool \<Rightarrow> backplane \<Rightarrow> 'w account_module" where
  "account_New keyManager org gracePeriod deletionGracePeriodDays usePrivateLink bpConfig =
     \<lparr>am_keyManager = keyManager, am_org = org, am_gracePeriod = gracePeriod,
      am_deletionGracePeriodDays = deletionGracePeriodDays, am_usePrivateLink = usePrivateLink,
      am_backplane = bpConfig\<rparr>"

definition provisioningMessage :: string where
  "provisioningMessage =
     ''waiting for the account to finish provisioning before attempting to connect''"

definition set_status ::
  "(accountStatus \<Rightarrow> accountStatus) \<Rightarrow> ('w, 'z) acc_sys_scheme \<Rightarrow> ('w, 'z) acc_sys_scheme" where
  "set_status f s = s\<lparr>ac_cr := (ac_cr s)\<lparr>sa_Status := f (sa_Status (ac_cr s))\<rparr>\<rparr>"

subsection \<open>\<open>module.go\<close>\<close>

definition withinGracePeriod ::
  "'w env \<Rightarrow> duration \<Rightarrow> ('w, 'z) acc_sys_scheme \<Rightarrow> bool \<times> ('w, 'z) acc_sys_scheme" where
  "withinGracePeriod E gracePeriod s =
     (case st_AccountCreatedAt (sa_Status (ac_cr s)) of
        None \<Rightarrow> (False, s)
      | Some createdAt \<Rightarrow> (case now E s of (t, s1) \<Rightarrow> (t - createdAt < gracePeriod, s1)))"

definition connectTenant ::
  "('w, 'z) acc_sys_scheme resourceData \<Rightarrow> ('w, 'z) acc_sys_scheme
     \<Rightarrow> db result \<times> ('w, 'z) acc_sys_scheme" where
  "connectTenant data s =
     (case rd_TenantDB data s of
        (Inl err, s1) \<Rightarrow>
          (Inl (wrap (''platform connection failed for existing account locator '' @
             cr_locator s1 @ '': '') err), s1)
      | (Inr db, s1) \<Rightarrow> (Inr db, s1))"

definition syncStatus ::
  "'w env \<Rightarrow> 'w account_module \<Rightarrow> ('w, 'z) acc_sys_scheme resourceData
     \<Rightarrow> ('w, 'z) acc_sys_scheme \<Rightarrow> ('w, 'z) acc_sys_scheme" where
  "syncStatus E m data s =
     (let s1 = set_status (\<lambda>st. st\<lparr>st_AccountName := ResolvedAccountName data\<rparr>) s in
      if cr_locator s1 = [] then s1
      else (case AccountURL (cr_locator s1) (as_Region (sa_Spec (ac_cr s1))) (am_usePrivateLink m) of
              Inl err \<Rightarrow> (case Handle E (rd_Logger data) (Some err) s1 of (_, s2) \<Rightarrow> s2)
            | Inr url \<Rightarrow> set_status (\<lambda>st. st\<lparr>st_AccountURL := url\<rparr>) s1))"

subsection \<open>\<open>observe.go\<close>\<close>

definition not_created_reason :: string where
  "not_created_reason = ''account not created yet''"

definition account_Observe ::
  "'w env \<Rightarrow> 'w account_module \<Rightarrow> ('w, 'z) acc_sys_scheme resourceData
     \<Rightarrow> ('w, 'z) acc_sys_scheme \<Rightarrow> outcome \<times> ('w, 'z) acc_sys_scheme" where
  "account_Observe E m data s =
     (if cr_locator s = [] then (Pending_oc not_created_reason, s)
      else
        let s1 = syncStatus E m data s in
        (case withinGracePeriod E (am_gracePeriod m) s1 of
           (True, s2) \<Rightarrow> (Pending_oc provisioningMessage, s2)
         | (False, s2) \<Rightarrow>
             (case connectTenant data s2 of
                (Inl err, s3) \<Rightarrow> (Failed err, s3)
              | (Inr db, s3) \<Rightarrow> (Done, s3))))"

subsection \<open>\<open>apply.go\<close>\<close>

definition duplicateAccountSQLState :: string where "duplicateAccountSQLState = ''42710''"
definition maxAccountLabelLen :: int where "maxAccountLabelLen = 63"
definition resumeClockSkewBuffer :: duration where "resumeClockSkewBuffer = 5 * int minute"
definition platformUser :: string where "platformUser = ''platform''"

definition show_users_sql :: string where "show_users_sql = ''SHOW USERS LIKE ?''"

definition alter_email_sql :: string where
  "alter_email_sql = ''ALTER USER IDENTIFIER(?) SET EMAIL = ?''"

text \<open>\<open>result.FindRow("name", platformUser).StringValue("email")\<close>, the empty string when absent.\<close>

definition platform_email :: "query_result \<Rightarrow> string" where
  "platform_email result =
     deref (row_StringValue (FindRow result ''name'' platformUser) ''email'') []"

definition syncPlatformEmail ::
  "('w, 'z) acc_sys_scheme runner \<Rightarrow> string \<Rightarrow> ('w, 'z) acc_sys_scheme
     \<Rightarrow> gerror option \<times> ('w, 'z) acc_sys_scheme" where
  "syncPlatformEmail runner contact s =
     (case runner_Query runner ''show platform user'' show_users_sql [platformUser] s of
        (Inl err, s1) \<Rightarrow> (Some (wrap ''failed to look up platform user: '' err), s1)
      | (Inr result, s1) \<Rightarrow>
          if platform_email result = contact then (None, s1)
          else (case runner_Exec runner ''sync platform user email'' alter_email_sql
                       [platformUser, contact] s1 of
                  (Some err, s2) \<Rightarrow> (Some (wrap ''failed to update platform user email: '' err), s2)
                | (None, s2) \<Rightarrow> (None, s2)))"

definition reconcileExisting ::
  "'w env \<Rightarrow> 'w account_module \<Rightarrow> ('w, 'z) acc_sys_scheme resourceData
     \<Rightarrow> ('w, 'z) acc_sys_scheme \<Rightarrow> outcome \<times> ('w, 'z) acc_sys_scheme" where
  "reconcileExisting E m data s =
     (case withinGracePeriod E (am_gracePeriod m) s of
        (True, s1) \<Rightarrow> (Pending_oc provisioningMessage, s1)
      | (False, s1) \<Rightarrow>
          (case connectTenant data s1 of
             (Inl err, s2) \<Rightarrow> (Failed err, s2)
           | (Inr db, s2) \<Rightarrow>
               (case syncPlatformEmail (statement_New (db_executor E db))
                       (as_Contact (sa_Spec (ac_cr s2))) s2 of
                  (Some err, s3) \<Rightarrow> (Failed err, s3)
                | (None, s3) \<Rightarrow> (Done, s3))))"

definition name_length_error :: "int \<Rightarrow> gerror" where
  "name_length_error maxNameLen =
     NewUserError (''account name must be '' @ show_int maxNameLen @ '' characters or fewer'')"

definition checkCreatable ::
  "'w account_module \<Rightarrow> snowflakeAccount \<Rightarrow> string \<Rightarrow> labels \<Rightarrow> gerror option" where
  "checkCreatable m cr resolvedName namespaceLabels =
     (case Region (am_backplane m) (as_Region (sa_Spec cr)) of
        Inl err \<Rightarrow> Some err
      | Inr region \<Rightarrow>
          (case AlphaTester namespaceLabels of
             Inl err \<Rightarrow> Some err
           | Inr isAlphaTester \<Rightarrow>
               if \<not> rg_Available region \<and> \<not> isAlphaTester
               then Some (region_unavailable_error (as_Region (sa_Spec cr)))
               else
                 let name = om_Name (sa_Meta cr);
                     suffixLen = int (length resolvedName) - int (length name);
                     maxNameLen = maxAccountLabelLen - 1 - int (length (am_org m)) - suffixLen
                 in if int (length name) > maxNameLen then Some (name_length_error maxNameLen)
                    else None))"

definition resume_unreadable_error :: "gerror \<Rightarrow> gerror \<Rightarrow> gerror" where
  "resume_unreadable_error createErr err =
     Errorf (''failed to create platform credentials: '' @ err_text createErr @
       '' (and no earlier attempt could be read back to resume from: '' @ err_text err @ '')'')
       [createErr, err]"

definition resume_stale_error :: "'w env \<Rightarrow> time \<Rightarrow> time \<Rightarrow> gerror \<Rightarrow> gerror" where
  "resume_stale_error E rotatedAt createdAt createErr =
     Errorf (''failed to create platform credentials: identifier is occupied by a secret written at '' @
       env_timeText E rotatedAt @ '', before this resource'' @ [squote] @ ''s own creation at '' @
       env_timeText E createdAt @ '' (minus a '' @ env_durationText E resumeClockSkewBuffer @
       '' clock-skew buffer) '' @ [CHR 0xE2, CHR 0x80, CHR 0x94] @ '' this cannot be this resource'' @
       [squote] @ ''s own crashed attempt and requires manual investigation: '' @ err_text createErr)
       [createErr]"

definition resumeCrashedCreate ::
  "'w env \<Rightarrow> 'w account_module \<Rightarrow> ident \<Rightarrow> time \<Rightarrow> gerror \<Rightarrow> ('w, 'z) acc_sys_scheme
     \<Rightarrow> credentials result \<times> ('w, 'z) acc_sys_scheme" where
  "resumeCrashedCreate E m idt createdAt createErr s =
     (case GetCredentials E (am_keyManager m) idt s of
        (Inl err, s1) \<Rightarrow> (Inl (resume_unreadable_error createErr err), s1)
      | (Inr creds, s1) \<Rightarrow>
          if c_RotatedAt creds < createdAt + (- resumeClockSkewBuffer)
          then (Inl (resume_stale_error E (c_RotatedAt creds) createdAt createErr), s1)
          else (Inr creds, s1))"

definition recently_deleted_error :: "string \<Rightarrow> gerror" where
  "recently_deleted_error name =
     NewUserError (''account '' @ quote_go name @
       '' was deleted recently and is still within its deletion recovery '' @
       ''window; wait for the recovery window to elapse, then try again'')"

definition acquireCredentials ::
  "'w env \<Rightarrow> 'w account_module \<Rightarrow> ('w, 'z) acc_sys_scheme
     \<Rightarrow> (credentials \<times> bool) result \<times> ('w, 'z) acc_sys_scheme" where
  "acquireCredentials E m s =
     (let meta = sa_Meta (ac_cr s) in
      case NewTenantIdentifier (am_org m) (om_Namespace meta) (om_Name meta) of
        Inl err \<Rightarrow> (Inl err, s)
      | Inr idt \<Rightarrow>
          (case CreateCredentials E (am_keyManager m) idt platformUser s of
             (Inr creds, s1) \<Rightarrow> (Inr (creds, False), s1)
           | (Inl err, s1) \<Rightarrow>
               if errors_Is err ErrPendingDeletion
               then (Inl (recently_deleted_error (om_Name meta)), s1)
               else (case resumeCrashedCreate E m idt (om_CreationTimestamp meta) err s1 of
                       (Inl err, s2) \<Rightarrow> (Inl err, s2)
                     | (Inr creds, s2) \<Rightarrow> (Inr (creds, True), s2))))"

definition created_reason :: string where
  "created_reason = ''account created; waiting for it to become reachable before continuing''"

definition finishCreate ::
  "'w env \<Rightarrow> string \<Rightarrow> ('w, 'z) acc_sys_scheme \<Rightarrow> outcome \<times> ('w, 'z) acc_sys_scheme" where
  "finishCreate E locator s =
     (let s1 = set_status (\<lambda>st. st\<lparr>st_AccountLocator := locator\<rparr>) s in
      case now E s1 of
        (t, s2) \<Rightarrow>
          (Pending_oc created_reason, set_status (\<lambda>st. st\<lparr>st_AccountCreatedAt := Some t\<rparr>) s2))"

definition snowflakeRegionID :: "string \<Rightarrow> string" where
  "snowflakeRegionID region = to_upper (replace_all (CHR ''-'') ''_'' region)"

definition create_account_sql :: string where
  "create_account_sql =
     ''CREATE ACCOUNT IDENTIFIER(?) ADMIN_NAME=? ADMIN_RSA_PUBLIC_KEY=? ADMIN_USER_TYPE=SERVICE EMAIL=? EDITION=ENTERPRISE REGION=?''"

definition name_collision_error :: "string \<Rightarrow> gerror" where
  "name_collision_error resolvedName =
     NewUserError (''account name '' @ [squote] @ resolvedName @ [squote] @
       '' is already in use by another account in the organization; rename this resource and try again'')"

fun is_stmt_error :: "gerror \<Rightarrow> bool" where
  "is_stmt_error (StmtError l st q n ss e) = True"
| "is_stmt_error _ = False"

definition create_account_args :: "string \<Rightarrow> accountSpec \<Rightarrow> string \<Rightarrow> string list" where
  "create_account_args resolvedName spec publicKey =
     [resolvedName, platformUser, publicKey, as_Contact spec, snowflakeRegionID (as_Region spec)] @
     (if as_Description spec \<noteq> [] then [as_Description spec] else [])"

definition create_account_text :: "accountSpec \<Rightarrow> string" where
  "create_account_text spec =
     create_account_sql @ (if as_Description spec \<noteq> [] then '' COMMENT=?'' else [])"

definition execCreateAccount ::
  "('w, 'z) acc_sys_scheme runner \<Rightarrow> string \<Rightarrow> accountSpec \<Rightarrow> string \<Rightarrow> ('w, 'z) acc_sys_scheme
     \<Rightarrow> gerror option \<times> ('w, 'z) acc_sys_scheme" where
  "execCreateAccount runner resolvedName spec publicKey s =
     (case runner_Exec runner ''create account'' (create_account_text spec)
             (create_account_args resolvedName spec publicKey) s of
        (None, s1) \<Rightarrow> (None, s1)
      | (Some err, s1) \<Rightarrow>
          (case errors_As is_stmt_error err of
             Some stmtErr \<Rightarrow>
               if se_sqlstate stmtErr = duplicateAccountSQLState
               then (Some (name_collision_error resolvedName), s1)
               else (Some (wrap ''failed to create account: '' err), s1)
           | None \<Rightarrow> (Some (wrap ''failed to create account: '' err), s1)))"

definition show_accounts_sql :: string where "show_accounts_sql = ''SHOW ACCOUNTS LIKE ?''"

definition findAccountLocator ::
  "('w, 'z) acc_sys_scheme runner \<Rightarrow> string \<Rightarrow> string \<Rightarrow> ('w, 'z) acc_sys_scheme
     \<Rightarrow> (string \<times> bool) result \<times> ('w, 'z) acc_sys_scheme" where
  "findAccountLocator runner label resolvedName s =
     (case runner_Query runner label show_accounts_sql [resolvedName] s of
        (Inl err, s1) \<Rightarrow>
          (Inl (wrap (''failed to look up account '' @ quote_go resolvedName @ '': '') err), s1)
      | (Inr result, s1) \<Rightarrow>
          (Inr (case row_StringValue (FindRow result ''account_name'' resolvedName) ''account_locator'' of
                  None \<Rightarrow> ([], False)
                | Some locator \<Rightarrow> (locator, locator \<noteq> [])), s1))"

definition not_located_error :: "string \<Rightarrow> gerror" where
  "not_located_error resolvedName =
     plain_error (''CREATE ACCOUNT succeeded but no account named '' @ quote_go resolvedName @
       '' was found by SHOW ACCOUNTS'')"

definition locateCreatedAccount ::
  "('w, 'z) acc_sys_scheme runner \<Rightarrow> string \<Rightarrow> ('w, 'z) acc_sys_scheme
     \<Rightarrow> string result \<times> ('w, 'z) acc_sys_scheme" where
  "locateCreatedAccount runner resolvedName s =
     (case findAccountLocator runner ''locate created account'' resolvedName s of
        (Inl err, s1) \<Rightarrow> (Inl err, s1)
      | (Inr (locator, found), s1) \<Rightarrow>
          if \<not> found then (Inl (not_located_error resolvedName), s1) else (Inr locator, s1))"

text \<open>createAccount from CREATE ACCOUNT on.\<close>

definition issueCreate ::
  "'w env \<Rightarrow> ('w, 'z) acc_sys_scheme runner \<Rightarrow> string \<Rightarrow> credentials
     \<Rightarrow> ('w, 'z) acc_sys_scheme \<Rightarrow> outcome \<times> ('w, 'z) acc_sys_scheme" where
  "issueCreate E runner resolvedName creds s =
     (case execCreateAccount runner resolvedName (sa_Spec (ac_cr s)) (c_PublicKey creds) s of
        (Some err, s1) \<Rightarrow> (Failed err, s1)
      | (None, s1) \<Rightarrow>
          (case locateCreatedAccount runner resolvedName s1 of
             (Inl err, s2) \<Rightarrow> (Failed err, s2)
           | (Inr locator, s2) \<Rightarrow> finishCreate E locator s2))"

definition createAccount ::
  "'w env \<Rightarrow> 'w account_module \<Rightarrow> ('w, 'z) acc_sys_scheme resourceData
     \<Rightarrow> ('w, 'z) acc_sys_scheme \<Rightarrow> outcome \<times> ('w, 'z) acc_sys_scheme" where
  "createAccount E m data s =
     (let resolvedName = ResolvedAccountName data in
      case checkCreatable m (ac_cr s) resolvedName (NamespaceLabels data) of
        Some err \<Rightarrow> (Failed err, s)
      | None \<Rightarrow>
          (case acquireCredentials E m s of
             (Inl err, s1) \<Rightarrow> (Failed err, s1)
           | (Inr (creds, resumed), s1) \<Rightarrow>
               (case rd_OrgAdminDB data s1 of
                  (Inl err, s2) \<Rightarrow> (Failed err, s2)
                | (Inr orgAdminDB, s2) \<Rightarrow>
                    let runner = statement_New (db_executor E orgAdminDB) in
                    if resumed then
                      (case findAccountLocator runner
                              ''check for existing account before resuming create'' resolvedName s2 of
                         (Inl err, s3) \<Rightarrow> (Failed err, s3)
                       | (Inr (locator, found), s3) \<Rightarrow>
                           if found then finishCreate E locator s3
                           else issueCreate E runner resolvedName creds s3)
                    else issueCreate E runner resolvedName creds s2)))"

definition account_apply ::
  "'w env \<Rightarrow> 'w account_module \<Rightarrow> ('w, 'z) acc_sys_scheme resourceData
     \<Rightarrow> ('w, 'z) acc_sys_scheme \<Rightarrow> outcome \<times> ('w, 'z) acc_sys_scheme" where
  "account_apply E m data s =
     (if cr_locator s \<noteq> [] then reconcileExisting E m data s else createAccount E m data s)"

definition account_Apply ::
  "'w env \<Rightarrow> 'w account_module \<Rightarrow> ('w, 'z) acc_sys_scheme resourceData
     \<Rightarrow> ('w, 'z) acc_sys_scheme \<Rightarrow> outcome \<times> ('w, 'z) acc_sys_scheme" where
  "account_Apply E m data s =
     (case account_apply E m data s of
        (out, s1) \<Rightarrow> (Abort out, syncStatus E m data s1))"

subsection \<open>\<open>teardown.go\<close>\<close>

definition drop_account_sql :: "int \<Rightarrow> string" where
  "drop_account_sql days =
     ''DROP ACCOUNT IF EXISTS IDENTIFIER(?) GRACE_PERIOD_IN_DAYS = '' @ show_int days"

definition dropAccount ::
  "'w env \<Rightarrow> 'w account_module \<Rightarrow> ('w, 'z) acc_sys_scheme resourceData
     \<Rightarrow> ('w, 'z) acc_sys_scheme \<Rightarrow> gerror option \<times> ('w, 'z) acc_sys_scheme" where
  "dropAccount E m data s =
     (case rd_OrgAdminDB data s of
        (Inl err, s1) \<Rightarrow> (Some err, s1)
      | (Inr db, s1) \<Rightarrow>
          (case runner_Exec (statement_New (db_executor E db)) ''drop account''
                  (drop_account_sql (am_deletionGracePeriodDays m)) [ResolvedAccountName data] s1 of
             (Some err, s2) \<Rightarrow> (Some (wrap ''failed to drop account: '' err), s2)
           | (None, s2) \<Rightarrow> (None, s2)))"

definition deleteCredential ::
  "'w account_module \<Rightarrow> ('w, 'z) acc_sys_scheme \<Rightarrow> gerror option \<times> ('w, 'z) acc_sys_scheme" where
  "deleteCredential m s =
     (let meta = sa_Meta (ac_cr s) in
      case NewTenantIdentifier (am_org m) (om_Namespace meta) (om_Name meta) of
        Inl err \<Rightarrow> (Some err, s)
      | Inr idt \<Rightarrow>
          (case DeleteCredentials (am_keyManager m) idt s of
             (Some err, s1) \<Rightarrow> (Some (wrap ''failed to delete platform credential: '' err), s1)
           | (None, s1) \<Rightarrow> (None, s1)))"

definition account_Teardown ::
  "'w env \<Rightarrow> 'w account_module \<Rightarrow> ('w, 'z) acc_sys_scheme resourceData
     \<Rightarrow> ('w, 'z) acc_sys_scheme \<Rightarrow> gerror option \<times> ('w, 'z) acc_sys_scheme" where
  "account_Teardown E m data s =
     (if cr_locator s \<noteq> [] then
        (case dropAccount E m data s of
           (Some err, s1) \<Rightarrow> (Some err, s1)
         | (None, s1) \<Rightarrow>
             let s2 = rd_EvictTenant data s1;
                 s3 = set_status (\<lambda>st. st\<lparr>st_AccountLocator := []\<rparr>) s2
             in deleteCredential m s3)
      else deleteCredential m s)"

definition account_pmodule ::
  "'w env \<Rightarrow> 'w account_module \<Rightarrow> ('w, 'z) acc_sys_scheme pmodule" where
  "account_pmodule E m =
     \<lparr>md_Name = accountModuleName, md_Observe = account_Observe E m, md_Apply = account_Apply E m,
      md_Teardown = account_Teardown E m\<rparr>"

subsection \<open>Frames\<close>

lemma set_status_simps [simp]:
  "trace (set_status f s) = trace s" "world (set_status f s) = world s"
  "sa_Status (ac_cr (set_status f s)) = f (sa_Status (ac_cr s))"
  "sa_Meta (ac_cr (set_status f s)) = sa_Meta (ac_cr s)"
  "sa_Spec (ac_cr (set_status f s)) = sa_Spec (ac_cr s)"
  "ac_tenantDB (set_status f s) = ac_tenantDB s"
  "ps_entries (set_status f s) = ps_entries s" "ps_orgAdminDB (set_status f s) = ps_orgAdminDB s"
  "km_entries (set_status f s) = km_entries s"
  by (simp_all add: set_status_def)

lemma sys_more_acc:
  fixes s s' :: "('w, 'z) acc_sys_scheme"
  shows "sys.more s' = sys.more s \<Longrightarrow> ac_cr s' = ac_cr s \<and> ac_tenantDB s' = ac_tenantDB s"
  by (cases s; cases s') simp

lemma km_more_acc:
  fixes s s' :: "('w, 'z) acc_sys_scheme"
  shows "km_sys.more s' = km_sys.more s \<Longrightarrow> ac_cr s' = ac_cr s \<and> ac_tenantDB s' = ac_tenantDB s"
  by (cases s; cases s') simp

lemma withinGracePeriod_frame:
  fixes s :: "('w, 'z) acc_sys_scheme"
  shows "withinGracePeriod E gp s = (b, s') \<Longrightarrow> ac_cr s' = ac_cr s \<and> ac_tenantDB s' = ac_tenantDB s \<and>
    trace s' = trace s"
  by (auto simp: withinGracePeriod_def dest!: now_frame dest: sys_more_acc split: option.splits prod.splits)

lemma syncStatus_frame:
  fixes s :: "('w, 'z) acc_sys_scheme"
  shows "emits is_log s (syncStatus E m d s) \<and> cr_kept (ac_cr s) (ac_cr (syncStatus E m d s)) \<and>
    cr_locator (syncStatus E m d s) = cr_locator s \<and>
    st_AccountCreatedAt (sa_Status (ac_cr (syncStatus E m d s))) = st_AccountCreatedAt (sa_Status (ac_cr s)) \<and>
    ac_tenantDB (syncStatus E m d s) = ac_tenantDB s"
proof (cases "cr_locator s = []")
  case True
  then show ?thesis by (simp add: syncStatus_def Let_def cr_kept_def emits_same)
next
  case False
  let ?s1 = "set_status (\<lambda>st. st\<lparr>st_AccountName := ResolvedAccountName d\<rparr>) s"
  show ?thesis
  proof (cases "AccountURL (cr_locator s) (as_Region (sa_Spec (ac_cr s))) (am_usePrivateLink m)")
    case (Inl err)
    obtain r s2 where h: "Handle E (rd_Logger d) (Some err) ?s1 = (r, s2)" by fastforce
    from Handle_frame [OF h] have t: "emits is_log ?s1 s2" and mo: "sys.more s2 = sys.more ?s1"
      by (auto simp: emits_def)
    from emits_trans [OF emits_same [of ?s1 s is_log] t] have "emits is_log s s2" by simp
    with sys_more_acc [OF mo] Inl h False show ?thesis
      by (auto simp: syncStatus_def Let_def cr_kept_def)
  next
    case (Inr url)
    with False show ?thesis by (simp add: syncStatus_def Let_def cr_kept_def emits_same)
  qed
qed

text \<open>The statements the module issues itself, all with bound arguments.\<close>

fun has_sql :: "string \<Rightarrow> effect \<Rightarrow> bool" where
  "has_sql p (ExecSQL d q args) = has_prefix q p"
| "has_sql p _ = False"

definition is_create :: "effect \<Rightarrow> bool" where
  "is_create ef = has_sql ''CREATE ACCOUNT'' ef"

definition is_drop :: "effect \<Rightarrow> bool" where
  "is_drop ef = has_sql ''DROP ACCOUNT'' ef"

lemma observe_effect_simps:
  "observe_effect ef \<Longrightarrow> \<not> is_create ef \<and> \<not> is_drop ef"
proof (cases ef)
  case (ExecSQL d q args)
  assume "observe_effect ef"
  with ExecSQL have "has_prefix q ''ALTER USER ''" by (simp add: observe_effect_def)
  with ExecSQL show ?thesis by (auto simp: is_create_def is_drop_def dest: has_prefix_clash)
qed (auto simp: is_create_def is_drop_def)

context db_pool
begin

lemma connectTenant_frame:
  assumes "rd_pool c = P" and "connectTenant c s = (r, s')"
  shows "ac_cr s' = ac_cr s \<and> emits pool_effect s s'"
  using rd_TenantDB_frame [OF assms(1)] assms(2)
  by (fastforce simp: connectTenant_def split: prod.splits sum.splits)

lemma account_Observe_frame:
  assumes "rd_pool c = P" and "account_Observe E m c s = (out, s')"
  shows "emits observe_effect s s' \<and> cr_kept (ac_cr s) (ac_cr s') \<and> cr_locator s' = cr_locator s"
proof (cases "cr_locator s = []")
  case True
  with assms(2) show ?thesis by (simp add: account_Observe_def)
next
  case False
  let ?s1 = "syncStatus E m c s"
  obtain b s2 where w: "withinGracePeriod E (am_gracePeriod m) ?s1 = (b, s2)" by fastforce
  note wf = withinGracePeriod_frame [OF w] and sf = syncStatus_frame [of s E m c]
  have e1: "emits observe_effect s s2"
    by (rule emits_trans [OF emits_mono [OF conjunct1 [OF sf]]])
      (auto simp: observe_effect_def wf intro: emits_same)
  obtain r s3 where t: "connectTenant c s2 = (r, s3)" by fastforce
  from connectTenant_frame [OF assms(1) t] have t': "ac_cr s3 = ac_cr s2" "emits pool_effect s2 s3"
    by auto
  have "emits observe_effect s s3"
    by (rule emits_trans [OF e1 emits_mono [OF t'(2)]]) (simp add: observe_effect_def)
  with assms(2) False w t t' wf sf e1 show ?thesis
    by (auto simp: account_Observe_def Let_def split: if_splits bool.splits sum.splits)
qed

end


lemma runner_Query_acc:
  fixes s :: "('w, 'z) acc_sys_scheme"
  assumes "runner_Query (statement_New (db_executor E d)) l q a s = (r, s')"
  shows "trace s' = trace s @ [QuerySQL d q a] \<and> ac_cr s' = ac_cr s \<and> ac_tenantDB s' = ac_tenantDB s \<and>
    (\<forall>res. r = Inr res \<longrightarrow> (\<exists>rs. env_query E d q a (world s) = (Inr rs, world s') \<and> materialize l q rs = Inr res))"
proof -
  from runner_Query_frame [OF assms] obtain r0 where t: "trace s' = trace s @ [QuerySQL d q a]"
      and m: "sys.more s' = sys.more s" and q: "env_query E d q a (world s) = (r0, world s')"
      and r: "r = (case r0 of Inl e \<Rightarrow> Inl (newError l q e) | Inr rs \<Rightarrow> materialize l q rs)" by blast
  from q r have "\<forall>res. r = Inr res \<longrightarrow> (\<exists>rs. env_query E d q a (world s) = (Inr rs, world s') \<and>
      materialize l q rs = Inr res)"
    by (cases r0) auto
  with t sys_more_acc [OF m] show ?thesis by simp
qed

lemma runner_Exec_acc:
  fixes s :: "('w, 'z) acc_sys_scheme"
  assumes "runner_Exec (statement_New (db_executor E d)) l q a s = (r, s')"
  shows "trace s' = trace s @ [ExecSQL d q a] \<and> ac_cr s' = ac_cr s \<and> ac_tenantDB s' = ac_tenantDB s"
  using runner_Exec_frame [OF assms] sys_more_acc by blast

lemma finishCreate_frame:
  fixes s :: "('w, 'z) acc_sys_scheme"
  assumes "finishCreate E l s = (out, s')"
  shows "out = Pending_oc created_reason \<and> trace s' = trace s \<and> cr_kept (ac_cr s) (ac_cr s') \<and>
    cr_locator s' = l \<and> st_AccountCreatedAt (sa_Status (ac_cr s')) \<noteq> None"
proof -
  let ?s1 = "set_status (\<lambda>st. st\<lparr>st_AccountLocator := l\<rparr>) s"
  obtain t s2 where n: "now E ?s1 = (t, s2)" by fastforce
  from now_frame [OF n] have tr: "trace s2 = trace s" and m: "sys.more s2 = sys.more ?s1" by auto
  with sys_more_acc [OF m] assms n show ?thesis
    by (auto simp: finishCreate_def Let_def cr_kept_def)
qed

text \<open>A locator the module may record: what SHOW ACCOUNTS holds for exactly this name.\<close>

definition located :: "'w env \<Rightarrow> string \<Rightarrow> string \<Rightarrow> bool" where
  "located E n l \<longleftrightarrow> l \<noteq> [] \<and>
     (\<exists>d w w' rs label res. env_query E d show_accounts_sql [n] w = (Inr rs, w') \<and>
        materialize label show_accounts_sql rs = Inr res \<and>
        row_StringValue (FindRow res ''account_name'' n) ''account_locator'' = Some l)"

lemma findAccountLocator_frame:
  fixes s :: "('w, 'z) acc_sys_scheme"
  assumes "findAccountLocator (statement_New (db_executor E d)) label n s = (r, s')"
  shows "trace s' = trace s @ [QuerySQL d show_accounts_sql [n]] \<and> ac_cr s' = ac_cr s \<and>
    (\<forall>l. r = Inr (l, True) \<longrightarrow> located E n l)"
proof -
  obtain r0 s0 where q: "runner_Query (statement_New (db_executor E d)) label show_accounts_sql [n] s = (r0, s0)"
    by fastforce
  note f = runner_Query_acc [OF q]
  show ?thesis
  proof (cases r0)
    case (Inl e)
    with q f assms show ?thesis by (auto simp: findAccountLocator_def)
  next
    case (Inr res)
    with f have "\<exists>rs. env_query E d show_accounts_sql [n] (world s) = (Inr rs, world s0) \<and>
        materialize label show_accounts_sql rs = Inr res" by blast
    with q f Inr assms show ?thesis
      by (auto simp: findAccountLocator_def located_def split: option.splits) blast
  qed
qed

lemma locateCreatedAccount_frame:
  fixes s :: "('w, 'z) acc_sys_scheme"
  assumes "locateCreatedAccount (statement_New (db_executor E d)) n s = (r, s')"
  shows "trace s' = trace s @ [QuerySQL d show_accounts_sql [n]] \<and> ac_cr s' = ac_cr s \<and>
    (\<forall>l. r = Inr l \<longrightarrow> located E n l)"
proof -
  obtain r0 s0 where q: "findAccountLocator (statement_New (db_executor E d)) ''locate created account'' n s = (r0, s0)"
    by fastforce
  from findAccountLocator_frame [OF q] q assms show ?thesis
    by (auto simp: locateCreatedAccount_def split: sum.splits prod.splits if_splits)
qed

lemma execCreateAccount_frame:
  fixes s :: "('w, 'z) acc_sys_scheme"
  assumes "execCreateAccount (statement_New (db_executor E d)) n spec pk s = (r, s')"
  shows "trace s' = trace s @ [ExecSQL d (create_account_text spec) (create_account_args n spec pk)] \<and>
    ac_cr s' = ac_cr s"
proof -
  obtain r0 s0 where x: "runner_Exec (statement_New (db_executor E d)) ''create account''
      (create_account_text spec) (create_account_args n spec pk) s = (r0, s0)" by fastforce
  from runner_Exec_acc [OF x] x assms show ?thesis
    by (auto simp: execCreateAccount_def split: option.splits if_splits)
qed

text \<open>The outcome of a create path: a failure that records nothing, or the new locator.\<close>

definition create_outcome ::
  "'w env \<Rightarrow> string \<Rightarrow> outcome \<Rightarrow> ('w, 'z) acc_sys_scheme \<Rightarrow> ('w, 'z) acc_sys_scheme \<Rightarrow> bool" where
  "create_outcome E n out s s' \<longleftrightarrow> cr_kept (ac_cr s) (ac_cr s') \<and>
     ((\<exists>e. out = Failed e) \<and> ac_cr s' = ac_cr s \<or>
      out = Pending_oc created_reason \<and> located E n (cr_locator s') \<and>
        st_AccountCreatedAt (sa_Status (ac_cr s')) \<noteq> None)"

lemma create_outcome_Failed: "ac_cr s' = ac_cr s \<Longrightarrow> create_outcome E n (Failed e) s s'"
  by (auto simp: create_outcome_def)

lemma create_outcome_finish:
  assumes "finishCreate E l s1 = (out, s')" and "located E n l" and "ac_cr s1 = ac_cr s"
  shows "create_outcome E n out s s'"
  using finishCreate_frame [OF assms(1)] assms(2,3) by (simp add: create_outcome_def)

lemma issueCreate_frame:
  fixes s :: "('w, 'z) acc_sys_scheme"
  assumes "issueCreate E (statement_New (db_executor E d)) n creds s = (out, s')"
  shows "create_outcome E n out s s' \<and>
    (\<exists>post. trace s' = trace s @ ExecSQL d (create_account_text (sa_Spec (ac_cr s)))
         (create_account_args n (sa_Spec (ac_cr s)) (c_PublicKey creds)) # post \<and>
       (post = [] \<or> post = [QuerySQL d show_accounts_sql [n]]))"
proof -
  obtain r1 s1 where x: "execCreateAccount (statement_New (db_executor E d)) n (sa_Spec (ac_cr s))
      (c_PublicKey creds) s = (r1, s1)" by fastforce
  note xf = execCreateAccount_frame [OF x]
  show ?thesis
  proof (cases r1)
    case (Some e)
    with x xf assms show ?thesis by (auto simp: issueCreate_def create_outcome_Failed)
  next
    case None
    obtain r2 s2 where l: "locateCreatedAccount (statement_New (db_executor E d)) n s1 = (r2, s2)"
      by fastforce
    note lf = locateCreatedAccount_frame [OF l]
    show ?thesis
    proof (cases r2)
      case (Inl e)
      with x xf l lf None assms show ?thesis by (auto simp: issueCreate_def create_outcome_Failed)
    next
      case (Inr loc)
      with x l None assms have f: "finishCreate E loc s2 = (out, s')" by (simp add: issueCreate_def)
      from Inr lf have "located E n loc" by simp
      with create_outcome_finish [OF f this] xf lf finishCreate_frame [OF f] show ?thesis by simp
    qed
  qed
qed

fun secret_effect :: "effect \<Rightarrow> bool" where
  "secret_effect (CreateSecret i v) = True"
| "secret_effect (GetSecret i) = True"
| "secret_effect _ = False"

lemma resumeCrashedCreate_frame:
  fixes s :: "('w, 'z) acc_sys_scheme"
  assumes "resumeCrashedCreate E m i t e s = (r, s')"
  shows "emits secret_effect s s' \<and> ac_cr s' = ac_cr s \<and>
    (\<forall>c. r = Inr c \<longrightarrow> t - resumeClockSkewBuffer \<le> c_RotatedAt c)"
proof -
  obtain r0 s0 where g: "GetCredentials E (am_keyManager m) i s = (r0, s0)" by fastforce
  from GetCredentials_frame [OF g] have "emits secret_effect s s0" "ac_cr s0 = ac_cr s"
    by (auto simp: emits_def dest: km_more_acc)
  with g assms show ?thesis by (auto simp: resumeCrashedCreate_def split: sum.splits if_splits)
qed

lemma acquireCredentials_frame:
  fixes s :: "('w, 'z) acc_sys_scheme"
  assumes "acquireCredentials E m s = (r, s')"
  shows "emits secret_effect s s' \<and> ac_cr s' = ac_cr s \<and>
    (\<forall>c. r = Inr (c, True) \<longrightarrow>
       om_CreationTimestamp (sa_Meta (ac_cr s)) - resumeClockSkewBuffer \<le> c_RotatedAt c)"
proof (cases "NewTenantIdentifier (am_org m) (om_Namespace (sa_Meta (ac_cr s))) (om_Name (sa_Meta (ac_cr s)))")
  case (Inl e)
  with assms show ?thesis by (auto simp: acquireCredentials_def Let_def)
next
  case (Inr i)
  obtain r0 s0 where c: "CreateCredentials E (am_keyManager m) i platformUser s = (r0, s0)" by fastforce
  from CreateCredentials_frame [OF c] have f: "emits secret_effect s s0" "ac_cr s0 = ac_cr s"
    by (auto simp: emits_def dest: km_more_acc)
  show ?thesis
  proof (cases "\<exists>e. r0 = Inl e \<and> \<not> errors_Is e ErrPendingDeletion")
    case True
    then obtain e where e: "r0 = Inl e" "\<not> errors_Is e ErrPendingDeletion" by blast
    obtain r1 s1 where q: "resumeCrashedCreate E m i (om_CreationTimestamp (sa_Meta (ac_cr s))) e s0 = (r1, s1)"
      by fastforce
    from resumeCrashedCreate_frame [OF q] f emits_trans [OF f(1)] q Inr c e assms show ?thesis
      by (auto simp: acquireCredentials_def Let_def split: sum.splits)
  next
    case False
    with Inr c f assms show ?thesis
      by (auto simp: acquireCredentials_def Let_def split: sum.splits if_splits)
  qed
qed


text \<open>The statements of the email synchronisation.\<close>

definition email_effect :: "effect \<Rightarrow> bool" where
  "email_effect ef \<longleftrightarrow> (\<exists>d c. ef = QuerySQL d show_users_sql [platformUser] \<or>
     ef = ExecSQL d alter_email_sql [platformUser, c])"

lemma syncPlatformEmail_frame:
  fixes s :: "('w, 'z) acc_sys_scheme"
  assumes "syncPlatformEmail (statement_New (db_executor E d)) contact s = (r, s')"
  shows "emits email_effect s s' \<and> ac_cr s' = ac_cr s"
proof -
  obtain r1 s1 where q: "runner_Query (statement_New (db_executor E d)) ''show platform user''
      show_users_sql [platformUser] s = (r1, s1)" by fastforce
  obtain r2 s2 where x: "runner_Exec (statement_New (db_executor E d)) ''sync platform user email''
      alter_email_sql [platformUser, contact] s1 = (r2, s2)" by fastforce
  note qf = runner_Query_acc [OF q] and xf = runner_Exec_acc [OF x]
  from qf have e1: "emits email_effect s s1" by (auto intro: emits_one simp: email_effect_def)
  from xf have "emits email_effect s1 s2" by (auto intro: emits_one simp: email_effect_def)
  with e1 have "emits email_effect s s2" by (rule emits_trans)
  with e1 q x qf xf assms show ?thesis
    by (auto simp: syncPlatformEmail_def split: sum.splits option.splits if_splits)
qed

text \<open>What an Apply of an existing account may do.\<close>

definition existing_effect :: "effect \<Rightarrow> bool" where
  "existing_effect ef \<longleftrightarrow> observe_effect ef \<or> email_effect ef"

lemma existing_effect_safe: "existing_effect ef \<Longrightarrow> \<not> is_create ef \<and> \<not> is_drop ef"
  by (auto simp: existing_effect_def email_effect_def is_create_def is_drop_def alter_email_sql_def
      dest: observe_effect_simps)

lemma secret_effect_safe: "secret_effect ef \<Longrightarrow> \<not> is_create ef \<and> \<not> is_drop ef"
  by (cases ef) (auto simp: is_create_def is_drop_def)

definition harmless :: "effect \<Rightarrow> bool" where
  "harmless ef \<longleftrightarrow> \<not> is_create ef \<and> \<not> is_drop ef"

lemma harmlessI: "existing_effect ef \<Longrightarrow> harmless ef" "secret_effect ef \<Longrightarrow> harmless ef"
  "observe_effect ef \<Longrightarrow> harmless ef" "pool_effect ef \<Longrightarrow> harmless ef" "is_log ef \<Longrightarrow> harmless ef"
  using existing_effect_safe secret_effect_safe observe_effect_simps
  by (auto simp: harmless_def observe_effect_def)

lemma harmless_query [simp]: "harmless (QuerySQL d q a)"
  by (simp add: harmless_def is_create_def is_drop_def)

text \<open>The shape of a create path's trace: at most one CREATE ACCOUNT, with exactly the
  resource's name and spec, among harmless effects.\<close>

definition create_trace ::
  "string \<Rightarrow> accountSpec \<Rightarrow> ('w, 'z) sys_scheme \<Rightarrow> ('w, 'z) sys_scheme \<Rightarrow> bool" where
  "create_trace n spec s s' \<longleftrightarrow> emits harmless s s' \<or>
     (\<exists>pre post d pk. trace s' =
        trace s @ pre @ ExecSQL d (create_account_text spec) (create_account_args n spec pk) # post \<and>
        list_all harmless pre \<and> list_all harmless post)"

lemma create_trace_pre:
  assumes "emits harmless s s1" and "create_trace n spec s1 s2"
  shows "create_trace n spec s s2"
proof -
  from assms(1) obtain efs where e: "trace s1 = trace s @ efs" "list_all harmless efs"
    by (auto simp: emits_def)
  show ?thesis
  proof (cases "emits harmless s1 s2")
    case True
    with assms(1) show ?thesis by (auto simp: create_trace_def intro: emits_trans)
  next
    case False
    with assms(2) obtain pre post d pk where "trace s2 = trace s1 @ pre @
          ExecSQL d (create_account_text spec) (create_account_args n spec pk) # post"
        "list_all harmless pre" "list_all harmless post"
      by (auto simp: create_trace_def)
    with e have "trace s2 = trace s @ (efs @ pre) @
          ExecSQL d (create_account_text spec) (create_account_args n spec pk) # post"
        "list_all harmless (efs @ pre)" "list_all harmless post" by simp_all
    then show ?thesis unfolding create_trace_def by blast
  qed
qed

lemma create_trace_post:
  assumes "create_trace n spec s s1" and "emits harmless s1 s2"
  shows "create_trace n spec s s2"
proof -
  from assms(2) obtain efs where e: "trace s2 = trace s1 @ efs" "list_all harmless efs"
    by (auto simp: emits_def)
  show ?thesis
  proof (cases "emits harmless s s1")
    case True
    with assms(2) show ?thesis by (auto simp: create_trace_def intro: emits_trans)
  next
    case False
    with assms(1) obtain pre post d pk where "trace s1 = trace s @ pre @
          ExecSQL d (create_account_text spec) (create_account_args n spec pk) # post"
        "list_all harmless pre" "list_all harmless post"
      by (auto simp: create_trace_def)
    with e have "trace s2 = trace s @ pre @
          ExecSQL d (create_account_text spec) (create_account_args n spec pk) # (post @ efs)"
        "list_all harmless pre" "list_all harmless (post @ efs)" by simp_all
    then show ?thesis unfolding create_trace_def by blast
  qed
qed

lemma create_trace_harmless: "emits harmless s s' \<Longrightarrow> create_trace n spec s s'"
  by (simp add: create_trace_def)

lemma issueCreate_trace:
  fixes s :: "('w, 'z) acc_sys_scheme"
  assumes "issueCreate E (statement_New (db_executor E d)) n creds s = (out, s')"
  shows "create_trace n (sa_Spec (ac_cr s)) s s'"
proof -
  from issueCreate_frame [OF assms] obtain post where "trace s' = trace s @ [] @ ExecSQL d
      (create_account_text (sa_Spec (ac_cr s)))
      (create_account_args n (sa_Spec (ac_cr s)) (c_PublicKey creds)) # post" "list_all harmless post"
    by fastforce
  moreover have "list_all harmless []" by simp
  ultimately show ?thesis unfolding create_trace_def by blast
qed

context db_pool
begin

lemma reconcileExisting_frame:
  assumes "rd_pool c = P" and "reconcileExisting E m c s = (out, s')"
  shows "emits existing_effect s s' \<and> ac_cr s' = ac_cr s \<and> \<not> oc_Aborted out"
proof -
  obtain b s1 where w: "withinGracePeriod E (am_gracePeriod m) s = (b, s1)" by fastforce
  obtain r s2 where t: "connectTenant c s1 = (r, s2)" by fastforce
  note wf = withinGracePeriod_frame [OF w] and tf = connectTenant_frame [OF assms(1) t]
  have e2: "emits existing_effect s s2"
    by (rule emits_trans [OF emits_same emits_mono [OF conjunct2 [OF tf]]])
      (auto simp: wf existing_effect_def observe_effect_def)
  show ?thesis
  proof (cases r)
    case (Inl e)
    with assms(2) w t wf tf e2 show ?thesis
      by (auto simp: reconcileExisting_def emits_same split: bool.splits)
  next
    case (Inr db)
    obtain r3 s3 where y: "syncPlatformEmail (statement_New (db_executor E db))
        (as_Contact (sa_Spec (ac_cr s2))) s2 = (r3, s3)" by fastforce
    note yf = syncPlatformEmail_frame [OF y]
    have "emits existing_effect s s3"
      by (rule emits_trans [OF e2 emits_mono [OF conjunct1 [OF yf]]]) (simp add: existing_effect_def)
    with Inr assms(2) w t y wf tf yf show ?thesis
      by (auto simp: reconcileExisting_def emits_same split: bool.splits option.splits)
  qed
qed

text \<open>A create from the org-admin connection on: it finishes with an account it found, or issues
  CREATE ACCOUNT.\<close>

lemma createAccount_connected:
  assumes "rd_pool c = P" and "createAccount E m c s = (out, s')"
    and "checkCreatable m (ac_cr s) (ResolvedAccountName c) (NamespaceLabels c) = None"
    and a: "acquireCredentials E m s = (Inr (creds, resumed), s1)" and g: "rd_OrgAdminDB c s1 = (Inr d, s2)"
  shows "create_trace (ResolvedAccountName c) (sa_Spec (ac_cr s)) s s' \<and>
    create_outcome E (ResolvedAccountName c) out s s'"
proof -
  let ?n = "ResolvedAccountName c"
  note af = acquireCredentials_frame [OF a] and gf = rd_OrgAdminDB_frame [OF assms(1) g]
  have e2: "emits harmless s s2"
    by (rule emits_trans [OF emits_mono [OF conjunct1 [OF af]] emits_mono [OF conjunct2 [OF gf]]])
      (rule harmlessI, assumption)+
  from af gf have cr: "ac_cr s2 = ac_cr s" by auto
  have issue: ?thesis if "issueCreate E (statement_New (db_executor E d)) ?n creds s3 = (out, s')"
      "emits harmless s s3" "ac_cr s3 = ac_cr s" for s3
    using issueCreate_frame [OF that(1)] create_trace_pre [OF that(2) issueCreate_trace [OF that(1)]]
      that(3) by (simp add: create_outcome_def)
  obtain r3 s3 where f: "findAccountLocator (statement_New (db_executor E d))
      ''check for existing account before resuming create'' ?n s2 = (r3, s3)" by fastforce
  note ff = findAccountLocator_frame [OF f]
  have e3: "emits harmless s s3"
    by (rule emits_trans [OF e2 emits_one [OF conjunct1 [OF ff]]]) simp
  have cr3: "ac_cr s3 = ac_cr s" using ff cr by simp
  consider (lookup_failed) e where "resumed" "r3 = Inl e" | (found) l where "resumed" "r3 = Inr (l, True)"
    | (absent) "\<not> resumed \<or> (\<exists>l. r3 = Inr (l, False))" by (cases r3) auto
  then show ?thesis
  proof cases
    case lookup_failed
    with assms(2,3) a g f e3 cr3 show ?thesis
      by (auto simp: createAccount_def Let_def create_outcome_Failed intro: create_trace_harmless)
  next
    case found
    with assms(2,3) a g f have fin: "finishCreate E l s3 = (out, s')" by (simp add: createAccount_def Let_def)
    from found ff have "located E ?n l" by blast
    from create_outcome_finish [OF fin this cr3] finishCreate_frame [OF fin]
      emits_trans [OF e3 emits_same]
    show ?thesis by (auto intro: create_trace_harmless)
  next
    case absent
    with assms(2,3) a g f
    have "issueCreate E (statement_New (db_executor E d)) ?n creds (if resumed then s3 else s2) = (out, s')"
      by (auto simp: createAccount_def Let_def)
    from issue [OF this] e2 e3 cr cr3 show ?thesis by simp
  qed
qed

lemma createAccount_frame:
  assumes "rd_pool c = P" and "createAccount E m c s = (out, s')"
  shows "create_trace (ResolvedAccountName c) (sa_Spec (ac_cr s)) s s' \<and>
    create_outcome E (ResolvedAccountName c) out s s'"
proof (cases "checkCreatable m (ac_cr s) (ResolvedAccountName c) (NamespaceLabels c)")
  case (Some e)
  with assms(2) show ?thesis
    by (auto simp: createAccount_def Let_def create_outcome_Failed intro: create_trace_harmless)
next
  case None
  obtain r1 s1 where a: "acquireCredentials E m s = (r1, s1)" by fastforce
  note af = acquireCredentials_frame [OF a]
  have e1: "emits harmless s s1" by (rule emits_mono [OF conjunct1 [OF af]]) (rule harmlessI)
  obtain r2 s2 where g: "rd_OrgAdminDB c s1 = (r2, s2)" by fastforce
  note gf = rd_OrgAdminDB_frame [OF assms(1) g]
  have e2: "emits harmless s s2"
    by (rule emits_trans [OF e1 emits_mono [OF conjunct2 [OF gf]]])
      (rule harmlessI)
  consider (no_credentials) e where "r1 = Inl e" | (no_connection) cb e where "r1 = Inr cb" "r2 = Inl e"
    | (connected) creds resumed d where "r1 = Inr (creds, resumed)" "r2 = Inr d"
    by (cases r1; cases r2) auto
  then show ?thesis
  proof cases
    case no_credentials
    with None assms(2) a e1 af show ?thesis
      by (auto simp: createAccount_def Let_def create_outcome_Failed intro: create_trace_harmless)
  next
    case no_connection
    with None assms(2) a g e2 af gf show ?thesis
      by (auto simp: createAccount_def Let_def create_outcome_Failed intro: create_trace_harmless split: prod.splits)
  next
    case connected
    with createAccount_connected [OF assms None] a g show ?thesis by blast
  qed
qed

text \<open>Apply: an existing account is never created again, and only a create path records a
  locator.\<close>

lemma account_Apply_existing:
  assumes "rd_pool c = P" and "cr_locator s \<noteq> []" and "account_Apply E m c s = (out, s')"
  shows "emits existing_effect s s' \<and> cr_kept (ac_cr s) (ac_cr s') \<and> cr_locator s' = cr_locator s \<and>
    (oc_Aborted out \<longrightarrow> oc_State out \<noteq> StateDone)"
proof -
  obtain out1 s1 where r: "reconcileExisting E m c s = (out1, s1)" by fastforce
  note rf = reconcileExisting_frame [OF assms(1) r] and sf = syncStatus_frame [of s1 E m c]
  from assms(2,3) r have o: "out = Abort out1" "s' = syncStatus E m c s1"
    by (auto simp: account_Apply_def account_apply_def)
  have "emits existing_effect s s'" unfolding o
    by (rule emits_trans [OF conjunct1 [OF rf] emits_mono [OF conjunct1 [OF sf]]])
      (simp add: existing_effect_def observe_effect_def)
  with rf sf o show ?thesis by (auto simp: Abort_aborted)
qed

lemma account_Apply_fresh:
  assumes "rd_pool c = P" and "cr_locator s = []" and "account_Apply E m c s = (out, s')"
  shows "create_trace (ResolvedAccountName c) (sa_Spec (ac_cr s)) s s' \<and> cr_kept (ac_cr s) (ac_cr s') \<and>
    oc_State out \<noteq> StateDone \<and> oc_Aborted out \<and>
    (cr_locator s' \<noteq> [] \<longrightarrow> located E (ResolvedAccountName c) (cr_locator s') \<and>
      oc_State out = StatePending \<and> st_AccountCreatedAt (sa_Status (ac_cr s')) \<noteq> None)"
proof -
  obtain out1 s1 where r: "createAccount E m c s = (out1, s1)" by fastforce
  note rf = createAccount_frame [OF assms(1) r] and sf = syncStatus_frame [of s1 E m c]
  from assms(2,3) r have o: "out = Abort out1" "s' = syncStatus E m c s1"
    by (auto simp: account_Apply_def account_apply_def)
  have na: "\<not> oc_Aborted out1 \<and> oc_State out1 \<noteq> StateDone"
    using rf by (auto simp: create_outcome_def)
  have "emits harmless s1 s'" unfolding o
    by (rule emits_mono [OF conjunct1 [OF sf]]) (rule harmlessI)
  with rf have tr: "create_trace (ResolvedAccountName c) (sa_Spec (ac_cr s)) s s'"
    by (blast intro: create_trace_post)
  with rf sf o na assms(2) show ?thesis
    by (auto simp: Abort_aborted create_outcome_def intro: cr_kept_trans)
qed

end


subsection \<open>Teardown\<close>

fun is_delete_secret :: "effect \<Rightarrow> bool" where
  "is_delete_secret (DeleteSecret i) = True"
| "is_delete_secret _ = False"

lemma pool_effect_no_delete: "pool_effect ef \<Longrightarrow> \<not> is_delete_secret ef"
  by (cases ef) auto

lemma deleteCredential_frame:
  fixes s :: "('w, 'z) acc_sys_scheme"
  assumes "deleteCredential m s = (r, s')"
  shows "ac_cr s' = ac_cr s \<and>
    (case NewTenantIdentifier (am_org m) (om_Namespace (sa_Meta (ac_cr s))) (om_Name (sa_Meta (ac_cr s))) of
       Inl e \<Rightarrow> r = Some e \<and> trace s' = trace s
     | Inr i \<Rightarrow> trace s' = trace s @ [DeleteSecret i])"
proof (cases "NewTenantIdentifier (am_org m) (om_Namespace (sa_Meta (ac_cr s))) (om_Name (sa_Meta (ac_cr s)))")
  case (Inl e)
  with assms show ?thesis by (simp add: deleteCredential_def Let_def)
next
  case (Inr i)
  obtain r0 s0 where d: "DeleteCredentials (am_keyManager m) i s = (r0, s0)" by fastforce
  from DeleteCredentials_frame [OF d] km_more_acc Inr d assms show ?thesis
    by (auto simp: deleteCredential_def Let_def split: option.splits)
qed

context db_pool
begin

lemma dropAccount_frame:
  assumes "rd_pool c = P" and "dropAccount E m c s = (r, s')"
  shows "ac_cr s' = ac_cr s \<and>
    (\<exists>pre post. trace s' = trace s @ pre @ post \<and> list_all pool_effect pre \<and>
       (post = [] \<and> r \<noteq> None \<or>
        (\<exists>d. post = [ExecSQL d (drop_account_sql (am_deletionGracePeriodDays m)) [ResolvedAccountName c]])))"
proof -
  obtain r1 s1 where g: "rd_OrgAdminDB c s = (r1, s1)" by fastforce
  note gf = rd_OrgAdminDB_frame [OF assms(1) g]
  then obtain pre where pre: "trace s1 = trace s @ pre" "list_all pool_effect pre"
    by (auto simp: emits_def)
  show ?thesis
  proof (cases r1)
    case (Inl e)
    with g gf pre assms(2) show ?thesis
      by (auto simp: dropAccount_def)
  next
    case (Inr d)
    obtain r2 s2 where x: "runner_Exec (statement_New (db_executor E d)) ''drop account''
        (drop_account_sql (am_deletionGracePeriodDays m)) [ResolvedAccountName c] s1 = (r2, s2)"
      by fastforce
    note xf = runner_Exec_acc [OF x]
    from Inr g x assms(2) have "s' = s2" by (auto simp: dropAccount_def split: option.splits)
    with xf gf pre have "ac_cr s' = ac_cr s" "trace s' = trace s @ pre @
        [ExecSQL d (drop_account_sql (am_deletionGracePeriodDays m)) [ResolvedAccountName c]]"
      by simp_all
    with pre(2) show ?thesis by blast
  qed
qed

lemma rd_EvictTenant_pool:
  assumes "rd_pool c = P"
  obtains efs where "trace (rd_EvictTenant c s) = trace s @ efs" "list_all pool_effect efs"
    "ac_cr (rd_EvictTenant c s) = ac_cr s"
  using rd_EvictTenant_frame [OF assms, of s] that by (auto simp: emits_def)

text \<open>The three ways a teardown of an existing account ends.\<close>

lemma account_Teardown_existing:
  assumes "rd_pool c = P" and "cr_locator s \<noteq> []" and "account_Teardown E m c s = (r, s')"
  obtains (drop_failed) efs where "r \<noteq> None" "ac_cr s' = ac_cr s" "trace s' = trace s @ efs"
      "list_all (\<lambda>ef. \<not> is_delete_secret ef) efs"
  | (dropped) pre d mid rest where "cr_locator s' = []" "cr_kept (ac_cr s) (ac_cr s')"
      "trace s' = trace s @ pre @
        ExecSQL d (drop_account_sql (am_deletionGracePeriodDays m)) [ResolvedAccountName c] # mid @ rest"
      "list_all pool_effect pre" "list_all pool_effect mid"
      "case NewTenantIdentifier (am_org m) (om_Namespace (sa_Meta (ac_cr s))) (om_Name (sa_Meta (ac_cr s))) of
         Inl e \<Rightarrow> r = Some e \<and> rest = [] | Inr i \<Rightarrow> rest = [DeleteSecret i]"
proof -
  obtain r1 s1 where d: "dropAccount E m c s = (r1, s1)" by fastforce
  from dropAccount_frame [OF assms(1) d] obtain pre post where df: "ac_cr s1 = ac_cr s"
      "trace s1 = trace s @ pre @ post" "list_all pool_effect pre"
      "post = [] \<and> r1 \<noteq> None \<or> (\<exists>d. post =
        [ExecSQL d (drop_account_sql (am_deletionGracePeriodDays m)) [ResolvedAccountName c]])"
    by blast
  show thesis
  proof (cases r1)
    case (Some e)
    with assms(2,3) d have rs: "r = Some e" "s' = s1" by (auto simp: account_Teardown_def)
    have "list_all (\<lambda>ef. \<not> is_delete_secret ef) (pre @ post)"
      using list_all_weaken [OF df(3) pool_effect_no_delete] df(4) by auto
    with drop_failed df rs show thesis by simp
  next
    case None
    with df(4) obtain db where p: "post =
        [ExecSQL db (drop_account_sql (am_deletionGracePeriodDays m)) [ResolvedAccountName c]]" by blast
    obtain mid where m: "trace (rd_EvictTenant c s1) = trace s1 @ mid" "list_all pool_effect mid"
        "ac_cr (rd_EvictTenant c s1) = ac_cr s1"
      using rd_EvictTenant_pool [OF assms(1), of s1] .
    let ?s3 = "set_status (\<lambda>st. st\<lparr>st_AccountLocator := []\<rparr>) (rd_EvictTenant c s1)"
    from assms(2,3) d None have dc: "deleteCredential m ?s3 = (r, s')"
      by (simp add: account_Teardown_def Let_def)
    note f = deleteCredential_frame [OF dc]
    have k: "cr_locator s' = []" "cr_kept (ac_cr s) (ac_cr s')"
      using f m(3) df(1) by (auto simp: cr_kept_def)
    show thesis
    proof (cases "NewTenantIdentifier (am_org m) (om_Namespace (sa_Meta (ac_cr s))) (om_Name (sa_Meta (ac_cr s)))")
      case (Inl e)
      with f m df p show thesis by (intro dropped [OF k, of pre db mid "[]"]) auto
    next
      case (Inr i)
      with f m df p show thesis by (intro dropped [OF k, of pre db mid "[DeleteSecret i]"]) auto
    qed
  qed
qed

lemma account_Teardown_kept:
  assumes "rd_pool c = P" and "account_Teardown E m c s = (r, s')"
  shows "cr_kept (ac_cr s) (ac_cr s')"
proof (cases "cr_locator s = []")
  case True
  with assms(2) deleteCredential_frame [of m s r s'] show ?thesis by (simp add: account_Teardown_def)
next
  case False
  from assms(1) False assms(2) show ?thesis
    by (cases rule: account_Teardown_existing) auto
qed

lemma account_pmodule_contract: "pipeline_module (account_pmodule E m) P"
proof
  fix d s out s'
  assume "rd_pool d = P" and "md_Observe (account_pmodule E m) d s = (out, s')"
  then show "emits observe_effect s s' \<and> cr_kept (ac_cr s) (ac_cr s') \<and> cr_locator s' = cr_locator s"
    using account_Observe_frame by (simp add: account_pmodule_def)
next
  fix d s out s'
  assume p: "rd_pool d = P" and "md_Apply (account_pmodule E m) d s = (out, s')" and "oc_Aborted out"
  then show "oc_State out \<noteq> StateDone"
    using account_Apply_existing [OF p, of s E m out s'] account_Apply_fresh [OF p, of s E m out s']
    by (cases "cr_locator s = []") (auto simp: account_pmodule_def)
next
  fix d s out s'
  assume p: "rd_pool d = P" and "md_Apply (account_pmodule E m) d s = (out, s')"
  then show "cr_kept (ac_cr s) (ac_cr s')"
    using account_Apply_existing [OF p, of s E m out s'] account_Apply_fresh [OF p, of s E m out s']
    by (cases "cr_locator s = []") (auto simp: account_pmodule_def)
next
  fix d s r s'
  assume "rd_pool d = P" and "md_Teardown (account_pmodule E m) d s = (r, s')"
  then show "cr_kept (ac_cr s) (ac_cr s')"
    using account_Teardown_kept by (simp add: account_pmodule_def)
qed

end

text \<open>The module, over the connection pool, keeps the contract of a module; and the pipeline
  the controller registers has nothing but this module in it.\<close>

interpretation am: pipeline_module "account_pmodule E m" "pool_db_pool E (pool_New E km cfg)"
  for E m km cfg
  by (rule pl.account_pmodule_contract)

definition account_pipeline ::
  "'w env \<Rightarrow> 'w account_module \<Rightarrow> ('w, 'z) acc_sys_scheme pipeline" where
  "account_pipeline E m = pipeline_New [account_pmodule E m]"

interpretation ap: module_list "[account_pmodule E m]" "pool_db_pool E (pool_New E km cfg)"
  for E m km cfg
  by (rule module_list.intro) (simp add: pl.account_pmodule_contract)


end
