(* ===== verification/Deletion.thy ===== *)
theory Deletion
  imports AccountModule
begin

text \<open>
  Package \<open>internal/deletion\<close> and the \<open>DeletionPermit\<close> controller
  (\<open>internal/controller/deletionpermit/reconciler.go\<close>).  The Kubernetes client is the
  parameter record \<open>kube\<close>: reading a namespace's labels, listing permits and the two status
  updates.
\<close>

record 'w kube =
  kb_GetNamespace :: "string \<Rightarrow> 'w \<Rightarrow> labels result \<times> 'w"
  kb_UpdateAccountStatus :: "snowflakeAccount \<Rightarrow> 'w \<Rightarrow> gerror option \<times> 'w"
  kb_ListPermits :: "string \<Rightarrow> 'w \<Rightarrow> deletionPermit list result \<times> 'w"
  kb_UpdatePermitStatus :: "deletionPermit \<Rightarrow> 'w \<Rightarrow> gerror option \<times> 'w"

definition stateActive :: string where "stateActive = ''Active''"
definition stateExpired :: string where "stateExpired = ''Expired''"
definition stateConsumed :: string where "stateConsumed = ''Consumed''"

subsection \<open>Lookup\<close>

fun find_earliest ::
  "string \<Rightarrow> string \<Rightarrow> deletionPermit option \<Rightarrow> deletionPermit list \<Rightarrow> deletionPermit option" where
  "find_earliest targetKind targetName earliest [] = earliest"
| "find_earliest targetKind targetName earliest (permit # permits) =
     (if pt_State (dp_Status permit) \<noteq> stateActive
      then find_earliest targetKind targetName earliest permits
      else if tr_Kind (ps_TargetRef (dp_Spec permit)) \<noteq> targetKind \<or>
        tr_Name (ps_TargetRef (dp_Spec permit)) \<noteq> targetName
      then find_earliest targetKind targetName earliest permits
      else if (case earliest of None \<Rightarrow> True
        | Some e \<Rightarrow> om_CreationTimestamp (dp_Meta permit) < om_CreationTimestamp (dp_Meta e))
      then find_earliest targetKind targetName (Some permit) permits
      else find_earliest targetKind targetName earliest permits)"

definition FindActivePermit ::
  "'w kube \<Rightarrow> string \<Rightarrow> string \<Rightarrow> string \<Rightarrow> ('w, 'z) sys_scheme
     \<Rightarrow> deletionPermit option result \<times> ('w, 'z) sys_scheme" where
  "FindActivePermit K namespace targetKind targetName s =
     (case call (ListPermits namespace) (kb_ListPermits K namespace) s of
        (Inl err, s1) \<Rightarrow> (Inl (wrap ''failed to list DeletionPermit objects: '' err), s1)
      | (Inr items, s1) \<Rightarrow> (Inr (find_earliest targetKind targetName None items), s1))"

definition MarkConsumed ::
  "'w kube \<Rightarrow> deletionPermit \<Rightarrow> ('w, 'z) sys_scheme
     \<Rightarrow> gerror option \<times> deletionPermit \<times> ('w, 'z) sys_scheme" where
  "MarkConsumed K permit s =
     (let permit1 = permit\<lparr>dp_Status := (dp_Status permit)\<lparr>pt_State := stateConsumed\<rparr>\<rparr>;
          ns = om_Namespace (dp_Meta permit); name = om_Name (dp_Meta permit) in
      case call (UpdatePermitStatus ns name stateConsumed) (kb_UpdatePermitStatus K permit1) s of
        (Some err, s1) \<Rightarrow>
          (Some (wrap (''failed to mark DeletionPermit '' @ ns @ ''/'' @ name @ '' as consumed: '') err),
           permit1, s1)
      | (None, s1) \<Rightarrow> (None, permit1, s1))"

definition matching :: "string \<Rightarrow> string \<Rightarrow> deletionPermit \<Rightarrow> bool" where
  "matching targetKind targetName permit \<longleftrightarrow>
     pt_State (dp_Status permit) = stateActive \<and>
     tr_Kind (ps_TargetRef (dp_Spec permit)) = targetKind \<and>
     tr_Name (ps_TargetRef (dp_Spec permit)) = targetName"

abbreviation created :: "deletionPermit \<Rightarrow> time" where
  "created permit \<equiv> om_CreationTimestamp (dp_Meta permit)"

lemma find_earliest_None:
  "find_earliest k n e permits = None \<longleftrightarrow> e = None \<and> (\<forall>p. p \<in> set permits \<longrightarrow> \<not> matching k n p)"
  by (induction permits arbitrary: e) (auto simp: matching_def split: option.splits)

lemma find_earliest_Some:
  "find_earliest k n e permits = Some p \<Longrightarrow>
     (e = Some p \<or> p \<in> set permits \<and> matching k n p) \<and>
     (\<forall>q. e = Some q \<longrightarrow> created p \<le> created q) \<and>
     (\<forall>q. q \<in> set permits \<longrightarrow> matching k n q \<longrightarrow> created p \<le> created q)"
proof (induction permits arbitrary: e)
  case (Cons x permits)
  show ?case
  proof (cases "matching k n x \<and> (case e of None \<Rightarrow> True | Some y \<Rightarrow> created x < created y)")
    case True
    with Cons.prems have "find_earliest k n (Some x) permits = Some p" by (simp add: matching_def)
    from Cons.IH [OF this] True show ?thesis by (auto split: option.splits)
  next
    case False
    with Cons.prems have f: "find_earliest k n e permits = Some p"
      by (auto simp: matching_def split: if_splits)
    from Cons.IH [OF f] False show ?thesis by (fastforce split: option.splits)
  qed
qed simp

subsection \<open>The permit's own controller\<close>

definition permit_Observe ::
  "'w env \<Rightarrow> xpv1 \<Rightarrow> deletionPermit \<Rightarrow> ('w, 'z) sys_scheme
     \<Rightarrow> external_observation \<times> deletionPermit \<times> ('w, 'z) sys_scheme" where
  "permit_Observe E X cr s =
     (if om_DeletionTimestamp (dp_Meta cr) \<noteq> None
      then (\<lparr>eo_ResourceExists = False, eo_ResourceUpToDate = False\<rparr>, cr, s)
      else
        let (cr1, s1) =
          (if pt_State (dp_Status cr) \<noteq> stateExpired \<and> pt_State (dp_Status cr) \<noteq> stateConsumed then
             let validUntil = created cr + ps_Duration (dp_Spec cr) in
             (case now E s of
                (t, s1) \<Rightarrow>
                  let state = (if t > validUntil then stateExpired else stateActive) in
                  (cr\<lparr>dp_Status := (dp_Status cr)\<lparr>pt_ValidUntil := Some validUntil, pt_State := state\<rparr>\<rparr>, s1))
           else (cr, s))
        in (\<lparr>eo_ResourceExists = True, eo_ResourceUpToDate = True\<rparr>,
            dp_SetConditions X [xp_Available X] cr1, s1))"

definition permit_Create :: "deletionPermit \<Rightarrow> 's \<Rightarrow> gerror option \<times> 's" where
  "permit_Create cr s = (None, s)"

definition permit_Update :: "deletionPermit \<Rightarrow> 's \<Rightarrow> gerror option \<times> 's" where
  "permit_Update cr s = (None, s)"

definition permit_Delete :: "deletionPermit \<Rightarrow> 's \<Rightarrow> gerror option \<times> 's" where
  "permit_Delete cr s = (None, s)"

definition permit_Disconnect :: "'s \<Rightarrow> gerror option \<times> 's" where
  "permit_Disconnect s = (None, s)"

lemma dp_SetConditions_other [simp]:
  "dp_Meta (dp_SetConditions X cs r) = dp_Meta r" "dp_Spec (dp_SetConditions X cs r) = dp_Spec r"
  "pt_State (dp_Status (dp_SetConditions X cs r)) = pt_State (dp_Status r)"
  "pt_ValidUntil (dp_Status (dp_SetConditions X cs r)) = pt_ValidUntil (dp_Status r)"
  by (simp_all add: dp_SetConditions_def)

definition terminal :: "string \<Rightarrow> bool" where
  "terminal st \<longleftrightarrow> st = stateExpired \<or> st = stateConsumed"

lemma state_distinct [simp]:
  "stateActive \<noteq> stateExpired" "stateActive \<noteq> stateConsumed" "stateExpired \<noteq> stateConsumed"
  "stateExpired \<noteq> stateActive" "stateConsumed \<noteq> stateActive" "stateConsumed \<noteq> stateExpired"
  by (simp_all add: stateActive_def stateExpired_def stateConsumed_def)

lemma permit_Observe_state:
  assumes "permit_Observe E X cr s = (obs, cr', s')"
  shows "dp_Meta cr' = dp_Meta cr \<and> dp_Spec cr' = dp_Spec cr \<and>
    (if om_DeletionTimestamp (dp_Meta cr) \<noteq> None then cr' = cr \<and> \<not> eo_ResourceExists obs
     else eo_ResourceExists obs \<and> eo_ResourceUpToDate obs \<and>
       (if terminal (pt_State (dp_Status cr))
        then pt_State (dp_Status cr') = pt_State (dp_Status cr) \<and>
          pt_ValidUntil (dp_Status cr') = pt_ValidUntil (dp_Status cr)
        else pt_ValidUntil (dp_Status cr') = Some (created cr + ps_Duration (dp_Spec cr)) \<and>
          pt_State (dp_Status cr') =
            (if fst (env_now E (world s)) > created cr + ps_Duration (dp_Spec cr)
             then stateExpired else stateActive)))"
proof -
  obtain t s1 where n: "now E s = (t, s1)" by fastforce
  from now_frame [OF n] have "fst (env_now E (world s)) = t" by auto
  with n assms show ?thesis
    by (auto simp: permit_Observe_def Let_def terminal_def split: if_splits)
qed

text \<open>The life of one permit: observations at later and later times, and one consumption while
  it is Active, in any order.\<close>

inductive permit_step :: "'w env \<Rightarrow> xpv1 \<Rightarrow> deletionPermit \<Rightarrow> deletionPermit \<Rightarrow> bool" for E X where
  p_observe: "permit_Observe E X cr (s :: 'w sys) = (obs, cr', s') \<Longrightarrow> permit_step E X cr cr'"
| p_consume: "pt_State (dp_Status cr) = stateActive \<Longrightarrow>
    MarkConsumed (K :: 'w kube) cr (s :: 'w sys) = (r, cr', s') \<Longrightarrow>
    permit_step E X cr cr'"

inductive_cases permit_stepE: "permit_step E X cr cr'"

inductive permit_steps :: "'w env \<Rightarrow> xpv1 \<Rightarrow> deletionPermit \<Rightarrow> deletionPermit \<Rightarrow> bool" for E X where
  ps_refl: "permit_steps E X cr cr"
| ps_step: "permit_steps E X cr cr1 \<Longrightarrow> permit_step E X cr1 cr2 \<Longrightarrow> permit_steps E X cr cr2"

lemma MarkConsumed_permit:
  "MarkConsumed K permit s = (r, permit', s') \<Longrightarrow>
     permit' = permit\<lparr>dp_Status := (dp_Status permit)\<lparr>pt_State := stateConsumed\<rparr>\<rparr> \<and>
     trace s' = trace s @ [UpdatePermitStatus (om_Namespace (dp_Meta permit)) (om_Name (dp_Meta permit))
       stateConsumed] \<and> sys.more s' = sys.more s"
  by (auto simp: MarkConsumed_def Let_def dest!: call_frame split: prod.splits option.splits)

lemma permit_step_terminal:
  "permit_step E X cr cr' \<Longrightarrow> terminal (pt_State (dp_Status cr)) \<Longrightarrow>
     pt_State (dp_Status cr') = pt_State (dp_Status cr) \<and>
     pt_ValidUntil (dp_Status cr') = pt_ValidUntil (dp_Status cr)"
  by (erule permit_stepE) (auto dest!: permit_Observe_state simp: terminal_def split: if_splits)

lemma permit_steps_terminal:
  "permit_steps E X cr cr' \<Longrightarrow> terminal (pt_State (dp_Status cr)) \<Longrightarrow>
     pt_State (dp_Status cr') = pt_State (dp_Status cr) \<and>
     pt_ValidUntil (dp_Status cr') = pt_ValidUntil (dp_Status cr)"
  by (induction rule: permit_steps.induct) (auto dest: permit_step_terminal)

subsection \<open>Properties\<close>

text \<open>C37: FindActivePermit returns a permit exactly when an active one for this kind and name is
  listed, and then one of those with the earliest creation time; a failing list is a system
  error.\<close>

theorem FindActivePermit_earliest:
  assumes "kb_ListPermits K ns (world s) = (r, w)"
  shows "case r of
      Inl err \<Rightarrow> \<exists>e. fst (FindActivePermit K ns kind name s) = Inl e \<and> (\<not> IsUserError err \<longrightarrow> \<not> IsUserError e)
    | Inr items \<Rightarrow> \<exists>po. fst (FindActivePermit K ns kind name s) = Inr po \<and>
        (po = None \<longleftrightarrow> (\<forall>p. p \<in> set items \<longrightarrow> \<not> matching kind name p)) \<and>
        (\<forall>p. po = Some p \<longrightarrow> p \<in> set items \<and> matching kind name p \<and>
           (\<forall>q. q \<in> set items \<longrightarrow> matching kind name q \<longrightarrow> created p \<le> created q))"
  using assms find_earliest_None [of kind name None] find_earliest_Some [of kind name None]
  by (auto simp: FindActivePermit_def call_def split: sum.splits)

text \<open>Expired and Consumed are final: whatever observations, at whatever times, and whatever
  consumptions of an Active permit follow, the state and the validity stay what they were.\<close>

theorem permit_terminal_states:
  assumes "permit_steps E X cr cr'" and "terminal (pt_State (dp_Status cr))"
  shows "pt_State (dp_Status cr') = pt_State (dp_Status cr) \<and>
    pt_ValidUntil (dp_Status cr') = pt_ValidUntil (dp_Status cr)"
  using assms by (rule permit_steps_terminal)

text \<open>Until then every observation of a permit that is not being deleted recomputes it from the
  clock: Expired if creation plus duration has passed, Active otherwise.\<close>

theorem permit_Observe_clock:
  assumes "permit_Observe E X cr s = (obs, cr', s')" and "om_DeletionTimestamp (dp_Meta cr) = None"
    and "\<not> terminal (pt_State (dp_Status cr))"
  shows "pt_ValidUntil (dp_Status cr') = Some (created cr + ps_Duration (dp_Spec cr)) \<and>
    (pt_State (dp_Status cr') = stateExpired \<longleftrightarrow>
       fst (env_now E (world s)) > created cr + ps_Duration (dp_Spec cr)) \<and>
    (pt_State (dp_Status cr') = stateActive \<longleftrightarrow>
       fst (env_now E (world s)) \<le> created cr + ps_Duration (dp_Spec cr)) \<and>
    eo_ResourceExists obs"
  using permit_Observe_state [OF assms(1)] assms(2,3) by (auto simp: not_less split: if_splits)

end
