(* ===== verification/Controller.thy ===== *)
theory Controller
  imports Deletion BaseConfig
begin

text \<open>
  \<open>internal/controller/snowflakeaccount/reconciler.go\<close>: the external client that
  crossplane-runtime's managed reconciler calls.  The resource handed to every method is the
  field \<open>ac_cr\<close> of the state, the event recorder is the trace.  A successful status update
  refreshes the resource version only, which the model's metadata does not hold.
\<close>

record ('w, 's) external =
  xt_kube :: "'w kube"
  xt_pool :: "'s db_pool"
  xt_pipeline :: "'s pipeline"
  xt_cfg :: config

text \<open>\<open>connector\<close> has the same fields: Connect hands them on, without any I/O.\<close>

record ('w, 's) connector =
  cn_kube :: "'w kube"
  cn_pool :: "'s db_pool"
  cn_pipeline :: "'s pipeline"
  cn_cfg :: config

definition Setup ::
  "'w env \<Rightarrow> 'w kube \<Rightarrow> config \<Rightarrow> ('w, 'z) acc_sys_scheme db_pool \<Rightarrow> 'w key_manager \<Rightarrow> backplane
     \<Rightarrow> ('w, ('w, 'z) acc_sys_scheme) connector" where
  "Setup E kube cfg p keyManager bpConfig =
     (let pl = pipeline_New [account_pmodule E (account_New keyManager (sf_Org (cfg_Snowflake cfg))
                 (sf_AccountCreationGracePeriod (cfg_Snowflake cfg))
                 (del_GracePeriodDays (cfg_Deletion cfg))
                 (sf_UsePrivateLink (cfg_Snowflake cfg)) bpConfig)]
      in \<lparr>cn_kube = kube, cn_pool = p, cn_pipeline = pl, cn_cfg = cfg\<rparr>)"

definition Connect :: "('w, 's) connector \<Rightarrow> ('w, 's) external" where
  "Connect c = \<lparr>xt_kube = cn_kube c, xt_pool = cn_pool c, xt_pipeline = cn_pipeline c, xt_cfg = cn_cfg c\<rparr>"

definition Disconnect :: "'s \<Rightarrow> gerror option \<times> 's" where
  "Disconnect s = (None, s)"

definition namespaceLabels ::
  "('w, 's) external \<Rightarrow> string \<Rightarrow> ('w, 'z) sys_scheme \<Rightarrow> labels result \<times> ('w, 'z) sys_scheme" where
  "namespaceLabels e namespace s =
     (case call (GetNamespace namespace) (kb_GetNamespace (xt_kube e) namespace) s of
        (Inl err, s1) \<Rightarrow> (Inl (wrap (''failed to get namespace '' @ namespace @ '': '') err), s1)
      | (Inr ls, s1) \<Rightarrow> (Inr ls, s1))"

definition record_event :: "event \<Rightarrow> ('w, 'z) sys_scheme \<Rightarrow> ('w, 'z) sys_scheme" where
  "record_event ev s = emit (EmitEvent (ev_Type ev) (ev_Reason ev) (ev_Message ev)) s"

fun record_events :: "event list \<Rightarrow> ('w, 'z) sys_scheme \<Rightarrow> ('w, 'z) sys_scheme" where
  "record_events [] s = s"
| "record_events (ev # evs) s = record_events evs (record_event ev s)"

definition set_conditions ::
  "xpv1 \<Rightarrow> condition list \<Rightarrow> ('w, 'z) acc_sys_scheme \<Rightarrow> ('w, 'z) acc_sys_scheme" where
  "set_conditions X cs s = s\<lparr>ac_cr := sa_SetConditions X cs (ac_cr s)\<rparr>"

definition report_run ::
  "xpv1 \<Rightarrow> report \<Rightarrow> ('w, 'z) acc_sys_scheme \<Rightarrow> ('w, 'z) acc_sys_scheme" where
  "report_run X r s =
     set_conditions X [rp_Ready r] (set_conditions X (rp_Conditions r) (record_events (rp_Events r) s))"

definition account_logger :: "operation \<Rightarrow> snowflakeAccount \<Rightarrow> logger" where
  "account_logger op cr =
     logger_New (om_Namespace (sa_Meta cr)) snowflakeAccountKind (om_Name (sa_Meta cr)) op"

definition zero_observation :: external_observation where
  "zero_observation = \<lparr>eo_ResourceExists = False, eo_ResourceUpToDate = False\<rparr>"

definition Observe ::
  "'w env \<Rightarrow> xpv1 \<Rightarrow> ('w, ('w, 'z) acc_sys_scheme) external \<Rightarrow> ('w, 'z) acc_sys_scheme
     \<Rightarrow> external_observation \<times> gerror option \<times> ('w, 'z) acc_sys_scheme" where
  "Observe E X e s =
     (let log = account_logger OpObserve (ac_cr s) in
      if om_DeletionTimestamp (sa_Meta (ac_cr s)) \<noteq> None
      then (\<lparr>eo_ResourceExists = (cr_locator s \<noteq> []), eo_ResourceUpToDate = True\<rparr>, None, s)
      else
        (case namespaceLabels e (om_Namespace (sa_Meta (ac_cr s))) s of
           (Inl err, s1) \<Rightarrow>
             (case Handle E log (Some err) s1 of (r, s2) \<Rightarrow> (zero_observation, r, s2))
         | (Inr labels, s1) \<Rightarrow>
             (case NewResourceData labels log (xt_pool e) s1 of
                (data, s2) \<Rightarrow>
                  (case pipeline_Observe X (xt_pipeline e) data s2 of
                     (obs, s3) \<Rightarrow>
                       let s4 = report_run X (observation_report X obs) s3 in
                       (case Handle E log (outcomes_Err (ob_Outcomes obs)) s4 of
                          (r, s5) \<Rightarrow> (ExternalObservation obs, r, s5))))))"

definition apply_cr ::
  "'w env \<Rightarrow> xpv1 \<Rightarrow> ('w, ('w, 'z) acc_sys_scheme) external \<Rightarrow> ('w, 'z) acc_sys_scheme
     \<Rightarrow> gerror option \<times> ('w, 'z) acc_sys_scheme" where
  "apply_cr E X e s =
     (let log = account_logger OpUpdate (ac_cr s) in
      case namespaceLabels e (om_Namespace (sa_Meta (ac_cr s))) s of
        (Inl err, s1) \<Rightarrow> Handle E log (Some err) s1
      | (Inr labels, s1) \<Rightarrow>
          (case NewResourceData labels log (xt_pool e) s1 of
             (data, s2) \<Rightarrow>
               (case pipeline_Apply X (xt_pipeline e) data s2 of
                  (res, s3) \<Rightarrow>
                    let s4 = report_run X (result_report X res) s3 in
                    (case Handle E log (outcomes_Err (ar_Outcomes res)) s4 of
                       (firstErr, s5) \<Rightarrow>
                         (case call (UpdateAccountStatus (om_Namespace (sa_Meta (ac_cr s5)))
                                       (om_Name (sa_Meta (ac_cr s5))))
                                 (kb_UpdateAccountStatus (xt_kube e) (ac_cr s5)) s5 of
                            (Some err, s6) \<Rightarrow>
                              if firstErr = None then Handle E log (Some err) s6 else (firstErr, s6)
                          | (None, s6) \<Rightarrow> (firstErr, s6))))))"

definition Create ::
  "'w env \<Rightarrow> xpv1 \<Rightarrow> ('w, ('w, 'z) acc_sys_scheme) external \<Rightarrow> ('w, 'z) acc_sys_scheme
     \<Rightarrow> gerror option \<times> ('w, 'z) acc_sys_scheme" where
  "Create E X e s = apply_cr E X e s"

definition Update ::
  "'w env \<Rightarrow> xpv1 \<Rightarrow> ('w, ('w, 'z) acc_sys_scheme) external \<Rightarrow> ('w, 'z) acc_sys_scheme
     \<Rightarrow> gerror option \<times> ('w, 'z) acc_sys_scheme" where
  "Update E X e s = apply_cr E X e s"

definition blocked_error :: gerror where
  "blocked_error = NewUserError ''deletion blocked: no active DeletionPermit authorizes this account''"

text \<open>Delete from the namespace labels on: the teardown and the consumption of the permit.\<close>

definition delete_phase3 ::
  "'w env \<Rightarrow> ('w, ('w, 'z) acc_sys_scheme) external \<Rightarrow> logger \<Rightarrow> deletionPermit option
     \<Rightarrow> ('w, 'z) acc_sys_scheme \<Rightarrow> gerror option \<times> ('w, 'z) acc_sys_scheme" where
  "delete_phase3 E e log permit s =
     (case namespaceLabels e (om_Namespace (sa_Meta (ac_cr s))) s of
        (Inl err, s1) \<Rightarrow> Handle E log (Some err) s1
      | (Inr labels, s1) \<Rightarrow>
          (case NewResourceData labels log (xt_pool e) s1 of
             (data, s2) \<Rightarrow>
               (case pipeline_Destroy (xt_pipeline e) data s2 of
                  (Some err, s3) \<Rightarrow> Handle E log (Some err) s3
                | (None, s3) \<Rightarrow>
                    (case permit of
                       None \<Rightarrow> (None, s3)
                     | Some p \<Rightarrow>
                         (case MarkConsumed (xt_kube e) p s3 of (r, p', s4) \<Rightarrow> (r, s4))))))"

definition Delete ::
  "'w env \<Rightarrow> xpv1 \<Rightarrow> ('w, ('w, 'z) acc_sys_scheme) external \<Rightarrow> ('w, 'z) acc_sys_scheme
     \<Rightarrow> gerror option \<times> ('w, 'z) acc_sys_scheme" where
  "Delete E X e s =
     (let log = account_logger OpDelete (ac_cr s) in
      if del_Protection (cfg_Deletion (xt_cfg e)) then
        (case FindActivePermit (xt_kube e) (om_Namespace (sa_Meta (ac_cr s))) snowflakeAccountKind
                (om_Name (sa_Meta (ac_cr s))) s of
           (Inl err, s1) \<Rightarrow> Handle E log (Some err) s1
         | (Inr None, s1) \<Rightarrow>
             let s2 = record_event (xp_Warning X ''DeletionBlocked'' blocked_error) s1;
                 s3 = set_conditions X [xp_WithMessage X (xp_Unavailable X) (err_text blocked_error)] s2
             in Handle E log (Some blocked_error) s3
         | (Inr (Some permit), s1) \<Rightarrow> delete_phase3 E e log (Some permit) s1)
      else delete_phase3 E e log None s)"

subsection \<open>Frames\<close>

fun is_event :: "effect \<Rightarrow> bool" where
  "is_event (EmitEvent t r m) = True"
| "is_event _ = False"

text \<open>What the controller does itself, beside the pipeline's runs.\<close>

fun is_controller :: "effect \<Rightarrow> bool" where
  "is_controller (GetNamespace n) = True"
| "is_controller (UpdateAccountStatus n m) = True"
| "is_controller (ListPermits n) = True"
| "is_controller ef = (is_event ef \<or> is_log ef)"

lemma is_controllerI: "is_event ef \<Longrightarrow> is_controller ef" "is_log ef \<Longrightarrow> is_controller ef"
  by (cases ef; simp)+

lemma record_events_frame:
  fixes s :: "('w, 'z) acc_sys_scheme"
  shows "emits is_event s (record_events evs s) \<and> ac_cr (record_events evs s) = ac_cr s \<and>
    world (record_events evs s) = world s"
proof (induction evs arbitrary: s)
  case (Cons ev evs)
  have "emits is_event s (record_event ev s)" "ac_cr (record_event ev s) = ac_cr s"
    "world (record_event ev s) = world s"
    by (auto simp: record_event_def emit_def intro: emits_one)
  with Cons.IH [of "record_event ev s"] show ?case by (auto intro: emits_trans)
qed simp

lemma set_conditions_simps [simp]:
  "trace (set_conditions X cs s) = trace s" "world (set_conditions X cs s) = world s"
  "sa_Meta (ac_cr (set_conditions X cs s)) = sa_Meta (ac_cr s)"
  "sa_Spec (ac_cr (set_conditions X cs s)) = sa_Spec (ac_cr s)"
  "cr_locator (set_conditions X cs s) = cr_locator s"
  "st_ObservedGeneration (sa_Status (ac_cr (set_conditions X cs s))) = st_ObservedGeneration (sa_Status (ac_cr s))"
  "st_AccountCreatedAt (sa_Status (ac_cr (set_conditions X cs s))) = st_AccountCreatedAt (sa_Status (ac_cr s))"
  by (simp_all add: set_conditions_def sa_SetConditions_def)

text \<open>The part of the resource a run of the controller around the pipeline leaves alone.\<close>

definition same_identity :: "snowflakeAccount \<Rightarrow> snowflakeAccount \<Rightarrow> bool" where
  "same_identity a b \<longleftrightarrow> sa_Meta b = sa_Meta a \<and> sa_Spec b = sa_Spec a"

definition same_record :: "snowflakeAccount \<Rightarrow> snowflakeAccount \<Rightarrow> bool" where
  "same_record a b \<longleftrightarrow> same_identity a b \<and>
     st_AccountLocator (sa_Status b) = st_AccountLocator (sa_Status a) \<and>
     st_ObservedGeneration (sa_Status b) = st_ObservedGeneration (sa_Status a)"

lemma same_record_refl [simp, intro]: "same_record a a"
  by (simp add: same_record_def same_identity_def)

lemma same_record_trans: "same_record a b \<Longrightarrow> same_record b c \<Longrightarrow> same_record a c"
  by (simp add: same_record_def same_identity_def)

lemma report_run_frame:
  fixes s :: "('w, 'z) acc_sys_scheme"
  shows "emits is_event s (report_run X r s) \<and> same_record (ac_cr s) (ac_cr (report_run X r s)) \<and>
    st_AccountCreatedAt (sa_Status (ac_cr (report_run X r s))) = st_AccountCreatedAt (sa_Status (ac_cr s))"
  using record_events_frame [of s "rp_Events r"]
  by (simp add: report_run_def same_record_def same_identity_def emits_def)

lemma namespaceLabels_frame:
  fixes s :: "('w, 'z) acc_sys_scheme"
  assumes "namespaceLabels e ns s = (r, s')"
  shows "trace s' = trace s @ [GetNamespace ns] \<and> ac_cr s' = ac_cr s"
proof -
  obtain r0 s0 where c: "call (GetNamespace ns) (kb_GetNamespace (xt_kube e) ns) s = (r0, s0)" by fastforce
  from call_frame [OF c] sys_more_acc [of s0 s] c assms show ?thesis
    by (auto simp: namespaceLabels_def split: sum.splits)
qed

lemma NewResourceData_frame:
  "NewResourceData ls log p s = (data, s') \<Longrightarrow> trace s' = trace s \<and> ac_cr s' = ac_cr s \<and>
     world s' = world s \<and> ac_tenantDB s' = None \<and> rd_pool data = p \<and>
     ResolvedAccountName data = ResolveName (om_Name (sa_Meta (ac_cr s))) (om_Namespace (sa_Meta (ac_cr s)))"
  by (auto simp: NewResourceData_def Let_def ResolvedAccountName_def)

lemma Handle_acc:
  fixes s :: "('w, 'z) acc_sys_scheme"
  assumes "Handle E l err s = (r, s')"
  shows "emits is_log s s' \<and> ac_cr s' = ac_cr s \<and> (r = None \<longleftrightarrow> err = None)"
  using Handle_frame [OF assms] sys_more_acc by (auto simp: emits_def)

text \<open>What reaches crossplane-runtime as an error: a leaf that is neither a user error nor
  wraps anything.\<close>

definition opaque :: "gerror option \<Rightarrow> bool" where
  "opaque r \<longleftrightarrow> (\<forall>e. r = Some e \<longrightarrow> err_chain e = [e] \<and> \<not> IsUserError e)"

lemma opaque_None [simp]: "opaque None"
  by (simp add: opaque_def)

lemma Handle_is_opaque: "Handle E l err s = (r, s') \<Longrightarrow> opaque r"
  by (auto simp: opaque_def dest: Handle_opaque)

subsection \<open>Observe and apply, for any modules\<close>

definition observing :: "effect \<Rightarrow> bool" where
  "observing ef \<longleftrightarrow> observe_effect ef \<or> is_controller ef"

lemma observingI: "observe_effect ef \<Longrightarrow> observing ef" "is_controller ef \<Longrightarrow> observing ef"
  "is_log ef \<Longrightarrow> observing ef" "is_event ef \<Longrightarrow> observing ef"
  by (auto simp: observing_def is_controllerI)

lemma cr_kept_same_record:
  "cr_kept a b \<Longrightarrow> st_AccountLocator (sa_Status b) = st_AccountLocator (sa_Status a) \<Longrightarrow> same_record a b"
  by (simp add: cr_kept_def same_record_def same_identity_def)

context module_list
begin

lemma Observe_frame:
  assumes "xt_pool e = P" and "pp_modules (xt_pipeline e) = ms"
    and "Observe E X e s = (obs, r, s')"
  shows "emits observing s s' \<and> same_record (ac_cr s) (ac_cr s') \<and> opaque r"
proof (cases "om_DeletionTimestamp (sa_Meta (ac_cr s)) = None")
  case False
  with assms(3) show ?thesis by (simp add: Observe_def Let_def)
next
  case True
  let ?log = "account_logger OpObserve (ac_cr s)"
  obtain r1 s1 where n: "namespaceLabels e (om_Namespace (sa_Meta (ac_cr s))) s = (r1, s1)" by fastforce
  note nf = namespaceLabels_frame [OF n]
  have e1: "emits observing s s1" by (rule emits_one [OF conjunct1 [OF nf]]) (simp add: observing_def)
  show ?thesis
  proof (cases r1)
    case (Inl err)
    obtain r2 s2 where h: "Handle E ?log (Some err) s1 = (r2, s2)" by fastforce
    have "emits observing s s2"
      by (rule emits_trans [OF e1 emits_mono [OF conjunct1 [OF Handle_acc [OF h]]]]) (rule observingI)
    with True n Inl h nf Handle_acc [OF h] Handle_is_opaque [OF h] assms(3) show ?thesis
      by (simp add: Observe_def Let_def)
  next
    case (Inr ls)
    obtain data s2 where d: "NewResourceData ls ?log (xt_pool e) s1 = (data, s2)" by fastforce
    note df = NewResourceData_frame [OF d]
    obtain ob s3 where p: "pipeline_Observe X (xt_pipeline e) data s2 = (ob, s3)" by fastforce
    from df assms(1) have "rd_pool data = P" by simp
    note pf = pipeline_Observe_readonly [OF this assms(2) p]
    let ?s4 = "report_run X (observation_report X ob) s3"
    note rf = report_run_frame [of s3 X "observation_report X ob"]
    obtain r5 s5 where h: "Handle E ?log (outcomes_Err (ob_Outcomes ob)) ?s4 = (r5, s5)" by fastforce
    note hf = Handle_acc [OF h]
    have "emits observing s s2" using e1 df by (auto intro: emits_trans emits_same)
    also have "emits observing s2 s3" by (rule emits_mono [OF conjunct1 [OF pf]]) (rule observingI)
    also have "emits observing s3 ?s4" by (rule emits_mono [OF conjunct1 [OF rf]]) (rule observingI)
    also have "emits observing ?s4 s5" by (rule emits_mono [OF conjunct1 [OF hf]]) (rule observingI)
    finally have em: "emits observing s s5" .
    from nf df have c2: "ac_cr s2 = ac_cr s" by simp
    from pf have "same_record (ac_cr s2) (ac_cr s3)" by (blast intro: cr_kept_same_record)
    with rf hf have "same_record (ac_cr s2) (ac_cr s5)" by (metis same_record_trans)
    with c2 have sr: "same_record (ac_cr s) (ac_cr s5)" by simp
    from True n Inr d p h assms(3) have "r = r5" "s' = s5" by (auto simp: Observe_def Let_def)
    with em sr Handle_is_opaque [OF h] show ?thesis by simp
  qed
qed


end
text \<open>apply: the run of the pipeline it makes, everything else being the controller's own, and
  the status it persists.  \<open>persisted\<close>: on the way from \<open>s\<close> to \<open>s'\<close> a status update with the resource
  as it is at the end was sent and answered with \<open>u\<close>, and after it at most its error was handled.\<close>

definition persisted ::
  "'w env \<Rightarrow> 'w kube \<Rightarrow> gerror option \<Rightarrow> ('w, 'z) acc_sys_scheme \<Rightarrow> ('w, 'z) acc_sys_scheme \<Rightarrow> bool" where
  "persisted E kube u s s' \<longleftrightarrow>
     (\<exists>t t' efs. trace t = trace s @ efs \<and>
        call (UpdateAccountStatus (om_Namespace (sa_Meta (ac_cr s'))) (om_Name (sa_Meta (ac_cr s'))))
          (kb_UpdateAccountStatus kube (ac_cr s')) t = (u, t') \<and>
        (s' = t' \<or> u \<noteq> None \<and> (\<exists>log r. r \<noteq> None \<and> Handle E log u t' = (r, s'))))"

lemma persisted_after: "emits Q s s1 \<Longrightarrow> persisted E kube u s1 s' \<Longrightarrow> persisted E kube u s s'"
  by (force simp: persisted_def emits_def)

lemma persisted_trace:
  assumes "persisted E kube u s s'"
  obtains efs logs where "trace s' = trace s @ efs @ UpdateAccountStatus (om_Namespace (sa_Meta (ac_cr s')))
      (om_Name (sa_Meta (ac_cr s'))) # logs" "list_all is_log logs" "u = None \<longrightarrow> logs = []"
proof -
  from assms obtain t t' efs where t: "trace t = trace s @ efs"
      "call (UpdateAccountStatus (om_Namespace (sa_Meta (ac_cr s'))) (om_Name (sa_Meta (ac_cr s'))))
        (kb_UpdateAccountStatus kube (ac_cr s')) t = (u, t')"
    and s': "s' = t' \<or> u \<noteq> None \<and> (\<exists>log r. Handle E log u t' = (r, s'))" unfolding persisted_def by blast
  note c = call_frame [OF t(2)]
  from s' show thesis
  proof
    assume "s' = t'"
    with t c that [of efs "[]"] show thesis by simp
  next
    assume h: "u \<noteq> None \<and> (\<exists>log r. Handle E log u t' = (r, s'))"
    then obtain log r where "Handle E log u t' = (r, s')" by blast
    from Handle_frame [OF this] obtain logs where "trace s' = trace t' @ logs" "list_all is_log logs" by blast
    moreover from h have "u = None \<longrightarrow> logs = []" by blast
    ultimately show thesis using t c that [of efs logs] by simp
  qed
qed

lemma apply_cr_cases:
  fixes s :: "('w, 'z) acc_sys_scheme"
  assumes "apply_cr E X e s = (r, s')"
  obtains (no_labels) "r \<noteq> None" "opaque r" "emits is_controller s s'" "ac_cr s' = ac_cr s"
  | (ran) data s2 res s3 u s4 where
      "emits is_controller s s2" "ac_cr s2 = ac_cr s" "rd_pool data = xt_pool e"
      "ResolvedAccountName data = ResolveName (om_Name (sa_Meta (ac_cr s))) (om_Namespace (sa_Meta (ac_cr s)))"
      "pipeline_Apply X (xt_pipeline e) data s2 = (res, s3)"
      "emits is_controller s3 s4" "emits is_log s4 s'"
      "UpdateAccountStatus (om_Namespace (sa_Meta (ac_cr s3))) (om_Name (sa_Meta (ac_cr s3))) \<in> set (trace s4)"
      "same_record (ac_cr s3) (ac_cr s')"
      "st_AccountCreatedAt (sa_Status (ac_cr s')) = st_AccountCreatedAt (sa_Status (ac_cr s3))"
      "persisted E (xt_kube e) u s3 s'" "opaque r"
      "r = None \<longleftrightarrow> outcomes_Err (ar_Outcomes res) = None \<and> u = None"
proof -
  let ?log = "account_logger OpUpdate (ac_cr s)"
  obtain r1 s1 where n: "namespaceLabels e (om_Namespace (sa_Meta (ac_cr s))) s = (r1, s1)" by fastforce
  note nf = namespaceLabels_frame [OF n]
  have e1: "emits is_controller s s1" by (rule emits_one [OF conjunct1 [OF nf]]) simp
  show thesis
  proof (cases r1)
    case (Inl err)
    with assms n have h: "Handle E ?log (Some err) s1 = (r, s')" by (simp add: apply_cr_def Let_def)
    have "emits is_controller s s'"
      by (rule emits_trans [OF e1 emits_mono [OF conjunct1 [OF Handle_acc [OF h]]]]) (rule is_controllerI)
    with no_labels Handle_acc [OF h] Handle_is_opaque [OF h] nf show thesis by auto
  next
    case (Inr ls)
    obtain data s2 where d: "NewResourceData ls ?log (xt_pool e) s1 = (data, s2)" by fastforce
    note df = NewResourceData_frame [OF d]
    obtain res s3 where p: "pipeline_Apply X (xt_pipeline e) data s2 = (res, s3)" by fastforce
    let ?s4 = "report_run X (result_report X res) s3"
    note rf = report_run_frame [of s3 X "result_report X res"]
    obtain f s5 where h: "Handle E ?log (outcomes_Err (ar_Outcomes res)) ?s4 = (f, s5)" by fastforce
    note hf = Handle_acc [OF h]
    let ?ns = "om_Namespace (sa_Meta (ac_cr s5))" and ?nm = "om_Name (sa_Meta (ac_cr s5))"
    obtain u s6 where c: "call (UpdateAccountStatus ?ns ?nm)
        (kb_UpdateAccountStatus (xt_kube e) (ac_cr s5)) s5 = (u, s6)" by fastforce
    note cf = call_frame [OF c]
    from cf have c6: "ac_cr s6 = ac_cr s5" by (blast dest: sys_more_acc)
    have fin: "emits is_log s6 s' \<and> ac_cr s' = ac_cr s6 \<and> opaque r \<and> (r = None \<longleftrightarrow> f = None \<and> u = None) \<and>
        (s' = s6 \<or> u \<noteq> None \<and> (\<exists>log r. r \<noteq> None \<and> Handle E log u s6 = (r, s')))"
    proof (cases "u \<noteq> None \<and> f = None")
      case True
      with assms n Inr d p h c have h2: "Handle E ?log u s6 = (r, s')"
        by (auto simp: apply_cr_def Let_def)
      from Handle_acc [OF h2] Handle_is_opaque [OF h2] True h2 show ?thesis by auto
    next
      case False
      with assms n Inr d p h c have "r = f" "s' = s6"
        by (auto simp: apply_cr_def Let_def split: option.splits if_splits)
      with False Handle_is_opaque [OF h] show ?thesis by auto
    qed
    from e1 df have e2: "emits is_controller s s2" by (auto intro: emits_trans emits_same)
    have "emits is_controller s3 ?s4" by (rule emits_mono [OF conjunct1 [OF rf]]) (rule is_controllerI)
    also have "emits is_controller ?s4 s5" by (rule emits_mono [OF conjunct1 [OF hf]]) (rule is_controllerI)
    also have "emits is_controller s5 s6" by (rule emits_one [OF conjunct1 [OF conjunct2 [OF cf]]]) simp
    finally have e6: "emits is_controller s3 s6" .
    from rf hf c6 fin have sr: "same_record (ac_cr s3) (ac_cr s')" by simp
    from sr have "sa_Meta (ac_cr s') = sa_Meta (ac_cr s3)" by (simp add: same_record_def same_identity_def)
    with cf c6 fin have up: "UpdateAccountStatus (om_Namespace (sa_Meta (ac_cr s3)))
        (om_Name (sa_Meta (ac_cr s3))) \<in> set (trace s6)" by simp
    from emits_trans [OF emits_mono [OF conjunct1 [OF rf], of "\<lambda>_. True"] emits_mono [OF conjunct1 [OF hf], of "\<lambda>_. True"]]
    obtain efs where "trace s5 = trace s3 @ efs" by (auto simp: emits_def)
    moreover have "ac_cr s' = ac_cr s5" using c6 fin by simp
    ultimately have pe: "persisted E (xt_kube e) u s3 s'" unfolding persisted_def using c fin
      by (intro exI [of _ s5] exI [of _ s6] exI [of _ efs]) simp
    show thesis
    proof (rule ran [OF e2 _ _ _ p e6 _ up sr _ pe])
      show "r = None \<longleftrightarrow> outcomes_Err (ar_Outcomes res) = None \<and> u = None" using fin hf by auto
    qed (use df nf fin rf hf c6 in auto)
  qed
qed

lemma delete_phase3_cases:
  fixes s :: "('w, 'z) acc_sys_scheme"
  assumes "delete_phase3 E e log permit s = (r, s')"
  obtains (no_labels) "r \<noteq> None" "opaque r" "emits is_controller s s'" "ac_cr s' = ac_cr s"
  | (failed) data s2 err s3 where
      "emits is_controller s s2" "ac_cr s2 = ac_cr s" "rd_pool data = xt_pool e"
      "ResolvedAccountName data = ResolveName (om_Name (sa_Meta (ac_cr s))) (om_Namespace (sa_Meta (ac_cr s)))"
      "pipeline_Destroy (xt_pipeline e) data s2 = (Some err, s3)"
      "emits is_log s3 s'" "ac_cr s' = ac_cr s3" "r \<noteq> None" "opaque r"
  | (torn_down) data s2 s3 where
      "emits is_controller s s2" "ac_cr s2 = ac_cr s" "rd_pool data = xt_pool e"
      "ResolvedAccountName data = ResolveName (om_Name (sa_Meta (ac_cr s))) (om_Namespace (sa_Meta (ac_cr s)))"
      "pipeline_Destroy (xt_pipeline e) data s2 = (None, s3)"
      "case permit of None \<Rightarrow> r = None \<and> s' = s3
       | Some p \<Rightarrow> MarkConsumed (xt_kube e) p s3 = (r, p\<lparr>dp_Status := (dp_Status p)\<lparr>pt_State := stateConsumed\<rparr>\<rparr>, s')"
proof -
  obtain r1 s1 where n: "namespaceLabels e (om_Namespace (sa_Meta (ac_cr s))) s = (r1, s1)" by fastforce
  note nf = namespaceLabels_frame [OF n]
  have e1: "emits is_controller s s1" by (rule emits_one [OF conjunct1 [OF nf]]) simp
  show thesis
  proof (cases r1)
    case (Inl err)
    with assms n have h: "Handle E log (Some err) s1 = (r, s')" by (simp add: delete_phase3_def)
    have "emits is_controller s s'"
      by (rule emits_trans [OF e1 emits_mono [OF conjunct1 [OF Handle_acc [OF h]]]]) (rule is_controllerI)
    with no_labels Handle_acc [OF h] Handle_is_opaque [OF h] nf show thesis by auto
  next
    case (Inr ls)
    obtain data s2 where d: "NewResourceData ls log (xt_pool e) s1 = (data, s2)" by fastforce
    note df = NewResourceData_frame [OF d]
    from e1 df have e2: "emits is_controller s s2" by (auto intro: emits_trans emits_same)
    obtain rp s3 where p: "pipeline_Destroy (xt_pipeline e) data s2 = (rp, s3)" by fastforce
    show thesis
    proof (cases rp)
      case (Some err)
      with assms n Inr d p have h: "Handle E log (Some err) s3 = (r, s')" by (simp add: delete_phase3_def)
      from failed [OF e2 _ _ _ p [unfolded Some]] Handle_acc [OF h] Handle_is_opaque [OF h] df nf
      show thesis by auto
    next
      case None
      have "case permit of None \<Rightarrow> r = None \<and> s' = s3
        | Some p \<Rightarrow> MarkConsumed (xt_kube e) p s3 = (r, p\<lparr>dp_Status := (dp_Status p)\<lparr>pt_State := stateConsumed\<rparr>\<rparr>, s')"
      proof (cases permit)
        case (Some q)
        obtain a q' b where mc: "MarkConsumed (xt_kube e) q s3 = (a, q', b)" by (cases "MarkConsumed (xt_kube e) q s3") auto
        with MarkConsumed_permit [OF mc] assms n Inr d p None Some show ?thesis
          by (auto simp: delete_phase3_def)
      qed (use assms n Inr d p None in \<open>auto simp: delete_phase3_def\<close>)
      with torn_down [OF e2 _ _ _ p [unfolded None]] df nf show thesis by auto
    qed
  qed
qed

end
