(* ===== verification/Sample_World.thy ===== *)
theory Sample_World
  imports Pool Logger
begin

text \<open>
  One concrete environment, for the witnesses of the properties about the pool, the account
  module and the controllers: every parameter of the model instantiated by a computable
  function.  The world is the number of the next connection; the secret store holds one
  credential for every identifier; SHOW and DESC answer the questions the program asks.
\<close>

definition sample_rows :: "string list \<Rightarrow> sql_val list list \<Rightarrow> rows" where
  "sample_rows columns vss =
     \<lparr>rows_columns = Inr columns, rows_scan = map Inr vss, rows_err = None\<rparr>"

definition sample_query :: "db \<Rightarrow> string \<Rightarrow> string list \<Rightarrow> nat \<Rightarrow> rows result \<times> nat" where
  "sample_query d q args w =
     (if q = ''SHOW ACCOUNTS LIKE ?'' then
        (Inr (sample_rows [''account_name'', ''account_locator'']
           [[SqlString (hd args), SqlString ''xy12345'']]), w)
      else if q = ''SHOW USERS LIKE ?'' then
        (Inr (sample_rows [''name'', ''email''] [[SqlString ''PLATFORM'', SqlString ''a@b.c'']]), w)
      else if has_prefix q ''DESC USER '' then
        (Inr (sample_rows [''property'', ''value'']
           [[SqlString ''RSA_PUBLIC_KEY_FP'', SqlString (''SHA256:'' @ base64_std (sum256 ''pub''))],
            [SqlString ''RSA_PUBLIC_KEY_2_FP'', SqlNull]]), w)
      else (Inr (sample_rows [] []), w))"

definition sample_env :: "nat env" where
  "sample_env =
     \<lparr>env_now = (\<lambda>w. (1000000000000, w)),
      env_uuid = (\<lambda>w. (''0a1b2c3d-0000-4000-8000-000000000000'', w)),
      env_rsaGenerate = (\<lambda>n w. (Inr 7, w)),
      env_marshalPKIX = (\<lambda>k. Inr ''pub''),
      env_marshalPKCS8 = (\<lambda>k. Inr ''priv''),
      env_parsePKCS8 = (\<lambda>b. Inr (Some 7)),
      env_pemEncode = (\<lambda>t b. b),
      env_pemDecode = (\<lambda>s. Some s),
      env_jsonMarshal = (\<lambda>c. Inr ''json''),
      env_jsonUnmarshal = (\<lambda>d. Inr \<lparr>cj_username = ''platform'', cj_public_key = ''cHVi'',
        cj_private_key = ''priv''\<rparr>),
      env_timeText = (\<lambda>t. show_int t),
      env_durationText = (\<lambda>d. show_int d),
      env_exec = (\<lambda>d q args w. (None, w)),
      env_query = sample_query,
      env_openDB = (\<lambda>c w. (w, Suc w)),
      env_ping = (\<lambda>d t w. (None, w)),
      env_closeDB = (\<lambda>d w. (None, w)),
      env_setLimits = (\<lambda>d a b t u w. w)\<rparr>"

definition sample_store :: "nat key_store" where
  "sample_store =
     \<lparr>ks_Get = (\<lambda>i w. (Inr (''json'', 999999999999), w)), ks_Create = (\<lambda>i v w. (None, w)),
      ks_Update = (\<lambda>i v w. (None, w)), ks_Delete = (\<lambda>i w. (None, w))\<rparr>"

definition sample_km :: "nat key_manager" where
  "sample_km = \<lparr>km_store = sample_store, km_ttl = 300000000000\<rparr>"

definition sample_cfg :: config where
  "sample_cfg =
     \<lparr>cfg_Snowflake = \<lparr>sf_Org = ''acme'', sf_OrgAdminAccount = ''admin'',
        sf_OrgAdminAccountLocator = ''xy1'', sf_OrgAdminAccountRegion = ''aws-eu-central-1'',
        sf_UsePrivateLink = True, sf_DisableOCSPChecks = False, sf_MaxConnectionPoolSize = 10,
        sf_MaxIdleConnections = 2, sf_ConnectionMaxLifetime = 1800000000000,
        sf_ConnectionMaxIdleTime = 300000000000, sf_ConnectionProbeTimeout = 10000000000,
        sf_AccountCreationGracePeriod = 300000000000\<rparr>,
      cfg_AWS = \<lparr>aws_Region = ''eu-central-1'', aws_KmsKeyId = []\<rparr>,
      cfg_Secrets = \<lparr>sec_CacheTTL = 300000000000, sec_RotationInterval = 15552000000000000\<rparr>,
      cfg_Deletion = \<lparr>del_GracePeriodDays = 30, del_Protection = True\<rparr>,
      cfg_cloudProvider = ''aws''\<rparr>"

definition sample_pool :: "(nat, nat pool_sys) pool" where
  "sample_pool = pool_New sample_env sample_km sample_cfg"

definition sample_sys :: "nat pool_sys" where
  "sample_sys = \<lparr>world = 0, trace = [], km_entries = (\<lambda>_. None), ps_orgAdminDB = None,
     ps_entries = [], ps_keyLocks = []\<rparr>"

definition sample_ident :: ident where
  "sample_ident = Identifier ''yk-acme--ns--acct''"

definition sample_creds :: credentials where
  "sample_creds = \<lparr>c_Username = ''platform'', c_PublicKey = ''cHVi'', c_PrivateKey = ''priv'',
     c_RotatedAt = 999999999999\<rparr>"

lemma sample_dial [simp]: "pl_dial sample_pool = defaultDial sample_env"
  by (simp add: sample_pool_def pool_New_def)

lemma sample_cfg_pool [simp]: "pl_cfg sample_pool = sample_cfg" "pl_keyManager sample_pool = sample_km"
  by (simp_all add: sample_pool_def pool_New_def)

lemma sample_identifier: "NewTenantIdentifier ''acme'' ''ns'' ''acct'' = Inr sample_ident"
  unfolding NewTenantIdentifier_Inr
  by (simp add: valid_segment_def seg_char_def sep_char_def byte_class_defs tenant_value_def
      toSecretSafe_def maxIdentifierLen_def sample_ident_def)

lemma sample_orgadmin_identifier: "\<exists>i. NewOrgAdminIdentifier ''acme'' ''admin'' = Inr i"
  unfolding NewOrgAdminIdentifier_Inr
  by (simp add: valid_segment_def seg_char_def sep_char_def byte_class_defs orgadmin_value_def
      toSecretSafe_def maxIdentifierLen_def)

lemma sample_host: "\<exists>h. Hostname locator ''aws-eu-central-1'' pl = Inr h"
  by (simp add: Hostname_def regionSegment_def validClouds_def Let_def)

text \<open>Reading a credential from a cold cache.\<close>

lemma sample_GetCredentials:
  assumes "km_entries s i = None"
  shows "\<exists>s'. GetCredentials sample_env sample_km i s = (Inr sample_creds, s') \<and> world s' = world s"
  using assms
  by (simp add: GetCredentials_def km_get_def km_fetch_def sample_km_def sample_store_def call_def
      now_def local_call_def sample_env_def unmarshalCredentials_def sample_creds_def)

lemma sample_parse: "parsePrivateKey sample_env k = Inr 7"
  by (simp add: parsePrivateKey_def sample_env_def)

lemma sample_defaultDial:
  fixes s :: "(nat, 'z) sys_scheme"
  shows "\<exists>s'. defaultDial sample_env dc s = (Inr (world s), s')"
  by (simp add: defaultDial_def open_db_def call_def sample_env_def)

lemma sample_openTenant:
  assumes "km_entries s sample_ident = None"
  shows "\<exists>s'. openTenant sample_env sample_pool key ''xy12345'' ''aws-eu-central-1'' sample_ident s =
    (Inr (world s), s')"
proof -
  from sample_host obtain h where h: "Hostname ''xy12345'' ''aws-eu-central-1'' True = Inr h" by blast
  from sample_GetCredentials [OF assms] obtain s1
    where g: "GetCredentials sample_env sample_km sample_ident s = (Inr sample_creds, s1)"
      and w: "world s1 = world s" by blast
  from sample_defaultDial [of "\<lparr>dc_snowflake = buildSnowflakeConfig ''xy12345'' h ''platform'' 7
      ''ACCOUNTADMIN'' False, dc_probeTimeout = 10000000000\<rparr>" s1] w obtain s2
    where d: "defaultDial sample_env \<lparr>dc_snowflake = buildSnowflakeConfig ''xy12345'' h ''platform'' 7
      ''ACCOUNTADMIN'' False, dc_probeTimeout = 10000000000\<rparr> s1 = (Inr (world s), s2)" by auto
  from h g d show ?thesis
    by (simp add: openTenant_def sample_cfg_def Let_def sample_parse sample_creds_def)
qed

lemma sample_TenantDB:
  "\<exists>s'. TenantDB sample_env sample_pool ''ns'' ''acct'' ''xy12345'' ''aws-eu-central-1'' sample_sys =
     (Inr 0, s')"
proof -
  let ?k = "\<lparr>tk_namespace = ''ns'', tk_accountName = ''acct''\<rparr>"
  obtain l s1 where k: "keyLock ?k sample_sys = (l, s1)" by fastforce
  from keyLock_frame [OF k] have s1: "world s1 = 0" "km_entries s1 sample_ident = None"
      "cachedTenant ?k ''xy12345'' ''aws-eu-central-1'' s1 = None"
    by (simp_all add: sample_sys_def cachedTenant_def)
  from sample_openTenant [OF s1(2), of ?k] s1(1) k s1(3) sample_identifier show ?thesis
    by (auto simp: TenantDB_def dialTenant_def sample_cfg_def Let_def)
qed

text \<open>The witness of the logger's property: in this world two different system errors read the
  same to a tenant.\<close>

lemma Handle_hides_system_errors_witness:
  "\<exists>incidentID. fst (Handle sample_env (logger_New ''ns'' ''SnowflakeAccount'' ''acct'' OpUpdate)
       (Some (Foreign ''password is x'')) sample_sys) = Some (internal_error incidentID) \<and> length incidentID \<le> 8"
proof -
  have "\<not> IsUserError (Foreign ''password is x'')" "\<not> IsUserError (Foreign ''timeout'')" by simp_all
  from Handle_hides_system_errors [OF this] show ?thesis by blast
qed

end
