(* ===== verification/Sample_Controller.thy ===== *)
theory Sample_Controller
  imports Controller Sample_World
begin

text \<open>
  A concrete Kubernetes API, resource and starting state, for the witnesses about the account
  module and the controllers: one active permit for the one account \<open>ns/acct\<close>.
\<close>

definition sample_meta :: "string \<Rightarrow> time option \<Rightarrow> objectMeta" where
  "sample_meta name deleted =
     \<lparr>om_Name = name, om_Namespace = ''ns'', om_Generation = 1, om_CreationTimestamp = 0,
      om_DeletionTimestamp = deleted\<rparr>"

definition sample_permit :: deletionPermit where
  "sample_permit =
     \<lparr>dp_Meta = sample_meta ''permit'' None,
      dp_Spec = \<lparr>ps_TargetRef = \<lparr>tr_Kind = ''SnowflakeAccount'', tr_Name = ''acct''\<rparr>, ps_Duration = 1000,
        ps_Reason = [], ps_ManagementPolicies = []\<rparr>,
      dp_Status = \<lparr>pt_Conditions = [], pt_ObservedGeneration = 0, pt_ValidUntil = None,
        pt_State = ''Active''\<rparr>\<rparr>"

definition sample_kube :: "deletionPermit list \<Rightarrow> nat kube" where
  "sample_kube permits =
     \<lparr>kb_GetNamespace = (\<lambda>n w. (Inr Map.empty, w)), kb_UpdateAccountStatus = (\<lambda>a w. (None, w)),
      kb_ListPermits = (\<lambda>n w. (Inr permits, w)), kb_UpdatePermitStatus = (\<lambda>p w. (None, w))\<rparr>"

definition sample_account :: "string \<Rightarrow> time option \<Rightarrow> snowflakeAccount" where
  "sample_account locator deleted =
     \<lparr>sa_Meta = sample_meta ''acct'' deleted,
      sa_Spec = \<lparr>as_Description = [], as_Contact = ''a@b.c'', as_Region = ''aws-eu-central-1'',
        as_Environment = ''dev'', as_CreditQuota = 10,
        as_IdentityIntegration = \<lparr>ii_Groups = (\<lambda>_. None), ii_RoleBindings = (\<lambda>_. None)\<rparr>,
        as_CustomNetworkRules = None, as_CustomAuthRules = None, as_ManagementPolicies = []\<rparr>,
      sa_Status = \<lparr>st_Conditions = [], st_ObservedGeneration = 0, st_AccountName = [],
        st_AccountLocator = locator, st_AccountCreatedAt = None, st_AccountURL = []\<rparr>\<rparr>"

definition sample_acc_sys :: "snowflakeAccount \<Rightarrow> nat acc_sys" where
  "sample_acc_sys cr =
     \<lparr>world = 0, trace = [], km_entries = (\<lambda>_. None), ps_orgAdminDB = None, ps_entries = [],
      ps_keyLocks = [], ac_cr = cr, ac_tenantDB = None\<rparr>"

definition sample_backplane :: backplane where
  "sample_backplane =
     \<lparr>bp_GlobalParameters = no_params,
      bp_Regions = (\<lambda>r. if r = ''aws-eu-central-1'' then
        Some \<lparr>rg_Available = True, rg_Inventory = [], rg_RegionalParameters = no_params, rg_RegionalAllowlist = []\<rparr>
        else None)\<rparr>"

text \<open>The org-admin connection from a cold pool, the credential of the account, and the two
  paths that use them.\<close>

text \<open>A key store whose Delete answers \<open>e\<close>.\<close>

definition sample_km_with :: "gerror option \<Rightarrow> nat key_manager" where
  "sample_km_with e = \<lparr>km_store = sample_store\<lparr>ks_Delete := (\<lambda>i w. (e, w))\<rparr>, km_ttl = 300000000000\<rparr>"

lemma sample_get_from:
  assumes "ks_Get (km_store km) = ks_Get sample_store" and "km_entries s i = None"
  shows "\<exists>s'. GetCredentials sample_env km i s = (Inr sample_creds, s') \<and> world s' = world s"
  using assms
  by (simp add: GetCredentials_def km_get_def km_fetch_def sample_store_def call_def
      now_def local_call_def sample_env_def unmarshalCredentials_def sample_creds_def)

lemma sample_OrgAdminDB_from:
  fixes s :: "(nat, 'z) pool_sys_scheme"
  assumes "ks_Get (km_store km) = ks_Get sample_store"
    and "ps_orgAdminDB s = None" and "\<And>i. km_entries s i = None"
  shows "\<exists>s'. OrgAdminDB sample_env (pool_New sample_env km sample_cfg) s = (Inr (world s), s')"
proof -
  obtain i where i: "NewOrgAdminIdentifier ''acme'' ''admin'' = Inr i" using sample_orgadmin_identifier by blast
  obtain h where h: "Hostname ''xy1'' ''aws-eu-central-1'' True = Inr h" using sample_host by blast
  from sample_get_from [OF assms(1,3)] obtain s1
    where g: "GetCredentials sample_env km i s = (Inr sample_creds, s1)" "world s1 = world s" by blast
  let ?dc = "\<lparr>dc_snowflake = buildSnowflakeConfig ''xy1'' h ''platform'' 7 ''GLOBALORGADMIN'' False,
    dc_probeTimeout = 10000000000\<rparr>"
  from sample_defaultDial [of ?dc s1] g obtain s2
    where "defaultDial sample_env ?dc s1 = (Inr (world s), s2)" by auto
  with assms i h g show ?thesis
    by (simp add: OrgAdminDB_def pool_New_def sample_cfg_def Let_def sample_parse sample_creds_def)
qed

lemma sample_OrgAdminDB:
  fixes s :: "(nat, 'z) pool_sys_scheme"
  assumes "ps_orgAdminDB s = None" and "\<And>i. km_entries s i = None"
  shows "\<exists>s'. OrgAdminDB sample_env (pool_New sample_env (sample_km_with e) sample_cfg) s = (Inr (world s), s')"
  by (rule sample_OrgAdminDB_from [OF _ assms]) (simp add: sample_km_with_def)

lemma sample_deleteCredential:
  fixes s :: "(nat, 'z) acc_sys_scheme"
  assumes "om_Namespace (sa_Meta (ac_cr s)) = ''ns''" and "om_Name (sa_Meta (ac_cr s)) = ''acct''"
    and "am_org m = ''acme''" and "ks_Delete (km_store (am_keyManager m)) = (\<lambda>i w. (e, w))"
  shows "\<exists>s'. deleteCredential m s =
    (case e of None \<Rightarrow> None | Some err \<Rightarrow> Some (wrap ''failed to delete platform credential: '' err), s')"
  using assms sample_identifier
  by (cases e) (simp_all add: deleteCredential_def Let_def DeleteCredentials_def call_def)

lemma sample_dropAccount:
  fixes s :: "(nat, 'z) acc_sys_scheme"
  assumes "ps_orgAdminDB s = None" and "\<And>i. km_entries s i = None"
    and "rd_pool data = pool_db_pool sample_env (pool_New sample_env (sample_km_with e) sample_cfg)"
  shows "\<exists>s'. dropAccount sample_env m data s = (None, s')"
proof -
  from sample_OrgAdminDB [OF assms(1,2)] obtain s1
    where "OrgAdminDB sample_env (pool_New sample_env (sample_km_with e) sample_cfg) s = (Inr (world s), s1)" by blast
  with assms(3) show ?thesis
    by (simp add: dropAccount_def rd_OrgAdminDB_def pool_db_pool_def runner_Exec_def statement_New_def
        db_executor_def call_def sample_env_def)
qed

lemma sample_Teardown:
  fixes s :: "(nat, 'z) acc_sys_scheme"
  assumes "ps_orgAdminDB s = None" and "\<And>i. km_entries s i = None" and "cr_locator s \<noteq> []"
    and "rd_pool data = pool_db_pool sample_env (pool_New sample_env (sample_km_with e) sample_cfg)"
    and "om_Namespace (sa_Meta (ac_cr s)) = ''ns''" and "om_Name (sa_Meta (ac_cr s)) = ''acct''"
    and "am_org m = ''acme''" and "am_keyManager m = sample_km_with d"
  shows "\<exists>s'. account_Teardown sample_env m data s =
    (case d of None \<Rightarrow> None | Some err \<Rightarrow> Some (wrap ''failed to delete platform credential: '' err), s') \<and>
    cr_locator s' = []"
proof -
  from sample_dropAccount [OF assms(1,2,4)] obtain s1 where dr: "dropAccount sample_env m data s = (None, s1)" by blast
  from pl.dropAccount_frame [OF assms(4) dr] have c1: "ac_cr s1 = ac_cr s" by blast
  let ?s3 = "set_status (\<lambda>st. st\<lparr>st_AccountLocator := []\<rparr>) (rd_EvictTenant data s1)"
  from pl.rd_EvictTenant_frame [OF assms(4), of s1] c1
  have n: "om_Namespace (sa_Meta (ac_cr ?s3)) = ''ns''" "om_Name (sa_Meta (ac_cr ?s3)) = ''acct''"
    using assms(5,6) by simp_all
  have "ks_Delete (km_store (am_keyManager m)) = (\<lambda>i w. (d, w))"
    by (simp add: assms(8) sample_km_with_def)
  from sample_deleteCredential [OF n assms(7) this] obtain s' where dc: "deleteCredential m ?s3 =
    (case d of None \<Rightarrow> None | Some err \<Rightarrow> Some (wrap ''failed to delete platform credential: '' err), s')" by blast
  from deleteCredential_frame [OF dc] have "cr_locator s' = []" by simp
  with dr dc assms(3) show ?thesis by (auto simp: account_Teardown_def Let_def)
qed

lemma sample_acquireCredentials:
  fixes s :: "(nat, 'z) acc_sys_scheme"
  assumes "om_Namespace (sa_Meta (ac_cr s)) = ''ns''" and "om_Name (sa_Meta (ac_cr s)) = ''acct''"
    and "am_org m = ''acme''" and "am_keyManager m = sample_km_with d"
    and "ps_orgAdminDB s = None" and "\<And>i. km_entries s i = None"
  shows "\<exists>creds s'. acquireCredentials sample_env m s = (Inr (creds, False), s') \<and>
    ps_orgAdminDB s' = None \<and> (\<forall>i. km_entries s' i = None) \<and> ac_cr s' = ac_cr s"
  using assms sample_identifier
  by (auto simp: acquireCredentials_def Let_def CreateCredentials_def NewCredentials_def GenerateKeyPair_def now_def
      local_call_def sample_env_def call_def marshalCredentials_def sample_km_with_def sample_store_def
      km_create_def Invalidate_def)

lemma sample_row_values:
  "row_StringValue (Some [(''account_name'', SqlString n), (''account_locator'', SqlString v)]) ''account_name'' = Some n"
  "row_StringValue (Some [(''account_name'', SqlString n), (''account_locator'', SqlString v)]) ''account_locator'' = Some v"
  by code_simp+

lemma sample_locate:
  fixes s :: "(nat, 'z) acc_sys_scheme"
  shows "\<exists>s'. locateCreatedAccount (statement_New (db_executor sample_env d)) n s = (Inr ''xy12345'', s')"
  by (simp add: locateCreatedAccount_def findAccountLocator_def runner_Query_def statement_New_def db_executor_def
      call_def sample_env_def sample_query_def show_accounts_sql_def sample_rows_def materialize_def row_of_def
      FindRow_def sample_row_values)

lemma sample_issueCreate:
  fixes s :: "(nat, 'z) acc_sys_scheme"
  shows "\<exists>s'. issueCreate sample_env (statement_New (db_executor sample_env d)) n creds s =
    (Pending_oc created_reason, s') \<and> cr_locator s' = ''xy12345''"
proof -
  have "\<exists>s1. execCreateAccount (statement_New (db_executor sample_env d)) n (sa_Spec (ac_cr s)) (c_PublicKey creds) s
      = (None, s1)"
    by (simp add: execCreateAccount_def runner_Exec_def statement_New_def db_executor_def call_def sample_env_def)
  then obtain s1 where x: "execCreateAccount (statement_New (db_executor sample_env d)) n (sa_Spec (ac_cr s))
      (c_PublicKey creds) s = (None, s1)" by blast
  from sample_locate obtain s2
    where l: "locateCreatedAccount (statement_New (db_executor sample_env d)) n s1 = (Inr ''xy12345'', s2)" by blast
  obtain out s' where f: "finishCreate sample_env ''xy12345'' s2 = (out, s')" by fastforce
  from finishCreate_frame [OF f] x l f show ?thesis by (simp add: issueCreate_def)
qed

lemma sample_creatable:
  assumes "cr = sample_account l t" and "am_backplane m = sample_backplane" and "am_org m = ''acme''"
  shows "checkCreatable m cr (ResolveName ''acct'' ''ns'') Map.empty = None"
  using assms
  by (simp add: checkCreatable_def Region_def sample_backplane_def sample_account_def sample_meta_def
      AlphaTester_def Let_def maxAccountLabelLen_def)

lemma sample_createAccount:
  fixes s :: "(nat, 'z) acc_sys_scheme"
  assumes "ac_cr s = sample_account [] None" and "ps_orgAdminDB s = None" and "\<And>i. km_entries s i = None"
    and "rd_pool data = pool_db_pool sample_env (pool_New sample_env (sample_km_with d) sample_cfg)"
    and "am_org m = ''acme''" and "am_keyManager m = sample_km_with d" and "am_backplane m = sample_backplane"
    and "ResolvedAccountName data = ResolveName ''acct'' ''ns''" and "NamespaceLabels data = Map.empty"
  shows "\<exists>s'. createAccount sample_env m data s = (Pending_oc created_reason, s') \<and> cr_locator s' = ''xy12345''"
proof -
  have n: "om_Namespace (sa_Meta (ac_cr s)) = ''ns''" "om_Name (sa_Meta (ac_cr s)) = ''acct''"
    by (simp_all add: assms(1) sample_account_def sample_meta_def)
  from sample_acquireCredentials [OF n assms(5,6,2,3)] obtain creds s1
    where a: "acquireCredentials sample_env m s = (Inr (creds, False), s1)" "ps_orgAdminDB s1 = None"
      "\<And>i. km_entries s1 i = None" by blast
  from sample_OrgAdminDB [OF a(2,3)] obtain s2
    where o: "OrgAdminDB sample_env (pool_New sample_env (sample_km_with d) sample_cfg) s1 = (Inr (world s1), s2)" by blast
  from sample_issueCreate obtain s' where i: "issueCreate sample_env
      (statement_New (db_executor sample_env (world s1))) (ResolveName ''acct'' ''ns'') creds s2 =
      (Pending_oc created_reason, s')" "cr_locator s' = ''xy12345''" by blast
  from sample_creatable [OF assms(1,7,5)] a(1) o i assms(4,8,9) show ?thesis
    by (simp add: createAccount_def Let_def rd_OrgAdminDB_def pool_db_pool_def)
qed

subsection \<open>Witnesses for the permits\<close>

lemma FindActivePermit_earliest_witness:
  "\<exists>po. fst (FindActivePermit (sample_kube [sample_permit]) ''ns'' ''SnowflakeAccount'' ''acct''
       (sample_acc_sys (sample_account [] None))) = Inr po \<and> po = Some sample_permit"
proof -
  have l: "kb_ListPermits (sample_kube [sample_permit]) ''ns'' (world (sample_acc_sys (sample_account [] None))) =
      (Inr [sample_permit], 0)"
    by (simp add: sample_kube_def sample_acc_sys_def)
  have m: "matching ''SnowflakeAccount'' ''acct'' sample_permit"
    by (simp add: matching_def sample_permit_def stateActive_def)
  from FindActivePermit_earliest [OF l, of "''SnowflakeAccount''" "''acct''"] obtain po where
    "fst (FindActivePermit (sample_kube [sample_permit]) ''ns'' ''SnowflakeAccount'' ''acct''
       (sample_acc_sys (sample_account [] None))) = Inr po"
    and n: "po = None \<longleftrightarrow> (\<forall>p. p \<in> set [sample_permit] \<longrightarrow> \<not> matching ''SnowflakeAccount'' ''acct'' p)"
    and s: "\<forall>p. po = Some p \<longrightarrow> p \<in> set [sample_permit]" by fastforce
  moreover from n m have "po \<noteq> None" by simp
  with s have "po = Some sample_permit" by auto
  ultimately show ?thesis by blast
qed

text \<open>A permit consumed while active, then observed long after its validity.\<close>

lemma permit_terminal_states_witness:
  "\<exists>cr cr'. permit_steps sample_env simple_xpv1 sample_permit cr \<and> permit_steps sample_env simple_xpv1 cr cr' \<and>
     pt_State (dp_Status cr) = stateConsumed \<and> pt_State (dp_Status cr') = stateConsumed"
proof -
  let ?s = "\<lparr>world = 0, trace = []\<rparr> :: nat sys"
  obtain r cr s1 where m: "MarkConsumed (sample_kube []) sample_permit ?s = (r, cr, s1)"
    by (metis prod_cases3)
  have "pt_State (dp_Status sample_permit) = stateActive" by (simp add: sample_permit_def stateActive_def)
  from ps_step [OF ps_refl p_consume [OF this m]]
  have a: "permit_steps sample_env simple_xpv1 sample_permit cr" .
  from MarkConsumed_permit [OF m] have c: "pt_State (dp_Status cr) = stateConsumed" by simp
  obtain obs cr' s2 where o: "permit_Observe sample_env simple_xpv1 cr ?s = (obs, cr', s2)"
    by (metis prod_cases3)
  from ps_step [OF ps_refl p_observe [OF o]] have b: "permit_steps sample_env simple_xpv1 cr cr'" .
  from permit_terminal_states [OF b] c have "pt_State (dp_Status cr') = stateConsumed" by (simp add: terminal_def)
  with a b c show ?thesis by blast
qed

lemma permit_Observe_clock_witness:
  "\<exists>obs cr' s'. permit_Observe sample_env simple_xpv1 sample_permit (\<lparr>world = 0, trace = []\<rparr> :: nat sys) = (obs, cr', s') \<and>
     pt_State (dp_Status cr') = stateExpired \<and> pt_ValidUntil (dp_Status cr') = Some 1000"
proof -
  obtain obs cr' s' where o: "permit_Observe sample_env simple_xpv1 sample_permit (\<lparr>world = 0, trace = []\<rparr> :: nat sys) = (obs, cr', s')"
    by (metis prod_cases3)
  have "om_DeletionTimestamp (dp_Meta sample_permit) = None" "\<not> terminal (pt_State (dp_Status sample_permit))"
    by (simp_all add: sample_permit_def sample_meta_def terminal_def stateExpired_def stateConsumed_def)
  from permit_Observe_clock [OF o this] o show ?thesis
    by (simp add: sample_env_def sample_permit_def sample_meta_def)
qed

end
