(* ===== verification/Controller_Properties.thy ===== *)
theory Controller_Properties
  imports Controller Sample_Controller
begin

text \<open>
  What the SnowflakeAccount controller guarantees, for the external client the provider builds:
  the account pipeline over the connection pool.  The last part follows one resource through
  any sequence of reconciles, spec edits and outside changes.
\<close>

definition account_module_of :: "config \<Rightarrow> 'w key_manager \<Rightarrow> backplane \<Rightarrow> 'w account_module" where
  "account_module_of cfg km bp =
     account_New km (sf_Org (cfg_Snowflake cfg)) (sf_AccountCreationGracePeriod (cfg_Snowflake cfg))
       (del_GracePeriodDays (cfg_Deletion cfg)) (sf_UsePrivateLink (cfg_Snowflake cfg)) bp"

definition account_client ::
  "'w env \<Rightarrow> 'w kube \<Rightarrow> config \<Rightarrow> 'w key_manager \<Rightarrow> backplane \<Rightarrow> ('w, ('w, 'z) acc_sys_scheme) external" where
  "account_client E kube cfg km bp = Connect (Setup E kube cfg (pool_db_pool E (pool_New E km cfg)) km bp)"

lemma account_client_fields [simp]:
  "xt_kube (account_client E kube cfg km bp) = kube"
  "xt_pool (account_client E kube cfg km bp) = pool_db_pool E (pool_New E km cfg)"
  "xt_cfg (account_client E kube cfg km bp) = cfg"
  "pp_modules (xt_pipeline (account_client E kube cfg km bp)) = [account_pmodule E (account_module_of cfg km bp)]"
  by (simp_all add: account_client_def Connect_def Setup_def Let_def pipeline_New_def account_module_of_def)

definition resolved_name :: "snowflakeAccount \<Rightarrow> string" where
  "resolved_name cr = ResolveName (om_Name (sa_Meta cr)) (om_Namespace (sa_Meta cr))"

lemma harmless_simps: "observing ef \<Longrightarrow> harmless ef" "is_controller ef \<Longrightarrow> harmless ef"
proof -
  have c: "is_controller ef \<Longrightarrow> harmless ef" for ef
    by (cases ef) (auto simp: harmless_def is_create_def is_drop_def)
  show "is_controller ef \<Longrightarrow> harmless ef" by (rule c)
  show "observing ef \<Longrightarrow> harmless ef" using c harmlessI(3) by (auto simp: observing_def)
qed

lemma emits_harmless: "emits is_controller s s' \<Longrightarrow> emits harmless s s'"
    "emits observing s s' \<Longrightarrow> emits harmless s s'" "emits is_log s s' \<Longrightarrow> emits harmless s s'"
    "emits existing_effect s s' \<Longrightarrow> emits harmless s s'" "emits pool_effect s s' \<Longrightarrow> emits harmless s s'"
  by (erule emits_mono; rule harmless_simps harmlessI; assumption)+

lemma pipeline_Apply_account:
  assumes "pp_modules p = [account_pmodule E m]" and "pipeline_Apply X p data s = (res, s')"
  obtains out s1 where "account_Apply E m data s = (out, s1)" "trace s' = trace s1"
    "same_identity (ac_cr s1) (ac_cr s')" "cr_locator s' = cr_locator s1"
    "st_AccountCreatedAt (sa_Status (ac_cr s')) = st_AccountCreatedAt (sa_Status (ac_cr s1))"
    "ar_Outcomes res = [out\<lparr>oc_Module := accountModuleName\<rparr>]"
proof -
  obtain out s1 where "account_Apply E m data s = (out, s1)" by fastforce
  with assms that [of out s1] show thesis
    by (auto simp: pipeline_Apply_def Let_def account_pmodule_def same_identity_def SetObservedGeneration_def
        split: if_splits)
qed

lemma pipeline_Destroy_account:
  assumes "pp_modules p = [account_pmodule E m]"
  shows "pipeline_Destroy p data s = account_Teardown E m data s"
  using assms by (auto simp: pipeline_Destroy_def account_pmodule_def split: prod.splits option.splits)

lemma create_trace_extends: "create_trace n spec s s' \<Longrightarrow> emits (\<lambda>_. True) s s'"
  by (auto simp: create_trace_def emits_def list_all_iff)

text \<open>apply, for the account client.\<close>

lemma apply_account:
  fixes s :: "('w, 'z) acc_sys_scheme"
  assumes "apply_cr E X (account_client E kube cfg km bp) s = (r, s')"
  shows "opaque r \<and> same_identity (ac_cr s) (ac_cr s') \<and>
    (if cr_locator s \<noteq> [] then emits harmless s s' \<and> cr_locator s' = cr_locator s
     else create_trace (resolved_name (ac_cr s)) (sa_Spec (ac_cr s)) s s' \<and>
       (cr_locator s' \<noteq> [] \<longrightarrow> located E (resolved_name (ac_cr s)) (cr_locator s') \<and>
          st_AccountCreatedAt (sa_Status (ac_cr s')) \<noteq> None)) \<and>
    (r \<noteq> None \<and> ac_cr s' = ac_cr s \<or> (\<exists>u. persisted E kube u s s' \<and> (r = None \<longrightarrow> u = None)))"
  using assms
proof (cases rule: apply_cr_cases)
  case no_labels
  with emits_harmless(1) show ?thesis by (auto simp: same_identity_def intro: create_trace_harmless)
next
  case (ran data s2 res s3 u s4)
  from account_client_fields(4) ran(5) obtain out s1
    where a: "account_Apply E (account_module_of cfg km bp) data s2 = (out, s1)" and t3: "trace s3 = trace s1"
      and k3: "same_identity (ac_cr s1) (ac_cr s3)" "cr_locator s3 = cr_locator s1"
        "st_AccountCreatedAt (sa_Status (ac_cr s3)) = st_AccountCreatedAt (sa_Status (ac_cr s1))"
    by (rule pipeline_Apply_account)
  from ran(3) have p: "rd_pool data = pool_db_pool E (pool_New E km cfg)" by simp
  have h1: "emits harmless s s2" by (rule emits_harmless(1) [OF ran(1)])
  have h2: "emits harmless s1 s'"
    using emits_trans [OF emits_same [OF t3] emits_trans [OF emits_harmless(1) [OF ran(6)] emits_harmless(3) [OF ran(7)]]] .
  from ran(9) have l: "cr_locator s' = cr_locator s1" "same_identity (ac_cr s3) (ac_cr s')"
    using k3 by (auto simp: same_record_def)
  have cr: "ac_cr s2 = ac_cr s" by (rule ran(2))
  have "emits (\<lambda>_. True) s2 s1"
  proof (cases "cr_locator s2 = []")
    case True
    from pl.account_Apply_fresh [OF p True a] show ?thesis by (auto intro: create_trace_extends)
  next
    case False
    from pl.account_Apply_existing [OF p False a] show ?thesis by (auto intro: emits_mono)
  qed
  with t3 have "emits (\<lambda>_. True) s2 s3" by (simp add: emits_def)
  from emits_trans [OF emits_mono [OF ran(1)] this] have "emits (\<lambda>_. True) s s3" by simp
  from ran(11) have "persisted E kube u s3 s'" by simp
  from persisted_after [OF \<open>emits (\<lambda>_. True) s s3\<close> this] ran(13)
  have pe: "\<exists>u. persisted E kube u s s' \<and> (r = None \<longrightarrow> u = None)" by blast
  show ?thesis
  proof (cases "cr_locator s = []")
    case False
    with cr have "cr_locator s2 \<noteq> []" by simp
    note f = pl.account_Apply_existing [OF p this a]
    from emits_trans [OF h1 emits_trans [OF emits_harmless(4) [OF conjunct1 [OF f]] h2]] f l k3 ran False cr
      pe
    show ?thesis by (auto simp: same_identity_def cr_kept_def)
  next
    case True
    with cr have "cr_locator s2 = []" by simp
    note f = pl.account_Apply_fresh [OF p this a]
    have "create_trace (resolved_name (ac_cr s)) (sa_Spec (ac_cr s)) s s'"
      using f ran(4) cr by (auto simp: resolved_name_def intro: create_trace_pre [OF h1 create_trace_post [OF _ h2]])
    with f l k3 ran True cr pe show ?thesis by (auto simp: same_identity_def cr_kept_def resolved_name_def)
  qed
qed

subsection \<open>Delete\<close>

context db_pool
begin

text \<open>A teardown sends at most one DROP ACCOUNT and never CREATE ACCOUNT; when it succeeds the
  locator is gone and the credential was deleted last.\<close>

lemma account_Teardown_trace:
  assumes "rd_pool c = P" and "account_Teardown E m c s = (r, s')"
  shows "\<exists>pre post rest. trace s' = trace s @ pre @ post @ rest \<and> list_all harmless pre \<and> list_all harmless rest \<and>
    (post = [] \<or> cr_locator s \<noteq> [] \<and>
       (\<exists>d. post = [ExecSQL d (drop_account_sql (am_deletionGracePeriodDays m)) [ResolvedAccountName c]])) \<and>
    (r = None \<longrightarrow> cr_locator s' = [] \<and> (cr_locator s \<noteq> [] \<longrightarrow> post \<noteq> []) \<and>
       (\<exists>i rest'. NewTenantIdentifier (am_org m) (om_Namespace (sa_Meta (ac_cr s))) (om_Name (sa_Meta (ac_cr s))) = Inr i \<and>
          rest = rest' @ [DeleteSecret i] \<and> list_all harmless rest'))"
proof -
  have hp: "list_all harmless efs" if "list_all pool_effect efs" for efs
    by (rule list_all_weaken [OF that harmlessI(4)])
  have hd: "harmless (DeleteSecret i)" for i by (simp add: harmless_def is_create_def is_drop_def)
  let ?nt = "NewTenantIdentifier (am_org m) (om_Namespace (sa_Meta (ac_cr s))) (om_Name (sa_Meta (ac_cr s)))"
  show ?thesis
  proof (cases "cr_locator s = []")
    case True
    with assms(2) have dc: "deleteCredential m s = (r, s')" by (simp add: account_Teardown_def)
    note f = deleteCredential_frame [OF dc]
    show ?thesis
    proof (cases ?nt)
      case (Inl e)
      with f True show ?thesis
        by (intro exI [of _ "[]"]) auto
    next
      case (Inr i)
      with f True hd show ?thesis
        by (intro exI [of _ "[]"] exI [of _ "[DeleteSecret i]"]) auto
    qed
  next
    case False
    obtain r1 s1 where d: "dropAccount E m c s = (r1, s1)" by fastforce
    from dropAccount_frame [OF assms(1) d] obtain pre post where df: "ac_cr s1 = ac_cr s"
        "trace s1 = trace s @ pre @ post" "list_all pool_effect pre"
        "post = [] \<and> r1 \<noteq> None \<or> (\<exists>d. post =
          [ExecSQL d (drop_account_sql (am_deletionGracePeriodDays m)) [ResolvedAccountName c]])"
      by blast
    show ?thesis
    proof (cases r1)
      case (Some e)
      with False assms(2) d have "r = Some e" "s' = s1" by (auto simp: account_Teardown_def)
      with df False hp show ?thesis by (intro exI [of _ pre] exI [of _ post] exI [of _ "[]"]) auto
    next
      case None
      obtain mid where m: "trace (rd_EvictTenant c s1) = trace s1 @ mid" "list_all pool_effect mid"
          "ac_cr (rd_EvictTenant c s1) = ac_cr s1"
        using rd_EvictTenant_pool [OF assms(1), of s1] .
      let ?s3 = "set_status (\<lambda>st. st\<lparr>st_AccountLocator := []\<rparr>) (rd_EvictTenant c s1)"
      from False assms(2) d None have dc: "deleteCredential m ?s3 = (r, s')"
        by (simp add: account_Teardown_def Let_def)
      note f = deleteCredential_frame [OF dc]
      show ?thesis
      proof (cases ?nt)
        case (Inl e)
        with f m df None False hp show ?thesis
          by (intro exI [of _ pre] exI [of _ post] exI [of _ mid]) auto
      next
        case (Inr i)
        with f m df None False hp hd show ?thesis
          by (intro exI [of _ pre] exI [of _ post] exI [of _ "mid @ [DeleteSecret i]"]) auto
      qed
    qed
  qed
qed

end

text \<open>The permit Delete acts on: the earliest active one in the list the API returned.\<close>

definition authorised :: "'w kube \<Rightarrow> snowflakeAccount \<Rightarrow> 'w \<Rightarrow> deletionPermit \<Rightarrow> bool" where
  "authorised kube cr w p \<longleftrightarrow>
     (\<exists>items w'. kb_ListPermits kube (om_Namespace (sa_Meta cr)) w = (Inr items, w') \<and> p \<in> set items \<and>
        matching snowflakeAccountKind (om_Name (sa_Meta cr)) p \<and>
        (\<forall>q. q \<in> set items \<longrightarrow> matching snowflakeAccountKind (om_Name (sa_Meta cr)) q \<longrightarrow> created p \<le> created q))"

lemma FindActivePermit_frame:
  fixes s :: "('w, 'z) acc_sys_scheme"
  assumes "FindActivePermit K ns k n s = (r, s')"
  shows "trace s' = trace s @ [ListPermits ns] \<and> ac_cr s' = ac_cr s \<and>
    (case r of Inl e \<Rightarrow> \<exists>e'. fst (kb_ListPermits K ns (world s)) = Inl e'
     | Inr p \<Rightarrow> \<exists>items. fst (kb_ListPermits K ns (world s)) = Inr items \<and> p = find_earliest k n None items)"
proof -
  obtain r0 s0 where c: "call (ListPermits ns) (kb_ListPermits K ns) s = (r0, s0)" by fastforce
  note cf = call_frame [OF c]
  from cf have "ac_cr s0 = ac_cr s" by (blast dest: sys_more_acc)
  with c cf assms show ?thesis by (cases r0) (auto simp: FindActivePermit_def)
qed

lemma FindActivePermit_authorised:
  fixes s :: "('w, 'z) acc_sys_scheme"
  assumes "FindActivePermit kube (om_Namespace (sa_Meta (ac_cr s))) snowflakeAccountKind
    (om_Name (sa_Meta (ac_cr s))) s = (Inr (Some p), s')"
  shows "authorised kube (ac_cr s) (world s) p"
proof -
  from FindActivePermit_frame [OF assms] obtain items where
    "fst (kb_ListPermits kube (om_Namespace (sa_Meta (ac_cr s))) (world s)) = Inr items"
    and f: "find_earliest snowflakeAccountKind (om_Name (sa_Meta (ac_cr s))) None items = Some p" by fastforce
  then obtain w' where "kb_ListPermits kube (om_Namespace (sa_Meta (ac_cr s))) (world s) = (Inr items, w')"
    by (metis prod.collapse)
  with find_earliest_Some [OF f] show ?thesis by (auto simp: authorised_def)
qed

text \<open>The permit a Delete goes on with: what \<open>FindActivePermit\<close> returned for this account, or none
  when deletion protection is off.\<close>

definition looked_up ::
  "'w kube \<Rightarrow> bool \<Rightarrow> deletionPermit option \<Rightarrow> ('w, 'z) acc_sys_scheme \<Rightarrow> ('w, 'z) acc_sys_scheme \<Rightarrow> bool" where
  "looked_up kube protection permit s s1 \<longleftrightarrow>
     (if protection
      then \<exists>p. permit = Some p \<and> FindActivePermit kube (om_Namespace (sa_Meta (ac_cr s))) snowflakeAccountKind
        (om_Name (sa_Meta (ac_cr s))) s = (Inr (Some p), s1)
      else permit = None \<and> s1 = s)"

lemma Delete_cases:
  fixes s :: "('w, 'z) acc_sys_scheme"
  assumes "Delete E X e s = (r, s')"
  obtains (stopped) "del_Protection (cfg_Deletion (xt_cfg e))" "r \<noteq> None" "opaque r"
      "same_record (ac_cr s) (ac_cr s')" "emits is_controller s s'"
  | (go) permit s1 where "delete_phase3 E e (account_logger OpDelete (ac_cr s)) permit s1 = (r, s')"
      "ac_cr s1 = ac_cr s" "trace s1 = trace s @
         (if del_Protection (cfg_Deletion (xt_cfg e)) then [ListPermits (om_Namespace (sa_Meta (ac_cr s)))] else [])"
      "if del_Protection (cfg_Deletion (xt_cfg e)) then \<exists>p. permit = Some p \<and> authorised (xt_kube e) (ac_cr s) (world s) p
       else permit = None"
      "looked_up (xt_kube e) (del_Protection (cfg_Deletion (xt_cfg e))) permit s s1"
proof (cases "del_Protection (cfg_Deletion (xt_cfg e))")
  case False
  with assms go [of None s] show thesis by (simp add: Delete_def looked_up_def)
next
  case True
  let ?log = "account_logger OpDelete (ac_cr s)"
  obtain rf s1 where f: "FindActivePermit (xt_kube e) (om_Namespace (sa_Meta (ac_cr s))) snowflakeAccountKind
      (om_Name (sa_Meta (ac_cr s))) s = (rf, s1)" by fastforce
  note ff = FindActivePermit_frame [OF f]
  have e1: "emits is_controller s s1" by (rule emits_one [OF conjunct1 [OF ff]]) simp
  show thesis
  proof (cases rf)
    case (Inl err)
    with assms True f have h: "Handle E ?log (Some err) s1 = (r, s')" by (simp add: Delete_def)
    have "emits is_controller s s'"
      by (rule emits_trans [OF e1 emits_mono [OF conjunct1 [OF Handle_acc [OF h]]]]) (rule is_controllerI)
    with stopped True Handle_acc [OF h] Handle_is_opaque [OF h] ff show thesis by auto
  next
    case (Inr po)
    show thesis
    proof (cases po)
      case None
      let ?s2 = "record_event (xp_Warning X ''DeletionBlocked'' blocked_error) s1"
      let ?s3 = "set_conditions X [xp_WithMessage X (xp_Unavailable X) (err_text blocked_error)] ?s2"
      from assms True f Inr None have h: "Handle E ?log (Some blocked_error) ?s3 = (r, s')"
        by (simp add: Delete_def Let_def)
      have "ac_cr ?s2 = ac_cr s1" "emits is_controller s1 ?s3"
        by (auto simp: record_event_def emit_def emits_def)
      moreover have "emits is_controller ?s3 s'"
        by (rule emits_mono [OF conjunct1 [OF Handle_acc [OF h]]]) (rule is_controllerI)
      ultimately have "emits is_controller s s'" "same_record (ac_cr s) (ac_cr s')"
        using e1 Handle_acc [OF h] ff by (auto simp: same_record_def same_identity_def intro: emits_trans)
      with stopped True Handle_acc [OF h] Handle_is_opaque [OF h] show thesis by auto
    next
      case (Some p)
      with assms True f Inr go [of "Some p" s1] ff FindActivePermit_authorised [of "xt_kube e" s p s1]
      show thesis by (simp add: Delete_def looked_up_def)
    qed
  qed
qed

abbreviation tenant_ident :: "config \<Rightarrow> snowflakeAccount \<Rightarrow> ident result" where
  "tenant_ident cfg cr \<equiv>
     NewTenantIdentifier (sf_Org (cfg_Snowflake cfg)) (om_Namespace (sa_Meta cr)) (om_Name (sa_Meta cr))"

definition drop_effect :: "config \<Rightarrow> snowflakeAccount \<Rightarrow> db \<Rightarrow> effect" where
  "drop_effect cfg cr d =
     ExecSQL d (drop_account_sql (del_GracePeriodDays (cfg_Deletion cfg))) [resolved_name cr]"

lemma account_module_of_fields [simp]:
  "am_org (account_module_of cfg km bp) = sf_Org (cfg_Snowflake cfg)"
  "am_deletionGracePeriodDays (account_module_of cfg km bp) = del_GracePeriodDays (cfg_Deletion cfg)"
  by (simp_all add: account_module_of_def account_New_def)

lemma harmless_kube [simp]: "harmless (UpdatePermitStatus a b c)" "harmless (ListPermits a)"
  by (simp_all add: harmless_def is_create_def is_drop_def)

lemma is_drop_drop_effect [simp]: "is_drop (drop_effect cfg cr d)" "\<not> is_create (drop_effect cfg cr d)"
  by (simp_all add: is_drop_def is_create_def drop_effect_def drop_account_sql_def has_prefix_def)

lemma emitsE:
  assumes "emits Q s s'"
  obtains efs where "trace s' = trace s @ efs" "list_all Q efs"
  using assms by (auto simp: emits_def)

definition consumption :: "deletionPermit option \<Rightarrow> effect list" where
  "consumption permit = (case permit of None \<Rightarrow> []
     | Some p \<Rightarrow> [UpdatePermitStatus (om_Namespace (dp_Meta p)) (om_Name (dp_Meta p)) stateConsumed])"

lemma harmless_consumption [simp]: "list_all harmless (consumption permit)" "harmless (DeleteSecret i)"
  by (auto simp: consumption_def harmless_def is_create_def is_drop_def split: option.splits)

text \<open>The trace of phase 3: harmless effects, at most one DROP ACCOUNT, harmless effects; on
  success the locator is gone, the credential was deleted and the permit consumed last.\<close>

lemma delete_phase3_account:
  fixes s :: "('w, 'z) acc_sys_scheme"
  assumes "delete_phase3 E (account_client E kube cfg km bp) log permit s = (r, s')"
  shows "\<exists>pre post rest. trace s' = trace s @ pre @ post @ rest \<and> list_all harmless pre \<and> list_all harmless rest \<and>
    (post = [] \<or> cr_locator s \<noteq> [] \<and> (\<exists>d. post = [drop_effect cfg (ac_cr s) d])) \<and>
    same_identity (ac_cr s) (ac_cr s') \<and>
    (r = None \<longrightarrow> cr_locator s' = [] \<and> (cr_locator s \<noteq> [] \<longrightarrow> post \<noteq> []) \<and>
       (\<exists>i rest'. tenant_ident cfg (ac_cr s) = Inr i \<and> list_all harmless rest' \<and>
          rest = rest' @ DeleteSecret i # consumption permit))"
  using assms
proof (cases rule: delete_phase3_cases)
  case no_labels
  from emits_harmless(1) [OF no_labels(3)] obtain efs where e: "trace s' = trace s @ efs" "list_all harmless efs"
    by (rule emitsE)
  with no_labels show ?thesis by (intro exI [of _ efs] exI [of _ "[]"]) (auto simp: same_identity_def)
next
  case (failed data s2 err s3)
  from failed(3) have p: "rd_pool data = pool_db_pool E (pool_New E km cfg)" by simp
  from failed(5) have t: "account_Teardown E (account_module_of cfg km bp) data s2 = (Some err, s3)"
    by (simp add: pipeline_Destroy_account)
  from emits_harmless(1) [OF failed(1)] obtain e1 where e1: "trace s2 = trace s @ e1" "list_all harmless e1"
    by (rule emitsE)
  from emits_harmless(3) [OF failed(6)] obtain e3 where e3: "trace s' = trace s3 @ e3" "list_all harmless e3"
    by (rule emitsE)
  from pl.account_Teardown_kept [OF p t] failed(2,7) have "same_identity (ac_cr s) (ac_cr s')"
    by (simp add: cr_kept_def same_identity_def)
  moreover from pl.account_Teardown_trace [OF p t] obtain pre post rest where
    "trace s3 = trace s2 @ pre @ post @ rest" "list_all harmless pre" "list_all harmless rest"
    "post = [] \<or> cr_locator s2 \<noteq> [] \<and> (\<exists>d. post = [ExecSQL d (drop_account_sql
       (am_deletionGracePeriodDays (account_module_of cfg km bp))) [ResolvedAccountName data]])" by blast
  ultimately show ?thesis using e1 e3 failed(2,4,8)
    by (intro exI [of _ "e1 @ pre"] exI [of _ post] exI [of _ "rest @ e3"])
      (auto simp: drop_effect_def resolved_name_def)
next
  case (torn_down data s2 s3)
  from torn_down(3) have p: "rd_pool data = pool_db_pool E (pool_New E km cfg)" by simp
  from torn_down(5) have t: "account_Teardown E (account_module_of cfg km bp) data s2 = (None, s3)"
    by (simp add: pipeline_Destroy_account)
  from emits_harmless(1) [OF torn_down(1)] obtain e1 where e1: "trace s2 = trace s @ e1" "list_all harmless e1"
    by (rule emitsE)
  have fin: "ac_cr s' = ac_cr s3 \<and> trace s' = trace s3 @ consumption permit"
  proof (cases permit)
    case (Some q)
    with torn_down(6) have mc: "MarkConsumed kube q s3 =
        (r, q\<lparr>dp_Status := (dp_Status q)\<lparr>pt_State := stateConsumed\<rparr>\<rparr>, s')" by simp
    from MarkConsumed_permit [OF mc] have "trace s' = trace s3 @
        [UpdatePermitStatus (om_Namespace (dp_Meta q)) (om_Name (dp_Meta q)) stateConsumed]"
      and m: "sys.more s' = sys.more s3" by auto
    with sys_more_acc [OF m] Some show ?thesis by (simp add: consumption_def)
  qed (use torn_down(6) in \<open>auto simp: consumption_def\<close>)
  from pl.account_Teardown_kept [OF p t] torn_down(2) fin have "same_identity (ac_cr s) (ac_cr s')"
    by (simp add: cr_kept_def same_identity_def)
  moreover from pl.account_Teardown_trace [OF p t] obtain pre post rest' i where
    "trace s3 = trace s2 @ pre @ post @ rest' @ [DeleteSecret i]" "list_all harmless pre" "list_all harmless rest'"
    "post = [] \<or> cr_locator s2 \<noteq> [] \<and> (\<exists>d. post = [ExecSQL d (drop_account_sql
       (am_deletionGracePeriodDays (account_module_of cfg km bp))) [ResolvedAccountName data]])"
    "cr_locator s3 = []" "cr_locator s2 \<noteq> [] \<longrightarrow> post \<noteq> []"
    "NewTenantIdentifier (am_org (account_module_of cfg km bp)) (om_Namespace (sa_Meta (ac_cr s2)))
       (om_Name (sa_Meta (ac_cr s2))) = Inr i" by blast
  ultimately show ?thesis using e1 fin torn_down(2,4)
    by (intro exI [of _ "e1 @ pre"] exI [of _ post] exI [of _ "rest' @ DeleteSecret i # consumption permit"])
      (auto simp: drop_effect_def resolved_name_def)
qed

lemma delete_phase3_opaque:
  assumes "delete_phase3 E e log None s = (r, s')"
  shows "opaque r"
  using assms by (cases rule: delete_phase3_cases) auto

lemma Delete_account:
  fixes s :: "('w, 'z) acc_sys_scheme"
  assumes "Delete E X (account_client E kube cfg km bp) s = (r, s')"
  shows "\<exists>pre post rest. trace s' = trace s @ pre @ post @ rest \<and> list_all harmless pre \<and> list_all harmless rest \<and>
    (post = [] \<or> cr_locator s \<noteq> [] \<and> (\<exists>d. post = [drop_effect cfg (ac_cr s) d]) \<and>
       (del_Protection (cfg_Deletion cfg) \<longrightarrow> ListPermits (om_Namespace (sa_Meta (ac_cr s))) \<in> set pre \<and>
          (\<exists>p. authorised kube (ac_cr s) (world s) p))) \<and>
    same_identity (ac_cr s) (ac_cr s') \<and>
    (r = None \<longrightarrow> cr_locator s' = [] \<and> (cr_locator s \<noteq> [] \<longrightarrow> post \<noteq> []) \<and>
       (\<exists>i rest' permit. tenant_ident cfg (ac_cr s) = Inr i \<and> list_all harmless rest' \<and>
          rest = rest' @ DeleteSecret i # consumption permit \<and>
          (if del_Protection (cfg_Deletion cfg) then \<exists>p. permit = Some p \<and> authorised kube (ac_cr s) (world s) p
           else permit = None)))"
  using assms
proof (cases rule: Delete_cases)
  case stopped
  from emits_harmless(1) [OF stopped(5)] obtain efs where "trace s' = trace s @ efs" "list_all harmless efs"
    by (rule emitsE)
  with stopped show ?thesis
    by (intro exI [of _ efs] exI [of _ "[]"]) (auto simp: same_record_def)
next
  case (go permit s1)
  from delete_phase3_account [OF go(1)] obtain pre post rest where d:
    "trace s' = trace s1 @ pre @ post @ rest" "list_all harmless pre" "list_all harmless rest"
    "post = [] \<or> cr_locator s1 \<noteq> [] \<and> (\<exists>d. post = [drop_effect cfg (ac_cr s1) d])"
    "same_identity (ac_cr s1) (ac_cr s')"
    "r = None \<longrightarrow> cr_locator s' = [] \<and> (cr_locator s1 \<noteq> [] \<longrightarrow> post \<noteq> []) \<and>
       (\<exists>i rest'. tenant_ident cfg (ac_cr s1) = Inr i \<and> list_all harmless rest' \<and>
          rest = rest' @ DeleteSecret i # consumption permit)" by blast
  let ?l = "if del_Protection (cfg_Deletion cfg) then [ListPermits (om_Namespace (sa_Meta (ac_cr s)))] else []"
  from go d have "trace s' = trace s @ (?l @ pre) @ post @ rest" "list_all harmless (?l @ pre)" by simp_all
  with go(2,4) d(3-6) show ?thesis
    apply -
    apply (rule exI [of _ "?l @ pre"], rule exI [of _ post], rule exI [of _ rest])
    apply (cases "del_Protection (cfg_Deletion cfg)")
     apply (simp_all)
     apply blast+
    done
qed

text \<open>The permits a run touches: none but the one it goes on with, and that one last.\<close>

fun is_permit_update :: "effect \<Rightarrow> bool" where
  "is_permit_update (UpdatePermitStatus a b c) = True"
| "is_permit_update _ = False"

abbreviation leaves_permits :: "('w, 'z) sys_scheme \<Rightarrow> ('w, 'z) sys_scheme \<Rightarrow> bool" where
  "leaves_permits s s' \<equiv> emits (\<lambda>ef. \<not> is_permit_update ef) s s'"

lemma no_permit_update:
  "is_controller ef \<Longrightarrow> \<not> is_permit_update ef" "pool_effect ef \<Longrightarrow> \<not> is_permit_update ef"
  "is_log ef \<Longrightarrow> \<not> is_permit_update ef"
  by (cases ef; simp)+

lemma leaves_permitsI:
  "emits is_controller s s' \<Longrightarrow> leaves_permits s s'" "emits pool_effect s s' \<Longrightarrow> leaves_permits s s'"
  "emits is_log s s' \<Longrightarrow> leaves_permits s s'"
  by (erule emits_mono; rule no_permit_update; assumption)+

context db_pool
begin

lemma account_Teardown_permits:
  assumes "rd_pool c = P" and "account_Teardown E m c s = (r, s')"
  shows "leaves_permits s s'"
proof -
  have dc: "leaves_permits t t'" if "deleteCredential m t = (q, t')" for t q t'
    using deleteCredential_frame [OF that] by (auto simp: emits_def split: sum.splits)
  show ?thesis
  proof (cases "cr_locator s = []")
    case True
    with assms(2) dc show ?thesis by (simp add: account_Teardown_def)
  next
    case False
    obtain r1 s1 where d: "dropAccount E m c s = (r1, s1)" by fastforce
    from dropAccount_frame [OF assms(1) d] obtain pre post where df: "trace s1 = trace s @ pre @ post"
        "list_all pool_effect pre" "post = [] \<or> (\<exists>d q as. post = [ExecSQL d q as])" by blast
    have l1: "leaves_permits s s1"
      using df list_all_weaken [OF df(2) no_permit_update(2)] by (auto simp: emits_def)
    show ?thesis
    proof (cases r1)
      case (Some e)
      with False assms(2) d l1 show ?thesis by (auto simp: account_Teardown_def)
    next
      case None
      let ?s3 = "set_status (\<lambda>st. st\<lparr>st_AccountLocator := []\<rparr>) (rd_EvictTenant c s1)"
      from False assms(2) d None have "deleteCredential m ?s3 = (r, s')"
        by (simp add: account_Teardown_def Let_def)
      note l3 = dc [OF this]
      have "leaves_permits s1 (rd_EvictTenant c s1)"
        using rd_EvictTenant_frame [OF assms(1), of s1] by (auto intro: leaves_permitsI(2))
      then have "leaves_permits s1 ?s3" by (simp add: emits_def)
      from emits_trans [OF l1 emits_trans [OF this l3]] show ?thesis .
    qed
  qed
qed

end

lemma delete_phase3_permits:
  fixes s :: "('w, 'z) acc_sys_scheme"
  assumes "delete_phase3 E (account_client E kube cfg km bp) log permit s = (r, s')"
  shows "\<exists>efs fin. trace s' = trace s @ efs @ fin \<and> list_all (\<lambda>ef. \<not> is_permit_update ef) efs \<and>
    (fin = consumption permit \<or> fin = [] \<and> r \<noteq> None)"
  using assms
proof (cases rule: delete_phase3_cases)
  case no_labels
  from leaves_permitsI(1) [OF no_labels(3)] obtain efs
    where "trace s' = trace s @ efs" "list_all (\<lambda>ef. \<not> is_permit_update ef) efs" by (rule emitsE)
  with no_labels(1) show ?thesis by (intro exI [of _ efs] exI [of _ "[]"]) simp
next
  case (failed data s2 err s3)
  from failed(3) have p: "rd_pool data = pool_db_pool E (pool_New E km cfg)" by simp
  from failed(5) have t: "account_Teardown E (account_module_of cfg km bp) data s2 = (Some err, s3)"
    by (simp add: pipeline_Destroy_account)
  from emits_trans [OF leaves_permitsI(1) [OF failed(1)]
      emits_trans [OF pl.account_Teardown_permits [OF p t] leaves_permitsI(3) [OF failed(6)]]]
  obtain efs where "trace s' = trace s @ efs" "list_all (\<lambda>ef. \<not> is_permit_update ef) efs" by (rule emitsE)
  with failed(8) show ?thesis by (intro exI [of _ efs] exI [of _ "[]"]) simp
next
  case (torn_down data s2 s3)
  from torn_down(3) have p: "rd_pool data = pool_db_pool E (pool_New E km cfg)" by simp
  from torn_down(5) have t: "account_Teardown E (account_module_of cfg km bp) data s2 = (None, s3)"
    by (simp add: pipeline_Destroy_account)
  have "trace s' = trace s3 @ consumption permit"
  proof (cases permit)
    case (Some q)
    with torn_down(6) have mc: "MarkConsumed kube q s3 =
        (r, q\<lparr>dp_Status := (dp_Status q)\<lparr>pt_State := stateConsumed\<rparr>\<rparr>, s')" by simp
    from MarkConsumed_permit [OF mc] Some show ?thesis by (simp add: consumption_def)
  qed (use torn_down(6) in \<open>auto simp: consumption_def\<close>)
  moreover from emits_trans [OF leaves_permitsI(1) [OF torn_down(1)] pl.account_Teardown_permits [OF p t]]
  obtain efs where "trace s3 = trace s @ efs" "list_all (\<lambda>ef. \<not> is_permit_update ef) efs" by (rule emitsE)
  ultimately show ?thesis by (intro exI [of _ efs] exI [of _ "consumption permit"]) simp
qed

text \<open>A protected Delete that gets as far as an effect beyond the controller's own acted on the permit
  the lookup returned.\<close>

lemma Delete_permit:
  fixes s :: "('w, 'z) acc_sys_scheme"
  assumes "Delete E X (account_client E kube cfg km bp) s = (r, s')" and "del_Protection (cfg_Deletion cfg)"
    and "trace s' = trace s @ efs" and "ef \<in> set efs" and "\<not> is_controller ef"
  shows "\<exists>p s1 mid fin. FindActivePermit kube (om_Namespace (sa_Meta (ac_cr s))) snowflakeAccountKind
      (om_Name (sa_Meta (ac_cr s))) s = (Inr (Some p), s1) \<and> authorised kube (ac_cr s) (world s) p \<and>
    efs = ListPermits (om_Namespace (sa_Meta (ac_cr s))) # mid @ fin \<and> list_all (\<lambda>ef. \<not> is_permit_update ef) mid \<and>
    (fin = consumption (Some p) \<or> fin = [] \<and> r \<noteq> None)"
  using assms(1)
proof (cases rule: Delete_cases)
  case stopped
  with assms(3-5) show ?thesis by (auto simp: emits_def list_all_iff)
next
  case (go permit s1)
  from go(4) assms(2) obtain p where p: "permit = Some p" "authorised kube (ac_cr s) (world s) p" by auto
  from go(5) p(1) assms(2) have f: "FindActivePermit kube (om_Namespace (sa_Meta (ac_cr s))) snowflakeAccountKind
      (om_Name (sa_Meta (ac_cr s))) s = (Inr (Some p), s1)" by (simp add: looked_up_def)
  from delete_phase3_permits [OF go(1)] go(3) assms(2,3) obtain mid fin where
    "efs = ListPermits (om_Namespace (sa_Meta (ac_cr s))) # mid @ fin" "list_all (\<lambda>ef. \<not> is_permit_update ef) mid"
    "fin = consumption permit \<or> fin = [] \<and> r \<noteq> None" by auto
  with f p show ?thesis by blast
qed

text \<open>What a successful Delete was answered.  \<open>account_dropped\<close>: Snowflake accepted DROP ACCOUNT on the
  organisation's connection, and the tenant's connection was evicted.\<close>

definition account_dropped ::
  "'w env \<Rightarrow> config \<Rightarrow> 'w key_manager \<Rightarrow> snowflakeAccount
     \<Rightarrow> ('w, 'z) acc_sys_scheme \<Rightarrow> ('w, 'z) acc_sys_scheme \<Rightarrow> bool" where
  "account_dropped E cfg km cr s s' \<longleftrightarrow>
     (\<exists>d s1 w2 t. OrgAdminDB E (pool_New E km cfg) s = (Inr d, s1) \<and> emits pool_effect s s1 \<and>
        env_exec E d (drop_account_sql (del_GracePeriodDays (cfg_Deletion cfg))) [resolved_name cr] (world s1) = (None, w2) \<and>
        t = s1\<lparr>world := w2, trace := trace s1 @ [drop_effect cfg cr d]\<rparr> \<and>
        s' = EvictTenant E (om_Namespace (sa_Meta cr)) (om_Name (sa_Meta cr)) t \<and> emits pool_effect t s')"

lemma dropped_permits:
  assumes "account_dropped E cfg km cr s s'"
  shows "leaves_permits s s'"
proof -
  from assms obtain d s1 w2 where a: "emits pool_effect s s1"
    "emits pool_effect (s1\<lparr>world := w2, trace := trace s1 @ [drop_effect cfg cr d]\<rparr>) s'"
    unfolding account_dropped_def by blast
  have "leaves_permits s1 (s1\<lparr>world := w2, trace := trace s1 @ [drop_effect cfg cr d]\<rparr>)"
    by (simp add: emits_def drop_effect_def)
  from emits_trans [OF leaves_permitsI(2) [OF a(1)] emits_trans [OF this leaves_permitsI(2) [OF a(2)]]] show ?thesis .
qed

lemma drop_answered:
  fixes s :: "('w, 'z) acc_sys_scheme"
  assumes "rd_pool data = pool_db_pool E (pool_New E km cfg)" and "ResolvedAccountName data = resolved_name (ac_cr s)"
    and "rd_namespace data = om_Namespace (sa_Meta (ac_cr s))"
    and "dropAccount E (account_module_of cfg km bp) data s = (None, s1)"
  shows "account_dropped E cfg km (ac_cr s) s (rd_EvictTenant data s1)"
proof -
  obtain r0 s0 where o: "rd_OrgAdminDB data s = (r0, s0)" by fastforce
  note of = pl.rd_OrgAdminDB_frame [OF assms(1) o]
  from o assms(4) obtain d where d: "r0 = Inr d" by (cases r0) (auto simp: dropAccount_def)
  let ?q = "drop_account_sql (del_GracePeriodDays (cfg_Deletion cfg))" and ?as = "[resolved_name (ac_cr s)]"
  obtain u w2 where x: "env_exec E d ?q ?as (world s0) = (u, w2)" by fastforce
  with o d assms(2,4) have u: "u = None"
    and s1: "s1 = s0\<lparr>world := w2, trace := trace s0 @ [drop_effect cfg (ac_cr s) d]\<rparr>"
    by (auto simp: dropAccount_def runner_Exec_def statement_New_def db_executor_def call_def drop_effect_def
        split: option.splits if_splits)
  have "rd_EvictTenant data s1 = EvictTenant E (om_Namespace (sa_Meta (ac_cr s))) (om_Name (sa_Meta (ac_cr s))) s1"
    using s1 of by (simp add: rd_EvictTenant_def assms(1,3) pool_db_pool_def)
  moreover have "emits pool_effect s1 (rd_EvictTenant data s1)"
    using pl.rd_EvictTenant_frame [OF assms(1), of s1] by blast
  moreover have "OrgAdminDB E (pool_New E km cfg) s = (Inr d, s0)" "emits pool_effect s s0"
    using o d of by (simp_all add: rd_OrgAdminDB_def assms(1) pool_db_pool_def)
  ultimately show ?thesis
    unfolding account_dropped_def using x [unfolded u] s1 by (intro exI conjI) assumption+
qed

lemma deleteCredential_answered:
  fixes s :: "('w, 'z) acc_sys_scheme"
  assumes "deleteCredential (account_module_of cfg km bp) s = (None, s')"
  obtains i where "tenant_ident cfg (ac_cr s) = Inr i" "ks_Delete (km_store km) i (world s) = (None, world s')"
    "trace s' = trace s @ [DeleteSecret i]" "ac_cr s' = ac_cr s"
proof -
  note f = deleteCredential_frame [OF assms]
  from assms f obtain i where i: "tenant_ident cfg (ac_cr s) = Inr i"
    by (cases "tenant_ident cfg (ac_cr s)") auto
  obtain u w where d: "ks_Delete (km_store km) i (world s) = (u, w)" by fastforce
  from assms i d have "u = None" "w = world s'"
    by (cases u; auto simp: deleteCredential_def DeleteCredentials_def call_def Invalidate_def Let_def
        account_module_of_def account_New_def)+
  with i d f show thesis by (intro that [of i]) simp_all
qed

lemma teardown_answered:
  fixes s :: "('w, 'z) acc_sys_scheme"
  assumes "rd_pool data = pool_db_pool E (pool_New E km cfg)" and "ResolvedAccountName data = resolved_name (ac_cr s)"
    and "rd_namespace data = om_Namespace (sa_Meta (ac_cr s))"
    and "account_Teardown E (account_module_of cfg km bp) data s = (None, s')"
  shows "\<exists>i s1. tenant_ident cfg (ac_cr s) = Inr i \<and>
    (if cr_locator s = [] then s1 = s else account_dropped E cfg km (ac_cr s) s s1) \<and>
    ks_Delete (km_store km) i (world s1) = (None, world s') \<and> trace s' = trace s1 @ [DeleteSecret i]"
proof (cases "cr_locator s = []")
  case True
  with assms(4) have "deleteCredential (account_module_of cfg km bp) s = (None, s')"
    by (simp add: account_Teardown_def)
  then show ?thesis by (rule deleteCredential_answered) (use True in auto)
next
  case False
  with assms(4) obtain s1 where d: "dropAccount E (account_module_of cfg km bp) data s = (None, s1)"
    and c: "deleteCredential (account_module_of cfg km bp)
      (set_status (\<lambda>st. st\<lparr>st_AccountLocator := []\<rparr>) (rd_EvictTenant data s1)) = (None, s')"
    by (auto simp: account_Teardown_def Let_def split: prod.splits option.splits)
  have "sa_Meta (ac_cr (rd_EvictTenant data s1)) = sa_Meta (ac_cr s)"
    using pl.dropAccount_frame [OF assms(1) d] pl.rd_EvictTenant_frame [OF assms(1), of s1] by simp
  with deleteCredential_answered [OF c] obtain i where "tenant_ident cfg (ac_cr s) = Inr i"
    "ks_Delete (km_store km) i (world (rd_EvictTenant data s1)) = (None, world s')"
    "trace s' = trace (rd_EvictTenant data s1) @ [DeleteSecret i]"
    by auto
  with drop_answered [OF assms(1-3) d] False show ?thesis by auto
qed

text \<open>The whole of a successful Delete, call by call.\<close>

abbreviation consumed :: "deletionPermit \<Rightarrow> deletionPermit" where
  "consumed p \<equiv> p\<lparr>dp_Status := (dp_Status p)\<lparr>pt_State := stateConsumed\<rparr>\<rparr>"

lemma delete_phase3_answered:
  fixes s :: "('w, 'z) acc_sys_scheme"
  assumes "delete_phase3 E (account_client E kube cfg km bp) log permit s = (None, s')"
  shows "\<exists>i ls (s2 :: ('w, 'z) acc_sys_scheme) s3 w4. tenant_ident cfg (ac_cr s) = Inr i \<and>
    kb_GetNamespace kube (om_Namespace (sa_Meta (ac_cr s))) (world s) = (Inr ls, world s2) \<and>
    trace s2 = trace s @ [GetNamespace (om_Namespace (sa_Meta (ac_cr s)))] \<and>
    (if cr_locator s = [] then s3 = s2 else account_dropped E cfg km (ac_cr s) s2 s3) \<and>
    ks_Delete (km_store km) i (world s3) = (None, w4) \<and>
    (case permit of None \<Rightarrow> world s' = w4 | Some p \<Rightarrow> kb_UpdatePermitStatus kube (consumed p) w4 = (None, world s')) \<and>
    trace s' = trace s3 @ DeleteSecret i # consumption permit"
proof -
  let ?e = "account_client E kube cfg km bp :: ('w, ('w, 'z) acc_sys_scheme) external"
  let ?ns = "om_Namespace (sa_Meta (ac_cr s))" and ?m = "account_module_of cfg km bp"
  obtain r1 s1 where n: "namespaceLabels ?e ?ns s = (r1, s1)" by fastforce
  from assms n obtain ls where r1: "r1 = Inr ls"
    by (cases r1) (auto simp: delete_phase3_def dest!: Handle_acc)
  from n r1 have n1: "kb_GetNamespace kube ?ns (world s) = (Inr ls, world s1)"
      "trace s1 = trace s @ [GetNamespace ?ns]" "ac_cr s1 = ac_cr s"
    by (auto simp: namespaceLabels_def call_def split: sum.splits prod.splits)
  obtain data s2 where d: "NewResourceData ls log (pool_db_pool E (pool_New E km cfg)) s1 = (data, s2)" by fastforce
  then have d1: "rd_pool data = pool_db_pool E (pool_New E km cfg)" "ResolvedAccountName data = resolved_name (ac_cr s2)"
      "rd_namespace data = om_Namespace (sa_Meta (ac_cr s2))" "ac_cr s2 = ac_cr s" "world s2 = world s1" "trace s2 = trace s1"
    using n1(3) by (auto simp: NewResourceData_def Let_def ResolvedAccountName_def resolved_name_def)
  obtain q s4 where t: "account_Teardown E ?m data s2 = (q, s4)" by fastforce
  then have p: "pipeline_Destroy (xt_pipeline ?e) data s2 = (q, s4)" by (simp add: pipeline_Destroy_account)
  have q: "q = None"
  proof (cases q)
    case (Some err)
    with assms n r1 d p show ?thesis by (auto simp: delete_phase3_def dest!: Handle_acc)
  qed
  from teardown_answered [OF d1(1-3) t [unfolded q]] obtain i s3 where a: "tenant_ident cfg (ac_cr s2) = Inr i"
    "if cr_locator s2 = [] then s3 = s2 else account_dropped E cfg km (ac_cr s2) s2 s3"
    "ks_Delete (km_store km) i (world s3) = (None, world s4)" "trace s4 = trace s3 @ [DeleteSecret i]" by blast
  have "(case permit of None \<Rightarrow> world s' = world s4 | Some p \<Rightarrow> kb_UpdatePermitStatus kube (consumed p) (world s4) = (None, world s')) \<and>
      trace s' = trace s4 @ consumption permit"
  proof (cases permit)
    case None
    with assms n r1 d p q show ?thesis by (simp add: delete_phase3_def consumption_def)
  next
    case (Some p')
    with assms n r1 d p q show ?thesis
      by (auto simp: delete_phase3_def consumption_def MarkConsumed_def call_def Let_def split: option.splits prod.splits)
  qed
  moreover note a [unfolded d1(4)] d1(5,6) n1
  ultimately show ?thesis
    by (intro exI [of _ i] exI [of _ ls] exI [of _ s2] exI [of _ s3] exI [of _ "world s4"]) (simp only: append.simps append_assoc simp_thms)
qed

text \<open>One resource under its controller: reconciler calls in any order, edits of the spec and
  of the metadata other than name and namespace, and changes of the outside world.\<close>

inductive ctl_step ::
  "'w env \<Rightarrow> xpv1 \<Rightarrow> 'w kube \<Rightarrow> config \<Rightarrow> 'w key_manager \<Rightarrow> backplane \<Rightarrow> 'w acc_sys \<Rightarrow> 'w acc_sys \<Rightarrow> bool"
  for E X kube cfg km bp where
  st_observe: "Observe E X (account_client E kube cfg km bp) s = (obs, r, s') \<Longrightarrow> ctl_step E X kube cfg km bp s s'"
| st_create: "Create E X (account_client E kube cfg km bp) s = (r, s') \<Longrightarrow> ctl_step E X kube cfg km bp s s'"
| st_update: "Update E X (account_client E kube cfg km bp) s = (r, s') \<Longrightarrow> ctl_step E X kube cfg km bp s s'"
| st_delete: "Delete E X (account_client E kube cfg km bp) s = (r, s') \<Longrightarrow> ctl_step E X kube cfg km bp s s'"
| st_edit: "om_Name m = om_Name (sa_Meta (ac_cr s)) \<Longrightarrow> om_Namespace m = om_Namespace (sa_Meta (ac_cr s)) \<Longrightarrow>
    ctl_step E X kube cfg km bp s (s\<lparr>ac_cr := (ac_cr s)\<lparr>sa_Meta := m, sa_Spec := sp\<rparr>\<rparr>)"
| st_world: "ctl_step E X kube cfg km bp s (s\<lparr>world := w\<rparr>)"

inductive ctl_reach ::
  "'w env \<Rightarrow> xpv1 \<Rightarrow> 'w kube \<Rightarrow> config \<Rightarrow> 'w key_manager \<Rightarrow> backplane \<Rightarrow> 'w acc_sys \<Rightarrow> 'w acc_sys \<Rightarrow> bool"
  for E X kube cfg km bp s0 where
  cr_start: "ctl_reach E X kube cfg km bp s0 s0"
| cr_next: "ctl_reach E X kube cfg km bp s0 s \<Longrightarrow> ctl_step E X kube cfg km bp s s' \<Longrightarrow> ctl_reach E X kube cfg km bp s0 s'"

definition drops :: "effect list \<Rightarrow> nat" where
  "drops efs = length (filter is_drop efs)"

fun is_list_permits :: "effect \<Rightarrow> bool" where
  "is_list_permits (ListPermits n) = True"
| "is_list_permits _ = False"

definition permit_lookups :: "effect list \<Rightarrow> nat" where
  "permit_lookups efs = length (filter is_list_permits efs)"

lemma drops_harmless: "list_all harmless efs \<Longrightarrow> drops efs = 0"
  by (auto simp: drops_def harmless_def list_all_iff)

lemma filter_drop_harmless: "list_all harmless efs \<Longrightarrow> filter is_drop efs = []"
  by (auto simp: harmless_def list_all_iff filter_empty_conv)

lemma counts_append [simp]:
  "drops (a @ b) = drops a + drops b" "permit_lookups (a @ b) = permit_lookups a + permit_lookups b"
  by (simp_all add: drops_def permit_lookups_def)

lemma permit_lookups_pos: "ListPermits n \<in> set efs \<Longrightarrow> 1 \<le> permit_lookups efs"
  by (induction efs) (auto simp: permit_lookups_def)

lemma drops_post: "post = [] \<or> (\<exists>d. post = [drop_effect cfg cr d]) \<Longrightarrow> drops post \<le> 1"
  by (auto simp: drops_def)

lemma counts_mono_harmless:
  "emits harmless s s' \<Longrightarrow> drops (trace s) \<le> permit_lookups (trace s) \<Longrightarrow>
     drops (trace s') \<le> permit_lookups (trace s')"
  by (auto simp: emits_def drops_harmless)

lemma drops_create_trace:
  assumes "create_trace n sp s s'" and "drops (trace s) \<le> permit_lookups (trace s)"
  shows "drops (trace s') \<le> permit_lookups (trace s')"
proof -
  have "\<not> is_drop (ExecSQL d (create_account_text sp) a)" for d a
    by (simp add: is_drop_def create_account_text_def create_account_sql_def has_prefix_def)
  then have "drops (ExecSQL d (create_account_text sp) a # post) = drops post" for d a post
    by (simp add: drops_def)
  with assms show ?thesis
    by (auto simp: create_trace_def drops_harmless intro: counts_mono_harmless)
qed

lemma resolved_name_identity: "same_identity a b \<Longrightarrow> resolved_name b = resolved_name a"
  by (simp add: same_identity_def resolved_name_def)

text \<open>The two invariants of a step: a recorded locator is what SHOW ACCOUNTS holds for the
  resource's own name, and no more accounts were dropped than permits looked up.\<close>

definition locator_ok :: "'w env \<Rightarrow> snowflakeAccount \<Rightarrow> bool" where
  "locator_ok E cr \<longleftrightarrow> st_AccountLocator (sa_Status cr) = [] \<or>
     located E (resolved_name cr) (st_AccountLocator (sa_Status cr))"

lemma locator_ok_kept:
  "same_identity a b \<Longrightarrow> st_AccountLocator (sa_Status b) \<in> {[], st_AccountLocator (sa_Status a)} \<Longrightarrow>
     locator_ok E a \<Longrightarrow> locator_ok E b"
  by (auto simp: locator_ok_def resolved_name_identity)

lemma apply_step:
  fixes s :: "('w, 'z) acc_sys_scheme"
  assumes "apply_cr E X (account_client E kube cfg km bp) s = (r, s')"
  shows "(locator_ok E (ac_cr s) \<longrightarrow> locator_ok E (ac_cr s')) \<and>
    (drops (trace s) \<le> permit_lookups (trace s) \<longrightarrow> drops (trace s') \<le> permit_lookups (trace s')) \<and>
    resolved_name (ac_cr s') = resolved_name (ac_cr s)"
proof -
  note f = apply_account [OF assms]
  note n = resolved_name_identity [OF conjunct1 [OF conjunct2 [OF f]]]
  show ?thesis
  proof (cases "cr_locator s = []")
    case True
    with f n show ?thesis by (auto simp: locator_ok_def intro: drops_create_trace)
  next
    case False
    with f n show ?thesis by (auto simp: locator_ok_def intro: counts_mono_harmless)
  qed
qed

text \<open>Delete clears the locator or leaves it.\<close>

lemma account_Teardown_locator:
  fixes s :: "('w, 'z) acc_sys_scheme"
  assumes "rd_pool c = pool_db_pool E (pool_New E km cfg)" and "account_Teardown E m c s = (r, s')"
  shows "cr_locator s' \<in> {[], cr_locator s}"
proof (cases "cr_locator s = []")
  case True
  with assms(2) deleteCredential_frame [of m s r s'] show ?thesis by (simp add: account_Teardown_def)
next
  case False
  from assms(1) False assms(2) show ?thesis
    by (cases rule: pl.account_Teardown_existing) auto
qed

lemma Delete_locator:
  fixes s :: "('w, 'z) acc_sys_scheme"
  assumes "Delete E X (account_client E kube cfg km bp) s = (r, s')"
  shows "cr_locator s' \<in> {[], cr_locator s}"
  using assms
proof (cases rule: Delete_cases)
  case (go permit s1)
  from go(1) show ?thesis
  proof (cases rule: delete_phase3_cases)
    case (failed data s2 err s3)
    with go(2) account_Teardown_locator [of data E km cfg "account_module_of cfg km bp" s2] show ?thesis
      by (simp add: pipeline_Destroy_account)
  next
    case (torn_down data s2 s3)
    have "ac_cr s' = ac_cr s3"
    proof (cases permit)
      case (Some q)
      with torn_down(6) have mc: "MarkConsumed kube q s3 =
          (r, q\<lparr>dp_Status := (dp_Status q)\<lparr>pt_State := stateConsumed\<rparr>\<rparr>, s')" by simp
      from MarkConsumed_permit [OF mc] sys_more_acc [of s' s3] show ?thesis by blast
    qed (use torn_down(6) in auto)
    with torn_down go(2) account_Teardown_locator [of data E km cfg "account_module_of cfg km bp" s2] show ?thesis
      by (simp add: pipeline_Destroy_account)
  qed (use go(2) in simp)
qed (simp add: same_record_def)

lemma ctl_step_invariants:
  assumes "ctl_step E X kube cfg km bp s s'"
  shows "(locator_ok E (ac_cr s) \<longrightarrow> locator_ok E (ac_cr s')) \<and>
    (del_Protection (cfg_Deletion cfg) \<longrightarrow> drops (trace s) \<le> permit_lookups (trace s) \<longrightarrow> drops (trace s') \<le> permit_lookups (trace s')) \<and>
    resolved_name (ac_cr s') = resolved_name (ac_cr s)"
  using assms(1)
proof cases
  case (st_observe obs r)
  have "Controller.Observe E X (account_client E kube cfg km bp) s = (obs, r, s')" by (rule st_observe)
  note f = ap.Observe_frame [OF account_client_fields(2) account_client_fields(4) this]
  from f have "same_identity (ac_cr s) (ac_cr s')" "cr_locator s' = cr_locator s"
    by (auto simp: same_record_def)
  with f show ?thesis
    by (auto simp: resolved_name_identity intro: locator_ok_kept counts_mono_harmless emits_harmless(2))
next
  case (st_delete r)
  from Delete_account [OF st_delete] obtain pre post rest where d:
    "trace s' = trace s @ pre @ post @ rest" "list_all harmless pre" "list_all harmless rest"
    "post = [] \<or> (\<exists>d. post = [drop_effect cfg (ac_cr s) d]) \<and>
       (del_Protection (cfg_Deletion cfg) \<longrightarrow> ListPermits (om_Namespace (sa_Meta (ac_cr s))) \<in> set pre)"
    "same_identity (ac_cr s) (ac_cr s')" by blast
  have "del_Protection (cfg_Deletion cfg) \<longrightarrow> drops post \<le> permit_lookups pre"
    using d(4) drops_post [of post cfg "ac_cr s"] permit_lookups_pos [of _ pre]
    by (auto simp: drops_def dest: order_trans)
  with d show ?thesis using Delete_locator [OF st_delete]
    by (auto simp: drops_harmless resolved_name_identity intro: locator_ok_kept)
next
  case (st_create r)
  then show ?thesis using apply_step unfolding Create_def by blast
next
  case (st_update r)
  then show ?thesis using apply_step unfolding Update_def by blast
qed (auto simp: locator_ok_def resolved_name_def)

subsection \<open>A concrete run\<close>

abbreviation sample_client :: "deletionPermit list \<Rightarrow> gerror option \<Rightarrow> (nat, nat acc_sys) external" where
  "sample_client permits e \<equiv>
     account_client sample_env (sample_kube permits) sample_cfg (sample_km_with e) sample_backplane"

abbreviation sample_start :: "string \<Rightarrow> time option \<Rightarrow> nat acc_sys" where
  "sample_start locator deleted \<equiv> sample_acc_sys (sample_account locator deleted)"

lemma sample_module [simp]:
  "sf_Org (cfg_Snowflake sample_cfg) = ''acme''" "am_org (account_module_of sample_cfg km bp) = ''acme''"
  "am_keyManager (account_module_of cfg km bp) = km" "am_backplane (account_module_of cfg km bp) = bp"
  by (simp_all add: account_module_of_def account_New_def sample_cfg_def)

lemma sample_start_fields [simp]:
  "ac_cr (sample_start l t) = sample_account l t" "trace (sample_start l t) = []"
  "ps_orgAdminDB (sample_start l t) = None" "km_entries (sample_start l t) i = None"
  "world (sample_start l t) = 0"
  by (simp_all add: sample_acc_sys_def)

lemma sample_account_fields [simp]:
  "om_Namespace (sa_Meta (sample_account l t)) = ''ns''" "om_Name (sa_Meta (sample_account l t)) = ''acct''"
  "om_DeletionTimestamp (sa_Meta (sample_account l t)) = t"
  "st_AccountLocator (sa_Status (sample_account l t)) = l"
  "st_AccountCreatedAt (sa_Status (sample_account l t)) = None"
  by (simp_all add: sample_account_def sample_meta_def)

lemma sample_namespaceLabels:
  fixes s :: "(nat, 'z) acc_sys_scheme"
  assumes "namespaceLabels (account_client E (sample_kube ps) cfg km bp :: (nat, (nat, 'z) acc_sys_scheme) external) ns s = (r, s1)"
  shows "r = Inr Map.empty \<and> ac_cr s1 = ac_cr s \<and> ps_orgAdminDB s1 = ps_orgAdminDB s \<and> km_entries s1 = km_entries s"
  using assms by (auto simp: namespaceLabels_def call_def sample_kube_def)

lemma sample_Create:
  "\<exists>s'. Create sample_env simple_xpv1 (sample_client ps e) (sample_start [] None) = (None, s') \<and>
     cr_locator s' = ''xy12345''"
proof -
  let ?s = "sample_start [] None" and ?m = "account_module_of sample_cfg (sample_km_with e) sample_backplane"
  let ?P = "pool_db_pool sample_env (pool_New sample_env (sample_km_with e) sample_cfg) :: nat acc_sys db_pool"
  let ?log = "account_logger OpUpdate (sample_account [] None)"
  obtain r s1 where n: "namespaceLabels (sample_client ps e) ''ns'' ?s = (r, s1)" by fastforce
  from sample_namespaceLabels [OF n] have r: "r = Inr Map.empty" and f1: "ac_cr s1 = sample_account [] None"
      "ps_orgAdminDB s1 = None" "\<And>i. km_entries s1 i = None"
    by auto
  obtain data s2 where d: "NewResourceData Map.empty ?log ?P s1 = (data, s2)" by fastforce
  have f2: "ac_cr s2 = sample_account [] None" "ps_orgAdminDB s2 = None" "\<And>i. km_entries s2 i = None"
      "rd_pool data = ?P" "ResolvedAccountName data = ResolveName ''acct'' ''ns''" "NamespaceLabels data = Map.empty"
    using d f1 by (auto simp: NewResourceData_def Let_def ResolvedAccountName_def NamespaceLabels_def)
  from sample_createAccount [OF f2(1-4) sample_module(2) sample_module(3) sample_module(4) f2(5,6)]
  obtain s3 where c: "createAccount sample_env ?m data s2 = (Pending_oc created_reason, s3)"
    and l3: "cr_locator s3 = ''xy12345''" by blast
  let ?out = "(Abort (Pending_oc created_reason))\<lparr>oc_Module := accountModuleName\<rparr>"
  let ?s4 = "syncStatus sample_env ?m data s3"
  have a: "account_Apply sample_env ?m data s2 = (Abort (Pending_oc created_reason), ?s4)"
    using c f2(1) by (simp add: account_Apply_def account_apply_def)
  let ?res = "\<lparr>ar_Outcomes = [?out], ar_readyLatched = readyLatched simple_xpv1 s2\<rparr>"
  have p: "pipeline_Apply simple_xpv1 (xt_pipeline (sample_client ps e)) data s2 = (?res, ?s4)"
    using a by (simp add: pipeline_Apply_def Let_def account_pmodule_def result_complete_def AllDone_def Abort_def)
  let ?s5 = "report_run simple_xpv1 (result_report simple_xpv1 ?res) ?s4"
  obtain s6 where u: "call (UpdateAccountStatus (om_Namespace (sa_Meta (ac_cr ?s5))) (om_Name (sa_Meta (ac_cr ?s5))))
      (kb_UpdateAccountStatus (sample_kube ps) (ac_cr ?s5)) ?s5 = (None, s6)" "ac_cr s6 = ac_cr ?s5"
    by (simp add: call_def sample_kube_def)
  have "outcomes_Err [?out] = None" by (simp add: Abort_def)
  with n r d p u have "Create sample_env simple_xpv1 (sample_client ps e) ?s = (None, s6)"
    by (simp add: Create_def apply_cr_def Let_def)
  moreover have "cr_locator s6 = ''xy12345''"
    using u(2) l3 report_run_frame [of ?s4 simple_xpv1 "result_report simple_xpv1 ?res"] syncStatus_frame [of s3 sample_env ?m data]
    by (simp add: same_record_def)
  ultimately show ?thesis by blast
qed

lemma sample_FindActivePermit:
  fixes s :: "(nat, 'z) acc_sys_scheme"
  shows "\<exists>s'. FindActivePermit (sample_kube [sample_permit]) ns snowflakeAccountKind ''acct'' s = (Inr (Some sample_permit), s') \<and>
    ac_cr s' = ac_cr s \<and> ps_orgAdminDB s' = ps_orgAdminDB s \<and> km_entries s' = km_entries s"
  by (simp add: FindActivePermit_def call_def sample_kube_def sample_permit_def stateActive_def snowflakeAccountKind_def)

lemma sample_Handle:
  fixes s :: "(nat, 'z) sys_scheme"
  shows "\<not> IsUserError e \<Longrightarrow> \<exists>s'. Handle sample_env l (Some e) s = (Some (internal_error ''0a1b2c3d''), s')"
  by (simp add: Handle_def generateIncidentID_def local_call_def sample_env_def)

lemma sample_phase3:
  assumes "ac_cr s = sample_account ''xy12345'' t" and "ps_orgAdminDB s = None" and "km_entries s = (\<lambda>_. None)"
    and "\<And>err. e = Some err \<Longrightarrow> \<not> IsUserError err"
  shows "\<exists>s'. delete_phase3 sample_env (sample_client ps e) log permit s =
    (case e of None \<Rightarrow> None | Some err \<Rightarrow> Some (internal_error ''0a1b2c3d''), s') \<and> cr_locator s' = []"
proof -
  let ?m = "account_module_of sample_cfg (sample_km_with e) sample_backplane"
  let ?P = "pool_db_pool sample_env (pool_New sample_env (sample_km_with e) sample_cfg) :: nat acc_sys db_pool"
  obtain r s1 where n: "namespaceLabels (sample_client ps e) ''ns'' s = (r, s1)" by fastforce
  from sample_namespaceLabels [OF n] assms have r: "r = Inr Map.empty" and f1: "ac_cr s1 = sample_account ''xy12345'' t"
      "ps_orgAdminDB s1 = None" "\<And>i. km_entries s1 i = None"
    by auto
  obtain data s2 where d: "NewResourceData Map.empty log ?P s1 = (data, s2)" by fastforce
  have f2: "ac_cr s2 = sample_account ''xy12345'' t" "ps_orgAdminDB s2 = None" "\<And>i. km_entries s2 i = None"
      "rd_pool data = ?P"
    using d f1 by (auto simp: NewResourceData_def Let_def)
  from sample_Teardown [OF f2(2,3) _ f2(4), of ?m e] f2(1) obtain s3 where t: "account_Teardown sample_env ?m data s2 =
      (case e of None \<Rightarrow> None | Some err \<Rightarrow> Some (wrap ''failed to delete platform credential: '' err), s3)"
      "cr_locator s3 = []" by auto
  have p: "pipeline_Destroy (xt_pipeline (sample_client ps e)) data s2 = account_Teardown sample_env ?m data s2"
    by (rule pipeline_Destroy_account) simp
  show ?thesis
  proof (cases e)
    case (Some err)
    let ?w = "wrap ''failed to delete platform credential: '' err"
    from assms(4) Some have "\<not> IsUserError ?w" by simp
    from sample_Handle [OF this] obtain s4
      where h: "Handle sample_env log (Some ?w) s3 = (Some (internal_error ''0a1b2c3d''), s4)" by blast
    from n r d p t Some h Handle_acc [OF h] assms(1) show ?thesis by (simp add: delete_phase3_def)
  next
    case None
    show ?thesis
    proof (cases permit)
      case None
      with n r d p t \<open>e = None\<close> assms(1) show ?thesis by (simp add: delete_phase3_def)
    next
      case (Some q)
      have "\<exists>s4. MarkConsumed (sample_kube ps) q s3 =
          (None, q\<lparr>dp_Status := (dp_Status q)\<lparr>pt_State := stateConsumed\<rparr>\<rparr>, s4) \<and> ac_cr s4 = ac_cr s3"
        by (simp add: MarkConsumed_def Let_def call_def sample_kube_def)
      with n r d p t \<open>e = None\<close> Some assms(1) show ?thesis by (auto simp: delete_phase3_def)
    qed
  qed
qed

lemma sample_Delete:
  assumes "\<And>err. e = Some err \<Longrightarrow> \<not> IsUserError err"
  shows "\<exists>s'. Delete sample_env simple_xpv1 (sample_client [sample_permit] e) (sample_start ''xy12345'' (Some 5)) =
     (case e of None \<Rightarrow> None | Some err \<Rightarrow> Some (internal_error ''0a1b2c3d''), s') \<and> cr_locator s' = []"
proof -
  let ?s = "sample_start ''xy12345'' (Some 5)"
  obtain s1 where f: "FindActivePermit (sample_kube [sample_permit]) ''ns'' snowflakeAccountKind ''acct'' ?s =
      (Inr (Some sample_permit), s1)" "ac_cr s1 = ac_cr ?s" "ps_orgAdminDB s1 = None" "km_entries s1 = (\<lambda>_. None)"
    using sample_FindActivePermit [of "''ns''" ?s] by (auto simp: sample_acc_sys_def)
  from sample_phase3 [OF _ f(3,4) assms] f(2) obtain s' where d:
    "delete_phase3 sample_env (sample_client [sample_permit] e)
       (account_logger OpDelete (sample_account ''xy12345'' (Some 5))) (Some sample_permit) s1 =
     (case e of None \<Rightarrow> None | Some err \<Rightarrow> Some (internal_error ''0a1b2c3d''), s')" "cr_locator s' = []"
    using sample_start_fields(1) by metis
  have "del_Protection (cfg_Deletion sample_cfg)" by (simp add: sample_cfg_def)
  with f(1) d show ?thesis by (simp add: Delete_def)
qed

subsection \<open>Properties\<close>

text \<open>C1: With deletion protection on, DROP ACCOUNT is sent only after an active permit for exactly
  this account was listed and found, and the permit the run acts on is the one the lookup returned,
  the earliest: it is the only permit whose status the run updates, and a run that succeeds consumed
  it last.  DROP ACCOUNT is sent once per call, for the resource's own resolved name and with the
  configured grace period.\<close>

theorem Delete_needs_permit:
  fixes s :: "('w, 'z) acc_sys_scheme"
  assumes "Delete E X (account_client E kube cfg km bp) s = (r, s')"
    and "del_Protection (cfg_Deletion cfg)"
    and "trace s' = trace s @ efs" and "ef \<in> set efs" and "is_drop ef"
  shows "\<exists>p s1 rest. FindActivePermit kube (om_Namespace (sa_Meta (ac_cr s))) snowflakeAccountKind
      (om_Name (sa_Meta (ac_cr s))) s = (Inr (Some p), s1) \<and> authorised kube (ac_cr s) (world s) p \<and>
    (\<exists>d. ef = drop_effect cfg (ac_cr s) d) \<and> drops efs = 1 \<and>
    efs = ListPermits (om_Namespace (sa_Meta (ac_cr s))) # rest \<and>
    (\<forall>a b c. UpdatePermitStatus a b c \<in> set efs \<longrightarrow>
       a = om_Namespace (dp_Meta p) \<and> b = om_Name (dp_Meta p) \<and> c = stateConsumed) \<and>
    (r = None \<longrightarrow> last efs = UpdatePermitStatus (om_Namespace (dp_Meta p)) (om_Name (dp_Meta p)) stateConsumed)"
proof -
  from Delete_account [OF assms(1)] obtain pre post rest where t: "trace s' = trace s @ pre @ post @ rest"
      and h: "list_all harmless pre" "list_all harmless rest"
      and p: "post = [] \<or> (\<exists>d. post = [drop_effect cfg (ac_cr s) d])"
    by blast
  from t assms(3) have e: "efs = pre @ post @ rest" by simp
  have "ef \<in> set post" using assms(4,5) h by (auto simp: e list_all_iff harmless_def)
  with p h e have once: "(\<exists>d. ef = drop_effect cfg (ac_cr s) d) \<and> drops efs = 1"
    by (auto simp: filter_drop_harmless drops_def)
  have "\<not> is_controller ef" using assms(5) harmless_simps(2) [of ef] by (auto simp: harmless_def)
  from Delete_permit [OF assms(1-4) this] obtain q s1 mid fin where
    q: "FindActivePermit kube (om_Namespace (sa_Meta (ac_cr s))) snowflakeAccountKind
      (om_Name (sa_Meta (ac_cr s))) s = (Inr (Some q), s1)" "authorised kube (ac_cr s) (world s) q"
    "efs = ListPermits (om_Namespace (sa_Meta (ac_cr s))) # mid @ fin" "list_all (\<lambda>ef. \<not> is_permit_update ef) mid"
    "fin = consumption (Some q) \<or> fin = [] \<and> r \<noteq> None" by blast
  moreover have "a = om_Namespace (dp_Meta q) \<and> b = om_Name (dp_Meta q) \<and> c = stateConsumed"
    if "UpdatePermitStatus a b c \<in> set efs" for a b c
    using that q(3-5) by (auto simp: list_all_iff consumption_def)
  moreover have "last efs = UpdatePermitStatus (om_Namespace (dp_Meta q)) (om_Name (dp_Meta q)) stateConsumed" if "r = None"
    using that q(3,5) by (simp add: consumption_def)
  ultimately show ?thesis using once
    by (intro exI [of _ q] exI [of _ s1] exI [of _ "mid @ fin"]) blast
qed

text \<open>C5: A Delete that reports success did everything and was answered at each step, in this order:
  the permit lookup, the namespace's labels, for an account with a locator the organisation's
  connection, a DROP ACCOUNT of this account that Snowflake accepted, and the eviction of the tenant's
  connection, then the deletion of exactly this tenant's credential, which the store accepted, and
  last the consumption of the permit found, which the API accepted.  Beside these calls only the
  pool's own are made, and the locator is cleared.\<close>

theorem Delete_success:
  fixes s :: "('w, 'z) acc_sys_scheme"
  assumes "Delete E X (account_client E kube cfg km bp) s = (None, s')"
  shows "cr_locator s' = [] \<and>
    (\<exists>i permit s1 ls (s2 :: ('w, 'z) acc_sys_scheme) s3 w4. tenant_ident cfg (ac_cr s) = Inr i \<and>
       looked_up kube (del_Protection (cfg_Deletion cfg)) permit s s1 \<and>
       trace s1 = trace s @
         (if del_Protection (cfg_Deletion cfg) then [ListPermits (om_Namespace (sa_Meta (ac_cr s)))] else []) \<and>
       kb_GetNamespace kube (om_Namespace (sa_Meta (ac_cr s))) (world s1) = (Inr ls, world s2) \<and>
       trace s2 = trace s1 @ [GetNamespace (om_Namespace (sa_Meta (ac_cr s)))] \<and>
       (if cr_locator s = [] then s3 = s2 else account_dropped E cfg km (ac_cr s) s2 s3) \<and>
       ks_Delete (km_store km) i (world s3) = (None, w4) \<and>
       (case permit of None \<Rightarrow> world s' = w4
        | Some p \<Rightarrow> authorised kube (ac_cr s) (world s) p \<and> kb_UpdatePermitStatus kube (consumed p) w4 = (None, world s')) \<and>
       trace s' = trace s3 @ DeleteSecret i # consumption permit)"
proof -
  from Delete_account [OF assms] have l: "cr_locator s' = []" by blast
  from assms show ?thesis
  proof (cases rule: Delete_cases)
    case (go permit s1)
    from delete_phase3_answered [OF go(1), unfolded go(2)] obtain i ls and s2 s3 :: "('w, 'z) acc_sys_scheme" and w4 where
      "tenant_ident cfg (ac_cr s) = Inr i" "kb_GetNamespace kube (om_Namespace (sa_Meta (ac_cr s))) (world s1) = (Inr ls, world s2)"
      "trace s2 = trace s1 @ [GetNamespace (om_Namespace (sa_Meta (ac_cr s)))]"
      "if cr_locator s = [] then s3 = s2 else account_dropped E cfg km (ac_cr s) s2 s3"
      "ks_Delete (km_store km) i (world s3) = (None, w4)"
      "case permit of None \<Rightarrow> world s' = w4 | Some p \<Rightarrow> kb_UpdatePermitStatus kube (consumed p) w4 = (None, world s')"
      "trace s' = trace s3 @ DeleteSecret i # consumption permit" by blast
    moreover have "authorised kube (ac_cr s) (world s) p" if "permit = Some p" for p
      using go(4) that by (auto split: if_splits)
    ultimately show ?thesis using go(2,3,5) l
      apply -
      apply (rule conjI, assumption)
      apply (rule exI [of _ i], rule exI [of _ permit], rule exI [of _ s1], rule exI [of _ ls], rule exI [of _ s2],
        rule exI [of _ s3], rule exI [of _ w4])
      apply (simp split: option.splits)
      done
  qed simp
qed

lemma sample_Delete_None:
  obtains s' where "Delete sample_env simple_xpv1 (sample_client [sample_permit] None) (sample_start ''xy12345'' (Some 5)) = (None, s')"
  using sample_Delete [of None] by auto

lemma Delete_success_witness:
  "\<exists>s' (s2 :: nat acc_sys) s3 w4. Delete sample_env simple_xpv1 (sample_client [sample_permit] None)
      (sample_start ''xy12345'' (Some 5)) = (None, s') \<and> cr_locator s' = [] \<and>
    account_dropped sample_env sample_cfg (sample_km_with None) (sample_account ''xy12345'' (Some 5)) s2 s3 \<and>
    ks_Delete (km_store (sample_km_with None)) sample_ident (world s3) = (None, w4) \<and>
    kb_UpdatePermitStatus (sample_kube [sample_permit]) (consumed sample_permit) w4 = (None, world s') \<and>
    trace s' = trace s3 @ DeleteSecret sample_ident # consumption (Some sample_permit)"
proof -
  obtain s' where d: "Delete sample_env simple_xpv1 (sample_client [sample_permit] None)
      (sample_start ''xy12345'' (Some 5)) = (None, s')" by (rule sample_Delete_None)
  have p: "del_Protection (cfg_Deletion sample_cfg)" by (simp add: sample_cfg_def)
  from Delete_success [OF d] p sample_identifier obtain q and s2 s3 :: "nat acc_sys" and w4 where
    f: "cr_locator s' = []" "authorised (sample_kube [sample_permit]) (sample_account ''xy12345'' (Some 5)) 0 q"
      "account_dropped sample_env sample_cfg (sample_km_with None) (sample_account ''xy12345'' (Some 5)) s2 s3"
      "ks_Delete (km_store (sample_km_with None)) sample_ident (world s3) = (None, w4)"
      "kb_UpdatePermitStatus (sample_kube [sample_permit]) (consumed q) w4 = (None, world s')"
      "trace s' = trace s3 @ DeleteSecret sample_ident # consumption (Some q)"
    by (auto simp: looked_up_def)
  from f(2) have "q = sample_permit" by (auto simp: authorised_def sample_kube_def)
  with d f show ?thesis by blast
qed

lemma Delete_needs_permit_witness:
  "\<exists>s' ef. Delete sample_env simple_xpv1 (sample_client [sample_permit] None)
      (sample_start ''xy12345'' (Some 5)) = (None, s') \<and> ef \<in> set (trace s') \<and> is_drop ef \<and> drops (trace s') = 1"
proof -
  obtain s' where d: "Delete sample_env simple_xpv1 (sample_client [sample_permit] None)
      (sample_start ''xy12345'' (Some 5)) = (None, s')" by (rule sample_Delete_None)
  from Delete_account [OF d] obtain db pre rest where
    t: "trace s' = pre @ [drop_effect sample_cfg (sample_account ''xy12345'' (Some 5)) db] @ rest" by auto
  let ?ef = "drop_effect sample_cfg (sample_account ''xy12345'' (Some 5)) db"
  have "trace s' = trace (sample_start ''xy12345'' (Some 5)) @ trace s'" "?ef \<in> set (trace s')" using t by auto
  moreover have "del_Protection (cfg_Deletion sample_cfg)" by (simp add: sample_cfg_def)
  ultimately have "drops (trace s') = 1" using Delete_needs_permit [OF d] is_drop_drop_effect(1) by blast
  with d t show ?thesis using is_drop_drop_effect(1) [of sample_cfg "sample_account ''xy12345'' (Some 5)" db] by auto
qed

text \<open>C6: Without an active permit for this account, a protected Delete changes nothing outside:
  it lists the permits, warns, marks the resource not ready with the reason, and returns exactly
  the blocking message.\<close>

theorem Delete_blocked:
  fixes s :: "('w, 'z) acc_sys_scheme"
  assumes "xpv1_ok X" and "del_Protection (cfg_Deletion (xt_cfg e))"
    and "kb_ListPermits (xt_kube e) (om_Namespace (sa_Meta (ac_cr s))) (world s) = (Inr items, w)"
    and "\<forall>p \<in> set items. \<not> matching snowflakeAccountKind (om_Name (sa_Meta (ac_cr s))) p"
    and "Delete E X e s = (r, s')"
  shows "r = Some (plain_error ''deletion blocked: no active DeletionPermit authorizes this account'') \<and>
    world s' = w \<and> same_record (ac_cr s) (ac_cr s') \<and>
    cd_Status (sa_GetCondition X typeReady (ac_cr s')) \<noteq> conditionTrue \<and>
    cd_Message (sa_GetCondition X typeReady (ac_cr s')) =
      ''deletion blocked: no active DeletionPermit authorizes this account'' \<and>
    (let ev = xp_Warning X ''DeletionBlocked'' blocked_error in
     trace s' = trace s @ [ListPermits (om_Namespace (sa_Meta (ac_cr s))),
       EmitEvent (ev_Type ev) (ev_Reason ev) (ev_Message ev),
       LogDebug ''deletion blocked: no active DeletionPermit authorizes this account''
         (contextFields (account_logger OpDelete (ac_cr s)))])"
proof -
  have bt: "err_text blocked_error = ''deletion blocked: no active DeletionPermit authorizes this account''"
    by (simp add: blocked_error_def NewUserError_def maxMsgLen_def)
  have f: "FindActivePermit (xt_kube e) (om_Namespace (sa_Meta (ac_cr s))) snowflakeAccountKind
      (om_Name (sa_Meta (ac_cr s))) s =
      (Inr None, s\<lparr>world := w, trace := trace s @ [ListPermits (om_Namespace (sa_Meta (ac_cr s)))]\<rparr>)"
    using assms(3,4) find_earliest_None [of snowflakeAccountKind "om_Name (sa_Meta (ac_cr s))" None items]
    by (simp add: FindActivePermit_def call_def)
  have u: "IsUserError blocked_error" by (simp add: blocked_error_def)
  from assms(1,2,5) show ?thesis
    by (auto simp: Delete_def f Let_def Handle_user [OF u] bt emit_def record_event_def set_conditions_def
        sa_SetConditions_def sa_GetCondition_def xpv1_ok_def same_record_def same_identity_def)
qed

lemma Delete_blocked_witness:
  "\<exists>r s'. Delete sample_env simple_xpv1 (sample_client [] None) (sample_start ''xy12345'' (Some 5)) = (r, s') \<and>
     r \<noteq> None \<and> cr_locator s' = ''xy12345''"
proof -
  obtain r s' where d: "Delete sample_env simple_xpv1 (sample_client [] None) (sample_start ''xy12345'' (Some 5)) = (r, s')"
    by fastforce
  have "kb_ListPermits (xt_kube (sample_client [] None))
      (om_Namespace (sa_Meta (ac_cr (sample_start ''xy12345'' (Some 5))))) (world (sample_start ''xy12345'' (Some 5))) = (Inr [], 0)"
    "del_Protection (cfg_Deletion (xt_cfg (sample_client [] None)))"
    by (simp_all add: sample_kube_def sample_cfg_def)
  from Delete_blocked [OF simple_xpv1_ok this(2,1) _ d] d show ?thesis by (simp add: same_record_def)
qed

text \<open>C2: Create and Update are the same idempotent run.  For an account whose locator is known
  neither sends CREATE ACCOUNT nor touches the locator.  Otherwise at most one CREATE ACCOUNT is
  sent, with the name and spec of this resource; a locator is recorded only if SHOW ACCOUNTS
  returned it for that exact name.  On every path that changes the resource, errors included, a
  status update holding the resource as it is left is the last thing the run does but for logging the
  update's own failure; it was accepted if no error is reported.\<close>

theorem apply_creates_once:
  fixes s :: "('w, 'z) acc_sys_scheme"
  assumes "Create E X (account_client E kube cfg km bp) s = (r, s') \<or>
    Update E X (account_client E kube cfg km bp) s = (r, s')"
  shows "(if cr_locator s \<noteq> [] then emits harmless s s' \<and> cr_locator s' = cr_locator s
    else create_trace (resolved_name (ac_cr s)) (sa_Spec (ac_cr s)) s s' \<and>
      (cr_locator s' \<noteq> [] \<longrightarrow> located E (resolved_name (ac_cr s)) (cr_locator s') \<and>
         st_AccountCreatedAt (sa_Status (ac_cr s')) \<noteq> None)) \<and>
    (r \<noteq> None \<and> ac_cr s' = ac_cr s \<or>
     (\<exists>u efs logs. persisted E kube u s s' \<and> (r = None \<longrightarrow> u = None) \<and>
        trace s' = trace s @ efs @ UpdateAccountStatus (om_Namespace (sa_Meta (ac_cr s'))) (om_Name (sa_Meta (ac_cr s'))) # logs \<and>
        list_all is_log logs \<and> (u = None \<longrightarrow> logs = [])))"
proof -
  from assms have "apply_cr E X (account_client E kube cfg km bp) s = (r, s')"
    by (auto simp: Create_def Update_def)
  note a = apply_account [OF this]
  have "\<exists>u efs logs. persisted E kube u s s' \<and> (r = None \<longrightarrow> u = None) \<and>
      trace s' = trace s @ efs @ UpdateAccountStatus (om_Namespace (sa_Meta (ac_cr s'))) (om_Name (sa_Meta (ac_cr s'))) # logs \<and>
      list_all is_log logs \<and> (u = None \<longrightarrow> logs = [])"
    if "persisted E kube u s s'" "r = None \<longrightarrow> u = None" for u
    using that(1) by (rule persisted_trace) (use that in blast)
  with a show ?thesis by blast
qed

lemma apply_creates_once_witness:
  "\<exists>s'. Create sample_env simple_xpv1 (sample_client [] None) (sample_start [] None) = (None, s') \<and>
     cr_locator s' = ''xy12345'' \<and> located sample_env (ResolveName ''acct'' ''ns'') ''xy12345''"
proof -
  obtain s' where c: "Create sample_env simple_xpv1 (sample_client [] None) (sample_start [] None) = (None, s')"
      "cr_locator s' = ''xy12345''" using sample_Create by blast
  from apply_creates_once [OF disjI1 [OF c(1)]] c show ?thesis by (simp add: resolved_name_def)
qed

text \<open>C9: Observe creates and drops nothing and changes neither the identity nor the recorded
  locator and generation of the resource.\<close>

theorem Observe_readonly:
  fixes s :: "('w, 'z) acc_sys_scheme"
  assumes "Observe E X (account_client E kube cfg km bp) s = (obs, r, s')"
  shows "emits observing s s' \<and> emits harmless s s' \<and> same_record (ac_cr s) (ac_cr s')"
  using ap.Observe_frame [OF account_client_fields(2,4) assms] emits_harmless(2) by blast

lemma Observe_readonly_witness:
  "\<exists>obs r s'. Controller.Observe sample_env simple_xpv1 (sample_client [] None) (sample_start ''xy12345'' None) = (obs, r, s') \<and>
     cr_locator s' = ''xy12345''"
proof -
  obtain obs r s' where o: "Controller.Observe sample_env simple_xpv1 (sample_client [] None)
      (sample_start ''xy12345'' None) = (obs, r, s')" by (metis prod_cases3)
  from Observe_readonly [OF o] o show ?thesis by (auto simp: same_record_def)
qed

text \<open>C8: What crossplane-runtime is told of an error never exposes one: Observe, Create and
  Update return nil or a leaf error that is no user error and wraps nothing.\<close>

theorem controller_errors_opaque:
  "opaque (fst (snd (Observe E X (account_client E kube cfg km bp) s))) \<and>
   opaque (fst (Create E X (account_client E kube cfg km bp) s)) \<and>
   opaque (fst (Update E X (account_client E kube cfg km bp) s))"
proof -
  obtain obs r s1 where o: "Controller.Observe E X (account_client E kube cfg km bp) s = (obs, r, s1)"
    by (metis prod_cases3)
  obtain q s2 where a: "apply_cr E X (account_client E kube cfg km bp) s = (q, s2)" by fastforce
  from ap.Observe_frame [OF account_client_fields(2,4) o] apply_account [OF a] o a show ?thesis
    by (simp add: Create_def Update_def)
qed

text \<open>C7: Over any run of the controller on one resource, with reconciles in any order, edits and
  outside changes in between, a recorded locator is always one SHOW ACCOUNTS returned for the
  resource's own resolved name.\<close>

theorem locator_invariant:
  assumes "ctl_reach E X kube cfg km bp s0 s" and "cr_locator s0 = []"
  shows "cr_locator s = [] \<or> located E (resolved_name (ac_cr s)) (cr_locator s)"
proof -
  from assms(1) have "locator_ok E (ac_cr s)"
  proof induction
    case cr_start
    from assms(2) show ?case by (simp add: locator_ok_def)
  next
    case (cr_next s s')
    from ctl_step_invariants [OF cr_next.hyps(2)] cr_next.IH show ?case by blast
  qed
  then show ?thesis by (simp add: locator_ok_def)
qed

lemma locator_invariant_witness:
  "\<exists>s. ctl_reach sample_env simple_xpv1 (sample_kube []) sample_cfg (sample_km_with None) sample_backplane
       (sample_start [] None) s \<and> cr_locator s = ''xy12345'' \<and>
     located sample_env (resolved_name (ac_cr s)) ''xy12345''"
proof -
  obtain s where c: "Create sample_env simple_xpv1 (sample_client [] None) (sample_start [] None) = (None, s)"
      "cr_locator s = ''xy12345''" using sample_Create by blast
  from cr_next [OF cr_start st_create [OF c(1)]]
  have r: "ctl_reach sample_env simple_xpv1 (sample_kube []) sample_cfg (sample_km_with None) sample_backplane
    (sample_start [] None) s" .
  from locator_invariant [OF r] c(2) r show ?thesis by auto
qed

text \<open>Over any such run with deletion protection on, no more DROP ACCOUNT statements were
  sent than permit lookups made.\<close>

theorem drops_bounded_by_lookups:
  assumes "ctl_reach E X kube cfg km bp s0 s" and "del_Protection (cfg_Deletion cfg)" and "trace s0 = []"
  shows "drops (trace s) \<le> permit_lookups (trace s)"
  using assms(1)
proof induction
  case cr_start
  from assms(3) show ?case by (simp add: drops_def)
next
  case (cr_next s s')
  from ctl_step_invariants [OF cr_next.hyps(2)] cr_next.IH assms(2) show ?case by blast
qed

lemma drops_bounded_by_lookups_witness:
  "\<exists>s. ctl_reach sample_env simple_xpv1 (sample_kube [sample_permit]) sample_cfg (sample_km_with None)
       sample_backplane (sample_start ''xy12345'' (Some 5)) s \<and> drops (trace s) = 1 \<and> permit_lookups (trace s) \<ge> 1"
proof -
  obtain s where d: "Delete sample_env simple_xpv1 (sample_client [sample_permit] None)
      (sample_start ''xy12345'' (Some 5)) = (None, s)" by (rule sample_Delete_None)
  from cr_next [OF cr_start st_delete [OF d]]
  have r: "ctl_reach sample_env simple_xpv1 (sample_kube [sample_permit]) sample_cfg (sample_km_with None)
    sample_backplane (sample_start ''xy12345'' (Some 5)) s" .
  from Delete_account [OF d] obtain pre post rest where t: "trace s = pre @ post @ rest" "list_all harmless pre"
      "list_all harmless rest" "post \<noteq> []" "\<exists>d. post = [drop_effect sample_cfg (sample_account ''xy12345'' (Some 5)) d]"
    by auto
  then have one: "drops (trace s) = 1"
    by (auto simp: filter_drop_harmless drops_def)
  have "del_Protection (cfg_Deletion sample_cfg)" by (simp add: sample_cfg_def)
  from drops_bounded_by_lookups [OF r this] one r show ?thesis by auto
qed

end
