(* ===== verification/Account_Properties.thy ===== *)
theory Account_Properties
  imports Sample_Controller
begin

text \<open>
  What the pipeline guarantees for every list of modules that keep the module contract, and
  what the account module guarantees about creating, reconciling and observing an account.
\<close>

subsection \<open>The pipeline\<close>

text \<open>C27: For any modules that keep the contract of a module, Apply records the observed generation
  exactly when the run is complete, a complete run ran every registered module in order, and
  Apply never changes the resource's identity or spec.\<close>

theorem Apply_generation:
  assumes "module_list ms P" and "rd_pool d = P" and "pp_modules p = ms"
    and "pipeline_Apply X p d s = (r, s')"
  shows "same_identity (ac_cr s) (ac_cr s') \<and>
    st_ObservedGeneration (sa_Status (ac_cr s')) =
      (if result_complete r then om_Generation (sa_Meta (ac_cr s))
       else st_ObservedGeneration (sa_Status (ac_cr s))) \<and>
    (result_complete r \<longrightarrow> map oc_Module (ar_Outcomes r) = map md_Name ms)"
proof -
  obtain outs s1 where a: "apply_modules ms d s = (outs, s1)" by fastforce
  with assms(3,4) have "ar_Outcomes r = outs"
    by (auto simp: pipeline_Apply_def Let_def split: if_splits)
  with module_list.complete_ran_all [OF assms(1,2) a] module_list.pipeline_Apply_kept [OF assms(1-4)]
  show ?thesis by (simp add: result_complete_def same_identity_def)
qed

abbreviation sample_pool_of :: "nat acc_sys db_pool" where
  "sample_pool_of \<equiv> pool_db_pool sample_env (pool_New sample_env (sample_km_with None) sample_cfg)"

definition sample_data :: "nat acc_sys resourceData" where
  "sample_data =
     \<lparr>rd_namespace = ''ns'', rd_resolvedName = ResolveName ''acct'' ''ns'', rd_namespaceLabels = Map.empty,
      rd_log = logger_New ''ns'' ''SnowflakeAccount'' ''acct'' OpUpdate, rd_pool = sample_pool_of\<rparr>"

definition sample_account_module :: "nat account_module" where
  "sample_account_module = account_New (sample_km_with None) ''acme'' 300000000000 30 True sample_backplane"

definition sample_pipeline :: "nat acc_sys pipeline" where
  "sample_pipeline = account_pipeline sample_env sample_account_module"

lemma sample_pipeline_modules [simp]:
  "pp_modules sample_pipeline = [account_pmodule sample_env sample_account_module]"
  by (simp add: sample_pipeline_def account_pipeline_def pipeline_New_def)

lemma Apply_generation_witness:
  "\<exists>r s'. pipeline_Apply simple_xpv1 sample_pipeline sample_data (sample_acc_sys (sample_account [] None)) = (r, s') \<and>
     same_identity (sample_account [] None) (ac_cr s') \<and>
     (result_complete r \<longrightarrow> map oc_Module (ar_Outcomes r) = [''account''])"
proof -
  obtain r s' where a: "pipeline_Apply simple_xpv1 sample_pipeline sample_data
      (sample_acc_sys (sample_account [] None)) = (r, s')" by fastforce
  have "module_list [account_pmodule sample_env sample_account_module] sample_pool_of"
    by (rule ap.module_list_axioms)
  moreover have "rd_pool sample_data = sample_pool_of" by (simp add: sample_data_def)
  ultimately show ?thesis using Apply_generation [OF _ _ sample_pipeline_modules a] a
    by (simp add: sample_acc_sys_def account_pmodule_def accountModuleName_def)
qed

text \<open>Ready is latched: a run reports it true exactly if it was true before or, for Apply, if
  every module is done now; otherwise its message is the first pending reason.\<close>

theorem ready_latch:
  assumes "xpv1_ok X" and "pipeline_Apply X p d s = (r, s1)" and "pipeline_Observe X p d s = (obs, s2)"
  shows "(cd_Status (rp_Ready (result_report X r)) = conditionTrue \<longleftrightarrow> readyLatched X s \<or> AllDone (ar_Outcomes r)) \<and>
    (cd_Status (rp_Ready (observation_report X obs)) = conditionTrue \<longleftrightarrow> readyLatched X s) \<and>
    (\<not> readyLatched X s \<longrightarrow> cd_Message (rp_Ready (observation_report X obs)) = PendingReason (ob_Outcomes obs))"
proof -
  from assms(2) have "ar_readyLatched r = readyLatched X s"
    by (auto simp: pipeline_Apply_def Let_def split: prod.splits if_splits)
  moreover from assms(3) have "ob_readyLatched obs = readyLatched X s"
    by (auto simp: pipeline_Observe_def Let_def split: prod.splits)
  ultimately show ?thesis using assms(1)
    by (simp add: result_report_def observation_report_def result_Ready_def observation_Ready_def
        ready_def result_complete_def xpv1_ok_def)
qed

lemma ready_latch_witness:
  "\<exists>obs s2. pipeline_Observe simple_xpv1 sample_pipeline sample_data (sample_acc_sys (sample_account [] None)) = (obs, s2) \<and>
     cd_Status (rp_Ready (observation_report simple_xpv1 obs)) \<noteq> conditionTrue \<and>
     cd_Message (rp_Ready (observation_report simple_xpv1 obs)) = PendingReason (ob_Outcomes obs)"
proof -
  let ?s = "sample_acc_sys (sample_account [] None)"
  obtain r s1 where a: "pipeline_Apply simple_xpv1 sample_pipeline sample_data ?s = (r, s1)" by fastforce
  obtain obs s2 where o: "pipeline_Observe simple_xpv1 sample_pipeline sample_data ?s = (obs, s2)" by fastforce
  have "\<not> readyLatched simple_xpv1 ?s"
    by (simp add: readyLatched_def sa_GetCondition_def sample_acc_sys_def sample_account_def simple_xpv1_def
        conditionTrue_def)
  with ready_latch [OF simple_xpv1_ok a o] o show ?thesis by blast
qed

text \<open>Destroy tears the modules down last to first and stops at the first failure, so a module
  is only torn down when every module registered after it is gone.\<close>

theorem Destroy_reverse_order:
  "pipeline_Destroy (pipeline_New (ms @ [m])) d s =
     (case md_Teardown m d s of
        (Some err, s1) \<Rightarrow> (Some err, s1)
      | (None, s1) \<Rightarrow> pipeline_Destroy (pipeline_New ms) d s1)"
  by (auto simp: pipeline_Destroy_def pipeline_New_def split: prod.splits option.splits)

subsection \<open>The account module\<close>

text \<open>The checks that can be made without Snowflake come first: a resource that fails one gets
  exactly that failure, and nothing was sent anywhere, no credential created.\<close>

theorem create_checks_first:
  assumes "cr_locator s = []"
    and "checkCreatable m (ac_cr s) (ResolvedAccountName d) (NamespaceLabels d) = Some err"
    and "account_Apply E m d s = (out, s')"
  shows "out = Abort (Failed err) \<and> trace s' = trace s \<and> world s' = world s \<and> cr_locator s' = []"
proof -
  from assms have "out = Abort (Failed err) \<and> s' = syncStatus E m d s"
    by (simp add: account_Apply_def account_apply_def createAccount_def Let_def)
  with assms(1) show ?thesis by (simp add: syncStatus_def Let_def)
qed

definition sample_unknown_region :: snowflakeAccount where
  "sample_unknown_region = (sample_account [] None)\<lparr>sa_Spec := (sa_Spec (sample_account [] None))\<lparr>as_Region := ''mars''\<rparr>\<rparr>"

lemma create_checks_first_witness:
  "\<exists>err s'. account_Apply sample_env sample_account_module sample_data (sample_acc_sys sample_unknown_region) =
       (Abort (Failed err), s') \<and> trace s' = []"
proof -
  let ?s = "sample_acc_sys sample_unknown_region"
  obtain out s' where a: "account_Apply sample_env sample_account_module sample_data ?s = (out, s')" by fastforce
  have c: "cr_locator ?s = []" by (simp add: sample_acc_sys_def sample_unknown_region_def sample_account_def)
  have "\<exists>err. checkCreatable sample_account_module (ac_cr ?s) (ResolvedAccountName sample_data) (NamespaceLabels sample_data) = Some err"
    by (simp add: checkCreatable_def Region_def sample_account_module_def account_New_def sample_backplane_def
        sample_acc_sys_def sample_unknown_region_def)
  then obtain err where k: "checkCreatable sample_account_module (ac_cr ?s) (ResolvedAccountName sample_data) (NamespaceLabels sample_data) = Some err"
    by blast
  from create_checks_first [OF c k a] a show ?thesis by (auto simp: sample_acc_sys_def)
qed

text \<open>A name accepted for creation never runs into the length limit of secret identifiers, for
  namespaces as Kubernetes admits them: whenever the segments are valid, the identifier of the
  credential exists.\<close>

theorem identifier_fits:
  assumes "checkCreatable m cr (ResolveName (om_Name (sa_Meta cr)) (om_Namespace (sa_Meta cr))) labels = None"
    and "length (om_Namespace (sa_Meta cr)) \<le> 63"
    and "valid_segment (am_org m)" "valid_segment (om_Namespace (sa_Meta cr))" "valid_segment (om_Name (sa_Meta cr))"
  shows "\<exists>i. NewTenantIdentifier (am_org m) (om_Namespace (sa_Meta cr)) (om_Name (sa_Meta cr)) = Inr i"
proof -
  from assms(1) have "length (am_org m) + length (om_Name (sa_Meta cr)) \<le> 56"
    by (auto simp: checkCreatable_def Let_def maxAccountLabelLen_def split: sum.splits if_splits)
  with assms(2-5) show ?thesis
    by (auto simp: NewTenantIdentifier_Inr length_tenant_value maxIdentifierLen_def)
qed

lemma identifier_fits_witness:
  "\<exists>i. NewTenantIdentifier ''acme'' ''ns'' ''acct'' = Inr i"
proof -
  let ?cr = "sample_account [] None"
  have n: "om_Name (sa_Meta ?cr) = ''acct''" "om_Namespace (sa_Meta ?cr) = ''ns''" "am_org sample_account_module = ''acme''"
    by (simp_all add: sample_account_def sample_meta_def sample_account_module_def account_New_def)
  have "checkCreatable sample_account_module ?cr (ResolveName ''acct'' ''ns'') Map.empty = None"
    by (rule sample_creatable [OF refl]) (simp_all add: sample_account_module_def account_New_def)
  moreover have "valid_segment ''acme''" "valid_segment ''ns''" "valid_segment ''acct''"
    by (simp_all add: valid_segment_def seg_char_def sep_char_def byte_class_defs)
  ultimately show ?thesis using identifier_fits [of sample_account_module ?cr Map.empty] n by simp
qed

text \<open>An account created within the grace period is not connected to: Observe and Apply report
  it as pending, and nothing leaves the process but log lines.\<close>

theorem grace_period_waits:
  fixes s :: "('w, 'z) acc_sys_scheme"
  assumes "cr_locator s \<noteq> []" and "st_AccountCreatedAt (sa_Status (ac_cr s)) = Some t0"
    and "\<And>w. fst (env_now E w) - t0 < am_gracePeriod m"
    and "account_Observe E m d s = (out, s1)" and "account_Apply E m d s = (out', s2)"
  shows "out = Pending_oc provisioningMessage \<and> emits is_log s s1 \<and>
    out' = Abort (Pending_oc provisioningMessage) \<and> emits is_log s s2"
proof -
  have g: "withinGracePeriod E (am_gracePeriod m) u = (True, u') \<and> trace u' = trace u"
    if "st_AccountCreatedAt (sa_Status (ac_cr u)) = Some t0" "now E u = (t, u')" for u u' :: "('w, 'z) acc_sys_scheme" and t
    using that now_frame [OF that(2)] assms(3) [of "world u"] by (simp add: withinGracePeriod_def)
  have c: "st_AccountCreatedAt (sa_Status (ac_cr (syncStatus E m d u))) = st_AccountCreatedAt (sa_Status (ac_cr u))"
      "emits is_log u (syncStatus E m d u)" for u :: "('w, 'z) acc_sys_scheme"
    using syncStatus_frame by auto
  obtain t u where n: "now E (syncStatus E m d s) = (t, u)" by fastforce
  from g [OF _ n] c [of s] assms(2) have "withinGracePeriod E (am_gracePeriod m) (syncStatus E m d s) = (True, u)"
      "trace u = trace (syncStatus E m d s)" by auto
  with assms(1,4) c(2) [of s] have o: "out = Pending_oc provisioningMessage" "emits is_log s s1"
    by (auto simp: account_Observe_def Let_def intro: emits_trans emits_same)
  obtain t' u' where n': "now E s = (t', u')" by fastforce
  from g [OF assms(2) n'] have w: "withinGracePeriod E (am_gracePeriod m) s = (True, u')" "trace u' = trace s" by auto
  with assms(1,5) have "out' = Abort (Pending_oc provisioningMessage)" "s2 = syncStatus E m d u'"
    by (auto simp: account_Apply_def account_apply_def reconcileExisting_def)
  with o c(2) [of u'] w(2) emits_trans [OF emits_same c(2)] show ?thesis by blast
qed

definition sample_young :: snowflakeAccount where
  "sample_young = (sample_account ''xy12345'' None)\<lparr>sa_Status :=
     (sa_Status (sample_account ''xy12345'' None))\<lparr>st_AccountCreatedAt := Some 999999999999\<rparr>\<rparr>"

lemma grace_period_waits_witness:
  "\<exists>s1. account_Observe sample_env sample_account_module sample_data (sample_acc_sys sample_young) =
     (Pending_oc provisioningMessage, s1) \<and> emits is_log (sample_acc_sys sample_young) s1"
proof -
  let ?s = "sample_acc_sys sample_young"
  obtain out s1 where o: "account_Observe sample_env sample_account_module sample_data ?s = (out, s1)" by fastforce
  obtain out' s2 where a: "account_Apply sample_env sample_account_module sample_data ?s = (out', s2)" by fastforce
  have l: "cr_locator ?s \<noteq> []" "st_AccountCreatedAt (sa_Status (ac_cr ?s)) = Some 999999999999"
    by (simp_all add: sample_acc_sys_def sample_young_def sample_account_def)
  have g: "fst (env_now sample_env w) - 999999999999 < am_gracePeriod sample_account_module" for w
    by (simp add: sample_env_def sample_account_module_def account_New_def)
  from grace_period_waits [OF l g o a] o show ?thesis by blast
qed

text \<open>The platform user's email is written only when it differs: after a readable SHOW USERS the
  only further statement is one update, sent exactly if the stored email is not the contact.\<close>

theorem email_sync_minimal:
  fixes s :: "('w, 'z) acc_sys_scheme"
  assumes "env_query E d show_users_sql [platformUser] (world s) = (Inr rs, w)"
    and "materialize ''show platform user'' show_users_sql rs = Inr res"
    and "syncPlatformEmail (statement_New (db_executor E d)) contact s = (r, s')"
  shows "trace s' = trace s @ QuerySQL d show_users_sql [platformUser] #
      (if platform_email res = contact then [] else [ExecSQL d alter_email_sql [platformUser, contact]]) \<and>
    (platform_email res = contact \<longrightarrow> r = None)"
proof -
  let ?s1 = "s\<lparr>world := w, trace := trace s @ [QuerySQL d show_users_sql [platformUser]]\<rparr>"
  have q: "runner_Query (statement_New (db_executor E d)) ''show platform user'' show_users_sql [platformUser] s = (Inr res, ?s1)"
    using assms(1,2) by (simp add: runner_Query_def statement_New_def db_executor_def call_def)
  obtain r2 s2 where x: "runner_Exec (statement_New (db_executor E d)) ''sync platform user email''
      alter_email_sql [platformUser, contact] ?s1 = (r2, s2)" by fastforce
  from q x runner_Exec_acc [OF x] assms(3) show ?thesis
    by (auto simp: syncPlatformEmail_def split: if_splits option.splits)
qed

lemma sample_email:
  "platform_email \<lparr>qr_Columns = [''name'', ''email''],
     qr_Rows = [[(''name'', SqlString ''PLATFORM''), (''email'', SqlString ''a@b.c'')]]\<rparr> = ''a@b.c''"
  by code_simp

lemma email_sync_minimal_witness:
  "\<exists>r s'. syncPlatformEmail (statement_New (db_executor sample_env 0)) ''new@b.c''
       (sample_acc_sys (sample_account ''xy12345'' None)) = (r, s') \<and>
     trace s' = [QuerySQL 0 show_users_sql [platformUser], ExecSQL 0 alter_email_sql [platformUser, ''new@b.c'']]"
proof -
  let ?s = "sample_acc_sys (sample_account ''xy12345'' None)"
  let ?rs = "sample_rows [''name'', ''email''] [[SqlString ''PLATFORM'', SqlString ''a@b.c'']]"
  let ?res = "\<lparr>qr_Columns = [''name'', ''email''],
     qr_Rows = [[(''name'', SqlString ''PLATFORM''), (''email'', SqlString ''a@b.c'')]]\<rparr>"
  obtain r s' where y: "syncPlatformEmail (statement_New (db_executor sample_env 0)) ''new@b.c'' ?s = (r, s')"
    by fastforce
  have q: "env_query sample_env 0 show_users_sql [platformUser] (world ?s) = (Inr ?rs, 0)"
    by (simp add: sample_env_def sample_query_def show_users_sql_def sample_acc_sys_def)
  have m: "materialize ''show platform user'' show_users_sql ?rs = Inr ?res"
    by (simp add: materialize_def sample_rows_def row_of_def)
  from email_sync_minimal [OF q m y] y sample_email show ?thesis by (simp add: sample_acc_sys_def)
qed

text \<open>The refusal of CREATE ACCOUNT for a name in use is the tenant's to fix and is reported as a
  user error naming the account; any other driver failure stays a system error.\<close>

theorem create_error_classes:
  assumes "env_exec E d (create_account_text spec) (create_account_args n spec pk) (world s) =
      (Some (SnowflakeError number state qid txt), w)"
  shows "\<exists>err. fst (execCreateAccount (statement_New (db_executor E d)) n spec pk s) = Some err \<and>
    (IsUserError err \<longleftrightarrow> state = ''42710'') \<and> (state = ''42710'' \<longrightarrow> err = name_collision_error n)"
  using assms
  by (simp add: execCreateAccount_def runner_Exec_def statement_New_def db_executor_def call_def newError_def
      errors_As_def duplicateAccountSQLState_def name_collision_error_def)

lemma create_error_classes_witness:
  "\<exists>err. fst (execCreateAccount (statement_New (db_executor
       (sample_env\<lparr>env_exec := (\<lambda>d q args w. (Some (SnowflakeError 2002 ''42710'' ''q1'' ''already exists''), w))\<rparr>) 0))
       ''ACCT'' (sa_Spec (sample_account [] None)) ''key'' (sample_acc_sys (sample_account [] None))) = Some err \<and>
     IsUserError err"
  using create_error_classes [of "sample_env\<lparr>env_exec := (\<lambda>d q args w. (Some (SnowflakeError 2002 ''42710'' ''q1'' ''already exists''), w))\<rparr>"
      0 "sa_Spec (sample_account [] None)" "''ACCT''" "''key''" "sample_acc_sys (sample_account [] None)" 2002 "''42710''"
      "''q1''" "''already exists''" 0]
  by (auto simp: sample_acc_sys_def)

end
