(* ===== verification/KeyManager_Concurrent.thy ===== *)
theory KeyManager_Concurrent
  imports KeyManager
begin

text \<open>
  The key manager's operations (\<open>internal/secrets/manager.go\<close>) interleaved.  The mutex \<open>mu\<close>
  covers each access to the map but not the call to the store between them, so \<open>get\<close> is three
  steps (look up, fetch, remember) and a write is two (store, invalidate).  As long as no two
  operations on one identifier overlap, which the pool's per-target mutexes and the one worker
  per resource give, and no write on the identifier has failed, every read returns what the store
  holds; \<open>stale_entry\<close> shows what the overlap would do (a fetch that started before an update puts the
  old value back into the cache after it), \<open>lost_answer\<close> what a failed write can do: it may have been
  carried out, and nothing invalidates the entry.
\<close>

datatype km_op =
    OpGet ident
  | OpCreate ident string
  | OpUpdate ident string
  | OpDelete ident

datatype km_result =
    Got "(string \<times> time) result"
  | Wrote "gerror option"

datatype kpc =
    KBegin
  | KFetch                     \<comment> \<open>missed: about to call the store\<close>
  | KRemember string time      \<comment> \<open>about to write the entry\<close>
  | KInvalidate                \<comment> \<open>stored: about to delete the entry\<close>
  | KDone km_result

record 'w kconc =
  kc_sys :: "'w km_sys"
  kc_ops :: "(km_op \<times> kpc) list"

fun op_ident :: "km_op \<Rightarrow> ident" where
  "op_ident (OpGet i) = i"
| "op_ident (OpCreate i v) = i"
| "op_ident (OpUpdate i v) = i"
| "op_ident (OpDelete i) = i"

definition km_lookup ::
  "'w env \<Rightarrow> ident \<Rightarrow> ('w, 'z) km_sys_scheme \<Rightarrow> (string \<times> time) option \<times> ('w, 'z) km_sys_scheme" where
  "km_lookup E i s =
     (case km_entries s i of
        None \<Rightarrow> (None, s)
      | Some entry \<Rightarrow>
          (case now E s of
             (t, s1) \<Rightarrow>
               (if t < ce_expires entry then Some (ce_value entry, ce_modifiedAt entry) else None, s1)))"

definition km_remember ::
  "'w env \<Rightarrow> 'w key_manager \<Rightarrow> ident \<Rightarrow> string \<Rightarrow> time \<Rightarrow> ('w, 'z) km_sys_scheme
     \<Rightarrow> ('w, 'z) km_sys_scheme" where
  "km_remember E km i v modifiedAt s =
     (case now E s of
        (t, s1) \<Rightarrow> s1\<lparr>km_entries := (km_entries s1)
          (i \<mapsto> \<lparr>ce_value = v, ce_modifiedAt = modifiedAt, ce_expires = t + km_ttl km\<rparr>)\<rparr>)"

text \<open>The first step of an operation: the lookup of a read, the store call of a write.\<close>

definition km_begin_write ::
  "gerror option \<times> 'w km_sys \<Rightarrow> kpc \<times> 'w km_sys" where
  "km_begin_write rs =
     (case rs of (Some e, s1) \<Rightarrow> (KDone (Wrote (Some e)), s1) | (None, s1) \<Rightarrow> (KInvalidate, s1))"

fun km_begin :: "'w env \<Rightarrow> 'w key_manager \<Rightarrow> km_op \<Rightarrow> 'w km_sys \<Rightarrow> kpc \<times> 'w km_sys" where
  "km_begin E km (OpGet i) s =
     (case km_lookup E i s of
        (Some vt, s1) \<Rightarrow> (KDone (Got (Inr vt)), s1)
      | (None, s1) \<Rightarrow> (KFetch, s1))"
| "km_begin E km (OpCreate i v) s =
     km_begin_write (call (CreateSecret i v) (ks_Create (km_store km) i v) s)"
| "km_begin E km (OpUpdate i v) s =
     km_begin_write (call (UpdateSecret i v) (ks_Update (km_store km) i v) s)"
| "km_begin E km (OpDelete i) s =
     km_begin_write (call (DeleteSecret i) (ks_Delete (km_store km) i) s)"

fun km_step ::
  "'w env \<Rightarrow> 'w key_manager \<Rightarrow> km_op \<Rightarrow> kpc \<Rightarrow> 'w km_sys \<Rightarrow> kpc \<times> 'w km_sys" where
  "km_step E km op KBegin s = km_begin E km op s"
| "km_step E km op KFetch s =
     (case call (GetSecret (op_ident op)) (ks_Get (km_store km) (op_ident op)) s of
        (Inl e, s1) \<Rightarrow> (KDone (Got (Inl e)), s1)
      | (Inr (v, modifiedAt), s1) \<Rightarrow> (KRemember v modifiedAt, s1))"
| "km_step E km op (KRemember v modifiedAt) s =
     (KDone (Got (Inr (v, modifiedAt))), km_remember E km (op_ident op) v modifiedAt s)"
| "km_step E km op KInvalidate s = (KDone (Wrote None), Invalidate (op_ident op) s)"
| "km_step E km op (KDone r) s = (KDone r, s)"

definition kc_pick :: "'w env \<Rightarrow> 'w key_manager \<Rightarrow> nat \<Rightarrow> 'w kconc \<Rightarrow> 'w kconc" where
  "kc_pick E km j k =
     (if j < length (kc_ops k) then
        (case kc_ops k ! j of
           (op, pc) \<Rightarrow>
             (case km_step E km op pc (kc_sys k) of
                (pc', s) \<Rightarrow> k\<lparr>kc_sys := s, kc_ops := (kc_ops k)[j := (op, pc')]\<rparr>))
      else k)"

fun kc_run :: "'w env \<Rightarrow> 'w key_manager \<Rightarrow> nat list \<Rightarrow> 'w kconc \<Rightarrow> 'w kconc" where
  "kc_run E km [] k = k"
| "kc_run E km (j # js) k = kc_run E km js (kc_pick E km j k)"

fun in_flight :: "kpc \<Rightarrow> bool" where
  "in_flight KBegin = False"
| "in_flight (KDone r) = False"
| "in_flight _ = True"

text \<open>The discipline: an operation begins only when none on its identifier is under way.\<close>

definition free_for :: "ident \<Rightarrow> 'w kconc \<Rightarrow> bool" where
  "free_for i k \<longleftrightarrow> list_all (\<lambda>(op, pc). in_flight pc \<longrightarrow> op_ident op \<noteq> i) (kc_ops k)"

inductive kc_next :: "'w env \<Rightarrow> 'w key_manager \<Rightarrow> 'w kconc \<Rightarrow> 'w kconc \<Rightarrow> bool" for E km where
  kc_arrive: "kc_next E km k (k\<lparr>kc_ops := kc_ops k @ [(op, KBegin)]\<rparr>)"
| kc_start: "j < length (kc_ops k) \<Longrightarrow> kc_ops k ! j = (op, KBegin) \<Longrightarrow> free_for (op_ident op) k \<Longrightarrow>
    kc_next E km k (kc_pick E km j k)"
| kc_continue: "j < length (kc_ops k) \<Longrightarrow> in_flight (snd (kc_ops k ! j)) \<Longrightarrow> kc_next E km k (kc_pick E km j k)"

inductive kc_reachable :: "'w env \<Rightarrow> 'w key_manager \<Rightarrow> ('w km_sys \<Rightarrow> bool) \<Rightarrow> 'w kconc \<Rightarrow> bool"
  for E km good where
  kc_init: "good (kc_sys k) \<Longrightarrow> kc_ops k = [] \<Longrightarrow> kc_reachable E km good k"
| kc_more: "kc_reachable E km good k \<Longrightarrow> kc_next E km k k' \<Longrightarrow> kc_reachable E km good k'"

text \<open>The steps of one operation put together are the sequential one.\<close>

lemma km_get_steps:
  "km_get E km i s =
     (case km_lookup E i s of
        (Some vt, s1) \<Rightarrow> (Inr vt, s1)
      | (None, s1) \<Rightarrow>
          (case call (GetSecret i) (ks_Get (km_store km) i) s1 of
             (Inl e, s2) \<Rightarrow> (Inl e, s2)
           | (Inr (v, t), s2) \<Rightarrow> (Inr (v, t), km_remember E km i v t s2)))"
  by (auto simp: km_get_def km_lookup_def km_fetch_def km_remember_def
      split: option.splits prod.splits sum.splits)

subsection \<open>Coherence while operations are under way\<close>

text \<open>A write on this identifier that reported an error: its effect is unknown.\<close>

definition unanswered :: "ident \<Rightarrow> 'w kconc \<Rightarrow> bool" where
  "unanswered i k \<longleftrightarrow> (\<exists>op e. (op, KDone (Wrote (Some e))) \<in> set (kc_ops k) \<and> op_ident op = i)"

text \<open>An entry is what the store holds unless a write on it has stored and is about to
  invalidate, or has failed; what a read has fetched is still what the store holds; no two operations on one
  identifier are under way.\<close>

definition kc_inv :: "('w \<Rightarrow> ident \<Rightarrow> slot) \<Rightarrow> 'w kconc \<Rightarrow> bool" where
  "kc_inv view k \<longleftrightarrow>
     (\<forall>i e. km_entries (kc_sys k) i = Some e \<longrightarrow>
        view (world (kc_sys k)) i = Live (ce_value e) (ce_modifiedAt e) \<or>
        (\<exists>op. (op, KInvalidate) \<in> set (kc_ops k) \<and> op_ident op = i) \<or> unanswered i k) \<and>
     (\<forall>op v t. (op, KRemember v t) \<in> set (kc_ops k) \<longrightarrow> view (world (kc_sys k)) (op_ident op) = Live v t) \<and>
     (\<forall>j j'. j < length (kc_ops k) \<longrightarrow> j' < length (kc_ops k) \<longrightarrow> j \<noteq> j' \<longrightarrow>
        in_flight (snd (kc_ops k ! j)) \<longrightarrow> in_flight (snd (kc_ops k ! j')) \<longrightarrow>
        op_ident (fst (kc_ops k ! j)) \<noteq> op_ident (fst (kc_ops k ! j')))"

lemma km_lookup_world:
  assumes "km_lookup E i s = (r, s')" and "clock_frame E view good" and "good (world s)"
  shows "good (world s') \<and> view (world s') = view (world s) \<and> km_entries s' = km_entries s \<and>
    (\<forall>v t. r = Some (v, t) \<longrightarrow> (\<exists>e. km_entries s i = Some e \<and> v = ce_value e \<and> t = ce_modifiedAt e))"
  using assms
  by (auto simp: km_lookup_def clock_frame_def dest!: now_km_frame split: option.splits prod.splits if_splits)

lemma km_remember_world:
  assumes "clock_frame E view good" and "good (world s)"
  shows "good (world (km_remember E km i v t s)) \<and> view (world (km_remember E km i v t s)) = view (world s) \<and>
    (\<exists>x. km_entries (km_remember E km i v t s) = (km_entries s)(i \<mapsto> \<lparr>ce_value = v, ce_modifiedAt = t, ce_expires = x\<rparr>))"
  using assms
  by (auto simp: km_remember_def clock_frame_def dest!: now_km_frame split: prod.splits)

context key_store
begin

lemma km_begin_write_world:
  assumes "km_store km = ks" and "inv (world s)" and "\<not> (\<exists>i. op = OpGet i)" and "km_begin E km op s = (pc', s')"
  shows "inv (world s') \<and> (\<forall>i. i \<noteq> op_ident op \<longrightarrow> view (world s') i = view (world s) i) \<and>
    km_entries s' = km_entries s \<and>
    (pc' = KInvalidate \<or> (\<exists>e. pc' = KDone (Wrote (Some e))))"
proof (cases op)
  case (OpCreate i v)
  obtain r s1 where c: "call (CreateSecret i v) (ks_Create ks i v) s = (r, s1)" by fastforce
  from OpCreate c assms call_km_frame [OF c] create_None [of "world s" i v "world s1"]
    create_Some [of "world s" i v _ "world s1"]
  show ?thesis by (cases r) (auto simp: km_begin_write_def)
next
  case (OpUpdate i v)
  obtain r s1 where c: "call (UpdateSecret i v) (ks_Update ks i v) s = (r, s1)" by fastforce
  from OpUpdate c assms call_km_frame [OF c] update_None [of "world s" i v "world s1"]
    update_Some [of "world s" i v _ "world s1"]
  show ?thesis by (cases r) (auto simp: km_begin_write_def)
next
  case (OpDelete i)
  obtain r s1 where c: "call (DeleteSecret i) (ks_Delete ks i) s = (r, s1)" by fastforce
  from OpDelete c assms call_km_frame [OF c] delete_None [of "world s" i "world s1"]
    delete_Some [of "world s" i _ "world s1"]
  show ?thesis by (cases r) (auto simp: km_begin_write_def)
qed (use assms(3) in simp)

lemma km_read_world:
  assumes "clock_frame E view inv" and "km_store km = ks" and "inv (world s)"
    and "pc = KBegin \<and> (\<exists>i. op = OpGet i) \<or> pc = KFetch" and "km_step E km op pc s = (pc', s')"
  shows "inv (world s') \<and> view (world s') = view (world s) \<and> km_entries s' = km_entries s \<and>
    (\<forall>v t. pc' = KRemember v t \<longrightarrow> view (world s) (op_ident op) = Live v t) \<and> pc' \<noteq> KInvalidate"
proof (cases "pc = KFetch")
  case True
  obtain r s1 where c: "call (GetSecret (op_ident op)) (ks_Get ks (op_ident op)) s = (r, s1)" by fastforce
  from True c assms(2,3,5) call_km_frame [OF c] get_frame [of "world s" "op_ident op" r "world s1"]
    get_live [of "world s" "op_ident op" _ _ "world s1"]
  show ?thesis by (cases r) auto
next
  case False
  with assms(4,5) km_lookup_world [OF _ assms(1,3)] show ?thesis
    by (fastforce split: prod.splits option.splits)
qed

lemma km_step_world:
  assumes "clock_frame E view inv" and "km_store km = ks" and "inv (world s)"
    and "km_step E km op pc s = (pc', s')"
    and "\<And>v t. pc = KRemember v t \<Longrightarrow> view (world s) (op_ident op) = Live v t"
  shows "inv (world s')"
    and "i \<noteq> op_ident op \<Longrightarrow> view (world s') i = view (world s) i \<and> km_entries s' i = km_entries s i"
    and "pc' = KRemember v t \<Longrightarrow> view (world s') (op_ident op) = Live v t"
    and "km_entries s' (op_ident op) = Some e \<Longrightarrow> pc' = KInvalidate \<or> (\<exists>err. pc' = KDone (Wrote (Some err))) \<or>
      view (world s') (op_ident op) = Live (ce_value e) (ce_modifiedAt e) \<or>
      view (world s') (op_ident op) = view (world s) (op_ident op) \<and>
      km_entries s (op_ident op) = Some e \<and> pc \<noteq> KInvalidate"
proof -
  have wr: "inv (world s') \<and> (\<forall>i. i \<noteq> op_ident op \<longrightarrow> view (world s') i = view (world s) i) \<and>
      km_entries s' = km_entries s \<and>
      (pc' = KInvalidate \<or> (\<exists>e. pc' = KDone (Wrote (Some e))))"
    if "pc = KBegin" "\<not> (\<exists>i. op = OpGet i)"
    using km_begin_write_world [OF assms(2,3) that(2)] assms(4) that(1) by simp
  note rd = km_read_world [OF assms(1-3) _ assms(4)]
  have remember: "inv (world s') \<and> view (world s') = view (world s) \<and> (\<exists>r. pc' = KDone r) \<and>
      (\<exists>x. km_entries s' = (km_entries s)(op_ident op \<mapsto> \<lparr>ce_value = v, ce_modifiedAt = t, ce_expires = x\<rparr>))"
    if "pc = KRemember v t" for v t
    using that assms(4) km_remember_world [OF assms(1,3)] by auto
  have rest: "world s' = world s \<and> (\<exists>r. pc' = KDone r) \<and>
      (km_entries s' = km_entries s \<and> pc \<noteq> KInvalidate \<or> km_entries s' = (km_entries s)(op_ident op := None))"
    if "pc = KInvalidate \<or> (\<exists>r. pc = KDone r)"
    using that assms(4) by auto
  show "inv (world s')"
    using wr rd remember rest assms(3) by (cases pc; cases op) (simp; blast)+
  show "view (world s') i = view (world s) i \<and> km_entries s' i = km_entries s i" if "i \<noteq> op_ident op"
    using wr rd remember rest that by (cases pc; cases op) (auto; fastforce)+
  show "view (world s') (op_ident op) = Live v t" if "pc' = KRemember v t"
    using wr rd remember rest that by (cases pc; cases op) (auto; fastforce)+
  show "pc' = KInvalidate \<or> (\<exists>err. pc' = KDone (Wrote (Some err))) \<or>
      view (world s') (op_ident op) = Live (ce_value e) (ce_modifiedAt e) \<or>
      view (world s') (op_ident op) = view (world s) (op_ident op) \<and>
      km_entries s (op_ident op) = Some e \<and> pc \<noteq> KInvalidate" if "km_entries s' (op_ident op) = Some e"
    using wr rd remember rest that assms(5) by (cases pc; cases op) (auto; fastforce)+
qed

text \<open>An operation that may take a step shares its identifier with no other one under way.\<close>

lemma kc_alone:
  assumes "kc_inv view k" and "j < length (kc_ops k)" "kc_ops k ! j = (op, pc)"
    and "pc = KBegin \<and> free_for (op_ident op) k \<or> in_flight pc"
    and "a < length (kc_ops k)" "a \<noteq> j" "kc_ops k ! a = (op2, pc2)" "in_flight pc2"
  shows "op_ident op2 \<noteq> op_ident op"
  using assms unfolding free_for_def list_all_length kc_inv_def by fastforce

lemma kc_pick_entries:
  assumes "clock_frame E view inv" and "km_store km = ks" and "inv (world (kc_sys k))" and "kc_inv view k"
    and j: "j < length (kc_ops k)" "kc_ops k ! j = (op, pc)"
    and free: "pc = KBegin \<and> free_for (op_ident op) k \<or> in_flight pc"
    and st: "km_step E km op pc (kc_sys k) = (pc', s')" and e: "km_entries s' i = Some e"
  shows "view (world s') i = Live (ce_value e) (ce_modifiedAt e) \<or>
    (\<exists>op2. (op2, KInvalidate) \<in> set ((kc_ops k)[j := (op, pc')]) \<and> op_ident op2 = i) \<or>
    (\<exists>op2 err. (op2, KDone (Wrote (Some err))) \<in> set ((kc_ops k)[j := (op, pc')]) \<and> op_ident op2 = i)"
proof -
  note step = km_step_world [OF assms(1-3) st]
  have Bj: "view (world (kc_sys k)) (op_ident op) = Live v t" if "pc = KRemember v t" for v t
    using assms(4) j that unfolding kc_inv_def by (metis nth_mem)
  have A: "view (world (kc_sys k)) i = Live (ce_value e) (ce_modifiedAt e) \<or>
      (\<exists>op. (op, KInvalidate) \<in> set (kc_ops k) \<and> op_ident op = i) \<or> unanswered i k" if "km_entries (kc_sys k) i = Some e"
    using assms(4) that unfolding kc_inv_def by blast
  have U: "\<exists>op2 err. (op2, KDone (Wrote (Some err))) \<in> set ((kc_ops k)[j := (op, pc')]) \<and> op_ident op2 = i" if un: "unanswered i k"
  proof -
    from un obtain op2 err a where a: "a < length (kc_ops k)" "kc_ops k ! a = (op2, KDone (Wrote (Some err)))" "op_ident op2 = i"
      unfolding unanswered_def by (metis in_set_conv_nth)
    with j free have "a \<noteq> j" by auto
    with a show ?thesis by (metis length_list_update nth_list_update_neq nth_mem)
  qed
  show ?thesis
  proof (cases "i = op_ident op")
    case True
    from step(4) [OF Bj] e True
    consider "pc' = KInvalidate" | err where "pc' = KDone (Wrote (Some err))" | "view (world s') i = Live (ce_value e) (ce_modifiedAt e)"
      | "view (world s') i = view (world (kc_sys k)) i" "km_entries (kc_sys k) i = Some e" "pc \<noteq> KInvalidate"
      by blast
    then show ?thesis
    proof cases
      case 1
      with j True show ?thesis by (metis length_list_update nth_list_update_eq nth_mem)
    next
      case 2
      with j True show ?thesis by (metis length_list_update nth_list_update_eq nth_mem)
    next
      case 4
      have "\<not> (op2, KInvalidate) \<in> set (kc_ops k)" if "op_ident op2 = i" for op2
        using 4(3) j kc_alone [OF assms(4) j free] True that by (metis Pair_inject in_flight.simps(5) in_set_conv_nth)
      with A [OF 4(2)] 4(1) U show ?thesis by auto
    qed blast
  next
    case False
    with step(2) [OF Bj] e have "km_entries (kc_sys k) i = Some e"
        and v: "view (world s') i = view (world (kc_sys k)) i" by auto
    from A [OF this(1)] consider "view (world (kc_sys k)) i = Live (ce_value e) (ce_modifiedAt e)"
      | "\<exists>op2. (op2, KInvalidate) \<in> set (kc_ops k) \<and> op_ident op2 = i" | "unanswered i k" by blast
    then show ?thesis
    proof cases
      case 2
      then obtain op2 a where a: "a < length (kc_ops k)" "kc_ops k ! a = (op2, KInvalidate)" "op_ident op2 = i"
        by (metis in_set_conv_nth)
      with False j have "a \<noteq> j" by auto
      with a show ?thesis by (metis length_list_update nth_list_update_neq nth_mem)
    qed (use v U in auto)
  qed
qed

lemma kc_pick_fetched:
  assumes "clock_frame E view inv" and "km_store km = ks" and "inv (world (kc_sys k))" and "kc_inv view k"
    and j: "j < length (kc_ops k)" "kc_ops k ! j = (op, pc)"
    and free: "pc = KBegin \<and> free_for (op_ident op) k \<or> in_flight pc"
    and st: "km_step E km op pc (kc_sys k) = (pc', s')"
    and m: "(op2, KRemember v t) \<in> set ((kc_ops k)[j := (op, pc')])"
  shows "view (world s') (op_ident op2) = Live v t"
proof -
  note step = km_step_world [OF assms(1-3) st]
  have B: "view (world (kc_sys k)) (op_ident op1) = Live v1 t1" if "(op1, KRemember v1 t1) \<in> set (kc_ops k)" for op1 v1 t1
    using assms(4) that unfolding kc_inv_def by blast
  have Bj: "view (world (kc_sys k)) (op_ident op) = Live v t" if "pc = KRemember v t" for v t
    using B j that by (metis nth_mem)
  from m j(1) consider "(op2, KRemember v t) = (op, pc')"
    | a where "a < length (kc_ops k)" "a \<noteq> j" "kc_ops k ! a = (op2, KRemember v t)"
    by (auto simp: in_set_conv_nth nth_list_update split: if_splits)
  then show ?thesis
  proof cases
    case 1
    then show ?thesis using step(3) [OF Bj] by simp
  next
    case 2
    have "op_ident op2 \<noteq> op_ident op" using kc_alone [OF assms(4) j free 2] by simp
    moreover from 2 have "(op2, KRemember v t) \<in> set (kc_ops k)" by (metis nth_mem)
    ultimately show ?thesis using step(2) [OF Bj] B by auto
  qed
qed

lemma kc_pick_exclusive:
  assumes "kc_inv view k" and j: "j < length (kc_ops k)" "kc_ops k ! j = (op, pc)"
    and free: "pc = KBegin \<and> free_for (op_ident op) k \<or> in_flight pc"
    and "a < length (kc_ops k)" "b < length (kc_ops k)" "a \<noteq> b"
      "in_flight (snd ((kc_ops k)[j := (op, pc')] ! a))" "in_flight (snd ((kc_ops k)[j := (op, pc')] ! b))"
  shows "op_ident (fst ((kc_ops k)[j := (op, pc')] ! a)) \<noteq> op_ident (fst ((kc_ops k)[j := (op, pc')] ! b))"
proof -
  have C: "op_ident (fst (kc_ops k ! a)) \<noteq> op_ident (fst (kc_ops k ! b))"
    if "in_flight (snd (kc_ops k ! a))" "in_flight (snd (kc_ops k ! b))"
    using assms(1,5-7) that unfolding kc_inv_def by blast
  show ?thesis
    using assms(2,5-) C kc_alone [OF assms(1) j free, of a "fst (kc_ops k ! a)" "snd (kc_ops k ! a)"]
      kc_alone [OF assms(1) j free, of b "fst (kc_ops k ! b)" "snd (kc_ops k ! b)"]
    by (cases "a = j"; cases "b = j") auto
qed

lemma kc_pick_inv:
  assumes "clock_frame E view inv" and "km_store km = ks" and "inv (world (kc_sys k))" and "kc_inv view k"
    and j: "j < length (kc_ops k)" "kc_ops k ! j = (op, pc)"
    and free: "pc = KBegin \<and> free_for (op_ident op) k \<or> in_flight pc"
  shows "inv (world (kc_sys (kc_pick E km j k))) \<and> kc_inv view (kc_pick E km j k)"
proof -
  obtain pc' s' where st: "km_step E km op pc (kc_sys k) = (pc', s')" by fastforce
  then have k': "kc_pick E km j k = k\<lparr>kc_sys := s', kc_ops := (kc_ops k)[j := (op, pc')]\<rparr>"
    using j by (simp add: kc_pick_def)
  have Bj: "view (world (kc_sys k)) (op_ident op) = Live v t" if "pc = KRemember v t" for v t
    using assms(4) j that unfolding kc_inv_def by (metis nth_mem)
  show ?thesis
    using km_step_world(1) [OF assms(1-3) st Bj] kc_pick_entries [OF assms st] kc_pick_fetched [OF assms st]
      kc_pick_exclusive [OF assms(4-7)]
    unfolding k' kc_inv_def unanswered_def by simp
qed

lemma kc_reachable_inv:
  assumes "kc_reachable E km (\<lambda>s. inv (world s) \<and> coherent view s) k"
    and "clock_frame E view inv" and "km_store km = ks"
  shows "inv (world (kc_sys k)) \<and> kc_inv view k"
  using assms(1)
proof (induction rule: kc_reachable.induct)
  case (kc_init k)
  then show ?case by (simp add: kc_inv_def coherent_def)
next
  case (kc_more k k')
  then have i: "inv (world (kc_sys k))" "kc_inv view k" by auto
  from kc_more(2) show ?case
  proof cases
    case (kc_arrive op)
    with i show ?thesis
      by (auto simp: kc_inv_def unanswered_def nth_append less_Suc_eq)
  next
    case (kc_start j op)
    with kc_pick_inv [OF assms(2,3) i kc_start(2,3)] show ?thesis by simp
  next
    case (kc_continue j)
    with kc_pick_inv [OF assms(2,3) i, of j "fst (kc_ops k ! j)" "snd (kc_ops k ! j)"] show ?thesis by simp
  qed
qed

end

end
