(* ===== verification/AwsKeyStore.thy ===== *)
theory AwsKeyStore
  imports KeyStore
begin

text \<open>
  \<open>internal/secrets/aws/keystore.go\<close>: the key store over AWS Secrets Manager.  The client
  is a parameter, a record of the four API calls; \<open>aws_contract\<close> states what AWS documents
  of them, and the store is shown to keep the \<open>key_store\<close> contract over every such client.
\<close>

record secret_out =
  so_SecretString :: "string option"
  so_CreatedDate :: "time option"

record create_in =
  ci_Name :: string
  ci_SecretString :: string
  ci_KmsKeyId :: "string option"

record 'w aws_client =
  sm_GetSecretValue :: "string \<Rightarrow> 'w \<Rightarrow> secret_out result \<times> 'w"
  sm_CreateSecret :: "create_in \<Rightarrow> 'w \<Rightarrow> gerror option \<times> 'w"
  sm_PutSecretValue :: "string \<Rightarrow> string \<Rightarrow> 'w \<Rightarrow> gerror option \<times> 'w"
  sm_DeleteSecret :: "string \<Rightarrow> int \<Rightarrow> 'w \<Rightarrow> gerror option \<times> 'w"

record 'w awsKeyStore =
  aks_client :: "'w aws_client"
  aks_kmsKeyId :: string
  aks_recoveryWindowDays :: int

definition maxRecoveryWindowDays :: int where
  "maxRecoveryWindowDays = 30"

text \<open>The zero \<open>time.Time\<close>, in nanoseconds from the Unix epoch.\<close>

definition zero_time :: time where
  "zero_time = - 62135596800 * 10 ^ 9"

definition aws_region_error :: gerror where
  "aws_region_error =
     NewUserError ''AWS region is required to construct the AWS key store (expected: aws.region in base.yaml)''"

definition cap_log :: "int \<Rightarrow> string" where
  "cap_log gracePeriodDays =
     ''secrets/aws: recovery window capped at '' @ show_int maxRecoveryWindowDays @
     '' days (Secrets Manager's maximum); configured grace period is '' @ show_int gracePeriodDays @
     '' days, so a credential deleted after this cap needs manual repair (012) if the account is restored on days ''
     @ show_int (maxRecoveryWindowDays + 1) @ ''-'' @ show_int gracePeriodDays"

text \<open>The constructor: \<open>loadConfig\<close> is the SDK's configuration loading, \<open>newFromConfig\<close> its
  client constructor.\<close>

definition aws_New ::
  "(string \<Rightarrow> 'cfg result) \<Rightarrow> ('cfg \<Rightarrow> 'w aws_client) \<Rightarrow> string \<Rightarrow> string \<Rightarrow> int
     \<Rightarrow> ('w, 'z) sys_scheme \<Rightarrow> 'w awsKeyStore result \<times> ('w, 'z) sys_scheme" where
  "aws_New loadConfig newFromConfig region kmsKeyId gracePeriodDays s =
     (if region = [] then (Inl aws_region_error, s)
      else (case loadConfig region of
              Inl e \<Rightarrow> (Inl (wrap ''failed to load AWS SDK config: '' e), s)
            | Inr cfg \<Rightarrow>
                let capped = gracePeriodDays > maxRecoveryWindowDays;
                    recoveryWindowDays = (if capped then maxRecoveryWindowDays else gracePeriodDays);
                    s1 = (if capped then emit (LogPrintf (cap_log gracePeriodDays)) s else s)
                in (Inr \<lparr>aks_client = newFromConfig cfg, aks_kmsKeyId = kmsKeyId,
                         aks_recoveryWindowDays = recoveryWindowDays\<rparr>, s1)))"

fun is_invalid_request :: "gerror \<Rightarrow> bool" where
  "is_invalid_request (InvalidRequestException m t) = True"
| "is_invalid_request _ = False"

fun is_not_found :: "gerror \<Rightarrow> bool" where
  "is_not_found (ResourceNotFoundException t) = True"
| "is_not_found _ = False"

definition isPendingDeletion :: "gerror \<Rightarrow> bool" where
  "isPendingDeletion err =
     (case errors_As is_invalid_request err of
        None \<Rightarrow> False
      | Some invalidReq \<Rightarrow>
          let msg = to_lower (ir_message invalidReq)
          in contains_sub msg ''scheduled for deletion'' \<or> contains_sub msg ''marked for deletion'')"

definition isNotFound :: "gerror \<Rightarrow> bool" where
  "isNotFound err \<longleftrightarrow> errors_As is_not_found err \<noteq> None"

definition aws_Get :: "'w awsKeyStore \<Rightarrow> ident \<Rightarrow> 'w \<Rightarrow> (string \<times> time) result \<times> 'w" where
  "aws_Get b i w =
     (case sm_GetSecretValue (aks_client b) (ident_value i) w of
        (Inl e, w1) \<Rightarrow> (Inl (wrap (''failed to get secret at '' @ ident_value i @ '': '') e), w1)
      | (Inr out, w1) \<Rightarrow>
          (Inr (case so_SecretString out of None \<Rightarrow> [] | Some v \<Rightarrow> v,
                case so_CreatedDate out of None \<Rightarrow> zero_time | Some t \<Rightarrow> t), w1))"

definition create_pending_error :: "ident \<Rightarrow> gerror \<Rightarrow> gerror" where
  "create_pending_error i e =
     Errorf (''failed to create secret at '' @ ident_value i @ '': '' @
       err_text ErrPendingDeletion @ '': '' @ err_text e) [ErrPendingDeletion, e]"

definition create_input :: "'w awsKeyStore \<Rightarrow> ident \<Rightarrow> string \<Rightarrow> create_in" where
  "create_input b i v =
     (let inp = \<lparr>ci_Name = ident_value i, ci_SecretString = v, ci_KmsKeyId = None\<rparr>
      in if aks_kmsKeyId b \<noteq> [] then inp\<lparr>ci_KmsKeyId := Some (aks_kmsKeyId b)\<rparr> else inp)"

definition aws_Create :: "'w awsKeyStore \<Rightarrow> ident \<Rightarrow> string \<Rightarrow> 'w \<Rightarrow> gerror option \<times> 'w" where
  "aws_Create b i v w =
     (case sm_CreateSecret (aks_client b) (create_input b i v) w of
        (Some e, w1) \<Rightarrow>
          if isPendingDeletion e then (Some (create_pending_error i e), w1)
          else (Some (wrap (''failed to create secret at '' @ ident_value i @ '': '') e), w1)
      | (None, w1) \<Rightarrow> (None, w1))"

definition aws_Update :: "'w awsKeyStore \<Rightarrow> ident \<Rightarrow> string \<Rightarrow> 'w \<Rightarrow> gerror option \<times> 'w" where
  "aws_Update b i v w =
     (case sm_PutSecretValue (aks_client b) (ident_value i) v w of
        (Some e, w1) \<Rightarrow> (Some (wrap (''failed to update secret at '' @ ident_value i @ '': '') e), w1)
      | (None, w1) \<Rightarrow> (None, w1))"

definition aws_Delete :: "'w awsKeyStore \<Rightarrow> ident \<Rightarrow> 'w \<Rightarrow> gerror option \<times> 'w" where
  "aws_Delete b i w =
     (case sm_DeleteSecret (aks_client b) (ident_value i) (aks_recoveryWindowDays b) w of
        (Some e, w1) \<Rightarrow>
          if \<not> isNotFound e \<and> \<not> isPendingDeletion e
          then (Some (wrap (''failed to delete secret at '' @ ident_value i @ '': '') e), w1)
          else (None, w1)
      | (None, w1) \<Rightarrow> (None, w1))"

definition aws_key_store :: "'w awsKeyStore \<Rightarrow> 'w key_store" where
  "aws_key_store b =
     \<lparr>ks_Get = aws_Get b, ks_Create = aws_Create b, ks_Update = aws_Update b, ks_Delete = aws_Delete b\<rparr>"

subsection \<open>Over a client that behaves as documented, the contract holds\<close>

text \<open>
  What Secrets Manager documents: a read returns the current value of a secret that is not
  scheduled for deletion; CreateSecret needs a free name and PutSecretValue a live secret;
  DeleteSecret schedules.  An error of a write says nothing of its effect: the service refused it, or
  carried it out and the answer was lost or the SDK's own retry was refused (a timeout, an internal
  error).  What an error does say is told by its kind: ResourceNotFound that there is nothing now, a
  deletion in progress that one is pending now.  The package's own errors never come out of the SDK.
\<close>

definition aws_contract :: "'w aws_client \<Rightarrow> ('w \<Rightarrow> string \<Rightarrow> slot) \<Rightarrow> bool" where
  "aws_contract c sv \<longleftrightarrow>
     (\<forall>n w r w'. sm_GetSecretValue c n w = (r, w') \<longrightarrow> sv w' = sv w \<and>
        (case r of Inl e \<Rightarrow> True
         | Inr out \<Rightarrow> \<exists>v t. out = \<lparr>so_SecretString = Some v, so_CreatedDate = Some t\<rparr> \<and> sv w n = Live v t)) \<and>
     (\<forall>inp w r w'. sm_CreateSecret c inp w = (r, w') \<longrightarrow>
        (case r of
           None \<Rightarrow> sv w (ci_Name inp) = Absent \<and>
             (\<exists>t. sv w' = (sv w)(ci_Name inp := Live (ci_SecretString inp) t))
         | Some e \<Rightarrow> (sv w' = sv w \<or> sv w (ci_Name inp) = Absent \<and>
               (\<exists>t. sv w' = (sv w)(ci_Name inp := Live (ci_SecretString inp) t))) \<and>
             \<not> errors_Is e ErrPendingDeletion \<and>
             (isPendingDeletion e \<longrightarrow> is_pending (sv w' (ci_Name inp))))) \<and>
     (\<forall>n v w r w'. sm_PutSecretValue c n v w = (r, w') \<longrightarrow>
        (case r of
           None \<Rightarrow> is_live (sv w n) \<and> (\<exists>t. sv w' = (sv w)(n := Live v t))
         | Some e \<Rightarrow> sv w' = sv w \<or> is_live (sv w n) \<and> (\<exists>t. sv w' = (sv w)(n := Live v t)))) \<and>
     (\<forall>n d w r w'. sm_DeleteSecret c n d w = (r, w') \<longrightarrow>
        (case r of
           None \<Rightarrow> (\<exists>v t. sv w n = Live v t \<and> sv w' = (sv w)(n := Pending v t))
         | Some e \<Rightarrow> (sv w' = sv w \<or> (\<exists>v t. sv w n = Live v t \<and> sv w' = (sv w)(n := Pending v t))) \<and>
             (isNotFound e \<longrightarrow> sv w' n = Absent) \<and> (isPendingDeletion e \<longrightarrow> is_pending (sv w' n))))"

definition ident_view :: "('w \<Rightarrow> string \<Rightarrow> slot) \<Rightarrow> 'w \<Rightarrow> ident \<Rightarrow> slot" where
  "ident_view sv w i = sv w (ident_value i)"

lemma ident_view_upd:
  "sv w' = (sv w)(ident_value i := x) \<Longrightarrow> ident_view sv w' = (ident_view sv w)(i := x)"
  by (auto simp: ident_view_def fun_eq_iff ident.expand)

lemma ident_view_same: "sv w' = sv w \<Longrightarrow> ident_view sv w' = ident_view sv w"
  by (simp add: ident_view_def fun_eq_iff)

lemma aws_get_law:
  assumes "aws_contract c sv" and "sm_GetSecretValue c n w = (r, w')"
  shows "sv w' = sv w"
    and "r = Inr out \<Longrightarrow> \<exists>v t. out = \<lparr>so_SecretString = Some v, so_CreatedDate = Some t\<rparr> \<and> sv w n = Live v t"
  using assms unfolding aws_contract_def by (fastforce split: sum.splits)+

lemma aws_create_law:
  assumes "aws_contract c sv" and "sm_CreateSecret c inp w = (r, w')"
  shows "r = None \<Longrightarrow> sv w (ci_Name inp) = Absent \<and>
      (\<exists>t. sv w' = (sv w)(ci_Name inp := Live (ci_SecretString inp) t))"
    and "r = Some e \<Longrightarrow> (sv w' = sv w \<or> sv w (ci_Name inp) = Absent \<and>
        (\<exists>t. sv w' = (sv w)(ci_Name inp := Live (ci_SecretString inp) t))) \<and>
      \<not> errors_Is e ErrPendingDeletion \<and> (isPendingDeletion e \<longrightarrow> is_pending (sv w (ci_Name inp)))"
proof -
  from assms have c: "case r of
      None \<Rightarrow> sv w (ci_Name inp) = Absent \<and> (\<exists>t. sv w' = (sv w)(ci_Name inp := Live (ci_SecretString inp) t))
    | Some e \<Rightarrow> (sv w' = sv w \<or> sv w (ci_Name inp) = Absent \<and>
          (\<exists>t. sv w' = (sv w)(ci_Name inp := Live (ci_SecretString inp) t))) \<and>
        \<not> errors_Is e ErrPendingDeletion \<and> (isPendingDeletion e \<longrightarrow> is_pending (sv w' (ci_Name inp)))"
    unfolding aws_contract_def by blast
  show "sv w (ci_Name inp) = Absent \<and> (\<exists>t. sv w' = (sv w)(ci_Name inp := Live (ci_SecretString inp) t))" if "r = None"
    using c that by simp
  show "(sv w' = sv w \<or> sv w (ci_Name inp) = Absent \<and>
        (\<exists>t. sv w' = (sv w)(ci_Name inp := Live (ci_SecretString inp) t))) \<and>
      \<not> errors_Is e ErrPendingDeletion \<and> (isPendingDeletion e \<longrightarrow> is_pending (sv w (ci_Name inp)))" if "r = Some e"
    using c that by auto
qed

lemma aws_put_law:
  assumes "aws_contract c sv" and "sm_PutSecretValue c n v w = (r, w')"
  shows "r = None \<Longrightarrow> is_live (sv w n) \<and> (\<exists>t. sv w' = (sv w)(n := Live v t))"
    and "r = Some e \<Longrightarrow> sv w' = sv w \<or> is_live (sv w n) \<and> (\<exists>t. sv w' = (sv w)(n := Live v t))"
proof -
  from assms have c: "case r of None \<Rightarrow> is_live (sv w n) \<and> (\<exists>t. sv w' = (sv w)(n := Live v t))
    | Some e \<Rightarrow> sv w' = sv w \<or> is_live (sv w n) \<and> (\<exists>t. sv w' = (sv w)(n := Live v t))"
    unfolding aws_contract_def by blast
  show "is_live (sv w n) \<and> (\<exists>t. sv w' = (sv w)(n := Live v t))" if "r = None" using c that by simp
  show "sv w' = sv w \<or> is_live (sv w n) \<and> (\<exists>t. sv w' = (sv w)(n := Live v t))" if "r = Some e"
    using c that by simp
qed

lemma aws_delete_law:
  assumes "aws_contract c sv" and "sm_DeleteSecret c n d w = (r, w')"
  shows "r = None \<Longrightarrow> \<exists>v t. sv w n = Live v t \<and> sv w' = (sv w)(n := Pending v t)"
    and "r = Some e \<Longrightarrow> (sv w' = sv w \<or> (\<exists>v t. sv w n = Live v t \<and> sv w' = (sv w)(n := Pending v t))) \<and>
      (isNotFound e \<or> isPendingDeletion e \<longrightarrow> \<not> is_live (sv w' n))"
proof -
  from assms have c: "case r of None \<Rightarrow> \<exists>v t. sv w n = Live v t \<and> sv w' = (sv w)(n := Pending v t)
    | Some e \<Rightarrow> (sv w' = sv w \<or> (\<exists>v t. sv w n = Live v t \<and> sv w' = (sv w)(n := Pending v t))) \<and>
        (isNotFound e \<longrightarrow> sv w' n = Absent) \<and> (isPendingDeletion e \<longrightarrow> is_pending (sv w' n))"
    unfolding aws_contract_def by blast
  show "\<exists>v t. sv w n = Live v t \<and> sv w' = (sv w)(n := Pending v t)" if "r = None" using c that by simp
  show "(sv w' = sv w \<or> (\<exists>v t. sv w n = Live v t \<and> sv w' = (sv w)(n := Pending v t))) \<and>
      (isNotFound e \<or> isPendingDeletion e \<longrightarrow> \<not> is_live (sv w' n))" if "r = Some e"
    using c that by (auto elim: is_pending.elims)
qed

lemma create_input_simps [simp]:
  "ci_Name (create_input b i v) = ident_value i"
  "ci_SecretString (create_input b i v) = v"
  by (simp_all add: create_input_def Let_def)

lemma create_pending_error_sentinel [simp]: "errors_Is (create_pending_error i e) ErrPendingDeletion"
  by (simp add: create_pending_error_def errors_Is_iff)

text \<open>A Create refused as pending, and a Delete that reports success.\<close>

lemma aws_Create_pending:
  assumes law: "aws_contract (aks_client b) sv"
    and "ks_Create (aws_key_store b) i v w = (Some e, w')" and "errors_Is e ErrPendingDeletion"
  shows "is_pending (ident_view sv w i)"
proof -
  from assms(2) obtain e' where c: "sm_CreateSecret (aks_client b) (create_input b i v) w = (Some e', w')"
      and e: "e = create_pending_error i e' \<and> isPendingDeletion e' \<or>
        e = wrap (''failed to create secret at '' @ ident_value i @ '': '') e'"
    by (auto simp: aws_key_store_def aws_Create_def split: prod.splits option.splits if_splits)
  note law' = aws_create_law(2) [OF law c refl]
  from e assms(3) law' have "isPendingDeletion e'"
    by (auto simp: wrap_def errors_Is_iff)
  with law' show ?thesis by (simp add: ident_view_def)
qed

lemma aws_Delete_done:
  assumes law: "aws_contract (aks_client b) sv" and "ks_Delete (aws_key_store b) i w = (None, w')"
  shows "\<exists>x. \<not> is_live x \<and> ident_view sv w' = (ident_view sv w)(i := x)"
proof -
  from assms(2) obtain r where c: "sm_DeleteSecret (aks_client b) (ident_value i) (aks_recoveryWindowDays b) w = (r, w')"
      and r: "\<And>e. r = Some e \<Longrightarrow> isNotFound e \<or> isPendingDeletion e"
    by (auto simp: aws_key_store_def aws_Delete_def split: prod.splits option.splits if_splits)
  show ?thesis
  proof (cases r)
    case None
    with aws_delete_law(1) [OF law c]
    obtain v t where "sv w' = (sv w)(ident_value i := Pending v t)" by blast
    then have "ident_view sv w' = (ident_view sv w)(i := Pending v t)" by (rule ident_view_upd)
    then show ?thesis by (metis is_live.simps(3))
  next
    case (Some e)
    with aws_delete_law(2) [OF law c] r
    have d: "\<not> is_live (sv w' (ident_value i))"
      and s: "sv w' = sv w \<or> (\<exists>v t. sv w' = (sv w)(ident_value i := Pending v t))" by auto
    from s show ?thesis
    proof
      assume "sv w' = sv w"
      with d show ?thesis by (metis fun_upd_triv ident_view_def ident_view_same)
    next
      assume "\<exists>v t. sv w' = (sv w)(ident_value i := Pending v t)"
      then show ?thesis by (metis ident_view_upd is_live.simps(3))
    qed
  qed
qed

lemma aws_key_store_contract:
  assumes law: "aws_contract (aks_client b) sv"
  shows "key_store (aws_key_store b) (ident_view sv) (\<lambda>_. True)"
proof
  fix w i r w' assume "ks_Get (aws_key_store b) i w = (r, w')"
  then show "True \<and> ident_view sv w' = ident_view sv w"
    by (auto simp: aws_key_store_def aws_Get_def dest!: aws_get_law(1) [OF law]
        intro!: ident_view_same split: prod.splits sum.splits)
next
  fix w i v t w' assume "ks_Get (aws_key_store b) i w = (Inr (v, t), w')"
  then show "ident_view sv w i = Live v t"
    by (auto simp: aws_key_store_def aws_Get_def ident_view_def
        dest!: aws_get_law(2) [OF law _ refl] split: prod.splits sum.splits)
next
  fix w i v w' assume "ks_Create (aws_key_store b) i v w = (None, w')"
  then have "sm_CreateSecret (aks_client b) (create_input b i v) w = (None, w')"
    by (auto simp: aws_key_store_def aws_Create_def split: prod.splits option.splits if_splits)
  with aws_create_law(1) [OF law this]
  show "True \<and> ident_view sv w i = Absent \<and> (\<exists>t. ident_view sv w' = (ident_view sv w)(i := Live v t))"
    by (auto simp: ident_view_def intro: ident_view_upd)
next
  fix w i v e w' assume "ks_Create (aws_key_store b) i v w = (Some e, w')"
  then obtain e' where "sm_CreateSecret (aks_client b) (create_input b i v) w = (Some e', w')"
    by (auto simp: aws_key_store_def aws_Create_def split: prod.splits option.splits if_splits)
  from aws_create_law(2) [OF law this refl]
  have "sv w' = sv w \<or> sv w (ident_value i) = Absent \<and> (\<exists>t. sv w' = (sv w)(ident_value i := Live v t))" by simp
  then show "True \<and> (ident_view sv w' = ident_view sv w \<or>
      ident_view sv w i = Absent \<and> (\<exists>t. ident_view sv w' = (ident_view sv w)(i := Live v t)))"
    by (metis ident_view_def ident_view_same ident_view_upd)
next
  fix w i v e w'
  assume "ks_Create (aws_key_store b) i v w = (Some e, w')" and "errors_Is e ErrPendingDeletion"
  then show "is_pending (ident_view sv w i)" by (rule aws_Create_pending [OF law])
next
  fix w i v w' assume "ks_Update (aws_key_store b) i v w = (None, w')"
  then have "sm_PutSecretValue (aks_client b) (ident_value i) v w = (None, w')"
    by (auto simp: aws_key_store_def aws_Update_def split: prod.splits option.splits)
  with aws_put_law(1) [OF law this]
  show "True \<and> is_live (ident_view sv w i) \<and> (\<exists>t. ident_view sv w' = (ident_view sv w)(i := Live v t))"
    by (metis ident_view_def ident_view_upd)
next
  fix w i v e w' assume "ks_Update (aws_key_store b) i v w = (Some e, w')"
  then obtain e' where "sm_PutSecretValue (aks_client b) (ident_value i) v w = (Some e', w')"
    by (auto simp: aws_key_store_def aws_Update_def split: prod.splits option.splits)
  from aws_put_law(2) [OF law this refl]
  show "True \<and> (ident_view sv w' = ident_view sv w \<or>
      is_live (ident_view sv w i) \<and> (\<exists>t. ident_view sv w' = (ident_view sv w)(i := Live v t)))"
    by (metis ident_view_def ident_view_same ident_view_upd)
next
  fix w i w' assume "ks_Delete (aws_key_store b) i w = (None, w')"
  then show "True \<and> (\<exists>x. \<not> is_live x \<and> ident_view sv w' = (ident_view sv w)(i := x))"
    using aws_Delete_done [OF law] by blast
next
  fix w i e w' assume "ks_Delete (aws_key_store b) i w = (Some e, w')"
  then obtain e' where
      "sm_DeleteSecret (aks_client b) (ident_value i) (aks_recoveryWindowDays b) w = (Some e', w')"
    by (auto simp: aws_key_store_def aws_Delete_def split: prod.splits option.splits if_splits)
  from aws_delete_law(2) [OF law this refl]
  have "sv w' = sv w \<or> (\<exists>v t. sv w' = (sv w)(ident_value i := Pending v t))" by blast
  then show "True \<and> (ident_view sv w' = ident_view sv w \<or>
      (\<exists>x. \<not> is_live x \<and> ident_view sv w' = (ident_view sv w)(i := x)))"
    by (metis ident_view_same ident_view_upd is_live.simps(3))
qed

subsection \<open>The recovery window\<close>

lemma aws_New_window:
  assumes "aws_New load new region kms days s = (Inr b, s')"
  shows "aks_recoveryWindowDays b = min days maxRecoveryWindowDays \<and> region \<noteq> [] \<and>
    aks_kmsKeyId b = kms"
  using assms
  by (auto simp: aws_New_def Let_def min_def split: if_splits sum.splits)

end
