(* ===== verification/Store_History.thy ===== *)
theory Store_History
  imports AwsKeyStore FakeKeyStore
begin

text \<open>
  What a sequence of calls to a key store leaves readable, when any of them may fail and a failed
  write may have been carried out.  \<open>could_hold\<close> follows the answers of the calls and says which values a
  reader of one identifier may be given: the last answered write, or a later one whose answer was an
  error.  It is a consequence of the interface's laws, so it holds of both stores.
\<close>

subsection \<open>Runs of calls\<close>

datatype store_op =
    SGet ident
  | SCreate ident string
  | SUpdate ident string
  | SDelete ident

datatype store_answer =
    SRead "(string \<times> time) result"
  | SDone "gerror option"

fun store_step :: "'w key_store \<Rightarrow> store_op \<Rightarrow> 'w \<Rightarrow> store_answer \<times> 'w" where
  "store_step ks (SGet i) w = (case ks_Get ks i w of (r, w') \<Rightarrow> (SRead r, w'))"
| "store_step ks (SCreate i v) w = (case ks_Create ks i v w of (r, w') \<Rightarrow> (SDone r, w'))"
| "store_step ks (SUpdate i v) w = (case ks_Update ks i v w of (r, w') \<Rightarrow> (SDone r, w'))"
| "store_step ks (SDelete i) w = (case ks_Delete ks i w of (r, w') \<Rightarrow> (SDone r, w'))"

fun store_run :: "'w key_store \<Rightarrow> store_op list \<Rightarrow> 'w \<Rightarrow> (store_op \<times> store_answer) list \<times> 'w" where
  "store_run ks [] w = ([], w)"
| "store_run ks (op # ops) w =
     (case store_step ks op w of
        (a, w1) \<Rightarrow> (case store_run ks ops w1 of (h, w2) \<Rightarrow> ((op, a) # h, w2)))"

text \<open>The values \<open>i\<close> may hold after one more answer.  A read settles the question; a write that reports
  success does too; one that fails adds its value, but an update cannot bring back what is gone, and
  a create refused because a removal is pending shows that nothing can be read.\<close>

fun could_hold :: "ident \<Rightarrow> string set \<Rightarrow> store_op \<times> store_answer \<Rightarrow> string set" where
  "could_hold i P (SGet j, SRead (Inr (v, t))) = (if j = i then {v} else P)"
| "could_hold i P (SCreate j v, SDone None) = (if j = i then {v} else P)"
| "could_hold i P (SCreate j v, SDone (Some e)) =
     (if j \<noteq> i then P else if errors_Is e ErrPendingDeletion then {} else insert v P)"
| "could_hold i P (SUpdate j v, SDone None) = (if j = i then {v} else P)"
| "could_hold i P (SUpdate j v, SDone (Some e)) = (if j = i \<and> P \<noteq> {} then insert v P else P)"
| "could_hold i P (SDelete j, SDone None) = (if j = i then {} else P)"
| "could_hold i P _ = P"

subsection \<open>For every store that keeps the contract\<close>

definition holds_one_of :: "('w \<Rightarrow> ident \<Rightarrow> slot) \<Rightarrow> ident \<Rightarrow> string set \<Rightarrow> 'w \<Rightarrow> bool" where
  "holds_one_of view i P w \<longleftrightarrow> (\<forall>v t. view w i = Live v t \<longrightarrow> v \<in> P)"

context key_store
begin

lemma store_step_holds:
  assumes "inv w" and "holds_one_of view i P w" and "store_step ks op w = (a, w')"
  shows "inv w' \<and> holds_one_of view i (could_hold i P (op, a)) w'"
proof (cases op)
  case (SGet j)
  obtain r where g: "ks_Get ks j w = (r, w')" "a = SRead r" using assms(3) SGet by (auto split: prod.splits)
  from get_frame [OF assms(1) g(1)] have "inv w'" "view w' = view w" by auto
  with SGet g assms(2) get_live [OF assms(1)] show ?thesis
    by (cases r) (force simp: holds_one_of_def)+
next
  case (SCreate j v)
  obtain r where c: "ks_Create ks j v w = (r, w')" "a = SDone r" using assms(3) SCreate by (auto split: prod.splits)
  show ?thesis
  proof (cases r)
    case None
    with create_None [OF assms(1)] c SCreate assms(2) show ?thesis by (fastforce simp: holds_one_of_def)
  next
    case (Some e)
    note c' = c(1) [unfolded Some]
    have p: "view w' j = view w j \<and> is_pending (view w j)" if "errors_Is e ErrPendingDeletion"
    proof -
      note q = create_pending [OF assms(1) c' that]
      then have "view w j \<noteq> Absent" by auto
      with create_occupied [OF assms(1) this c'] q show ?thesis by simp
    qed
    from create_Some [OF assms(1) c'] Some c(2) SCreate assms(2) p show ?thesis
      by (cases "j = i"; cases "errors_Is e ErrPendingDeletion") (auto simp: holds_one_of_def)
  qed
next
  case (SUpdate j v)
  obtain r where c: "ks_Update ks j v w = (r, w')" "a = SDone r" using assms(3) SUpdate by (auto split: prod.splits)
  show ?thesis
  proof (cases r)
    case None
    with update_None [OF assms(1)] c SUpdate assms(2) show ?thesis by (fastforce simp: holds_one_of_def)
  next
    case (Some e)
    from update_Some [OF assms(1) c(1) [unfolded Some]]
    have u: "inv w'" "view w' = view w \<or> is_live (view w j) \<and> (\<exists>t. view w' = (view w)(j := Live v t))" by auto
    have "P \<noteq> {}" if "is_live (view w i)" using that assms(2) by (cases "view w i") (auto simp: holds_one_of_def)
    with u Some c(2) SUpdate assms(2) show ?thesis
      by (cases "j = i") (auto simp: holds_one_of_def)
  qed
next
  case (SDelete j)
  obtain r where c: "ks_Delete ks j w = (r, w')" "a = SDone r" using assms(3) SDelete by (auto split: prod.splits)
  show ?thesis
  proof (cases r)
    case None
    with delete_None [OF assms(1)] c SDelete assms(2) show ?thesis by (fastforce simp: holds_one_of_def)
  next
    case (Some e)
    from delete_Some [OF assms(1) c(1) [unfolded Some]]
    have "inv w'" "view w' = view w \<or> (\<exists>x. \<not> is_live x \<and> view w' = (view w)(j := x))" by auto
    with Some c(2) SDelete assms(2) show ?thesis by (auto simp: holds_one_of_def split: if_splits)
  qed
qed

lemma store_run_holds:
  assumes "inv w" and "holds_one_of view i P w" and "store_run ks ops w = (h, w')"
  shows "inv w' \<and> holds_one_of view i (foldl (could_hold i) P h) w'"
  using assms
proof (induction ops arbitrary: w P h)
  case (Cons op ops)
  obtain a w1 where s: "store_step ks op w = (a, w1)" by fastforce
  obtain h1 where r: "store_run ks ops w1 = (h1, w')" "h = (op, a) # h1"
    using Cons.prems(3) s by (cases "store_run ks ops w1") auto
  from store_step_holds [OF Cons.prems(1,2) s] Cons.IH [OF _ _ r(1)] r(2) show ?case by auto
qed simp

lemma store_history:
  assumes "inv w" and "store_run ks ops w = (h, w')" and "ks_Get ks i w' = (Inr (v, t), w'')"
  shows "v \<in> foldl (could_hold i) {u. \<exists>t. view w i = Live u t} h"
proof -
  have "holds_one_of view i {u. \<exists>t. view w i = Live u t} w" by (auto simp: holds_one_of_def)
  from store_run_holds [OF assms(1) this assms(2)] get_live [OF _ assms(3)] show ?thesis
    by (auto simp: holds_one_of_def)
qed

end

text \<open>The fake store, for any run of it.\<close>

lemma fake_store_history:
  assumes "fake_inv f" and "store_run fake_key_store ops f = (h, f')" and "fake_Get i f' = (Inr (v, t), f'')"
  shows "v \<in> foldl (could_hold i) {u. \<exists>t. fake_view f i = Live u t} h"
  by (rule fake.store_history [OF assms(1,2)]) (use assms(3) in \<open>simp add: fake_key_store_def\<close>)

end
