(* ===== verification/Secrets_Properties.thy ===== *)
theory Secrets_Properties
  imports KeyManager_Concurrent Store_History
begin

text \<open>
  What package secrets guarantees its consumers, over the two stores: the manager's cache in
  front of AWS Secrets Manager (for any client with the documented behaviour
  \<open>aws_contract\<close>) and the in-memory fake.  The laws come from the interface \<open>key_store\<close>, which
  both stores implement.
\<close>

subsection \<open>A client with the documented behaviour\<close>

text \<open>The answer to a write of the value \<open>lost\<close> never arrives, although the write is carried out.\<close>

definition sample_aws_client :: "(string \<Rightarrow> slot) aws_client" where
  "sample_aws_client =
     \<lparr>sm_GetSecretValue = (\<lambda>n w. (case w n of
          Live v t \<Rightarrow> Inr \<lparr>so_SecretString = Some v, so_CreatedDate = Some t\<rparr>
        | Pending v t \<Rightarrow> Inl (InvalidRequestException ''marked for deletion'' ''marked for deletion'')
        | Absent \<Rightarrow> Inl (ResourceNotFoundException ''not found''), w)),
      sm_CreateSecret = (\<lambda>inp w. (case w (ci_Name inp) of
          Absent \<Rightarrow> (None, w(ci_Name inp := Live (ci_SecretString inp) 1))
        | Live v t \<Rightarrow> (Some (Foreign ''exists''), w)
        | Pending v t \<Rightarrow> (Some (InvalidRequestException ''already scheduled for deletion'' ''pending''), w))),
      sm_PutSecretValue = (\<lambda>n v w. (case w n of
          Live v' t \<Rightarrow> (if v = ''lost'' then Some (Foreign ''timeout'') else None, w(n := Live v (t + 1))) | x \<Rightarrow> (Some (Foreign ''no such secret''), w))),
      sm_DeleteSecret = (\<lambda>n d w. (case w n of
          Live v t \<Rightarrow> (None, w(n := Pending v t))
        | Pending v t \<Rightarrow> (Some (InvalidRequestException ''already scheduled for deletion'' ''pending''), w)
        | Absent \<Rightarrow> (Some (ResourceNotFoundException ''not found''), w)))\<rparr>"

lemma sample_aws_errors [simp]:
  "isNotFound (ResourceNotFoundException t)" "\<not> isNotFound (InvalidRequestException m t)"
  "\<not> isPendingDeletion (Foreign t)" "\<not> isPendingDeletion (ResourceNotFoundException t)"
  by (simp_all add: isNotFound_def isPendingDeletion_def errors_As_def)

lemma sample_aws_contract: "aws_contract sample_aws_client (\<lambda>w. w)"
  unfolding aws_contract_def
proof (intro conjI allI impI)
  fix n w r w' assume "sm_GetSecretValue sample_aws_client n w = (r, w')"
  then show "w' = w" "case r of Inl e \<Rightarrow> True
      | Inr out \<Rightarrow> \<exists>v t. out = \<lparr>so_SecretString = Some v, so_CreatedDate = Some t\<rparr> \<and> w n = Live v t"
    by (auto simp: sample_aws_client_def split: slot.splits sum.splits)
next
  fix inp w r w' assume "sm_CreateSecret sample_aws_client inp w = (r, w')"
  then show "case r of None \<Rightarrow> w (ci_Name inp) = Absent \<and> (\<exists>t. w' = w(ci_Name inp := Live (ci_SecretString inp) t))
      | Some e \<Rightarrow> (w' = w \<or> w (ci_Name inp) = Absent \<and> (\<exists>t. w' = w(ci_Name inp := Live (ci_SecretString inp) t))) \<and>
          \<not> errors_Is e ErrPendingDeletion \<and> (isPendingDeletion e \<longrightarrow> is_pending (w' (ci_Name inp)))"
    by (auto simp: sample_aws_client_def errors_Is_iff split: slot.splits)
next
  fix n v w r w' assume "sm_PutSecretValue sample_aws_client n v w = (r, w')"
  then show "case r of None \<Rightarrow> is_live (w n) \<and> (\<exists>t. w' = w(n := Live v t)) 
      | Some e \<Rightarrow> w' = w \<or> is_live (w n) \<and> (\<exists>t. w' = w(n := Live v t))"
    by (auto simp: sample_aws_client_def split: slot.splits if_splits)
next
  fix n d w r w' assume "sm_DeleteSecret sample_aws_client n d w = (r, w')"
  then show "case r of None \<Rightarrow> \<exists>v t. w n = Live v t \<and> w' = w(n := Pending v t)
      | Some e \<Rightarrow> (w' = w \<or> (\<exists>v t. w n = Live v t \<and> w' = w(n := Pending v t))) \<and>
          (isNotFound e \<longrightarrow> w' n = Absent) \<and> (isPendingDeletion e \<longrightarrow> is_pending (w' n))"
    by (auto simp: sample_aws_client_def split: slot.splits)
qed

subsection \<open>Properties\<close>

definition sample_aws :: "(string \<Rightarrow> slot) awsKeyStore" where
  "sample_aws = \<lparr>aks_client = sample_aws_client, aks_kmsKeyId = [], aks_recoveryWindowDays = 30\<rparr>"

lemma sample_aws_law: "aws_contract (aks_client sample_aws) (\<lambda>w. w)"
  by (simp add: sample_aws_def sample_aws_contract)



text \<open>Whatever the configured grace period, the AWS store schedules deletions with a recovery
  window the service accepts at the top: the grace period, capped at 30 days; and no store is
  built without a region.\<close>

theorem recovery_window_bounds:
  assumes "aws_New load new region kms days s = (Inr b, s')"
  shows "aks_recoveryWindowDays b = min days 30 \<and> aks_recoveryWindowDays b \<le> 30 \<and>
    (7 \<le> days \<longrightarrow> 7 \<le> aks_recoveryWindowDays b) \<and> region \<noteq> [] \<and>
    (trace s' \<noteq> trace s \<longleftrightarrow> 30 < days)"
proof -
  from assms have "trace s' \<noteq> trace s \<longleftrightarrow> 30 < days"
    by (auto simp: aws_New_def Let_def maxRecoveryWindowDays_def split: if_splits sum.splits)
  with aws_New_window [OF assms] show ?thesis by (simp add: maxRecoveryWindowDays_def)
qed

lemma recovery_window_bounds_witness:
  "\<exists>b s'. aws_New (\<lambda>r. Inr r) (\<lambda>c. sample_aws_client) ''eu-central-1'' [] 90
      (\<lparr>world = (\<lambda>n. Absent), trace = []\<rparr>) = (Inr b, s') \<and> aks_recoveryWindowDays b = 30 \<and> trace s' \<noteq> []"
proof -
  obtain b s' where n: "aws_New (\<lambda>r. Inr r) (\<lambda>c. sample_aws_client) ''eu-central-1'' [] 90
      (\<lparr>world = (\<lambda>n. Absent), trace = []\<rparr>) = (Inr b, s')"
    by (simp add: aws_New_def Let_def)
  from recovery_window_bounds [OF n] n show ?thesis by simp
qed

text \<open>A process over that client: a clock, and a codec that round trips the one credential the
  witnesses store.\<close>

definition vault_creds :: credentials where
  "vault_creds = \<lparr>c_Username = ''platform'', c_PublicKey = ''cHVi'', c_PrivateKey = ''priv'', c_RotatedAt = 3\<rparr>"

definition vault_env :: "(string \<Rightarrow> slot) env" where
  "vault_env =
     \<lparr>env_now = (\<lambda>w. (10, w)), env_uuid = (\<lambda>w. ([], w)), env_rsaGenerate = (\<lambda>n w. (Inr 7, w)),
      env_marshalPKIX = (\<lambda>k. Inr ''pub''), env_marshalPKCS8 = (\<lambda>k. Inr ''priv''),
      env_parsePKCS8 = (\<lambda>b. Inr (Some 7)), env_pemEncode = (\<lambda>t b. b), env_pemDecode = Some,
      env_jsonMarshal = (\<lambda>c. Inr ''json''), env_jsonUnmarshal = (\<lambda>d. Inr (cred_json_of vault_creds)),
      env_timeText = show_int, env_durationText = show_int,
      env_exec = (\<lambda>d q args w. (None, w)),
      env_query = (\<lambda>d q args w. (Inr \<lparr>rows_columns = Inr [], rows_scan = [], rows_err = None\<rparr>, w)),
      env_openDB = (\<lambda>c w. (0, w)), env_ping = (\<lambda>d t w. (None, w)), env_closeDB = (\<lambda>d w. (None, w)),
      env_setLimits = (\<lambda>d a b t u w. w)\<rparr>"

definition vault_km :: "(string \<Rightarrow> slot) key_manager" where
  "vault_km = \<lparr>km_store = aws_key_store sample_aws, km_ttl = 100\<rparr>"

text \<open>An old value in the store, and in the cache until it expires.\<close>

definition vault_sys :: "(string \<Rightarrow> slot) km_sys" where
  "vault_sys =
     \<lparr>world = (\<lambda>n. Live ''old'' 1), trace = [],
      km_entries = (\<lambda>i. Some \<lparr>ce_value = ''old'', ce_modifiedAt = 1, ce_expires = 50\<rparr>)\<rparr>"

lemma vault_facts:
  "km_store vault_km = aws_key_store sample_aws" "clock_frame vault_env (ident_view (\<lambda>w. w)) (\<lambda>_. True)"
  "coherent (ident_view (\<lambda>w. w)) vault_sys" "json_roundtrips vault_env vault_creds"
  by (auto simp: vault_km_def clock_frame_def vault_env_def coherent_def vault_sys_def ident_view_def
      json_roundtrips_def)

text \<open>C28: A consumer that stored a credential through the manager reads back that credential, with
  the store's own time of writing, whatever was cached before: over AWS, for any state in which
  the cache holds nothing but what the store holds.  The time is the one the store holds with the
  document it was given.\<close>

theorem credentials_read_your_writes:
  assumes "aws_contract (aks_client b) sv" and "km_store km = aws_key_store b"
    and "clock_frame E (ident_view sv) (\<lambda>_. True)" and "coherent (ident_view sv) s"
    and "json_roundtrips E creds" and "UpdateCredentials E km i creds s = (None, s1)"
    and "GetCredentials E km i s1 = (Inr c, s2)"
  shows "\<exists>json t. marshalCredentials E creds = Inr json \<and> sv (world s1) (ident_value i) = Live json t \<and>
    c = creds\<lparr>c_RotatedAt := t\<rparr> \<and> coherent (ident_view sv) s2"
proof -
  note K = aws_key_store_contract [OF assms(1)]
  from assms(6) obtain v where v: "marshalCredentials E creds = Inr v" "km_update km i v s = (None, s1)"
    by (auto simp: UpdateCredentials_def split: sum.splits)
  from assms(7) obtain v' t where g: "km_get E km i s1 = (Inr (v', t), s2)" "unmarshalCredentials E v' t = Inr c"
    by (auto simp: GetCredentials_def split: sum.splits prod.splits)
  from key_store.km_update_coherent [OF K assms(2) TrueI assms(4) v(2)] obtain t'
    where u: "coherent (ident_view sv) s1" "ident_view sv (world s1) i = Live v t'" by auto
  from key_store.km_get_coherent [OF K assms(3,2) TrueI u(1) g(1)]
  have r: "coherent (ident_view sv) s2" "ident_view sv (world s1) i = Live v' t" by auto
  with u(2) have "v' = v" by simp
  have "c_Username c = c_Username creds \<and> c_PublicKey c = c_PublicKey creds \<and> c_PrivateKey c = c_PrivateKey creds \<and>
      c_RotatedAt c = t"
    using assms(5) v(1) g(2) \<open>v' = v\<close>
    by (auto simp: json_roundtrips_def marshalCredentials_def unmarshalCredentials_def cred_json_of_def
        split: sum.splits if_splits)
  then have "c = creds\<lparr>c_RotatedAt := t\<rparr>" by (cases c; cases creds) simp
  with v(1) r \<open>v' = v\<close> show ?thesis by (auto simp: ident_view_def)
qed

lemma credentials_read_your_writes_witness:
  "\<exists>s1 c s2. UpdateCredentials vault_env vault_km (Identifier ''yk-a'') vault_creds vault_sys = (None, s1) \<and>
     GetCredentials vault_env vault_km (Identifier ''yk-a'') s1 = (Inr c, s2) \<and>
     c = vault_creds\<lparr>c_RotatedAt := 2\<rparr>"
proof -
  have "\<exists>s1. UpdateCredentials vault_env vault_km (Identifier ''yk-a'') vault_creds vault_sys = (None, s1) \<and>
      world s1 ''yk-a'' = Live ''json'' 2 \<and> km_entries s1 (Identifier ''yk-a'') = None"
    by (simp add: UpdateCredentials_def marshalCredentials_def vault_env_def km_update_def vault_km_def
        aws_key_store_def aws_Update_def sample_aws_def sample_aws_client_def call_def vault_sys_def)
  then obtain s1 where u: "UpdateCredentials vault_env vault_km (Identifier ''yk-a'') vault_creds vault_sys = (None, s1)"
      "world s1 ''yk-a'' = Live ''json'' 2" "km_entries s1 (Identifier ''yk-a'') = None" by blast
  have "\<exists>c s2. GetCredentials vault_env vault_km (Identifier ''yk-a'') s1 = (Inr c, s2)"
    using u(2,3)
    by (simp add: GetCredentials_def km_get_def km_fetch_def vault_km_def aws_key_store_def aws_Get_def
        sample_aws_def sample_aws_client_def call_def now_def local_call_def vault_env_def
        unmarshalCredentials_def cred_json_of_def vault_creds_def)
  then obtain c s2 where g: "GetCredentials vault_env vault_km (Identifier ''yk-a'') s1 = (Inr c, s2)"
    by blast
  from credentials_read_your_writes [OF sample_aws_law vault_facts u(1) g] u(2) have "c = vault_creds\<lparr>c_RotatedAt := 2\<rparr>"
    by auto
  with g u(1) show ?thesis by blast
qed

text \<open>C29: After a successful delete through the manager nothing is served for the identifier any
  more, although an entry had been cached.\<close>

theorem no_credentials_after_delete:
  assumes "aws_contract (aks_client b) sv" and "km_store km = aws_key_store b"
    and "clock_frame E (ident_view sv) (\<lambda>_. True)" and "coherent (ident_view sv) s"
    and "DeleteCredentials km i s = (None, s1)"
  shows "\<exists>e. fst (GetCredentials E km i s1) = Inl e"
proof -
  obtain r s2 where g: "km_get E km i s1 = (r, s2)" by fastforce
  from key_store.no_read_after_delete [OF aws_key_store_contract [OF assms(1)] assms(3,2) TrueI assms(4,5) g]
  show ?thesis using g by (auto simp: GetCredentials_def split: sum.splits)
qed

lemma no_credentials_after_delete_witness:
  "\<exists>s1. DeleteCredentials vault_km (Identifier ''yk-a'') vault_sys = (None, s1) \<and>
     (\<exists>e. fst (GetCredentials vault_env vault_km (Identifier ''yk-a'') s1) = Inl e)"
proof -
  have "\<exists>s1. DeleteCredentials vault_km (Identifier ''yk-a'') vault_sys = (None, s1)"
    by (simp add: DeleteCredentials_def vault_km_def aws_key_store_def aws_Delete_def sample_aws_def
        sample_aws_client_def call_def vault_sys_def)
  then obtain s1 where d: "DeleteCredentials vault_km (Identifier ''yk-a'') vault_sys = (None, s1)" by blast
  from no_credentials_after_delete [OF sample_aws_law vault_facts(1-3) d] d show ?thesis by blast
qed

text \<open>C25: Concurrent use keeps the cache coherent: as long as no two operations on one identifier
  overlap and no write on it has failed, a read that completes at any point of any interleaving
  returns exactly what the store holds, over AWS and from any coherent start, failed writes on other
  identifiers included.  The exception is needed: \<open>lost_answer\<close> below is a failed update that was
  carried out and left the old value in the cache.\<close>

theorem concurrent_reads_fresh:
  assumes "aws_contract (aks_client b) sv" and "km_store km = aws_key_store b"
    and "clock_frame E (ident_view sv) (\<lambda>_. True)"
    and "kc_reachable E km (coherent (ident_view sv)) k"
    and "j < length (kc_ops k)" and "kc_ops k ! j = (OpGet i, pc)"
    and "pc = KBegin \<and> free_for i k \<or> in_flight pc" and "\<not> unanswered i k"
    and "kc_ops (kc_pick E km j k) ! j = (OpGet i, KDone (Got (Inr (v, t))))"
  shows "sv (world (kc_sys k)) (ident_value i) = Live v t"
proof -
  have "kc_inv (ident_view sv) k"
    using key_store.kc_reachable_inv [OF aws_key_store_contract [OF assms(1)] _ assms(3,2)] assms(4) by simp
  then have A: "\<And>i e. km_entries (kc_sys k) i = Some e \<Longrightarrow>
        sv (world (kc_sys k)) (ident_value i) = Live (ce_value e) (ce_modifiedAt e) \<or>
        (\<exists>op. (op, KInvalidate) \<in> set (kc_ops k) \<and> op_ident op = i) \<or> unanswered i k"
      and B: "\<And>op v t. (op, KRemember v t) \<in> set (kc_ops k) \<Longrightarrow>
        sv (world (kc_sys k)) (ident_value (op_ident op)) = Live v t"
    unfolding kc_inv_def ident_view_def by blast+
  have mem: "(OpGet i, pc) \<in> set (kc_ops k)" using assms(5,6) by (metis nth_mem)
  show ?thesis
  proof (cases pc)
    case KBegin
    with assms(5-7,9) obtain e where "km_entries (kc_sys k) i = Some e" "v = ce_value e" "t = ce_modifiedAt e"
      by (auto simp: kc_pick_def km_lookup_def split: prod.splits option.splits if_splits)
    moreover have "\<not> (op, KInvalidate) \<in> set (kc_ops k)" if "op_ident op = i" for op
      using KBegin assms(7) that by (fastforce simp: free_for_def list_all_iff)
    ultimately show ?thesis using A assms(8) by blast
  next
    case (KRemember v' t')
    with assms(5,6,9) B [of "OpGet i"] mem show ?thesis by (auto simp: kc_pick_def split: prod.splits)
  qed (use assms(5-7,9) in \<open>auto simp: kc_pick_def split: prod.splits sum.splits\<close>)
qed

definition vault_conc :: "km_op list \<Rightarrow> (string \<Rightarrow> slot) kconc" where
  "vault_conc ops = \<lparr>kc_sys = vault_sys\<lparr>km_entries := Map.empty\<rparr>, kc_ops = map (\<lambda>op. (op, KBegin)) ops\<rparr>"

lemma vault_conc_reachable: "kc_reachable vault_env vault_km (coherent (ident_view (\<lambda>w. w))) (vault_conc ops)"
proof (induction ops rule: rev_induct)
  case Nil
  then show ?case by (intro kc_init) (simp_all add: vault_conc_def coherent_def)
next
  case (snoc op ops)
  from kc_more [OF snoc kc_arrive [of vault_env vault_km _ op]] show ?case by (simp add: vault_conc_def)
qed

lemmas vault_step_simps = kc_pick_def vault_conc_def vault_sys_def vault_km_def vault_env_def
  aws_key_store_def aws_Get_def aws_Update_def sample_aws_def sample_aws_client_def call_def now_def
  local_call_def km_lookup_def km_remember_def km_begin_write_def Invalidate_def

lemma concurrent_reads_fresh_witness:
  "\<exists>k. kc_reachable vault_env vault_km (coherent (ident_view (\<lambda>w. w))) k \<and>
     kc_ops k ! 0 = (OpGet (Identifier ''yk-a''), KRemember ''old'' 1) \<and>
     world (kc_sys k) ''yk-a'' = Live ''old'' 1"
proof -
  let ?i = "Identifier ''yk-a''"
  let ?k = "kc_pick vault_env vault_km 0 (kc_pick vault_env vault_km 0 (vault_conc [OpGet ?i, OpUpdate ?i ''new'']))"
  have f: "free_for ?i (vault_conc [OpGet ?i, OpUpdate ?i ''new''])"
    by (simp add: free_for_def vault_conc_def)
  have p: "kc_ops (kc_pick vault_env vault_km 0 (vault_conc [OpGet ?i, OpUpdate ?i ''new''])) ! 0 = (OpGet ?i, KFetch)"
      "kc_ops ?k ! 0 = (OpGet ?i, KRemember ''old'' 1)" "0 < length (kc_ops ?k)"
      "kc_ops (kc_pick vault_env vault_km 0 ?k) ! 0 = (OpGet ?i, KDone (Got (Inr (''old'', 1))))"
    by (simp_all add: vault_step_simps)
  have un: "\<not> unanswered ?i ?k" by (simp add: unanswered_def vault_step_simps)
  have "kc_reachable vault_env vault_km (coherent (ident_view (\<lambda>w. w)))
      (kc_pick vault_env vault_km 0 (vault_conc [OpGet ?i, OpUpdate ?i ''new'']))"
    by (rule kc_more [OF vault_conc_reachable kc_start [where op = "OpGet ?i"]]) (use f in \<open>simp_all add: vault_conc_def\<close>)
  then have r: "kc_reachable vault_env vault_km (coherent (ident_view (\<lambda>w. w))) ?k"
    by (rule kc_more [OF _ kc_continue]) (simp_all add: p vault_step_simps)
  from concurrent_reads_fresh [OF sample_aws_law vault_facts(1,2) r p(3,2) _ un p(4)] r p(2)
  show ?thesis by auto
qed

text \<open>Without that discipline a read that fetched before an update puts the overwritten value back:
  the update has returned, the store holds the new value, and the cache serves the old one until
  it expires.\<close>

lemma stale_entry:
  "let k = kc_run vault_env vault_km [0, 0, 1, 1, 0]
         (vault_conc [OpGet (Identifier ''yk-a''), OpUpdate (Identifier ''yk-a'') ''new''])
   in snd (kc_ops k ! 1) = KDone (Wrote None) \<and> world (kc_sys k) ''yk-a'' = Live ''new'' 2 \<and>
      map_option ce_value (km_entries (kc_sys k) (Identifier ''yk-a'')) = Some ''old''"
  by (simp add: vault_step_simps)

text \<open>Nor without the other condition: an update whose answer is lost has changed the store, and the
  entry cached before it is served on, with no two operations overlapping.\<close>

lemma lost_answer:
  "let i = Identifier ''yk-a'';
       k = kc_run vault_env vault_km [0, 0, 0, 1, 2] (vault_conc [OpGet i, OpUpdate i ''lost'', OpGet i])
   in kc_ops k ! 1 = (OpUpdate i ''lost'',
        KDone (Wrote (Some (wrap ''failed to update secret at yk-a: '' (Foreign ''timeout''))))) \<and>
      kc_ops k ! 2 = (OpGet i, KDone (Got (Inr (''old'', 1)))) \<and> world (kc_sys k) ''yk-a'' = Live ''lost'' 2"
  by (simp add: vault_step_simps)

text \<open>In the fake store with scheduled deletion, as in AWS, a deleted name stays occupied: the
  delete succeeds, a create on it fails with the pending-deletion sentinel and changes nothing,
  deleting again succeeds and changes nothing, and Restore brings exactly the old value back.\<close>

theorem fake_deletion_lifecycle:
  assumes "fake_healthy f" and "fake_view f i = Live v t"
  shows "\<exists>f1 e f2 f3 f4. fake_Delete i f = (None, f1) \<and>
    fake_Create i v' f1 = (Some e, f2) \<and> errors_Is e ErrPendingDeletion \<and> fake_view f2 = fake_view f1 \<and>
    fake_Delete i f1 = (None, f3) \<and> fake_view f3 = fake_view f1 \<and>
    fake_Restore i f1 = (None, f4) \<and> fake_view f4 = fake_view f"
proof -
  obtain r f1 where d: "fake_Delete i f = (r, f1)" by fastforce
  obtain r2 f2 where c: "fake_Create i v' f1 = (r2, f2)" by fastforce
  obtain r3 f3 where d2: "fake_Delete i f1 = (r3, f3)" by fastforce
  have K: "ks_Delete fake_key_store i f = (r, f1)" "ks_Create fake_key_store i v' f1 = (r2, f2)"
      "ks_Delete fake_key_store i f1 = (r3, f3)"
    using d c d2 by (simp_all add: fake_key_store_def)
  from fakes.deleted_stays_occupied [OF assms(1) _ K(1,2)] assms(2)
  have a: "r = None" "\<exists>e. r2 = Some e \<and> errors_Is e ErrPendingDeletion" "fake_view f2 = fake_view f1" by simp_all
  from fakes.delete_idempotent [OF assms(1) K(1,3)] have b: "r3 = None" "fake_view f3 = fake_view f1" by auto
  from fake_Restore_Delete [OF assms] d obtain f4 where "fake_Restore i f1 = (None, f4)" "fake_view f4 = fake_view f"
    by auto
  with a b d c d2 show ?thesis by blast
qed

definition sample_fake :: fakeKeyStore where
  "sample_fake = (snd (fake_Create (Identifier ''a'') ''x'' (NewFakeKeyStore int)))\<lparr>fk_SchedulesDeletion := True\<rparr>"

lemma fake_deletion_lifecycle_witness:
  "\<exists>f1 e f2. fake_Delete (Identifier ''a'') sample_fake = (None, f1) \<and>
     fake_Create (Identifier ''a'') ''y'' f1 = (Some e, f2) \<and> errors_Is e ErrPendingDeletion"
proof -
  have "fake_healthy sample_fake" "fake_view sample_fake (Identifier ''a'') = Live ''x'' 0"
    by (simp_all add: sample_fake_def fake_Create_def NewFakeKeyStore_def hook_error_def fk_store_def
        fake_healthy_def fake_view_def)
  from fake_deletion_lifecycle [OF this] show ?thesis by blast
qed

end
