(* ===== verification/Pool_Properties.thy ===== *)
theory Pool_Properties
  imports Sample_World
begin

text \<open>
  The properties of the connection pool: no connection is ever lost, a call returns a
  connection that matches what was asked for, a failure changes nothing, and rotation only ever
  overwrites the key slot that is not in use.
\<close>

subsection \<open>Rotation\<close>

lemma choose_slot_Inr:
  "choose_slot u fp rs = Inr slot \<longleftrightarrow>
     (\<exists>cols fp1 fp2. rows_columns rs = Inr cols \<and> scan_fingerprints (rows_scan rs) [] [] = Inr (fp1, fp2) \<and>
        rows_err rs = None \<and>
        (if fp1 = fp then slot = rsaPublicKey2Slot else fp2 = fp \<and> slot = rsaPublicKeySlot))"
  by (auto simp: choose_slot_def split: sum.splits option.splits if_splits)

lemma targetSlot_trace:
  fixes s :: "('w, 'z) pool_sys_scheme"
  assumes "targetSlot E d u fp s = (r, s')"
  shows "trace s' = trace s @ [QuerySQL d (desc_user_sql u) []] \<and>
    (\<exists>r0. env_query E d (desc_user_sql u) [] (world s) = (r0, world s') \<and>
      r = (case r0 of Inl e \<Rightarrow> Inl e | Inr rs \<Rightarrow> choose_slot u fp rs))"
  using assms
  by (auto simp: targetSlot_def db_executor_def dest!: call_frame split: prod.splits sum.splits)

lemma UpdateCredentials_trace:
  fixes s :: "('w, 'z) pool_sys_scheme"
  assumes "UpdateCredentials E km i c s = (r, s')"
  shows "(r \<noteq> None \<and> trace s' = trace s) \<or> (\<exists>v. trace s' = trace s @ [UpdateSecret i v])"
  using assms
  by (auto simp: UpdateCredentials_def dest: km_update_frame split: sum.splits)

lemma exec_trace:
  "ex_ExecContext (db_executor E d) q args s = (r, s') \<Longrightarrow> trace s' = trace s @ [ExecSQL d q args]"
  by (auto simp: db_executor_def dest: call_frame)

text \<open>The three shapes of a rotation's trace: it stops after the slot query, after the push, or
  after the store.\<close>

lemma rotateCredential_trace:
  fixes s :: "('w, 'z) pool_sys_scheme"
  assumes "rotateCredential E p d idt u key s = (r, s')"
  shows "(r \<noteq> None \<and> trace s' = trace s @ [QuerySQL d (desc_user_sql u) []]) \<or>
    (\<exists>slot pub rs w. env_query E d (desc_user_sql u) [] (world s) = (Inr rs, w) \<and>
       choose_slot u (publicKeyFingerprint E key) rs = Inr slot \<and>
       (r \<noteq> None \<and> trace s' = trace s @ [QuerySQL d (desc_user_sql u) [], ExecSQL d (alter_user_sql u slot pub) []] \<or>
        (\<exists>v. trace s' = trace s @ [QuerySQL d (desc_user_sql u) [], ExecSQL d (alter_user_sql u slot pub) [],
               UpdateSecret idt v])))"
proof -
  obtain ts s1 where t: "targetSlot E d u (publicKeyFingerprint E key) s = (ts, s1)" by fastforce
  note t' = targetSlot_trace [OF t]
  show ?thesis
  proof (cases ts)
    case (Inl e)
    with assms t t' show ?thesis by (auto simp: rotateCredential_def)
  next
    case (Inr slot)
    with t' obtain rs where rs: "env_query E d (desc_user_sql u) [] (world s) = (Inr rs, world s1)"
        "choose_slot u (publicKeyFingerprint E key) rs = Inr slot"
      by (metis sum.simps(5,6) sum.exhaust sum.distinct(1))
    obtain nc s2 where n: "NewCredentials E u s1 = (nc, s2)" by fastforce
    note n' = NewCredentials_frame [OF n]
    show ?thesis
    proof (cases nc)
      case (Inl e)
      with assms t n t' n' \<open>ts = Inr slot\<close> show ?thesis by (auto simp: rotateCredential_def)
    next
      case (Inr fresh)
      let ?pub = "c_PublicKey fresh"
      obtain x s3 where x: "ex_ExecContext (db_executor E d) (alter_user_sql u slot ?pub) [] s2 = (x, s3)"
        by fastforce
      have t3: "trace s3 = trace s @ [QuerySQL d (desc_user_sql u) [],
          ExecSQL d (alter_user_sql u slot ?pub) []]"
        using exec_trace [OF x] n' t' by simp
      show ?thesis
      proof (cases x)
        case (Some e)
        with assms t n x t3 rs \<open>ts = Inr slot\<close> \<open>nc = Inr fresh\<close> show ?thesis
          by (auto simp: rotateCredential_def)
      next
        case None
        obtain y s4 where y: "UpdateCredentials E (pl_keyManager p) idt fresh s3 = (y, s4)" by fastforce
        from assms t n x y None \<open>ts = Inr slot\<close> \<open>nc = Inr fresh\<close>
        have "s' = s4" and "r \<noteq> None \<longleftrightarrow> y \<noteq> None"
          by (auto simp: rotateCredential_def split: option.splits)
        with UpdateCredentials_trace [OF y] t3 rs show ?thesis by fastforce
      qed
    qed
  qed
qed

subsection \<open>Properties\<close>

text \<open>In every state the pool can reach, by its own calls in any order and with the rest
  of the program running between them, every connection it ever opened is either cached or
  closed, exactly once, and the cache holds one connection for each target.\<close>

theorem pool_no_leak:
  assumes "pl_dial p = defaultDial E" and "pool_reachable E p s"
  shows "mset (opened (trace s)) = mset (closed (trace s)) + mset (cached_dbs s) \<and>
    distinct (map fst (ps_entries s))"
  using pool_reachable_inv [OF assms(2,1)] by (simp add: pool_inv_def)

lemma sample_reachable: "pool_reachable sample_env sample_pool sample_sys"
  by (rule reach_init) (simp add: pool_initial_def sample_sys_def)

lemma pool_no_leak_witness:
  "\<exists>s. pool_reachable sample_env sample_pool s \<and> ps_entries s \<noteq> [] \<and>
     mset (opened (trace s)) = mset (closed (trace s)) + mset (cached_dbs s)"
proof -
  obtain s' where t: "TenantDB sample_env sample_pool ''ns'' ''acct'' ''xy12345''
      ''aws-eu-central-1'' sample_sys = (Inr 0, s')"
    using sample_TenantDB by blast
  with sample_reachable have r: "pool_reachable sample_env sample_pool s'"
    by (blast intro: reach_step step_tenant)
  from pool_no_leak [OF sample_dial r]
  have m: "mset (opened (trace s')) = mset (closed (trace s')) + mset (cached_dbs s')" by blast
  from t have "ps_entries s' \<noteq> []"
    by (auto simp: TenantDB_def Let_def sample_sys_def cachedTenant_def update_conv'
        dest!: keyLock_frame dialTenant_Inr [OF sample_dial]
        simp: quiet_entries [OF maybeRotateLocked_quiet] split: sum.splits prod.splits option.splits)
  with r m show ?thesis by blast
qed

text \<open>Close leaves nothing behind: the cache is empty and every connection the pool ever
  opened has been closed, whichever of the closes failed.\<close>

theorem pool_Close_closes_all:
  assumes "pl_dial p = defaultDial E" and "pool_reachable E p s" and "pool_Close E s = (r, s')"
  shows "cached_dbs s' = [] \<and> mset (opened (trace s')) = mset (closed (trace s'))"
  using pool_Close_all [OF assms(3) pool_reachable_inv [OF assms(2,1)]] by simp

lemma pool_Close_closes_all_witness:
  "\<exists>r s'. pool_Close sample_env sample_sys = (r, s') \<and> cached_dbs s' = []"
proof -
  obtain r s' where c: "pool_Close sample_env sample_sys = (r, s')" by fastforce
  from pool_Close_closes_all [OF sample_dial sample_reachable c] c show ?thesis by blast
qed

text \<open>C26: A successful TenantDB returns a connection that is now cached for exactly the
  requested target, locator and region; no other target's entry changed; a cached match opens
  and closes nothing, and otherwise one connection is opened and the stale one, if any, closed.\<close>

theorem TenantDB_success:
  assumes "pl_dial p = defaultDial E"
    and "TenantDB E p namespace accountName locator region s = (Inr d, s')"
  shows "let key = \<lparr>tk_namespace = namespace, tk_accountName = accountName\<rparr> in
    entry_for key s' = Some \<lparr>te_db = d, te_locator = locator, te_region = region\<rparr> \<and>
    (\<forall>k. k = key \<or> entry_for k s' = entry_for k s) \<and>
    (case cachedTenant key locator region s of
       Some d' \<Rightarrow> d = d' \<and> fresh_effects s s' [] []
     | None \<Rightarrow> fresh_effects s s' [d]
         (case entry_for key s of None \<Rightarrow> [] | Some stale \<Rightarrow> [te_db stale]))"
proof -
  let ?k = "\<lparr>tk_namespace = namespace, tk_accountName = accountName\<rparr>"
  from assms(2) obtain idt where i: "NewTenantIdentifier (sf_Org (cfg_Snowflake (pl_cfg p))) namespace
      accountName = Inr idt"
    by (auto simp: TenantDB_def Let_def split: sum.splits)
  obtain l s1 where k: "keyLock ?k s = (l, s1)" by fastforce
  note kq = keyLock_quietly [OF k]
  show ?thesis
  proof (cases "cachedTenant ?k locator region s")
    case (Some d')
    with assms(2) i k kq have s': "s' = maybeRotateLocked E p d idt s1" "d = d'"
      by (auto simp: TenantDB_def Let_def)
    have q: "quiet s1 s'" unfolding s'(1) by (rule maybeRotateLocked_quiet)
    with fresh_effects_trans [OF _ fresh_effects_quiet [OF q]] kq have "fresh_effects s s' [] []"
      by fastforce
    moreover from Some have "entry_for ?k s = Some \<lparr>te_db = d', te_locator = locator, te_region = region\<rparr>"
      by (auto simp: cachedTenant_def entry_for_def split: option.splits if_splits)
    ultimately show ?thesis
      using Some s'(2) kq quiet_entries [OF q] by (simp add: entry_for_def)
  next
    case None
    from assms(2) i k kq None obtain s2 where d: "dialTenant E p ?k locator region idt s1 = (Inr d, s2)"
        and s': "s' = maybeRotateLocked E p d idt s2"
      by (auto simp: TenantDB_def Let_def split: sum.splits prod.splits)
    note dt = dialTenant_Inr [OF assms(1) d]
    have q: "quiet s2 s'" unfolding s' by (rule maybeRotateLocked_quiet)
    from dt kq have f: "fresh_effects s1 s2 [d]
        (case entry_for ?k s of None \<Rightarrow> [] | Some stale \<Rightarrow> [te_db stale])"
      by (simp add: entry_for_def)
    with fresh_effects_trans [OF _ fresh_effects_trans [OF f fresh_effects_quiet [OF q]]] kq
    have "fresh_effects s s' [d] (case entry_for ?k s of None \<Rightarrow> [] | Some stale \<Rightarrow> [te_db stale])"
      by fastforce
    with dt kq quiet_entries [OF q] None show ?thesis
      by (simp add: entry_for_def update_conv')
  qed
qed

lemma TenantDB_success_witness:
  "\<exists>s'. TenantDB sample_env sample_pool ''ns'' ''acct'' ''xy12345'' ''aws-eu-central-1'' sample_sys =
      (Inr 0, s') \<and>
    entry_for \<lparr>tk_namespace = ''ns'', tk_accountName = ''acct''\<rparr> s' =
      Some \<lparr>te_db = 0, te_locator = ''xy12345'', te_region = ''aws-eu-central-1''\<rparr>"
proof -
  obtain s' where t: "TenantDB sample_env sample_pool ''ns'' ''acct'' ''xy12345''
      ''aws-eu-central-1'' sample_sys = (Inr 0, s')"
    using sample_TenantDB by blast
  with TenantDB_success [OF sample_dial t] show ?thesis by (auto simp: Let_def)
qed

text \<open>A TenantDB that fails leaves the cache exactly as it was, and no connection open.\<close>

theorem TenantDB_failure:
  assumes "pl_dial p = defaultDial E"
    and "TenantDB E p namespace accountName locator region s = (Inl e, s')"
  shows "ps_entries s' = ps_entries s \<and> ps_orgAdminDB s' = ps_orgAdminDB s \<and>
    (fresh_effects s s' [] [] \<or> (\<exists>d. fresh_effects s s' [d] [d]))"
proof (cases "NewTenantIdentifier (sf_Org (cfg_Snowflake (pl_cfg p))) namespace accountName")
  case (Inl e')
  with assms(2) show ?thesis by (simp add: TenantDB_def Let_def fresh_effects_def)
next
  case (Inr idt)
  let ?k = "\<lparr>tk_namespace = namespace, tk_accountName = accountName\<rparr>"
  obtain l s1 where k: "keyLock ?k s = (l, s1)" by fastforce
  note kq = keyLock_quietly [OF k]
  from assms(2) Inr k have d: "dialTenant E p ?k locator region idt s1 = (Inl e, s')"
    by (auto simp: TenantDB_def Let_def split: sum.splits prod.splits option.splits)
  from dialTenant_Inl [OF assms(1) d] kq fresh_effects_trans [of s s1 "[]" "[]" s']
  show ?thesis by fastforce
qed

lemma TenantDB_failure_witness:
  "\<exists>e s'. TenantDB sample_env sample_pool ''ns'' ''acct'' ''xy12345'' ''mars'' sample_sys = (Inl e, s') \<and>
     ps_entries s' = []"
proof -
  obtain e where h: "Hostname ''xy12345'' ''mars'' True = Inl e"
    by (simp add: Hostname_def regionSegment_def)
  obtain l s1 where k: "keyLock \<lparr>tk_namespace = ''ns'', tk_accountName = ''acct''\<rparr> sample_sys = (l, s1)"
    by fastforce
  have "cachedTenant \<lparr>tk_namespace = ''ns'', tk_accountName = ''acct''\<rparr> ''xy12345'' ''mars'' s1 = None"
    using keyLock_frame [OF k] by (simp add: cachedTenant_def sample_sys_def)
  with h k sample_identifier
  have t: "TenantDB sample_env sample_pool ''ns'' ''acct'' ''xy12345'' ''mars'' sample_sys = (Inl e, s1)"
    by (simp add: TenantDB_def dialTenant_def openTenant_def sample_cfg_def)
  from TenantDB_failure [OF sample_dial t] t show ?thesis by (auto simp: sample_sys_def)
qed

text \<open>A rotation writes the secret store only after Snowflake accepted the new key, and
  the slot it overwrote is not the only one holding the key in use: the fingerprint of the
  other slot is that of the current key.\<close>

theorem rotation_order:
  fixes s :: "('w, 'z) pool_sys_scheme"
  assumes "rotateCredential E p d idt username currentKey s = (None, s')"
  shows "\<exists>rs w fp1 fp2 slot pub v.
    env_query E d (desc_user_sql username) [] (world s) = (Inr rs, w) \<and>
    scan_fingerprints (rows_scan rs) [] [] = Inr (fp1, fp2) \<and>
    (slot = rsaPublicKey2Slot \<and> fp1 = publicKeyFingerprint E currentKey \<or>
     slot = rsaPublicKeySlot \<and> fp2 = publicKeyFingerprint E currentKey) \<and>
    trace s' = trace s @ [QuerySQL d (desc_user_sql username) [],
      ExecSQL d (alter_user_sql username slot pub) [], UpdateSecret idt v]"
  using rotateCredential_trace [OF assms] unfolding choose_slot_Inr
  by (auto split: if_splits) (blast+)?

lemma rotation_order_witness:
  "\<exists>s' v. rotateCredential sample_env sample_pool 0 sample_ident ''platform'' 7 sample_sys = (None, s') \<and>
     trace s' = [QuerySQL 0 (desc_user_sql ''platform'') [],
       ExecSQL 0 (alter_user_sql ''platform'' rsaPublicKey2Slot ''cHVi'') [], UpdateSecret sample_ident v]"
proof -
  have fp: "publicKeyFingerprint sample_env 7 = ''SHA256:'' @ base64_std (sum256 ''pub'')"
    by (simp add: publicKeyFingerprint_def sample_env_def)
  have q: "sample_query 0 (desc_user_sql ''platform'') [] w =
      (Inr (sample_rows [''property'', ''value'']
        [[SqlString ''RSA_PUBLIC_KEY_FP'', SqlString (''SHA256:'' @ base64_std (sum256 ''pub''))],
         [SqlString ''RSA_PUBLIC_KEY_2_FP'', SqlNull]]), w)" for w
    by (simp add: sample_query_def desc_user_sql_def has_prefix_def)
  have t: "targetSlot sample_env 0 ''platform'' (publicKeyFingerprint sample_env 7) sample_sys =
      (Inr rsaPublicKey2Slot, emit (QuerySQL 0 (desc_user_sql ''platform'') []) sample_sys)"
    unfolding fp
    by (simp add: targetSlot_def db_executor_def call_def sample_env_def q choose_slot_def
        sample_rows_def emit_def)
  have b64: "base64_std ''pub'' = ''cHVi''" by code_simp
  obtain s' where r: "rotateCredential sample_env sample_pool 0 sample_ident ''platform'' 7 sample_sys =
      (None, s')"
    unfolding rotateCredential_def t
    by (simp add: NewCredentials_def GenerateKeyPair_def now_def local_call_def sample_env_def
        db_executor_def call_def UpdateCredentials_def marshalCredentials_def km_update_def
        sample_km_def sample_store_def Let_def)
  from rotation_order [OF r] obtain slot pub v rs w fp1 fp2
    where "env_query sample_env 0 (desc_user_sql ''platform'') [] (world sample_sys) = (Inr rs, w)"
      and "scan_fingerprints (rows_scan rs) [] [] = Inr (fp1, fp2)"
      and "slot = rsaPublicKey2Slot \<and> fp1 = publicKeyFingerprint sample_env 7 \<or>
        slot = rsaPublicKeySlot \<and> fp2 = publicKeyFingerprint sample_env 7"
      and tr: "trace s' = trace sample_sys @ [QuerySQL 0 (desc_user_sql ''platform'') [],
        ExecSQL 0 (alter_user_sql ''platform'' slot pub) [], UpdateSecret sample_ident v]"
    by blast
  then have "slot = rsaPublicKey2Slot"
    by (auto simp: sample_env_def q sample_rows_def publicKeyFingerprint_def)
  moreover have "trace s' = [QuerySQL 0 (desc_user_sql ''platform'') [],
      ExecSQL 0 (alter_user_sql ''platform'' rsaPublicKey2Slot ''cHVi'') [], UpdateSecret sample_ident ''json'']"
    using r unfolding rotateCredential_def t
    by (auto simp: NewCredentials_def GenerateKeyPair_def now_def local_call_def sample_env_def
        db_executor_def call_def UpdateCredentials_def marshalCredentials_def km_update_def
        sample_km_def sample_store_def Let_def b64 emit_def sample_sys_def)
  ultimately show ?thesis using r by blast
qed


end
