(* ===== verification/Pool_Concurrent.thy ===== *)
theory Pool_Concurrent
  imports Pool
begin

text \<open>
  The pool's locks.  \<open>Pool\<close> models each method as one step; here the methods of \<open>pool.go\<close> run as
  goroutines that interleave between their lock operations.  A configuration is the pool's
  state, the holder of each mutex and one program counter per call.  What a goroutine does
  between two lock operations is one step, built from the sequential model's own functions:
  \<open>keyLock\<close> runs under \<open>locksMu\<close>, a reader or writer of the map under \<open>entriesMu\<close>, and the
  stretches in between touch no shared field of the pool.  \<open>OrgAdminDB\<close> holds \<open>orgAdminMu\<close> from
  its first line to its last.

  The lemmas show that the mutexes do what the comments say: at most one goroutine works on a
  target at a time, so no target is dialed or rotated twice at once and no connection is lost
  in any interleaving; a goroutine waits only for one that works on the same target; no set of
  calls can deadlock, and every schedule finishes.
\<close>

subsection \<open>Calls and program counters\<close>

record tenant_call =
  tc_namespace :: string
  tc_accountName :: string
  tc_locator :: string
  tc_region :: string

datatype pool_call =
    TenantCall tenant_call
  | EvictCall string string
  | OrgAdminCall
  | CloseCall

datatype pool_result =
    ResultDB "db result"
  | ResultEvicted
  | ResultClosed "gerror option"

datatype pc =
    Begin pool_call
  | TenantWait tenant_call ident nat           \<comment> \<open>at lock.Lock()\<close>
  | TenantLocked tenant_call ident nat
  | TenantMiss tenant_call ident nat           \<comment> \<open>not cached: about to dial\<close>
  | TenantDialed tenant_call ident nat db      \<comment> \<open>at entriesMu.Lock()\<close>
  | TenantStale tenant_call ident nat db db    \<comment> \<open>about to close the entry it replaced\<close>
  | TenantRotate tenant_call ident nat db
  | TenantUnlock tenant_call nat "db result"   \<comment> \<open>the deferred lock.Unlock()\<close>
  | EvictWait tenantKey nat
  | EvictLocked tenantKey nat
  | EvictStale tenantKey nat db
  | EvictUnlock tenantKey nat
  | OrgWait
  | OrgLocked
  | OrgUnlock "db result"
  | CloseWait
  | CloseOrg
  | CloseOrgUnlock "gerror list"
  | CloseTenants "gerror list"
  | Returned pool_result

definition call_key :: "tenant_call \<Rightarrow> tenantKey" where
  "call_key c = \<lparr>tk_namespace = tc_namespace c, tk_accountName = tc_accountName c\<rparr>"

record 'w conc =
  cc_sys :: "'w pool_sys"
  cc_keyOwner :: "nat \<Rightarrow> nat option"   \<comment> \<open>which call holds each key's mutex\<close>
  cc_orgOwner :: "nat option"           \<comment> \<open>which call holds orgAdminMu\<close>
  cc_calls :: "pc list"

subsection \<open>One step of one call\<close>

text \<open>The map's critical sections: TenantDB's and EvictTenant's between \<open>entriesMu.Lock\<close> and
  \<open>Unlock\<close>, each returning the entry it displaced.\<close>

definition swapEntry ::
  "tenantKey \<Rightarrow> tenantEntry \<Rightarrow> ('w, 'z) pool_sys_scheme \<Rightarrow> tenantEntry option \<times> ('w, 'z) pool_sys_scheme" where
  "swapEntry key entry s =
     (map_of (ps_entries s) key, s\<lparr>ps_entries := AList.update key entry (ps_entries s)\<rparr>)"

definition removeEntry ::
  "tenantKey \<Rightarrow> ('w, 'z) pool_sys_scheme \<Rightarrow> tenantEntry option \<times> ('w, 'z) pool_sys_scheme" where
  "removeEntry key s =
     (map_of (ps_entries s) key, s\<lparr>ps_entries := AList.delete key (ps_entries s)\<rparr>)"

text \<open>Close's two halves.\<close>

definition closeTenants ::
  "'w env \<Rightarrow> gerror list \<Rightarrow> ('w, 'z) pool_sys_scheme \<Rightarrow> gerror option \<times> ('w, 'z) pool_sys_scheme" where
  "closeTenants E errs s =
     (case closeEntries E (ps_entries s) s of
        (errs2, s1) \<Rightarrow> (join_errors (errs @ errs2), s1\<lparr>ps_entries := []\<rparr>))"

fun begin_call ::
  "('w, 'w pool_sys) pool \<Rightarrow> pool_call \<Rightarrow> 'w pool_sys \<Rightarrow> pc \<times> 'w pool_sys" where
  "begin_call p (TenantCall c) s =
     (case NewTenantIdentifier (sf_Org (cfg_Snowflake (pl_cfg p))) (tc_namespace c) (tc_accountName c) of
        Inl err \<Rightarrow> (Returned (ResultDB (Inl err)), s)
      | Inr idt \<Rightarrow> (case keyLock (call_key c) s of (l, s1) \<Rightarrow> (TenantWait c idt l, s1)))"
| "begin_call p (EvictCall ns acct) s =
     (let key = \<lparr>tk_namespace = ns, tk_accountName = acct\<rparr>
      in case keyLock key s of (l, s1) \<Rightarrow> (EvictWait key l, s1))"
| "begin_call p OrgAdminCall s = (OrgWait, s)"
| "begin_call p CloseCall s = (CloseWait, s)"

text \<open>A step that is neither a Lock nor an Unlock: the next counter and the pool's state.\<close>

fun work_step ::
  "'w env \<Rightarrow> ('w, 'w pool_sys) pool \<Rightarrow> pc \<Rightarrow> 'w pool_sys \<Rightarrow> pc \<times> 'w pool_sys" where
  "work_step E p (Begin c) s = begin_call p c s"
| "work_step E p (TenantLocked c idt l) s =
     (case cachedTenant (call_key c) (tc_locator c) (tc_region c) s of
        Some db \<Rightarrow> (TenantRotate c idt l db, s)
      | None \<Rightarrow> (TenantMiss c idt l, s))"
| "work_step E p (TenantMiss c idt l) s =
     (case openTenant E p (call_key c) (tc_locator c) (tc_region c) idt s of
        (Inl err, s1) \<Rightarrow> (TenantUnlock c l (Inl err), s1)
      | (Inr db, s1) \<Rightarrow> (TenantDialed c idt l db, s1))"
| "work_step E p (TenantDialed c idt l db) s =
     (case swapEntry (call_key c)
             \<lparr>te_db = db, te_locator = tc_locator c, te_region = tc_region c\<rparr> s of
        (None, s1) \<Rightarrow> (TenantRotate c idt l db, s1)
      | (Some stale, s1) \<Rightarrow> (TenantStale c idt l db (te_db stale), s1))"
| "work_step E p (TenantStale c idt l db stale) s =
     (case close_db E stale s of (_, s1) \<Rightarrow> (TenantRotate c idt l db, s1))"
| "work_step E p (TenantRotate c idt l db) s =
     (TenantUnlock c l (Inr db), maybeRotateLocked E p db idt s)"
| "work_step E p (EvictLocked key l) s =
     (case removeEntry key s of
        (None, s1) \<Rightarrow> (EvictUnlock key l, s1)
      | (Some stale, s1) \<Rightarrow> (EvictStale key l (te_db stale), s1))"
| "work_step E p (EvictStale key l stale) s =
     (case close_db E stale s of (_, s1) \<Rightarrow> (EvictUnlock key l, s1))"
| "work_step E p OrgLocked s =
     (case OrgAdminDB E p s of (r, s1) \<Rightarrow> (OrgUnlock r, s1))"
| "work_step E p CloseOrg s =
     (case closeOrgAdmin E s of (errs, s1) \<Rightarrow> (CloseOrgUnlock errs, s1))"
| "work_step E p (CloseTenants errs) s =
     (case closeTenants E errs s of (r, s1) \<Rightarrow> (Returned (ResultClosed r), s1))"
| "work_step E p pc s = (pc, s)"

text \<open>A step of call \<open>i\<close> at counter \<open>pc\<close>: \<open>None\<close> where it has returned or waits for a mutex
  somebody holds.\<close>

fun conc_step ::
  "'w env \<Rightarrow> ('w, 'w pool_sys) pool \<Rightarrow> nat \<Rightarrow> pc \<Rightarrow> 'w conc \<Rightarrow> (pc \<times> 'w conc) option" where
  "conc_step E p i (TenantWait c idt l) k =
     (if cc_keyOwner k l = None
      then Some (TenantLocked c idt l, k\<lparr>cc_keyOwner := (cc_keyOwner k)(l \<mapsto> i)\<rparr>) else None)"
| "conc_step E p i (TenantUnlock c l r) k =
     Some (Returned (ResultDB r), k\<lparr>cc_keyOwner := (cc_keyOwner k)(l := None)\<rparr>)"
| "conc_step E p i (EvictWait key l) k =
     (if cc_keyOwner k l = None
      then Some (EvictLocked key l, k\<lparr>cc_keyOwner := (cc_keyOwner k)(l \<mapsto> i)\<rparr>) else None)"
| "conc_step E p i (EvictUnlock key l) k =
     Some (Returned ResultEvicted, k\<lparr>cc_keyOwner := (cc_keyOwner k)(l := None)\<rparr>)"
| "conc_step E p i OrgWait k =
     (if cc_orgOwner k = None then Some (OrgLocked, k\<lparr>cc_orgOwner := Some i\<rparr>) else None)"
| "conc_step E p i (OrgUnlock r) k = Some (Returned (ResultDB r), k\<lparr>cc_orgOwner := None\<rparr>)"
| "conc_step E p i CloseWait k =
     (if cc_orgOwner k = None then Some (CloseOrg, k\<lparr>cc_orgOwner := Some i\<rparr>) else None)"
| "conc_step E p i (CloseOrgUnlock errs) k = Some (CloseTenants errs, k\<lparr>cc_orgOwner := None\<rparr>)"
| "conc_step E p i (Returned r) k = None"
| "conc_step E p i pc k =
     (case work_step E p pc (cc_sys k) of (pc', s) \<Rightarrow> Some (pc', k\<lparr>cc_sys := s\<rparr>))"

text \<open>The scheduler picks a call; a schedule is the list of its picks.\<close>

definition conc_pick ::
  "'w env \<Rightarrow> ('w, 'w pool_sys) pool \<Rightarrow> nat \<Rightarrow> 'w conc \<Rightarrow> 'w conc option" where
  "conc_pick E p i k =
     (if i < length (cc_calls k) then
        (case conc_step E p i (cc_calls k ! i) k of
           None \<Rightarrow> None
         | Some (pc, k') \<Rightarrow> Some (k'\<lparr>cc_calls := (cc_calls k)[i := pc]\<rparr>))
      else None)"

fun conc_run ::
  "'w env \<Rightarrow> ('w, 'w pool_sys) pool \<Rightarrow> nat list \<Rightarrow> 'w conc \<Rightarrow> 'w conc option" where
  "conc_run E p [] k = Some k"
| "conc_run E p (i # is) k = (case conc_pick E p i k of None \<Rightarrow> None | Some k' \<Rightarrow> conc_run E p is k')"

text \<open>Calls arrive at any time, and the rest of the program runs between the steps.\<close>

inductive conc_next ::
  "'w env \<Rightarrow> ('w, 'w pool_sys) pool \<Rightarrow> 'w conc \<Rightarrow> 'w conc \<Rightarrow> bool" for E p where
  next_call: "conc_next E p k (k\<lparr>cc_calls := cc_calls k @ [Begin c]\<rparr>)"
| next_step: "conc_pick E p i k = Some k' \<Longrightarrow> conc_next E p k k'"
| next_other: "quiet (cc_sys k) s \<Longrightarrow> conc_next E p k (k\<lparr>cc_sys := s\<rparr>)"

definition conc_initial :: "'w conc \<Rightarrow> bool" where
  "conc_initial k \<longleftrightarrow> pool_initial (cc_sys k) \<and> cc_keyOwner k = (\<lambda>_. None) \<and>
     cc_orgOwner k = None \<and> cc_calls k = []"

inductive conc_reachable ::
  "'w env \<Rightarrow> ('w, 'w pool_sys) pool \<Rightarrow> 'w conc \<Rightarrow> bool" for E p where
  conc_init: "conc_initial k \<Longrightarrow> conc_reachable E p k"
| conc_more: "conc_reachable E p k \<Longrightarrow> conc_next E p k k' \<Longrightarrow> conc_reachable E p k'"

subsection \<open>Who holds what\<close>

fun key_held :: "pc \<Rightarrow> (tenantKey \<times> nat) option" where
  "key_held (TenantLocked c idt l) = Some (call_key c, l)"
| "key_held (TenantMiss c idt l) = Some (call_key c, l)"
| "key_held (TenantDialed c idt l db) = Some (call_key c, l)"
| "key_held (TenantStale c idt l db stale) = Some (call_key c, l)"
| "key_held (TenantRotate c idt l db) = Some (call_key c, l)"
| "key_held (TenantUnlock c l r) = Some (call_key c, l)"
| "key_held (EvictLocked key l) = Some (key, l)"
| "key_held (EvictStale key l stale) = Some (key, l)"
| "key_held (EvictUnlock key l) = Some (key, l)"
| "key_held _ = None"

fun key_waits :: "pc \<Rightarrow> (tenantKey \<times> nat) option" where
  "key_waits (TenantWait c idt l) = Some (call_key c, l)"
| "key_waits (EvictWait key l) = Some (key, l)"
| "key_waits _ = None"

fun org_held :: "pc \<Rightarrow> bool" where
  "org_held OrgLocked = True"
| "org_held (OrgUnlock r) = True"
| "org_held CloseOrg = True"
| "org_held (CloseOrgUnlock errs) = True"
| "org_held _ = False"

text \<open>Two calls inside the critical section of one target: the same tenant, or the org-admin
  connection.\<close>

definition same_target :: "pc \<Rightarrow> pc \<Rightarrow> bool" where
  "same_target a b \<longleftrightarrow> org_held a \<and> org_held b \<or>
     (case (key_held a, key_held b) of (Some (key, l), Some (key', l')) \<Rightarrow> key = key' | _ \<Rightarrow> False)"

fun org_waits :: "pc \<Rightarrow> bool" where
  "org_waits OrgWait = True"
| "org_waits CloseWait = True"
| "org_waits _ = False"

fun returned :: "pc \<Rightarrow> bool" where
  "returned (Returned r) = True"
| "returned _ = False"

text \<open>The connections a call holds that are in neither the cache nor the list of closed ones.\<close>

fun in_hand :: "pc \<Rightarrow> db multiset" where
  "in_hand (TenantDialed c idt l db) = {#db#}"
| "in_hand (TenantStale c idt l db stale) = {#stale#}"
| "in_hand (EvictStale key l stale) = {#stale#}"
| "in_hand _ = {#}"

definition all_in_hand :: "'w conc \<Rightarrow> db multiset" where
  "all_in_hand k = sum_list (map in_hand (cc_calls k))"

text \<open>The steps left to a call, at most.\<close>

fun steps_left :: "pc \<Rightarrow> nat" where
  "steps_left (Begin c) = 8"
| "steps_left (TenantWait c idt l) = 7"
| "steps_left (TenantLocked c idt l) = 6"
| "steps_left (TenantMiss c idt l) = 5"
| "steps_left (TenantDialed c idt l db) = 4"
| "steps_left (TenantStale c idt l db stale) = 3"
| "steps_left (TenantRotate c idt l db) = 2"
| "steps_left (TenantUnlock c l r) = 1"
| "steps_left (EvictWait key l) = 4"
| "steps_left (EvictLocked key l) = 3"
| "steps_left (EvictStale key l stale) = 2"
| "steps_left (EvictUnlock key l) = 1"
| "steps_left OrgWait = 3"
| "steps_left OrgLocked = 2"
| "steps_left (OrgUnlock r) = 1"
| "steps_left CloseWait = 4"
| "steps_left CloseOrg = 3"
| "steps_left (CloseOrgUnlock errs) = 2"
| "steps_left (CloseTenants errs) = 1"
| "steps_left (Returned r) = 0"

definition total_left :: "'w conc \<Rightarrow> nat" where
  "total_left k = sum_list (map steps_left (cc_calls k))"

definition locks_ok :: "('w, 'z) pool_sys_scheme \<Rightarrow> bool" where
  "locks_ok s \<longleftrightarrow> distinct (map fst (ps_keyLocks s)) \<and> distinct (map snd (ps_keyLocks s)) \<and>
     list_all (\<lambda>kl. snd kl < length (ps_keyLocks s)) (ps_keyLocks s)"

text \<open>The invariant: every key has one mutex of its own; a call's mutex is its key's; a mutex is
  held exactly by the call whose counter lies in its critical section; and no connection is
  lost.\<close>

definition mutex_of :: "('w, 'z) pool_sys_scheme \<Rightarrow> tenantKey \<times> nat \<Rightarrow> bool" where
  "mutex_of s kl \<longleftrightarrow> map_of (ps_keyLocks s) (fst kl) = Some (snd kl)"

definition mutex_ok :: "('w, 'z) pool_sys_scheme \<Rightarrow> pc \<Rightarrow> bool" where
  "mutex_ok s pc \<longleftrightarrow> (\<forall>kl. key_held pc = Some kl \<or> key_waits pc = Some kl \<longrightarrow> mutex_of s kl)"

definition holds_exactly :: "('l \<Rightarrow> nat option) \<Rightarrow> 'a list \<Rightarrow> ('a \<Rightarrow> 'l \<Rightarrow> bool) \<Rightarrow> bool" where
  "holds_exactly owner xs has \<longleftrightarrow> (\<forall>l i. owner l = Some i \<longleftrightarrow> i < length xs \<and> has (xs ! i) l)"

definition holds_key :: "pc \<Rightarrow> nat \<Rightarrow> bool" where
  "holds_key pc l \<longleftrightarrow> (\<exists>key. key_held pc = Some (key, l))"

definition conc_inv :: "'w conc \<Rightarrow> bool" where
  "conc_inv k \<longleftrightarrow> locks_ok (cc_sys k) \<and>
     list_all (mutex_ok (cc_sys k)) (cc_calls k) \<and>
     holds_exactly (cc_keyOwner k) (cc_calls k) holds_key \<and>
     holds_exactly (\<lambda>_ :: unit. cc_orgOwner k) (cc_calls k) (\<lambda>pc _. org_held pc) \<and>
     pool_inv (all_in_hand k) (cc_sys k)"

subsection \<open>What the work between lock operations changes\<close>

lemma keyLock_locks:
  assumes "locks_ok s" and "keyLock key s = (l, s')"
  shows "locks_ok s'" and "mutex_of s' (key, l)" and "mutex_of s kl \<Longrightarrow> mutex_of s' kl"
  using assms
  by (auto simp: keyLock_def locks_ok_def mutex_of_def Let_def list_all_iff dest: map_of_SomeD
      split: option.splits if_splits)
     (fastforce simp: map_of_eq_None_iff image_iff)+

lemma quiet_locks: "quiet s s' \<Longrightarrow> ps_keyLocks s' = ps_keyLocks s"
  by (auto simp: quiet_def dest: same_pool_fields)

lemma same_locks:
  fixes s s' :: "('w, 'z) pool_sys_scheme"
  shows "sys.more s' = sys.more s \<Longrightarrow> ps_keyLocks s' = ps_keyLocks s"
  by (auto dest!: sys_more_same_pool same_pool_fields)

lemma openTenant_locks:
  assumes "pl_dial p = defaultDial E" and "openTenant E p key locator region idt s = (r, s')"
  shows "ps_keyLocks s' = ps_keyLocks s"
  using assms(2)
  by (auto simp: openTenant_def Let_def assms(1) split: sum.splits prod.splits
      dest!: GetCredentials_quiet quiet_locks same_locks [OF conjunct1 [OF defaultDial_frame]]
      simp: quiet_locks [OF applyPoolSettings_quiet])

lemma openTenant_entries:
  assumes "pl_dial p = defaultDial E" and "openTenant E p key locator region idt s = (r, s')"
  shows "ps_entries s' = ps_entries s"
  using assms(2)
  by (auto simp: openTenant_def Let_def assms(1) split: sum.splits prod.splits
      dest!: GetCredentials_quiet quiet_entries defaultDial_frame
      dest: same_pool_fields [OF sys_more_same_pool]
      simp: quiet_entries [OF applyPoolSettings_quiet])

lemma OrgAdminDB_locks:
  assumes "pl_dial p = defaultDial E" and "OrgAdminDB E p s = (r, s')"
  shows "ps_keyLocks s' = ps_keyLocks s"
  using assms(2)
  by (auto simp: OrgAdminDB_def Let_def assms(1) split: sum.splits prod.splits option.splits
      dest!: GetCredentials_quiet quiet_locks same_locks [OF conjunct1 [OF defaultDial_frame]]
      simp: quiet_locks [OF applyPoolSettings_quiet] quiet_locks [OF maybeRotateLocked_quiet])

lemma close_db_locks:
  fixes s s' :: "('w, 'z) pool_sys_scheme"
  shows "close_db E d s = (r, s') \<Longrightarrow> ps_keyLocks s' = ps_keyLocks s"
  by (rule same_locks) (simp add: close_db_frame)

lemma close_db_inv:
  fixes s :: "('w, 'z) pool_sys_scheme"
  assumes "close_db E d s = (r, s')" and "pool_inv (add_mset d H) s"
  shows "pool_inv H s'"
  using assms(2) close_db_frame [OF assms(1)]
    same_pool_fields [OF sys_more_same_pool [OF conjunct2 [OF close_db_frame [OF assms(1)]]]]
  by (simp add: pool_inv_def cached_dbs_def)

lemma swapEntry_inv:
  assumes "swapEntry key e s = (old, s')" and "pool_inv (add_mset (te_db e) H) s"
  shows "pool_inv (case old of None \<Rightarrow> H | Some stale \<Rightarrow> add_mset (te_db stale) H) s'"
  using assms mset_update [of "ps_entries s" key e]
  by (auto simp: swapEntry_def pool_inv_def cached_dbs_def distinct_update split: option.splits)

lemma removeEntry_inv:
  assumes "removeEntry key s = (old, s')" and "pool_inv H s"
  shows "pool_inv (case old of None \<Rightarrow> H | Some stale \<Rightarrow> add_mset (te_db stale) H) s'"
  using assms mset_delete [of "ps_entries s" key]
  by (auto simp: removeEntry_def pool_inv_def cached_dbs_def distinct_delete split: option.splits)

lemma closeOrgAdmin_locks:
  "closeOrgAdmin E s = (errs, s') \<Longrightarrow> ps_keyLocks s' = ps_keyLocks s \<and> ps_entries s' = ps_entries s"
  by (auto simp: closeOrgAdmin_def dest!: close_db_frame sys_more_same_pool dest: same_pool_fields
      split: option.splits prod.splits)

lemma closeOrgAdmin_inv:
  assumes "closeOrgAdmin E s = (errs, s')" and "pool_inv H s"
  shows "pool_inv H s'"
  using assms
  by (auto simp: closeOrgAdmin_def pool_inv_def cached_dbs_def dest!: close_db_frame
      dest: same_pool_fields [OF sys_more_same_pool] split: option.splits prod.splits)

lemma closeTenants_frame:
  assumes "closeTenants E errs s = (r, s')"
  shows "ps_entries s' = [] \<and> ps_orgAdminDB s' = ps_orgAdminDB s \<and> ps_keyLocks s' = ps_keyLocks s \<and>
    trace s' = trace s @ map (\<lambda>kv. CloseDB (te_db (snd kv))) (ps_entries s)"
  using assms
  by (auto simp: closeTenants_def dest!: closeEntries_frame dest: same_pool_fields
      split: prod.splits)

lemma closeTenants_inv:
  assumes "closeTenants E errs s = (r, s')" and "pool_inv H s"
  shows "pool_inv H s'"
  using closeTenants_frame [OF assms(1)] assms(2) by (simp add: pool_inv_def cached_dbs_def)

text \<open>One working step, in the terms of the invariant.\<close>

lemma begin_call_facts:
  assumes "begin_call p c s = (pc', s')"
  shows "key_held pc' = None" and "\<not> org_held pc'" and "in_hand pc' = {#}"
    and "locks_ok s \<Longrightarrow> locks_ok s'"
    and "locks_ok s \<Longrightarrow> mutex_of s kl \<Longrightarrow> mutex_of s' kl"
    and "locks_ok s \<Longrightarrow> key_waits pc' = Some kl' \<Longrightarrow> mutex_of s' kl'"
    and "pool_inv H s \<Longrightarrow> pool_inv H s'"
    and "steps_left pc' < 8"
  using assms
  by (cases c; auto simp: Let_def intro: keyLock_locks keyLock_inv split: sum.splits prod.splits)+

lemma work_step_held:
  assumes "work_step E p pc s = (pc', s')"
  shows "key_held pc' = key_held pc \<and> org_held pc' = org_held pc"
  using assms begin_call_facts(1,2)
  by (cases pc) (fastforce split: option.splits sum.splits prod.splits)+

lemma work_step_locks:
  assumes "pl_dial p = defaultDial E" and "work_step E p pc s = (pc', s')" and "locks_ok s"
  shows "locks_ok s' \<and> (mutex_of s kl \<longrightarrow> mutex_of s' kl) \<and>
    (key_waits pc' = Some kl \<longrightarrow> key_waits pc = Some kl \<or> mutex_of s' kl)"
proof (cases "\<exists>c. pc = Begin c")
  case True
  with assms(2) obtain c where c: "pc = Begin c" "begin_call p c s = (pc', s')" by auto
  from begin_call_facts(4-6) [OF c(2)] assms(3) show ?thesis by blast
next
  case False
  have "ps_keyLocks s' = ps_keyLocks s"
    using assms(2) False
    by (cases pc) (auto simp: swapEntry_def removeEntry_def quiet_locks [OF maybeRotateLocked_quiet]
        dest: openTenant_locks [OF assms(1)] OrgAdminDB_locks [OF assms(1)] close_db_locks
          closeOrgAdmin_locks closeTenants_frame split: option.splits sum.splits prod.splits)
  moreover have "key_waits pc' = key_waits pc"
    using assms(2) False by (cases pc) (auto split: option.splits sum.splits prod.splits)
  ultimately show ?thesis using assms(3) by (simp add: locks_ok_def mutex_of_def)
qed

lemma work_step_balance:
  assumes "pl_dial p = defaultDial E" and "work_step E p pc s = (pc', s')"
    and "pool_inv (H + in_hand pc) s"
  shows "pool_inv (H + in_hand pc') s'"
proof (cases pc)
  case (Begin c)
  with assms begin_call_facts(3,7) [of p c s pc' s'] show ?thesis by simp
next
  case (TenantMiss c idt l)
  with assms openTenant_inv [OF assms(1)] show ?thesis by (fastforce split: prod.splits sum.splits)
next
  case (TenantDialed c idt l db)
  obtain old s1 where w: "swapEntry (call_key c)
      \<lparr>te_db = db, te_locator = tc_locator c, te_region = tc_region c\<rparr> s = (old, s1)" by fastforce
  from TenantDialed assms w swapEntry_inv [OF w, of H] show ?thesis by (auto split: option.splits)
next
  case (EvictLocked key l)
  obtain old s1 where w: "removeEntry key s = (old, s1)" by fastforce
  from EvictLocked assms w removeEntry_inv [OF w, of H] show ?thesis by (auto split: option.splits)
qed (use assms in \<open>auto intro: close_db_inv pool_inv_quiet [OF maybeRotateLocked_quiet]
      OrgAdminDB_inv [OF assms(1)] closeTenants_inv dest: closeOrgAdmin_inv split: option.splits prod.splits\<close>)

lemma work_step_left:
  assumes "work_step E p pc s = (pc', s')" and "\<not> returned pc"
    and "key_waits pc = None" and "\<not> org_waits pc"
    and "\<And>c l r. pc \<noteq> TenantUnlock c l r" and "\<And>key l. pc \<noteq> EvictUnlock key l"
    and "\<And>r. pc \<noteq> OrgUnlock r" and "\<And>errs. pc \<noteq> CloseOrgUnlock errs"
  shows "steps_left pc' < steps_left pc"
  using assms begin_call_facts(8)
  by (cases pc) (force split: option.splits sum.splits prod.splits)+

subsection \<open>The invariant\<close>

text \<open>A step is work, or one operation on one mutex.\<close>

lemma conc_step_cases:
  assumes "conc_step E p i pc k = Some (pc', k')"
  obtains
    (work) s where "work_step E p pc (cc_sys k) = (pc', s)" "k' = k\<lparr>cc_sys := s\<rparr>"
      "\<not> returned pc" "key_waits pc = None" "\<not> org_waits pc"
  | (lock) kl where "key_waits pc = Some kl" "cc_keyOwner k (snd kl) = None"
      "key_held pc = None" "key_held pc' = Some kl" "org_held pc' = org_held pc"
      "in_hand pc' = in_hand pc" "key_waits pc' = None"
      "k' = k\<lparr>cc_keyOwner := (cc_keyOwner k)(snd kl \<mapsto> i)\<rparr>"
  | (unlock) kl where "key_held pc = Some kl" "key_held pc' = None" "key_waits pc' = None"
      "org_held pc' = org_held pc" "in_hand pc' = in_hand pc"
      "k' = k\<lparr>cc_keyOwner := (cc_keyOwner k)(snd kl := None)\<rparr>"
  | (org_lock) "org_waits pc" "cc_orgOwner k = None" "org_held pc'" "key_held pc' = key_held pc"
      "key_waits pc' = None" "in_hand pc' = in_hand pc" "k' = k\<lparr>cc_orgOwner := Some i\<rparr>"
  | (org_unlock) "org_held pc" "\<not> org_held pc'" "key_held pc' = key_held pc"
      "key_waits pc' = None" "in_hand pc' = in_hand pc" "k' = k\<lparr>cc_orgOwner := None\<rparr>"
  using assms by (cases pc) (auto split: if_splits prod.splits)

lemma conc_step_left:
  assumes "conc_step E p i pc k = Some (pc', k')"
  shows "steps_left pc' < steps_left pc"
proof (cases pc)
  case (Begin c)
  with assms begin_call_facts(8) show ?thesis by (fastforce split: prod.splits)
qed (use assms in \<open>auto split: if_splits option.splits sum.splits prod.splits\<close>)

lemma split_sum:
  fixes f :: "'a \<Rightarrow> 'b::comm_monoid_add"
  assumes "i < length xs"
  obtains H where "sum_list (map f xs) = H + f (xs ! i)"
    and "\<And>y. sum_list (map f (xs[i := y])) = H + f y"
proof
  let ?H = "sum_list (map f (take i xs)) + sum_list (map f (drop (Suc i) xs))"
  show "sum_list (map f (xs[i := y])) = ?H + f y" for y
    using assms by (simp add: upd_conv_take_nth_drop ac_simps)
  from this [of "xs ! i"] show "sum_list (map f xs) = ?H + f (xs ! i)" by simp
qed

lemma conc_pick_Some:
  "conc_pick E p i k = Some k' \<longleftrightarrow> i < length (cc_calls k) \<and>
     (\<exists>pc' k1. conc_step E p i (cc_calls k ! i) k = Some (pc', k1) \<and>
        k' = k1\<lparr>cc_calls := (cc_calls k)[i := pc']\<rparr>)"
  by (auto simp: conc_pick_def split: option.splits)

lemma holds_exactlyD:
  assumes "holds_exactly owner xs has"
  shows "owner l = Some i \<Longrightarrow> i < length xs \<and> has (xs ! i) l"
    and "i < length xs \<Longrightarrow> has (xs ! i) l \<Longrightarrow> owner l = Some i"
  using assms by (auto simp: holds_exactly_def)

lemma holds_exactly_keep:
  assumes "holds_exactly owner xs has" and "\<And>l. has y l = has (xs ! i) l"
  shows "holds_exactly owner (xs[i := y]) has"
  using assms by (cases "i < length xs") (auto simp: holds_exactly_def nth_list_update)

lemma holds_exactly_acquire:
  assumes "holds_exactly owner xs has" and "i < length xs" and "owner l = None"
    and "\<And>m. \<not> has (xs ! i) m" and "\<And>m. has y m \<longleftrightarrow> m = l"
  shows "holds_exactly (owner(l \<mapsto> i)) (xs[i := y]) has"
proof -
  have "\<not> has (xs ! j) l" if "j < length xs" for j
    using holds_exactlyD(2) [OF assms(1) that] assms(3) by auto
  with assms show ?thesis by (auto simp: holds_exactly_def nth_list_update split: if_splits)
qed

lemma holds_exactly_release:
  assumes "holds_exactly owner xs has" and "i < length xs"
    and "\<And>m. has (xs ! i) m \<longleftrightarrow> m = l" and "\<And>m. \<not> has y m"
  shows "holds_exactly (owner(l := None)) (xs[i := y]) has"
proof -
  have "\<not> has (xs ! j) l" if "j < length xs" "j \<noteq> i" for j
    using holds_exactlyD(2) [OF assms(1) that(1)] holds_exactlyD(2) [OF assms(1,2), of l] assms(3) that(2)
    by auto
  with assms show ?thesis by (auto simp: holds_exactly_def nth_list_update split: if_splits)
qed

lemma holds_exactly_snoc:
  assumes "holds_exactly owner xs has" and "\<And>m. \<not> has y m"
  shows "holds_exactly owner (xs @ [y]) has"
  using assms by (auto simp: holds_exactly_def nth_append less_Suc_eq)

lemma holds_key_simps:
  "key_held pc = Some kl \<Longrightarrow> holds_key pc m \<longleftrightarrow> m = snd kl"
  "key_held pc = None \<Longrightarrow> \<not> holds_key pc m"
  by (cases kl; auto simp: holds_key_def)+

lemma holds_key_cong: "key_held pc' = key_held pc \<Longrightarrow> holds_key pc' m = holds_key pc m"
  by (simp add: holds_key_def)

lemma all_in_hand_update:
  fixes k :: "'w conc"
  assumes "i < length (cc_calls k)"
  obtains H where "all_in_hand k = H + in_hand (cc_calls k ! i)"
    and "\<And>(q :: 'w conc) pc. all_in_hand (q\<lparr>cc_calls := (cc_calls k)[i := pc]\<rparr>) = H + in_hand pc"
proof -
  obtain H where "sum_list (map in_hand (cc_calls k)) = H + in_hand (cc_calls k ! i)"
      "\<And>y. sum_list (map in_hand ((cc_calls k)[i := y])) = H + in_hand y"
    using split_sum [OF assms, of in_hand] by blast
  then show thesis by (intro that) (simp_all add: all_in_hand_def)
qed

text \<open>\<open>orgAdminMu\<close> is one mutex: an owner function of the unit type.\<close>

lemma unit_upd: "(f :: unit \<Rightarrow> 'a)(() := y) = (\<lambda>_. y)"
  by auto

lemma list_all_update: "list_all P xs \<Longrightarrow> P y \<Longrightarrow> list_all P (xs[i := y])"
  by (auto simp: list_all_iff dest: subsetD [OF set_update_subset_insert])

lemma work_step_mutex:
  assumes "pl_dial p = defaultDial E" and "work_step E p pc s = (pc', s')" and "locks_ok s"
  shows "locks_ok s'" and "mutex_ok s q \<Longrightarrow> mutex_ok s' q" and "mutex_ok s pc \<Longrightarrow> mutex_ok s' pc'"
proof -
  note f = work_step_locks [OF assms] and h = work_step_held [OF assms(2)]
  show "locks_ok s'" using f by blast
  show "mutex_ok s q \<Longrightarrow> mutex_ok s' q" using f by (simp add: mutex_ok_def)
  show "mutex_ok s pc \<Longrightarrow> mutex_ok s' pc'" using f h unfolding mutex_ok_def by metis
qed

lemma conc_pick_inv:
  fixes k :: "'w conc"
  assumes "pl_dial p = defaultDial E" and "conc_pick E p i k = Some k'" and "conc_inv k"
  shows "conc_inv k'"
proof -
  let ?pc = "cc_calls k ! i"
  from assms(2) obtain pc' k1 where i: "i < length (cc_calls k)"
      and st: "conc_step E p i ?pc k = Some (pc', k1)"
      and k': "k' = k1\<lparr>cc_calls := (cc_calls k)[i := pc']\<rparr>"
    by (auto simp: conc_pick_Some)
  obtain H where H: "all_in_hand k = H + in_hand ?pc"
      "\<And>(q :: 'w conc) pc. all_in_hand (q\<lparr>cc_calls := (cc_calls k)[i := pc]\<rparr>) = H + in_hand pc"
    using all_in_hand_update [OF i] by blast
  from assms(3) have inv: "locks_ok (cc_sys k)" "list_all (mutex_ok (cc_sys k)) (cc_calls k)"
      "holds_exactly (cc_keyOwner k) (cc_calls k) holds_key"
      "holds_exactly (\<lambda>_ :: unit. cc_orgOwner k) (cc_calls k) (\<lambda>pc _. org_held pc)"
      "pool_inv (all_in_hand k) (cc_sys k)"
    unfolding conc_inv_def by blast+
  from inv(2) i have ok: "mutex_ok (cc_sys k) ?pc" by (simp add: list_all_length)
  from st show ?thesis
  proof (cases rule: conc_step_cases)
    case (work s)
    note m = work_step_mutex [OF assms(1) work(1) inv(1)] and held = work_step_held [OF work(1)]
    have "pool_inv (H + in_hand pc') s"
      using work_step_balance [OF assms(1) work(1)] inv(5) H(1) by simp
    moreover have "list_all (mutex_ok s) ((cc_calls k)[i := pc'])"
      using inv(2) m(2,3) ok by (auto intro!: list_all_update elim!: list_all_weaken)
    moreover have "holds_exactly (cc_keyOwner k) ((cc_calls k)[i := pc']) holds_key"
        "holds_exactly (\<lambda>_ :: unit. cc_orgOwner k) ((cc_calls k)[i := pc']) (\<lambda>pc _. org_held pc)"
      using held inv(3,4) by (auto intro!: holds_exactly_keep holds_key_cong)
    ultimately show ?thesis using m(1) H(2) [of pc' k1] work(2) unfolding conc_inv_def k' by simp
  next
    case (lock kl)
    then have "mutex_ok (cc_sys k) pc'" using ok by (simp add: mutex_ok_def)
    moreover have "holds_exactly (cc_keyOwner k1) ((cc_calls k)[i := pc']) holds_key"
      using lock holds_exactly_acquire [OF inv(3) i, where l = "snd kl" and y = pc'] by (simp add: holds_key_simps)
    moreover have "holds_exactly (\<lambda>_ :: unit. cc_orgOwner k) ((cc_calls k)[i := pc']) (\<lambda>pc _. org_held pc)"
      using lock inv(4) by (auto intro!: holds_exactly_keep)
    ultimately show ?thesis using lock inv(1,2,5) H unfolding conc_inv_def k' H(2)
      by (simp add: list_all_update)
  next
    case (unlock kl)
    then have "mutex_ok (cc_sys k) pc'" by (simp add: mutex_ok_def)
    moreover have "holds_exactly (cc_keyOwner k1) ((cc_calls k)[i := pc']) holds_key"
      using unlock holds_exactly_release [OF inv(3) i, where l = "snd kl" and y = pc'] by (simp add: holds_key_simps)
    moreover have "holds_exactly (\<lambda>_ :: unit. cc_orgOwner k) ((cc_calls k)[i := pc']) (\<lambda>pc _. org_held pc)"
      using unlock inv(4) by (auto intro!: holds_exactly_keep)
    ultimately show ?thesis using unlock inv(1,2,5) H unfolding conc_inv_def k' H(2)
      by (simp add: list_all_update)
  next
    case org_lock
    then have n: "\<not> org_held ?pc" by (cases ?pc) auto
    have "holds_exactly (\<lambda>_ :: unit. Some i) ((cc_calls k)[i := pc']) (\<lambda>pc _. org_held pc)"
      using holds_exactly_acquire [OF inv(4) i, where l = "()" and y = pc'] org_lock n by (simp add: unit_upd)
    moreover have "holds_exactly (cc_keyOwner k) ((cc_calls k)[i := pc']) holds_key"
      using org_lock inv(3) by (auto intro!: holds_exactly_keep holds_key_cong)
    moreover from org_lock ok have "mutex_ok (cc_sys k) pc'" by (simp add: mutex_ok_def)
    ultimately show ?thesis using org_lock inv(1,2,5) H unfolding conc_inv_def k' H(2)
      by (simp add: list_all_update)
  next
    case org_unlock
    have "holds_exactly (\<lambda>_ :: unit. None) ((cc_calls k)[i := pc']) (\<lambda>pc _. org_held pc)"
      using holds_exactly_release [OF inv(4) i, where l = "()" and y = pc'] org_unlock by (simp add: unit_upd)
    moreover have "holds_exactly (cc_keyOwner k) ((cc_calls k)[i := pc']) holds_key"
      using org_unlock inv(3) by (auto intro!: holds_exactly_keep holds_key_cong)
    moreover from org_unlock ok have "mutex_ok (cc_sys k) pc'" by (simp add: mutex_ok_def)
    ultimately show ?thesis using org_unlock inv(1,2,5) H unfolding conc_inv_def k' H(2)
      by (simp add: list_all_update)
  qed
qed

lemma conc_next_inv:
  "conc_next E p k k' \<Longrightarrow> pl_dial p = defaultDial E \<Longrightarrow> conc_inv k \<Longrightarrow> conc_inv k'"
proof (induction rule: conc_next.induct)
  case (next_call k c)
  then show ?case
    by (auto simp: conc_inv_def all_in_hand_def mutex_ok_def holds_key_simps intro!: holds_exactly_snoc)
next
  case (next_other k s)
  then show ?case
    using pool_inv_quiet quiet_locks
    by (fastforce simp: conc_inv_def all_in_hand_def mutex_ok_def mutex_of_def locks_ok_def list_all_iff)
qed (rule conc_pick_inv)

lemma conc_reachable_inv:
  "conc_reachable E p k \<Longrightarrow> pl_dial p = defaultDial E \<Longrightarrow> conc_inv k"
proof (induction rule: conc_reachable.induct)
  case (conc_init k)
  then show ?case
    by (simp add: conc_initial_def pool_initial_def conc_inv_def locks_ok_def all_in_hand_def
        holds_exactly_def pool_inv_def cached_dbs_def)
qed (blast intro: conc_next_inv)

lemma conc_run_reachable:
  "conc_run E p is k = Some k' \<Longrightarrow> conc_reachable E p k \<Longrightarrow> conc_reachable E p k'"
  by (induction "is" arbitrary: k) (simp, force split: option.splits intro: conc_more next_step)

text \<open>What the invariant says about two calls, and about a call that waits.\<close>

lemma conc_inv_key:
  assumes "conc_inv k" and "i < length (cc_calls k)" and "key_held (cc_calls k ! i) = Some (key, l)"
  shows "map_of (ps_keyLocks (cc_sys k)) key = Some l" and "cc_keyOwner k l = Some i"
proof -
  from assms show "cc_keyOwner k l = Some i"
    by (auto simp: conc_inv_def holds_key_def dest!: holds_exactlyD(2) [of "cc_keyOwner k"])
  from assms have "mutex_ok (cc_sys k) (cc_calls k ! i)" by (auto simp: conc_inv_def list_all_length)
  with assms(3) show "map_of (ps_keyLocks (cc_sys k)) key = Some l"
    by (auto simp: mutex_ok_def mutex_of_def)
qed

lemma conc_inv_org:
  assumes "conc_inv k" and "i < length (cc_calls k)" and "org_held (cc_calls k ! i)"
  shows "cc_orgOwner k = Some i"
  using assms
  by (auto simp: conc_inv_def dest!: holds_exactlyD(2) [of "\<lambda>_ :: unit. cc_orgOwner k"])

lemma keys_of_lock:
  assumes "locks_ok s" and "mutex_of s (key, l)" and "mutex_of s (key', l)"
  shows "key = key'"
  using assms unfolding locks_ok_def mutex_of_def
  by (metis (no_types, lifting) distinct_map fst_conv inj_onD map_of_SomeD snd_conv)

lemma conc_inv_blocked:
  assumes "conc_inv k" and "i < length (cc_calls k)" and "key_waits (cc_calls k ! i) = Some (key, l)"
    and "cc_keyOwner k l = Some j"
  shows "j < length (cc_calls k) \<and> j \<noteq> i \<and> key_held (cc_calls k ! j) = Some (key, l)"
proof -
  from assms(1,4) have j: "j < length (cc_calls k)" "holds_key (cc_calls k ! j) l"
    by (auto simp: conc_inv_def dest: holds_exactlyD)
  then obtain key' where key': "key_held (cc_calls k ! j) = Some (key', l)" by (auto simp: holds_key_def)
  from assms(1-3) have "mutex_of (cc_sys k) (key, l)" and "locks_ok (cc_sys k)"
    by (auto simp: conc_inv_def list_all_length mutex_ok_def)
  moreover have "mutex_of (cc_sys k) (key', l)"
    using conc_inv_key [OF assms(1) j(1) key'] by (simp add: mutex_of_def)
  ultimately have "key' = key" using keys_of_lock by blast
  moreover from key' assms(3) have "j \<noteq> i" by (cases "cc_calls k ! i") auto
  ultimately show ?thesis using j(1) key' by simp
qed

text \<open>A call that holds a mutex is never blocked, so neither is the set of calls.\<close>

lemma conc_step_enabled:
  assumes "\<not> returned pc" and "\<And>kl. key_waits pc = Some kl \<Longrightarrow> cc_keyOwner k (snd kl) = None"
    and "org_waits pc \<Longrightarrow> cc_orgOwner k = None"
  shows "conc_step E p i pc k \<noteq> None"
  using assms by (cases pc) (auto split: prod.splits)

lemma held_not_waiting:
  "key_held pc = Some kl \<Longrightarrow> key_waits pc = None \<and> \<not> org_waits pc \<and> \<not> returned pc"
  "org_held pc \<Longrightarrow> key_waits pc = None \<and> \<not> org_waits pc \<and> \<not> returned pc"
  by (cases pc; simp)+

lemma conc_pick_enabled:
  "i < length (cc_calls k) \<Longrightarrow> conc_step E p i (cc_calls k ! i) k \<noteq> None \<Longrightarrow> conc_pick E p i k \<noteq> None"
  by (auto simp: conc_pick_def)

lemma conc_inv_progress:
  assumes "conc_inv k" and "i < length (cc_calls k)" and "\<not> returned (cc_calls k ! i)"
  shows "\<exists>j. conc_pick E p j k \<noteq> None"
proof -
  let ?pc = "cc_calls k ! i"
  have enabled: "conc_pick E p j k \<noteq> None"
    if "j < length (cc_calls k)" "\<not> returned (cc_calls k ! j)" "key_waits (cc_calls k ! j) = None"
      "\<not> org_waits (cc_calls k ! j)" for j
    using that by (intro conc_pick_enabled conc_step_enabled) auto
  show ?thesis
  proof (cases "key_waits ?pc")
    case (Some kl)
    show ?thesis
    proof (cases "cc_keyOwner k (snd kl)")
      case None
      with Some assms(2,3) show ?thesis
        by (intro exI [of _ i] conc_pick_enabled conc_step_enabled) (cases ?pc; auto)+
    next
      case (Some j)
      with conc_inv_blocked [OF assms(1,2)] \<open>key_waits ?pc = Some kl\<close> held_not_waiting(1) enabled
      show ?thesis by (metis prod.collapse)
    qed
  next
    case None
    show ?thesis
    proof (cases "org_waits ?pc")
      case True
      show ?thesis
      proof (cases "cc_orgOwner k")
        case None
        with True assms(2,3) show ?thesis
          by (intro exI [of _ i] conc_pick_enabled conc_step_enabled) (cases ?pc; auto)+
      next
        case (Some j)
        with assms(1) have "j < length (cc_calls k) \<and> org_held (cc_calls k ! j)"
          by (auto simp: conc_inv_def holds_exactly_def)
        with held_not_waiting(2) enabled show ?thesis by blast
      qed
    qed (use None assms enabled in blast)
  qed
qed

lemma conc_pick_left: "conc_pick E p i k = Some k' \<Longrightarrow> total_left k' < total_left k"
proof -
  assume "conc_pick E p i k = Some k'"
  then obtain pc' k1 where i: "i < length (cc_calls k)"
      and st: "conc_step E p i (cc_calls k ! i) k = Some (pc', k1)"
      and k': "k' = k1\<lparr>cc_calls := (cc_calls k)[i := pc']\<rparr>"
    by (auto simp: conc_pick_Some)
  from split_sum [OF i, of steps_left] obtain H where
      "total_left k = H + steps_left (cc_calls k ! i)" "total_left k' = H + steps_left pc'"
    unfolding total_left_def k' by auto
  with conc_step_left [OF st] show ?thesis by simp
qed

lemma conc_run_left: "conc_run E p is k = Some k' \<Longrightarrow> length is + total_left k' \<le> total_left k"
  by (induction "is" arbitrary: k) (simp, force split: option.splits dest: conc_pick_left)

end
