(* ===== verification/Pool_Schedules.thy ===== *)
theory Pool_Schedules
  imports Pool_Concurrent Sample_World
begin

text \<open>
  The properties of the pool under concurrent calls: mutual exclusion per target, no lost
  connection in any interleaving, progress and termination of every set of calls, and that a call
  which runs without interference is the method of the sequential model.
\<close>

subsection \<open>A call that runs alone\<close>

text \<open>The methods of the sequential model, as what a call should come to.\<close>

fun atomic_call ::
  "'w env \<Rightarrow> ('w, 'w pool_sys) pool \<Rightarrow> pool_call \<Rightarrow> 'w pool_sys \<Rightarrow> pool_result \<times> 'w pool_sys" where
  "atomic_call E p (TenantCall c) s =
     (case TenantDB E p (tc_namespace c) (tc_accountName c) (tc_locator c) (tc_region c) s of
        (r, s1) \<Rightarrow> (ResultDB r, s1))"
| "atomic_call E p (EvictCall ns acct) s = (ResultEvicted, EvictTenant E ns acct s)"
| "atomic_call E p OrgAdminCall s = (case OrgAdminDB E p s of (r, s1) \<Rightarrow> (ResultDB r, s1))"
| "atomic_call E p CloseCall s = (case pool_Close E s of (r, s1) \<Rightarrow> (ResultClosed r, s1))"

lemma conc_step_calls:
  "conc_step E p i pc (k\<lparr>cc_calls := cs\<rparr>) =
     map_option (\<lambda>(pc', k'). (pc', k'\<lparr>cc_calls := cs\<rparr>)) (conc_step E p i pc k)"
  by (cases pc) (auto split: prod.splits)

definition alone ::
  "'w env \<Rightarrow> ('w, 'w pool_sys) pool \<Rightarrow> nat \<Rightarrow> pc list \<Rightarrow> pc \<Rightarrow> 'w conc \<Rightarrow> pc \<Rightarrow> 'w conc \<Rightarrow> bool" where
  "alone E p i cs pc k pc' k' \<longleftrightarrow>
     (\<exists>m. conc_run E p (replicate m i) (k\<lparr>cc_calls := cs[i := pc]\<rparr>) = Some (k'\<lparr>cc_calls := cs[i := pc']\<rparr>))"

lemma alone_done: "alone E p i cs pc k pc k"
  unfolding alone_def by (intro exI [of _ 0]) simp

lemma alone_step:
  assumes "i < length cs" and "conc_step E p i pc k = Some (pc1, k1)" and "alone E p i cs pc1 k1 pc' k'"
  shows "alone E p i cs pc k pc' k'"
proof -
  from assms(3) obtain m
    where m: "conc_run E p (replicate m i) (k1\<lparr>cc_calls := cs[i := pc1]\<rparr>) = Some (k'\<lparr>cc_calls := cs[i := pc']\<rparr>)"
    by (auto simp: alone_def)
  from assms(1,2) have "conc_pick E p i (k\<lparr>cc_calls := cs[i := pc]\<rparr>) = Some (k1\<lparr>cc_calls := cs[i := pc1]\<rparr>)"
    by (simp add: conc_pick_def conc_step_calls)
  with m show ?thesis unfolding alone_def by (intro exI [of _ "Suc m"]) simp
qed

text \<open>The state while call \<open>i\<close> holds the lock \<open>l\<close> and nobody else holds one.\<close>

abbreviation holding :: "'w conc \<Rightarrow> nat \<Rightarrow> nat \<Rightarrow> 'w pool_sys \<Rightarrow> 'w conc" where
  "holding k i l s \<equiv> k\<lparr>cc_sys := s, cc_keyOwner := (\<lambda>_. None)(l \<mapsto> i)\<rparr>"

lemma alone_unlock:
  assumes "i < length cs" and "cc_keyOwner k = (\<lambda>_. None)"
  shows "alone E p i cs (TenantUnlock c l r) (holding k i l s) (Returned (ResultDB r)) (k\<lparr>cc_sys := s\<rparr>)"
proof -
  have "k\<lparr>cc_sys := s, cc_keyOwner := (\<lambda>_. None)\<rparr> = k\<lparr>cc_sys := s\<rparr>" using assms(2) by (cases k) simp
  then show ?thesis by (intro alone_step [OF assms(1) _ alone_done]) simp
qed

lemma alone_rotate:
  assumes "i < length cs" and "cc_keyOwner k = (\<lambda>_. None)"
  shows "alone E p i cs (TenantRotate c idt l db) (holding k i l s) (Returned (ResultDB (Inr db)))
    (k\<lparr>cc_sys := maybeRotateLocked E p db idt s\<rparr>)"
  by (rule alone_step [OF assms(1) _ alone_unlock [OF assms, where c = c and l = l]]) simp

lemma alone_swap:
  assumes "i < length cs" and "cc_keyOwner k = (\<lambda>_. None)"
  shows "alone E p i cs (TenantDialed c idt l db) (holding k i l s) (Returned (ResultDB (Inr db)))
    (k\<lparr>cc_sys := maybeRotateLocked E p db idt (replaceTenant E (call_key c)
       \<lparr>te_db = db, te_locator = tc_locator c, te_region = tc_region c\<rparr> s)\<rparr>)"
proof (cases "map_of (ps_entries s) (call_key c)")
  case None
  then show ?thesis
    by (intro alone_step [OF assms(1) _ alone_rotate [OF assms, where c = c and l = l]]) (simp add: swapEntry_def replaceTenant_def)
next
  case (Some stale)
  let ?s1 = "s\<lparr>ps_entries := AList.update (call_key c)
    \<lparr>te_db = db, te_locator = tc_locator c, te_region = tc_region c\<rparr> (ps_entries s)\<rparr>"
  obtain x s2 where x: "close_db E (te_db stale) ?s1 = (x, s2)" by fastforce
  have "alone E p i cs (TenantStale c idt l db (te_db stale)) (holding k i l ?s1) (Returned (ResultDB (Inr db)))
      (k\<lparr>cc_sys := maybeRotateLocked E p db idt s2\<rparr>)"
    by (rule alone_step [OF assms(1) _ alone_rotate [OF assms, where c = c and l = l]]) (simp add: x)
  then have "alone E p i cs (TenantDialed c idt l db) (holding k i l s) (Returned (ResultDB (Inr db)))
      (k\<lparr>cc_sys := maybeRotateLocked E p db idt s2\<rparr>)"
    by (rule alone_step [OF assms(1), rotated]) (simp add: swapEntry_def Some)
  then show ?thesis using Some x by (simp add: replaceTenant_def)
qed

text \<open>TenantDB from the lock on: the cached connection, a failed dial, or a new connection.\<close>

lemma alone_locked:
  assumes "i < length cs" and "cc_keyOwner k = (\<lambda>_. None)"
    and "(case cachedTenant (call_key c) (tc_locator c) (tc_region c) s1 of
        Some db \<Rightarrow> (Inr db, maybeRotateLocked E p db idt s1)
      | None \<Rightarrow>
          (case dialTenant E p (call_key c) (tc_locator c) (tc_region c) idt s1 of
             (Inl err, s2) \<Rightarrow> (Inl err, s2)
           | (Inr db, s2) \<Rightarrow> (Inr db, maybeRotateLocked E p db idt s2))) = (r, s)"
  shows "alone E p i cs (TenantLocked c idt l) (holding k i l s1) (Returned (ResultDB r)) (k\<lparr>cc_sys := s\<rparr>)"
proof (cases "cachedTenant (call_key c) (tc_locator c) (tc_region c) s1")
  case (Some db)
  with assms(3) have r: "r = Inr db" "s = maybeRotateLocked E p db idt s1" by simp_all
  show ?thesis unfolding r by (rule alone_step [OF assms(1) _ alone_rotate [OF assms(1,2), where c = c and l = l]]) (simp add: Some)
next
  case None
  obtain r0 s2 where o: "openTenant E p (call_key c) (tc_locator c) (tc_region c) idt s1 = (r0, s2)"
    by fastforce
  have "alone E p i cs (TenantMiss c idt l) (holding k i l s1) (Returned (ResultDB r)) (k\<lparr>cc_sys := s\<rparr>)"
  proof (cases r0)
    case (Inl err)
    with assms(3) None o have r: "r = Inl err" "s = s2" by (simp_all add: dialTenant_def)
    show ?thesis unfolding r
      by (rule alone_step [OF assms(1) _ alone_unlock [OF assms(1,2), where c = c and l = l]]) (simp add: o Inl)
  next
    case (Inr db)
    with assms(3) None o have r: "r = Inr db" "s = maybeRotateLocked E p db idt (replaceTenant E (call_key c)
       \<lparr>te_db = db, te_locator = tc_locator c, te_region = tc_region c\<rparr> s2)"
      by (simp_all add: dialTenant_def)
    show ?thesis unfolding r
      by (rule alone_step [OF assms(1) _ alone_swap [OF assms(1,2), where c = c and l = l]]) (simp add: o Inr)
  qed
  then show ?thesis by (rule alone_step [OF assms(1), rotated]) (simp add: None)
qed

lemma alone_tenant:
  assumes "i < length cs" and "cc_keyOwner k = (\<lambda>_. None)"
    and "TenantDB E p (tc_namespace c) (tc_accountName c) (tc_locator c) (tc_region c) (cc_sys k) = (r, s)"
  shows "alone E p i cs (Begin (TenantCall c)) k (Returned (ResultDB r)) (k\<lparr>cc_sys := s\<rparr>)"
proof (cases "NewTenantIdentifier (sf_Org (cfg_Snowflake (pl_cfg p))) (tc_namespace c) (tc_accountName c)")
  case (Inl err)
  with assms(3) have "r = Inl err" "s = cc_sys k" by (auto simp: TenantDB_def Let_def)
  with Inl show ?thesis by (intro alone_step [OF assms(1) _ alone_done]) simp
next
  case (Inr idt)
  obtain l s1 where l: "keyLock (call_key c) (cc_sys k) = (l, s1)" by fastforce
  have "(case cachedTenant (call_key c) (tc_locator c) (tc_region c) s1 of
        Some db \<Rightarrow> (Inr db, maybeRotateLocked E p db idt s1)
      | None \<Rightarrow>
          (case dialTenant E p (call_key c) (tc_locator c) (tc_region c) idt s1 of
             (Inl err, s2) \<Rightarrow> (Inl err, s2)
           | (Inr db, s2) \<Rightarrow> (Inr db, maybeRotateLocked E p db idt s2))) = (r, s)"
    using assms(3) Inr l unfolding TenantDB_def call_key_def Let_def by simp
  note alone_locked [OF assms(1,2) this, of l]
  then have "alone E p i cs (TenantWait c idt l) (k\<lparr>cc_sys := s1\<rparr>) (Returned (ResultDB r)) (k\<lparr>cc_sys := s\<rparr>)"
    by (rule alone_step [OF assms(1), rotated]) (simp add: assms(2))
  then show ?thesis by (rule alone_step [OF assms(1), rotated]) (simp add: Inr l)
qed

lemma alone_evict:
  assumes "i < length cs" and "cc_keyOwner k = (\<lambda>_. None)"
  shows "alone E p i cs (Begin (EvictCall ns acct)) k (Returned ResultEvicted)
    (k\<lparr>cc_sys := EvictTenant E ns acct (cc_sys k)\<rparr>)"
proof -
  let ?key = "\<lparr>tk_namespace = ns, tk_accountName = acct\<rparr>"
  obtain l s1 where l: "keyLock ?key (cc_sys k) = (l, s1)" by fastforce
  let ?k = "\<lambda>s. k\<lparr>cc_sys := s, cc_keyOwner := (\<lambda>_. None)(l \<mapsto> i)\<rparr>"
  have idle: "k\<lparr>cc_sys := s, cc_keyOwner := (\<lambda>_. None)\<rparr> = k\<lparr>cc_sys := s\<rparr>" for s
    using assms(2) by (cases k) simp
  have unlock: "alone E p i cs (EvictUnlock ?key l) (?k s) (Returned ResultEvicted) (k\<lparr>cc_sys := s\<rparr>)" for s
    by (rule alone_step [OF assms(1) _ alone_done]) (simp add: idle)
  have locked: "alone E p i cs (EvictLocked ?key l) (?k s1) (Returned ResultEvicted)
      (k\<lparr>cc_sys := EvictTenant E ns acct (cc_sys k)\<rparr>)"
  proof (cases "map_of (ps_entries s1) ?key")
    case None
    with l show ?thesis
      by (intro alone_step [OF assms(1) _ unlock]) (simp add: removeEntry_def EvictTenant_def Let_def)
  next
    case (Some stale)
    obtain x s2 where x: "close_db E (te_db stale) (s1\<lparr>ps_entries := AList.delete ?key (ps_entries s1)\<rparr>) = (x, s2)"
      by fastforce
    have "alone E p i cs (EvictStale ?key l (te_db stale))
        (?k (s1\<lparr>ps_entries := AList.delete ?key (ps_entries s1)\<rparr>)) (Returned ResultEvicted) (k\<lparr>cc_sys := s2\<rparr>)"
      by (rule alone_step [OF assms(1) _ unlock]) (simp add: x)
    then have "alone E p i cs (EvictLocked ?key l) (?k s1) (Returned ResultEvicted) (k\<lparr>cc_sys := s2\<rparr>)"
      by (rule alone_step [OF assms(1), rotated]) (simp add: removeEntry_def Some)
    moreover have "EvictTenant E ns acct (cc_sys k) = s2"
      using l Some x by (simp add: EvictTenant_def Let_def)
    ultimately show ?thesis by simp
  qed
  from locked have "alone E p i cs (EvictWait ?key l) (k\<lparr>cc_sys := s1\<rparr>) (Returned ResultEvicted)
      (k\<lparr>cc_sys := EvictTenant E ns acct (cc_sys k)\<rparr>)"
    by (rule alone_step [OF assms(1), rotated]) (simp add: assms(2))
  then show ?thesis by (rule alone_step [OF assms(1), rotated]) (simp add: l)
qed

lemma alone_org:
  assumes "i < length cs" and "cc_orgOwner k = None" and "OrgAdminDB E p (cc_sys k) = (r, s)"
  shows "alone E p i cs (Begin OrgAdminCall) k (Returned (ResultDB r)) (k\<lparr>cc_sys := s\<rparr>)"
proof -
  have idle: "k\<lparr>cc_sys := s, cc_orgOwner := None\<rparr> = k\<lparr>cc_sys := s\<rparr>" for s
    using assms(2) by (cases k) simp
  have "alone E p i cs (OrgUnlock r) (k\<lparr>cc_sys := s, cc_orgOwner := Some i\<rparr>)
      (Returned (ResultDB r)) (k\<lparr>cc_sys := s\<rparr>)"
    by (rule alone_step [OF assms(1) _ alone_done]) (simp add: idle)
  then have "alone E p i cs OrgLocked (k\<lparr>cc_orgOwner := Some i\<rparr>) (Returned (ResultDB r)) (k\<lparr>cc_sys := s\<rparr>)"
    by (rule alone_step [OF assms(1), rotated]) (simp add: assms(3))
  then have "alone E p i cs OrgWait k (Returned (ResultDB r)) (k\<lparr>cc_sys := s\<rparr>)"
    by (rule alone_step [OF assms(1), rotated]) (simp add: assms(2))
  then show ?thesis by (rule alone_step [OF assms(1), rotated]) simp
qed

lemma alone_close:
  assumes "i < length cs" and "cc_orgOwner k = None" and "pool_Close E (cc_sys k) = (r, s)"
  shows "alone E p i cs (Begin CloseCall) k (Returned (ResultClosed r)) (k\<lparr>cc_sys := s\<rparr>)"
proof -
  have idle: "k\<lparr>cc_sys := s, cc_orgOwner := None\<rparr> = k\<lparr>cc_sys := s\<rparr>" for s
    using assms(2) by (cases k) simp
  obtain errs s1 where o: "closeOrgAdmin E (cc_sys k) = (errs, s1)" by fastforce
  with assms(3) have "closeTenants E errs s1 = (r, s)"
    by (simp add: pool_Close_def closeTenants_def split: prod.splits)
  then have "alone E p i cs (CloseTenants errs) (k\<lparr>cc_sys := s1\<rparr>) (Returned (ResultClosed r)) (k\<lparr>cc_sys := s\<rparr>)"
    by (intro alone_step [OF assms(1) _ alone_done]) simp
  then have "alone E p i cs (CloseOrgUnlock errs) (k\<lparr>cc_sys := s1, cc_orgOwner := Some i\<rparr>)
      (Returned (ResultClosed r)) (k\<lparr>cc_sys := s\<rparr>)"
    by (rule alone_step [OF assms(1), rotated]) (simp add: idle)
  then have "alone E p i cs CloseOrg (k\<lparr>cc_orgOwner := Some i\<rparr>) (Returned (ResultClosed r)) (k\<lparr>cc_sys := s\<rparr>)"
    by (rule alone_step [OF assms(1), rotated]) (simp add: o)
  then have "alone E p i cs CloseWait k (Returned (ResultClosed r)) (k\<lparr>cc_sys := s\<rparr>)"
    by (rule alone_step [OF assms(1), rotated]) (simp add: assms(2))
  then show ?thesis by (rule alone_step [OF assms(1), rotated]) simp
qed

subsection \<open>A sample of two calls\<close>

definition sample_call :: tenant_call where
  "sample_call = \<lparr>tc_namespace = ''ns'', tc_accountName = ''acct'', tc_locator = ''xy12345'',
     tc_region = ''aws-eu-central-1''\<rparr>"

definition sample_conc :: "nat conc" where
  "sample_conc = \<lparr>cc_sys = sample_sys, cc_keyOwner = (\<lambda>_. None), cc_orgOwner = None,
     cc_calls = [Begin (TenantCall sample_call), Begin (TenantCall sample_call), Begin CloseCall]\<rparr>"

lemma sample_conc_reachable: "conc_reachable sample_env sample_pool sample_conc"
proof -
  let ?k = "\<lambda>cs. \<lparr>cc_sys = sample_sys, cc_keyOwner = (\<lambda>_. None), cc_orgOwner = None, cc_calls = cs\<rparr>"
  have "conc_reachable sample_env sample_pool (?k [])"
    by (rule conc_init) (simp add: conc_initial_def pool_initial_def sample_sys_def)
  moreover have "conc_next sample_env sample_pool (?k cs) (?k (cs @ [Begin c]))" for cs c
    using next_call [of sample_env sample_pool "?k cs" c] by simp
  ultimately have "conc_reachable sample_env sample_pool (?k ((([] @ [Begin (TenantCall sample_call)]) @
      [Begin (TenantCall sample_call)]) @ [Begin CloseCall]))"
    by (blast intro: conc_more)
  then show ?thesis by (simp add: sample_conc_def)
qed

definition sample_locked :: "pc \<Rightarrow> pc \<Rightarrow> nat pool_sys \<Rightarrow> nat conc" where
  "sample_locked pc0 pc2 s = \<lparr>cc_sys = s, cc_keyOwner = (\<lambda>_. None)(0 \<mapsto> 0), cc_orgOwner = None,
     cc_calls = [pc0, TenantWait sample_call sample_ident 0, pc2]\<rparr>"

definition sample_locked_sys :: "nat pool_sys" where
  "sample_locked_sys = sample_sys\<lparr>ps_keyLocks := [(call_key sample_call, 0)]\<rparr>"

lemma sample_lock_run:
  "conc_run sample_env sample_pool [0, 1, 0] sample_conc =
     Some (sample_locked (TenantLocked sample_call sample_ident 0) (Begin CloseCall) sample_locked_sys)"
  by (simp add: conc_pick_def sample_conc_def sample_locked_def sample_locked_sys_def sample_call_def
      call_key_def sample_cfg_def sample_identifier keyLock_def sample_sys_def)

lemma sample_locked_reachable:
  "conc_reachable sample_env sample_pool
     (sample_locked (TenantLocked sample_call sample_ident 0) (Begin CloseCall) sample_locked_sys)"
  by (rule conc_run_reachable [OF sample_lock_run sample_conc_reachable])

text \<open>The first call goes on to dial: its connection is in its hands.\<close>

lemma sample_dialed_reachable:
  "\<exists>s. ps_entries s = [] \<and> conc_reachable sample_env sample_pool
     (sample_locked (TenantDialed sample_call sample_ident 0 0) (Begin CloseCall) s)"
proof -
  from sample_openTenant [of sample_locked_sys "call_key sample_call"] obtain s
    where o: "openTenant sample_env sample_pool (call_key sample_call) ''xy12345'' ''aws-eu-central-1''
      sample_ident sample_locked_sys = (Inr 0, s)"
    by (auto simp: sample_locked_sys_def sample_sys_def)
  have "conc_run sample_env sample_pool [0, 0]
      (sample_locked (TenantLocked sample_call sample_ident 0) (Begin CloseCall) sample_locked_sys) =
    Some (sample_locked (TenantDialed sample_call sample_ident 0 0) (Begin CloseCall) s)"
    using o by (simp add: conc_pick_def sample_locked_def sample_locked_sys_def sample_sys_def
        sample_call_def cachedTenant_def)
  from conc_run_reachable [OF this sample_locked_reachable]
  have r: "conc_reachable sample_env sample_pool
      (sample_locked (TenantDialed sample_call sample_ident 0 0) (Begin CloseCall) s)" .
  have "ps_entries s = []"
    using openTenant_entries [OF sample_dial o] by (simp add: sample_locked_sys_def sample_sys_def)
  with r show ?thesis by blast
qed

subsection \<open>Properties\<close>

text \<open>C20: A call that no other call interferes with is the method of the sequential model: run
  by itself from any state in which no mutex is held, it returns that method's result and
  leaves that method's state, whichever branch it takes.\<close>

theorem conc_call_alone:
  assumes "i < length (cc_calls k)" and "cc_calls k ! i = Begin c"
    and "cc_keyOwner k = (\<lambda>_. None)" and "cc_orgOwner k = None"
    and "atomic_call E p c (cc_sys k) = (r, s)"
  shows "\<exists>m. conc_run E p (replicate m i) k =
    Some (k\<lparr>cc_sys := s, cc_calls := (cc_calls k)[i := Returned r]\<rparr>)"
proof -
  have "alone E p i (cc_calls k) (Begin c) k (Returned r) (k\<lparr>cc_sys := s\<rparr>)"
    using alone_tenant [OF assms(1,3), of E p] alone_evict [OF assms(1,3), of E p]
      alone_org [OF assms(1,4), of E p] alone_close [OF assms(1,4), of E] assms(5)
    by (cases c) (auto split: prod.splits)
  moreover from assms(1,2) have "k\<lparr>cc_calls := (cc_calls k)[i := Begin c]\<rparr> = k"
    using list_update_id [of "cc_calls k" i] by simp
  ultimately show ?thesis by (simp add: alone_def)
qed

lemma conc_call_alone_witness:
  "\<exists>m s k'. conc_run sample_env sample_pool (replicate m 0) sample_conc = Some k' \<and>
     cc_calls k' ! 0 = Returned (ResultDB (Inr 0)) \<and> cc_sys k' = s"
proof -
  from sample_TenantDB obtain s where "atomic_call sample_env sample_pool (TenantCall sample_call)
      (cc_sys sample_conc) = (ResultDB (Inr 0), s)"
    by (auto simp: sample_call_def sample_conc_def)
  from conc_call_alone [of 0, OF _ _ _ _ this] show ?thesis
    by (force simp: sample_conc_def)
qed

text \<open>C18: At most one call works on a target at a time: two calls inside the critical section
  of the same tenant, or of the org-admin connection, are one call.  So no target is dialed
  twice at once and no credential rotated twice at once, whatever the interleaving.\<close>

theorem conc_mutual_exclusion:
  assumes "pl_dial p = defaultDial E" and "conc_reachable E p k"
    and "i < length (cc_calls k)" and "j < length (cc_calls k)"
    and "same_target (cc_calls k ! i) (cc_calls k ! j)"
  shows "i = j"
proof (cases "org_held (cc_calls k ! i) \<and> org_held (cc_calls k ! j)")
  case True
  with conc_inv_org [OF conc_reachable_inv [OF assms(2,1)] assms(3)]
    conc_inv_org [OF conc_reachable_inv [OF assms(2,1)] assms(4)]
  show ?thesis by simp
next
  case False
  with assms(5) obtain key l l' where "key_held (cc_calls k ! i) = Some (key, l)"
      "key_held (cc_calls k ! j) = Some (key, l')"
    by (auto simp: same_target_def split: option.splits)
  with conc_inv_key [OF conc_reachable_inv [OF assms(2,1)] assms(3)]
    conc_inv_key [OF conc_reachable_inv [OF assms(2,1)] assms(4)]
  show ?thesis by fastforce
qed

lemma conc_mutual_exclusion_witness:
  "\<exists>k. conc_reachable sample_env sample_pool k \<and> key_waits (cc_calls k ! 1) \<noteq> None \<and>
     {j. j < length (cc_calls k) \<and> same_target (cc_calls k ! j) (cc_calls k ! 0)} = {0}"
proof -
  let ?k = "sample_locked (TenantLocked sample_call sample_ident 0) (Begin CloseCall) sample_locked_sys"
  have z: "0 < length (cc_calls ?k)" "same_target (cc_calls ?k ! 0) (cc_calls ?k ! 0)"
      "key_waits (cc_calls ?k ! 1) \<noteq> None"
    by (simp_all add: sample_locked_def same_target_def)
  from conc_mutual_exclusion [OF sample_dial sample_locked_reachable _ z(1)] z
  have "{j. j < length (cc_calls ?k) \<and> same_target (cc_calls ?k ! j) (cc_calls ?k ! 0)} = {0}"
    by blast
  with sample_locked_reachable z(3) show ?thesis by blast
qed

text \<open>C11: No interleaving loses a connection: at every point, each connection ever opened has
  been closed, is cached, or is in the hands of exactly one call, which is about to cache or to
  close it.\<close>

theorem conc_no_leak:
  assumes "pl_dial p = defaultDial E" and "conc_reachable E p k"
  shows "mset (opened (trace (cc_sys k))) =
    mset (closed (trace (cc_sys k))) + mset (cached_dbs (cc_sys k)) + all_in_hand k \<and>
    distinct (map fst (ps_entries (cc_sys k)))"
  using conc_reachable_inv [OF assms(2,1)] by (simp add: conc_inv_def pool_inv_def)

lemma conc_no_leak_witness:
  "\<exists>k. conc_reachable sample_env sample_pool k \<and> all_in_hand k = {#0#} \<and>
     0 \<in># mset (opened (trace (cc_sys k)))"
proof -
  obtain s where r: "conc_reachable sample_env sample_pool
      (sample_locked (TenantDialed sample_call sample_ident 0 0) (Begin CloseCall) s)"
    using sample_dialed_reachable by blast
  from conc_no_leak [OF sample_dial r] r show ?thesis
    by (intro exI [of _ "sample_locked (TenantDialed sample_call sample_ident 0 0) (Begin CloseCall) s"])
      (simp add: sample_locked_def all_in_hand_def)
qed

lemma steps_left_bound: "steps_left pc \<le> 8"
  by (cases pc rule: steps_left.cases) auto

lemma total_left_bound: "total_left k \<le> 8 * length (cc_calls k)"
proof -
  have "sum_list (map steps_left cs) \<le> 8 * length cs" for cs
    by (induction cs) (auto intro: add_mono [OF steps_left_bound])
  then show ?thesis by (simp add: total_left_def)
qed

text \<open>While a call has not returned, some call can take a step, so a run can always go on.\<close>

lemma conc_run_on:
  assumes "pl_dial p = defaultDial E"
  shows "conc_reachable E p k \<Longrightarrow> \<exists>is k'. conc_run E p is k = Some k' \<and> list_all returned (cc_calls k')"
proof (induction "total_left k" arbitrary: k rule: less_induct)
  case less
  show ?case
  proof (cases "list_all returned (cc_calls k)")
    case True
    then show ?thesis by (intro exI [of _ "[]"] exI [of _ k]) simp
  next
    case False
    then obtain i where "i < length (cc_calls k)" "\<not> returned (cc_calls k ! i)"
      by (auto simp: list_all_length)
    with conc_inv_progress [OF conc_reachable_inv [OF less.prems assms]]
    obtain j k1 where j: "conc_pick E p j k = Some k1" by fast
    with less.prems have "conc_reachable E p k1" by (blast intro: conc_more next_step)
    with less.hyps [OF conc_pick_left [OF j]] obtain "is" k'
      where "conc_run E p is k1 = Some k'" "list_all returned (cc_calls k')" by blast
    with j show ?thesis by (intro exI [of _ "j # is"] exI [of _ k']) simp
  qed
qed

text \<open>C19: Nothing deadlocks and everything finishes.  However the scheduler picks, the calls take
  at most eight steps each; a run that cannot go on has returned from every call; and every run
  can be brought to that end.\<close>

theorem conc_finishes:
  assumes "pl_dial p = defaultDial E" and "conc_reachable E p k" and "conc_run E p is k = Some k'"
  shows "length is \<le> 8 * length (cc_calls k) \<and>
    ((\<forall>j. conc_pick E p j k' = None) \<longrightarrow> list_all returned (cc_calls k')) \<and>
    (\<exists>js k''. conc_run E p js k' = Some k'' \<and> list_all returned (cc_calls k''))"
proof -
  from conc_run_reachable [OF assms(3,2)] have r: "conc_reachable E p k'" .
  have "length is \<le> 8 * length (cc_calls k)"
    using conc_run_left [OF assms(3)] total_left_bound [of k] by linarith
  moreover have "list_all returned (cc_calls k')" if "\<forall>j. conc_pick E p j k' = None"
    unfolding list_all_length
  proof (intro allI impI)
    fix i assume "i < length (cc_calls k')"
    then show "returned (cc_calls k' ! i)"
      using conc_inv_progress [OF conc_reachable_inv [OF r assms(1)], of i E p] that by auto
  qed
  ultimately show ?thesis using conc_run_on [OF assms(1) r] by blast
qed

lemma conc_finishes_witness:
  "\<exists>is k'. conc_run sample_env sample_pool is sample_conc = Some k' \<and> length (cc_calls sample_conc) = 3 \<and>
     list_all returned (cc_calls k') \<and> length is \<le> 24"
proof -
  have n: "conc_run sample_env sample_pool [] sample_conc = Some sample_conc" by simp
  from conc_finishes [OF sample_dial sample_conc_reachable n] obtain "is" k'
    where r: "conc_run sample_env sample_pool is sample_conc = Some k'" "list_all returned (cc_calls k')" by blast
  moreover from conc_finishes [OF sample_dial sample_conc_reachable r(1)]
  have "length is \<le> 8 * length (cc_calls sample_conc)" by blast
  ultimately show ?thesis
    by (intro exI [of _ "is"] exI [of _ k']) (simp add: sample_conc_def)
qed

text \<open>A call waits for a tenant's mutex only while another call works on that same tenant, so
  calls for different tenants never block each other.\<close>

theorem conc_waits_same_target:
  assumes "pl_dial p = defaultDial E" and "conc_reachable E p k" and "i < length (cc_calls k)"
    and "key_waits (cc_calls k ! i) = Some (key, l)" and "conc_pick E p i k = None"
  shows "\<exists>j l'. j < length (cc_calls k) \<and> j \<noteq> i \<and> key_held (cc_calls k ! j) = Some (key, l')"
proof -
  from assms(3-5) obtain j where "cc_keyOwner k l = Some j"
    by (cases "cc_calls k ! i") (auto simp: conc_pick_def split: if_splits)
  with conc_inv_blocked [OF conc_reachable_inv [OF assms(2,1)] assms(3,4)] show ?thesis by blast
qed

lemma conc_waits_same_target_witness:
  "\<exists>k. conc_reachable sample_env sample_pool k \<and> conc_pick sample_env sample_pool 1 k = None \<and>
     (\<exists>j l. j \<noteq> 1 \<and> key_held (cc_calls k ! j) = Some (call_key sample_call, l))"
proof -
  let ?k = "sample_locked (TenantLocked sample_call sample_ident 0) (Begin CloseCall) sample_locked_sys"
  have b: "conc_pick sample_env sample_pool 1 ?k = None" by (simp add: conc_pick_def sample_locked_def)
  have w: "1 < length (cc_calls ?k)" "key_waits (cc_calls ?k ! 1) = Some (call_key sample_call, 0)"
    by (simp_all add: sample_locked_def)
  from conc_waits_same_target [OF sample_dial sample_locked_reachable w b] sample_locked_reachable b
  show ?thesis by blast
qed

text \<open>Close takes no tenant's mutex, so it does not wait for a dial that is under way: the call
  that made the connection caches it after Close has returned.\<close>

theorem close_misses_dial:
  assumes "i < length (cc_calls k)" and "cc_calls k ! i = CloseTenants errs"
    and "j < length (cc_calls k)" and "cc_calls k ! j = TenantDialed c idt l db"
  shows "\<exists>r k'. conc_run E p [i, j] k = Some k' \<and> cc_calls k' ! i = Returned (ResultClosed r) \<and>
    map_of (ps_entries (cc_sys k')) (call_key c) =
      Some \<lparr>te_db = db, te_locator = tc_locator c, te_region = tc_region c\<rparr>"
proof -
  from assms have ij: "i \<noteq> j" by auto
  obtain r s where c: "closeTenants E errs (cc_sys k) = (r, s)" by fastforce
  with closeTenants_frame [OF this] assms ij show ?thesis
    by (auto simp: conc_pick_def swapEntry_def)
qed

lemma close_misses_dial_witness:
  "\<exists>k k' r. conc_reachable sample_env sample_pool k \<and> conc_run sample_env sample_pool [2, 0] k = Some k' \<and>
     cc_calls k' ! 2 = Returned (ResultClosed r) \<and> ps_entries (cc_sys k') \<noteq> []"
proof -
  obtain s where r: "conc_reachable sample_env sample_pool
      (sample_locked (TenantDialed sample_call sample_ident 0 0) (Begin CloseCall) s)"
    using sample_dialed_reachable by blast
  have "\<exists>errs s'. conc_run sample_env sample_pool [2, 2, 2, 2]
      (sample_locked (TenantDialed sample_call sample_ident 0 0) (Begin CloseCall) s) =
    Some (sample_locked (TenantDialed sample_call sample_ident 0 0) (CloseTenants errs) s')"
    by (simp add: conc_pick_def sample_locked_def split: prod.splits)
  then obtain errs s' where "conc_reachable sample_env sample_pool
      (sample_locked (TenantDialed sample_call sample_ident 0 0) (CloseTenants errs) s')" (is "conc_reachable _ _ ?k")
    using conc_run_reachable [OF _ r] by blast
  moreover have "2 < length (cc_calls ?k)" "cc_calls ?k ! 2 = CloseTenants errs"
      "0 < length (cc_calls ?k)" "cc_calls ?k ! 0 = TenantDialed sample_call sample_ident 0 0"
    by (simp_all add: sample_locked_def)
  from close_misses_dial [OF this] have "\<exists>r k'. conc_run sample_env sample_pool [2, 0] ?k = Some k' \<and>
      cc_calls k' ! 2 = Returned (ResultClosed r) \<and> ps_entries (cc_sys k') \<noteq> []" by force
  ultimately show ?thesis by blast
qed

end
