(* ===== verification/Registration.thy ===== *)
theory Registration
  imports Controller
begin

text \<open>
  How the two controllers are set up: the group and kind constants of the API package
  (\<open>apis/base/v1alpha1\<close>), the registration of the types with the scheme (\<open>apis/yukimi.go\<close>,
  the packages' \<open>init\<close> functions) and the \<open>Setup\<close>/\<open>SetupGated\<close> functions of
  \<open>internal/controller\<close>.  What the Kubernetes libraries do with a group, a scheme or a finished
  reconciler is the parameter records \<open>k8s_scheme\<close> and \<open>manager\<close>; the reconciler options are values of a
  datatype, the account controller's connector among them.
\<close>

subsection \<open>Groups and kinds\<close>

record groupVersion =
  gv_Group :: string
  gv_Version :: string

record groupVersionKind =
  gvk_Group :: string
  gvk_Version :: string
  gvk_Kind :: string

definition WithKind :: "groupVersion \<Rightarrow> string \<Rightarrow> groupVersionKind" where
  "WithKind gv kind = \<lparr>gvk_Group = gv_Group gv, gvk_Version = gv_Version gv, gvk_Kind = kind\<rparr>"

text \<open>The two packages' constants: \<open>base.snowflake.yukimi.io\<close> holds the resources,
  \<open>snowflake.yukimi.io\<close> is empty so far.\<close>

definition base_Group :: string where "base_Group = ''base.snowflake.yukimi.io''"
definition base_Version :: string where "base_Version = ''v1alpha1''"
definition yukimi_Group :: string where "yukimi_Group = ''snowflake.yukimi.io''"
definition yukimi_Version :: string where "yukimi_Version = ''v1alpha1''"

definition base_SchemeGroupVersion :: groupVersion where
  "base_SchemeGroupVersion = \<lparr>gv_Group = base_Group, gv_Version = base_Version\<rparr>"

definition yukimi_SchemeGroupVersion :: groupVersion where
  "yukimi_SchemeGroupVersion = \<lparr>gv_Group = yukimi_Group, gv_Version = yukimi_Version\<rparr>"

definition deletionPermitKind :: string where "deletionPermitKind = ''DeletionPermit''"

definition SnowflakeAccountGroupVersionKind :: groupVersionKind where
  "SnowflakeAccountGroupVersionKind = WithKind base_SchemeGroupVersion snowflakeAccountKind"

definition DeletionPermitGroupVersionKind :: groupVersionKind where
  "DeletionPermitGroupVersionKind = WithKind base_SchemeGroupVersion deletionPermitKind"

subsection \<open>The scheme\<close>

text \<open>\<open>runtime.Scheme\<close> and \<open>metav1.AddToGroupVersion\<close>, over the scheme's type.\<close>

record 'h k8s_scheme =
  ks_AddKnownTypes :: "groupVersion \<Rightarrow> string list \<Rightarrow> 'h \<Rightarrow> 'h"
  ks_AddToGroupVersion :: "groupVersion \<Rightarrow> 'h \<Rightarrow> 'h"

definition register_types ::
  "'h k8s_scheme \<Rightarrow> string \<Rightarrow> 'h \<Rightarrow> gerror option \<times> 'h" where
  "register_types K kind h =
     (None, ks_AddToGroupVersion K base_SchemeGroupVersion
        (ks_AddKnownTypes K base_SchemeGroupVersion [kind, kind @ ''List''] h))"

text \<open>Each package's \<open>SchemeBuilder\<close> after its \<open>init\<close> functions ran, file by file in the order
  of their names.\<close>

definition base_SchemeBuilder :: "'h k8s_scheme \<Rightarrow> ('h \<Rightarrow> gerror option \<times> 'h) list" where
  "base_SchemeBuilder K = [register_types K deletionPermitKind, register_types K snowflakeAccountKind]"

definition yukimi_SchemeBuilder :: "('h \<Rightarrow> gerror option \<times> 'h) list" where
  "yukimi_SchemeBuilder = []"

text \<open>\<open>runtime.SchemeBuilder.AddToScheme\<close> is the parameter \<open>addAll\<close>.\<close>

definition apis_AddToScheme ::
  "(('h \<Rightarrow> gerror option \<times> 'h) list \<Rightarrow> 'h \<Rightarrow> gerror option \<times> 'h) \<Rightarrow> 'h k8s_scheme \<Rightarrow> 'h
     \<Rightarrow> gerror option \<times> 'h" where
  "apis_AddToScheme addAll K h = addAll [addAll yukimi_SchemeBuilder, addAll (base_SchemeBuilder K)] h"

subsection \<open>Options\<close>

datatype feature = EnableBetaManagementPolicies | EnableAlphaChangeLogs

record changeLogger =
  cl_Target :: string
  cl_ProviderVersion :: string

text \<open>\<open>controller.Options\<close>: the fields the provider sets and reads.  \<open>co_ChangeLogger\<close> is the
  pointer \<open>ChangeLogOptions\<close>, \<open>co_MetricOptions\<close> the pointer of that name with its
  interval.\<close>

record controllerOptions =
  co_MaxConcurrentReconciles :: int
  co_PollInterval :: duration
  co_GlobalRateLimit :: int
  co_Features :: "feature list"
  co_ChangeLogger :: "changeLogger option"
  co_MetricOptions :: "duration option"

text \<open>The connector handed to the managed reconciler: deletionpermit's holds nothing.\<close>

datatype ('w, 's) controllerConnector = PermitConnector | AccountConnector "('w, 's) connector"

datatype ('w, 's) reconcilerOption =
    WithTypedExternalConnector "('w, 's) controllerConnector"
  | WithLogger string
  | WithPollInterval duration
  | WithRecorder string
  | WithManagementPolicies
  | WithChangeLogger changeLogger
  | WithMetricRecorder

text \<open>The option list both Setup functions build: \<open>None\<close> is the nil dereference of
  \<open>ChangeLogOptions\<close>.\<close>

definition reconcilerOptions ::
  "string \<Rightarrow> ('w, 's) controllerConnector \<Rightarrow> controllerOptions \<Rightarrow> ('w, 's) reconcilerOption list option" where
  "reconcilerOptions name conn o1 =
     (let opts1 = [WithTypedExternalConnector conn, WithLogger name,
            WithPollInterval (co_PollInterval o1), WithRecorder name];
          opts2 = (if EnableBetaManagementPolicies \<in> set (co_Features o1)
            then opts1 @ [WithManagementPolicies] else opts1) in
      case (if EnableAlphaChangeLogs \<in> set (co_Features o1)
            then map_option (\<lambda>cl. opts2 @ [WithChangeLogger cl]) (co_ChangeLogger o1)
            else Some opts2) of
        None \<Rightarrow> None
      | Some opts3 \<Rightarrow>
          Some (if co_MetricOptions o1 \<noteq> None then opts3 @ [WithMetricRecorder] else opts3))"

record ('w, 's) controllerSpec =
  cs_name :: string
  cs_kind :: groupVersionKind
  cs_options :: "('w, 's) reconcilerOption list"
  cs_MaxConcurrentReconciles :: int
  cs_GlobalRateLimit :: int

text \<open>The manager: its client, \<open>managed.ControllerName\<close> applied to the group kind, and building
  a controller into the manager (\<open>NewReconciler\<close> to \<open>Complete\<close>).\<close>

record ('w, 's) manager =
  mg_GetClient :: "'w kube"
  mg_ControllerName :: "groupVersionKind \<Rightarrow> string"
  mg_Complete :: "('w, 's) controllerSpec \<Rightarrow> 'w \<Rightarrow> gerror option \<times> 'w"

datatype setup_outcome = SetupPanic | SetupReturned "gerror option"

definition setup_controller ::
  "('w, 's) manager \<Rightarrow> groupVersionKind \<Rightarrow> ('w, 's) controllerConnector \<Rightarrow> controllerOptions
     \<Rightarrow> ('w, 'z) sys_scheme \<Rightarrow> setup_outcome \<times> ('w, 'z) sys_scheme" where
  "setup_controller M gvk conn o1 s =
     (let name = mg_ControllerName M gvk in
      case reconcilerOptions name conn o1 of
        None \<Rightarrow> (SetupPanic, s)
      | Some opts \<Rightarrow>
          (case local_call (mg_Complete M \<lparr>cs_name = name, cs_kind = gvk, cs_options = opts,
                  cs_MaxConcurrentReconciles = co_MaxConcurrentReconciles o1,
                  cs_GlobalRateLimit = co_GlobalRateLimit o1\<rparr>) s of
             (r, s1) \<Rightarrow> (SetupReturned r, s1)))"

definition permit_Setup ::
  "('w, 's) manager \<Rightarrow> controllerOptions \<Rightarrow> ('w, 'z) sys_scheme \<Rightarrow> setup_outcome \<times> ('w, 'z) sys_scheme" where
  "permit_Setup M o1 s = setup_controller M DeletionPermitGroupVersionKind PermitConnector o1 s"

text \<open>What main hands the account controller: the configuration, the pool, the key manager and
  the backplane.  Its connector is \<open>Setup\<close> of \<open>Controller\<close>.\<close>

record ('w, 's) account_deps =
  ad_cfg :: config
  ad_pool :: "'s db_pool"
  ad_keyManager :: "'w key_manager"
  ad_bpConfig :: backplane

definition account_connector ::
  "'w env \<Rightarrow> ('w, ('w, 'y) acc_sys_scheme) manager \<Rightarrow> ('w, ('w, 'y) acc_sys_scheme) account_deps
     \<Rightarrow> ('w, ('w, 'y) acc_sys_scheme) connector" where
  "account_connector E M D = Setup E (mg_GetClient M) (ad_cfg D) (ad_pool D) (ad_keyManager D) (ad_bpConfig D)"

definition account_Setup ::
  "'w env \<Rightarrow> ('w, ('w, 'y) acc_sys_scheme) manager \<Rightarrow> ('w, ('w, 'y) acc_sys_scheme) account_deps
     \<Rightarrow> controllerOptions \<Rightarrow> ('w, 'z) sys_scheme \<Rightarrow> setup_outcome \<times> ('w, 'z) sys_scheme" where
  "account_Setup E M D o1 s =
     setup_controller M SnowflakeAccountGroupVersionKind (AccountConnector (account_connector E M D)) o1 s"

subsection \<open>The gate\<close>

text \<open>The gate holds a callback for each kind and runs it once the kind's CRD is there.  The
  callback panics when Setup returns an error.\<close>

record 's gated =
  gt_kind :: groupVersionKind
  gt_setup :: "'s \<Rightarrow> setup_outcome \<times> 's"
  gt_panic :: string

definition permit_SetupGated ::
  "('w, 's) manager \<Rightarrow> controllerOptions \<Rightarrow> ('w, 'z) sys_scheme gated list
     \<Rightarrow> gerror option \<times> ('w, 'z) sys_scheme gated list" where
  "permit_SetupGated M o1 gate =
     (None, gate @ [\<lparr>gt_kind = DeletionPermitGroupVersionKind, gt_setup = permit_Setup M o1,
        gt_panic = ''cannot setup DeletionPermit controller''\<rparr>])"

definition account_SetupGated ::
  "'w env \<Rightarrow> ('w, ('w, 'y) acc_sys_scheme) manager \<Rightarrow> ('w, ('w, 'y) acc_sys_scheme) account_deps
     \<Rightarrow> controllerOptions \<Rightarrow> ('w, 'z) sys_scheme gated list
     \<Rightarrow> gerror option \<times> ('w, 'z) sys_scheme gated list" where
  "account_SetupGated E M D o1 gate =
     (None, gate @ [\<lparr>gt_kind = SnowflakeAccountGroupVersionKind, gt_setup = account_Setup E M D o1,
        gt_panic = ''cannot setup SnowflakeAccount controller''\<rparr>])"

definition yukimi_SetupGated ::
  "'w env \<Rightarrow> ('w, ('w, 'y) acc_sys_scheme) manager \<Rightarrow> ('w, ('w, 'y) acc_sys_scheme) account_deps
     \<Rightarrow> controllerOptions \<Rightarrow> ('w, 'z) sys_scheme gated list
     \<Rightarrow> gerror option \<times> ('w, 'z) sys_scheme gated list" where
  "yukimi_SetupGated E M D o1 gate =
     (case permit_SetupGated M o1 gate of
        (Some err, g1) \<Rightarrow> (Some err, g1)
      | (None, g1) \<Rightarrow> account_SetupGated E M D o1 g1)"

text \<open>A callback's run: \<open>Some\<close> is the panic, with the text of the wrapped error.\<close>

definition run_gated :: "'s gated \<Rightarrow> 's \<Rightarrow> gerror option \<times> 's" where
  "run_gated g s =
     (case gt_setup g s of
        (SetupPanic, s1) \<Rightarrow> (Some (Foreign ''nil pointer dereference''), s1)
      | (SetupReturned (Some err), s1) \<Rightarrow> (Some (wrap (gt_panic g @ '': '') err), s1)
      | (SetupReturned None, s1) \<Rightarrow> (None, s1))"

lemma reconcilerOptions_None:
  "reconcilerOptions name conn o1 = None \<longleftrightarrow>
     EnableAlphaChangeLogs \<in> set (co_Features o1) \<and> co_ChangeLogger o1 = None"
  by (auto simp: reconcilerOptions_def Let_def split: option.splits if_splits)

lemma reconcilerOptions_connector:
  assumes "reconcilerOptions name conn o1 = Some opts"
  shows "WithTypedExternalConnector c \<in> set opts \<longleftrightarrow> c = conn"
  using assms by (auto simp: reconcilerOptions_def Let_def split: option.splits if_splits)

lemma yukimi_SetupGated_registers:
  "fst (yukimi_SetupGated E M D o1 gate) = None \<and>
     map gt_kind (snd (yukimi_SetupGated E M D o1 gate)) =
       map gt_kind gate @ [DeletionPermitGroupVersionKind, SnowflakeAccountGroupVersionKind]"
  by (simp add: yukimi_SetupGated_def permit_SetupGated_def account_SetupGated_def)

text \<open>With the change logger wherever the feature is on, a callback does not panic on its own: it
  completes one controller, with the connector of its kind, and reports the manager's answer.\<close>

lemma setup_controller_outcome:
  assumes "EnableAlphaChangeLogs \<in> set (co_Features o1) \<longrightarrow> co_ChangeLogger o1 \<noteq> None"
    and "setup_controller M gvk conn o1 s = (r, s')"
  shows "\<exists>spec. r = SetupReturned (fst (mg_Complete M spec (world s))) \<and> cs_kind spec = gvk \<and>
    cs_name spec = mg_ControllerName M gvk \<and>
    (\<forall>c. WithTypedExternalConnector c \<in> set (cs_options spec) \<longleftrightarrow> c = conn)"
proof -
  from assms(1) obtain opts where o: "reconcilerOptions (mg_ControllerName M gvk) conn o1 = Some opts"
    using reconcilerOptions_None [of "mg_ControllerName M gvk" conn o1] by auto
  let ?spec = "\<lparr>cs_name = mg_ControllerName M gvk, cs_kind = gvk, cs_options = opts,
    cs_MaxConcurrentReconciles = co_MaxConcurrentReconciles o1, cs_GlobalRateLimit = co_GlobalRateLimit o1\<rparr>"
  from o assms(2) have "r = SetupReturned (fst (mg_Complete M ?spec (world s)))"
    by (auto simp: setup_controller_def Let_def local_call_def split: prod.splits)
  with reconcilerOptions_connector [OF o] show ?thesis by (intro exI [of _ ?spec]) simp
qed

text \<open>The connector of a kind.\<close>

definition kind_connector ::
  "'w env \<Rightarrow> ('w, ('w, 'y) acc_sys_scheme) manager \<Rightarrow> ('w, ('w, 'y) acc_sys_scheme) account_deps
     \<Rightarrow> groupVersionKind \<Rightarrow> ('w, ('w, 'y) acc_sys_scheme) controllerConnector" where
  "kind_connector E M D gvk =
     (if gvk = SnowflakeAccountGroupVersionKind then AccountConnector (account_connector E M D)
      else PermitConnector)"

lemma kinds_distinct [simp]: "DeletionPermitGroupVersionKind \<noteq> SnowflakeAccountGroupVersionKind"
  by (simp add: DeletionPermitGroupVersionKind_def SnowflakeAccountGroupVersionKind_def WithKind_def
      deletionPermitKind_def snowflakeAccountKind_def)

lemma gate_setup:
  assumes "g \<in> set (snd (yukimi_SetupGated E M D o1 []))"
  shows "gt_setup g = setup_controller M (gt_kind g) (kind_connector E M D (gt_kind g)) o1"
  using assms
  by (auto simp: yukimi_SetupGated_def permit_SetupGated_def account_SetupGated_def kind_connector_def
      permit_Setup_def [abs_def] account_Setup_def [abs_def])

lemma run_gated_safe:
  assumes "EnableAlphaChangeLogs \<in> set (co_Features o1) \<longrightarrow> co_ChangeLogger o1 \<noteq> None"
    and "g \<in> set (snd (yukimi_SetupGated E M D o1 []))" and "run_gated g s = (r, s')"
  shows "\<exists>spec. r = map_option (wrap (gt_panic g @ '': '')) (fst (mg_Complete M spec (world s))) \<and>
    cs_kind spec = gt_kind g \<and> (\<forall>c. WithTypedExternalConnector c \<in> set (cs_options spec) \<longleftrightarrow>
      c = kind_connector E M D (gt_kind g))"
proof -
  obtain r1 s1 where c: "setup_controller M (gt_kind g) (kind_connector E M D (gt_kind g)) o1 s = (r1, s1)"
    by fastforce
  from setup_controller_outcome [OF assms(1) c] obtain spec
    where "r1 = SetupReturned (fst (mg_Complete M spec (world s)))" "cs_kind spec = gt_kind g"
      "\<forall>c. WithTypedExternalConnector c \<in> set (cs_options spec) \<longleftrightarrow> c = kind_connector E M D (gt_kind g)"
    by blast
  with assms(3) gate_setup [OF assms(2)] c show ?thesis
    by (intro exI [of _ spec]) (auto simp: run_gated_def split: option.splits)
qed

end
