(* ===== verification/Startup.thy ===== *)
theory Startup
  imports Registration AwsKeyStore
begin

text \<open>
  The provider's entry point, \<open>cmd/provider/main.go\<close>: the flags and what is derived from them,
  the two configuration files, the key store, the key manager, the pool, the first org-admin
  connection and the registration of the controllers.  \<open>kingpin.FatalIfError\<close> ends the process,
  so the outcome is a value: the failed check, or the provider that serves until the manager
  stops.  The libraries' calls are the fields of \<open>boot\<close>.
\<close>

definition version :: string where "version = ''0.0.0''"

subsection \<open>Flags and options\<close>

record flags =
  fl_debug :: bool
  fl_leaderElection :: bool
  fl_configDir :: string
  fl_syncInterval :: duration
  fl_pollInterval :: duration
  fl_pollStateMetricInterval :: duration
  fl_maxReconcileRate :: int
  fl_enableManagementPolicies :: bool
  fl_enableChangeLogs :: bool
  fl_changelogsSocketPath :: string

definition seconds :: "int \<Rightarrow> duration" where "seconds n = n * 1000000000"

text \<open>The defaults of the flags, the durations as the literals \<open>1h\<close>, \<open>1m\<close> and \<open>5s\<close> read.\<close>

definition default_flags :: flags where
  "default_flags =
     \<lparr>fl_debug = False, fl_leaderElection = False, fl_configDir = ''/etc/yukimi/config'',
      fl_syncInterval = seconds 3600, fl_pollInterval = seconds 60,
      fl_pollStateMetricInterval = seconds 5, fl_maxReconcileRate = 10,
      fl_enableManagementPolicies = True, fl_enableChangeLogs = False,
      fl_changelogsSocketPath = ''/var/run/changelogs/changelogs.sock''\<rparr>"

record managerOptions =
  mo_RateLimit :: int
  mo_SyncPeriod :: duration
  mo_LeaderElection :: bool
  mo_LeaderElectionID :: string
  mo_LeaseDuration :: duration
  mo_RenewDeadline :: duration
  mo_MaxEvents :: int

definition managerOptions_of :: "flags \<Rightarrow> managerOptions" where
  "managerOptions_of fl =
     \<lparr>mo_RateLimit = fl_maxReconcileRate fl, mo_SyncPeriod = fl_syncInterval fl,
      mo_LeaderElection = fl_leaderElection fl,
      mo_LeaderElectionID = ''crossplane-leader-election-yukimi'',
      mo_LeaseDuration = seconds 60, mo_RenewDeadline = seconds 50, mo_MaxEvents = 3\<rparr>"

definition base_options :: "flags \<Rightarrow> controllerOptions" where
  "base_options fl =
     \<lparr>co_MaxConcurrentReconciles = fl_maxReconcileRate fl, co_PollInterval = fl_pollInterval fl,
      co_GlobalRateLimit = fl_maxReconcileRate fl, co_Features = [], co_ChangeLogger = None,
      co_MetricOptions = Some (fl_pollStateMetricInterval fl)\<rparr>"

subsection \<open>The process\<close>

text \<open>The client and the calls main makes outside the program.  \<open>bt_Start\<close> is the running
  manager: it returns when the process is told to stop.\<close>

record ('w, 's, 'y, 'cfg) boot =
  bt_GetConfig :: "'w \<Rightarrow> gerror option \<times> 'w"
  bt_NewManager :: "managerOptions \<Rightarrow> 'w \<Rightarrow> gerror option \<times> 'w"
  bt_addAll :: "('w \<Rightarrow> gerror option \<times> 'w) list \<Rightarrow> 'w \<Rightarrow> gerror option \<times> 'w"
  bt_scheme :: "'w k8s_scheme"
  bt_AddApiext :: "'w \<Rightarrow> gerror option \<times> 'w"
  bt_NewGRPC :: "string \<Rightarrow> 'w \<Rightarrow> gerror option \<times> 'w"
  bt_featureText :: "feature \<Rightarrow> string"
  bt_base :: base_io
  bt_backplane :: backplane_io
  bt_loadConfig :: "string \<Rightarrow> 'cfg result"
  bt_newFromConfig :: "'cfg \<Rightarrow> 'w aws_client"
  bt_CRDGate :: "'w \<Rightarrow> gerror option \<times> 'w"
  bt_manager :: "('w, ('w, 'y) acc_sys_scheme) manager"
  bt_Start :: "'s gated list \<Rightarrow> 's \<Rightarrow> gerror option \<times> 's"

text \<open>What main holds when it hands over to the manager.\<close>

record ('w, 's) provider =
  pv_cfg :: config
  pv_backplane :: backplane
  pv_keyManager :: "'w key_manager"
  pv_options :: controllerOptions
  pv_gate :: "'s gated list"

datatype exit = FatalIfError string gerror | Fatalf string

text \<open>\<open>kingpin.FatalIfError (err, msg)\<close>: go on with \<open>k\<close>, or end the process.\<close>

definition fatal_if ::
  "string \<Rightarrow> gerror option \<times> 's \<Rightarrow> ('s \<Rightarrow> (exit + 'a) \<times> 's) \<Rightarrow> (exit + 'a) \<times> 's" where
  "fatal_if msg r k = (case r of (Some err, s) \<Rightarrow> (Inl (FatalIfError msg err), s) | (None, s) \<Rightarrow> k s)"

definition fatal_or ::
  "string \<Rightarrow> 'b result \<times> 's \<Rightarrow> ('b \<Rightarrow> 's \<Rightarrow> (exit + 'a) \<times> 's) \<Rightarrow> (exit + 'a) \<times> 's" where
  "fatal_or msg r k = (case r of (Inl err, s) \<Rightarrow> (Inl (FatalIfError msg err), s) | (Inr x, s) \<Rightarrow> k x s)"

text \<open>A step that may itself have ended the process.\<close>

definition or_exit ::
  "(exit + 'b) \<times> 's \<Rightarrow> ('b \<Rightarrow> 's \<Rightarrow> (exit + 'a) \<times> 's) \<Rightarrow> (exit + 'a) \<times> 's" where
  "or_exit r k = (case r of (Inl ex, s) \<Rightarrow> (Inl ex, s) | (Inr x, s) \<Rightarrow> k x s)"

text \<open>The feature flags: management policies, then change logs with their connection.\<close>

definition enable_features ::
  "('w, ('w, 'z) sys_scheme, 'y, 'cfg) boot \<Rightarrow> flags \<Rightarrow> ('w, 'z) sys_scheme
     \<Rightarrow> (exit + controllerOptions) \<times> ('w, 'z) sys_scheme" where
  "enable_features B fl s =
     (let o0 = base_options fl;
          (o1, s1) = (if fl_enableManagementPolicies fl
            then (o0\<lparr>co_Features := co_Features o0 @ [EnableBetaManagementPolicies]\<rparr>,
                  emit (LogInfo ''Beta feature enabled''
                    [(''flag'', bt_featureText B EnableBetaManagementPolicies)]) s)
            else (o0, s)) in
      if fl_enableChangeLogs fl then
        (let o2 = o1\<lparr>co_Features := co_Features o1 @ [EnableAlphaChangeLogs]\<rparr>;
             s2 = emit (LogInfo ''Alpha feature enabled''
               [(''flag'', bt_featureText B EnableAlphaChangeLogs)]) s1;
             target = ''unix://'' @ fl_changelogsSocketPath fl in
         fatal_if (''failed to create change logs client connection at '' @ fl_changelogsSocketPath fl)
           (local_call (bt_NewGRPC B target) s2)
           (\<lambda>s3. (Inr (o2\<lparr>co_ChangeLogger := Some \<lparr>cl_Target = target,
              cl_ProviderVersion = ''yukimi:'' @ version\<rparr>\<rparr>), s3)))
      else (Inr o1, s1))"

definition no_store_message :: "string \<Rightarrow> string" where
  "no_store_message cloud =
     ''no key store compiled in for cloud section '' @ quote_go cloud @ '' (compiled in: aws)''"

definition make_store ::
  "('w, ('w, 'z) sys_scheme, 'y, 'cfg) boot \<Rightarrow> config \<Rightarrow> ('w, 'z) sys_scheme
     \<Rightarrow> (exit + 'w key_store) \<times> ('w, 'z) sys_scheme" where
  "make_store B cfg s =
     (if CloudProvider cfg = ''aws'' then
        fatal_or ''failed to construct AWS key store''
          (aws_New (bt_loadConfig B) (bt_newFromConfig B) (aws_Region (cfg_AWS cfg))
             (aws_KmsKeyId (cfg_AWS cfg)) (del_GracePeriodDays (cfg_Deletion cfg)) s)
          (\<lambda>b s1. (Inr (aws_key_store b), s1))
      else (Inl (Fatalf (no_store_message (CloudProvider cfg))), s))"

text \<open>What the account controller gets: the pool here is main's \<open>p\<close> at the reconciler's state.\<close>

definition startup_deps ::
  "'w env \<Rightarrow> config \<Rightarrow> 'w key_manager \<Rightarrow> backplane \<Rightarrow> ('w, ('w, 'y) acc_sys_scheme) account_deps" where
  "startup_deps E baseConfig keyManager bpConfig =
     \<lparr>ad_cfg = baseConfig, ad_pool = pool_db_pool E (pool_New E keyManager baseConfig),
      ad_keyManager = keyManager, ad_bpConfig = bpConfig\<rparr>"

text \<open>main up to \<open>mgr.Start\<close>.\<close>

definition startup ::
  "'w env \<Rightarrow> ('w, ('w, 'z) pool_sys_scheme, 'y, 'cfg) boot \<Rightarrow> flags \<Rightarrow> ('w, 'z) pool_sys_scheme
     \<Rightarrow> (exit + ('w, ('w, 'z) pool_sys_scheme) provider) \<times> ('w, 'z) pool_sys_scheme" where
  "startup E B fl s =
     fatal_if ''Cannot get API server rest config'' (local_call (bt_GetConfig B) s) (\<lambda>s1.
     fatal_if ''Cannot create controller manager''
       (local_call (bt_NewManager B (managerOptions_of fl)) s1) (\<lambda>s2.
     fatal_if ''Cannot add Yukimi APIs to scheme'' 
       (local_call (apis_AddToScheme (bt_addAll B) (bt_scheme B)) s2) (\<lambda>s3.
     fatal_if ''Cannot add CustomResourceDefinition to scheme'' (local_call (bt_AddApiext B) s3) (\<lambda>s4.
     or_exit (enable_features B fl s4) (\<lambda>opts s5.
     fatal_or ''failed to load base config'' (base_Load (bt_base B) (fl_configDir fl), s5) (\<lambda>baseConfig s6.
     fatal_or ''failed to load backplane config'' (backplane_Load (bt_backplane B) (fl_configDir fl), s6)
       (\<lambda>bpConfig s7.
     or_exit (make_store B baseConfig s7) (\<lambda>store s8.
     let keyManager = NewKeyManager store (sec_CacheTTL (cfg_Secrets baseConfig));
         p = pool_New E keyManager baseConfig in
     fatal_or ''failed to establish org-admin Snowflake connection'' (OrgAdminDB E p s8) (\<lambda>db s9.
     fatal_if ''Cannot setup CRD gate controller'' (local_call (bt_CRDGate B) s9) (\<lambda>s10.
     let (err, gate) = yukimi_SetupGated E (bt_manager B)
           (startup_deps E baseConfig keyManager bpConfig) opts [] in
     fatal_if ''Cannot setup Yukimi controllers'' (err, s10) (\<lambda>s11.
       (Inr \<lparr>pv_cfg = baseConfig, pv_backplane = bpConfig, pv_keyManager = keyManager,
          pv_options = opts, pv_gate = gate\<rparr>, s11))))))))))))"

text \<open>The whole of main: a fatal exit skips the deferred Close, as \<open>os.Exit\<close> does.\<close>

definition provider_main ::
  "'w env \<Rightarrow> ('w, ('w, 'z) pool_sys_scheme, 'y, 'cfg) boot \<Rightarrow> flags \<Rightarrow> ('w, 'z) pool_sys_scheme
     \<Rightarrow> exit option \<times> ('w, 'z) pool_sys_scheme" where
  "provider_main E B fl s =
     (case startup E B fl s of
        (Inl ex, s1) \<Rightarrow> (Some ex, s1)
      | (Inr pv, s1) \<Rightarrow>
          (case bt_Start B (pv_gate pv) s1 of
             (Some err, s2) \<Rightarrow> (Some (FatalIfError ''Cannot start controller manager'' err), s2)
           | (None, s2) \<Rightarrow>
               (case pool_Close E s2 of
                  (None, s3) \<Rightarrow> (None, s3)
                | (Some err, s3) \<Rightarrow>
                    (None, emit (LogInfo ''error closing Snowflake connection pool''
                       [(''error'', err_text err)]) s3))))"

subsection \<open>The steps that succeed, and what startup does to the outside\<close>

lemma fatal_if_Inr:
  "fatal_if m r k = (Inr x, s') \<longleftrightarrow> (\<exists>s. r = (None, s) \<and> k s = (Inr x, s'))"
  by (cases r; cases "fst r") (auto simp: fatal_if_def)

lemma fatal_or_Inr:
  "fatal_or m r k = (Inr x, s') \<longleftrightarrow> (\<exists>y s. r = (Inr y, s) \<and> k y s = (Inr x, s'))"
  by (cases r; cases "fst r") (auto simp: fatal_or_def)

lemma or_exit_Inr: "or_exit r k = (Inr x, s') \<longleftrightarrow> (\<exists>y s. r = (Inr y, s) \<and> k y s = (Inr x, s'))"
  by (cases r; cases "fst r") (auto simp: or_exit_def)

text \<open>A property of the state that every step keeps holds at the end, whichever step ends the
  process.\<close>

lemma fatal_if_keeps: "P (snd r) \<Longrightarrow> (\<And>s. P s \<Longrightarrow> P (snd (k s))) \<Longrightarrow> P (snd (fatal_if m r k))"
  by (cases r; cases "fst r") (auto simp: fatal_if_def)

lemma fatal_or_keeps: "P (snd r) \<Longrightarrow> (\<And>x s. P s \<Longrightarrow> P (snd (k x s))) \<Longrightarrow> P (snd (fatal_or m r k))"
  by (cases r; cases "fst r") (auto simp: fatal_or_def)

lemma or_exit_keeps: "P (snd r) \<Longrightarrow> (\<And>x s. P s \<Longrightarrow> P (snd (k x s))) \<Longrightarrow> P (snd (or_exit r k))"
  by (cases r; cases "fst r") (auto simp: or_exit_def)

lemma startup_keeps:
  assumes "\<And>f s. P s \<Longrightarrow> P (snd (local_call f s :: gerror option \<times> _))" and "\<And>ef s. is_log ef \<Longrightarrow> P s \<Longrightarrow> P (emit ef s)"
    and "\<And>km cfg s. P s \<Longrightarrow> P (snd (OrgAdminDB E (pool_New E km cfg) s))" and "P s"
  shows "P (snd (startup E B fl s))"
proof -
  have f: "P (snd (enable_features B fl s))" if "P s" for s
  proof (cases "fl_enableChangeLogs fl")
    case True
    then show ?thesis using that unfolding enable_features_def
      by (auto simp: Let_def assms(1,2) intro!: fatal_if_keeps [where P = P])
  next
    case False
    then show ?thesis using that unfolding enable_features_def by (auto simp: Let_def assms(2))
  qed
  have w: "P (snd (aws_New lc nc region kms days s))" if "P s" for lc nc region kms days s
    using that by (auto simp: aws_New_def Let_def assms(2) split: sum.splits)
  have m: "P (snd (make_store B cfg s))" if "P s" for cfg s
    using that unfolding make_store_def by (auto intro!: fatal_or_keeps [where P = P] w)
  note steps = fatal_if_keeps [where P = P] fatal_or_keeps [where P = P] or_exit_keeps [where P = P]
  show ?thesis
    unfolding startup_def Let_def split_beta
    by (intro steps) (simp_all add: assms f m)
qed

text \<open>Effects of a start: those of the pool, and log lines.\<close>

definition boot_effect :: "effect \<Rightarrow> bool" where
  "boot_effect ef \<longleftrightarrow> pool_effect ef \<or> is_log ef"

lemma OrgAdminDB_effects:
  assumes "emits boot_effect s s1"
  shows "emits boot_effect s (snd (OrgAdminDB E (pool_New E km cfg) s1))"
proof -
  obtain r s2 where o: "OrgAdminDB E (pool_New E km cfg) s1 = (r, s2)" by fastforce
  from OrgAdminDB_pooled [OF pool_New_dial o] have "emits boot_effect s1 s2"
    by (auto simp: pooled_def boot_effect_def intro: emits_mono)
  with assms show ?thesis using o by (auto intro: emits_trans)
qed

lemma startup_effects: "emits boot_effect s (snd (startup E B fl s))"
proof (rule startup_keeps [where P = "emits boot_effect s"])
  show "emits boot_effect s t \<Longrightarrow> emits boot_effect s (snd (local_call f t))" for f t
    by (auto simp: emits_def local_call_def split: prod.splits)
  show "is_log ef \<Longrightarrow> emits boot_effect s t \<Longrightarrow> emits boot_effect s (emit ef t)" for ef t
    by (auto simp: emits_def emit_def boot_effect_def)
qed (auto intro: OrgAdminDB_effects emits_refl)

lemma startup_inv:
  assumes "pool_inv H s"
  shows "pool_inv H (snd (startup E B fl s))"
proof (rule startup_keeps [where P = "pool_inv H"])
  show "pool_inv H t \<Longrightarrow> pool_inv H (snd (local_call f t))" for f t
    by (auto simp: pool_inv_def cached_dbs_def local_call_def split: prod.splits)
  show "is_log ef \<Longrightarrow> pool_inv H t \<Longrightarrow> pool_inv H (emit ef t)" for ef t
    by (cases ef) (auto simp: pool_inv_def cached_dbs_def emit_def)
  show "pool_inv H t \<Longrightarrow> pool_inv H (snd (OrgAdminDB E (pool_New E km cfg) t))" for km cfg t
    using OrgAdminDB_inv [OF pool_New_dial] by (metis prod.collapse)
qed (rule assms)

end
