(* ===== verification/Startup_Properties.thy ===== *)
theory Startup_Properties
  imports Startup Sample_Controller
begin

text \<open>
  What the provider's start guarantees: the configuration files, the key store, the pool and the
  controllers fit together by the time the manager runs, nothing happens in Snowflake before,
  and a clean shutdown leaves no connection open.
\<close>

lemma OrgAdminDB_connected:
  assumes "OrgAdminDB E p s = (Inr db, s')"
  shows "ps_orgAdminDB s' = Some db"
  using assms
  by (auto simp: OrgAdminDB_def Let_def quiet_entries [OF maybeRotateLocked_quiet]
      split: sum.splits option.splits prod.splits)

lemma local_call_pool [simp]:
  fixes s :: "('w, 'z) pool_sys_scheme"
  shows "local_call f s = (r, s') \<Longrightarrow> ps_orgAdminDB s' = ps_orgAdminDB s"
  by (auto simp: local_call_def split: prod.splits)

lemma enable_features_options:
  assumes "enable_features B fl s = (Inr o1, s')"
  shows "co_PollInterval o1 = fl_pollInterval fl \<and> co_MaxConcurrentReconciles o1 = fl_maxReconcileRate fl \<and>
    (EnableAlphaChangeLogs \<in> set (co_Features o1) \<longleftrightarrow> fl_enableChangeLogs fl) \<and>
    (EnableBetaManagementPolicies \<in> set (co_Features o1) \<longleftrightarrow> fl_enableManagementPolicies fl) \<and>
    (EnableAlphaChangeLogs \<in> set (co_Features o1) \<longrightarrow> co_ChangeLogger o1 \<noteq> None)"
  using assms
  by (auto simp: enable_features_def base_options_def Let_def fatal_if_Inr split: if_splits)

lemma make_store_Inr:
  assumes "make_store B cfg s = (Inr store, s')"
  shows "CloudProvider cfg = ''aws'' \<and> (\<exists>b. store = aws_key_store b \<and>
    aks_recoveryWindowDays b = min (del_GracePeriodDays (cfg_Deletion cfg)) maxRecoveryWindowDays)"
  using assms
  by (auto simp: make_store_def fatal_or_Inr dest!: aws_New_window split: if_splits)

text \<open>A start that succeeds went through every step.\<close>

lemma startup_Inr:
  assumes "startup E B fl s = (Inr pv, s')"
  shows "\<exists>s4 s5 store s8 db s9.
    enable_features B fl s4 = (Inr (pv_options pv), s5) \<and>
    base_Load (bt_base B) (fl_configDir fl) = Inr (pv_cfg pv) \<and>
    backplane_Load (bt_backplane B) (fl_configDir fl) = Inr (pv_backplane pv) \<and>
    make_store B (pv_cfg pv) s5 = (Inr store, s8) \<and>
    pv_keyManager pv = NewKeyManager store (sec_CacheTTL (cfg_Secrets (pv_cfg pv))) \<and>
    OrgAdminDB E (pool_New E (pv_keyManager pv) (pv_cfg pv)) s8 = (Inr db, s9) \<and>
    local_call (bt_CRDGate B) s9 = (None, s') \<and>
    pv_gate pv = snd (yukimi_SetupGated E (bt_manager B)
      (startup_deps E (pv_cfg pv) (pv_keyManager pv) (pv_backplane pv)) (pv_options pv) [])"
  using assms
  unfolding startup_def fatal_if_Inr fatal_or_Inr or_exit_Inr Let_def split_beta
  by (elim exE conjE) (clarsimp, blast)

text \<open>What a callback of main's gate completes.\<close>

lemma gate_complete:
  assumes "EnableAlphaChangeLogs \<in> set (co_Features o1) \<longrightarrow> co_ChangeLogger o1 \<noteq> None"
    and "gate = snd (yukimi_SetupGated E M (startup_deps E cfg km bp) o1 [])"
  shows "\<forall>g \<in> set gate. \<forall>t. \<exists>spec.
    fst (run_gated g t) = map_option (wrap (gt_panic g @ '': '')) (fst (mg_Complete M spec (world t))) \<and>
    cs_kind spec = gt_kind g \<and>
    (gt_kind g = SnowflakeAccountGroupVersionKind \<longrightarrow>
       (\<forall>c. WithTypedExternalConnector (AccountConnector c) \<in> set (cs_options spec) \<longleftrightarrow>
          c = Setup E (mg_GetClient M) cfg (pool_db_pool E (pool_New E km cfg)) km bp))"
proof (intro ballI allI)
  fix g t assume "g \<in> set gate"
  then have "g \<in> set (snd (yukimi_SetupGated E M (startup_deps E cfg km bp) o1 []))" using assms(2) by simp
  from run_gated_safe [OF assms(1) this prod.collapse [symmetric], of t]
  show "\<exists>spec. fst (run_gated g t) = map_option (wrap (gt_panic g @ '': '')) (fst (mg_Complete M spec (world t))) \<and>
    cs_kind spec = gt_kind g \<and>
    (gt_kind g = SnowflakeAccountGroupVersionKind \<longrightarrow>
       (\<forall>c. WithTypedExternalConnector (AccountConnector c) \<in> set (cs_options spec) \<longleftrightarrow>
          c = Setup E (mg_GetClient M) cfg (pool_db_pool E (pool_New E km cfg)) km bp))"
    by (auto simp: kind_connector_def account_connector_def startup_deps_def)
qed

subsection \<open>Properties\<close>

text \<open>C21: When the manager starts, the parts fit: both configuration files were loaded and are
  within their bounds; the secrets live in AWS, with a recovery window between 7 and 30 days that
  never outlasts the account's grace period; the cache's lifetime is the configured one; the
  org-admin connection is open; the gate holds exactly the two controllers.  A callback of the
  gate never panics for a reason of the provider's own: it hands the manager one controller, and
  for accounts that controller's external client is built from exactly this configuration, pool,
  key manager and backplane.\<close>

theorem startup_consistent:
  assumes "startup E B fl s = (Inr pv, s')"
  shows "settings_in_bounds (pv_cfg pv) \<and> CloudProvider (pv_cfg pv) = ''aws'' \<and>
    backplane_Load (bt_backplane B) (fl_configDir fl) = Inr (pv_backplane pv) \<and>
    (\<exists>b. km_store (pv_keyManager pv) = aws_key_store b \<and> 7 \<le> aks_recoveryWindowDays b \<and>
       aks_recoveryWindowDays b \<le> 30 \<and>
       aks_recoveryWindowDays b \<le> del_GracePeriodDays (cfg_Deletion (pv_cfg pv))) \<and>
    km_ttl (pv_keyManager pv) = sec_CacheTTL (cfg_Secrets (pv_cfg pv)) \<and>
    ps_orgAdminDB s' \<noteq> None \<and>
    map gt_kind (pv_gate pv) = [DeletionPermitGroupVersionKind, SnowflakeAccountGroupVersionKind] \<and>
    (\<forall>g \<in> set (pv_gate pv). \<forall>t. \<exists>spec.
       fst (run_gated g t) =
         map_option (wrap (gt_panic g @ '': '')) (fst (mg_Complete (bt_manager B) spec (world t))) \<and>
       cs_kind spec = gt_kind g \<and>
       (gt_kind g = SnowflakeAccountGroupVersionKind \<longrightarrow>
          (\<forall>c. WithTypedExternalConnector (AccountConnector c) \<in> set (cs_options spec) \<longleftrightarrow>
             c = Setup E (mg_GetClient (bt_manager B)) (pv_cfg pv)
               (pool_db_pool E (pool_New E (pv_keyManager pv) (pv_cfg pv))) (pv_keyManager pv) (pv_backplane pv))))"
proof -
  from startup_Inr [OF assms] obtain s4 s5 store s8 db s9
    where o: "enable_features B fl s4 = (Inr (pv_options pv), s5)"
      and l: "base_Load (bt_base B) (fl_configDir fl) = Inr (pv_cfg pv)"
        "backplane_Load (bt_backplane B) (fl_configDir fl) = Inr (pv_backplane pv)"
      and m: "make_store B (pv_cfg pv) s5 = (Inr store, s8)"
        "pv_keyManager pv = NewKeyManager store (sec_CacheTTL (cfg_Secrets (pv_cfg pv)))"
      and c: "OrgAdminDB E (pool_New E (pv_keyManager pv) (pv_cfg pv)) s8 = (Inr db, s9)"
        "local_call (bt_CRDGate B) s9 = (None, s')"
      and g: "pv_gate pv = snd (yukimi_SetupGated E (bt_manager B)
          (startup_deps E (pv_cfg pv) (pv_keyManager pv) (pv_backplane pv)) (pv_options pv) [])"
    by blast
  from l(1) obtain raw cloud where "check_raw raw = None" "resolve_config raw cloud = Inr (pv_cfg pv)"
    unfolding base_Load_Inr by blast
  from resolve_config_bounds [OF this(2)] have b: "settings_in_bounds (pv_cfg pv)" .
  then have d: "7 \<le> del_GracePeriodDays (cfg_Deletion (pv_cfg pv))"
    by (simp add: settings_in_bounds_def minDeletionGracePeriodDays_def)
  from make_store_Inr [OF m(1)] m(2) d
  have "CloudProvider (pv_cfg pv) = ''aws''" "\<exists>b. km_store (pv_keyManager pv) = aws_key_store b \<and>
      7 \<le> aks_recoveryWindowDays b \<and> aks_recoveryWindowDays b \<le> 30 \<and>
      aks_recoveryWindowDays b \<le> del_GracePeriodDays (cfg_Deletion (pv_cfg pv))"
    "km_ttl (pv_keyManager pv) = sec_CacheTTL (cfg_Secrets (pv_cfg pv))"
    by (auto simp: NewKeyManager_def maxRecoveryWindowDays_def)
  moreover have "ps_orgAdminDB s' = Some db" using OrgAdminDB_connected [OF c(1)] c(2) by simp
  moreover have "map gt_kind (pv_gate pv) = [DeletionPermitGroupVersionKind, SnowflakeAccountGroupVersionKind]"
    by (simp add: g yukimi_SetupGated_registers)
  moreover note gate_complete [OF o [THEN enable_features_options, THEN conjunct2, THEN conjunct2,
      THEN conjunct2, THEN conjunct2] g]
  ultimately show ?thesis using b l(2) by blast
qed

lemma no_secret_boot_effect: "\<not> boot_effect (CreateSecret i v)" "\<not> boot_effect (DeleteSecret i)"
  by (simp_all add: boot_effect_def)

text \<open>Before the manager runs, nothing happens to any account: whether the start succeeds or
  ends at any of its checks, all it does outside is to read and at most rotate the org-admin
  credential, open its connection and log.  No account is created or dropped, no credential
  created or deleted.\<close>

theorem startup_touches_nothing:
  assumes "startup E B fl s = (r, s')"
  shows "\<exists>efs. trace s' = trace s @ efs \<and> filter is_create efs = [] \<and> filter is_drop efs = [] \<and>
    (\<forall>i v. CreateSecret i v \<notin> set efs) \<and> (\<forall>i. DeleteSecret i \<notin> set efs)"
proof -
  from startup_effects [of s E B fl] assms obtain efs
    where t: "trace s' = trace s @ efs" and e: "list_all boot_effect efs"
    by (auto simp: emits_def)
  have "\<not> is_create ef \<and> \<not> is_drop ef" if "ef \<in> set efs" for ef
    using that e harmlessI(4,5) by (auto simp: list_all_iff boot_effect_def harmless_def)
  moreover have "boot_effect ef" if "ef \<in> set efs" for ef using that e by (simp add: list_all_iff)
  then have "CreateSecret i v \<notin> set efs" "DeleteSecret i \<notin> set efs" for i v
    using no_secret_boot_effect by blast+
  ultimately show ?thesis using t by (auto simp: filter_empty_conv)
qed

lemma pool_steps_inv:
  assumes "rtranclp (pool_step E (pool_New E km cfg)) s s'" and "pool_inv H s"
  shows "pool_inv H s'"
  using assms by (induction rule: rtranclp_induct) (auto intro: pool_step_inv [OF _ pool_New_dial])

text \<open>C22: A clean shutdown closes everything: when main returns normally from a fresh process, every
  connection it ever opened has been closed and none is cached, provided the running manager used
  the pool only through its methods, one call at a time and in any order and number.\<close>

theorem shutdown_closes_all:
  assumes "provider_main E B fl s = (None, s')" and "pool_initial s"
    and "\<And>gate t r t'. bt_Start B gate t = (r, t') \<Longrightarrow>
      \<exists>km cfg. rtranclp (pool_step E (pool_New E km cfg)) t t'"
  shows "cached_dbs s' = [] \<and> mset (opened (trace s')) = mset (closed (trace s'))"
proof -
  from assms(1) obtain pv s1 s2 r s3 where st: "startup E B fl s = (Inr pv, s1)"
      and run: "bt_Start B (pv_gate pv) s1 = (None, s2)" and c: "pool_Close E s2 = (r, s3)"
      and s': "s' = (case r of None \<Rightarrow> s3
        | Some err \<Rightarrow> emit (LogInfo ''error closing Snowflake connection pool'' [(''error'', err_text err)]) s3)"
    by (auto simp: provider_main_def split: prod.splits sum.splits option.splits)
  from assms(2) have "pool_inv {#} s" by (simp add: pool_initial_def pool_inv_def cached_dbs_def)
  from startup_inv [OF this, of E B fl] st have "pool_inv {#} s1" by simp
  with assms(3) [OF run] have "pool_inv {#} s2" using pool_steps_inv by blast
  from pool_Close_all [OF c this]
  show ?thesis unfolding s' by (auto simp: cached_dbs_def emit_def split: option.splits)
qed

subsection \<open>Witnesses\<close>

text \<open>A boot over the sample environment: Secrets Manager holds one document, every library call
  succeeds, and the manager stops at once.\<close>

definition boot_raw :: rawConfig where
  "boot_raw = zero_raw\<lparr>raw_Snowflake := (raw_Snowflake zero_raw)
     \<lparr>rsf_Org := ''acme'', rsf_OrgAdminAccount := ''admin'', rsf_OrgAdminAccountLocator := ''xy1'',
      rsf_OrgAdminAccountRegion := ''aws-eu-central-1''\<rparr>,
     raw_AWS := (raw_AWS zero_raw)\<lparr>raws_Region := ''eu-central-1''\<rparr>\<rparr>"

definition boot_client :: "nat aws_client" where
  "boot_client =
     \<lparr>sm_GetSecretValue = (\<lambda>n w. (Inr \<lparr>so_SecretString = Some ''json'',
        so_CreatedDate = Some 999999999999\<rparr>, w)),
      sm_CreateSecret = (\<lambda>inp w. (None, w)), sm_PutSecretValue = (\<lambda>n v w. (None, w)),
      sm_DeleteSecret = (\<lambda>n d w. (None, w))\<rparr>"

definition sample_boot :: "(nat, nat pool_sys, unit, unit) boot" where
  "sample_boot =
     \<lparr>bt_GetConfig = (\<lambda>w. (None, w)), bt_NewManager = (\<lambda>o1 w. (None, w)),
      bt_addAll = (\<lambda>fs w. (None, w)), bt_scheme = \<lparr>ks_AddKnownTypes = (\<lambda>gv ks w. w),
        ks_AddToGroupVersion = (\<lambda>gv w. w)\<rparr>,
      bt_AddApiext = (\<lambda>w. (None, w)), bt_NewGRPC = (\<lambda>t w. (None, w)), bt_featureText = (\<lambda>f. []),
      bt_base = sample_io\<lparr>io_decode := (\<lambda>n. Inr boot_raw)\<rparr>, bt_backplane = sample_backplane_io,
      bt_loadConfig = (\<lambda>region. Inr ()), bt_newFromConfig = (\<lambda>_. boot_client),
      bt_CRDGate = (\<lambda>w. (None, w)),
      bt_manager = \<lparr>mg_GetClient = sample_kube [], mg_ControllerName = gvk_Kind,
        mg_Complete = (\<lambda>spec w. (None, w))\<rparr>,
      bt_Start = (\<lambda>gate s. (None, s))\<rparr>"

lemma boot_region: "re_match orgAdminRegionPattern ''aws-eu-central-1''"
  "re_match awsRegionPattern ''eu-central-1''"
  by code_simp+

lemma boot_check: "check_raw boot_raw = None"
  unfolding check_raw_def first_error_None
  using boot_region
  by (auto simp: check_required_def check_optional_def boot_raw_def zero_raw_def
      identifierPattern_def accountLocatorPattern_def
      re_head_tail_def re_plus_def re_lit_def byte_class_defs)

lemma boot_loads: "base_Load (bt_base sample_boot) d = Inr sample_cfg"
proof -
  have "detectCloudSections sample_root = [''aws'']"
    by (simp add: detectCloudSections_def sample_root_def cloudSectionKeys_def)
  moreover have "base_decode (bt_base sample_boot) sample_root = Inr boot_raw"
    by (simp add: base_decode_def sample_boot_def sample_root_def)
  moreover have "resolve_config boot_raw ''aws'' = Inr sample_cfg"
    by (simp add: resolve_config_def Let_def boot_raw_def zero_raw_def resolvePositiveInt_def
        resolveNonNegativeInt_def resolvePositiveDuration_def resolveIntInRange_def base_defaults
        sample_cfg_def second_def minute_def hour_def deref_def)
  ultimately show ?thesis
    using boot_check unfolding base_Load_Inr by (auto simp: sample_boot_def sample_io_def)
qed

definition boot_aws :: "nat awsKeyStore" where
  "boot_aws = \<lparr>aks_client = boot_client, aks_kmsKeyId = [], aks_recoveryWindowDays = 30\<rparr>"

lemma boot_store:
  "make_store sample_boot sample_cfg s = (Inr (aws_key_store boot_aws), s)"
  by (simp add: make_store_def sample_cfg_def CloudProvider_def aws_New_def sample_boot_def fatal_or_def
      boot_aws_def maxRecoveryWindowDays_def)

lemma boot_Get: "ks_Get (aws_key_store boot_aws) = ks_Get sample_store"
  by (simp add: aws_key_store_def sample_store_def aws_Get_def [abs_def] boot_aws_def boot_client_def)

lemma boot_steps:
  "fatal_if m (None, s) k = k s" "fatal_or m (Inr x, s) k2 = k2 x s" "or_exit (Inr x, s) k3 = k3 x s"
  by (simp_all add: fatal_if_def fatal_or_def or_exit_def)

lemma boot_starts: "\<exists>pv s'. startup sample_env sample_boot default_flags sample_sys = (Inr pv, s')"
proof -
  obtain bp where l: "backplane_Load (bt_backplane sample_boot) (fl_configDir default_flags) = Inr bp"
    using sample_backplane_loads by (auto simp: sample_boot_def)
  let ?s = "emit (LogInfo ''Beta feature enabled'' [(''flag'', [])]) sample_sys"
  obtain o1 where f: "enable_features sample_boot default_flags sample_sys = (Inr o1, ?s)"
    by (simp add: enable_features_def default_flags_def sample_boot_def Let_def)
  let ?km = "NewKeyManager (aws_key_store boot_aws) (sec_CacheTTL (cfg_Secrets sample_cfg))"
  from sample_OrgAdminDB_from [of ?km ?s] obtain s2
    where o: "OrgAdminDB sample_env (pool_New sample_env ?km sample_cfg) ?s = (Inr 0, s2)"
    by (auto simp: NewKeyManager_def boot_Get emit_def sample_sys_def)
  have c: "local_call (bt_GetConfig sample_boot) s = (None, s)"
    "local_call (bt_NewManager sample_boot mo) s = (None, s)"
    "local_call (apis_AddToScheme (bt_addAll sample_boot) (bt_scheme sample_boot)) s = (None, s)"
    "local_call (bt_AddApiext sample_boot) s = (None, s)" "local_call (bt_CRDGate sample_boot) s = (None, s)"
    for mo and s :: "nat pool_sys"
    by (simp_all add: local_call_def sample_boot_def apis_AddToScheme_def)
  let ?D = "startup_deps sample_env sample_cfg ?km bp"
  obtain gate where r: "yukimi_SetupGated sample_env (bt_manager sample_boot) ?D o1 ([] :: nat pool_sys gated list) =
      (None, gate)"
    using yukimi_SetupGated_registers by (metis prod.collapse)
  show ?thesis
    unfolding startup_def c boot_steps f l boot_loads boot_store o Let_def r prod.case by blast
qed

lemma startup_consistent_witness:
  "\<exists>pv s'. startup sample_env sample_boot default_flags sample_sys = (Inr pv, s') \<and>
     settings_in_bounds (pv_cfg pv) \<and> ps_orgAdminDB s' \<noteq> None"
  using boot_starts startup_consistent by blast

lemma startup_touches_nothing_witness:
  "\<exists>pv s' efs. startup sample_env sample_boot default_flags sample_sys = (Inr pv, s') \<and>
     trace s' = trace sample_sys @ efs \<and> filter is_create efs = []"
  using boot_starts startup_touches_nothing by blast

lemma shutdown_closes_all_witness:
  "\<exists>s'. provider_main sample_env sample_boot default_flags sample_sys = (None, s') \<and>
     mset (opened (trace s')) = mset (closed (trace s'))"
proof -
  have st: "bt_Start sample_boot gate t = (None, t)" for gate t by (simp add: sample_boot_def)
  from boot_starts obtain pv s1 where "startup sample_env sample_boot default_flags sample_sys = (Inr pv, s1)"
    by blast
  then obtain s' where m: "provider_main sample_env sample_boot default_flags sample_sys = (None, s')"
    by (cases "pool_Close sample_env s1"; cases "fst (pool_Close sample_env s1)")
      (simp_all add: provider_main_def st)
  have "pool_initial sample_sys" by (simp add: pool_initial_def sample_sys_def)
  from shutdown_closes_all [OF m this] st m show ?thesis by fastforce
qed

end
