(* ===== verification/Provisioning.thy ===== *)
theory Provisioning
  imports Controller_Properties
begin

text \<open>
  What the calls below a run of the controller need to succeed: credentials that decode and a cache of
  such (\<open>readable\<close>, \<open>holds_key\<close>), keys that can be generated (\<open>keys_work\<close>), an API server that answers
  (\<open>kube_works\<close>), connections that open; and how a run of the controller is the run of the account
  module between its first and its last status update.  The runs themselves are composed in
  \<open>Crash_Recovery\<close>, \<open>Deprovisioning\<close> and \<open>Provisioning_Properties\<close>.
\<close>

subsection \<open>A world that answers\<close>

text \<open>A stored document that decodes to credentials with a usable key, and a cache that holds
  only such documents.\<close>

definition readable :: "'w env \<Rightarrow> string \<Rightarrow> bool" where
  "readable E v \<longleftrightarrow> (\<forall>t. \<exists>creds key. unmarshalCredentials E v t = Inr creds \<and>
     parsePrivateKey E (c_PrivateKey creds) = Inr key)"

definition readable_cache :: "'w env \<Rightarrow> ('w, 'z) km_sys_scheme \<Rightarrow> bool" where
  "readable_cache E s \<longleftrightarrow> (\<forall>i entry. km_entries s i = Some entry \<longrightarrow> readable E (ce_value entry))"

text \<open>Key generation and the codecs.\<close>

definition keys_work :: "'w env \<Rightarrow> bool" where
  "keys_work E \<longleftrightarrow> (\<forall>n w. \<exists>k. fst (env_rsaGenerate E n w) = Inr k) \<and>
     (\<forall>k. \<exists>b. env_marshalPKIX E k = Inr b) \<and> (\<forall>k. \<exists>b. env_marshalPKCS8 E k = Inr b) \<and>
     (\<forall>c. \<exists>d. env_jsonMarshal E c = Inr d)"

definition kube_works :: "'w kube \<Rightarrow> string \<Rightarrow> labels \<Rightarrow> bool" where
  "kube_works kube ns ls \<longleftrightarrow> (\<forall>w. fst (kb_GetNamespace kube ns w) = Inr ls) \<and>
     (\<forall>a w. fst (kb_UpdateAccountStatus kube a w) = None)"

subsection \<open>Connections\<close>

text \<open>A read returns a document satisfying \<open>D\<close> if the store, in the worlds of \<open>W\<close>, and the cache hold
  only such documents.\<close>

lemma get_doc:
  fixes s :: "('w, 'z) km_sys_scheme"
  assumes "\<And>w. W w \<Longrightarrow> \<exists>v t. fst (ks_Get (km_store km) i w) = Inr (v, t) \<and> D v t"
    and "\<And>w. W w \<Longrightarrow> W (snd (env_now E w))" and "W (world s)"
    and "\<And>entry. km_entries s i = Some entry \<Longrightarrow> D (ce_value entry) (ce_modifiedAt entry)"
  shows "\<exists>v t s'. km_get E km i s = (Inr (v, t), s') \<and> D v t"
proof -
  have fetch: "\<exists>v t s'. km_fetch E km i s = (Inr (v, t), s') \<and> D v t" if "W (world s)" for s :: "('w, 'z) km_sys_scheme"
  proof -
    from assms(1) [OF that] obtain v t where "fst (ks_Get (km_store km) i (world s)) = Inr (v, t)" "D v t" by blast
    then show ?thesis
      by (cases "ks_Get (km_store km) i (world s)") (auto simp: km_fetch_def call_def split: prod.splits)
  qed
  show ?thesis
  proof (cases "km_entries s i")
    case None
    with fetch assms(3) show ?thesis by (simp add: km_get_def)
  next
    case (Some entry)
    obtain t s1 where n: "now E s = (t, s1)" by fastforce
    from now_frame [OF n] assms(2) [OF assms(3)] have "W (world s1)" by simp
    with n Some fetch [of s1] assms(4) [OF Some] show ?thesis by (simp add: km_get_def)
  qed
qed

definition holds_key :: "'w env \<Rightarrow> 'w key_manager \<Rightarrow> ident \<Rightarrow> bool" where
  "holds_key E km i \<longleftrightarrow> (\<forall>w. \<exists>v t. fst (ks_Get (km_store km) i w) = Inr (v, t) \<and> readable E v)"

lemma get_ok:
  assumes "holds_key E km i" and "readable_cache E s"
  shows "\<exists>creds key s'. GetCredentials E km i s = (Inr creds, s') \<and>
    parsePrivateKey E (c_PrivateKey creds) = Inr key"
proof -
  from assms have "\<exists>v t s'. km_get E km i s = (Inr (v, t), s') \<and> readable E v"
    by (intro get_doc [where W = "\<lambda>_. True" and D = "\<lambda>v t. readable E v"])
      (simp_all add: holds_key_def readable_cache_def)
  then show ?thesis by (auto simp: GetCredentials_def readable_def)
qed

lemma dial_ok:
  assumes "\<And>d t w. fst (env_ping E d t w) = None"
  shows "\<exists>db s'. defaultDial E dc s = (Inr db, s')"
proof -
  obtain db s1 where o: "open_db E (dc_snowflake dc) s = (db, s1)" by fastforce
  obtain w where "env_ping E db (dc_probeTimeout dc) (world s1) = (None, w)"
    using assms by (metis prod.collapse)
  with o show ?thesis by (simp add: defaultDial_def call_def)
qed

lemma host_ok: "cloud_region region \<Longrightarrow> \<exists>h. Hostname l region pl = Inr h"
  by (simp add: Hostname_Inr_iff)

lemma org_ok_at:
  assumes "NewOrgAdminIdentifier (sf_Org (cfg_Snowflake cfg)) (sf_OrgAdminAccount (cfg_Snowflake cfg)) = Inr i"
    and "holds_key E km i" and "cloud_region (sf_OrgAdminAccountRegion (cfg_Snowflake cfg))"
    and "\<And>d t w. fst (env_ping E d t w) = None" and "readable_cache E s"
  shows "\<exists>db s'. OrgAdminDB E (pool_New E km cfg) s = (Inr db, s')"
proof -
  from assms(3) obtain h where h: "Hostname (sf_OrgAdminAccountLocator (cfg_Snowflake cfg))
      (sf_OrgAdminAccountRegion (cfg_Snowflake cfg)) (sf_UsePrivateLink (cfg_Snowflake cfg)) = Inr h"
    using host_ok by fastforce
  from get_ok [OF assms(2,5)] obtain creds key s1
    where g: "GetCredentials E km i s = (Inr creds, s1)" "parsePrivateKey E (c_PrivateKey creds) = Inr key"
    by blast
  obtain db s2 where "defaultDial E
      \<lparr>dc_snowflake = buildSnowflakeConfig (sf_OrgAdminAccountLocator (cfg_Snowflake cfg)) h
         (c_Username creds) key ''GLOBALORGADMIN'' (sf_DisableOCSPChecks (cfg_Snowflake cfg)),
       dc_probeTimeout = sf_ConnectionProbeTimeout (cfg_Snowflake cfg)\<rparr> s1 = (Inr db, s2)"
    using dial_ok [OF assms(4)] by blast
  with assms(1) h g show ?thesis
    by (cases "ps_orgAdminDB s") (simp_all add: OrgAdminDB_def pool_New_def Let_def)
qed

subsection \<open>The create\<close>

lemma new_credentials_ok:
  assumes "keys_work E"
  shows "\<exists>creds s'. NewCredentials E u s = (Inr creds, s')"
proof -
  from assms obtain k where "fst (env_rsaGenerate E minRSABits (world s)) = Inr k"
    unfolding keys_work_def by blast
  then obtain w where "env_rsaGenerate E minRSABits (world s) = (Inr k, w)"
    by (cases "env_rsaGenerate E minRSABits (world s)") auto
  moreover from assms obtain b d where "env_marshalPKIX E k = Inr b" "env_marshalPKCS8 E k = Inr d"
    unfolding keys_work_def by blast
  ultimately show ?thesis
    by (auto simp: NewCredentials_def GenerateKeyPair_def local_call_def Let_def split: prod.splits)
qed

lemma NewCredentials_entries:
  fixes s :: "('w, 'z) km_sys_scheme"
  shows "NewCredentials E u s = (r, s') \<Longrightarrow> km_entries s' = km_entries s"
  by (auto simp: NewCredentials_def GenerateKeyPair_def now_def local_call_def Let_def
      split: prod.splits sum.splits)

subsection \<open>The runs\<close>

lemma Done_not_Pending: "Done \<noteq> Pending_oc reason"
proof
  assume "Done = Pending_oc reason"
  then have "oc_State Done = oc_State (Pending_oc reason)" by simp
  then show False by simp
qed

text \<open>What a run of the controller makes of the module's outcome, when Kubernetes answers.\<close>

text \<open>How every run of the client begins: the namespace's labels, and the data for the pipeline.\<close>

lemma enter_run:
  fixes s :: "('w, 'z) acc_sys_scheme"
  assumes "kb_GetNamespace kube (om_Namespace (sa_Meta (ac_cr s))) (world s) = (Inr ls, w)"
  obtains s1 data s2 where
    "namespaceLabels (account_client E kube cfg km bp :: ('w, ('w, 'z) acc_sys_scheme) external)
       (om_Namespace (sa_Meta (ac_cr s))) s = (Inr ls, s1)"
    "NewResourceData ls log (pool_db_pool E (pool_New E km cfg)) s1 = (data, s2)"
    "ac_cr s2 = ac_cr s" "km_entries s2 = km_entries s" "world s2 = w"
    "rd_namespace data = om_Namespace (sa_Meta (ac_cr s))"
    "rd_pool data = pool_db_pool E (pool_New E km cfg)" "ResolvedAccountName data = resolved_name (ac_cr s)"
    "NamespaceLabels data = ls"
proof -
  let ?e = "account_client E kube cfg km bp :: ('w, ('w, 'z) acc_sys_scheme) external"
  obtain s1 where n: "namespaceLabels ?e (om_Namespace (sa_Meta (ac_cr s))) s = (Inr ls, s1)" "ac_cr s1 = ac_cr s"
      "world s1 = w" "km_entries s1 = km_entries s"
    using assms by (simp add: namespaceLabels_def call_def)
  obtain data s2 where d: "NewResourceData ls log (pool_db_pool E (pool_New E km cfg)) s1 = (data, s2)" by fastforce
  with n that show thesis
    by (auto simp: NewResourceData_def Let_def ResolvedAccountName_def NamespaceLabels_def resolved_name_def)
qed

text \<open>How a run that applied ends: the report and the update of the status.\<close>

lemma leave_run:
  fixes s :: "('w, 'z) acc_sys_scheme"
  assumes "\<And>a w. fst (kb_UpdateAccountStatus kube a w) = None"
    and "namespaceLabels (account_client E kube cfg km bp :: ('w, ('w, 'z) acc_sys_scheme) external)
      (om_Namespace (sa_Meta (ac_cr s))) s = (Inr ls, s1)"
    and "NewResourceData ls (account_logger OpUpdate (ac_cr s)) (pool_db_pool E (pool_New E km cfg)) s1 = (data, s2)"
    and "pipeline_Apply X (xt_pipeline (account_client E kube cfg km bp)) data s2 = (res, s4)"
    and "outcomes_Err (ar_Outcomes res) = None"
  shows "\<exists>s'. apply_cr E X (account_client E kube cfg km bp) s = (None, s') \<and>
    ac_cr s' = ac_cr (report_run X (result_report X res) s4)"
proof -
  let ?s5 = "report_run X (result_report X res) s4"
  obtain w where "kb_UpdateAccountStatus kube (ac_cr ?s5) (world ?s5) = (None, w)" using assms(1) by (metis prod.collapse)
  with assms(2-5) show ?thesis by (simp add: apply_cr_def Let_def call_def)
qed

lemma apply_cr_runs:
  fixes s :: "('w, 'z) acc_sys_scheme"
  assumes "xpv1_ok X" and "kube_works kube (om_Namespace (sa_Meta (ac_cr s))) ls"
    and run: "\<And>data (s2 :: ('w, 'z) acc_sys_scheme). ac_cr s2 = ac_cr s \<Longrightarrow> km_entries s2 = km_entries s \<Longrightarrow>
      world s2 = snd (kb_GetNamespace kube (om_Namespace (sa_Meta (ac_cr s))) (world s)) \<Longrightarrow>
      rd_pool data = pool_db_pool E (pool_New E km cfg) \<Longrightarrow>
      rd_namespace data = om_Namespace (sa_Meta (ac_cr s)) \<Longrightarrow>
      ResolvedAccountName data = resolved_name (ac_cr s) \<Longrightarrow> NamespaceLabels data = ls \<Longrightarrow>
      \<exists>s3. account_apply E (account_module_of cfg km bp) data s2 = (out, s3) \<and> Q s3"
    and out: "out = Done \<or> out = Pending_oc reason"
  shows "\<exists>s3 s'. Q s3 \<and> apply_cr E X (account_client E kube cfg km bp) s = (None, s') \<and>
    cr_locator s' = cr_locator s3 \<and> same_identity (ac_cr s3) (ac_cr s') \<and>
    st_AccountCreatedAt (sa_Status (ac_cr s')) = st_AccountCreatedAt (sa_Status (ac_cr s3)) \<and>
    (out = Done \<longrightarrow> readyLatched X s' \<and>
       st_ObservedGeneration (sa_Status (ac_cr s')) = om_Generation (sa_Meta (ac_cr s3)))"
proof -
  let ?e = "account_client E kube cfg km bp :: ('w, ('w, 'z) acc_sys_scheme) external"
  let ?m = "account_module_of cfg km bp" and ?ns = "om_Namespace (sa_Meta (ac_cr s))"
  obtain w1 where w1: "kb_GetNamespace kube ?ns (world s) = (Inr ls, w1)"
    using assms(2) unfolding kube_works_def by (metis prod.collapse)
  obtain s1 data s2 where n: "namespaceLabels ?e ?ns s = (Inr ls, s1)"
      "NewResourceData ls (account_logger OpUpdate (ac_cr s)) (pool_db_pool E (pool_New E km cfg)) s1 = (data, s2)"
    and f: "ac_cr s2 = ac_cr s" "km_entries s2 = km_entries s" "world s2 = w1" "rd_namespace data = ?ns"
      "rd_pool data = pool_db_pool E (pool_New E km cfg)" "ResolvedAccountName data = resolved_name (ac_cr s)"
      "NamespaceLabels data = ls"
    by (rule enter_run [OF w1])
  from run [OF f(1,2) _ f(5,4,6,7)] f(3) w1 obtain s3
    where a: "account_apply E ?m data s2 = (out, s3)" "Q s3" by auto
  let ?out = "(Abort out)\<lparr>oc_Module := accountModuleName\<rparr>" and ?s3 = "syncStatus E ?m data s3"
  obtain res s4 where p: "pipeline_Apply X (xt_pipeline ?e) data s2 = (res, s4)" by fastforce
  have r: "ar_Outcomes res = [?out]"
    "s4 = (if out = Done then ?s3\<lparr>ac_cr := SetObservedGeneration (om_Generation (sa_Meta (ac_cr ?s3))) (ac_cr ?s3)\<rparr>
      else ?s3)"
    using p a out Done_not_Pending
    by (auto simp: pipeline_Apply_def Let_def account_pmodule_def account_Apply_def result_complete_def AllDone_def
        Abort_def split: if_splits)
  have "outcomes_Err (ar_Outcomes res) = None" using out r(1) by auto
  with leave_run [OF _ n p] assms(2) obtain s' where u: "apply_cr E X ?e s = (None, s')"
      "ac_cr s' = ac_cr (report_run X (result_report X res) s4)"
    unfolding kube_works_def by blast
  have "cr_locator s' = cr_locator s3 \<and> same_identity (ac_cr s3) (ac_cr s') \<and>
      st_AccountCreatedAt (sa_Status (ac_cr s')) = st_AccountCreatedAt (sa_Status (ac_cr s3)) \<and>
      (out = Done \<longrightarrow> st_ObservedGeneration (sa_Status (ac_cr s')) = om_Generation (sa_Meta (ac_cr s3)))"
    using u(2) report_run_frame [of s4 X "result_report X res"] syncStatus_frame [of s3 E ?m data] r(2)
    by (auto simp: same_record_def same_identity_def cr_kept_def SetObservedGeneration_def split: if_splits)
  moreover have "readyLatched X s'" if "out = Done"
  proof -
    have "result_complete res" using r(1) that by (simp add: result_complete_def AllDone_def)
    then have "rp_Ready (result_report X res) = xp_Available X"
      by (simp add: result_report_def result_Ready_def ready_def)
    with assms(1) u(2) show ?thesis
      by (simp add: readyLatched_def report_run_def set_conditions_def sa_GetCondition_Set) (simp add: xpv1_ok_def)
  qed
  ultimately show ?thesis using a(2) u(1) by blast
qed

text \<open>The sample environment with a clock that moves.\<close>

definition moving_env :: "nat env" where
  "moving_env = sample_env\<lparr>env_now := (\<lambda>w. (1000000000000 * int w, Suc w))\<rparr>"

lemma moving_readable: "readable moving_env ''json''"
  by (simp add: readable_def moving_env_def sample_env_def unmarshalCredentials_def parsePrivateKey_def)

end
