(* ===== verification/Deprovisioning.thy ===== *)
theory Deprovisioning
  imports Provisioning
begin

text \<open>
  The other end of an account's life: when the systems around the controller answer, an account under
  deletion with a live permit is removed.  The permit's own controller makes it Active, the lookup of
  the account's controller finds it, the teardown drops the account and deletes its credential, the
  permit is consumed, and the next Observe lets the managed reconciler remove the finalizer.
\<close>

subsection \<open>A world that answers a deletion\<close>

definition teardown_works ::
  "'w env \<Rightarrow> 'w kube \<Rightarrow> config \<Rightarrow> 'w key_manager \<Rightarrow> snowflakeAccount \<Rightarrow> bool" where
  "teardown_works E kube cfg km cr \<longleftrightarrow>
     (\<forall>w. \<exists>ls. fst (kb_GetNamespace kube (om_Namespace (sa_Meta cr)) w) = Inr ls) \<and>
     (\<forall>p w. fst (kb_UpdatePermitStatus kube p w) = None) \<and>
     (\<forall>d t w. fst (env_ping E d t w) = None) \<and>
     (\<forall>d q args w. has_prefix q ''DROP ACCOUNT'' \<longrightarrow> fst (env_exec E d q args w) = None) \<and>
     (\<exists>idt. tenant_ident cfg cr = Inr idt \<and> (\<forall>w. fst (ks_Delete (km_store km) idt w) = None)) \<and>
     (\<exists>idt. NewOrgAdminIdentifier (sf_Org (cfg_Snowflake cfg)) (sf_OrgAdminAccount (cfg_Snowflake cfg)) = Inr idt \<and>
        holds_key E km idt) \<and>
     cloud_region (sf_OrgAdminAccountRegion (cfg_Snowflake cfg))"

text \<open>As far as DROP ACCOUNT: the namespace can be read, the organisation's connection opens and
  Snowflake accepts the statement.  Nothing is said of the store's delete.\<close>

definition answers_drop ::
  "'w env \<Rightarrow> 'w kube \<Rightarrow> config \<Rightarrow> 'w key_manager \<Rightarrow> snowflakeAccount \<Rightarrow> bool" where
  "answers_drop E kube cfg km cr \<longleftrightarrow>
     (\<forall>w. \<exists>ls. fst (kb_GetNamespace kube (om_Namespace (sa_Meta cr)) w) = Inr ls) \<and>
     (\<forall>d t w. fst (env_ping E d t w) = None) \<and>
     (\<forall>d q args w. has_prefix q ''DROP ACCOUNT'' \<longrightarrow> fst (env_exec E d q args w) = None) \<and>
     (\<exists>idt. NewOrgAdminIdentifier (sf_Org (cfg_Snowflake cfg)) (sf_OrgAdminAccount (cfg_Snowflake cfg)) = Inr idt \<and>
        holds_key E km idt) \<and>
     cloud_region (sf_OrgAdminAccountRegion (cfg_Snowflake cfg))"

lemma teardown_works_drop: "teardown_works E kube cfg km cr \<Longrightarrow> answers_drop E kube cfg km cr"
  unfolding teardown_works_def answers_drop_def by (elim conjE) (intro conjI)

text \<open>The store refuses to delete this account's credential.\<close>

definition delete_refused :: "config \<Rightarrow> 'w key_manager \<Rightarrow> snowflakeAccount \<Rightarrow> bool" where
  "delete_refused cfg km cr \<longleftrightarrow>
     (\<exists>idt. tenant_ident cfg cr = Inr idt \<and> (\<forall>w. fst (ks_Delete (km_store km) idt w) \<noteq> None))"

text \<open>The permit names this account and its window is open when its controller looks at it.\<close>

definition permits_now :: "'w env \<Rightarrow> snowflakeAccount \<Rightarrow> deletionPermit \<Rightarrow> ('w, 'z) sys_scheme \<Rightarrow> bool" where
  "permits_now E cr q t \<longleftrightarrow>
     tr_Kind (ps_TargetRef (dp_Spec q)) = snowflakeAccountKind \<and>
     tr_Name (ps_TargetRef (dp_Spec q)) = om_Name (sa_Meta cr) \<and>
     om_DeletionTimestamp (dp_Meta q) = None \<and> \<not> terminal (pt_State (dp_Status q)) \<and>
     fst (env_now E (world t)) \<le> created q + ps_Duration (dp_Spec q)"

lemma observed_permit_matches:
  assumes "permits_now E cr q t" and "permit_Observe E X q t = (obs, q', t')"
  shows "matching snowflakeAccountKind (om_Name (sa_Meta cr)) q'"
  using permit_Observe_state [OF assms(2)] assms(1)
  by (auto simp: permits_now_def matching_def split: if_splits)

subsection \<open>The teardown\<close>

lemma drop_ok:
  fixes s :: "('w, 'z) acc_sys_scheme"
  assumes "answers_drop E kube cfg km (ac_cr s)" and "readable_cache E s"
    and "rd_pool data = pool_db_pool E (pool_New E km cfg)"
  shows "\<exists>s'. dropAccount E (account_module_of cfg km bp) data s = (None, s')"
proof -
  from assms(1) obtain i where i: "NewOrgAdminIdentifier (sf_Org (cfg_Snowflake cfg))
      (sf_OrgAdminAccount (cfg_Snowflake cfg)) = Inr i" "holds_key E km i"
      "cloud_region (sf_OrgAdminAccountRegion (cfg_Snowflake cfg))" "\<And>d t w. fst (env_ping E d t w) = None"
    by (auto simp: answers_drop_def)
  from org_ok_at [OF this assms(2)] obtain db s1 where "OrgAdminDB E (pool_New E km cfg) s = (Inr db, s1)" by blast
  then have o: "rd_OrgAdminDB data s = (Inr db, s1)" by (simp add: rd_OrgAdminDB_def assms(3) pool_db_pool_def)
  let ?q = "drop_account_sql (am_deletionGracePeriodDays (account_module_of cfg km bp))"
  have "has_prefix ?q ''DROP ACCOUNT''" by (simp add: drop_account_sql_def)
  with assms(1) have "fst (env_exec E db ?q [ResolvedAccountName data] (world s1)) = None"
    unfolding answers_drop_def by blast
  then obtain w where "env_exec E db ?q [ResolvedAccountName data] (world s1) = (None, w)"
    by (metis prod.collapse)
  with o show ?thesis
    by (simp add: dropAccount_def runner_Exec_def statement_New_def db_executor_def call_def)
qed

lemma credential_ok:
  fixes s :: "('w, 'z) acc_sys_scheme"
  assumes "teardown_works E kube cfg km cr" and "sa_Meta (ac_cr s) = sa_Meta cr"
  shows "\<exists>s'. deleteCredential (account_module_of cfg km bp) s = (None, s')"
proof -
  from assms(1) obtain idt where i: "tenant_ident cfg cr = Inr idt" "\<And>w. fst (ks_Delete (km_store km) idt w) = None"
    by (auto simp: teardown_works_def)
  obtain w where "ks_Delete (km_store km) idt (world s) = (None, w)" using i(2) by (metis prod.collapse)
  with i(1) assms(2) show ?thesis
    by (simp add: deleteCredential_def DeleteCredentials_def call_def Let_def account_module_of_def account_New_def)
qed

lemma teardown_ok:
  fixes s :: "('w, 'z) acc_sys_scheme"
  assumes "teardown_works E kube cfg km (ac_cr s)" and "readable_cache E s"
    and "rd_pool data = pool_db_pool E (pool_New E km cfg)"
  shows "\<exists>s'. account_Teardown E (account_module_of cfg km bp) data s = (None, s')"
proof (cases "cr_locator s = []")
  case True
  with credential_ok [OF assms(1) refl] show ?thesis by (simp add: account_Teardown_def)
next
  case False
  obtain s1 where d: "dropAccount E (account_module_of cfg km bp) data s = (None, s1)"
    using drop_ok [OF teardown_works_drop [OF assms(1)] assms(2,3)] by blast
  let ?s3 = "set_status (\<lambda>st. st\<lparr>st_AccountLocator := []\<rparr>) (rd_EvictTenant data s1)"
  have "sa_Meta (ac_cr ?s3) = sa_Meta (ac_cr s)"
    using pl.dropAccount_frame [OF assms(3) d] pl.rd_EvictTenant_frame [OF assms(3), of s1] by simp
  from credential_ok [OF assms(1) this, of bp] False d show ?thesis by (auto simp: account_Teardown_def Let_def)
qed

lemma delete_phase3_ok:
  fixes s :: "('w, 'z) acc_sys_scheme"
  assumes "teardown_works E kube cfg km (ac_cr s)" and "readable_cache E s"
  shows "\<exists>s'. delete_phase3 E (account_client E kube cfg km bp) log permit s = (None, s')"
proof -
  let ?e = "account_client E kube cfg km bp :: ('w, ('w, 'z) acc_sys_scheme) external"
  obtain ls w1 where w1: "kb_GetNamespace kube (om_Namespace (sa_Meta (ac_cr s))) (world s) = (Inr ls, w1)"
    using assms(1) unfolding teardown_works_def by (metis prod.collapse)
  obtain s1 data s2 where n: "namespaceLabels ?e (om_Namespace (sa_Meta (ac_cr s))) s = (Inr ls, s1)"
    and d: "NewResourceData ls log (pool_db_pool E (pool_New E km cfg)) s1 = (data, s2)"
    and f: "ac_cr s2 = ac_cr s" "km_entries s2 = km_entries s" "rd_pool data = pool_db_pool E (pool_New E km cfg)"
    by (rule enter_run [OF w1])
  obtain s3 where t: "account_Teardown E (account_module_of cfg km bp) data s2 = (None, s3)"
    using teardown_ok [of E kube cfg km s2 data bp] assms f by (auto simp: readable_cache_def)
  then have p: "pipeline_Destroy (xt_pipeline ?e) data s2 = (None, s3)"
    by (simp add: pipeline_Destroy_def account_pmodule_def)
  show ?thesis
  proof (cases permit)
    case None
    with n d p show ?thesis by (simp add: delete_phase3_def)
  next
    case (Some q)
    let ?q = "q\<lparr>dp_Status := (dp_Status q)\<lparr>pt_State := stateConsumed\<rparr>\<rparr>"
    obtain w where "kb_UpdatePermitStatus kube ?q (world s3) = (None, w)"
      using assms(1) unfolding teardown_works_def by (metis prod.collapse)
    with n d p Some show ?thesis by (simp add: delete_phase3_def MarkConsumed_def call_def Let_def)
  qed
qed


lemma Delete_ok:
  fixes s :: "('w, 'z) acc_sys_scheme"
  assumes "teardown_works E kube cfg km (ac_cr s)" and "readable_cache E s"
    and "kb_ListPermits kube (om_Namespace (sa_Meta (ac_cr s))) (world s) = (Inr items, w)"
    and "q \<in> set items" and "matching snowflakeAccountKind (om_Name (sa_Meta (ac_cr s))) q"
  shows "\<exists>s'. Delete E X (account_client E kube cfg km bp) s = (None, s')"
proof -
  let ?ns = "om_Namespace (sa_Meta (ac_cr s))" and ?name = "om_Name (sa_Meta (ac_cr s))"
  from find_earliest_None [of snowflakeAccountKind ?name None items] assms(4,5)
  obtain p where p: "find_earliest snowflakeAccountKind ?name None items = Some p" by blast
  let ?s1 = "s\<lparr>world := w, trace := trace s @ [ListPermits ?ns]\<rparr>"
  have f: "FindActivePermit kube ?ns snowflakeAccountKind ?name s = (Inr (Some p), ?s1)"
    using assms(3) p by (simp add: FindActivePermit_def call_def)
  have "teardown_works E kube cfg km (ac_cr ?s1)" "readable_cache E ?s1"
    using assms(1,2) by (simp_all add: readable_cache_def)
  note d = delete_phase3_ok [OF this]
  have "teardown_works E kube cfg km (ac_cr s)" "readable_cache E s" by (fact assms)+
  note d' = delete_phase3_ok [OF this]
  from f d d' show ?thesis by (simp add: Delete_def Let_def)
qed

text \<open>A teardown whose last step, the deletion of the credential, is refused.\<close>

lemma refused_teardown:
  fixes s :: "('w, 'z) acc_sys_scheme"
  assumes "answers_drop E kube cfg km (ac_cr s)" and "delete_refused cfg km (ac_cr s)" and "readable_cache E s"
    and "cr_locator s \<noteq> []" and "rd_pool data = pool_db_pool E (pool_New E km cfg)"
    and "ResolvedAccountName data = resolved_name (ac_cr s)" and "rd_namespace data = om_Namespace (sa_Meta (ac_cr s))"
  shows "\<exists>e s' i s1 w. account_Teardown E (account_module_of cfg km bp) data s = (Some e, s') \<and> cr_locator s' = [] \<and>
    sa_Meta (ac_cr s') = sa_Meta (ac_cr s) \<and> account_dropped E cfg km (ac_cr s) s s1 \<and>
    tenant_ident cfg (ac_cr s) = Inr i \<and> (\<exists>e'. ks_Delete (km_store km) i (world s1) = (Some e', w)) \<and>
    trace s' = trace s1 @ [DeleteSecret i]"
proof -
  let ?m = "account_module_of cfg km bp"
  obtain s1 where d: "dropAccount E ?m data s = (None, s1)" using drop_ok [OF assms(1,3,5)] by blast
  let ?s2 = "rd_EvictTenant data s1"
  let ?s3 = "set_status (\<lambda>st. st\<lparr>st_AccountLocator := []\<rparr>) ?s2"
  have meta: "sa_Meta (ac_cr ?s2) = sa_Meta (ac_cr s)"
    using pl.dropAccount_frame [OF assms(5) d] pl.rd_EvictTenant_frame [OF assms(5), of s1] by simp
  note dropped = drop_answered [OF assms(5-7) d]
  from assms(2) obtain i e' w where i: "tenant_ident cfg (ac_cr s) = Inr i"
      "ks_Delete (km_store km) i (world ?s2) = (Some e', w)"
    unfolding delete_refused_def by (metis not_None_eq prod.collapse)
  let ?s4 = "?s3\<lparr>world := w, trace := trace ?s2 @ [DeleteSecret i]\<rparr>"
  have "deleteCredential ?m ?s3 = (Some (wrap ''failed to delete platform credential: '' e'), ?s4)"
    using i meta by (simp add: deleteCredential_def DeleteCredentials_def call_def Let_def account_module_of_def
        account_New_def set_status_def)
  with d assms(4) have "account_Teardown E ?m data s = (Some (wrap ''failed to delete platform credential: '' e'), ?s4)"
    by (simp add: account_Teardown_def Let_def)
  moreover have "cr_locator ?s4 = []" "sa_Meta (ac_cr ?s4) = sa_Meta (ac_cr s)" using meta by (simp_all add: set_status_def)
  ultimately show ?thesis using dropped i by (intro exI conjI) (assumption | simp)+
qed

lemma refused_phase3:
  fixes s :: "('w, 'z) acc_sys_scheme"
  assumes "answers_drop E kube cfg km (ac_cr s)" and "delete_refused cfg km (ac_cr s)" and "readable_cache E s"
    and "cr_locator s \<noteq> []"
  shows "\<exists>r s' i logs (s2 :: ('w, 'z) acc_sys_scheme) s3 w. delete_phase3 E (account_client E kube cfg km bp) log permit s = (r, s') \<and>
    r \<noteq> None \<and> opaque r \<and> cr_locator s' = [] \<and> sa_Meta (ac_cr s') = sa_Meta (ac_cr s) \<and>
    trace s2 = trace s @ [GetNamespace (om_Namespace (sa_Meta (ac_cr s)))] \<and> account_dropped E cfg km (ac_cr s) s2 s3 \<and>
    tenant_ident cfg (ac_cr s) = Inr i \<and> (\<exists>e. ks_Delete (km_store km) i (world s3) = (Some e, w)) \<and>
    trace s' = trace s3 @ DeleteSecret i # logs \<and> list_all is_log logs"
proof -
  let ?e = "account_client E kube cfg km bp :: ('w, ('w, 'z) acc_sys_scheme) external"
  obtain ls w1 where w1: "kb_GetNamespace kube (om_Namespace (sa_Meta (ac_cr s))) (world s) = (Inr ls, w1)"
    using assms(1) unfolding answers_drop_def by (metis prod.collapse)
  obtain s1 data s2 where n: "namespaceLabels ?e (om_Namespace (sa_Meta (ac_cr s))) s = (Inr ls, s1)"
    and d: "NewResourceData ls log (pool_db_pool E (pool_New E km cfg)) s1 = (data, s2)"
    and f: "ac_cr s2 = ac_cr s" "km_entries s2 = km_entries s" "rd_pool data = pool_db_pool E (pool_New E km cfg)"
      "ResolvedAccountName data = resolved_name (ac_cr s)" "rd_namespace data = om_Namespace (sa_Meta (ac_cr s))"
    by (rule enter_run [OF w1])
  from namespaceLabels_frame [OF n] NewResourceData_frame [OF d]
  have t2: "trace s2 = trace s @ [GetNamespace (om_Namespace (sa_Meta (ac_cr s)))]" by simp
  have "readable_cache E s2" using assms(3) f(2) by (simp add: readable_cache_def)
  from refused_teardown [of E kube cfg km s2 data bp, unfolded f(1), OF assms(1,2) this assms(4) f(3-5)]
  obtain e s4 i s3 w where t: "account_Teardown E (account_module_of cfg km bp) data s2 = (Some e, s4)"
    "cr_locator s4 = []" "sa_Meta (ac_cr s4) = sa_Meta (ac_cr s)"
    and a: "account_dropped E cfg km (ac_cr s) s2 s3" "tenant_ident cfg (ac_cr s) = Inr i"
      "\<exists>e. ks_Delete (km_store km) i (world s3) = (Some e, w)" "trace s4 = trace s3 @ [DeleteSecret i]" by blast
  obtain r s5 where h: "Handle E log (Some e) s4 = (r, s5)" by fastforce
  from Handle_acc [OF h] obtain logs where g: "trace s5 = trace s4 @ logs" "list_all is_log logs" "ac_cr s5 = ac_cr s4" "r \<noteq> None"
    by (auto simp: emits_def)
  from t(1) have "pipeline_Destroy (xt_pipeline ?e) data s2 = (Some e, s4)" by (simp add: pipeline_Destroy_account)
  with n d h have "delete_phase3 E ?e log permit s = (r, s5)" by (simp add: delete_phase3_def)
  moreover have "cr_locator s5 = []" "sa_Meta (ac_cr s5) = sa_Meta (ac_cr s)" "trace s5 = trace s3 @ DeleteSecret i # logs"
    using g t a by simp_all
  ultimately show ?thesis using g(2,4) Handle_is_opaque [OF h] t2 a(1-3) by blast
qed

text \<open>Whatever becomes of the credential and of the permit, a teardown that gets as far has dropped the
  account.\<close>

lemma dropping_teardown:
  fixes s :: "('w, 'z) acc_sys_scheme"
  assumes "answers_drop E kube cfg km (ac_cr s)" and "readable_cache E s" and "cr_locator s \<noteq> []"
    and "rd_pool data = pool_db_pool E (pool_New E km cfg)"
    and "ResolvedAccountName data = resolved_name (ac_cr s)" and "rd_namespace data = om_Namespace (sa_Meta (ac_cr s))"
    and "account_Teardown E (account_module_of cfg km bp) data s = (r, s')"
  shows "cr_locator s' = [] \<and> (\<exists>s1. account_dropped E cfg km (ac_cr s) s s1 \<and> emits (\<lambda>_. True) s1 s')"
proof -
  let ?m = "account_module_of cfg km bp"
  obtain s1 where d: "dropAccount E ?m data s = (None, s1)" using drop_ok [OF assms(1,2,4)] by blast
  let ?s3 = "set_status (\<lambda>st. st\<lparr>st_AccountLocator := []\<rparr>) (rd_EvictTenant data s1)"
  have "deleteCredential ?m ?s3 = (r, s')" using assms(3,7) d by (simp add: account_Teardown_def Let_def)
  from deleteCredential_frame [OF this] have "cr_locator s' = []" "emits (\<lambda>_. True) (rd_EvictTenant data s1) s'"
    by (auto simp: emits_def split: sum.splits)
  with drop_answered [OF assms(4-6) d] show ?thesis by blast
qed

lemma dropping_phase3:
  fixes s :: "('w, 'z) acc_sys_scheme"
  assumes "answers_drop E kube cfg km (ac_cr s)" and "readable_cache E s" and "cr_locator s \<noteq> []"
    and "delete_phase3 E (account_client E kube cfg km bp) log permit s = (r, s')"
  shows "cr_locator s' = [] \<and> (\<exists>(s2 :: ('w, 'z) acc_sys_scheme) s3. emits (\<lambda>_. True) s s2 \<and>
    account_dropped E cfg km (ac_cr s) s2 s3 \<and> emits (\<lambda>_. True) s3 s')"
proof -
  let ?e = "account_client E kube cfg km bp :: ('w, ('w, 'z) acc_sys_scheme) external"
  obtain ls w1 where w1: "kb_GetNamespace kube (om_Namespace (sa_Meta (ac_cr s))) (world s) = (Inr ls, w1)"
    using assms(1) unfolding answers_drop_def by (metis prod.collapse)
  obtain s1 data s2 where n: "namespaceLabels ?e (om_Namespace (sa_Meta (ac_cr s))) s = (Inr ls, s1)"
    and d: "NewResourceData ls log (pool_db_pool E (pool_New E km cfg)) s1 = (data, s2)"
    and f: "ac_cr s2 = ac_cr s" "km_entries s2 = km_entries s" "rd_pool data = pool_db_pool E (pool_New E km cfg)"
      "ResolvedAccountName data = resolved_name (ac_cr s)" "rd_namespace data = om_Namespace (sa_Meta (ac_cr s))"
    by (rule enter_run [OF w1])
  from namespaceLabels_frame [OF n] NewResourceData_frame [OF d] have t2: "emits (\<lambda>_. True) s s2" by (simp add: emits_def)
  have rc: "readable_cache E s2" using assms(2) f(2) by (simp add: readable_cache_def)
  obtain q s4 where t: "account_Teardown E (account_module_of cfg km bp) data s2 = (q, s4)" by fastforce
  from dropping_teardown [of E kube cfg km s2 data bp, unfolded f(1), OF assms(1) rc assms(3) f(3-5) t]
  obtain s3 where a: "cr_locator s4 = []" "account_dropped E cfg km (ac_cr s) s2 s3" "emits (\<lambda>_. True) s3 s4" by blast
  from t have p: "pipeline_Destroy (xt_pipeline ?e) data s2 = (q, s4)" by (simp add: pipeline_Destroy_account)
  have "ac_cr s' = ac_cr s4 \<and> emits (\<lambda>_. True) s4 s'"
  proof (cases q)
    case (Some e)
    with assms(4) n d p have "Handle E log (Some e) s4 = (r, s')" by (simp add: delete_phase3_def)
    from Handle_acc [OF this] show ?thesis by (auto simp: emits_def list_all_iff)
  next
    case None
    show ?thesis
    proof (cases permit)
      case None
      with assms(4) n d p \<open>q = None\<close> show ?thesis by (simp add: delete_phase3_def)
    next
      case (Some pm)
      obtain u pm' s5 where mc: "MarkConsumed kube pm s4 = (u, pm', s5)" by (metis prod_cases3)
      from MarkConsumed_permit [OF mc] have "ac_cr s5 = ac_cr s4" "emits (\<lambda>_. True) s4 s5"
        by (auto simp: emits_def dest: sys_more_acc)
      with assms(4) n d p \<open>q = None\<close> Some mc show ?thesis by (simp add: delete_phase3_def)
    qed
  qed
  with a t2 show ?thesis by (metis emits_trans)
qed

text \<open>The lookup that lets a Delete go on.\<close>

definition may_delete :: "'w kube \<Rightarrow> config \<Rightarrow> snowflakeAccount \<Rightarrow> 'w \<Rightarrow> bool" where
  "may_delete kube cfg cr w \<longleftrightarrow> (del_Protection (cfg_Deletion cfg) \<longrightarrow>
     (\<exists>items w' q. kb_ListPermits kube (om_Namespace (sa_Meta cr)) w = (Inr items, w') \<and> q \<in> set items \<and>
        matching snowflakeAccountKind (om_Name (sa_Meta cr)) q))"

lemma permitted_Delete:
  fixes s :: "('w, 'z) acc_sys_scheme"
  assumes "may_delete kube cfg (ac_cr s) (world s)"
  obtains permit s1 where "Delete E X (account_client E kube cfg km bp) s =
      delete_phase3 E (account_client E kube cfg km bp) (account_logger OpDelete (ac_cr s)) permit s1"
    "ac_cr s1 = ac_cr s" "km_entries s1 = km_entries s"
    "trace s1 = trace s @ (if del_Protection (cfg_Deletion cfg) then [ListPermits (om_Namespace (sa_Meta (ac_cr s)))] else [])"
proof (cases "del_Protection (cfg_Deletion cfg)")
  case False
  with that [of None s] show thesis by (simp add: Delete_def)
next
  case True
  let ?ns = "om_Namespace (sa_Meta (ac_cr s))" and ?name = "om_Name (sa_Meta (ac_cr s))"
  from assms True obtain items w q where l: "kb_ListPermits kube ?ns (world s) = (Inr items, w)" "q \<in> set items"
      "matching snowflakeAccountKind ?name q" by (auto simp: may_delete_def)
  from find_earliest_None [of snowflakeAccountKind ?name None items] l(2,3)
  obtain p where p: "find_earliest snowflakeAccountKind ?name None items = Some p" by blast
  let ?s1 = "s\<lparr>world := w, trace := trace s @ [ListPermits ?ns]\<rparr>"
  have "FindActivePermit kube ?ns snowflakeAccountKind ?name s = (Inr (Some p), ?s1)"
    using l(1) p by (simp add: FindActivePermit_def call_def)
  with True that [of "Some p" ?s1] show thesis by (simp add: Delete_def)
qed

lemma dropping_Delete:
  fixes s :: "('w, 'z) acc_sys_scheme"
  assumes "answers_drop E kube cfg km (ac_cr s)" and "readable_cache E s" and "cr_locator s \<noteq> []"
    and "may_delete kube cfg (ac_cr s) (world s)" and "Delete E X (account_client E kube cfg km bp) s = (r, s')"
  shows "cr_locator s' = [] \<and> (\<exists>(s2 :: ('w, 'z) acc_sys_scheme) s3. emits (\<lambda>_. True) s s2 \<and>
    account_dropped E cfg km (ac_cr s) s2 s3 \<and> emits (\<lambda>_. True) s3 s')"
proof -
  obtain permit s1 where d: "Delete E X (account_client E kube cfg km bp) s =
      delete_phase3 E (account_client E kube cfg km bp) (account_logger OpDelete (ac_cr s)) permit s1"
    "ac_cr s1 = ac_cr s" "km_entries s1 = km_entries s"
    "trace s1 = trace s @ (if del_Protection (cfg_Deletion cfg) then [ListPermits (om_Namespace (sa_Meta (ac_cr s)))] else [])"
    by (rule permitted_Delete [OF assms(4)])
  have "readable_cache E s1" using assms(2) d(3) by (simp add: readable_cache_def)
  from dropping_phase3 [of E kube cfg km s1, unfolded d(2), OF assms(1) this assms(3)] d(1) assms(5)
  obtain s2 s3 :: "('w, 'z) acc_sys_scheme" where "cr_locator s' = []" "emits (\<lambda>_. True) s1 s2"
    "account_dropped E cfg km (ac_cr s) s2 s3" "emits (\<lambda>_. True) s3 s'" by metis
  moreover have "emits (\<lambda>_. True) s s1" using d(4) by (simp add: emits_def)
  ultimately show ?thesis by (metis emits_trans)
qed

subsection \<open>The properties\<close>

text \<open>C14: An account under deletion is removed once it is permitted.  Its permit's controller looks at
  the permit inside its window, the permit is listed as that look left it, and the systems answer: then
  Delete returns without an error; it has sent DROP ACCOUNT for this account if it had a locator,
  deleted its credential and, last, consumed an active permit for it; and the next Observe reports that
  nothing exists any more, so the finalizer goes.\<close>

theorem deprovisioning_converges:
  fixes s u :: "('w, 'z) acc_sys_scheme" and t :: "('w, 'y) sys_scheme"
  assumes "teardown_works E kube cfg km (ac_cr s)" and "readable_cache E s"
    and "del_Protection (cfg_Deletion cfg)" and "om_DeletionTimestamp (sa_Meta (ac_cr s)) \<noteq> None"
    and "permits_now E (ac_cr s) q t" and "permit_Observe E X q t = (seen, q', t')"
    and "kb_ListPermits kube (om_Namespace (sa_Meta (ac_cr s))) (world s) = (Inr items, w)" and "q' \<in> set items"
    and "Delete E X (account_client E kube cfg km bp) s = (r, s')"
    and "ac_cr u = ac_cr s'" and "Observe E X (account_client E kube cfg km bp) u = (obs, r', u')"
  shows "r = None \<and> cr_locator s' = [] \<and>
    (\<exists>i pre mid d p. tenant_ident cfg (ac_cr s) = Inr i \<and> authorised kube (ac_cr s) (world s) p \<and>
       list_all harmless pre \<and> list_all harmless mid \<and>
       trace s' = trace s @ pre @ (if cr_locator s = [] then [] else [drop_effect cfg (ac_cr s) d]) @ mid @
         [DeleteSecret i, UpdatePermitStatus (om_Namespace (dp_Meta p)) (om_Name (dp_Meta p)) stateConsumed]) \<and>
    obs = \<lparr>eo_ResourceExists = False, eo_ResourceUpToDate = True\<rparr> \<and> r' = None \<and> u' = u"
proof -
  note m = observed_permit_matches [OF assms(5,6)]
  from Delete_ok [OF assms(1,2,7,8) m, of X bp] assms(9) have r: "r = None" by auto
  from Delete_account [OF assms(9) [unfolded r]] obtain pre post rest i rest' permit where
    d: "trace s' = trace s @ pre @ post @ rest" "list_all harmless pre"
      "post = [] \<or> cr_locator s \<noteq> [] \<and> (\<exists>d. post = [drop_effect cfg (ac_cr s) d])"
      "cr_locator s' = []" "cr_locator s \<noteq> [] \<longrightarrow> post \<noteq> []" "tenant_ident cfg (ac_cr s) = Inr i"
      "list_all harmless rest'" "rest = rest' @ DeleteSecret i # consumption permit"
      "if del_Protection (cfg_Deletion cfg) then \<exists>p. permit = Some p \<and> authorised kube (ac_cr s) (world s) p
       else permit = None" "same_identity (ac_cr s) (ac_cr s')" by blast
  from d(9) assms(3) obtain p where p: "permit = Some p" "authorised kube (ac_cr s) (world s) p" by auto
  have "\<exists>d. post = (if cr_locator s = [] then [] else [drop_effect cfg (ac_cr s) d])" using d(3,5) by auto
  then obtain db where db: "post = (if cr_locator s = [] then [] else [drop_effect cfg (ac_cr s) db])" by blast
  have o: "obs = \<lparr>eo_ResourceExists = False, eo_ResourceUpToDate = True\<rparr> \<and> r' = None \<and> u' = u"
    using assms(4,10,11) d(4,10) by (simp add: Observe_def Let_def same_identity_def)
  have "tenant_ident cfg (ac_cr s) = Inr i \<and> authorised kube (ac_cr s) (world s) p \<and>
      list_all harmless pre \<and> list_all harmless rest' \<and>
      trace s' = trace s @ pre @ (if cr_locator s = [] then [] else [drop_effect cfg (ac_cr s) db]) @ rest' @
        [DeleteSecret i, UpdatePermitStatus (om_Namespace (dp_Meta p)) (om_Name (dp_Meta p)) stateConsumed]"
    using d db p by (simp add: consumption_def)
  with r d(4) o show ?thesis by blast
qed

lemma moving_teardown:
  "teardown_works moving_env (sample_kube permits) sample_cfg (sample_km_with None) (sample_account l d)"
proof -
  have "holds_key moving_env (sample_km_with None) i" for i
    using moving_readable by (simp add: holds_key_def sample_km_with_def sample_store_def)
  moreover have "cloud_region ''aws-eu-central-1''" using sample_host Hostname_Inr_iff by blast
  ultimately show ?thesis
    using sample_identifier sample_orgadmin_identifier
    by (auto simp: teardown_works_def sample_kube_def moving_env_def sample_env_def sample_account_def
        sample_meta_def sample_cfg_def sample_km_with_def)
qed

lemma deprovisioning_converges_witness:
  "\<exists>seen q' t' s' pre d mid i. permit_Observe moving_env simple_xpv1 sample_permit sample_sys = (seen, q', t') \<and>
     Delete moving_env simple_xpv1 (account_client moving_env (sample_kube [q']) sample_cfg (sample_km_with None)
       sample_backplane) (sample_start ''xy12345'' (Some 5)) = (None, s') \<and> cr_locator s' = [] \<and>
     trace s' = pre @ drop_effect sample_cfg (sample_account ''xy12345'' (Some 5)) d # mid @
       [DeleteSecret i, UpdatePermitStatus ''ns'' ''permit'' stateConsumed]"
proof -
  obtain seen q' t' where o: "permit_Observe moving_env simple_xpv1 sample_permit sample_sys = (seen, q', t')"
    by (metis prod_cases3)
  let ?e = "account_client moving_env (sample_kube [q']) sample_cfg (sample_km_with None) sample_backplane ::
    (nat, nat acc_sys) external" and ?s = "sample_start ''xy12345'' (Some 5)"
  have p: "permits_now moving_env (ac_cr ?s) sample_permit sample_sys"
    by (simp add: permits_now_def sample_permit_def sample_acc_sys_def sample_account_def sample_meta_def snowflakeAccountKind_def
        terminal_def stateExpired_def stateConsumed_def moving_env_def sample_sys_def)
  have w: "teardown_works moving_env (sample_kube [q']) sample_cfg (sample_km_with None) (ac_cr ?s)"
    "readable_cache moving_env ?s" "del_Protection (cfg_Deletion sample_cfg)"
    "om_DeletionTimestamp (sa_Meta (ac_cr ?s)) \<noteq> None"
    using moving_teardown by (simp_all add: readable_cache_def sample_cfg_def sample_acc_sys_def sample_account_def sample_meta_def)
  have l: "kb_ListPermits (sample_kube [q']) (om_Namespace (sa_Meta (ac_cr ?s))) (world ?s) = (Inr [q'], 0)" "q' \<in> set [q']"
    by (simp_all add: sample_kube_def)
  obtain r s' where d: "Delete moving_env simple_xpv1 ?e ?s = (r, s')" by fastforce
  obtain obs r' u' where u: "Observe moving_env simple_xpv1 ?e s' = (obs, r', u')" by (metis prod_cases3)
  from deprovisioning_converges [OF w p o l d refl u] obtain i pre mid db q
    where c: "r = None" "cr_locator s' = []" "authorised (sample_kube [q']) (ac_cr ?s) (world ?s) q"
      "trace s' = pre @ drop_effect sample_cfg (sample_account ''xy12345'' (Some 5)) db # mid @
        [DeleteSecret i, UpdatePermitStatus (om_Namespace (dp_Meta q)) (om_Name (dp_Meta q)) stateConsumed]" by auto
  then have "q = q'" by (auto simp: authorised_def sample_kube_def)
  with permit_Observe_state [OF o] have "om_Namespace (dp_Meta q) = ''ns''" "om_Name (dp_Meta q) = ''permit''"
    by (simp_all add: sample_permit_def sample_meta_def)
  with c o d show ?thesis by auto
qed

text \<open>C10: Once Snowflake accepted DROP ACCOUNT, the resource counts as gone even if the store then
  refuses to delete the credential.  That Delete reports an opaque error; it sent the DROP ACCOUNT
  and the refused deletion, cleared the locator, and left every permit as it was.  The next Observe
  nevertheless reports that no external resource exists, without reading anything, so the managed
  reconciler removes the finalizer instead of calling Delete again, and the credential stays stored.\<close>

theorem dropped_is_gone:
  fixes s u :: "('w, 'z) acc_sys_scheme"
  assumes "answers_drop E kube cfg km (ac_cr s)" and "delete_refused cfg km (ac_cr s)" and "readable_cache E s"
    and "cr_locator s \<noteq> []" and "om_DeletionTimestamp (sa_Meta (ac_cr s)) \<noteq> None"
    and "may_delete kube cfg (ac_cr s) (world s)"
    and "Delete E X (account_client E kube cfg km bp) s = (r, s')"
    and "ac_cr u = ac_cr s'" and "Observe E X (account_client E kube cfg km bp) u = (obs, r', u')"
  shows "r \<noteq> None \<and> opaque r \<and> cr_locator s' = [] \<and>
    (\<exists>i logs (s2 :: ('w, 'z) acc_sys_scheme) s3 w e. account_dropped E cfg km (ac_cr s) s2 s3 \<and>
       tenant_ident cfg (ac_cr s) = Inr i \<and> ks_Delete (km_store km) i (world s3) = (Some e, w) \<and>
       trace s2 = trace s @ (if del_Protection (cfg_Deletion cfg) then [ListPermits (om_Namespace (sa_Meta (ac_cr s)))] else []) @
         [GetNamespace (om_Namespace (sa_Meta (ac_cr s)))] \<and>
       trace s' = trace s3 @ DeleteSecret i # logs \<and> list_all is_log logs) \<and>
    leaves_permits s s' \<and>
    obs = \<lparr>eo_ResourceExists = False, eo_ResourceUpToDate = True\<rparr> \<and> r' = None \<and> u' = u"
proof -
  obtain permit s1 where d: "Delete E X (account_client E kube cfg km bp) s =
      delete_phase3 E (account_client E kube cfg km bp) (account_logger OpDelete (ac_cr s)) permit s1"
    "ac_cr s1 = ac_cr s" "km_entries s1 = km_entries s"
    "trace s1 = trace s @ (if del_Protection (cfg_Deletion cfg) then [ListPermits (om_Namespace (sa_Meta (ac_cr s)))] else [])"
    by (rule permitted_Delete [OF assms(6)])
  have "readable_cache E s1" using assms(3) d(3) by (simp add: readable_cache_def)
  from refused_phase3 [of E kube cfg km s1 bp "account_logger OpDelete (ac_cr s)" permit, unfolded d(2), OF assms(1,2) this assms(4)]
    d(1) assms(7)
  obtain i logs w and s2 s3 :: "('w, 'z) acc_sys_scheme" where
    f: "r \<noteq> None" "opaque r" "cr_locator s' = []" "sa_Meta (ac_cr s') = sa_Meta (ac_cr s)"
      "trace s2 = trace s1 @ [GetNamespace (om_Namespace (sa_Meta (ac_cr s)))]" "account_dropped E cfg km (ac_cr s) s2 s3"
      "tenant_ident cfg (ac_cr s) = Inr i" "\<exists>e. ks_Delete (km_store km) i (world s3) = (Some e, w)"
      "trace s' = trace s3 @ DeleteSecret i # logs" "list_all is_log logs" by auto
  have "leaves_permits s2 s3" using dropped_permits [OF f(6)] .
  moreover have "leaves_permits s s2" "leaves_permits s3 s'"
    using f(5,9,10) d(4) list_all_weaken [OF f(10) no_permit_update(3)] by (auto simp: emits_def)
  ultimately have "leaves_permits s s'" by (blast intro: emits_trans)
  moreover have "obs = \<lparr>eo_ResourceExists = False, eo_ResourceUpToDate = True\<rparr> \<and> r' = None \<and> u' = u"
    using assms(5,8,9) f(3,4) by (simp add: Observe_def Let_def)
  moreover have "trace s2 = trace s @ (if del_Protection (cfg_Deletion cfg) then [ListPermits (om_Namespace (sa_Meta (ac_cr s)))] else []) @
      [GetNamespace (om_Namespace (sa_Meta (ac_cr s)))]" using f(5) d(4) by simp
  ultimately show ?thesis using f by blast
qed

lemma moving_answers_drop:
  "answers_drop moving_env (sample_kube permits) sample_cfg (sample_km_with e) (sample_account l d)"
proof -
  have "holds_key moving_env (sample_km_with e) i" for i
    using moving_readable by (simp add: holds_key_def sample_km_with_def sample_store_def)
  moreover have "cloud_region ''aws-eu-central-1''" using sample_host Hostname_Inr_iff by blast
  ultimately show ?thesis using sample_orgadmin_identifier
    by (auto simp: answers_drop_def sample_kube_def moving_env_def sample_env_def sample_cfg_def)
qed

lemma dropped_is_gone_witness:
  "\<exists>r s' obs u'. Delete moving_env simple_xpv1 (account_client moving_env (sample_kube [sample_permit]) sample_cfg
       (sample_km_with (Some (Foreign ''denied''))) sample_backplane) (sample_start ''xy12345'' (Some 5)) = (r, s') \<and>
     r \<noteq> None \<and> cr_locator s' = [] \<and> leaves_permits (sample_start ''xy12345'' (Some 5)) s' \<and>
     Observe moving_env simple_xpv1 (account_client moving_env (sample_kube [sample_permit]) sample_cfg
       (sample_km_with (Some (Foreign ''denied''))) sample_backplane) s' = (obs, None, u') \<and> \<not> eo_ResourceExists obs"
proof -
  let ?km = "sample_km_with (Some (Foreign ''denied''))" and ?s = "sample_start ''xy12345'' (Some 5)"
  let ?e = "account_client moving_env (sample_kube [sample_permit]) sample_cfg ?km sample_backplane :: (nat, nat acc_sys) external"
  have h: "answers_drop moving_env (sample_kube [sample_permit]) sample_cfg ?km (ac_cr ?s)"
    "delete_refused sample_cfg ?km (ac_cr ?s)" "readable_cache moving_env ?s" "cr_locator ?s \<noteq> []"
    "om_DeletionTimestamp (sa_Meta (ac_cr ?s)) \<noteq> None"
    using moving_answers_drop sample_identifier
    by (simp_all add: delete_refused_def sample_km_with_def sample_store_def readable_cache_def)
  have m: "may_delete (sample_kube [sample_permit]) sample_cfg (ac_cr ?s) (world ?s)"
    by (simp add: may_delete_def sample_kube_def matching_def sample_permit_def stateActive_def snowflakeAccountKind_def)
  obtain r s' where d: "Delete moving_env simple_xpv1 ?e ?s = (r, s')" by fastforce
  obtain obs r' u' where o: "Observe moving_env simple_xpv1 ?e s' = (obs, r', u')" by (metis prod_cases3)
  from dropped_is_gone [OF h m d refl o] d o show ?thesis by auto
qed

end
