(* ===== verification/Crash_Recovery.thy ===== *)
theory Crash_Recovery
  imports Provisioning
begin

text \<open>
  Interrupted creates.  A create can be cut off anywhere (a crash, a call that fails, a call that took
  effect although its answer was lost), leaving a stored credential, or a credential and an account,
  with no locator recorded.  \<open>taken\<close> and \<open>occ\<close> say of a world whether the account's name exists in the
  organization and whether its credential is stored; \<open>tenant_slot\<close> says what the calls of the program
  do to the two.  From it follows what the next attempt does: \<open>apply.go\<close>'s order of writes keeps
  \<open>taken\<close> within \<open>occ\<close>, so that it resumes instead of colliding with its own account.
\<close>

subsection \<open>What every call keeps\<close>

text \<open>A predicate on worlds that no call except CREATE ACCOUNT, DROP ACCOUNT and the store's Create and
  Delete falsifies.\<close>

definition calls_keep :: "'w env \<Rightarrow> 'w key_manager \<Rightarrow> 'w kube \<Rightarrow> ('w \<Rightarrow> bool) \<Rightarrow> bool" where
  "calls_keep E km kube P \<longleftrightarrow> (\<forall>w. P w \<longrightarrow>
     P (snd (env_now E w)) \<and> P (snd (env_uuid E w)) \<and> (\<forall>n. P (snd (env_rsaGenerate E n w))) \<and>
     (\<forall>d q args. has_prefix q ''ALTER USER'' \<longrightarrow> P (snd (env_exec E d q args w))) \<and>
     (\<forall>d q args. P (snd (env_query E d q args w))) \<and>
     (\<forall>c. P (snd (env_openDB E c w))) \<and> (\<forall>d t. P (snd (env_ping E d t w))) \<and>
     (\<forall>d. P (snd (env_closeDB E d w))) \<and> (\<forall>d a b t u. P (env_setLimits E d a b t u w)) \<and>
     (\<forall>i. P (snd (ks_Get (km_store km) i w))) \<and> (\<forall>i v. P (snd (ks_Update (km_store km) i v w))) \<and>
     (\<forall>n. P (snd (kb_GetNamespace kube n w))) \<and> (\<forall>a. P (snd (kb_UpdateAccountStatus kube a w))))"

abbreviation kept :: "('w \<Rightarrow> bool) \<Rightarrow> ('w, 'z) sys_scheme \<Rightarrow> ('w, 'z) sys_scheme \<Rightarrow> bool" where
  "kept P s s' \<equiv> P (world s) \<longrightarrow> P (world s')"

lemma kept_call: "(\<And>w. P w \<Longrightarrow> P (snd (f w))) \<Longrightarrow> call ef f s = (r, s') \<Longrightarrow> kept P s s'"
  by (drule call_frame) (metis snd_conv)

lemma kept_local: "(\<And>w. P w \<Longrightarrow> P (snd (f w))) \<Longrightarrow> local_call f s = (r, s') \<Longrightarrow> kept P s s'"
  by (drule local_call_frame) (metis snd_conv)

lemma kept_now: "calls_keep E km kube P \<Longrightarrow> now E s = (t, s') \<Longrightarrow> kept P s s'"
  unfolding now_def by (rule kept_local) (simp_all add: calls_keep_def)

lemma kept_rsa: "calls_keep E km kube P \<Longrightarrow> local_call (env_rsaGenerate E n) s = (r, s') \<Longrightarrow> kept P s s'"
  by (rule kept_local) (simp_all add: calls_keep_def)

lemma kept_uuid: "calls_keep E km kube P \<Longrightarrow> local_call (env_uuid E) s = (r, s') \<Longrightarrow> kept P s s'"
  by (rule kept_local) (simp_all add: calls_keep_def)

lemma kept_query: "calls_keep E km kube P \<Longrightarrow> call ef (env_query E d q args) s = (r, s') \<Longrightarrow> kept P s s'"
  by (rule kept_call) (simp_all add: calls_keep_def)

lemma kept_alter:
  "calls_keep E km kube P \<Longrightarrow> has_prefix q ''ALTER USER'' \<Longrightarrow> call ef (env_exec E d q args) s = (r, s') \<Longrightarrow> kept P s s'"
  by (rule kept_call) (simp_all add: calls_keep_def)

lemma kept_ping: "calls_keep E km kube P \<Longrightarrow> call ef (env_ping E d t) s = (r, s') \<Longrightarrow> kept P s s'"
  by (rule kept_call) (simp_all add: calls_keep_def)

lemma kept_close: "calls_keep E km kube P \<Longrightarrow> close_db E d s = (r, s') \<Longrightarrow> kept P s s'"
  unfolding close_db_def by (rule kept_call) (simp_all add: calls_keep_def)

lemma kept_open:
  assumes "calls_keep E km kube P" and "open_db E c s = (d, s')"
  shows "kept P s s'"
proof -
  obtain d' w where o: "env_openDB E c (world s) = (d', w)" by fastforce
  with assms(2) have "world s' = w" by (auto simp: open_db_def)
  moreover have "P (world s) \<longrightarrow> P (snd (env_openDB E c (world s)))" using assms(1) by (simp add: calls_keep_def)
  ultimately show ?thesis by (simp add: o)
qed

lemma kept_Get: "calls_keep E km kube P \<Longrightarrow> call ef (ks_Get (km_store km) i) s = (r, s') \<Longrightarrow> kept P s s'"
  by (rule kept_call) (simp_all add: calls_keep_def)

lemma kept_Update: "calls_keep E km kube P \<Longrightarrow> call ef (ks_Update (km_store km) i v) s = (r, s') \<Longrightarrow> kept P s s'"
  by (rule kept_call) (simp_all add: calls_keep_def)

lemma kept_namespace: "calls_keep E km kube P \<Longrightarrow> call ef (kb_GetNamespace kube n) s = (r, s') \<Longrightarrow> kept P s s'"
  by (rule kept_call) (simp_all add: calls_keep_def)

lemma kept_status: "calls_keep E km kube P \<Longrightarrow> call ef (kb_UpdateAccountStatus kube a) s = (r, s') \<Longrightarrow> kept P s s'"
  by (rule kept_call) (simp_all add: calls_keep_def)

lemma kept_settings: "calls_keep E km kube P \<Longrightarrow> kept P s (applyPoolSettings E db cfg s)"
  by (simp add: applyPoolSettings_def Let_def calls_keep_def)

subsection \<open>The operations below the account module\<close>

lemma kept_fetch:
  assumes "calls_keep E km kube P" and "km_fetch E km i s = (r, s')"
  shows "kept P s s'"
  using assms(2)
  by (auto simp: km_fetch_def dest!: kept_Get [OF assms(1)] kept_now [OF assms(1)] split: prod.splits sum.splits)

lemma kept_get:
  assumes "calls_keep E km kube P" and "GetCredentials E km i s = (r, s')"
  shows "kept P s s'"
  using assms(2)
  by (auto simp: GetCredentials_def km_get_def dest!: kept_fetch [OF assms(1)] kept_now [OF assms(1)]
      split: prod.splits sum.splits option.splits if_splits)

lemma kept_new:
  assumes "calls_keep E km kube P" and "NewCredentials E u s = (r, s')"
  shows "kept P s s'"
  using assms(2)
  by (auto simp: NewCredentials_def GenerateKeyPair_def Let_def dest!: kept_rsa [OF assms(1)] kept_now [OF assms(1)]
      split: prod.splits sum.splits)

lemma kept_UpdateCredentials:
  assumes "calls_keep E km kube P" and "UpdateCredentials E km i c s = (r, s')"
  shows "kept P s s'"
  using assms(2)
  by (auto simp: UpdateCredentials_def km_update_def dest!: kept_Update [OF assms(1)]
      split: prod.splits sum.splits option.splits)

lemma kept_targetSlot:
  assumes "calls_keep E km kube P" and "targetSlot E db u fp s = (r, s')"
  shows "kept P s s'"
  using assms(2)
  by (auto simp: targetSlot_def db_executor_def dest!: kept_query [OF assms(1)] split: prod.splits sum.splits)

lemma alter_prefix: "has_prefix (alter_user_sql u sl k) ''ALTER USER''"
  by (simp add: alter_user_sql_def)

lemma kept_rotate:
  assumes "calls_keep E km kube P" and "rotateCredential E (pool_New E km cfg) db idt u key s = (r, s')"
  shows "kept P s s'"
  using assms(2)
  by (auto simp: rotateCredential_def pool_New_def db_executor_def
      dest!: kept_targetSlot [OF assms(1)] kept_new [OF assms(1)] kept_UpdateCredentials [OF assms(1)]
        kept_alter [OF assms(1) alter_prefix]
      split: prod.splits sum.splits option.splits)

lemma kept_maybeRotate:
  assumes "calls_keep E km kube P"
  shows "kept P s (maybeRotateLocked E (pool_New E km cfg) db idt s)"
  by (auto simp: maybeRotateLocked_def pool_New_def credentialDue_def
      dest!: kept_get [OF assms] kept_now [OF assms] kept_rotate [OF assms, unfolded pool_New_def]
      split: prod.splits sum.splits)

lemma kept_dial:
  assumes "calls_keep E km kube P" and "defaultDial E dc s = (r, s')"
  shows "kept P s s'"
  using assms(2)
  by (auto simp: defaultDial_def dest!: kept_open [OF assms(1)] kept_ping [OF assms(1)] kept_close [OF assms(1)]
      split: prod.splits option.splits)


lemma kept_OrgAdminDB:
  fixes s :: "('w, 'z) pool_sys_scheme"
  assumes "calls_keep E km kube P" and "OrgAdminDB E (pool_New E km cfg) s = (r, s')"
  shows "kept P s s'"
proof -
  have m: "P (world t) \<Longrightarrow> P (world (maybeRotateLocked E (pool_New E km cfg) db idt t))"
    for t :: "('w, 'z) pool_sys_scheme" and db idt
    using kept_maybeRotate [OF assms(1)] by blast
  have n: "P (world t) \<Longrightarrow> P (world (applyPoolSettings E db cfg t\<lparr>ps_orgAdminDB := Some db\<rparr>))"
    for t :: "('w, 'z) pool_sys_scheme" and db
    using kept_settings [OF assms(1), of t db cfg] by simp
  show ?thesis
    using assms(2) m [unfolded pool_New_def] n
    by (auto simp: OrgAdminDB_def pool_New_def Let_def dest!: kept_get [OF assms(1)] kept_dial [OF assms(1)]
        split: prod.splits sum.splits option.splits)
qed

lemma kept_Handle:
  assumes "calls_keep E km kube P" and "Handle E l err s = (r, s')"
  shows "kept P s s'"
  using assms(2)
  by (auto simp: Handle_def generateIncidentID_def dest!: kept_uuid [OF assms(1)]
      split: option.splits prod.splits if_splits)

lemma kept_syncStatus:
  fixes s :: "('w, 'z) acc_sys_scheme"
  assumes "calls_keep E km kube P"
  shows "kept P s (syncStatus E m data s)"
  by (auto simp: syncStatus_def Let_def dest!: kept_Handle [OF assms] split: prod.splits sum.splits)


subsection \<open>The two facts a create leaves behind\<close>

text \<open>Snowflake's answer that the name of a new account is in use.\<close>

definition name_in_use :: "gerror \<Rightarrow> bool" where
  "name_in_use err \<longleftrightarrow> se_sqlstate (newError [] [] err) = duplicateAccountSQLState"

text \<open>The systems around one resource, as its name \<open>n\<close> and its identifier \<open>idt\<close> see them.  Any call may
  fail, and one that fails may still have taken effect, but: only CREATE ACCOUNT makes an account
  and only Create occupies the identifier, which it does when it reports success and refuses when it
  was occupied; nothing is read from an identifier without a credential; SHOW ACCOUNTS, when it
  answers, shows whether the account is there; and the name is reported as in use only if it is.\<close>

definition tenant_slot ::
  "'w env \<Rightarrow> 'w key_manager \<Rightarrow> 'w kube \<Rightarrow> ident \<Rightarrow> string \<Rightarrow> ('w \<Rightarrow> bool) \<Rightarrow> ('w \<Rightarrow> bool) \<Rightarrow> bool" where
  "tenant_slot E km kube idt n taken occ \<longleftrightarrow>
     calls_keep E km kube taken \<and> calls_keep E km kube (\<lambda>w. \<not> taken w) \<and> calls_keep E km kube occ \<and>
     (\<forall>v w. taken (snd (ks_Create (km_store km) idt v w)) = taken w \<and>
        (occ w \<longrightarrow> occ (snd (ks_Create (km_store km) idt v w))) \<and>
        (fst (ks_Create (km_store km) idt v w) = None \<longrightarrow> \<not> occ w \<and> occ (snd (ks_Create (km_store km) idt v w)))) \<and>
     (\<forall>w x. fst (ks_Get (km_store km) idt w) = Inr x \<longrightarrow> occ w) \<and>
     (\<forall>d q args w. has_prefix q ''CREATE ACCOUNT'' \<longrightarrow>
        (taken w \<longrightarrow> taken (snd (env_exec E d q args w))) \<and> (occ w \<longrightarrow> occ (snd (env_exec E d q args w))) \<and>
        (fst (env_exec E d q args w) = None \<longrightarrow> taken (snd (env_exec E d q args w))) \<and>
        (\<forall>err. fst (env_exec E d q args w) = Some err \<and> name_in_use err \<longrightarrow> taken w)) \<and>
     (\<forall>d w rs label result. fst (env_query E d show_accounts_sql [n] w) = Inr rs \<and>
        materialize label show_accounts_sql rs = Inr result \<longrightarrow>
        (case row_StringValue (FindRow result ''account_name'' n) ''account_locator'' of
           None \<Rightarrow> \<not> taken w | Some l \<Rightarrow> taken w = (l \<noteq> [])))"

abbreviation same :: "('w \<Rightarrow> bool) \<Rightarrow> ('w, 'z) sys_scheme \<Rightarrow> ('w, 'z) sys_scheme \<Rightarrow> bool" where
  "same P s s' \<equiv> P (world s') = P (world s)"

lemma slot_keeps:
  assumes "tenant_slot E km kube idt n taken occ"
  shows "calls_keep E km kube taken" "calls_keep E km kube (\<lambda>w. \<not> taken w)" "calls_keep E km kube occ"
  using assms by (simp_all add: tenant_slot_def)

text \<open>What the manager's cache holds for the identifier is stored.\<close>

definition cache_stored :: "ident \<Rightarrow> ('w \<Rightarrow> bool) \<Rightarrow> ('w, 'z) km_sys_scheme \<Rightarrow> bool" where
  "cache_stored idt occ s \<longleftrightarrow> (km_entries s idt \<noteq> None \<longrightarrow> occ (world s))"

lemma slot_create:
  fixes s :: "('w, 'z) km_sys_scheme"
  assumes "tenant_slot E km kube idt n taken occ" and "CreateCredentials E km idt u s = (r, s')"
  shows "same taken s s' \<and> kept occ s s' \<and> (\<forall>c. r = Inr c \<longrightarrow> \<not> occ (world s) \<and> occ (world s')) \<and>
    (\<forall>e. r = Inl e \<longrightarrow> km_entries s' = km_entries s)"
proof -
  obtain r1 s1 where n: "NewCredentials E u s = (r1, s1)" by fastforce
  note k = slot_keeps [OF assms(1)]
  from kept_new [OF k(1) n] kept_new [OF k(2) n] have t1: "same taken s s1" by blast
  from n have e1: "km_entries s1 = km_entries s" by (rule NewCredentials_entries)
  show ?thesis
  proof (cases "\<exists>creds v. r1 = Inr creds \<and> marshalCredentials E creds = Inr v")
    case False
    with n assms(2) t1 e1 kept_new [OF k(3) n] show ?thesis by (auto simp: CreateCredentials_def split: sum.splits)
  next
    case True
    then obtain creds v where v: "r1 = Inr creds" "marshalCredentials E creds = Inr v" by blast
    obtain x w where c: "ks_Create (km_store km) idt v (world s1) = (x, w)" by fastforce
    from assms(1) have "taken (snd (ks_Create (km_store km) idt v (world s1))) = taken (world s1) \<and>
        (occ (world s1) \<longrightarrow> occ (snd (ks_Create (km_store km) idt v (world s1)))) \<and>
        (fst (ks_Create (km_store km) idt v (world s1)) = None \<longrightarrow>
           \<not> occ (world s1) \<and> occ (snd (ks_Create (km_store km) idt v (world s1))))"
      unfolding tenant_slot_def by blast
    with c have w: "taken w = taken (world s1)" "occ (world s1) \<Longrightarrow> occ w" "x = None \<Longrightarrow> \<not> occ (world s1) \<and> occ w"
      by simp_all
    from assms(2) n v c have "world s' = w" "r = (case x of None \<Rightarrow> Inr creds | Some e \<Rightarrow> Inl e)"
      "x \<noteq> None \<Longrightarrow> km_entries s' = km_entries s1"
      by (auto simp: CreateCredentials_def km_create_def call_def Invalidate_def split: option.splits)
    with w t1 e1 kept_new [OF k(3) n] show ?thesis by (auto split: option.splits)
  qed
qed

lemma slot_get:
  fixes s :: "('w, 'z) km_sys_scheme"
  assumes "tenant_slot E km kube idt n taken occ" and "GetCredentials E km idt s = (Inr c, s')"
    and "cache_stored idt occ s"
  shows "occ (world s')"
proof -
  note k = slot_keeps(3) [OF assms(1)]
  have g: "fst (ks_Get (km_store km) idt w) = Inr x \<Longrightarrow> occ w" for w x
    using assms(1) unfolding tenant_slot_def by blast
  have fetch: "occ (world t')" if f: "km_fetch E km idt t = (Inr x, t')" for x and t t' :: "('w, 'z) km_sys_scheme"
  proof -
    obtain y w where y: "ks_Get (km_store km) idt (world t) = (y, w)" by fastforce
    with f have "\<exists>z. y = Inr z" by (auto simp: km_fetch_def call_def split: sum.splits)
    with y g [of "world t"] have "occ (world t)" by auto
    with kept_fetch [OF k f] show ?thesis by blast
  qed
  have "occ (world t)" if g: "km_get E km idt s = (Inr x, t)" for x and t :: "('w, 'z) km_sys_scheme"
  proof (cases "km_entries s idt")
    case None
    with g fetch show ?thesis by (simp add: km_get_def)
  next
    case (Some entry)
    then have "occ (world s)" using assms(3) by (simp add: cache_stored_def)
    with Some g fetch show ?thesis by (auto simp: km_get_def dest!: kept_now [OF k] split: prod.splits if_splits)
  qed
  with assms(2) show ?thesis by (auto simp: GetCredentials_def split: prod.splits sum.splits)
qed

lemma slot_acquire:
  fixes s :: "('w, 'z) acc_sys_scheme"
  assumes "tenant_slot E (am_keyManager m) kube idt n taken occ" and "acquireCredentials E m s = (r, s')"
    and "NewTenantIdentifier (am_org m) (om_Namespace (sa_Meta (ac_cr s))) (om_Name (sa_Meta (ac_cr s))) = Inr idt"
    and "cache_stored idt occ s"
  shows "same taken s s' \<and> kept occ s s' \<and>
    (\<forall>c resumed. r = Inr (c, resumed) \<longrightarrow> occ (world s') \<and> (resumed \<or> \<not> occ (world s)))"
proof -
  note k = slot_keeps [OF assms(1)]
  obtain r1 s1 where c: "CreateCredentials E (am_keyManager m) idt platformUser s = (r1, s1)" by fastforce
  note f = slot_create [OF assms(1) c]
  show ?thesis
  proof (cases r1)
    case (Inr creds)
    with assms(2,3) c f show ?thesis by (auto simp: acquireCredentials_def Let_def)
  next
    case (Inl e)
    with f assms(4) have cs: "cache_stored idt occ s1" by (simp add: cache_stored_def)
    obtain r2 s2 where g: "GetCredentials E (am_keyManager m) idt s1 = (r2, s2)" by fastforce
    from kept_get [OF k(1) g] kept_get [OF k(2) g] kept_get [OF k(3) g]
    have "same taken s1 s2" "kept occ s1 s2" by blast+
    with assms(2,3) c f g Inl slot_get [OF assms(1) _ cs] show ?thesis
      by (auto simp: acquireCredentials_def resumeCrashedCreate_def Let_def split: if_splits sum.splits)
  qed
qed

lemma slot_find:
  fixes s :: "('w, 'z) acc_sys_scheme"
  assumes "tenant_slot E km kube idt n taken occ"
    and "findAccountLocator (statement_New (db_executor E d)) label n s = (r, s')"
  shows "same taken s s' \<and> kept occ s s' \<and> (\<forall>l found. r = Inr (l, found) \<longrightarrow> found = taken (world s))"
proof -
  note k = slot_keeps [OF assms(1)]
  obtain y s1 where q: "call (QuerySQL d show_accounts_sql [n]) (env_query E d show_accounts_sql [n]) s = (y, s1)"
    by fastforce
  have s1: "s' = s1" using assms(2) q
    by (auto simp: findAccountLocator_def runner_Query_def statement_New_def db_executor_def split: sum.splits)
  have "same taken s s'" "kept occ s s'"
    using kept_query [OF k(1) q] kept_query [OF k(2) q] kept_query [OF k(3) q] s1 by blast+
  moreover have "found = taken (world s)" if "r = Inr (l, found)" for l found
  proof -
    from call_frame [OF q] have y: "fst (env_query E d show_accounts_sql [n] (world s)) = y" by simp
    from assms(2) q that obtain rs result where m: "y = Inr rs" "materialize label show_accounts_sql rs = Inr result"
      and r: "(case row_StringValue (FindRow result ''account_name'' n) ''account_locator'' of
                 None \<Rightarrow> ([], False) | Some locator \<Rightarrow> (locator, locator \<noteq> [])) = (l, found)"
      by (auto simp: findAccountLocator_def runner_Query_def statement_New_def db_executor_def split: sum.splits)
    from assms(1) y m have "case row_StringValue (FindRow result ''account_name'' n) ''account_locator'' of
        None \<Rightarrow> \<not> taken (world s) | Some l \<Rightarrow> taken (world s) = (l \<noteq> [])"
      unfolding tenant_slot_def by blast
    with r show ?thesis by (auto split: option.splits)
  qed
  ultimately show ?thesis by blast
qed


lemma kept_finish:
  fixes s :: "('w, 'z) acc_sys_scheme"
  assumes "calls_keep E km kube P" and "finishCreate E l s = (out, s')"
  shows "kept P s s'"
  using assms(2) by (auto simp: finishCreate_def Let_def dest!: kept_now [OF assms(1)] split: prod.splits)

lemma create_prefix: "has_prefix (create_account_text spec) ''CREATE ACCOUNT''"
  by (simp add: create_account_text_def create_account_sql_def)

lemma slot_exec:
  fixes s :: "('w, 'z) acc_sys_scheme"
  assumes "tenant_slot E km kube idt n taken occ"
    and "execCreateAccount (statement_New (db_executor E d)) name spec pk s = (r, s')"
  shows "kept taken s s' \<and> kept occ s s' \<and> (r = None \<longrightarrow> taken (world s'))"
proof -
  let ?q = "create_account_text spec" and ?args = "create_account_args name spec pk"
  obtain x w where x: "env_exec E d ?q ?args (world s) = (x, w)" by fastforce
  from assms(1) create_prefix [of spec] have "taken (world s) \<longrightarrow> taken (snd (env_exec E d ?q ?args (world s)))"
      "occ (world s) \<longrightarrow> occ (snd (env_exec E d ?q ?args (world s)))"
      "fst (env_exec E d ?q ?args (world s)) = None \<longrightarrow> taken (snd (env_exec E d ?q ?args (world s)))"
    unfolding tenant_slot_def by blast+
  moreover have "r = None \<longleftrightarrow> x = None" "world s' = w"
    using assms(2) x
    by (auto simp: execCreateAccount_def runner_Exec_def statement_New_def db_executor_def call_def
        split: option.splits if_splits)
  ultimately show ?thesis using x by auto
qed

lemma slot_issue:
  fixes s :: "('w, 'z) acc_sys_scheme"
  assumes "tenant_slot E km kube idt n taken occ"
    and "issueCreate E (statement_New (db_executor E d)) n creds s = (out, s')" and "cr_locator s = []"
  shows "kept taken s s' \<and> kept occ s s' \<and> (cr_locator s' \<noteq> [] \<longrightarrow> taken (world s'))"
proof -
  note k = slot_keeps [OF assms(1)]
  obtain r1 s1 where x: "execCreateAccount (statement_New (db_executor E d)) n (sa_Spec (ac_cr s)) (c_PublicKey creds) s
      = (r1, s1)" by fastforce
  note xf = slot_exec [OF assms(1) x] execCreateAccount_frame [OF x]
  show ?thesis
  proof (cases r1)
    case (Some e)
    with x xf assms show ?thesis by (auto simp: issueCreate_def)
  next
    case None
    obtain r2 s2 where f: "findAccountLocator (statement_New (db_executor E d)) ''locate created account'' n s1 = (r2, s2)"
      by fastforce
    note ff = slot_find [OF assms(1) f] findAccountLocator_frame [OF f]
    obtain out3 s3 where g: "finishCreate E (fst (projr r2)) s2 = (out3, s3)" by fastforce
    note gf = kept_finish [OF k(1) g] kept_finish [OF k(3) g]
    show ?thesis
    proof (cases "\<exists>l. r2 = Inr (l, True)")
      case True
      with assms(2) x f g None have "s' = s3" by (auto simp: issueCreate_def locateCreatedAccount_def)
      with gf ff xf None show ?thesis by auto
    next
      case False
      then have "s' = s2" using assms(2) x f None
        by (cases r2) (auto simp: issueCreate_def locateCreatedAccount_def)
      with ff xf None assms(3) show ?thesis by auto
    qed
  qed
qed

subsection \<open>An attempt\<close>

text \<open>What an attempt leaves of a state in which an existing account has its credential stored.\<close>

definition attempt_ok ::
  "('w \<Rightarrow> bool) \<Rightarrow> ('w \<Rightarrow> bool) \<Rightarrow> ('w, 'z) acc_sys_scheme \<Rightarrow> ('w, 'z) acc_sys_scheme \<Rightarrow> bool" where
  "attempt_ok taken occ s s' \<longleftrightarrow> kept taken s s' \<and> kept occ s s' \<and> (taken (world s') \<longrightarrow> occ (world s')) \<and>
     (cr_locator s' \<noteq> [] \<longrightarrow> taken (world s')) \<and> (taken (world s) \<longrightarrow> emits harmless s s')"

lemma attempt_ok_quiet:
  assumes "same taken s s'" and "kept occ s s'" and "taken (world s) \<longrightarrow> occ (world s)"
    and "cr_locator s' = [] \<or> taken (world s)" and "emits harmless s s'"
  shows "attempt_ok taken occ s s'"
  using assms by (auto simp: attempt_ok_def)

text \<open>The second half of \<open>createAccount\<close>, once the credential is stored and the connection open.\<close>

lemma slot_continue:
  fixes E :: "'w env" and s s2 :: "('w, 'z) acc_sys_scheme"
  defines "runner \<equiv> \<lambda>db. statement_New (db_executor E db) :: ('w, 'z) acc_sys_scheme runner"
  assumes "tenant_slot E km kube idt n taken occ"
    and "(if resumed then
            (case findAccountLocator (runner db) ''check for existing account before resuming create'' n s2 of
               (Inl err, s3) \<Rightarrow> (Failed err, s3)
             | (Inr (locator, found), s3) \<Rightarrow>
                 if found then finishCreate E locator s3 else issueCreate E (runner db) n creds s3)
          else issueCreate E (runner db) n creds s2) = (out, s')"
    and "same taken s s2" and "kept occ s s2" and "occ (world s2)" and "resumed \<or> \<not> taken (world s)"
    and "emits harmless s s2" and "cr_locator s2 = []"
  shows "attempt_ok taken occ s s'"
proof -
  note k = slot_keeps [OF assms(2)]
  obtain r3 s3 where f: "findAccountLocator (runner db) ''check for existing account before resuming create'' n s2 = (r3, s3)"
    by fastforce
  note f1 = slot_find [OF assms(2) f [unfolded runner_def]] findAccountLocator_frame [OF f [unfolded runner_def]]
  have f2: "emits harmless s s3" "cr_locator s3 = []"
    using f1 assms(8,9) by (auto intro: emits_trans [OF _ emits_one])
  have issue: "attempt_ok taken occ s s'"
    if "issueCreate E (runner db) n creds t = (out, s')" "\<not> taken (world s)" "kept occ s t" "occ (world t)" "cr_locator t = []"
    for t
    using slot_issue [OF assms(2) that(1) [unfolded runner_def]] that by (auto simp: attempt_ok_def)
  consider (fresh) "\<not> resumed" | (error) e where "resumed" "r3 = Inl e"
    | (absent) l where "resumed" "r3 = Inr (l, False)" | (found) l where "resumed" "r3 = Inr (l, True)"
    by (cases r3) auto
  then show ?thesis
  proof cases
    case fresh
    with issue assms(3,5-7,9) show ?thesis by auto
  next
    case error
    with assms(3) f have "s' = s3" by simp
    with assms(4-6) f1 f2 show ?thesis by (auto simp: attempt_ok_def)
  next
    case absent
    with assms(3) f have "issueCreate E (runner db) n creds s3 = (out, s')" by simp
    moreover from absent f1 assms(4) have "\<not> taken (world s)" by auto
    ultimately show ?thesis using issue assms(5,6) f1 f2 by blast
  next
    case found
    with assms(3) f have g: "finishCreate E l s3 = (out, s')" by simp
    from found f1 assms(4) have "taken (world s)" by auto
    moreover from kept_finish [OF k(1) g] kept_finish [OF k(2) g] kept_finish [OF k(3) g]
    have "same taken s3 s'" "kept occ s3 s'" by blast+
    moreover have "emits harmless s s'"
      using f2 finishCreate_frame [OF g] by (blast intro: emits_trans emits_same)
    ultimately show ?thesis using assms(4-6) f1 by (auto simp: attempt_ok_def)
  qed
qed

lemma slot_createAccount:
  fixes s :: "('w, 'z) acc_sys_scheme"
  assumes "tenant_slot E (am_keyManager m) kube idt (ResolvedAccountName data) taken occ"
    and "createAccount E m data s = (out, s')"
    and "NewTenantIdentifier (am_org m) (om_Namespace (sa_Meta (ac_cr s))) (om_Name (sa_Meta (ac_cr s))) = Inr idt"
    and "rd_pool data = pool_db_pool E (pool_New E (am_keyManager m) cfg)"
    and "cr_locator s = []" and "cache_stored idt occ s" and "taken (world s) \<longrightarrow> occ (world s)"
  shows "attempt_ok taken occ s s'"
proof (cases "checkCreatable m (ac_cr s) (ResolvedAccountName data) (NamespaceLabels data)")
  case (Some e)
  with assms show ?thesis by (auto simp: createAccount_def Let_def attempt_ok_def)
next
  case None
  note k = slot_keeps [OF assms(1)]
  obtain r1 s1 where a: "acquireCredentials E m s = (r1, s1)" by fastforce
  note a1 = slot_acquire [OF assms(1) a assms(3,6)]
  from acquireCredentials_frame [OF a] assms(5)
  have a2: "emits harmless s s1" "ac_cr s1 = ac_cr s" by (blast intro: emits_mono harmlessI)+
  obtain r2 s2 where o: "rd_OrgAdminDB data s1 = (r2, s2)" by fastforce
  then have o': "OrgAdminDB E (pool_New E (am_keyManager m) cfg) s1 = (r2, s2)"
    by (simp add: rd_OrgAdminDB_def assms(4) pool_db_pool_def)
  from kept_OrgAdminDB [OF k(1) o'] kept_OrgAdminDB [OF k(2) o'] kept_OrgAdminDB [OF k(3) o'] a1
  have o1: "same taken s s2" "kept occ s s2" "occ (world s1) \<longrightarrow> occ (world s2)" by auto
  from pl.rd_OrgAdminDB_frame [OF assms(4) o] a2 emits_harmless(5)
  have o2: "emits harmless s s2" "ac_cr s2 = ac_cr s" by (auto intro: emits_trans)
  consider (no_key) e where "r1 = Inl e" | (no_db) creds resumed e where "r1 = Inr (creds, resumed)" "r2 = Inl e"
    | (connected) creds resumed db where "r1 = Inr (creds, resumed)" "r2 = Inr db"
    by (cases r1; cases r2) auto
  then show ?thesis
  proof cases
    case no_key
    with None a assms(2) have "s' = s1" by (simp add: createAccount_def Let_def)
    with a1 a2 assms(5,7) show ?thesis by (simp add: attempt_ok_quiet)
  next
    case no_db
    with None a o assms(2) have "s' = s2" by (simp add: createAccount_def Let_def)
    with o1 o2 assms(5,7) show ?thesis by (simp add: attempt_ok_quiet)
  next
    case connected
    with a1 o1 o2 assms(5,7) have h: "occ (world s2)" "resumed \<or> \<not> taken (world s)" "cr_locator s2 = []" by auto
    show ?thesis
      by (rule slot_continue [OF assms(1) _ o1(1,2) h(1,2) o2(1) h(3)])
        (use None a o connected assms(2) in \<open>simp add: createAccount_def Let_def\<close>)
  qed
qed

text \<open>The module's Apply, and a run of the controller.\<close>

lemma attempt_ok_then:
  assumes "attempt_ok taken occ s s1" and "same taken s1 s2" and "kept occ s1 s2" and "emits harmless s1 s2"
    and "cr_locator s2 = cr_locator s1"
  shows "attempt_ok taken occ s s2"
  using assms by (auto simp: attempt_ok_def intro: emits_trans)

lemma attempt_ok_after:
  assumes "same taken s s1" and "kept occ s s1" and "emits harmless s s1" and "attempt_ok taken occ s1 s2"
  shows "attempt_ok taken occ s s2"
  using assms by (auto simp: attempt_ok_def intro: emits_trans)

lemma slot_account_Apply:
  fixes s :: "('w, 'z) acc_sys_scheme"
  assumes "tenant_slot E (am_keyManager m) kube idt (ResolvedAccountName data) taken occ"
    and "account_Apply E m data s = (out, s')"
    and "NewTenantIdentifier (am_org m) (om_Namespace (sa_Meta (ac_cr s))) (om_Name (sa_Meta (ac_cr s))) = Inr idt"
    and "rd_pool data = pool_db_pool E (pool_New E (am_keyManager m) cfg)"
    and "cr_locator s = []" and "cache_stored idt occ s" and "taken (world s) \<longrightarrow> occ (world s)"
  shows "attempt_ok taken occ s s'"
proof -
  obtain out1 s1 where c: "createAccount E m data s = (out1, s1)" by fastforce
  with assms(2,5) have s': "s' = syncStatus E m data s1" by (simp add: account_Apply_def account_apply_def)
  note k = slot_keeps [OF assms(1)]
  have "same taken s1 s'" "kept occ s1 s'"
    using kept_syncStatus [OF k(1), of s1 m data] kept_syncStatus [OF k(2), of s1 m data]
      kept_syncStatus [OF k(3), of s1 m data] s' by blast+
  with attempt_ok_then [OF slot_createAccount [OF assms(1) c assms(3-7)]] syncStatus_frame [of s1 E m data]
    emits_harmless(3) s'
  show ?thesis by blast
qed


abbreviation all_kept ::
  "'w env \<Rightarrow> 'w key_manager \<Rightarrow> 'w kube \<Rightarrow> ('w, 'z) sys_scheme \<Rightarrow> ('w, 'z) sys_scheme \<Rightarrow> bool" where
  "all_kept E km kube s s' \<equiv> \<forall>P. calls_keep E km kube P \<longrightarrow> kept P s s'"

text \<open>The second half of a run of the controller: reporting what the pipeline did.\<close>

lemma report_attempt:
  fixes s4 :: "('w, 'z) acc_sys_scheme"
  assumes "(let s4' = report_run X rep s4 in
      case Handle E log err s4' of
        (firstErr, s5) \<Rightarrow>
          (case call (UpdateAccountStatus (om_Namespace (sa_Meta (ac_cr s5))) (om_Name (sa_Meta (ac_cr s5))))
                  (kb_UpdateAccountStatus kube (ac_cr s5)) s5 of
             (Some err, s6) \<Rightarrow> if firstErr = None then Handle E log (Some err) s6 else (firstErr, s6)
           | (None, s6) \<Rightarrow> (firstErr, s6))) = (r, s')"
  shows "all_kept E km kube s4 s' \<and> emits harmless s4 s' \<and> cr_locator s' = cr_locator s4"
proof -
  let ?s5 = "report_run X rep s4"
  have "world ?s5 = world s4" using record_events_frame [of s4 "rp_Events rep"] by (simp add: report_run_def)
  with report_run_frame [of s4 X rep] have k5: "all_kept E km kube s4 ?s5 \<and> emits is_event s4 ?s5 \<and> cr_locator ?s5 = cr_locator s4"
    by (simp add: same_record_def)
  have e5: "emits harmless s4 ?s5"
    by (rule emits_harmless(1) [OF emits_mono [OF conjunct1 [OF conjunct2 [OF k5]]]]) (rule is_controllerI)
  obtain f s6 where h: "Handle E log err ?s5 = (f, s6)" by fastforce
  let ?ef = "UpdateAccountStatus (om_Namespace (sa_Meta (ac_cr s6))) (om_Name (sa_Meta (ac_cr s6)))"
  obtain u s7 where c: "call ?ef (kb_UpdateAccountStatus kube (ac_cr s6)) s6 = (u, s7)" by fastforce
  obtain g s8 where g: "Handle E log u s7 = (g, s8)" by fastforce
  have fin: "s' = s7 \<or> s' = s8" using assms h c g by (auto simp: Let_def split: option.splits if_splits)
  have "harmless ?ef" by (simp add: harmless_def is_create_def is_drop_def)
  with call_frame [OF c] have "emits harmless s6 s7" "ac_cr s7 = ac_cr s6"
    by (auto intro: emits_one dest: sys_more_acc)
  then have "emits harmless s4 s7 \<and> emits harmless s7 s8 \<and> cr_locator s7 = cr_locator s4 \<and> cr_locator s8 = cr_locator s4"
    using emits_trans [OF e5 emits_trans [OF emits_harmless(3)]] emits_harmless(3) k5 Handle_acc [OF h] Handle_acc [OF g]
    by (metis (no_types))
  moreover have "all_kept E km kube s4 s7" using k5 kept_Handle [OF _ h] kept_status [OF _ c] by blast
  moreover have "all_kept E km kube s7 s8" using kept_Handle [OF _ g] by blast
  ultimately show ?thesis using fin by (blast intro: emits_trans)
qed

lemma apply_cr_attempt:
  fixes s :: "('w, 'z) acc_sys_scheme"
  assumes "apply_cr E X (account_client E kube cfg km bp) s = (r, s')"
  obtains (no_labels) err where "fst (kb_GetNamespace kube (om_Namespace (sa_Meta (ac_cr s))) (world s)) = Inl err"
      "all_kept E km kube s s'" "emits harmless s s'" "ac_cr s' = ac_cr s"
  | (ran) data s2 out s3 where
      "fst (kb_GetNamespace kube (om_Namespace (sa_Meta (ac_cr s))) (world s)) = Inr (NamespaceLabels data)"
      "all_kept E km kube s s2" "emits harmless s s2" "ac_cr s2 = ac_cr s" "km_entries s2 = km_entries s"
      "rd_pool data = pool_db_pool E (pool_New E km cfg)" "ResolvedAccountName data = resolved_name (ac_cr s)"
      "account_Apply E (account_module_of cfg km bp) data s2 = (out, s3)"
      "all_kept E km kube s3 s'" "emits harmless s3 s'" "cr_locator s' = cr_locator s3"
      "oc_State out = StateFailed \<Longrightarrow> oc_Err out \<noteq> None \<Longrightarrow> r \<noteq> None"
proof -
  let ?e = "account_client E kube cfg km bp :: ('w, ('w, 'z) acc_sys_scheme) external"
  let ?log = "account_logger OpUpdate (ac_cr s)" and ?ns = "om_Namespace (sa_Meta (ac_cr s))"
  obtain r1 s1 where n: "namespaceLabels ?e ?ns s = (r1, s1)" by fastforce
  have n1: "all_kept E km kube s s1" using n
    by (auto simp: namespaceLabels_def dest: kept_namespace split: prod.splits sum.splits)
  have n2: "emits harmless s s1" "ac_cr s1 = ac_cr s" "km_entries s1 = km_entries s"
    using namespaceLabels_frame [OF n] n
    by (auto simp: namespaceLabels_def call_def harmless_def is_create_def is_drop_def
        intro!: emits_one [where ef = "GetNamespace (om_Namespace (sa_Meta (ac_cr s)))"] split: prod.splits sum.splits)
  have n3: "(\<exists>e. r1 = Inl e \<and> fst (kb_GetNamespace kube ?ns (world s)) = Inl (projl (fst (kb_GetNamespace kube ?ns (world s))))) \<or>
      (\<exists>ls. r1 = Inr ls \<and> fst (kb_GetNamespace kube ?ns (world s)) = Inr ls)" using n
    by (auto simp: namespaceLabels_def call_def split: prod.splits sum.splits)
  show thesis
  proof (cases r1)
    case (Inl err)
    with assms n have h: "Handle E ?log (Some err) s1 = (r, s')" by (simp add: apply_cr_def Let_def)
    have "all_kept E km kube s s'" using n1 kept_Handle [OF _ h] by auto
    moreover have "emits harmless s s'"
      using emits_trans [OF n2(1) emits_harmless(3)] Handle_acc [OF h] by auto
    ultimately show thesis using no_labels n2 n3 Inl Handle_acc [OF h] by auto
  next
    case (Inr ls)
    obtain data s2 where d: "NewResourceData ls ?log (xt_pool ?e) s1 = (data, s2)" by fastforce
    then have d1: "world s2 = world s1" "trace s2 = trace s1" "ac_cr s2 = ac_cr s" "km_entries s2 = km_entries s"
        "rd_pool data = pool_db_pool E (pool_New E km cfg)" "ResolvedAccountName data = resolved_name (ac_cr s)"
        "NamespaceLabels data = ls"
      using n2 by (auto simp: NewResourceData_def Let_def ResolvedAccountName_def resolved_name_def NamespaceLabels_def)
    obtain res s4 where p: "pipeline_Apply X (xt_pipeline ?e) data s2 = (res, s4)" by fastforce
    obtain out s3 where a: "account_Apply E (account_module_of cfg km bp) data s2 = (out, s3)" by fastforce
    from p a have p1: "world s4 = world s3" "trace s4 = trace s3" "cr_locator s4 = cr_locator s3"
      by (auto simp: pipeline_Apply_def Let_def account_pmodule_def SetObservedGeneration_def split: if_splits)
    from n Inr d p assms have r: "(let s4' = report_run X (result_report X res) s4 in
        case Handle E ?log (outcomes_Err (ar_Outcomes res)) s4' of
          (firstErr, s5) \<Rightarrow>
            (case call (UpdateAccountStatus (om_Namespace (sa_Meta (ac_cr s5))) (om_Name (sa_Meta (ac_cr s5))))
                    (kb_UpdateAccountStatus kube (ac_cr s5)) s5 of
               (Some err, s6) \<Rightarrow> if firstErr = None then Handle E ?log (Some err) s6 else (firstErr, s6)
             | (None, s6) \<Rightarrow> (firstErr, s6))) = (r, s')"
      by (simp add: apply_cr_def Let_def)
    from report_attempt [OF r, of km] p1 have q: "all_kept E km kube s3 s'" "emits harmless s3 s'" "cr_locator s' = cr_locator s3"
      by (auto simp: emits_def)
    have err: "r \<noteq> None" if "oc_State out = StateFailed" "oc_Err out \<noteq> None"
    proof -
      have "outcomes_Err (ar_Outcomes res) \<noteq> None" using p a that
        by (auto simp: pipeline_Apply_def Let_def account_pmodule_def split: if_splits)
      with r show ?thesis by (auto simp: Let_def dest!: Handle_acc split: prod.splits option.splits if_splits)
    qed
    from n1 n2 d1 have "all_kept E km kube s s2" "emits harmless s s2" by (simp_all add: emits_def)
    moreover have "fst (kb_GetNamespace kube ?ns (world s)) = Inr (NamespaceLabels data)" using n3 Inr d1(7) by simp
    ultimately show thesis using ran d1(3-6) a q err by blast
  qed
qed


lemma slot_apply_cr:
  fixes s :: "('w, 'z) acc_sys_scheme"
  assumes "tenant_slot E km kube idt (resolved_name (ac_cr s)) taken occ"
    and "apply_cr E X (account_client E kube cfg km bp) s = (r, s')"
    and "NewTenantIdentifier (sf_Org (cfg_Snowflake cfg)) (om_Namespace (sa_Meta (ac_cr s))) (om_Name (sa_Meta (ac_cr s))) = Inr idt"
    and "cr_locator s = []" and "cache_stored idt occ s" and "taken (world s) \<longrightarrow> occ (world s)"
  shows "attempt_ok taken occ s s'"
  using assms(2)
proof (cases rule: apply_cr_attempt)
  case no_labels
  with slot_keeps [OF assms(1)] assms(4,6) show ?thesis by (auto intro!: attempt_ok_quiet)
next
  case (ran data s2 out s3)
  let ?m = "account_module_of cfg km bp"
  have m: "am_org ?m = sf_Org (cfg_Snowflake cfg)" "am_keyManager ?m = km"
    by (simp_all add: account_module_of_def account_New_def)
  note k = slot_keeps [OF assms(1)]
  from k ran(2) have b: "same taken s s2" "kept occ s s2" by blast+
  from k ran(9) have e: "same taken s3 s'" "kept occ s3 s'" by blast+
  from b assms(5,6) ran(5) have c: "cache_stored idt occ s2" "taken (world s2) \<longrightarrow> occ (world s2)"
    by (auto simp: cache_stored_def)
  have "attempt_ok taken occ s2 s3"
    by (rule slot_account_Apply [OF _ ran(8), where kube = kube and idt = idt and cfg = cfg])
      (use assms(1,3,4) ran(4,6,7) m c in simp_all)
  from attempt_ok_then [OF attempt_ok_after [OF b ran(3) this] e ran(10,11)] show ?thesis .
qed

subsection \<open>A history of attempts\<close>

text \<open>What may have happened to the world since the resource was created.  Each attempt is a run of
  the controller against systems that fail in any way \<open>tenant_slot\<close> allows, different ones for each
  attempt, in any state of the process (a fresh one after a crash), the locator of an earlier attempt
  being lost; between the attempts others go on, without touching the name or removing the credential.
  A crash is an attempt whose remaining calls fail.\<close>

inductive interrupted ::
  "xpv1 \<Rightarrow> config \<Rightarrow> backplane \<Rightarrow> snowflakeAccount \<Rightarrow> ident \<Rightarrow> ('w \<Rightarrow> bool) \<Rightarrow> ('w \<Rightarrow> bool) \<Rightarrow> 'w \<Rightarrow> 'w \<Rightarrow> bool"
  for X :: xpv1 and cfg :: config and bp :: backplane and cr :: snowflakeAccount and idt :: ident
    and taken occ :: "'w \<Rightarrow> bool" and w0 :: 'w where
  in_start: "interrupted X cfg bp cr idt taken occ w0 w0"
| in_attempt: "interrupted X cfg bp cr idt taken occ w0 (world (s :: 'w acc_sys)) \<Longrightarrow>
    tenant_slot E km kube idt (resolved_name cr) taken occ \<Longrightarrow> same_identity cr (ac_cr s) \<Longrightarrow>
    cr_locator s = [] \<Longrightarrow> cache_stored idt occ s \<Longrightarrow>
    Create E X (account_client E kube cfg km bp) s = (r, s') \<or> Update E X (account_client E kube cfg km bp) s = (r, s') \<Longrightarrow>
    interrupted X cfg bp cr idt taken occ w0 (world s')"
| in_meanwhile: "interrupted X cfg bp cr idt taken occ w0 w \<Longrightarrow> taken w' = taken w \<Longrightarrow> (occ w \<longrightarrow> occ w') \<Longrightarrow>
    interrupted X cfg bp cr idt taken occ w0 w'"

lemma interrupted_invariant:
  assumes "interrupted X cfg bp cr idt taken occ w0 w"
    and "NewTenantIdentifier (sf_Org (cfg_Snowflake cfg)) (om_Namespace (sa_Meta cr)) (om_Name (sa_Meta cr)) = Inr idt"
    and "taken w0 \<longrightarrow> occ w0"
  shows "(taken w \<longrightarrow> occ w) \<and> (taken w0 \<longrightarrow> taken w) \<and> (occ w0 \<longrightarrow> occ w)"
  using assms(1)
proof induction
  case in_start
  then show ?case using assms(3) by simp
next
  case (in_attempt s E km kube r s')
  from in_attempt.hyps(3) have i: "resolved_name (ac_cr s) = resolved_name cr"
      "om_Namespace (sa_Meta (ac_cr s)) = om_Namespace (sa_Meta cr)" "om_Name (sa_Meta (ac_cr s)) = om_Name (sa_Meta cr)"
    by (simp_all add: same_identity_def resolved_name_def)
  from in_attempt.hyps(6) have "apply_cr E X (account_client E kube cfg km bp) s = (r, s')"
    by (auto simp: Create_def Update_def)
  from slot_apply_cr [OF _ this _ in_attempt.hyps(4,5)] in_attempt.hyps(2) in_attempt.IH assms(2) i
  have "attempt_ok taken occ s s'" by simp
  with in_attempt.IH show ?case by (auto simp: attempt_ok_def)
next
  case (in_meanwhile w w')
  then show ?case by auto
qed


subsection \<open>The attempt that gets through\<close>

text \<open>Systems that answer, each according to the world: the store creates at a free identifier, refuses
  at an occupied one and returns the credential stored there, written no earlier than the resource
  minus the clock skew; Snowflake creates an account under a free name and lists what there is.\<close>

definition answering ::
  "'w env \<Rightarrow> 'w kube \<Rightarrow> config \<Rightarrow> 'w key_manager \<Rightarrow> labels \<Rightarrow> snowflakeAccount \<Rightarrow> ident \<Rightarrow>
     ('w \<Rightarrow> bool) \<Rightarrow> ('w \<Rightarrow> bool) \<Rightarrow> bool" where
  "answering E kube cfg km ls cr idt taken occ \<longleftrightarrow>
     tenant_slot E km kube idt (resolved_name cr) taken occ \<and> keys_work E \<and>
     kube_works kube (om_Namespace (sa_Meta cr)) ls \<and>
     NewTenantIdentifier (sf_Org (cfg_Snowflake cfg)) (om_Namespace (sa_Meta cr)) (om_Name (sa_Meta cr)) = Inr idt \<and>
     (\<exists>i. NewOrgAdminIdentifier (sf_Org (cfg_Snowflake cfg)) (sf_OrgAdminAccount (cfg_Snowflake cfg)) = Inr i \<and>
        holds_key E km i) \<and>
     cloud_region (sf_OrgAdminAccountRegion (cfg_Snowflake cfg)) \<and> (\<forall>d t w. fst (env_ping E d t w) = None) \<and>
     (\<forall>v w. if occ w then \<exists>err. fst (ks_Create (km_store km) idt v w) = Some err \<and> \<not> errors_Is err ErrPendingDeletion
        else fst (ks_Create (km_store km) idt v w) = None) \<and>
     (\<forall>w. occ w \<longrightarrow> (\<exists>v t. fst (ks_Get (km_store km) idt w) = Inr (v, t) \<and> readable E v \<and>
        om_CreationTimestamp (sa_Meta cr) - resumeClockSkewBuffer \<le> t)) \<and>
     (\<forall>d w. \<exists>rs. fst (env_query E d show_accounts_sql [resolved_name cr] w) = Inr rs \<and>
        (\<forall>label. \<exists>result. materialize label show_accounts_sql rs = Inr result)) \<and>
     (\<forall>d q args w. has_prefix q ''CREATE ACCOUNT'' \<and> \<not> taken w \<longrightarrow> fst (env_exec E d q args w) = None)"

text \<open>What the cache holds is readable, and for this identifier recent enough.\<close>

definition recent_cache :: "'w env \<Rightarrow> ident \<Rightarrow> snowflakeAccount \<Rightarrow> ('w, 'z) km_sys_scheme \<Rightarrow> bool" where
  "recent_cache E idt cr s \<longleftrightarrow> readable_cache E s \<and>
     (\<forall>entry. km_entries s idt = Some entry \<longrightarrow>
        om_CreationTimestamp (sa_Meta cr) - resumeClockSkewBuffer \<le> ce_modifiedAt entry)"

lemma km_fetch_entries:
  fixes s :: "('w, 'z) km_sys_scheme"
  shows "km_fetch E km i s = (Inr (v, t), s') \<Longrightarrow>
     \<exists>entry. km_entries s' = (km_entries s)(i \<mapsto> entry) \<and> ce_value entry = v \<and> ce_modifiedAt entry = t"
  by (auto simp: km_fetch_def dest!: call_km_frame now_km_frame split: prod.splits sum.splits)

lemma km_get_entries:
  fixes s :: "('w, 'z) km_sys_scheme"
  assumes "km_get E km i s = (Inr (v, t), s')"
  shows "\<exists>entry. km_entries s' = (km_entries s)(i \<mapsto> entry) \<and> ce_value entry = v \<and> ce_modifiedAt entry = t"
proof (cases "km_entries s i")
  case None
  with assms km_fetch_entries show ?thesis by (simp add: km_get_def)
next
  case (Some entry)
  obtain n s1 where n: "now E s = (n, s1)" by fastforce
  from now_km_frame [OF n] have "km_entries s1 = km_entries s" by simp
  moreover from Some have "km_entries s = (km_entries s)(i \<mapsto> entry)" by (simp add: fun_upd_idem)
  ultimately show ?thesis
    using assms n Some km_fetch_entries [of E km i s1 v t s'] by (cases "n < ce_expires entry") (auto simp: km_get_def)
qed

lemma resume_ok:
  fixes s :: "('w, 'z) acc_sys_scheme"
  assumes "answering E kube cfg (am_keyManager m) ls cr idt taken occ" and "recent_cache E idt cr s" and "occ (world s)"
  shows "\<exists>creds s'. resumeCrashedCreate E m idt (om_CreationTimestamp (sa_Meta cr)) err s = (Inr creds, s') \<and>
    readable_cache E s'"
proof -
  let ?low = "om_CreationTimestamp (sa_Meta cr) - resumeClockSkewBuffer"
  from assms(1) have k: "calls_keep E (am_keyManager m) kube occ"
    and g: "\<And>w. occ w \<Longrightarrow> \<exists>v t. fst (ks_Get (km_store (am_keyManager m)) idt w) = Inr (v, t) \<and> readable E v \<and> ?low \<le> t"
    by (auto simp: answering_def tenant_slot_def)
  have "\<exists>v t s'. km_get E (am_keyManager m) idt s = (Inr (v, t), s') \<and> readable E v \<and> ?low \<le> t"
    by (rule get_doc [where W = occ, OF g _ assms(3)])
      (use k assms(2) in \<open>auto simp: calls_keep_def recent_cache_def readable_cache_def\<close>)
  then obtain v t s' where r: "km_get E (am_keyManager m) idt s = (Inr (v, t), s')" "readable E v" "?low \<le> t" by blast
  from r(2) obtain creds where "unmarshalCredentials E v t = Inr creds" unfolding readable_def by blast
  moreover from this have "c_RotatedAt creds = t" by (auto simp: unmarshalCredentials_def split: sum.splits if_splits)
  moreover have "readable_cache E s'"
    using km_get_entries [OF r(1)] r(2) assms(2) by (auto simp: readable_cache_def recent_cache_def split: if_splits)
  ultimately show ?thesis using r by (simp add: resumeCrashedCreate_def GetCredentials_def)
qed

lemma acquire_ok:
  fixes s :: "('w, 'z) acc_sys_scheme"
  assumes "answering E kube cfg (am_keyManager m) ls (ac_cr s) idt taken occ" and "recent_cache E idt (ac_cr s) s"
    and "am_org m = sf_Org (cfg_Snowflake cfg)"
  shows "\<exists>creds resumed s'. acquireCredentials E m s = (Inr (creds, resumed), s') \<and> readable_cache E s'"
proof -
  let ?km = "am_keyManager m" and ?cr = "ac_cr s"
  from assms(1) have keys: "keys_work E" and slot: "tenant_slot E ?km kube idt (resolved_name ?cr) taken occ"
    and idt: "NewTenantIdentifier (am_org m) (om_Namespace (sa_Meta ?cr)) (om_Name (sa_Meta ?cr)) = Inr idt"
    and st: "\<And>v w. if occ w then \<exists>err. fst (ks_Create (km_store ?km) idt v w) = Some err \<and> \<not> errors_Is err ErrPendingDeletion
        else fst (ks_Create (km_store ?km) idt v w) = None"
    by (auto simp: answering_def assms(3))
  obtain creds s1 where c: "NewCredentials E platformUser s = (Inr creds, s1)"
    using new_credentials_ok [OF keys] by blast
  obtain v where v: "marshalCredentials E creds = Inr v"
    using keys unfolding keys_work_def marshalCredentials_def by blast
  obtain x w where x: "ks_Create (km_store ?km) idt v (world s1) = (x, w)" by fastforce
  note e = NewCredentials_entries [OF c]
  show ?thesis
  proof (cases x)
    case None
    let ?s2 = "Invalidate idt (s1\<lparr>world := w, trace := trace s1 @ [CreateSecret idt v]\<rparr>)"
    from None c v x idt have "acquireCredentials E m s = (Inr (creds, False), ?s2)"
      by (simp add: acquireCredentials_def Let_def CreateCredentials_def km_create_def call_def)
    moreover have "readable_cache E ?s2" using e assms(2) by (simp add: readable_cache_def recent_cache_def)
    ultimately show ?thesis by blast
  next
    case (Some err)
    let ?s2 = "s1\<lparr>world := w, trace := trace s1 @ [CreateSecret idt v]\<rparr>"
    from st [of "world s1" v] x Some have o: "occ (world s1)" "\<not> errors_Is err ErrPendingDeletion"
      by (auto split: if_splits)
    from slot have "occ (world s1) \<longrightarrow> occ (snd (ks_Create (km_store ?km) idt v (world s1)))"
      unfolding tenant_slot_def by blast
    with o x have "occ (world ?s2)" by simp
    moreover have "recent_cache E idt ?cr ?s2" using e assms(2) by (simp add: recent_cache_def readable_cache_def)
    ultimately obtain creds' s3 where "resumeCrashedCreate E m idt (om_CreationTimestamp (sa_Meta ?cr)) err ?s2 = (Inr creds', s3)"
        "readable_cache E s3" using resume_ok [OF assms(1)] by blast
    with c v x Some o idt have "acquireCredentials E m s = (Inr (creds', True), s3)"
      by (simp add: acquireCredentials_def Let_def CreateCredentials_def km_create_def call_def)
    with \<open>readable_cache E s3\<close> show ?thesis by blast
  qed
qed


lemma acquire_free:
  fixes s :: "('w, 'z) acc_sys_scheme"
  assumes "answering E kube cfg (am_keyManager m) ls (ac_cr s) idt taken occ" and "readable_cache E s"
    and "am_org m = sf_Org (cfg_Snowflake cfg)" and "calls_keep E (am_keyManager m) kube (\<lambda>w. \<not> occ w)" and "\<not> occ (world s)"
  shows "\<exists>creds s'. acquireCredentials E m s = (Inr (creds, False), s') \<and> readable_cache E s'"
proof -
  let ?km = "am_keyManager m" and ?cr = "ac_cr s"
  from assms(1) have keys: "keys_work E"
    and idt: "NewTenantIdentifier (am_org m) (om_Namespace (sa_Meta ?cr)) (om_Name (sa_Meta ?cr)) = Inr idt"
    and st: "\<And>v w. \<not> occ w \<Longrightarrow> fst (ks_Create (km_store ?km) idt v w) = None"
    by (simp_all add: answering_def assms(3))
  obtain creds s1 where c: "NewCredentials E platformUser s = (Inr creds, s1)"
    using new_credentials_ok [OF keys] by blast
  obtain v where v: "marshalCredentials E creds = Inr v"
    using keys unfolding keys_work_def marshalCredentials_def by blast
  have "\<not> occ (world s1)" using kept_new [OF assms(4) c] assms(5) by simp
  from st [OF this] obtain w where x: "ks_Create (km_store ?km) idt v (world s1) = (None, w)" by (metis prod.collapse)
  let ?s2 = "Invalidate idt (s1\<lparr>world := w, trace := trace s1 @ [CreateSecret idt v]\<rparr>)"
  from c v x idt have "acquireCredentials E m s = (Inr (creds, False), ?s2)"
    by (simp add: acquireCredentials_def Let_def CreateCredentials_def km_create_def call_def)
  moreover have "readable_cache E ?s2" using NewCredentials_entries [OF c] assms(2) by (simp add: readable_cache_def)
  ultimately show ?thesis by blast
qed

lemma find_ok:
  fixes s :: "('w, 'z) acc_sys_scheme"
  assumes "answering E kube cfg km ls cr idt taken occ"
  shows "\<exists>l s'. findAccountLocator (statement_New (db_executor E d)) label (resolved_name cr) s =
    (Inr (l, taken (world s)), s') \<and> (taken (world s) \<longrightarrow> l \<noteq> []) \<and> same taken s s' \<and> ac_cr s' = ac_cr s"
proof -
  obtain r s' where f: "findAccountLocator (statement_New (db_executor E d)) label (resolved_name cr) s = (r, s')"
    by fastforce
  from assms obtain rs result where q: "fst (env_query E d show_accounts_sql [resolved_name cr] (world s)) = Inr rs"
      "materialize label show_accounts_sql rs = Inr result"
    unfolding answering_def by blast
  with f obtain l found where r: "r = Inr (l, found)" "found = (l \<noteq> [])"
    by (cases "env_query E d show_accounts_sql [resolved_name cr] (world s)")
      (auto simp: findAccountLocator_def runner_Query_def statement_New_def db_executor_def call_def split: option.splits)
  from assms have "tenant_slot E km kube idt (resolved_name cr) taken occ" by (simp add: answering_def)
  from slot_find [OF this f] findAccountLocator_frame [OF f] f r show ?thesis by auto
qed

lemma finish_ok:
  fixes s :: "('w, 'z) acc_sys_scheme"
  assumes "l \<noteq> []"
  shows "\<exists>s'. finishCreate E l s = (Pending_oc created_reason, s') \<and> cr_locator s' \<noteq> [] \<and>
    st_AccountCreatedAt (sa_Status (ac_cr s')) \<noteq> None \<and> cr_kept (ac_cr s) (ac_cr s')"
proof -
  obtain out s' where f: "finishCreate E l s = (out, s')" by fastforce
  from finishCreate_frame [OF f] assms f show ?thesis by auto
qed

lemma issue_free:
  fixes s :: "('w, 'z) acc_sys_scheme"
  assumes "answering E kube cfg km ls cr idt taken occ" and "\<not> taken (world s)"
  shows "\<exists>s'. issueCreate E (statement_New (db_executor E d)) (resolved_name cr) creds s = (Pending_oc created_reason, s') \<and>
    cr_locator s' \<noteq> [] \<and> st_AccountCreatedAt (sa_Status (ac_cr s')) \<noteq> None \<and> cr_kept (ac_cr s) (ac_cr s')"
proof -
  let ?r = "statement_New (db_executor E d) :: ('w, 'z) acc_sys_scheme runner" and ?n = "resolved_name cr"
  let ?q = "create_account_text (sa_Spec (ac_cr s))"
  let ?args = "create_account_args ?n (sa_Spec (ac_cr s)) (c_PublicKey creds)"
  from assms create_prefix [of "sa_Spec (ac_cr s)"] have "fst (env_exec E d ?q ?args (world s)) = None"
    unfolding answering_def by blast
  then have "fst (execCreateAccount ?r ?n (sa_Spec (ac_cr s)) (c_PublicKey creds) s) = None"
    by (cases "env_exec E d ?q ?args (world s)")
      (simp add: execCreateAccount_def runner_Exec_def statement_New_def db_executor_def call_def)
  then obtain s1 where x: "execCreateAccount ?r ?n (sa_Spec (ac_cr s)) (c_PublicKey creds) s = (None, s1)"
    by (metis prod.collapse)
  from assms have "tenant_slot E km kube idt ?n taken occ" by (simp add: answering_def)
  from slot_exec [OF this x] have t: "taken (world s1)" by simp
  from find_ok [OF assms(1), of d "''locate created account''" s1] t obtain l s2
    where f: "findAccountLocator ?r ''locate created account'' ?n s1 = (Inr (l, True), s2)" "l \<noteq> []" "ac_cr s2 = ac_cr s1"
    by auto
  from finish_ok [OF f(2), of E s2] obtain s' where "finishCreate E l s2 = (Pending_oc created_reason, s')"
      "cr_locator s' \<noteq> []" "st_AccountCreatedAt (sa_Status (ac_cr s')) \<noteq> None" "cr_kept (ac_cr s2) (ac_cr s')" by blast
  with x f execCreateAccount_frame [OF x] show ?thesis
    by (simp add: issueCreate_def locateCreatedAccount_def)
qed

lemma resume_create_ok:
  fixes s :: "('w, 'z) acc_sys_scheme"
  assumes "answering E kube cfg km ls (ac_cr s) idt taken occ" and "recent_cache E idt (ac_cr s) s"
    and "cr_locator s = []" and "taken (world s) \<longrightarrow> occ (world s)" and "cache_stored idt occ s"
    and "checkCreatable (account_module_of cfg km bp) (ac_cr s) (resolved_name (ac_cr s)) ls = None"
    and "rd_pool data = pool_db_pool E (pool_New E km cfg)"
    and "ResolvedAccountName data = resolved_name (ac_cr s)" and "NamespaceLabels data = ls"
  shows "\<exists>s'. account_apply E (account_module_of cfg km bp) data s = (Pending_oc created_reason, s') \<and>
    cr_locator s' \<noteq> [] \<and> st_AccountCreatedAt (sa_Status (ac_cr s')) \<noteq> None \<and> cr_kept (ac_cr s) (ac_cr s')"
proof -
  let ?m = "account_module_of cfg km bp" and ?n = "resolved_name (ac_cr s)"
  have m: "am_org ?m = sf_Org (cfg_Snowflake cfg)" "am_keyManager ?m = km"
    by (simp_all add: account_module_of_def account_New_def)
  from assms(1) have slot: "tenant_slot E km kube idt ?n taken occ"
    and idt: "NewTenantIdentifier (am_org ?m) (om_Namespace (sa_Meta (ac_cr s))) (om_Name (sa_Meta (ac_cr s))) = Inr idt"
    by (simp_all add: answering_def m)
  note k = slot_keeps [OF slot]
  from acquire_ok [of E kube cfg ?m ls s idt taken occ] assms(1,2) m obtain creds resumed s1
    where a: "acquireCredentials E ?m s = (Inr (creds, resumed), s1)" and rc: "readable_cache E s1" by auto
  from slot have "tenant_slot E (am_keyManager ?m) kube idt ?n taken occ" by (simp add: m)
  from slot_acquire [OF this a idt assms(5)] assms(4)
  have a1: "same taken s s1" "resumed \<or> \<not> taken (world s)" by auto
  have a2: "ac_cr s1 = ac_cr s" using acquireCredentials_frame [OF a] by blast
  from assms(1) obtain i
    where i: "NewOrgAdminIdentifier (sf_Org (cfg_Snowflake cfg)) (sf_OrgAdminAccount (cfg_Snowflake cfg)) = Inr i"
      "holds_key E km i" "cloud_region (sf_OrgAdminAccountRegion (cfg_Snowflake cfg))"
      "\<And>d t w. fst (env_ping E d t w) = None"
    unfolding answering_def by (elim conjE exE) simp
  from org_ok_at [OF i rc] obtain d s2 where o: "OrgAdminDB E (pool_New E km cfg) s1 = (Inr d, s2)" by blast
  then have r: "rd_OrgAdminDB data s1 = (Inr d, s2)" by (simp add: rd_OrgAdminDB_def assms(7) pool_db_pool_def)
  from kept_OrgAdminDB [OF k(1) o] kept_OrgAdminDB [OF k(2) o] a1 have t2: "same taken s s2" by blast
  have a3: "ac_cr s2 = ac_cr s" using pl.rd_OrgAdminDB_frame [OF assms(7) r] a2 by simp
  let ?r = "statement_New (db_executor E d) :: ('w, 'z) acc_sys_scheme runner"
  from find_ok [OF assms(1), of d "''check for existing account before resuming create''" s2] t2 obtain l s3
    where f: "findAccountLocator ?r ''check for existing account before resuming create'' ?n s2 = (Inr (l, taken (world s)), s3)"
      "taken (world s) \<Longrightarrow> l \<noteq> []" "same taken s s3" "ac_cr s3 = ac_cr s" using a3 by auto
  show ?thesis
  proof (cases "taken (world s)")
    case True
    with f(2) finish_ok [of l E s3] f(4) a1(2) a r f(1) assms(3,6,8,9) show ?thesis
      by (auto simp: account_apply_def createAccount_def Let_def)
  next
    case False
    let ?t = "if resumed then s3 else s2"
    from False t2 f(3) have "\<not> taken (world ?t)" by simp
    from issue_free [OF assms(1) this, of d creds] obtain s' where
      "issueCreate E ?r ?n creds ?t = (Pending_oc created_reason, s')" "cr_locator s' \<noteq> []"
      "st_AccountCreatedAt (sa_Status (ac_cr s')) \<noteq> None" "cr_kept (ac_cr ?t) (ac_cr s')" by blast
    with False a r f(1,4) a3 assms(3,6,8,9) show ?thesis
      by (cases resumed) (simp_all add: account_apply_def createAccount_def Let_def)
  qed
qed

end
