(* ===== verification/Crash_Properties.thy ===== *)
theory Crash_Properties
  imports Crash_Recovery Deprovisioning
begin

text \<open>
  What the recovery of interrupted creates comes to: the properties of theory \<open>Crash_Recovery\<close>, and
  the case the code does not tell from its own crashed attempt.  A small directory (is the account
  there, is the credential there) with a Snowflake that may lose its answers serves as the example.
\<close>

lemma same_identity_fields:
  "same_identity a b \<Longrightarrow> resolved_name b = resolved_name a \<and> sa_Meta b = sa_Meta a \<and> sa_Spec b = sa_Spec a"
  by (simp add: same_identity_def resolved_name_def)

lemma answering_identity: "same_identity a b \<Longrightarrow> answering E kube cfg km ls b idt taken occ \<longleftrightarrow> answering E kube cfg km ls a idt taken occ"
  using same_identity_fields [of a b] by (simp add: answering_def)

lemma recent_cache_identity: "same_identity a b \<Longrightarrow> recent_cache E idt b s \<longleftrightarrow> recent_cache E idt a s"
  by (simp add: recent_cache_def same_identity_def)

lemma creatable_identity: "same_identity a b \<Longrightarrow> checkCreatable m b n ls = checkCreatable m a n ls"
  unfolding checkCreatable_def same_identity_def by (elim conjE) (simp only:)

text \<open>A run that gets an answer to every call, from a state in which an existing account has its
  credential stored.\<close>

lemma answered_Create:
  fixes s :: "('w, 'z) acc_sys_scheme"
  assumes "xpv1_ok X" and "answering E kube cfg km ls (ac_cr s) idt taken occ"
    and "recent_cache E idt (ac_cr s) s" and "cr_locator s = []" and "taken (world s) \<longrightarrow> occ (world s)"
    and "cache_stored idt occ s"
    and "checkCreatable (account_module_of cfg km bp) (ac_cr s) (resolved_name (ac_cr s)) ls = None"
  shows "\<exists>s'. apply_cr E X (account_client E kube cfg km bp) s = (None, s') \<and> cr_locator s' \<noteq> [] \<and>
    st_AccountCreatedAt (sa_Status (ac_cr s')) \<noteq> None"
proof -
  from assms(2) have kw: "kube_works kube (om_Namespace (sa_Meta (ac_cr s))) ls"
    and slot: "tenant_slot E km kube idt (resolved_name (ac_cr s)) taken occ" by (simp_all add: answering_def)
  note k = slot_keeps [OF slot]
  let ?ok = "\<lambda>s3 :: ('w, 'z) acc_sys_scheme. cr_locator s3 \<noteq> [] \<and> st_AccountCreatedAt (sa_Status (ac_cr s3)) \<noteq> None"
  have "\<exists>(s3 :: ('w, 'z) acc_sys_scheme) s'. ?ok s3 \<and>
      apply_cr E X (account_client E kube cfg km bp) s = (None, s') \<and> cr_locator s' = cr_locator s3 \<and>
      same_identity (ac_cr s3) (ac_cr s') \<and>
      st_AccountCreatedAt (sa_Status (ac_cr s')) = st_AccountCreatedAt (sa_Status (ac_cr s3)) \<and>
      (Pending_oc created_reason = Done \<longrightarrow> readyLatched X s' \<and>
         st_ObservedGeneration (sa_Status (ac_cr s')) = om_Generation (sa_Meta (ac_cr s3)))"
  proof (rule apply_cr_runs [OF assms(1) kw, where reason = created_reason])
    fix data :: "('w, 'z) acc_sys_scheme resourceData" and s2 :: "('w, 'z) acc_sys_scheme"
    assume f: "ac_cr s2 = ac_cr s" "km_entries s2 = km_entries s"
      "world s2 = snd (kb_GetNamespace kube (om_Namespace (sa_Meta (ac_cr s))) (world s))"
      "rd_pool data = pool_db_pool E (pool_New E km cfg)" "ResolvedAccountName data = resolved_name (ac_cr s)"
      "NamespaceLabels data = ls"
    have "taken (world s2) = taken (world s)" "occ (world s) \<longrightarrow> occ (world s2)"
      using k f(3) by (auto simp: calls_keep_def)
    with assms(3-6) f(1,2) have g: "recent_cache E idt (ac_cr s2) s2" "cr_locator s2 = []"
        "taken (world s2) \<longrightarrow> occ (world s2)" "cache_stored idt occ s2"
      by (auto simp: recent_cache_def readable_cache_def cache_stored_def)
    from resume_create_ok [of E kube cfg km ls s2 idt taken occ bp data] g f assms(2,7)
    show "\<exists>s3. account_apply E (account_module_of cfg km bp) data s2 = (Pending_oc created_reason, s3) \<and> ?ok s3"
      by auto
  qed simp
  then show ?thesis by auto
qed

subsection \<open>Properties\<close>

text \<open>C3: An interrupted create never works against itself.  After any history of attempts that failed
  or crashed anywhere, starting from a free name, the next run sends no CREATE ACCOUNT if the account
  is already there, so it cannot collide with its own account; an account that exists still has
  its credential stored; and a locator is recorded only for an account that exists.\<close>

theorem interrupted_create_safe:
  fixes s :: "('w, 'z) acc_sys_scheme"
  assumes "interrupted X cfg bp cr idt taken occ w0 (world s)" and "\<not> taken w0"
    and "NewTenantIdentifier (sf_Org (cfg_Snowflake cfg)) (om_Namespace (sa_Meta cr)) (om_Name (sa_Meta cr)) = Inr idt"
    and "tenant_slot E km kube idt (resolved_name cr) taken occ" and "same_identity cr (ac_cr s)"
    and "cr_locator s = []" and "cache_stored idt occ s"
    and "Create E X (account_client E kube cfg km bp) s = (r, s') \<or>
      Update E X (account_client E kube cfg km bp) s = (r, s')"
  shows "(taken (world s) \<longrightarrow> emits harmless s s') \<and> (taken (world s') \<longrightarrow> occ (world s')) \<and>
    (cr_locator s' \<noteq> [] \<longrightarrow> taken (world s'))"
proof -
  from interrupted_invariant [OF assms(1,3)] assms(2) have i: "taken (world s) \<longrightarrow> occ (world s)" by simp
  from assms(8) have a: "apply_cr E X (account_client E kube cfg km bp) s = (r, s')"
    by (auto simp: Create_def Update_def)
  have "attempt_ok taken occ s s'"
    by (rule slot_apply_cr [where taken = taken and occ = occ, OF _ a _ assms(6,7) i])
      (use assms(3,4) same_identity_fields [OF assms(5)] in simp_all)
  then show ?thesis by (simp add: attempt_ok_def)
qed

text \<open>C4: An interrupted create is finished.  However many attempts failed before, and wherever, the
  first one that gets its answers records the locator and returns no error: it resumes with
  the stored credential, and creates the account only if no earlier attempt did.\<close>

theorem interrupted_create_finishes:
  fixes s :: "('w, 'z) acc_sys_scheme"
  assumes "interrupted X cfg bp cr idt taken occ w0 (world s)" and "\<not> taken w0" and "xpv1_ok X"
    and "answering E kube cfg km ls cr idt taken occ" and "same_identity cr (ac_cr s)" and "cr_locator s = []"
    and "cache_stored idt occ s" and "recent_cache E idt cr s"
    and "checkCreatable (account_module_of cfg km bp) cr (resolved_name cr) ls = None"
    and "Create E X (account_client E kube cfg km bp) s = (r, s')"
  shows "r = None \<and> cr_locator s' \<noteq> [] \<and> st_AccountCreatedAt (sa_Status (ac_cr s')) \<noteq> None \<and>
    taken (world s') \<and> occ (world s') \<and> (taken (world s) \<longrightarrow> emits harmless s s')"
proof -
  note id = same_identity_fields [OF assms(5)]
  from assms(4) have slot: "tenant_slot E km kube idt (resolved_name cr) taken occ"
    and idt: "NewTenantIdentifier (sf_Org (cfg_Snowflake cfg)) (om_Namespace (sa_Meta cr)) (om_Name (sa_Meta cr)) = Inr idt"
    by (simp_all add: answering_def)
  from interrupted_invariant [OF assms(1) idt] assms(2) have i: "taken (world s) \<longrightarrow> occ (world s)" by simp
  have "\<exists>s'. apply_cr E X (account_client E kube cfg km bp) s = (None, s') \<and> cr_locator s' \<noteq> [] \<and>
      st_AccountCreatedAt (sa_Status (ac_cr s')) \<noteq> None"
    by (rule answered_Create [where taken = taken and occ = occ and ls = ls, OF assms(3) _ _ assms(6) i assms(7)])
      (simp_all add: assms(4,8,9) id answering_identity [OF assms(5)] recent_cache_identity [OF assms(5)]
        creatable_identity [OF assms(5)])
  moreover from assms(10) have a: "apply_cr E X (account_client E kube cfg km bp) s = (r, s')" by (simp add: Create_def)
  moreover have "attempt_ok taken occ s s'"
    by (rule slot_apply_cr [where taken = taken and occ = occ, OF _ a _ assms(6,7) i]) (use slot idt id in simp_all)
  ultimately show ?thesis by (auto simp: attempt_ok_def)
qed


text \<open>An account of that name that is not this resource's: there is no credential for it.\<close>

lemma exec_refused:
  assumes "fst (env_exec E d (create_account_text spec) (create_account_args n spec pk) (world s)) \<noteq> None"
  shows "\<exists>e s'. execCreateAccount (statement_New (db_executor E d)) n spec pk s = (Some e, s')"
proof -
  from assms obtain e w where "env_exec E d (create_account_text spec) (create_account_args n spec pk) (world s) = (Some e, w)"
    by (metis not_None_eq prod.collapse)
  then show ?thesis
    by (auto simp: execCreateAccount_def runner_Exec_def statement_New_def db_executor_def call_def split: option.splits)
qed

lemma taken_refused:
  fixes s :: "('w, 'z) acc_sys_scheme"
  assumes "answering E kube cfg km ls (ac_cr s) idt taken occ" and "readable_cache E s"
    and "\<And>d q args w. has_prefix q ''CREATE ACCOUNT'' \<Longrightarrow> taken w \<Longrightarrow> fst (env_exec E d q args w) \<noteq> None"
    and "calls_keep E km kube (\<lambda>w. \<not> occ w)" and "taken (world s)" and "\<not> occ (world s)" and "cr_locator s = []"
    and "checkCreatable (account_module_of cfg km bp) (ac_cr s) (resolved_name (ac_cr s)) ls = None"
    and "rd_pool data = pool_db_pool E (pool_New E km cfg)"
    and "ResolvedAccountName data = resolved_name (ac_cr s)" and "NamespaceLabels data = ls"
  shows "\<exists>e s'. account_apply E (account_module_of cfg km bp) data s = (Failed e, s') \<and>
    occ (world s') \<and> taken (world s') \<and> ac_cr s' = ac_cr s"
proof -
  let ?m = "account_module_of cfg km bp" and ?n = "resolved_name (ac_cr s)"
  have m: "am_org ?m = sf_Org (cfg_Snowflake cfg)" "am_keyManager ?m = km"
    by (simp_all add: account_module_of_def account_New_def)
  from assms(1) have slot: "tenant_slot E km kube idt ?n taken occ"
    and slot_m: "tenant_slot E (am_keyManager ?m) kube idt ?n taken occ"
    and idt: "NewTenantIdentifier (am_org ?m) (om_Namespace (sa_Meta (ac_cr s))) (om_Name (sa_Meta (ac_cr s))) = Inr idt"
    by (simp_all add: answering_def m)
  note k = slot_keeps [OF slot]
  from acquire_free [of E kube cfg ?m ls s idt taken occ] assms(1,2,4,6) m obtain creds s1
    where a: "acquireCredentials E ?m s = (Inr (creds, False), s1)" and rc: "readable_cache E s1" by auto
  obtain r0 s0 where c0: "CreateCredentials E km idt platformUser s = (r0, s0)" by fastforce
  from a c0 idt have "r0 = Inr creds" "s0 = s1"
    by (auto simp: acquireCredentials_def Let_def m split: sum.splits if_splits prod.splits)
  with slot_create [OF slot c0] assms(5) have t1: "taken (world s1)" "occ (world s1)" by auto
  have a2: "ac_cr s1 = ac_cr s" using acquireCredentials_frame [OF a] by blast
  from assms(1) obtain i
    where i: "NewOrgAdminIdentifier (sf_Org (cfg_Snowflake cfg)) (sf_OrgAdminAccount (cfg_Snowflake cfg)) = Inr i"
      "holds_key E km i" "cloud_region (sf_OrgAdminAccountRegion (cfg_Snowflake cfg))"
      "\<And>d t w. fst (env_ping E d t w) = None"
    unfolding answering_def by (elim conjE exE) simp
  from org_ok_at [OF i rc] obtain d s2 where o: "OrgAdminDB E (pool_New E km cfg) s1 = (Inr d, s2)" by blast
  then have r: "rd_OrgAdminDB data s1 = (Inr d, s2)" by (simp add: rd_OrgAdminDB_def assms(9) pool_db_pool_def)
  from kept_OrgAdminDB [OF k(1) o] kept_OrgAdminDB [OF k(3) o] t1 have t2: "taken (world s2)" "occ (world s2)" by auto
  have a3: "ac_cr s2 = ac_cr s" using pl.rd_OrgAdminDB_frame [OF assms(9) r] a2 by simp
  from exec_refused [OF assms(3) [OF create_prefix t2(1)]] obtain e s3
    where x: "execCreateAccount (statement_New (db_executor E d)) ?n (sa_Spec (ac_cr s2)) (c_PublicKey creds) s2 = (Some e, s3)"
    by blast
  from slot_exec [OF slot x] t2 execCreateAccount_frame [OF x] a3
  have "occ (world s3)" "taken (world s3)" "ac_cr s3 = ac_cr s" by auto
  then show ?thesis using a r x assms(7,8,10,11)
    by (auto simp: account_apply_def createAccount_def issueCreate_def Let_def)
qed

text \<open>C15: The code takes an account it did not create for its own.  If the name already belongs to an
  account outside the program, the first run is refused by Snowflake and reports an error, but leaves
  its fresh credential in the store; the next run takes that credential for its own crashed attempt,
  finds the account by its name and records its locator, as if this resource had created it, without
  sending CREATE ACCOUNT.  From then on the resource owns it: a permitted Delete of the resource drops
  that account.\<close>

theorem foreign_account_adopted:
  fixes s t v :: "('w, 'z) acc_sys_scheme"
  assumes "xpv1_ok X" and "answering E kube cfg km ls (ac_cr s) idt taken occ"
    and "\<And>d q args w. has_prefix q ''CREATE ACCOUNT'' \<Longrightarrow> taken w \<Longrightarrow> fst (env_exec E d q args w) \<noteq> None"
    and "calls_keep E km kube (\<lambda>w. \<not> occ w)" and "taken (world s)" and "\<not> occ (world s)" and "cr_locator s = []"
    and "checkCreatable (account_module_of cfg km bp) (ac_cr s) (resolved_name (ac_cr s)) ls = None"
    and "readable_cache E s" and "Create E X (account_client E kube cfg km bp) s = (r, s1)"
    and "same_identity (ac_cr s) (ac_cr t)" and "world t = world s1" and "cr_locator t = []"
    and "recent_cache E idt (ac_cr s) t" and "Create E X (account_client E kube cfg km bp) t = (r', t1)"
    and "sa_Meta (ac_cr v) = (sa_Meta (ac_cr s))\<lparr>om_DeletionTimestamp := Some d\<rparr>" and "cr_locator v = cr_locator t1"
    and "answers_drop E kube cfg km (ac_cr v)" and "may_delete kube cfg (ac_cr v) (world v)" and "readable_cache E v"
    and "Delete E X (account_client E kube cfg km bp) v = (q, v1)"
  shows "r \<noteq> None \<and> cr_locator s1 = [] \<and> taken (world s1) \<and> occ (world s1) \<and>
    r' = None \<and> cr_locator t1 \<noteq> [] \<and> emits harmless t t1 \<and>
    cr_locator v1 = [] \<and> (\<exists>(v2 :: ('w, 'z) acc_sys_scheme) v3. emits (\<lambda>_. True) v v2 \<and>
      account_dropped E cfg km (ac_cr v) v2 v3 \<and> emits (\<lambda>_. True) v3 v1) \<and>
    resolved_name (ac_cr v) = resolved_name (ac_cr s)"
proof -
  from assms(2) have slot: "tenant_slot E km kube idt (resolved_name (ac_cr s)) taken occ"
    and kw: "kube_works kube (om_Namespace (sa_Meta (ac_cr s))) ls"
    and idt: "NewTenantIdentifier (sf_Org (cfg_Snowflake cfg)) (om_Namespace (sa_Meta (ac_cr s))) (om_Name (sa_Meta (ac_cr s))) = Inr idt"
    by (simp_all add: answering_def)
  note k = slot_keeps [OF slot]
  have "apply_cr E X (account_client E kube cfg km bp) s = (r, s1)" using assms(10) by (simp add: Create_def)
  then have first: "r \<noteq> None \<and> cr_locator s1 = [] \<and> occ (world s1) \<and> taken (world s1)"
  proof (cases rule: apply_cr_attempt)
    case no_labels
    with kw show ?thesis by (simp add: kube_works_def)
  next
    case (ran data s2 out s3)
    let ?m = "account_module_of cfg km bp"
    have ls: "NamespaceLabels data = ls" using ran(1) kw by (simp add: kube_works_def)
    have h: "taken (world s2)" "\<not> occ (world s2)" using ran(2) k(1) assms(4-6) by auto
    from taken_refused [of E kube cfg km ls s2 idt taken occ bp data] ran ls h assms(2-4,7-9)
    obtain e s4 where a: "account_apply E ?m data s2 = (Failed e, s4)" "occ (world s4)" "taken (world s4)"
        "ac_cr s4 = ac_cr s2" by (auto simp: readable_cache_def)
    with ran(8) have s3: "s3 = syncStatus E ?m data s4" by (simp add: account_Apply_def)
    with syncStatus_frame [of s4 E ?m data] a ran(4,11) assms(7) have "cr_locator s1 = []" by simp
    moreover from a(1) ran(8) have "oc_State out = StateFailed" "oc_Err out \<noteq> None"
      by (auto simp: account_Apply_def Abort_def)
    then have "r \<noteq> None" by (rule ran(12))
    ultimately show ?thesis using s3 kept_syncStatus [OF k(3), of s4 ?m data] kept_syncStatus [OF k(1), of s4 ?m data] a(2,3) ran(9) k(1,3)
      by blast
  qed
  note id = same_identity_fields [OF assms(11)]
  from first assms(12,13) have t: "occ (world t)" "taken (world t)" "cr_locator t = []" "cache_stored idt occ t"
    by (simp_all add: cache_stored_def)
  have "\<exists>t'. apply_cr E X (account_client E kube cfg km bp) t = (None, t') \<and> cr_locator t' \<noteq> [] \<and>
      st_AccountCreatedAt (sa_Status (ac_cr t')) \<noteq> None"
    by (rule answered_Create [where taken = taken and occ = occ and ls = ls, OF assms(1) _ _ t(3) _ t(4)])
      (simp_all add: assms(2,8,14) t id answering_identity [OF assms(11)] recent_cache_identity [OF assms(11)]
        creatable_identity [OF assms(11)])
  moreover from assms(15) have a: "apply_cr E X (account_client E kube cfg km bp) t = (r', t1)" by (simp add: Create_def)
  moreover have "attempt_ok taken occ t t1"
    by (rule slot_apply_cr [where taken = taken and occ = occ, OF _ a _ t(3,4)]) (use slot idt id t in simp_all)
  ultimately have second: "r' = None" "cr_locator t1 \<noteq> []" "emits harmless t t1" using t(2) by (auto simp: attempt_ok_def)
  from second(2) assms(17) have "cr_locator v \<noteq> []" by simp
  note third = dropping_Delete [OF assms(18,20) this assms(19,21)]
  have "resolved_name (ac_cr v) = resolved_name (ac_cr s)" using assms(16) by (simp add: resolved_name_def)
  with first second third show ?thesis by (intro conjI) (simp_all only: not_False_eq_True simp_thms)
qed


subsection \<open>Witnesses\<close>

text \<open>The world is the pair of the two facts; with \<open>lost\<close>, Snowflake carries out CREATE ACCOUNT but the
  answer is lost.\<close>

definition dir_exec :: "bool \<Rightarrow> string \<Rightarrow> bool \<times> bool \<Rightarrow> gerror option \<times> (bool \<times> bool)" where
  "dir_exec lost q w =
     (if has_prefix q ''CREATE ACCOUNT'' then
        (if fst w then (Some (SnowflakeError 2002 ''42710'' [] ''already exists''), w)
         else (if lost then Some (Foreign ''connection reset'') else None, (True, snd w)))
      else (None, w))"

definition dir_rows :: "string \<Rightarrow> bool \<Rightarrow> rows" where
  "dir_rows n t = sample_rows [''account_name'', ''account_locator''] (if t then [[SqlString n, SqlString ''xy12345'']] else [])"

definition dir_query :: "string list \<Rightarrow> bool \<times> bool \<Rightarrow> rows result \<times> (bool \<times> bool)" where
  "dir_query args w = (Inr (dir_rows (hd args) (fst w)), w)"

definition dir_at :: "bool \<Rightarrow> time \<Rightarrow> (bool \<times> bool) env" where
  "dir_at lost t =
     \<lparr>env_now = (\<lambda>w. (t, w)),
      env_uuid = (\<lambda>w. (''0a1b2c3d'', w)),
      env_rsaGenerate = (\<lambda>n w. (Inr 7, w)),
      env_marshalPKIX = env_marshalPKIX sample_env, env_marshalPKCS8 = env_marshalPKCS8 sample_env,
      env_parsePKCS8 = env_parsePKCS8 sample_env, env_pemEncode = env_pemEncode sample_env,
      env_pemDecode = env_pemDecode sample_env, env_jsonMarshal = env_jsonMarshal sample_env,
      env_jsonUnmarshal = env_jsonUnmarshal sample_env, env_timeText = env_timeText sample_env,
      env_durationText = env_durationText sample_env,
      env_exec = (\<lambda>d q args. dir_exec lost q),
      env_query = (\<lambda>d q. dir_query),
      env_openDB = (\<lambda>c w. (0, w)),
      env_ping = (\<lambda>d t w. (None, w)),
      env_closeDB = (\<lambda>d w. (None, w)),
      env_setLimits = (\<lambda>d a b t u w. w)\<rparr>"

abbreviation dir_env :: "bool \<Rightarrow> (bool \<times> bool) env" where
  "dir_env lost \<equiv> dir_at lost 1000000000000"

definition dir_store :: "(bool \<times> bool) key_store" where
  "dir_store =
     \<lparr>ks_Get = (\<lambda>i w. (if i = sample_ident \<and> \<not> snd w then Inl (Foreign ''absent'') else Inr (''json'', 999999999999), w)),
      ks_Create = (\<lambda>i v w. if i = sample_ident then
         (if snd w then (Some (Foreign ''exists''), w) else (None, (fst w, True))) else (None, w)),
      ks_Update = (\<lambda>i v w. (None, w)), ks_Delete = (\<lambda>i w. (None, w))\<rparr>"

definition dir_km :: "(bool \<times> bool) key_manager" where
  "dir_km = \<lparr>km_store = dir_store, km_ttl = 300000000000\<rparr>"

definition dir_kube :: "(bool \<times> bool) kube" where
  "dir_kube =
     \<lparr>kb_GetNamespace = (\<lambda>n w. (Inr Map.empty, w)), kb_UpdateAccountStatus = (\<lambda>a w. (None, w)),
      kb_ListPermits = (\<lambda>n w. (Inr [sample_permit], w)), kb_UpdatePermitStatus = (\<lambda>p w. (None, w))\<rparr>"

abbreviation dir_client :: "bool \<Rightarrow> (bool \<times> bool, (bool \<times> bool) acc_sys) external" where
  "dir_client lost \<equiv> account_client (dir_env lost) dir_kube sample_cfg dir_km sample_backplane"

definition dir_sys :: "bool \<times> bool \<Rightarrow> (bool \<times> bool) acc_sys" where
  "dir_sys w =
     \<lparr>world = w, trace = [], km_entries = (\<lambda>_. None), ps_orgAdminDB = None, ps_entries = [], ps_keyLocks = [],
      ac_cr = sample_account [] None, ac_tenantDB = None\<rparr>"

lemmas dir_defs = dir_at_def dir_exec_def dir_query_def dir_store_def dir_km_def dir_kube_def

lemma dir_keeps:
  "calls_keep (dir_at lost clk) dir_km dir_kube fst" "calls_keep (dir_at lost clk) dir_km dir_kube (\<lambda>w. \<not> fst w)"
  "calls_keep (dir_at lost clk) dir_km dir_kube snd" "calls_keep (dir_at lost clk) dir_km dir_kube (\<lambda>w. \<not> snd w)"
  by (auto simp: calls_keep_def dir_defs dest: has_prefix_clash)

lemma dir_listed:
  "\<exists>result. materialize label show_accounts_sql (dir_rows n t) = Inr result \<and>
    (case row_StringValue (FindRow result ''account_name'' n) ''account_locator'' of None \<Rightarrow> \<not> t | Some l \<Rightarrow> t = (l \<noteq> []))"
proof -
  have "row_StringValue None ''account_locator'' = None" by code_simp
  then show ?thesis
    by (simp add: dir_rows_def sample_rows_def materialize_def row_of_def FindRow_def sample_row_values)
qed

lemma dir_slot: "tenant_slot (dir_at lost clk) dir_km dir_kube sample_ident n fst snd"
proof -
  have "(case row_StringValue (FindRow result ''account_name'' n) ''account_locator'' of None \<Rightarrow> \<not> fst w | Some l \<Rightarrow> fst w = (l \<noteq> []))"
    if "fst (env_query (dir_at lost clk) d show_accounts_sql [n] w) = Inr rs" "materialize label show_accounts_sql rs = Inr result"
    for d w rs label result
    using dir_listed [of label n "fst w"] that by (auto simp: dir_at_def dir_query_def)
  moreover have "(fst w \<longrightarrow> fst (snd (env_exec (dir_at lost clk) d q args w))) \<and> (snd w \<longrightarrow> snd (snd (env_exec (dir_at lost clk) d q args w))) \<and>
      (fst (env_exec (dir_at lost clk) d q args w) = None \<longrightarrow> fst (snd (env_exec (dir_at lost clk) d q args w))) \<and>
      (\<forall>err. fst (env_exec (dir_at lost clk) d q args w) = Some err \<and> name_in_use err \<longrightarrow> fst w)"
    if "has_prefix q ''CREATE ACCOUNT''" for d q args and w :: "bool \<times> bool"
    using that by (simp add: dir_at_def dir_exec_def name_in_use_def newError_sqlstate errors_As_def
        duplicateAccountSQLState_def)
  moreover have "fst (snd (ks_Create (km_store dir_km) sample_ident v w)) = fst w \<and>
      (snd w \<longrightarrow> snd (snd (ks_Create (km_store dir_km) sample_ident v w))) \<and>
      (fst (ks_Create (km_store dir_km) sample_ident v w) = None \<longrightarrow>
         \<not> snd w \<and> snd (snd (ks_Create (km_store dir_km) sample_ident v w)))" for v w
    by (simp add: dir_km_def dir_store_def)
  moreover have "fst (ks_Get (km_store dir_km) sample_ident w) = Inr x \<Longrightarrow> snd w" for w x
    by (simp add: dir_km_def dir_store_def split: if_splits)
  ultimately show ?thesis using dir_keeps unfolding tenant_slot_def by blast
qed

lemma dir_answering: "answering (dir_at False clk) dir_kube sample_cfg dir_km Map.empty (sample_account [] None) sample_ident fst snd"
proof -
  have r: "readable (dir_at False clk) ''json''"
    by (simp add: readable_def dir_at_def sample_env_def unmarshalCredentials_def parsePrivateKey_def)
  have "keys_work (dir_at False clk)" by (simp add: keys_work_def dir_at_def sample_env_def)
  moreover have "kube_works dir_kube ''ns'' Map.empty" by (simp add: kube_works_def dir_kube_def)
  moreover have "\<exists>i. NewOrgAdminIdentifier ''acme'' ''admin'' = Inr i \<and> holds_key (dir_at False clk) dir_km i"
  proof -
    obtain i where i: "NewOrgAdminIdentifier ''acme'' ''admin'' = Inr i" using sample_orgadmin_identifier by blast
    then have "i \<noteq> sample_ident" unfolding NewOrgAdminIdentifier_Inr by (simp add: orgadmin_value_def sample_ident_def)
    with i r show ?thesis by (simp add: holds_key_def dir_km_def dir_store_def)
  qed
  moreover have "cloud_region ''aws-eu-central-1''" using sample_host Hostname_Inr_iff by blast
  moreover have "\<exists>rs. fst (env_query (dir_at False clk) d show_accounts_sql [n] w) = Inr rs \<and>
      (\<forall>label. \<exists>result. materialize label show_accounts_sql rs = Inr result)" for d n w
    using dir_listed [of _ n "fst w"] by (auto simp: dir_at_def dir_query_def)
  moreover have "\<exists>v t. fst (ks_Get (km_store dir_km) sample_ident w) = Inr (v, t) \<and> readable (dir_at False clk) v \<and>
      0 - resumeClockSkewBuffer \<le> t" if "snd w" for w
    using that r by (simp add: dir_km_def dir_store_def resumeClockSkewBuffer_def)
  moreover have "if snd w then \<exists>err. fst (ks_Create (km_store dir_km) sample_ident v w) = Some err \<and>
        \<not> errors_Is err ErrPendingDeletion else fst (ks_Create (km_store dir_km) sample_ident v w) = None" for v w
    by (simp add: dir_km_def dir_store_def errors_Is_def)
  moreover have "fst (env_ping (dir_at False clk) d t w) = None" for d t w by (simp add: dir_at_def)
  moreover have "fst (env_exec (dir_at False clk) d q args w) = None"
    if "has_prefix q ''CREATE ACCOUNT''" "\<not> fst w" for d q args w
    using that by (simp add: dir_at_def dir_exec_def)
  ultimately show ?thesis
    using dir_slot sample_identifier by (simp add: answering_def sample_account_def sample_meta_def sample_cfg_def)
qed

lemma dir_sys_fields [simp]:
  "world (dir_sys w) = w" "trace (dir_sys w) = []" "ac_cr (dir_sys w) = sample_account [] None" "km_entries (dir_sys w) i = None"
  by (simp_all add: dir_sys_def)

lemma dir_start:
  "cr_locator (dir_sys w) = []" "cache_stored i occ (dir_sys w)" "recent_cache E i cr (dir_sys w)"
  "readable_cache E (dir_sys w)" "same_identity cr cr"
  by (simp_all add: sample_account_def cache_stored_def recent_cache_def readable_cache_def same_identity_def)

lemma dir_creatable:
  "checkCreatable (account_module_of sample_cfg dir_km sample_backplane) (sample_account [] None)
     (resolved_name (sample_account [] None)) Map.empty = None"
proof -
  have "resolved_name (sample_account [] None) = ResolveName ''acct'' ''ns''"
    by (simp add: resolved_name_def sample_account_def sample_meta_def)
  then show ?thesis
    by (simp add: sample_creatable account_module_of_def account_New_def sample_cfg_def)
qed

lemma dir_tenant: "NewTenantIdentifier (sf_Org (cfg_Snowflake sample_cfg)) (om_Namespace (sa_Meta (sample_account [] None)))
    (om_Name (sa_Meta (sample_account [] None))) = Inr sample_ident"
  using sample_identifier by (simp add: sample_cfg_def sample_account_def sample_meta_def)

text \<open>The history of the witnesses: one attempt from nothing, whose CREATE ACCOUNT was answered by a
  reset connection.\<close>

lemma dir_interrupted:
  assumes "Create (dir_env True) simple_xpv1 (dir_client True) (dir_sys (False, False)) = (r, s1)"
  shows "interrupted simple_xpv1 sample_cfg sample_backplane (sample_account [] None) sample_ident fst snd (False, False) (world s1)"
proof -
  have "interrupted simple_xpv1 sample_cfg sample_backplane (sample_account [] None) sample_ident fst snd (False, False)
      (world (dir_sys (False, False)))" by (simp add: in_start)
  from in_attempt [OF this dir_slot _ dir_start(1) dir_start(2) disjI1 [OF assms]]
  show ?thesis by (simp add: dir_start(5))
qed

lemma interrupted_create_safe_witness:
  "\<exists>s1 s2. Create (dir_env True) simple_xpv1 (dir_client True) (dir_sys (False, False)) = s1 \<and>
     Update (dir_env True) simple_xpv1 (dir_client True) (dir_sys (world (snd s1))) = s2 \<and>
     (fst (world (snd s1)) \<longrightarrow> emits harmless (dir_sys (world (snd s1))) (snd s2)) \<and>
     (fst (world (snd s2)) \<longrightarrow> snd (world (snd s2)))"
proof -
  obtain r s1 where c: "Create (dir_env True) simple_xpv1 (dir_client True) (dir_sys (False, False)) = (r, s1)" by fastforce
  obtain r' s2 where u: "Update (dir_env True) simple_xpv1 (dir_client True) (dir_sys (world s1)) = (r', s2)" by fastforce
  have i: "interrupted simple_xpv1 sample_cfg sample_backplane (sample_account [] None) sample_ident fst snd (False, False)
      (world (dir_sys (world s1)))" using dir_interrupted [OF c] by simp
  have "same_identity (sample_account [] None) (ac_cr (dir_sys (world s1)))" by (simp add: dir_start(5))
  from interrupted_create_safe [OF i _ dir_tenant dir_slot this dir_start(1,2) disjI2 [OF u]] c u
  show ?thesis by (intro exI [of _ "(r, s1)"] exI [of _ "(r', s2)"]) simp
qed

lemma interrupted_create_finishes_witness:
  "\<exists>s1 s2. Create (dir_env True) simple_xpv1 (dir_client True) (dir_sys (False, False)) = s1 \<and>
     Create (dir_env False) simple_xpv1 (dir_client False) (dir_sys (world (snd s1))) = (None, s2) \<and>
     cr_locator s2 \<noteq> [] \<and> fst (world s2) \<and> snd (world s2)"
proof -
  obtain r s1 where c: "Create (dir_env True) simple_xpv1 (dir_client True) (dir_sys (False, False)) = (r, s1)" by fastforce
  obtain r' s2 where u: "Create (dir_env False) simple_xpv1 (dir_client False) (dir_sys (world s1)) = (r', s2)" by fastforce
  have i: "interrupted simple_xpv1 sample_cfg sample_backplane (sample_account [] None) sample_ident fst snd (False, False)
      (world (dir_sys (world s1)))" using dir_interrupted [OF c] by simp
  have "same_identity (sample_account [] None) (ac_cr (dir_sys (world s1)))" by (simp add: dir_start(5))
  from interrupted_create_finishes [OF i _ simple_xpv1_ok dir_answering this dir_start(1,2,3) dir_creatable u] c u
  show ?thesis by (intro exI [of _ "(r, s1)"] exI [of _ s2]) simp
qed

lemma dir_answers_drop:
  assumes "om_Namespace (sa_Meta cr) = ''ns''"
  shows "answers_drop (dir_env False) dir_kube sample_cfg dir_km cr"
proof -
  have "\<not> has_prefix q ''CREATE ACCOUNT''" if "has_prefix q ''DROP ACCOUNT''" for q
    using that by (auto dest: has_prefix_clash)
  then have "fst (env_exec (dir_env False) d q args w) = None" if "has_prefix q ''DROP ACCOUNT''" for d q args w
    using that by (simp add: dir_at_def dir_exec_def)
  with dir_answering [of 1000000000000] show ?thesis by (auto simp: answers_drop_def answering_def dir_kube_def)
qed

lemma foreign_account_adopted_witness:
  "\<exists>r s1 t1 q v1. Create (dir_env False) simple_xpv1 (dir_client False) (dir_sys (True, False)) = (r, s1) \<and> r \<noteq> None \<and>
     Create (dir_env False) simple_xpv1 (dir_client False) (dir_sys (world s1)) = (None, t1) \<and>
     cr_locator s1 = [] \<and> cr_locator t1 \<noteq> [] \<and> emits harmless (dir_sys (world s1)) t1 \<and>
     Delete (dir_env False) simple_xpv1 (dir_client False) (t1\<lparr>ac_cr := (ac_cr t1)\<lparr>sa_Meta :=
       (sa_Meta (sample_account [] None))\<lparr>om_DeletionTimestamp := Some 5\<rparr>\<rparr>, km_entries := \<lambda>_. None\<rparr>) = (q, v1) \<and> cr_locator v1 = []"
proof -
  obtain r s1 where c: "Create (dir_env False) simple_xpv1 (dir_client False) (dir_sys (True, False)) = (r, s1)" by fastforce
  obtain r' t1 where u: "Create (dir_env False) simple_xpv1 (dir_client False) (dir_sys (world s1)) = (r', t1)" by fastforce
  let ?v = "t1\<lparr>ac_cr := (ac_cr t1)\<lparr>sa_Meta := (sa_Meta (sample_account [] None))\<lparr>om_DeletionTimestamp := Some 5\<rparr>\<rparr>, km_entries := \<lambda>_. None\<rparr>"
  obtain q v1 where d: "Delete (dir_env False) simple_xpv1 (dir_client False) ?v = (q, v1)" by fastforce
  have x: "has_prefix q ''CREATE ACCOUNT'' \<Longrightarrow> fst w \<Longrightarrow> fst (env_exec (dir_env False) d q args w) \<noteq> None" for d q args w
    by (simp add: dir_at_def dir_exec_def)
  let ?s = "dir_sys (True, False)" and ?t = "dir_sys (world s1)"
  have a: "answering (dir_env False) dir_kube sample_cfg dir_km Map.empty (ac_cr ?s) sample_ident fst snd"
    "checkCreatable (account_module_of sample_cfg dir_km sample_backplane) (ac_cr ?s) (resolved_name (ac_cr ?s)) Map.empty = None"
    "same_identity (ac_cr ?s) (ac_cr ?t)" "fst (world ?s)" "\<not> snd (world ?s)" "world ?t = world s1"
    using dir_answering dir_creatable by (simp_all add: dir_start(5))
  have v: "sa_Meta (ac_cr ?v) = (sa_Meta (ac_cr ?s))\<lparr>om_DeletionTimestamp := Some 5\<rparr>" "cr_locator ?v = cr_locator t1"
    "answers_drop (dir_env False) dir_kube sample_cfg dir_km (ac_cr ?v)" "may_delete dir_kube sample_cfg (ac_cr ?v) (world ?v)"
    "readable_cache (dir_env False) ?v"
    using dir_answers_drop
    by (simp_all add: sample_account_def sample_meta_def may_delete_def dir_kube_def matching_def sample_permit_def
        stateActive_def snowflakeAccountKind_def readable_cache_def)
  from foreign_account_adopted [OF simple_xpv1_ok a(1) x dir_keeps(4) a(4,5) dir_start(1) a(2) dir_start(4) c a(3,6)
      dir_start(1,3) u v d] c u d
  show ?thesis by (intro exI [of _ r] exI [of _ s1] exI [of _ t1] exI [of _ q] exI [of _ v1]) simp
qed

end
