(* ===== verification/Provisioning_Properties.thy ===== *)
theory Provisioning_Properties
  imports Crash_Properties
begin

text \<open>
  A new account, from its first run to Ready.  The create is the one of \<open>Crash_Recovery\<close>, by systems
  that answer according to the world (\<open>answering\<close>: the store refuses an occupied identifier and reads
  only what is stored, Snowflake refuses a name in use); \<open>healthy\<close> adds what the tenant's own account
  answers.  From it follow the reconcile and the observation of the account the create recorded.
\<close>

subsection \<open>A world that answers\<close>

text \<open>The tenant's account: its users can be listed, and the contact's address can be set.\<close>

definition users_work :: "'w env \<Rightarrow> bool" where
  "users_work E \<longleftrightarrow> (\<forall>d args w. fst (env_exec E d alter_email_sql args w) = None) \<and>
     (\<forall>d w. \<exists>rs result. fst (env_query E d show_users_sql [platformUser] w) = Inr rs \<and>
        materialize ''show platform user'' show_users_sql rs = Inr result)"

definition healthy ::
  "'w env \<Rightarrow> 'w kube \<Rightarrow> config \<Rightarrow> 'w key_manager \<Rightarrow> labels \<Rightarrow> snowflakeAccount \<Rightarrow> ident \<Rightarrow>
     ('w \<Rightarrow> bool) \<Rightarrow> ('w \<Rightarrow> bool) \<Rightarrow> bool" where
  "healthy E kube cfg km ls cr idt taken occ \<longleftrightarrow>
     answering E kube cfg km ls cr idt taken occ \<and> cloud_region (as_Region (sa_Spec cr)) \<and> users_work E"

lemma healthy_identity:
  "same_identity a b \<Longrightarrow> healthy E kube cfg km ls b idt taken occ \<longleftrightarrow> healthy E kube cfg km ls a idt taken occ"
  unfolding healthy_def using same_identity_fields [of a b] by (simp only: answering_identity)

subsection \<open>The tenant's connection\<close>

text \<open>While the credential is stored it can be read.\<close>

lemma get_stored:
  fixes s :: "('w, 'z) km_sys_scheme"
  assumes "answering E kube cfg km ls cr idt taken occ" and "occ (world s)" and "readable_cache E s"
  shows "\<exists>creds key s'. GetCredentials E km idt s = (Inr creds, s') \<and>
    parsePrivateKey E (c_PrivateKey creds) = Inr key"
proof -
  let ?low = "om_CreationTimestamp (sa_Meta cr) - resumeClockSkewBuffer"
  from assms(1) have k: "calls_keep E km kube occ"
    and g': "\<And>w. occ w \<Longrightarrow> \<exists>v t. fst (ks_Get (km_store km) idt w) = Inr (v, t) \<and> readable E v \<and> ?low \<le> t"
    by (auto simp: answering_def tenant_slot_def)
  have g: "\<exists>v t. fst (ks_Get (km_store km) idt w) = Inr (v, t) \<and> readable E v" if "occ w" for w
    using g' [OF that] by blast
  have "\<exists>v t s'. km_get E km idt s = (Inr (v, t), s') \<and> readable E v"
    by (rule get_doc [where W = occ and D = "\<lambda>v t. readable E v", OF g _ assms(2)])
      (use k assms(3) in \<open>auto simp: calls_keep_def readable_cache_def\<close>)
  then show ?thesis by (auto simp: GetCredentials_def readable_def)
qed

lemma tenant_ok:
  fixes s :: "('w, 'z) pool_sys_scheme"
  assumes "healthy E kube cfg km ls cr idt taken occ" and "occ (world s)" and "readable_cache E s"
  shows "\<exists>db s'. TenantDB E (pool_New E km cfg) (om_Namespace (sa_Meta cr)) (om_Name (sa_Meta cr)) locator
    (as_Region (sa_Spec cr)) s = (Inr db, s')"
proof -
  let ?key = "\<lparr>tk_namespace = om_Namespace (sa_Meta cr), tk_accountName = om_Name (sa_Meta cr)\<rparr>"
  from assms(1) have a: "answering E kube cfg km ls cr idt taken occ"
    and i: "NewTenantIdentifier (sf_Org (cfg_Snowflake cfg)) (om_Namespace (sa_Meta cr)) (om_Name (sa_Meta cr)) = Inr idt"
    and ping: "\<And>d t w. fst (env_ping E d t w) = None"
    by (simp_all add: healthy_def answering_def)
  from assms(1) obtain h where h: "Hostname locator (as_Region (sa_Spec cr)) (sf_UsePrivateLink (cfg_Snowflake cfg)) = Inr h"
    using host_ok by (fastforce simp: healthy_def)
  obtain lock s1 where k: "keyLock ?key s = (lock, s1)" by fastforce
  then have "km_entries s1 = km_entries s" "world s1 = world s" by (auto simp: keyLock_def Let_def split: option.splits)
  with assms(2,3) have "occ (world s1)" "readable_cache E s1" by (simp_all add: readable_cache_def)
  from get_stored [OF a this] obtain creds key s2
    where g: "GetCredentials E km idt s1 = (Inr creds, s2)" "parsePrivateKey E (c_PrivateKey creds) = Inr key"
    by blast
  obtain db s3 where "defaultDial E
      \<lparr>dc_snowflake = buildSnowflakeConfig locator h (c_Username creds) key ''ACCOUNTADMIN''
         (sf_DisableOCSPChecks (cfg_Snowflake cfg)),
       dc_probeTimeout = sf_ConnectionProbeTimeout (cfg_Snowflake cfg)\<rparr> s2 = (Inr db, s3)"
    using dial_ok [OF ping] by blast
  with i h g k show ?thesis
    by (cases "cachedTenant ?key locator (as_Region (sa_Spec cr)) s1")
      (simp_all add: TenantDB_def dialTenant_def openTenant_def pool_New_def Let_def)
qed

subsection \<open>The reconcile\<close>

lemma query_users_ok:
  assumes "users_work E"
  shows "\<exists>result s'. runner_Query (statement_New (db_executor E d)) ''show platform user'' show_users_sql
    [platformUser] s = (Inr result, s')"
proof -
  from assms obtain rs result where "fst (env_query E d show_users_sql [platformUser] (world s)) = Inr rs"
      "materialize ''show platform user'' show_users_sql rs = Inr result"
    unfolding users_work_def by blast
  then show ?thesis
    by (cases "env_query E d show_users_sql [platformUser] (world s)")
      (simp add: runner_Query_def statement_New_def db_executor_def call_def)
qed

lemma email_ok:
  assumes "users_work E"
  shows "\<exists>s'. syncPlatformEmail (statement_New (db_executor E d)) contact s = (None, s')"
proof -
  from query_users_ok [OF assms] obtain result s1
    where q: "runner_Query (statement_New (db_executor E d)) ''show platform user'' show_users_sql
      [platformUser] s = (Inr result, s1)" by blast
  from assms have "fst (env_exec E d alter_email_sql [platformUser, contact] (world s1)) = None" by (simp add: users_work_def)
  then obtain w where "env_exec E d alter_email_sql [platformUser, contact] (world s1) = (None, w)" by (metis prod.collapse)
  with q show ?thesis
    by (auto simp: syncPlatformEmail_def runner_Exec_def statement_New_def db_executor_def call_def)
qed

text \<open>The clock has passed the grace period of the account's creation.\<close>

definition grace_over :: "'w env \<Rightarrow> config \<Rightarrow> snowflakeAccount \<Rightarrow> 'w \<Rightarrow> bool" where
  "grace_over E cfg cr w \<longleftrightarrow>
     (case st_AccountCreatedAt (sa_Status cr) of None \<Rightarrow> True
      | Some createdAt \<Rightarrow>
          sf_AccountCreationGracePeriod (cfg_Snowflake cfg) \<le> fst (env_now E w) - createdAt)"

lemma within_over:
  fixes s :: "('w, 'z) acc_sys_scheme"
  assumes "grace_over E cfg (ac_cr s) (world s)"
  shows "\<exists>s'. withinGracePeriod E (am_gracePeriod (account_module_of cfg km bp)) s = (False, s') \<and>
    ac_cr s' = ac_cr s \<and> ac_tenantDB s' = ac_tenantDB s \<and> km_entries s' = km_entries s \<and>
    world s' \<in> {world s, snd (env_now E (world s))}"
  using assms
  by (auto simp: grace_over_def withinGracePeriod_def account_module_of_def account_New_def now_def
      local_call_def split: option.splits prod.splits)

lemma connect_ok:
  fixes s :: "('w, 'z) acc_sys_scheme"
  assumes "healthy E kube cfg km ls (ac_cr s) idt taken occ" and "readable_cache E s" and "occ (world s)" and "cr_locator s \<noteq> []"
    and "rd_pool data = pool_db_pool E (pool_New E km cfg)"
    and "rd_namespace data = om_Namespace (sa_Meta (ac_cr s))"
  shows "\<exists>d s'. connectTenant data s = (Inr d, s') \<and> ac_cr s' = ac_cr s"
proof -
  from tenant_ok [OF assms(1,3,2)] obtain d s1 where "TenantDB E (pool_New E km cfg)
      (om_Namespace (sa_Meta (ac_cr s))) (om_Name (sa_Meta (ac_cr s))) (cr_locator s)
      (as_Region (sa_Spec (ac_cr s))) s = (Inr d, s1)" by blast
  with assms(4-6) obtain d' s' where c: "connectTenant data s = (Inr d', s')"
    by (cases "ac_tenantDB s") (auto simp: connectTenant_def rd_TenantDB_def Let_def pool_db_pool_def)
  with pl.connectTenant_frame [OF assms(5) c] show ?thesis by blast
qed

lemma reconcile_ok:
  fixes s :: "('w, 'z) acc_sys_scheme"
  assumes "healthy E kube cfg km ls (ac_cr s) idt taken occ" and "readable_cache E s" and "occ (world s)" and "cr_locator s \<noteq> []"
    and "grace_over E cfg (ac_cr s) (world s)"
    and "rd_pool data = pool_db_pool E (pool_New E km cfg)"
    and "rd_namespace data = om_Namespace (sa_Meta (ac_cr s))"
  shows "\<exists>s'. account_apply E (account_module_of cfg km bp) data s = (Done, s') \<and> ac_cr s' = ac_cr s"
proof -
  from within_over [OF assms(5)] obtain s1
    where w: "withinGracePeriod E (am_gracePeriod (account_module_of cfg km bp)) s = (False, s1)"
      and f: "ac_cr s1 = ac_cr s" "km_entries s1 = km_entries s" "world s1 \<in> {world s, snd (env_now E (world s))}" by blast
  from assms(1) have "calls_keep E km kube occ" by (simp add: healthy_def answering_def tenant_slot_def)
  with f(3) assms(3) have "occ (world s1)" by (auto simp: calls_keep_def)
  with assms(1,2,4,7) f have h: "healthy E kube cfg km ls (ac_cr s1) idt taken occ" "readable_cache E s1" "occ (world s1)"
      "cr_locator s1 \<noteq> []" "rd_namespace data = om_Namespace (sa_Meta (ac_cr s1))"
    by (simp_all add: readable_cache_def)
  from connect_ok [OF h(1-4) assms(6) h(5)] obtain d s2
    where c: "connectTenant data s1 = (Inr d, s2)" and f2: "ac_cr s2 = ac_cr s1" by blast
  have "users_work E" using assms(1) by (simp add: healthy_def)
  from email_ok [OF this] obtain s3
    where e: "syncPlatformEmail (statement_New (db_executor E d)) (as_Contact (sa_Spec (ac_cr s2))) s2 = (None, s3)"
    by blast
  from syncPlatformEmail_frame [OF e] f f2 w c e assms(4) show ?thesis
    by (simp add: account_apply_def reconcileExisting_def)
qed

subsection \<open>The runs\<close>

text \<open>A later state in which the resource is \<open>cr\<close>, its credential is still stored, and the grace
  period is over by the time the namespace has been read.\<close>

definition later ::
  "'w env \<Rightarrow> 'w kube \<Rightarrow> config \<Rightarrow> ('w \<Rightarrow> bool) \<Rightarrow> snowflakeAccount \<Rightarrow> ('w, 'z) acc_sys_scheme \<Rightarrow> bool" where
  "later E kube cfg occ cr t \<longleftrightarrow> ac_cr t = cr \<and> readable_cache E t \<and> occ (world t) \<and>
     grace_over E cfg cr (snd (kb_GetNamespace kube (om_Namespace (sa_Meta cr)) (world t)))"

lemma Create_ok:
  fixes s :: "('w, 'z) acc_sys_scheme"
  assumes "xpv1_ok X" and "answering E kube cfg km ls (ac_cr s) idt taken occ" and "recent_cache E idt (ac_cr s) s"
    and "cr_locator s = []" and "\<not> taken (world s)" and "cache_stored idt occ s"
    and "checkCreatable (account_module_of cfg km bp) (ac_cr s) (resolved_name (ac_cr s)) ls = None"
  shows "\<exists>s1. Create E X (account_client E kube cfg km bp) s = (None, s1) \<and> cr_locator s1 \<noteq> [] \<and>
    same_identity (ac_cr s) (ac_cr s1) \<and> taken (world s1) \<and> occ (world s1)"
proof -
  have i: "taken (world s) \<longrightarrow> occ (world s)" using assms(5) by simp
  from answered_Create [OF assms(1-4) i assms(6,7)] obtain s1
    where a: "apply_cr E X (account_client E kube cfg km bp) s = (None, s1)" "cr_locator s1 \<noteq> []" by blast
  have "attempt_ok taken occ s s1"
    by (rule slot_apply_cr [where taken = taken and occ = occ, OF _ a(1) _ assms(4,6) i])
      (use assms(2) in \<open>simp_all add: answering_def\<close>)
  with a apply_account [OF a(1)] show ?thesis by (auto simp: attempt_ok_def Create_def)
qed

lemma Update_ok:
  fixes t :: "('w, 'z) acc_sys_scheme"
  assumes "xpv1_ok X" and "healthy E kube cfg km ls cr idt taken occ" and "later E kube cfg occ cr t"
    and "st_AccountLocator (sa_Status cr) \<noteq> []"
  shows "\<exists>t'. Update E X (account_client E kube cfg km bp) t = (None, t') \<and> readyLatched X t' \<and>
    cr_locator t' = st_AccountLocator (sa_Status cr) \<and> same_identity cr (ac_cr t') \<and>
    st_AccountCreatedAt (sa_Status (ac_cr t')) = st_AccountCreatedAt (sa_Status cr) \<and>
    st_ObservedGeneration (sa_Status (ac_cr t')) = om_Generation (sa_Meta cr)"
proof -
  from assms(3) have l: "ac_cr t = cr" "readable_cache E t" "occ (world t)" by (simp_all add: later_def)
  have k: "kube_works kube (om_Namespace (sa_Meta (ac_cr t))) ls" and o: "calls_keep E km kube occ"
    using assms(2) by (simp_all add: healthy_def answering_def tenant_slot_def l)
  have "\<exists>(s3 :: ('w, 'z) acc_sys_scheme) t'. ac_cr s3 = cr \<and> apply_cr E X (account_client E kube cfg km bp) t = (None, t') \<and>
      cr_locator t' = cr_locator s3 \<and> same_identity (ac_cr s3) (ac_cr t') \<and>
      st_AccountCreatedAt (sa_Status (ac_cr t')) = st_AccountCreatedAt (sa_Status (ac_cr s3)) \<and>
      (Done = Done \<longrightarrow> readyLatched X t' \<and>
         st_ObservedGeneration (sa_Status (ac_cr t')) = om_Generation (sa_Meta (ac_cr s3)))"
  proof (rule apply_cr_runs [OF assms(1) k])
    fix data :: "('w, 'z) acc_sys_scheme resourceData" and s2 :: "('w, 'z) acc_sys_scheme"
    assume f: "ac_cr s2 = ac_cr t" "km_entries s2 = km_entries t"
      "world s2 = snd (kb_GetNamespace kube (om_Namespace (sa_Meta (ac_cr t))) (world t))"
      "rd_pool data = pool_db_pool E (pool_New E km cfg)" "rd_namespace data = om_Namespace (sa_Meta (ac_cr t))"
    have "readable_cache E s2" using l(2) f(2) by (simp add: readable_cache_def)
    moreover have "occ (world s2)" using f(3) l(3) o by (simp add: calls_keep_def)
    moreover have "grace_over E cfg (ac_cr s2) (world s2)" using assms(3) f(1,3) by (simp add: later_def)
    ultimately show "\<exists>s3. account_apply E (account_module_of cfg km bp) data s2 = (Done, s3) \<and> ac_cr s3 = cr"
      using reconcile_ok [of E kube cfg km ls s2 idt taken occ data bp] assms(2,4) f l(1) by simp
  qed simp
  then show ?thesis by (auto simp: Update_def)
qed

lemma syncStatus_ok:
  fixes s :: "('w, 'z) acc_sys_scheme"
  assumes "cloud_region (as_Region (sa_Spec (ac_cr s)))"
  shows "km_entries (syncStatus E m data s) = km_entries s \<and> world (syncStatus E m data s) = world s"
proof -
  obtain u where "AccountURL (cr_locator s) (as_Region (sa_Spec (ac_cr s))) (am_usePrivateLink m) = Inr u"
    using assms AccountURL_Inr_iff by blast
  then show ?thesis by (simp add: syncStatus_def Let_def set_status_def)
qed

lemma Observe_ok:
  fixes t :: "('w, 'z) acc_sys_scheme"
  assumes "healthy E kube cfg km ls cr idt taken occ" and "later E kube cfg occ cr t"
    and "st_AccountLocator (sa_Status cr) \<noteq> []" and "om_DeletionTimestamp (sa_Meta cr) = None"
    and "st_ObservedGeneration (sa_Status cr) = om_Generation (sa_Meta cr)"
  shows "\<exists>t'. Observe E X (account_client E kube cfg km bp) t =
    (\<lparr>eo_ResourceExists = True, eo_ResourceUpToDate = True\<rparr>, None, t')"
proof -
  let ?e = "account_client E kube cfg km bp :: ('w, ('w, 'z) acc_sys_scheme) external"
  let ?m = "account_module_of cfg km bp" and ?ns = "om_Namespace (sa_Meta cr)"
  let ?log = "account_logger OpObserve cr"
  from assms(2) have l: "ac_cr t = cr" "readable_cache E t" "occ (world t)" by (simp_all add: later_def)
  from assms(1) have keep: "calls_keep E km kube occ" by (simp add: healthy_def answering_def tenant_slot_def)
  obtain w1 where w1: "kb_GetNamespace kube ?ns (world t) = (Inr ls, w1)"
    using assms(1) unfolding healthy_def answering_def kube_works_def by (metis prod.collapse)
  have w1': "kb_GetNamespace kube (om_Namespace (sa_Meta (ac_cr t))) (world t) = (Inr ls, w1)" using w1 l by simp
  obtain s1 data s2 where n: "namespaceLabels ?e (om_Namespace (sa_Meta (ac_cr t))) t = (Inr ls, s1)"
    and d: "NewResourceData ls ?log (pool_db_pool E (pool_New E km cfg)) s1 = (data, s2)"
    and f: "ac_cr s2 = ac_cr t" "km_entries s2 = km_entries t" "world s2 = w1"
      "rd_namespace data = om_Namespace (sa_Meta (ac_cr t))" "rd_pool data = pool_db_pool E (pool_New E km cfg)"
    by (rule enter_run [OF w1'])
  note n = n [unfolded l] and f = f [unfolded l]
  let ?s3 = "syncStatus E ?m data s2"
  have "cloud_region (as_Region (sa_Spec (ac_cr s2)))" using assms(1) f(1) by (simp add: healthy_def)
  from syncStatus_ok [OF this, of E ?m data] syncStatus_frame [of s2 E ?m data] f assms(2)
  have g: "grace_over E cfg (ac_cr ?s3) (world ?s3)" "world ?s3 = w1" "km_entries ?s3 = km_entries t"
      "same_identity cr (ac_cr ?s3)" "cr_locator ?s3 = st_AccountLocator (sa_Status cr)"
    by (auto simp: later_def grace_over_def w1 same_identity_def cr_kept_def)
  from within_over [OF g(1), of km bp] obtain s4
    where w: "withinGracePeriod E (am_gracePeriod ?m) ?s3 = (False, s4)" "ac_cr s4 = ac_cr ?s3"
      "km_entries s4 = km_entries ?s3" "world s4 \<in> {world ?s3, snd (env_now E (world ?s3))}" by blast
  have "occ w1" using keep l(3) w1 unfolding calls_keep_def by (metis snd_conv)
  with w(4) g(2) keep have o4: "occ (world s4)" by (auto simp: calls_keep_def)
  have h: "healthy E kube cfg km ls (ac_cr s4) idt taken occ" "readable_cache E s4" "cr_locator s4 \<noteq> []"
      "rd_namespace data = om_Namespace (sa_Meta (ac_cr s4))"
    using assms(1,3) l(2) g healthy_identity [OF g(4), of E kube cfg km ls idt taken occ] w(2,3) f(4)
    by (simp_all add: readable_cache_def same_identity_def)
  from connect_ok [OF h(1,2) o4 h(3) f(5) h(4)] obtain db s5
    where c: "connectTenant data s4 = (Inr db, s5)" by blast
  have a: "account_Observe E ?m data s2 = (Done, s5)"
    using f(1) assms(3) w(1) c by (simp add: account_Observe_def)
  let ?obs = "\<lparr>ob_Outcomes = [Done\<lparr>oc_Module := accountModuleName\<rparr>], ob_generationApplied = True,
    ob_readyLatched = readyLatched X s2\<rparr>"
  have "pipeline_Observe X (xt_pipeline ?e) data s2 = (?obs, s5)"
    using a f(1) assms(5) by (simp add: pipeline_Observe_def Let_def account_pmodule_def)
  with n(1) d l(1) assms(4) show ?thesis
    by (simp add: Observe_def Let_def ExternalObservation_def upToDate_def)
qed


subsection \<open>Properties\<close>

text \<open>C13: A new account is provisioned in two runs.  If its name is free, the systems around the
  controller answer (each according to the world: the store refuses to create at an occupied identifier
  and returns only what is stored), and the account may be created, then Create returns without an
  error, leaves the account created, its credential stored and the locator recorded; once the grace
  period is over, and as long as the credential stays stored, Update of that resource returns without
  an error, sets Ready and marks the generation as applied; and from then on Observe reports that the
  resource exists and is up to date, so the reconciler has nothing left to do.\<close>

theorem provisioning_converges:
  fixes s t u :: "('w, 'z) acc_sys_scheme"
  assumes "xpv1_ok X" and "answering E kube cfg km ls (ac_cr s) idt taken occ"
    and "\<not> taken (world s)" and "cr_locator s = []" and "recent_cache E idt (ac_cr s) s" and "cache_stored idt occ s"
    and "checkCreatable (account_module_of cfg km bp) (ac_cr s) (resolved_name (ac_cr s)) ls = None"
    and "Create E X (account_client E kube cfg km bp) s = (r, s1)"
    and "healthy E' kube cfg km ls (ac_cr s) idt taken occ"
    and "later E' kube cfg occ (ac_cr s1) t" and "Update E' X (account_client E' kube cfg km bp) t = (r', t1)"
    and "later E' kube cfg occ (ac_cr t1) u" and "om_DeletionTimestamp (sa_Meta (ac_cr s)) = None"
    and "Observe E' X (account_client E' kube cfg km bp) u = (obs, r'', u1)"
  shows "r = None \<and> cr_locator s1 \<noteq> [] \<and> taken (world s1) \<and> occ (world s1) \<and>
    r' = None \<and> cr_locator t1 = cr_locator s1 \<and> readyLatched X t1 \<and>
    st_ObservedGeneration (sa_Status (ac_cr t1)) = om_Generation (sa_Meta (ac_cr s)) \<and>
    r'' = None \<and> eo_ResourceExists obs \<and> eo_ResourceUpToDate obs"
proof -
  from Create_ok [OF assms(1,2,5,4,3,6,7)] assms(8)
  have c: "r = None" "cr_locator s1 \<noteq> []" "taken (world s1)" "occ (world s1)"
    and i1: "same_identity (ac_cr s) (ac_cr s1)" by auto
  from assms(9) have h1: "healthy E' kube cfg km ls (ac_cr s1) idt taken occ" by (simp only: healthy_identity [OF i1])
  from Update_ok [OF assms(1) h1 assms(10) c(2), of bp] assms(11)
  have d: "r' = None" "readyLatched X t1" "cr_locator t1 = cr_locator s1"
      "st_ObservedGeneration (sa_Status (ac_cr t1)) = om_Generation (sa_Meta (ac_cr s1))"
    and i2: "same_identity (ac_cr s1) (ac_cr t1)" by auto
  from h1 have h2: "healthy E' kube cfg km ls (ac_cr t1) idt taken occ" by (simp only: healthy_identity [OF i2])
  from c(2) d(3,4) i1 i2 assms(13)
  have g: "cr_locator t1 \<noteq> []" "om_DeletionTimestamp (sa_Meta (ac_cr t1)) = None"
      "st_ObservedGeneration (sa_Status (ac_cr t1)) = om_Generation (sa_Meta (ac_cr t1))"
    by (simp_all add: same_identity_def)
  from Observe_ok [OF h2 assms(12) g, of X bp] assms(14)
  have "r'' = None \<and> eo_ResourceExists obs \<and> eo_ResourceUpToDate obs" by auto
  with c d i1 show ?thesis by (simp add: same_identity_def)
qed

text \<open>The directory of \<open>Crash_Properties\<close>, an hour later.\<close>

lemma dir_users: "users_work (dir_at False n)"
proof -
  have "\<not> has_prefix alter_email_sql ''CREATE ACCOUNT''" by (simp add: alter_email_sql_def has_prefix_def)
  moreover have "\<exists>result. materialize ''show platform user'' show_users_sql (dir_rows platformUser t) = Inr result" for t
    by (cases t) (simp_all add: dir_rows_def sample_rows_def materialize_def row_of_def)
  ultimately show ?thesis by (auto simp: users_work_def dir_at_def dir_exec_def dir_query_def)
qed

lemma dir_healthy: "healthy (dir_at False n) dir_kube sample_cfg dir_km Map.empty (sample_account [] None) sample_ident fst snd"
proof -
  have "cloud_region ''aws-eu-central-1''" using sample_host Hostname_Inr_iff by blast
  then show ?thesis using dir_answering dir_users by (simp add: healthy_def sample_account_def)
qed

lemma dir_later:
  assumes "\<And>c. st_AccountCreatedAt (sa_Status cr) = Some c \<Longrightarrow> c + 300000000000 \<le> clk"
  shows "later (dir_at False clk) dir_kube sample_cfg snd cr (dir_sys (a, True)\<lparr>ac_cr := cr\<rparr>)"
  using assms by (auto simp: later_def grace_over_def readable_cache_def dir_sys_def sample_cfg_def dir_kube_def dir_at_def
      split: option.splits)

lemma provisioning_converges_witness:
  "\<exists>clk s1 t1 obs u1. let later_client = account_client (dir_at False clk) dir_kube sample_cfg dir_km sample_backplane in
     Create (dir_env False) simple_xpv1 (dir_client False) (dir_sys (False, False)) = (None, s1) \<and> world s1 = (True, True) \<and>
     Update (dir_at False clk) simple_xpv1 later_client (dir_sys (True, True)\<lparr>ac_cr := ac_cr s1\<rparr>) = (None, t1) \<and>
     readyLatched simple_xpv1 t1 \<and>
     Observe (dir_at False clk) simple_xpv1 later_client (dir_sys (True, True)\<lparr>ac_cr := ac_cr t1\<rparr>) = (obs, None, u1) \<and>
     eo_ResourceUpToDate obs"
proof -
  let ?s = "dir_sys (False, False)"
  obtain r s1 where c: "Create (dir_env False) simple_xpv1 (dir_client False) ?s = (r, s1)" by fastforce
  obtain clk where clk: "\<And>c. st_AccountCreatedAt (sa_Status (ac_cr s1)) = Some c \<Longrightarrow> c + 300000000000 \<le> clk"
    by (cases "st_AccountCreatedAt (sa_Status (ac_cr s1))") auto
  let ?E = "dir_at False clk" and ?e = "account_client (dir_at False clk) dir_kube sample_cfg dir_km sample_backplane ::
    (bool \<times> bool, (bool \<times> bool) acc_sys) external"
  let ?t = "dir_sys (True, True)\<lparr>ac_cr := ac_cr s1\<rparr>"
  obtain r' t1 where d: "Update ?E simple_xpv1 ?e ?t = (r', t1)" by fastforce
  let ?u = "dir_sys (True, True)\<lparr>ac_cr := ac_cr t1\<rparr>"
  obtain obs r'' u1 where o: "Observe ?E simple_xpv1 ?e ?u = (obs, r'', u1)" by (metis prod_cases3)
  have a: "answering (dir_env False) dir_kube sample_cfg dir_km Map.empty (ac_cr ?s) sample_ident fst snd"
    "\<not> fst (world ?s)" "checkCreatable (account_module_of sample_cfg dir_km sample_backplane) (ac_cr ?s) (resolved_name (ac_cr ?s))
       Map.empty = None" "healthy ?E dir_kube sample_cfg dir_km Map.empty (ac_cr ?s) sample_ident fst snd"
    "om_DeletionTimestamp (sa_Meta (ac_cr ?s)) = None"
    using dir_answering dir_creatable dir_healthy by (simp_all add: sample_account_def sample_meta_def)
  note t = dir_later [of "ac_cr s1" clk True, OF clk]
  from Create_ok [OF simple_xpv1_ok a(1) dir_start(3,1) a(2) dir_start(2) a(3)] c
  have l: "cr_locator s1 \<noteq> []" and i: "same_identity (ac_cr ?s) (ac_cr s1)" by auto
  have "healthy ?E dir_kube sample_cfg dir_km Map.empty (ac_cr s1) sample_ident fst snd"
    using a(4) by (simp only: healthy_identity [OF i])
  from Update_ok [OF simple_xpv1_ok this t l, of sample_backplane] d
  have "st_AccountCreatedAt (sa_Status (ac_cr t1)) = st_AccountCreatedAt (sa_Status (ac_cr s1))" by simp
  with clk have u: "later ?E dir_kube sample_cfg snd (ac_cr t1) ?u" by (intro dir_later) simp
  from provisioning_converges [OF simple_xpv1_ok a(1,2) dir_start(1,3,2) a(3) c a(4) t d u a(5) o] c d o
  show ?thesis by (intro exI [of _ clk] exI [of _ s1] exI [of _ t1] exI [of _ obs] exI [of _ u1])
      (simp add: prod_eq_iff)
qed

end
