(* ===== verification/Admission.thy ===== *)
theory Admission
  imports Api BaseConfig Tenant Identifier
begin

text \<open>
  What the API server checks before a controller ever sees a resource: the kubebuilder
  validation markers of \<open>apis/base/v1alpha1\<close>, from which the CRD schemas are generated.
  A field marker (MaxLength, Pattern, Enum, MinLength) is a predicate on the field's value and a CEL
  rule a predicate on its \<open>self\<close>; a rule with \<open>oldSelf\<close> is a transition rule, which the API server
  evaluates on updates only, and only where both the old and the new object carry the field.
  Fields tagged \<open>omitempty\<close> are absent when empty.
\<close>

subsection \<open>Schema vocabulary\<close>

text \<open>MaxLength, MinLength and \<open>size\<close> count code points: the bytes that do not continue a
  UTF-8 sequence.\<close>

definition rune_count :: "string \<Rightarrow> nat" where
  "rune_count s = length (filter (\<lambda>c. \<not> in_range 128 191 c) s)"

definition space_char :: "char \<Rightarrow> bool" where
  "space_char c \<longleftrightarrow> byte_of c \<in> {9, 10, 12, 13, 32}"

definition mail_char :: "char \<Rightarrow> bool" where
  "mail_char c \<longleftrightarrow> \<not> space_char c \<and> c \<noteq> CHR ''@''"

definition lower_alnum :: "char \<Rightarrow> bool" where
  "lower_alnum c \<longleftrightarrow> is_lower c \<or> is_digit c"

text \<open>A transition rule \<open>self == oldSelf\<close> on an optional string.\<close>

definition unchanged_if_present :: "string \<Rightarrow> string \<Rightarrow> bool" where
  "unchanged_if_present oldSelf self \<longleftrightarrow> oldSelf = [] \<or> self = [] \<or> self = oldSelf"

subsection \<open>SnowflakeAccount\<close>

definition contactPattern :: rexp where
  "contactPattern =
     RSeq (re_plus (RCls mail_char)) (RSeq (re_lit ''@'') (RSeq (re_plus (RCls mail_char))
       (RSeq (re_lit ''.'') (re_plus (RCls mail_char)))))"

definition regionPattern :: rexp where
  "regionPattern =
     RSeq (RAlt (re_lit ''aws'') (RAlt (re_lit ''azure'') (re_lit ''gcp'')))
       (RSeq (re_lit ''-'')
         (re_head_tail is_lower (\<lambda>c. is_lower c \<or> is_digit c \<or> c = CHR ''-'')))"

definition environments :: "string list" where
  "environments = [''dev'', ''prod'']"

definition authException_valid :: "authException \<Rightarrow> bool" where
  "authException_valid self \<longleftrightarrow> ae_RSAKeyAllowed self \<or> ae_PATAllowed self"

definition customAuthRules_valid :: "customAuthRules \<Rightarrow> bool" where
  "customAuthRules_valid r \<longleftrightarrow> list_all authException_valid (ar_Exceptions r)"

definition identityIntegration_valid :: "identityIntegration \<Rightarrow> bool" where
  "identityIntegration_valid i \<longleftrightarrow> ii_RoleBindings i ''ACCOUNTADMIN'' \<noteq> None"

definition accountSpec_valid :: "accountSpec \<Rightarrow> bool" where
  "accountSpec_valid spec \<longleftrightarrow>
     rune_count (as_Description spec) \<le> 1024 \<and>
     re_match contactPattern (as_Contact spec) \<and>
     re_match regionPattern (as_Region spec) \<and>
     as_Environment spec \<in> set environments \<and>
     identityIntegration_valid (as_IdentityIntegration spec) \<and>
     (case as_CustomAuthRules spec of None \<Rightarrow> True | Some r \<Rightarrow> customAuthRules_valid r)"

definition accountSpec_transition :: "accountSpec \<Rightarrow> accountSpec \<Rightarrow> bool" where
  "accountSpec_transition old new \<longleftrightarrow>
     unchanged_if_present (as_Description old) (as_Description new) \<and>
     as_Region new = as_Region old \<and>
     as_Environment new = as_Environment old"

definition maxNameSize :: nat where
  "maxNameSize = 55"

definition accountNamePattern :: rexp where
  "accountNamePattern =
     RSeq (RSeq (RCls is_lower) (RStar (RCls lower_alnum)))
       (RStar (RSeq (re_lit ''-'') (re_plus (RCls lower_alnum))))"

definition accountName_valid :: "string \<Rightarrow> bool" where
  "accountName_valid name \<longleftrightarrow> rune_count name \<le> maxNameSize \<and> re_match accountNamePattern name"

definition account_valid :: "snowflakeAccount \<Rightarrow> bool" where
  "account_valid a \<longleftrightarrow> accountName_valid (om_Name (sa_Meta a)) \<and> accountSpec_valid (sa_Spec a)"

text \<open>An update addresses the stored object by its name and namespace, which cannot change.\<close>

definition account_update_valid :: "snowflakeAccount \<Rightarrow> snowflakeAccount \<Rightarrow> bool" where
  "account_update_valid old new \<longleftrightarrow>
     om_Name (sa_Meta new) = om_Name (sa_Meta old) \<and>
     om_Namespace (sa_Meta new) = om_Namespace (sa_Meta old) \<and>
     account_valid new \<and> accountSpec_transition (sa_Spec old) (sa_Spec new)"

subsection \<open>DeletionPermit\<close>

definition maxPermitDuration :: duration where
  "maxPermitDuration = 8 * int hour"

definition permitDuration_valid :: "duration \<Rightarrow> bool" where
  "permitDuration_valid self \<longleftrightarrow> self > 0 \<and> self \<le> maxPermitDuration"

definition targetKinds :: "string list" where
  "targetKinds = [''SnowflakeAccount'']"

definition permitSpec_valid :: "permitSpec \<Rightarrow> bool" where
  "permitSpec_valid spec \<longleftrightarrow>
     tr_Kind (ps_TargetRef spec) \<in> set targetKinds \<and>
     permitDuration_valid (ps_Duration spec) \<and>
     rune_count (ps_Reason spec) \<ge> 1"

definition permitStates :: "string list" where
  "permitStates = [''Active'', ''Expired'', ''Consumed'']"

text \<open>The state is optional, so the enumeration applies once it is set.\<close>

definition permitStatus_valid :: "permitStatus \<Rightarrow> bool" where
  "permitStatus_valid st \<longleftrightarrow> pt_State st = [] \<or> pt_State st \<in> set permitStates"

subsection \<open>What the patterns admit\<close>

lemma regionPattern_orgAdmin: "regionPattern = orgAdminRegionPattern"
  by (simp add: regionPattern_def orgAdminRegionPattern_def)

lemma rune_count_le: "rune_count s \<le> length s"
  by (simp add: rune_count_def)

lemma rune_count_ascii:
  assumes "list_all (\<lambda>c. byte_of c < 128) s"
  shows "rune_count s = length s"
proof -
  have "filter (\<lambda>c. \<not> in_range 128 191 c) s = s"
    using assms by (induction s) (auto simp: in_range_def)
  then show ?thesis by (simp add: rune_count_def)
qed

text \<open>A name is a run of lower-case letters and digits and of single inner dashes.\<close>

lemma lower_alnum_nosep: "lower_alnum c \<Longrightarrow> \<not> sep_char c"
  by (auto simp: lower_alnum_def sep_char_def byte_class_defs)

lemma adjacent_seps_append_alnum:
  "list_all lower_alnum xs \<Longrightarrow> \<not> adjacent_seps ys \<Longrightarrow> \<not> adjacent_seps (xs @ ys)"
proof (induction xs)
  case (Cons x xs)
  then show ?case by (cases "xs @ ys") (auto dest: lower_alnum_nosep)
qed simp

lemma dashed_groups:
  assumes "s \<in> re_star (re_conc {''-''} {x # xs | x xs. lower_alnum x \<and> list_all lower_alnum xs})"
  shows "list_all k8s_name_char s \<and> \<not> adjacent_seps s"
  using assms
proof (induction rule: re_star.induct)
  case (star_step g ys)
  from star_step.hyps(1) obtain x xs where g: "g = CHR ''-'' # x # xs" "lower_alnum x" "list_all lower_alnum xs"
    by (auto simp: re_conc_iff)
  then have "\<not> adjacent_seps ((x # xs) @ ys)"
    using star_step.IH adjacent_seps_append_alnum [of "x # xs" ys] by simp
  moreover have "list_all k8s_name_char (x # xs)"
    using g by (auto simp: lower_alnum_def k8s_name_char_def list_all_iff)
  moreover have "k8s_name_char CHR ''-''" by (simp add: k8s_name_char_def)
  ultimately show ?case using g star_step.IH lower_alnum_nosep [OF g(2)] by simp
qed simp

lemma accountNamePattern_shape:
  assumes "re_match accountNamePattern name"
  shows "(\<exists>c cs. name = c # cs \<and> is_lower c) \<and> list_all k8s_name_char name \<and> \<not> adjacent_seps name"
proof -
  have plus: "re_lang (re_plus (RCls lower_alnum)) = {x # xs | x xs. lower_alnum x \<and> list_all lower_alnum xs}"
    by (auto simp: re_plus_def re_conc_Cls simp del: re_lang.simps(6) split: list.splits)
  from assms obtain c xs ys where n: "name = (c # xs) @ ys" "is_lower c" "list_all lower_alnum xs"
    and ys: "ys \<in> re_star (re_conc {''-''} {x # xs | x xs. lower_alnum x \<and> list_all lower_alnum xs})"
    unfolding re_match_iff accountNamePattern_def
    by (auto simp: re_conc_iff plus simp flip: re_star_Cls)
  from dashed_groups [OF ys] have y: "list_all k8s_name_char ys" "\<not> adjacent_seps ys" by auto
  have cx: "list_all lower_alnum (c # xs)" using n by (simp add: lower_alnum_def)
  then have "list_all k8s_name_char (c # xs)"
    by (auto simp: lower_alnum_def k8s_name_char_def list_all_iff)
  with n y adjacent_seps_append_alnum [OF cx y(2)] show ?thesis by auto
qed

lemma k8s_name_char_ascii: "k8s_name_char c \<Longrightarrow> byte_of c < 128"
  by (auto simp: k8s_name_char_def byte_class_defs)

lemma accountName_valid_facts:
  assumes "accountName_valid name"
  shows "valid_segment name" "list_all k8s_name_char name" "CHR ''_'' \<notin> set name" "length name \<le> 55"
proof -
  from assms accountNamePattern_shape [of name] obtain c cs
    where n: "name = c # cs" "is_lower c" and k: "list_all k8s_name_char name" "\<not> adjacent_seps name"
    by (auto simp: accountName_valid_def)
  from k(1) show "list_all k8s_name_char name" .
  from k(1) show "CHR ''_'' \<notin> set name" by (auto simp: list_all_iff k8s_name_char_def byte_class_defs)
  from k n show "valid_segment name"
    by (auto simp: valid_segment_def list_all_iff k8s_name_char_def seg_char_def is_alnum_def is_alpha_def)
  from k(1) have "rune_count name = length name"
    by (intro rune_count_ascii) (auto simp: list_all_iff k8s_name_char_ascii)
  with assms show "length name \<le> 55" by (simp add: accountName_valid_def maxNameSize_def)
qed

end
