(* ===== verification/Admission_Properties.thy ===== *)
theory Admission_Properties
  imports Admission Provisioning_Properties Startup_Properties
begin

text \<open>
  What the controllers may rely on because of admission: names that are always valid and never
  collide, a region and an environment that never change, a permit window no edit can stretch
  past eight hours, and, composed with Provisioning_Properties, accounts whose naming and region
  do not stand in the way of their creation, as long as neither the namespace nor the organization's
  names repeat a separator and the account's name fits.
\<close>

subsection \<open>Histories of admitted writes\<close>

text \<open>One resource as the API server accepts it: created once, then updated.  Status writes do
  not touch the spec.\<close>

inductive account_history :: "snowflakeAccount \<Rightarrow> snowflakeAccount \<Rightarrow> bool" where
  ah_create: "account_valid a \<Longrightarrow> account_history a a"
| ah_update: "account_history a b \<Longrightarrow> account_update_valid b c \<Longrightarrow> account_history a c"
| ah_status: "account_history a b \<Longrightarrow> account_history a (b\<lparr>sa_Status := st\<rparr>)"

inductive_cases account_historyE: "account_history a b"

lemma account_history_valid: "account_history a b \<Longrightarrow> account_valid b"
  by (induction rule: account_history.induct) (auto simp: account_update_valid_def account_valid_def)

lemma account_history_fixed:
  "account_history a b \<Longrightarrow>
     om_Name (sa_Meta b) = om_Name (sa_Meta a) \<and> om_Namespace (sa_Meta b) = om_Namespace (sa_Meta a) \<and>
     as_Region (sa_Spec b) = as_Region (sa_Spec a) \<and> as_Environment (sa_Spec b) = as_Environment (sa_Spec a)"
  by (induction rule: account_history.induct)
    (auto simp: account_update_valid_def accountSpec_transition_def)

text \<open>The description is fixed as long as it is present: \<open>always_described\<close> histories never drop it.\<close>

inductive described_history :: "snowflakeAccount \<Rightarrow> snowflakeAccount \<Rightarrow> bool" where
  dh_create: "account_valid a \<Longrightarrow> described_history a a"
| dh_update: "described_history a b \<Longrightarrow> account_update_valid b c \<Longrightarrow> as_Description (sa_Spec c) \<noteq> [] \<Longrightarrow>
    described_history a c"

lemma described_history_fixed:
  "described_history a b \<Longrightarrow> as_Description (sa_Spec a) \<noteq> [] \<Longrightarrow>
     as_Description (sa_Spec b) = as_Description (sa_Spec a)"
  by (induction rule: described_history.induct)
    (auto simp: account_update_valid_def accountSpec_transition_def unchanged_if_present_def)

text \<open>Dropping it first is the way around the rule.\<close>

lemma description_can_change:
  assumes "account_valid a"
    and "b = a\<lparr>sa_Spec := (sa_Spec a)\<lparr>as_Description := []\<rparr>\<rparr>"
    and "c = a\<lparr>sa_Spec := (sa_Spec a)\<lparr>as_Description := d\<rparr>\<rparr>" and "rune_count d \<le> 1024"
  shows "account_history a c"
proof -
  have "account_update_valid a b" "account_update_valid b c"
    using assms
    by (simp_all add: account_update_valid_def account_valid_def accountSpec_valid_def rune_count_def
        accountSpec_transition_def unchanged_if_present_def)
  with ah_create [OF assms(1)] show ?thesis by (blast intro: ah_update)
qed

subsection \<open>Namespaces\<close>

text \<open>A namespace name is a DNS label; only those without a repeated dash are segments of a secret
  identifier.\<close>

definition k8s_label :: "string \<Rightarrow> bool" where
  "k8s_label s \<longleftrightarrow> s \<noteq> [] \<and> length s \<le> 63 \<and> list_all k8s_name_char s \<and> hd s \<noteq> CHR ''-'' \<and> last s \<noteq> CHR ''-''"

lemma k8s_label_no_underscore: "k8s_label s \<Longrightarrow> CHR ''_'' \<notin> set s"
  by (auto simp: k8s_label_def list_all_iff k8s_name_char_def byte_class_defs)

lemma k8s_label_segment: "k8s_label s \<Longrightarrow> valid_segment s \<longleftrightarrow> \<not> adjacent_seps s"
  by (cases s) (auto simp: k8s_label_def valid_segment_def list_all_iff k8s_name_char_def seg_char_def
      is_alnum_def is_alpha_def)

lemma label_namespace_rejected: "NewTenantIdentifier ''acme'' ''team--a'' ''acct'' = Inl (segment_error ''namespace'' ''team--a'')"
  by code_simp

lemma NewTenantIdentifier_admitted:
  assumes "accountName_valid name" and "k8s_label ns" "\<not> adjacent_seps ns" and "valid_segment org"
    and "length org + length name \<le> 56"
  shows "NewTenantIdentifier org ns name = Inr (Identifier (tenant_value org ns name))"
  unfolding NewTenantIdentifier_Inr
  using assms accountName_valid_facts [of name] k8s_label_segment [of ns]
  by (simp add: length_tenant_value maxIdentifierLen_def k8s_label_def)


subsection \<open>From an admitted account to a created one\<close>

lemma checkCreatable_name_bound:
  assumes "accountName_valid (om_Name (sa_Meta cr))"
    and "bp_Regions (am_backplane m) (as_Region (sa_Spec cr)) = Some rg" and "AlphaTester ls = Inr alpha"
    and "rg_Available rg \<or> alpha"
  shows "checkCreatable m cr (resolved_name cr) ls = None \<longleftrightarrow> length (am_org m) + length (om_Name (sa_Meta cr)) \<le> 56"
  using assms by (auto simp: checkCreatable_def Region_def Let_def resolved_name_def maxAccountLabelLen_def)

lemma sf_name_segment: "sf_name s \<Longrightarrow> \<not> adjacent_seps s \<Longrightarrow> valid_segment s"
  by (cases s) (auto simp: sf_name_def valid_segment_def seg_char_def is_alnum_def list_all_iff)

lemma admitted_cloud_region: "account_valid a \<Longrightarrow> cloud_region (as_Region (sa_Spec a))"
  by (simp add: account_valid_def accountSpec_valid_def regionPattern_orgAdmin orgAdminRegion_cloud_region)

text \<open>The systems around the controller, the clauses of \<open>answering\<close> that are about neither the
  resource's naming nor the configuration.\<close>

definition systems_answer ::
  "'w env \<Rightarrow> 'w kube \<Rightarrow> 'w key_manager \<Rightarrow> labels \<Rightarrow> snowflakeAccount \<Rightarrow> ident \<Rightarrow> ident \<Rightarrow>
     ('w \<Rightarrow> bool) \<Rightarrow> ('w \<Rightarrow> bool) \<Rightarrow> bool" where
  "systems_answer E kube km ls cr idt orgIdt taken occ \<longleftrightarrow>
     tenant_slot E km kube idt (resolved_name cr) taken occ \<and> keys_work E \<and>
     kube_works kube (om_Namespace (sa_Meta cr)) ls \<and> holds_key E km orgIdt \<and>
     (\<forall>d t w. fst (env_ping E d t w) = None) \<and>
     (\<forall>v w. if occ w then \<exists>err. fst (ks_Create (km_store km) idt v w) = Some err \<and> \<not> errors_Is err ErrPendingDeletion
        else fst (ks_Create (km_store km) idt v w) = None) \<and>
     (\<forall>w. occ w \<longrightarrow> (\<exists>v t. fst (ks_Get (km_store km) idt w) = Inr (v, t) \<and> readable E v \<and>
        om_CreationTimestamp (sa_Meta cr) - resumeClockSkewBuffer \<le> t)) \<and>
     (\<forall>d w. \<exists>rs. fst (env_query E d show_accounts_sql [resolved_name cr] w) = Inr rs \<and>
        (\<forall>label. \<exists>result. materialize label show_accounts_sql rs = Inr result)) \<and>
     (\<forall>d q args w. has_prefix q ''CREATE ACCOUNT'' \<and> \<not> taken w \<longrightarrow> fst (env_exec E d q args w) = None)"

lemma answering_systems:
  assumes "answering E kube cfg km ls cr idt taken occ" and "sa_Meta b = sa_Meta cr"
    and "NewOrgAdminIdentifier (sf_Org (cfg_Snowflake cfg)) (sf_OrgAdminAccount (cfg_Snowflake cfg)) = Inr i"
  shows "systems_answer E kube km ls b idt i taken occ"
proof -
  have "resolved_name b = resolved_name cr" using assms(2) by (simp add: resolved_name_def)
  with assms show ?thesis unfolding answering_def systems_answer_def by auto
qed

text \<open>What admission, the loaded configuration and the length check contribute to \<open>answering\<close>: the
  identifiers exist and the hosts can be named.\<close>

lemma answering_of_admitted:
  assumes "account_valid cr" and "base_Load io dir = Inr cfg"
    and ns: "k8s_label (om_Namespace (sa_Meta cr))" "\<not> adjacent_seps (om_Namespace (sa_Meta cr))"
    and org: "\<not> adjacent_seps (sf_Org (cfg_Snowflake cfg))" "\<not> adjacent_seps (sf_OrgAdminAccount (cfg_Snowflake cfg))"
      "length (orgadmin_value (sf_Org (cfg_Snowflake cfg)) (sf_OrgAdminAccount (cfg_Snowflake cfg))) \<le> maxIdentifierLen"
    and len: "length (sf_Org (cfg_Snowflake cfg)) + length (om_Name (sa_Meta cr)) \<le> 56"
    and sys: "systems_answer E kube km ls cr
      (Identifier (tenant_value (sf_Org (cfg_Snowflake cfg)) (om_Namespace (sa_Meta cr)) (om_Name (sa_Meta cr))))
      (Identifier (orgadmin_value (sf_Org (cfg_Snowflake cfg)) (sf_OrgAdminAccount (cfg_Snowflake cfg)))) taken occ"
  shows "answering E kube cfg km ls cr
    (Identifier (tenant_value (sf_Org (cfg_Snowflake cfg)) (om_Namespace (sa_Meta cr)) (om_Name (sa_Meta cr)))) taken occ"
proof -
  from assms(2) obtain raw cloud where "check_raw raw = None" "resolve_config raw cloud = Inr cfg"
    unfolding base_Load_Inr by blast
  with check_raw_None resolve_config_copies
  have sf: "sf_name (sf_Org (cfg_Snowflake cfg))" "sf_name (sf_OrgAdminAccount (cfg_Snowflake cfg))" by auto
  note seg = sf_name_segment [OF sf(1) org(1)] sf_name_segment [OF sf(2) org(2)]
  have "accountName_valid (om_Name (sa_Meta cr))" using assms(1) by (simp add: account_valid_def)
  note idt = NewTenantIdentifier_admitted [OF this ns seg(1) len]
  have oidt: "NewOrgAdminIdentifier (sf_Org (cfg_Snowflake cfg)) (sf_OrgAdminAccount (cfg_Snowflake cfg)) =
      Inr (Identifier (orgadmin_value (sf_Org (cfg_Snowflake cfg)) (sf_OrgAdminAccount (cfg_Snowflake cfg))))"
    unfolding NewOrgAdminIdentifier_Inr using seg org(3) by blast
  with idt sys base_Load_region [OF assms(2)] show ?thesis
    unfolding answering_def systems_answer_def by (elim conjE) (intro conjI exI, assumption+)
qed

subsection \<open>The life of a permit\<close>

text \<open>The permit is created with an admitted spec and an empty status.  Its owner replaces the
  spec by other admitted ones, its controller observes it at any time, the deletion of its target
  consumes it; nobody else writes its status and nobody its creation time.\<close>

inductive permit_life :: "'w env \<Rightarrow> xpv1 \<Rightarrow> deletionPermit \<Rightarrow> bool" for E X where
  pl_create: "permitSpec_valid (dp_Spec p) \<Longrightarrow> pt_State (dp_Status p) = [] \<Longrightarrow> pt_ValidUntil (dp_Status p) = None \<Longrightarrow>
    permit_life E X p"
| pl_edit: "permit_life E X p \<Longrightarrow> permitSpec_valid spec \<Longrightarrow> permit_life E X (p\<lparr>dp_Spec := spec\<rparr>)"
| pl_step: "permit_life E X p \<Longrightarrow> permit_step E X p p' \<Longrightarrow> permit_life E X p'"
| pl_delete: "permit_life E X p \<Longrightarrow>
    permit_life E X (p\<lparr>dp_Meta := (dp_Meta p)\<lparr>om_DeletionTimestamp := t\<rparr>\<rparr>)"

definition permit_in_window :: "deletionPermit \<Rightarrow> bool" where
  "permit_in_window p \<longleftrightarrow>
     permitSpec_valid (dp_Spec p) \<and> permitStatus_valid (dp_Status p) \<and>
     (\<forall>v. pt_ValidUntil (dp_Status p) = Some v \<longrightarrow> created p < v \<and> v \<le> created p + maxPermitDuration) \<and>
     (pt_State (dp_Status p) \<noteq> [] \<longrightarrow> pt_ValidUntil (dp_Status p) \<noteq> None)"

lemma permitStates_iff: "permitStatus_valid st \<longleftrightarrow> pt_State st = [] \<or> pt_State st = stateActive \<or> terminal (pt_State st)"
  by (auto simp: permitStatus_valid_def permitStates_def terminal_def stateActive_def stateExpired_def stateConsumed_def)

lemma permit_step_window:
  assumes "permit_step E X p p'" and "permit_in_window p"
  shows "permit_in_window p'"
  using assms(1)
proof (rule permit_stepE)
  fix s obs s'
  assume "permit_Observe E X p s = (obs, p', s')"
  from permit_Observe_state [OF this] assms(2) show ?thesis
    by (auto simp: permit_in_window_def permitSpec_valid_def permitDuration_valid_def permitStates_iff terminal_def
        split: if_splits)
next
  fix K s r s'
  assume "pt_State (dp_Status p) = stateActive" and "MarkConsumed K p s = (r, p', s')"
  from MarkConsumed_permit [OF this(2)] this(1) assms(2) show ?thesis
    by (auto simp: permit_in_window_def permitStates_iff terminal_def stateActive_def)
qed

lemma permit_life_window: "permit_life E X p \<Longrightarrow> permit_in_window p"
proof (induction rule: permit_life.induct)
  case (pl_step p p')
  then show ?case by (blast intro: permit_step_window)
qed (auto simp: permit_in_window_def permitStatus_valid_def)


subsection \<open>Properties\<close>

text \<open>Whatever updates the API server admits after the creation of an account, its name, its
  region and its environment stay what they were, so the resolved Snowflake name never changes; that
  name is a bare Snowflake identifier of at most 61 bytes, the name's length is accepted for a
  one-letter organization, and the account's host and URL can be built for any locator.\<close>

theorem admitted_account_stable:
  assumes "account_history a b"
  shows "as_Region (sa_Spec b) = as_Region (sa_Spec a) \<and> as_Environment (sa_Spec b) = as_Environment (sa_Spec a) \<and>
    resolved_name b = resolved_name a \<and> BareIdentifier (resolved_name b) = Inr (resolved_name b) \<and>
    length (resolved_name b) \<le> 61 \<and> int (1 + 1 + length (resolved_name b)) \<le> maxAccountLabelLen \<and>
    (\<forall>locator pl. (\<exists>h. Hostname locator (as_Region (sa_Spec b)) pl = Inr h) \<and>
       (\<exists>u. AccountURL locator (as_Region (sa_Spec b)) pl = Inr u))"
proof -
  note f = account_history_fixed [OF assms] and v = account_history_valid [OF assms]
  let ?n = "om_Name (sa_Meta b)" and ?ns = "om_Namespace (sa_Meta b)"
  from v have n: "accountName_valid ?n" by (simp add: account_valid_def)
  note nf = accountName_valid_facts [OF n]
  from n accountNamePattern_shape obtain c cs where c: "?n = c # cs" "is_lower c"
    unfolding accountName_valid_def by blast
  have "list_all ident_char (ResolveName ?n ?ns)" by (rule ident_char_ResolveName [OF nf(2)])
  moreover have "hd (ResolveName ?n ?ns) = c" "ResolveName ?n ?ns \<noteq> []"
    using c by (auto simp: ResolveName_suffix byte_class_defs)
  ultimately have "BareIdentifier (ResolveName ?n ?ns) = Inr (ResolveName ?n ?ns)"
    using c(2) unfolding BareIdentifier_cases
    by (cases "ResolveName ?n ?ns") (auto simp: ident_char_def is_alpha_def list_all_iff)
  with f nf(4) admitted_cloud_region [OF v] show ?thesis
    by (simp add: resolved_name_def maxAccountLabelLen_def Hostname_Inr_iff AccountURL_Inr_iff)
qed

definition described_account :: "string \<Rightarrow> snowflakeAccount" where
  "described_account d =
     (let a = sample_account [] None; binding = \<lparr>ii_Groups = (\<lambda>_. None), ii_RoleBindings = [''ACCOUNTADMIN'' \<mapsto> ''g'']\<rparr>
      in a\<lparr>sa_Spec := (sa_Spec a)\<lparr>as_Description := d, as_IdentityIntegration := binding\<rparr>\<rparr>)"

lemma described_account_valid: "rune_count d \<le> 1024 \<Longrightarrow> account_valid (described_account d)"
proof -
  have "re_match accountNamePattern ''acct''" "rune_count ''acct'' \<le> maxNameSize"
    "re_match contactPattern ''a@b.c''" "re_match regionPattern ''aws-eu-central-1''" by code_simp+
  then show "rune_count d \<le> 1024 \<Longrightarrow> account_valid (described_account d)"
    by (simp add: account_valid_def described_account_def Let_def sample_account_def sample_meta_def
        accountName_valid_def accountSpec_valid_def environments_def identityIntegration_valid_def)
qed

lemma admitted_account_stable_witness:
  "account_history (described_account ''one'') (described_account ''two'') \<and>
   resolved_name (described_account ''two'') = resolved_name (described_account ''one'')"
proof -
  have "account_valid (described_account ''one'')" by (rule described_account_valid) code_simp
  moreover have "described_account ''two'' = (described_account ''one'')
      \<lparr>sa_Spec := (sa_Spec (described_account ''one''))\<lparr>as_Description := ''two''\<rparr>\<rparr>"
    by (simp add: described_account_def Let_def sample_account_def)
  moreover have "rune_count ''two'' \<le> 1024" by code_simp
  ultimately have "account_history (described_account ''one'') (described_account ''two'')"
    by (rule description_can_change [OF _ refl])
  with admitted_account_stable [OF this] show ?thesis by blast
qed

text \<open>Two admitted accounts in Kubernetes namespaces share a secret identifier only if they are
  the same account: same organization, same namespace and same name; and they share a
  resolved account name only if they have the same name and their namespaces the same suffix.\<close>

theorem admitted_tenants_distinct:
  assumes "account_valid a" and "account_valid b"
    and "k8s_label (om_Namespace (sa_Meta a))" and "k8s_label (om_Namespace (sa_Meta b))"
  shows "(NewTenantIdentifier org (om_Namespace (sa_Meta a)) (om_Name (sa_Meta a)) = Inr i \<and>
      NewTenantIdentifier org (om_Namespace (sa_Meta b)) (om_Name (sa_Meta b)) = Inr i \<longrightarrow>
      om_Namespace (sa_Meta a) = om_Namespace (sa_Meta b) \<and> om_Name (sa_Meta a) = om_Name (sa_Meta b)) \<and>
    (resolved_name a = resolved_name b \<longrightarrow> om_Name (sa_Meta a) = om_Name (sa_Meta b) \<and>
      namespace_suffix (om_Namespace (sa_Meta a)) = namespace_suffix (om_Namespace (sa_Meta b)))"
proof -
  from assms(1,2) have "accountName_valid (om_Name (sa_Meta a))" "accountName_valid (om_Name (sa_Meta b))"
    by (simp_all add: account_valid_def)
  note u = this [THEN accountName_valid_facts(3)] assms(3,4) [THEN k8s_label_no_underscore]
  show ?thesis
    using u NewTenantIdentifier_inject [of org "om_Namespace (sa_Meta a)" "om_Name (sa_Meta a)" i org
        "om_Namespace (sa_Meta b)" "om_Name (sa_Meta b)"]
      ResolveName_inject [of "om_Name (sa_Meta a)" "om_Namespace (sa_Meta a)" "om_Name (sa_Meta b)" "om_Namespace (sa_Meta b)"]
      replace_dash_inject [of "om_Name (sa_Meta a)" "om_Name (sa_Meta b)"]
    by (auto simp: resolved_name_def toSecretSafe_id)
qed

lemma admitted_tenants_distinct_witness:
  "resolved_name (described_account ''one'') = resolved_name (described_account ''two'') \<and>
   om_Name (sa_Meta (described_account ''one'')) = om_Name (sa_Meta (described_account ''two''))"
proof -
  have v: "account_valid (described_account ''one'')" "account_valid (described_account ''two'')"
    by (rule described_account_valid; code_simp)+
  have n: "om_Namespace (sa_Meta (described_account d)) = ''ns''" "om_Name (sa_Meta (described_account d)) = ''acct''" for d
    by (simp_all add: described_account_def Let_def sample_account_def sample_meta_def)
  have "k8s_label ''ns''" by (simp add: k8s_label_def k8s_name_char_def byte_class_defs)
  then have "k8s_label (om_Namespace (sa_Meta (described_account d)))" for d by (simp add: n)
  from admitted_tenants_distinct [OF v this this] show ?thesis by (simp add: resolved_name_def n)
qed

text \<open>C17: No sequence of edits, observations and consumptions of a permit stretches its window past
  eight hours after its creation: its validity, once set, ends within them, its state is one
  of the three, and any observation after them leaves it Expired or Consumed, so it
  authorizes nothing from then on.\<close>

theorem permit_window_bounded:
  assumes "permit_life E X p" and "permit_Observe E X p s = (obs, p', s')"
    and "om_DeletionTimestamp (dp_Meta p) = None"
  shows "(\<exists>v. pt_ValidUntil (dp_Status p') = Some v \<and> created p < v \<and> v \<le> created p + maxPermitDuration) \<and>
    created p' = created p \<and> permitStatus_valid (dp_Status p') \<and> pt_State (dp_Status p') \<noteq> [] \<and>
    (fst (env_now E (world s)) > created p + maxPermitDuration \<longrightarrow>
       terminal (pt_State (dp_Status p')) \<and> \<not> matching kind name p')"
proof -
  from permit_Observe_state [OF assms(2)] have c: "created p' = created p" by simp
  have w: "permit_in_window p" by (rule permit_life_window [OF assms(1)])
  have dur: "ps_Duration (dp_Spec p) \<le> maxPermitDuration" "0 < ps_Duration (dp_Spec p)"
    using w by (auto simp: permit_in_window_def permitSpec_valid_def permitDuration_valid_def)
  from permit_Observe_state [OF assms(2)] assms(3) w dur c show ?thesis
    by (cases "terminal (pt_State (dp_Status p))")
      (auto simp: permit_in_window_def permitStates_iff matching_def terminal_def stateActive_def stateExpired_def
        stateConsumed_def)
qed

definition fresh_permit :: deletionPermit where
  "fresh_permit = sample_permit\<lparr>dp_Spec := (dp_Spec sample_permit)\<lparr>ps_Reason := ''decommissioned''\<rparr>,
     dp_Status := (dp_Status sample_permit)\<lparr>pt_State := []\<rparr>\<rparr>"

definition late_env :: "nat env" where
  "late_env = sample_env\<lparr>env_now := (\<lambda>w. (28800000000001, w))\<rparr>"

lemma permit_window_bounded_witness:
  "\<exists>obs p' s'. permit_life late_env simple_xpv1 fresh_permit \<and>
     permit_Observe late_env simple_xpv1 fresh_permit (\<lparr>world = 0, trace = []\<rparr> :: nat sys) = (obs, p', s') \<and>
     terminal (pt_State (dp_Status p'))"
proof -
  have "rune_count ''decommissioned'' \<ge> 1" by code_simp
  then have l: "permit_life late_env simple_xpv1 fresh_permit"
    by (intro pl_create)
      (simp_all add: fresh_permit_def sample_permit_def permitSpec_valid_def targetKinds_def permitDuration_valid_def
        maxPermitDuration_def hour_def)
  obtain obs p' s' where o: "permit_Observe late_env simple_xpv1 fresh_permit (\<lparr>world = 0, trace = []\<rparr> :: nat sys) = (obs, p', s')"
    by (metis prod_cases3)
  have d: "om_DeletionTimestamp (dp_Meta fresh_permit) = None"
    by (simp add: fresh_permit_def sample_permit_def sample_meta_def)
  have "created fresh_permit + maxPermitDuration < 28800000000001"
    by (simp add: fresh_permit_def sample_permit_def sample_meta_def maxPermitDuration_def hour_def)
  with permit_window_bounded [OF l o d, of kind name] l o show ?thesis by (auto simp: late_env_def)
qed


text \<open>C16: Composition: an account the API server admitted, under a configuration the loader accepted
  and in an offered region, is created as soon as the systems around the controller answer: Create
  returns without an error, records a locator, and leaves the account created and its credential
  stored.  Two conditions admission does not check remain: neither the namespace nor the
  organization's names may repeat a separator, and the account's name must fit beside the
  organization's (\<open>label_namespace_rejected\<close> is an admitted namespace the controller refuses).\<close>

theorem admitted_account_created:
  fixes s :: "('w, 'z) acc_sys_scheme"
  assumes "xpv1_ok X" and "account_history a (ac_cr s)" and "base_Load io dir = Inr cfg"
    and "k8s_label (om_Namespace (sa_Meta a))" and "\<not> adjacent_seps (om_Namespace (sa_Meta a))"
    and "\<not> adjacent_seps (sf_Org (cfg_Snowflake cfg))" and "\<not> adjacent_seps (sf_OrgAdminAccount (cfg_Snowflake cfg))"
    and "length (orgadmin_value (sf_Org (cfg_Snowflake cfg)) (sf_OrgAdminAccount (cfg_Snowflake cfg))) \<le> maxIdentifierLen"
    and "length (sf_Org (cfg_Snowflake cfg)) + length (om_Name (sa_Meta a)) \<le> 56"
    and "bp_Regions bp (as_Region (sa_Spec a)) = Some rg" and "rg_Available rg" and "AlphaTester ls = Inr alpha"
    and "idt = Identifier (tenant_value (sf_Org (cfg_Snowflake cfg)) (om_Namespace (sa_Meta a)) (om_Name (sa_Meta a)))"
    and "orgIdt = Identifier (orgadmin_value (sf_Org (cfg_Snowflake cfg)) (sf_OrgAdminAccount (cfg_Snowflake cfg)))"
    and "systems_answer E kube km ls (ac_cr s) idt orgIdt taken occ" and "\<not> taken (world s)"
    and "recent_cache E idt (ac_cr s) s" and "cache_stored idt occ s" and "cr_locator s = []"
    and "Create E X (account_client E kube cfg km bp) s = (r, s1)"
  shows "r = None \<and> cr_locator s1 \<noteq> [] \<and> taken (world s1) \<and> occ (world s1)"
proof -
  note f = account_history_fixed [OF assms(2)] and v = account_history_valid [OF assms(2)]
  have h: "answering E kube cfg km ls (ac_cr s) idt taken occ"
    using answering_of_admitted [OF v assms(3), of E kube km ls taken occ] assms(4-9,13-15) f by simp
  have "accountName_valid (om_Name (sa_Meta (ac_cr s)))" using v by (simp add: account_valid_def)
  then have k: "checkCreatable (account_module_of cfg km bp) (ac_cr s) (resolved_name (ac_cr s)) ls = None"
    using checkCreatable_name_bound [of "ac_cr s" "account_module_of cfg km bp" rg ls alpha] assms(9-12) f
    by (simp add: account_module_of_def account_New_def)
  from Create_ok [OF assms(1) h assms(17,19,16,18) k] assms(20) show ?thesis by auto
qed

lemma admitted_account_created_witness:
  "\<exists>s1. Create (dir_env False) simple_xpv1 (dir_client False) (dir_sys (False, False)\<lparr>ac_cr := described_account ''one''\<rparr>) = (None, s1) \<and>
     cr_locator s1 \<noteq> [] \<and> world s1 = (True, True)"
proof -
  let ?a = "described_account ''one''" and ?s = "dir_sys (False, False)\<lparr>ac_cr := described_account ''one''\<rparr>"
  have v: "account_valid ?a" by (rule described_account_valid) code_simp
  have n: "om_Namespace (sa_Meta ?a) = ''ns''" "om_Name (sa_Meta ?a) = ''acct''" "as_Region (sa_Spec ?a) = ''aws-eu-central-1''"
      "sf_Org (cfg_Snowflake sample_cfg) = ''acme''" "sf_OrgAdminAccount (cfg_Snowflake sample_cfg) = ''admin''"
    by (simp_all add: described_account_def Let_def sample_account_def sample_meta_def sample_cfg_def)
  have h: "account_history ?a (ac_cr ?s)" using ah_create [OF v] by simp
  have lab: "k8s_label (om_Namespace (sa_Meta ?a))" "\<not> adjacent_seps (om_Namespace (sa_Meta ?a))"
      "\<not> adjacent_seps (sf_Org (cfg_Snowflake sample_cfg))" "\<not> adjacent_seps (sf_OrgAdminAccount (cfg_Snowflake sample_cfg))"
      "length (orgadmin_value (sf_Org (cfg_Snowflake sample_cfg)) (sf_OrgAdminAccount (cfg_Snowflake sample_cfg))) \<le> maxIdentifierLen"
      "length (sf_Org (cfg_Snowflake sample_cfg)) + length (om_Name (sa_Meta ?a)) \<le> 56"
    unfolding n
    by (simp_all add: k8s_label_def k8s_name_char_def byte_class_defs sep_char_def orgadmin_value_def maxIdentifierLen_def
        toSecretSafe_def)
  obtain rg where rg: "bp_Regions sample_backplane (as_Region (sa_Spec ?a)) = Some rg" "rg_Available rg"
    unfolding n by (simp add: sample_backplane_def)
  have al: "AlphaTester Map.empty = Inr False" by (simp add: AlphaTester_def)
  obtain oi where oi: "NewOrgAdminIdentifier ''acme'' ''admin'' = Inr oi" using sample_orgadmin_identifier by blast
  from dir_tenant have ids: "sample_ident = Identifier (tenant_value (sf_Org (cfg_Snowflake sample_cfg)) (om_Namespace (sa_Meta ?a)) (om_Name (sa_Meta ?a)))"
    "oi = Identifier (orgadmin_value (sf_Org (cfg_Snowflake sample_cfg)) (sf_OrgAdminAccount (cfg_Snowflake sample_cfg)))"
    using oi unfolding n NewTenantIdentifier_Inr NewOrgAdminIdentifier_Inr by (simp_all add: sample_account_def sample_meta_def)
  have "sa_Meta (ac_cr ?s) = sa_Meta (sample_account [] None)"
    by (simp add: described_account_def Let_def sample_account_def)
  from answering_systems [OF dir_answering this] oi n(4,5)
  have sys: "systems_answer (dir_env False) dir_kube dir_km Map.empty (ac_cr ?s) sample_ident oi fst snd" by simp
  have st: "\<not> fst (world ?s)" "recent_cache (dir_env False) sample_ident (ac_cr ?s) ?s" "cache_stored sample_ident snd ?s" "cr_locator ?s = []"
    by (simp_all add: recent_cache_def readable_cache_def cache_stored_def described_account_def Let_def sample_account_def)
  obtain r s1 where cr: "Create (dir_env False) simple_xpv1 (dir_client False) ?s = (r, s1)" by fastforce
  from admitted_account_created [OF simple_xpv1_ok h boot_loads lab rg al ids sys st cr] cr show ?thesis
    by (simp add: prod_eq_iff)
qed

end
