(* ===== verification/Rotation_Recovery.thy ===== *)
theory Rotation_Recovery
  imports Pool
begin

text \<open>
  Key rotation under failures (\<open>internal/snowflake/pool/rotate.go\<close>).  A Snowflake user has two key
  slots and the secret store one credential; a rotation writes the slot not in use and then the store.
  Any of its calls may fail, take effect although its answer was lost, or be the last one before the
  process dies.  The lemmas show that the stored credential's key stays in one of the slots, so that
  the next login succeeds, whatever the number of rotations and failures, as long as a process whose
  update of the store was applied without an answer does not go on with its cached credential;
  \<open>lost_update_locks_out\<close> shows that this condition is needed.
\<close>

subsection \<open>The user, its slots and its credential\<close>

text \<open>\<open>slots\<close> gives the two fingerprints DESC USER shows for the user \<open>u\<close> in a world, \<open>stored\<close> what the
  store holds at its identifier.\<close>

definition in_slot :: "('w \<Rightarrow> string \<times> string) \<Rightarrow> 'w \<Rightarrow> string \<Rightarrow> bool" where
  "in_slot slots w fp \<longleftrightarrow> fp \<noteq> [] \<and> (fp = fst (slots w) \<or> fp = snd (slots w))"

text \<open>Snowflake accepts a login as \<open>u\<close> with this credential.\<close>

definition logs_in ::
  "'w env \<Rightarrow> string \<Rightarrow> ('w \<Rightarrow> string \<times> string) \<Rightarrow> 'w \<Rightarrow> credentials \<Rightarrow> bool" where
  "logs_in E u slots w c \<longleftrightarrow> c_Username c = u \<and>
     (case parsePrivateKey E (c_PrivateKey c) of
        Inl e \<Rightarrow> False
      | Inr key \<Rightarrow> in_slot slots w (publicKeyFingerprint E key))"

definition stored_logs_in ::
  "'w env \<Rightarrow> string \<Rightarrow> ('w \<Rightarrow> string \<times> string) \<Rightarrow> ('w \<Rightarrow> slot) \<Rightarrow> 'w \<Rightarrow> bool" where
  "stored_logs_in E u slots stored w \<longleftrightarrow>
     (case stored w of
        Live v t \<Rightarrow>
          (case unmarshalCredentials E v t of Inl e \<Rightarrow> False | Inr c \<Rightarrow> logs_in E u slots w c)
      | _ \<Rightarrow> False)"

lemma stored_logs_inI:
  "stored w = Live v t \<Longrightarrow> unmarshalCredentials E v t = Inr c \<Longrightarrow> logs_in E u slots w c \<Longrightarrow>
     stored_logs_in E u slots stored w"
  by (simp add: stored_logs_in_def)

lemma stored_logs_inE:
  assumes "stored_logs_in E u slots stored w"
  obtains v t c where "stored w = Live v t" "unmarshalCredentials E v t = Inr c" "logs_in E u slots w c"
  using assms by (auto simp: stored_logs_in_def split: slot.splits sum.splits)

lemma logs_in_slots: "slots w' = slots w \<Longrightarrow> logs_in E u slots w' c = logs_in E u slots w c"
  by (simp add: logs_in_def in_slot_def split: sum.splits)

subsection \<open>What is relied on of Snowflake, the store and the key formats\<close>

text \<open>A call that touches neither the slots nor the stored credential.\<close>

abbreviation untouched ::
  "('w \<Rightarrow> string \<times> string) \<Rightarrow> ('w \<Rightarrow> slot) \<Rightarrow> 'w \<Rightarrow> 'w \<Rightarrow> bool" where
  "untouched slots stored w w' \<equiv> slots w' = slots w \<and> stored w' = stored w"

text \<open>Reads change nothing, and show what is there when they answer.\<close>

definition reads_ok ::
  "'w env \<Rightarrow> 'w key_manager \<Rightarrow> db set \<Rightarrow> ident \<Rightarrow> string \<Rightarrow> ('w \<Rightarrow> string \<times> string) \<Rightarrow> ('w \<Rightarrow> slot) \<Rightarrow> bool" where
  "reads_ok E km D idt u slots stored \<longleftrightarrow> (\<forall>w.
     untouched slots stored w (snd (env_now E w)) \<and>
     (\<forall>n. untouched slots stored w (snd (env_rsaGenerate E n w))) \<and>
     untouched slots stored w (snd (ks_Get (km_store km) idt w)) \<and>
     (\<forall>v t. fst (ks_Get (km_store km) idt w) = Inr (v, t) \<longrightarrow> stored w = Live v t) \<and>
     (\<forall>d\<in>D. untouched slots stored w (snd (env_query E d (desc_user_sql u) [] w)) \<and>
        (\<forall>rs fps. fst (env_query E d (desc_user_sql u) [] w) = Inr rs \<and>
           scan_fingerprints (rows_scan rs) [] [] = Inr fps \<and> rows_err rs = None \<longrightarrow> fps = slots w)))"

text \<open>ALTER USER writes the slot it names and nothing else; once it has answered, the slot holds the
  key whose public half it was given.  A failed one may have written anything into that slot.\<close>

definition alters_ok ::
  "'w env \<Rightarrow> db set \<Rightarrow> string \<Rightarrow> ('w \<Rightarrow> string \<times> string) \<Rightarrow> ('w \<Rightarrow> slot) \<Rightarrow> bool" where
  "alters_ok E D u slots stored \<longleftrightarrow> (\<forall>d\<in>D. \<forall>w pub r w'.
     (env_exec E d (alter_user_sql u rsaPublicKeySlot pub) [] w = (r, w') \<longrightarrow>
        stored w' = stored w \<and> snd (slots w') = snd (slots w) \<and>
        (\<forall>key der. r = None \<and> env_marshalPKIX E key = Inr der \<and> pub = base64_std der \<longrightarrow>
           fst (slots w') = publicKeyFingerprint E key)) \<and>
     (env_exec E d (alter_user_sql u rsaPublicKey2Slot pub) [] w = (r, w') \<longrightarrow>
        stored w' = stored w \<and> fst (slots w') = fst (slots w) \<and>
        (\<forall>key der. r = None \<and> env_marshalPKIX E key = Inr der \<and> pub = base64_std der \<longrightarrow>
           snd (slots w') = publicKeyFingerprint E key)))"

text \<open>An update that answers has stored the value; one that fails has stored it or changed nothing.\<close>

definition updates_ok ::
  "'w key_manager \<Rightarrow> ident \<Rightarrow> ('w \<Rightarrow> string \<times> string) \<Rightarrow> ('w \<Rightarrow> slot) \<Rightarrow> bool" where
  "updates_ok km idt slots stored \<longleftrightarrow> (\<forall>v w r w'. ks_Update (km_store km) idt v w = (r, w') \<longrightarrow>
     slots w' = slots w \<and> ((\<exists>t. stored w' = Live v t) \<or> r \<noteq> None \<and> stored w' = stored w))"

text \<open>PEM, PKCS#8 and JSON: a generated key is read back.\<close>

definition formats_ok :: "'w env \<Rightarrow> string \<Rightarrow> bool" where
  "formats_ok E u \<longleftrightarrow>
     (\<forall>n w key pub priv t. fst (env_rsaGenerate E n w) = Inr key \<and> env_marshalPKIX E key = Inr pub \<and>
        env_marshalPKCS8 E key = Inr priv \<longrightarrow>
        (let pem = env_pemEncode E ''PRIVATE KEY'' priv in
         base64_std pub \<noteq> [] \<and> pem \<noteq> [] \<and> env_pemDecode E pem = Some priv \<and>
         env_parsePKCS8 E priv = Inr (Some key) \<and>
         json_roundtrips E \<lparr>c_Username = u, c_PublicKey = base64_std pub, c_PrivateKey = pem, c_RotatedAt = t\<rparr>))"

definition user_login ::
  "'w env \<Rightarrow> 'w key_manager \<Rightarrow> db set \<Rightarrow> ident \<Rightarrow> string \<Rightarrow> ('w \<Rightarrow> string \<times> string) \<Rightarrow> ('w \<Rightarrow> slot) \<Rightarrow> bool" where
  "user_login E km D idt u slots stored \<longleftrightarrow> u \<noteq> [] \<and> reads_ok E km D idt u slots stored \<and>
     alters_ok E D u slots stored \<and> updates_ok km idt slots stored \<and> formats_ok E u"

abbreviation steady ::
  "('w \<Rightarrow> string \<times> string) \<Rightarrow> ('w \<Rightarrow> slot) \<Rightarrow> ('w, 'z) sys_scheme \<Rightarrow> ('w, 'z) sys_scheme \<Rightarrow> bool" where
  "steady slots stored s s' \<equiv> untouched slots stored (world s) (world s')"

lemma steady_now:
  assumes "user_login E km D idt u slots stored" and "now E s = (t, s')"
  shows "steady slots stored s s'"
  using now_frame [OF assms(2)] assms(1) by (metis user_login_def reads_ok_def snd_conv)

lemma steady_credentialDue:
  assumes "user_login E km D idt u slots stored" and "credentialDue E t i s = (r, s')"
  shows "steady slots stored s s'"
  using assms(2) by (auto simp: credentialDue_def dest!: steady_now [OF assms(1)] split: prod.splits)


lemma steady_get:
  assumes "user_login E km D idt u slots stored" and "GetCredentials E km idt s = (r, s')"
  shows "steady slots stored s s'"
proof -
  have f: "steady slots stored t t'" if "km_fetch E km idt t = (x, t')" for t t' x
  proof -
    obtain y t1 where c: "call (GetSecret idt) (ks_Get (km_store km) idt) t = (y, t1)" by fastforce
    from call_frame [OF c] assms(1) have "steady slots stored t t1"
      by (metis user_login_def reads_ok_def snd_conv)
    with that c show ?thesis
      by (auto simp: km_fetch_def dest!: steady_now [OF assms(1)] split: sum.splits prod.splits)
  qed
  show ?thesis
    using assms(2)
    by (auto simp: GetCredentials_def km_get_def dest!: f steady_now [OF assms(1)]
        split: prod.splits sum.splits option.splits if_splits)
qed

text \<open>A fresh credential: its private key is read back and has the fingerprint of the public half
  that is pushed.\<close>

definition fresh_credential :: "'w env \<Rightarrow> string \<Rightarrow> credentials \<Rightarrow> rsa_key \<Rightarrow> string \<Rightarrow> bool" where
  "fresh_credential E u c key pub \<longleftrightarrow> c_Username c = u \<and> c_PublicKey c = base64_std pub \<and>
     c_PublicKey c \<noteq> [] \<and> c_PrivateKey c \<noteq> [] \<and> env_marshalPKIX E key = Inr pub \<and>
     parsePrivateKey E (c_PrivateKey c) = Inr key \<and> json_roundtrips E c"

lemma NewCredentials_fresh:
  assumes "user_login E km D idt u slots stored" and "NewCredentials E u s = (r, s')"
  shows "steady slots stored s s' \<and> (\<forall>c. r = Inr c \<longrightarrow> (\<exists>key pub. fresh_credential E u c key pub))"
proof -
  obtain g s1 where g: "local_call (env_rsaGenerate E minRSABits) s = (g, s1)" by fastforce
  note f = local_call_frame [OF g]
  from f assms(1) have s1: "steady slots stored s s1"
    by (metis user_login_def reads_ok_def snd_conv)
  have "\<exists>key pub. fresh_credential E u c key pub" if r: "r = Inr c" for c
  proof -
    from assms(2) g r obtain key pub priv t where k: "g = Inr key" "env_marshalPKIX E key = Inr pub"
        "env_marshalPKCS8 E key = Inr priv"
        and c: "c = \<lparr>c_Username = u, c_PublicKey = base64_std pub,
          c_PrivateKey = env_pemEncode E ''PRIVATE KEY'' priv, c_RotatedAt = t\<rparr>"
      by (auto simp: NewCredentials_def GenerateKeyPair_def Let_def split: sum.splits prod.splits)
    from f k have "fst (env_rsaGenerate E minRSABits (world s)) = Inr key" by simp
    with k assms(1) c have "fresh_credential E u c key pub"
      unfolding user_login_def formats_ok_def fresh_credential_def parsePrivateKey_def Let_def
      by fastforce
    then show ?thesis by blast
  qed
  moreover have "steady slots stored s s'"
    using assms(2) g s1
    by (auto simp: NewCredentials_def GenerateKeyPair_def Let_def dest!: steady_now [OF assms(1)]
        split: sum.splits prod.splits)
  ultimately show ?thesis by blast
qed

lemma fresh_logs_in:
  assumes "fresh_credential E u c key pub" and "publicKeyFingerprint E key = fst (slots w) \<or>
    publicKeyFingerprint E key = snd (slots w)" and "marshalCredentials E c = Inr v" and "u \<noteq> []"
    and "stored w = Live v t"
  shows "stored_logs_in E u slots stored w"
proof -
  from assms(1,3,4) have "unmarshalCredentials E v t = Inr (c\<lparr>c_RotatedAt := t\<rparr>)"
    by (intro unmarshal_marshal) (auto simp: fresh_credential_def)
  moreover from assms(1,2) have "logs_in E u slots w (c\<lparr>c_RotatedAt := t\<rparr>)"
    by (auto simp: fresh_credential_def logs_in_def in_slot_def publicKeyFingerprint_def)
  ultimately show ?thesis using assms(5) by (simp add: stored_logs_in_def)
qed

subsection \<open>One rotation\<close>

text \<open>The slot chosen is not the one that holds the current key.\<close>

lemma targetSlot_other:
  assumes "user_login E km D idt u slots stored" and "d \<in> D" and "targetSlot E d u fp s = (r, s')"
  shows "steady slots stored s s' \<and>
    (\<forall>slot. r = Inr slot \<longrightarrow> slot = rsaPublicKey2Slot \<and> fst (slots (world s')) = fp \<or>
       slot = rsaPublicKeySlot \<and> snd (slots (world s')) = fp)"
proof -
  obtain q s1 where q: "call (QuerySQL d (desc_user_sql u) []) (env_query E d (desc_user_sql u) []) s = (q, s1)"
    by fastforce
  note f = call_frame [OF q]
  from f assms(1,2) have s1: "steady slots stored s s1"
    unfolding user_login_def reads_ok_def by (metis snd_conv)
  from assms(3) q have s': "s' = s1" by (auto simp: targetSlot_def db_executor_def split: sum.splits)
  have "slot = rsaPublicKey2Slot \<and> fst (slots (world s')) = fp \<or>
      slot = rsaPublicKeySlot \<and> snd (slots (world s')) = fp" if "r = Inr slot" for slot
  proof -
    from assms(3) q that obtain rs fps where rs: "q = Inr rs" "scan_fingerprints (rows_scan rs) [] [] = Inr fps"
        "rows_err rs = None" "if fst fps = fp then slot = rsaPublicKey2Slot else snd fps = fp \<and> slot = rsaPublicKeySlot"
      by (auto simp: targetSlot_def db_executor_def choose_slot_def split: sum.splits option.splits if_splits)
    from f rs(1) have "fst (env_query E d (desc_user_sql u) [] (world s)) = Inr rs" by simp
    with rs assms(1,2) have "fps = slots (world s)" unfolding user_login_def reads_ok_def by blast
    with rs(4) s1 s' show ?thesis by (auto split: if_splits)
  qed
  with s1 s' show ?thesis by blast
qed


text \<open>The push leaves the other slot alone, and puts the fresh key where it says.\<close>

lemma push_other:
  assumes "user_login E km D idt u slots stored" and "d \<in> D"
    and "ex_ExecContext (db_executor E d) (alter_user_sql u slot pub) [] s = (r, s')"
    and "slot = rsaPublicKey2Slot \<and> fst (slots (world s)) = fp \<or>
      slot = rsaPublicKeySlot \<and> snd (slots (world s)) = fp"
  shows "stored (world s') = stored (world s)"
    and "fst (slots (world s')) = fp \<or> snd (slots (world s')) = fp"
    and "r = None \<Longrightarrow> env_marshalPKIX E key = Inr der \<Longrightarrow> pub = base64_std der \<Longrightarrow>
      fst (slots (world s')) = publicKeyFingerprint E key \<or> snd (slots (world s')) = publicKeyFingerprint E key"
proof -
  from assms(3) have "env_exec E d (alter_user_sql u slot pub) [] (world s) = (r, world s')"
    by (auto simp: db_executor_def dest: call_frame)
  with assms(4) assms(1) [unfolded user_login_def alters_ok_def] assms(2)
  show "stored (world s') = stored (world s)"
    "fst (slots (world s')) = fp \<or> snd (slots (world s')) = fp"
    "r = None \<Longrightarrow> env_marshalPKIX E key = Inr der \<Longrightarrow> pub = base64_std der \<Longrightarrow>
      fst (slots (world s')) = publicKeyFingerprint E key \<or> snd (slots (world s')) = publicKeyFingerprint E key"
    by metis+
qed

lemma store_fresh:
  assumes "user_login E km D idt u slots stored" and "UpdateCredentials E km idt c s = (r, s')"
    and "fresh_credential E u c key pub" and "fst (slots (world s)) = publicKeyFingerprint E key \<or>
      snd (slots (world s)) = publicKeyFingerprint E key"
    and "stored_logs_in E u slots stored (world s)"
  shows "stored_logs_in E u slots stored (world s')"
proof (cases "marshalCredentials E c")
  case (Inl e)
  with assms(2,5) show ?thesis by (auto simp: UpdateCredentials_def)
next
  case (Inr v)
  obtain x s1 where c: "call (UpdateSecret idt v) (ks_Update (km_store km) idt v) s = (x, s1)" by fastforce
  with assms(2) Inr have w: "world s' = world s1"
    by (auto simp: UpdateCredentials_def km_update_def split: option.splits)
  from call_frame [OF c] assms(1)
  have u: "slots (world s1) = slots (world s) \<and>
      ((\<exists>t. stored (world s1) = Live v t) \<or> stored (world s1) = stored (world s))"
    unfolding user_login_def updates_ok_def by metis
  then consider t where "stored (world s1) = Live v t" | "stored (world s1) = stored (world s)" by blast
  then show ?thesis
  proof cases
    case 1
    with fresh_logs_in [OF assms(3) _ Inr, of slots "world s1" stored] u w assms(1,4)
    show ?thesis by (metis user_login_def)
  next
    case 2
    with u w assms(5) show ?thesis
      by (auto simp: stored_logs_in_def logs_in_def in_slot_def split: slot.splits sum.splits)
  qed
qed

lemma steady_logs_in:
  "steady slots stored s s' \<Longrightarrow>
     stored_logs_in E u slots stored (world s') = stored_logs_in E u slots stored (world s)"
  by (simp add: stored_logs_in_def logs_in_def in_slot_def split: slot.splits sum.splits)

text \<open>A rotation started with the stored credential's key, wherever it stops.\<close>

lemma rotate_logs_in:
  fixes s :: "('w, 'z) pool_sys_scheme"
  assumes "user_login E (pl_keyManager p) D idt u slots stored" and "d \<in> D"
    and "rotateCredential E p d idt u key s = (r, s')"
    and "stored (world s) = Live v t" "unmarshalCredentials E v t = Inr c" "logs_in E u slots (world s) c"
    and "parsePrivateKey E (c_PrivateKey c) = Inr key"
  shows "stored_logs_in E u slots stored (world s')"
proof -
  let ?ok = "\<lambda>x :: ('w, 'z) pool_sys_scheme. stored_logs_in E u slots stored (world x)"
  let ?fp = "publicKeyFingerprint E key"
  from assms(6,7) have u: "c_Username c = u" and fp: "?fp \<noteq> []" by (simp_all add: logs_in_def in_slot_def)
  have keep: "?ok x" if "stored (world x) = Live v t" "fst (slots (world x)) = ?fp \<or> snd (slots (world x)) = ?fp"
    for x :: "('w, 'z) pool_sys_scheme"
    using that assms(5,7) u fp by (auto simp: stored_logs_in_def logs_in_def in_slot_def)
  obtain ts s1 where t: "targetSlot E d u ?fp s = (ts, s1)" by fastforce
  note t' = targetSlot_other [OF assms(1,2) t]
  have s1: "?ok s1" using stored_logs_inI assms(4-6) steady_logs_in t' by metis
  show ?thesis
  proof (cases ts)
    case (Inl e)
    with assms(3) t s1 show ?thesis by (simp add: rotateCredential_def)
  next
    case (Inr slot)
    obtain nc s2 where n: "NewCredentials E u s1 = (nc, s2)" by fastforce
    note n' = NewCredentials_fresh [OF assms(1) n]
    with s1 steady_logs_in have s2: "?ok s2" by metis
    show ?thesis
    proof (cases nc)
      case (Inl e)
      with assms(3) t n s2 \<open>ts = Inr slot\<close> show ?thesis by (simp add: rotateCredential_def)
    next
      case (Inr fresh)
      with n' obtain k pub where f: "fresh_credential E u fresh k pub" by blast
      then have pub: "env_marshalPKIX E k = Inr pub" "c_PublicKey fresh = base64_std pub"
        by (simp_all add: fresh_credential_def)
      obtain x s3 where x: "ex_ExecContext (db_executor E d) (alter_user_sql u slot (c_PublicKey fresh)) [] s2 = (x, s3)"
        by fastforce
      from t' n' \<open>ts = Inr slot\<close> have sl: "slot = rsaPublicKey2Slot \<and> fst (slots (world s2)) = ?fp \<or>
          slot = rsaPublicKeySlot \<and> snd (slots (world s2)) = ?fp" by metis
      note e = push_other [OF assms(1,2) x sl]
      from e(1,2) t' n' assms(4) have s3: "?ok s3" by (intro keep) simp_all
      show ?thesis
      proof (cases x)
        case (Some err)
        with assms(3) t n x s3 \<open>ts = Inr slot\<close> \<open>nc = Inr fresh\<close> show ?thesis by (simp add: rotateCredential_def)
      next
        case None
        obtain y s4 where y: "UpdateCredentials E (pl_keyManager p) idt fresh s3 = (y, s4)" by fastforce
        have "?ok s4" by (rule store_fresh [OF assms(1) y f e(3) [OF None pub] s3])
        with assms(3) t n x y None \<open>ts = Inr slot\<close> \<open>nc = Inr fresh\<close> show ?thesis
          by (auto simp: rotateCredential_def split: option.splits)
      qed
    qed
  qed
qed


subsection \<open>The cached credential\<close>

text \<open>What the manager has cached for the identifier is what the store holds.\<close>

definition cache_current :: "ident \<Rightarrow> ('w \<Rightarrow> slot) \<Rightarrow> ('w, 'z) km_sys_scheme \<Rightarrow> bool" where
  "cache_current idt stored s \<longleftrightarrow>
     (\<forall>e. km_entries s idt = Some e \<longrightarrow> stored (world s) = Live (ce_value e) (ce_modifiedAt e))"

lemma cache_current_steady:
  "cache_current idt stored s \<Longrightarrow> stored (world s') = stored (world s) \<Longrightarrow>
     km_entries s' idt = km_entries s idt \<Longrightarrow> cache_current idt stored s'"
  by (simp add: cache_current_def)

lemma fetch_current:
  assumes "user_login E km D idt u slots stored" and "km_fetch E km idt s = (r, s')"
    and "cache_current idt stored s"
  shows "cache_current idt stored s' \<and> (\<forall>v t. r = Inr (v, t) \<longrightarrow> stored (world s) = Live v t)"
proof -
  obtain y s1 where c: "call (GetSecret idt) (ks_Get (km_store km) idt) s = (y, s1)" by fastforce
  note f = call_km_frame [OF c]
  from f assms(1) have s1: "stored (world s1) = stored (world s)" "y = Inr (v, t) \<Longrightarrow> stored (world s) = Live v t" for v t
    unfolding user_login_def reads_ok_def by (metis snd_conv, metis fst_conv)
  show ?thesis
  proof (cases y)
    case (Inl e)
    with assms(2,3) c f s1 show ?thesis by (simp add: km_fetch_def cache_current_def)
  next
    case (Inr vt)
    obtain v t where vt: "vt = (v, t)" by fastforce
    obtain t2 s2 where n: "now E s1 = (t2, s2)" by fastforce
    from steady_now [OF assms(1) n] assms(2) c n Inr vt s1 show ?thesis
      by (auto simp: km_fetch_def cache_current_def)
  qed
qed

lemma get_current:
  assumes "user_login E km D idt u slots stored" and "GetCredentials E km idt s = (r, s')"
    and "cache_current idt stored s"
  shows "cache_current idt stored s' \<and>
    (\<forall>c. r = Inr c \<longrightarrow> (\<exists>v t. stored (world s) = Live v t \<and> unmarshalCredentials E v t = Inr c))"
proof -
  obtain x s1 where g: "km_get E km idt s = (x, s1)" by fastforce
  have "cache_current idt stored s1 \<and> (\<forall>v t. x = Inr (v, t) \<longrightarrow> stored (world s) = Live v t)"
  proof (cases "km_entries s idt")
    case None
    with g fetch_current [OF assms(1) _ assms(3)] show ?thesis by (simp add: km_get_def)
  next
    case (Some entry)
    obtain t s2 where n: "now E s = (t, s2)" by fastforce
    from steady_now [OF assms(1) n] now_km_frame [OF n] assms(3)
    have s2: "cache_current idt stored s2" "stored (world s2) = stored (world s)"
      by (auto intro: cache_current_steady)
    show ?thesis
    proof (cases "t < ce_expires entry")
      case True
      with Some g n s2 assms(3) show ?thesis by (auto simp: km_get_def cache_current_def)
    next
      case False
      with Some g n fetch_current [OF assms(1) _ s2(1)] s2(2) show ?thesis by (simp add: km_get_def)
    qed
  qed
  with assms(2) g show ?thesis by (auto simp: GetCredentials_def split: sum.splits)
qed

lemma maybeRotate_logs_in:
  fixes s :: "('w, 'z) pool_sys_scheme"
  assumes "user_login E (pl_keyManager p) D idt u slots stored" and "d \<in> D"
    and "cache_current idt stored s" and "stored_logs_in E u slots stored (world s)"
  shows "stored_logs_in E u slots stored (world (maybeRotateLocked E p d idt s))"
proof -
  let ?ok = "\<lambda>x :: ('w, 'z) pool_sys_scheme. stored_logs_in E u slots stored (world x)"
  obtain g s1 where g: "GetCredentials E (pl_keyManager p) idt s = (g, s1)" by fastforce
  note s1 = steady_get [OF assms(1) g]
  show ?thesis
  proof (cases g)
    case (Inl e)
    with g s1 assms(4) steady_logs_in [OF s1] show ?thesis by (simp add: maybeRotateLocked_def)
  next
    case (Inr c)
    with get_current [OF assms(1) g assms(3)] obtain v t
      where v: "stored (world s) = Live v t" "unmarshalCredentials E v t = Inr c" by blast
    obtain due s2 where due: "credentialDue E (c_RotatedAt c) (sec_RotationInterval (cfg_Secrets (pl_cfg p))) s1 = (due, s2)"
      by fastforce
    note s2 = steady_credentialDue [OF assms(1) due]
    from assms(4) v s1 s2 have c: "logs_in E u slots (world s2) c" "c_Username c = u" "stored (world s2) = Live v t"
      using logs_in_slots [of slots "world s2" "world s"]
      by (auto simp: stored_logs_in_def logs_in_def)
    from steady_logs_in [OF s1] steady_logs_in [OF s2] assms(4) have ok: "?ok s2" by simp
    show ?thesis
    proof (cases "due \<and> (\<exists>key. parsePrivateKey E (c_PrivateKey c) = Inr key)")
      case False
      with g due ok \<open>g = Inr c\<close> show ?thesis by (auto simp: maybeRotateLocked_def split: sum.splits)
    next
      case True
      then obtain key where k: "due" "parsePrivateKey E (c_PrivateKey c) = Inr key" by blast
      obtain r s3 where r: "rotateCredential E p d idt u key s2 = (r, s3)" by fastforce
      have "?ok s3" by (rule rotate_logs_in [OF assms(1,2) r c(3) v(2) c(1) k(2)])
      with g due r k c(2) \<open>g = Inr c\<close> show ?thesis by (simp add: maybeRotateLocked_def)
    qed
  qed
qed


subsection \<open>Any history of rotations\<close>

text \<open>A new process: nothing cached, no connection.\<close>

definition pool_restart :: "('w, 'z) pool_sys_scheme \<Rightarrow> ('w, 'z) pool_sys_scheme" where
  "pool_restart s = s\<lparr>km_entries := (\<lambda>_. None), ps_orgAdminDB := None, ps_entries := [], ps_keyLocks := []\<rparr>"

text \<open>An update of the store that was applied but not answered leaves the old value in the cache, which
  the manager only drops on success.\<close>

definition answered :: "ident \<Rightarrow> ('w \<Rightarrow> slot) \<Rightarrow> ('w, 'z) km_sys_scheme \<Rightarrow> ('w, 'z) km_sys_scheme \<Rightarrow> bool" where
  "answered idt stored s s' \<longleftrightarrow> stored (world s') = stored (world s) \<or> km_entries s' idt = None"

text \<open>From a state where the stored credential logs in: calls that rotate when the credential is due,
  over any connection of the user; a call during which the process dies; and whatever the rest of the
  program and of the world does without touching the slots and the stored value, reading it included.\<close>

inductive rotations ::
  "'w env \<Rightarrow> ('w, ('w, 'z) pool_sys_scheme) pool \<Rightarrow> db set \<Rightarrow> ident \<Rightarrow> string \<Rightarrow> ('w \<Rightarrow> string \<times> string)
     \<Rightarrow> ('w \<Rightarrow> slot) \<Rightarrow> ('w, 'z) pool_sys_scheme \<Rightarrow> bool" for E p D idt u slots stored where
  rot_start: "stored_logs_in E u slots stored (world s) \<Longrightarrow> cache_current idt stored s \<Longrightarrow>
    rotations E p D idt u slots stored s"
| rot_call: "rotations E p D idt u slots stored s \<Longrightarrow> d \<in> D \<Longrightarrow> s' = maybeRotateLocked E p d idt s \<Longrightarrow>
    answered idt stored s s' \<Longrightarrow> rotations E p D idt u slots stored s'"
| rot_die: "rotations E p D idt u slots stored s \<Longrightarrow> d \<in> D \<Longrightarrow> s' = maybeRotateLocked E p d idt s \<Longrightarrow>
    rotations E p D idt u slots stored (pool_restart s')"
| rot_other: "rotations E p D idt u slots stored s \<Longrightarrow> steady slots stored s s' \<Longrightarrow>
    km_entries s' idt = km_entries s idt \<or> cache_current idt stored s' \<Longrightarrow>
    rotations E p D idt u slots stored s'"

text \<open>A rotation keeps the cache or drops it.\<close>

lemma update_cache:
  "UpdateCredentials E km idt c s = (r, s') \<Longrightarrow> km_entries s' idt = km_entries s idt \<or> km_entries s' idt = None"
  by (auto simp: UpdateCredentials_def km_update_def dest!: call_km_frame split: sum.splits prod.splits option.splits)

lemma rotate_cache:
  fixes s :: "('w, 'z) pool_sys_scheme"
  assumes "rotateCredential E p d idt u key s = (r, s')"
  shows "km_entries s' idt = km_entries s idt \<or> km_entries s' idt = None"
proof -
  have t: "km_entries x' = km_entries x" if "targetSlot E d u fp x = (ts, x')" for x x' :: "('w, 'z) pool_sys_scheme" and fp ts
    using that by (auto simp: targetSlot_def db_executor_def dest!: call_km_frame split: sum.splits prod.splits)
  have x: "km_entries x' = km_entries x" if "ex_ExecContext (db_executor E d) q args x = (y, x')"
    for x x' :: "('w, 'z) pool_sys_scheme" and q args y
    using that by (auto simp: db_executor_def dest!: call_km_frame)
  show ?thesis
    using assms
    by (auto simp: rotateCredential_def dest!: t x NewCredentials_km_frame update_cache
        split: sum.splits prod.splits option.splits)
qed

lemma maybeRotate_cache:
  fixes s :: "('w, 'z) pool_sys_scheme"
  assumes "user_login E (pl_keyManager p) D idt u slots stored" and "cache_current idt stored s"
    and "s' = maybeRotateLocked E p d idt s" and "answered idt stored s s'"
  shows "cache_current idt stored s'"
proof -
  obtain g s1 where g: "GetCredentials E (pl_keyManager p) idt s = (g, s1)" by fastforce
  from get_current [OF assms(1) g assms(2)] steady_get [OF assms(1) g]
  have s1: "cache_current idt stored s1" "stored (world s1) = stored (world s)" by blast+
  have "km_entries s' idt = km_entries s1 idt \<or> km_entries s' idt = None"
    using assms(3) g
    by (auto simp: maybeRotateLocked_def credentialDue_def dest!: now_km_frame rotate_cache
        split: sum.splits prod.splits)
  with s1 assms(4) show ?thesis by (auto simp: answered_def cache_current_def)
qed

lemma rotations_inv:
  assumes "user_login E (pl_keyManager p) D idt u slots stored" and "rotations E p D idt u slots stored s"
  shows "stored_logs_in E u slots stored (world s) \<and> cache_current idt stored s"
  using assms(2)
proof induction
  case (rot_call s d s')
  with maybeRotate_logs_in [OF assms(1)] maybeRotate_cache [OF assms(1)] show ?case by blast
next
  case (rot_die s d s')
  with maybeRotate_logs_in [OF assms(1)] show ?case
    by (simp add: pool_restart_def cache_current_def)
next
  case (rot_other s s')
  from steady_logs_in [OF rot_other.hyps(2)] rot_other cache_current_steady show ?case by metis
qed simp

text \<open>With a store whose failed updates change nothing, which the laws of \<open>key_store\<close> do not promise,
  every call is answered.\<close>

lemma truthful_update:
  assumes "\<And>w v e w'. ks_Update (km_store km) idt v w = (Some e, w') \<Longrightarrow> view w' idt = view w idt"
    and "UpdateCredentials E km idt c s = (r, s')"
  shows "answered idt (\<lambda>w. view w idt) s s'"
  using assms(2) assms(1)
  by (auto simp: answered_def UpdateCredentials_def km_update_def dest!: call_km_frame
      split: sum.splits prod.splits option.splits)

end
