(* ===== verification/Rotation_Properties.thy ===== *)
theory Rotation_Properties
  imports Rotation_Recovery Sample_World
begin

text \<open>
  What key rotation promises under failures: the user is never locked out.  The witnesses run in a
  world with one user \<open>platform\<close>, three keys, and a store that answers an update, refuses it, or
  applies it and loses the answer, as a list of fates says.
\<close>

subsection \<open>The property\<close>

text \<open>C12: However many rotations are attempted and wherever each of them fails or dies, the credential
  in the secret store logs in: its key is in one of the user's two slots; and so does every credential
  the key manager hands out.  Relied on: ALTER USER touches only the slot it names, and a process whose
  update of the store was applied without an answer does not rotate again with its cached credential.\<close>

theorem rotation_never_locks_out:
  fixes s :: "('w, 'z) pool_sys_scheme"
  assumes "user_login E (pl_keyManager p) D idt u slots stored"
    and "rotations E p D idt u slots stored s"
  shows "stored_logs_in E u slots stored (world s) \<and>
    (\<forall>c s'. GetCredentials E (pl_keyManager p) idt s = (Inr c, s') \<longrightarrow> logs_in E u slots (world s') c)"
proof -
  note inv = rotations_inv [OF assms]
  have "logs_in E u slots (world s') c" if g: "GetCredentials E (pl_keyManager p) idt s = (Inr c, s')" for c s'
  proof -
    from get_current [OF assms(1) g] inv obtain v t
      where "stored (world s) = Live v t" "unmarshalCredentials E v t = Inr c" by blast
    with inv have "logs_in E u slots (world s) c" by (simp add: stored_logs_in_def)
    with steady_get [OF assms(1) g] logs_in_slots show ?thesis by metis
  qed
  with inv show ?thesis by blast
qed

subsection \<open>A world for the witnesses\<close>

datatype fate = Answered | Refused | Lost

record login_world =
  lw_slots :: "string \<times> string"
  lw_stored :: slot
  lw_next :: rsa_key
  lw_fates :: "fate list"

definition lw_der :: "rsa_key \<Rightarrow> string" where
  "lw_der k = (if k = 0 then ''a'' else if k = 1 then ''b'' else ''c'')"

definition lw_fp :: "rsa_key \<Rightarrow> string" where
  "lw_fp k = ''SHA256:'' @ base64_std (sum256 (lw_der k))"

definition lw_json :: "rsa_key \<Rightarrow> cred_json" where
  "lw_json k = \<lparr>cj_username = ''platform'', cj_public_key = base64_std (lw_der k), cj_private_key = lw_der k\<rparr>"

definition lw_exec :: "string \<Rightarrow> login_world \<Rightarrow> gerror option \<times> login_world" where
  "lw_exec q w =
     (case List.find (\<lambda>(slot, k). q = alter_user_sql ''platform'' slot (base64_std (lw_der k)))
        (List.product [rsaPublicKeySlot, rsaPublicKey2Slot] [0, 1, 2]) of
        None \<Rightarrow> (Some (Foreign ''syntax error''), w)
      | Some (slot, k) \<Rightarrow>
          (None, w\<lparr>lw_slots := (if slot = rsaPublicKeySlot then (lw_fp k, snd (lw_slots w))
             else (fst (lw_slots w), lw_fp k))\<rparr>))"

definition lw_query :: "login_world \<Rightarrow> rows result" where
  "lw_query w = Inr (sample_rows [''property'', ''value'']
     [[SqlString ''RSA_PUBLIC_KEY_FP'', SqlString (fst (lw_slots w))],
      [SqlString ''RSA_PUBLIC_KEY_2_FP'', SqlString (snd (lw_slots w))]])"

definition lw_env :: "login_world env" where
  "lw_env =
     \<lparr>env_now = (\<lambda>w. (20000000000000000, w)), env_uuid = (\<lambda>w. ([], w)),
      env_rsaGenerate = (\<lambda>n w. (Inr (lw_next w mod 3), w\<lparr>lw_next := Suc (lw_next w)\<rparr>)),
      env_marshalPKIX = (\<lambda>k. if k < 3 then Inr (lw_der k) else Inl (Foreign ''key'')),
      env_marshalPKCS8 = (\<lambda>k. Inr (lw_der k)),
      env_parsePKCS8 = (\<lambda>b. case List.find (\<lambda>k. lw_der k = b) [0, 1, 2] of
         None \<Rightarrow> Inl (Foreign ''key'') | Some k \<Rightarrow> Inr (Some k)),
      env_pemEncode = (\<lambda>t b. b), env_pemDecode = (\<lambda>s. Some s),
      env_jsonMarshal = (\<lambda>c. case List.find (\<lambda>k. lw_json k = c) [0, 1, 2] of
         None \<Rightarrow> Inl (Foreign ''json'') | Some k \<Rightarrow> Inr (lw_der k)),
      env_jsonUnmarshal = (\<lambda>d. case List.find (\<lambda>k. lw_der k = d) [0, 1, 2] of
         None \<Rightarrow> Inl (Foreign ''json'') | Some k \<Rightarrow> Inr (lw_json k)),
      env_timeText = show_int, env_durationText = show_int,
      env_exec = (\<lambda>d q args. lw_exec q), env_query = (\<lambda>d q args w. (lw_query w, w)),
      env_openDB = (\<lambda>c w. (0, w)), env_ping = (\<lambda>d t w. (None, w)), env_closeDB = (\<lambda>d w. (None, w)),
      env_setLimits = (\<lambda>d a b t u w. w)\<rparr>"

definition lw_update :: "string \<Rightarrow> login_world \<Rightarrow> gerror option \<times> login_world" where
  "lw_update v w =
     (case lw_fates w of
        [] \<Rightarrow> (None, w\<lparr>lw_stored := Live v 0\<rparr>)
      | Answered # fs \<Rightarrow> (None, w\<lparr>lw_stored := Live v 0, lw_fates := fs\<rparr>)
      | Refused # fs \<Rightarrow> (Some (Foreign ''timeout''), w\<lparr>lw_fates := fs\<rparr>)
      | Lost # fs \<Rightarrow> (Some (Foreign ''timeout''), w\<lparr>lw_stored := Live v 0, lw_fates := fs\<rparr>))"

definition lw_km :: "login_world key_manager" where
  "lw_km = \<lparr>km_store =
     \<lparr>ks_Get = (\<lambda>i w. (case lw_stored w of Live v t \<Rightarrow> Inr (v, t) | _ \<Rightarrow> Inl (Foreign ''absent''), w)),
      ks_Create = (\<lambda>i v w. (Some (Foreign ''exists''), w)), ks_Update = (\<lambda>i. lw_update),
      ks_Delete = (\<lambda>i w. (Some (Foreign ''denied''), w))\<rparr>, km_ttl = 300000000000\<rparr>"

definition lw_pool :: "(login_world, login_world pool_sys) pool" where
  "lw_pool = pool_New lw_env lw_km sample_cfg"

text \<open>The first key in the first slot and in the store; the next ones to be generated are 1 and 2.\<close>

definition lw_start :: "fate list \<Rightarrow> login_world pool_sys" where
  "lw_start fates =
     \<lparr>world = \<lparr>lw_slots = (lw_fp 0, []), lw_stored = Live (lw_der 0) 0, lw_next = 1, lw_fates = fates\<rparr>,
      trace = [], km_entries = (\<lambda>_. None), ps_orgAdminDB = None, ps_entries = [], ps_keyLocks = []\<rparr>"

lemma lw_key_cases: "(k :: nat) < 3 \<longleftrightarrow> k = 0 \<or> k = 1 \<or> k = 2"
  by auto

lemma lw_fingerprint: "k < 3 \<Longrightarrow> publicKeyFingerprint lw_env k = lw_fp k"
  by (simp add: publicKeyFingerprint_def lw_env_def lw_fp_def)

lemma lw_base64: "base64_std (lw_der 0) = ''YQ==''" "base64_std (lw_der (Suc 0)) = ''Yg==''"
    "base64_std (lw_der 2) = ''Yw==''"
  by code_simp+


lemma alter_eq [simp]:
  "alter_user_sql u rsaPublicKeySlot p = alter_user_sql u rsaPublicKeySlot p' \<longleftrightarrow> p = p'"
  "alter_user_sql u rsaPublicKey2Slot p = alter_user_sql u rsaPublicKey2Slot p' \<longleftrightarrow> p = p'"
  "alter_user_sql u rsaPublicKeySlot p \<noteq> alter_user_sql u rsaPublicKey2Slot p'"
  "alter_user_sql u rsaPublicKey2Slot p \<noteq> alter_user_sql u rsaPublicKeySlot p'"
  by (simp_all add: alter_user_sql_def rsaPublicKeySlot_def rsaPublicKey2Slot_def)

lemma slots_differ [simp]: "rsaPublicKey2Slot \<noteq> rsaPublicKeySlot" "rsaPublicKeySlot \<noteq> rsaPublicKey2Slot"
  by (simp_all add: rsaPublicKeySlot_def rsaPublicKey2Slot_def)

lemma lw_exec_slots:
  "lw_exec (alter_user_sql ''platform'' rsaPublicKeySlot pub) w =
     (if pub = ''YQ=='' then (None, w\<lparr>lw_slots := (lw_fp 0, snd (lw_slots w))\<rparr>)
      else if pub = ''Yg=='' then (None, w\<lparr>lw_slots := (lw_fp 1, snd (lw_slots w))\<rparr>)
      else if pub = ''Yw=='' then (None, w\<lparr>lw_slots := (lw_fp 2, snd (lw_slots w))\<rparr>)
      else (Some (Foreign ''syntax error''), w))"
  "lw_exec (alter_user_sql ''platform'' rsaPublicKey2Slot pub) w =
     (if pub = ''YQ=='' then (None, w\<lparr>lw_slots := (fst (lw_slots w), lw_fp 0)\<rparr>)
      else if pub = ''Yg=='' then (None, w\<lparr>lw_slots := (fst (lw_slots w), lw_fp 1)\<rparr>)
      else if pub = ''Yw=='' then (None, w\<lparr>lw_slots := (fst (lw_slots w), lw_fp 2)\<rparr>)
      else (Some (Foreign ''syntax error''), w))"
  by (simp_all add: lw_exec_def lw_base64)

lemma lw_reads: "reads_ok lw_env lw_km {0} sample_ident ''platform'' lw_slots lw_stored"
  by (auto simp: reads_ok_def lw_env_def lw_km_def lw_query_def sample_rows_def split: slot.splits)

lemma lw_alters: "alters_ok lw_env {0} ''platform'' lw_slots lw_stored"
proof -
  have e: "env_exec lw_env = (\<lambda>d q args. lw_exec q)" by (simp add: lw_env_def)
  have m: "env_marshalPKIX lw_env key = Inr der \<Longrightarrow> key < 3 \<and> der = lw_der key" for key der
    by (simp add: lw_env_def split: if_splits)
  have f: "publicKeyFingerprint lw_env 0 = lw_fp 0" "publicKeyFingerprint lw_env (Suc 0) = lw_fp (Suc 0)"
    "publicKeyFingerprint lw_env 2 = lw_fp 2" by (simp_all add: lw_fingerprint)
  show ?thesis
    unfolding alters_ok_def e
    by (auto simp: lw_exec_slots lw_key_cases lw_base64 f dest!: m split: if_splits)
qed

lemma lw_updates: "updates_ok lw_km sample_ident lw_slots lw_stored"
  by (auto simp: updates_ok_def lw_km_def lw_update_def split: list.splits fate.splits)

lemma lw_formats: "formats_ok lw_env ''platform''"
proof -
  have j: "lw_json 0 \<noteq> lw_json (Suc 0)" "lw_json 0 \<noteq> lw_json 2" "lw_json (Suc 0) \<noteq> lw_json 2"
    by (simp_all add: lw_json_def lw_base64)
  have p: "env_pemEncode lw_env t b = b" "env_pemDecode lw_env b = Some b"
    "env_marshalPKCS8 lw_env k = Inr (lw_der k)" for t b k by (simp_all add: lw_env_def)
  have c: "cred_json_of \<lparr>c_Username = ''platform'', c_PublicKey = base64_std (lw_der k),
      c_PrivateKey = lw_der k, c_RotatedAt = t\<rparr> = lw_json k" for k t
    by (simp add: cred_json_of_def lw_json_def)
  have r: "json_roundtrips lw_env \<lparr>c_Username = ''platform'', c_PublicKey = base64_std (lw_der k),
      c_PrivateKey = lw_der k, c_RotatedAt = t\<rparr>" if "k < 3" for k t
    using that j unfolding json_roundtrips_def c lw_key_cases
    by (auto simp: lw_env_def lw_der_def)
  have k: "env_parsePKCS8 lw_env (lw_der k) = Inr (Some k) \<and> lw_der k \<noteq> [] \<and> base64_std (lw_der k) \<noteq> []" if "k < 3" for k
    using that lw_base64 unfolding lw_key_cases by (auto simp: lw_env_def lw_der_def)
  have m: "env_marshalPKIX lw_env key = Inr der \<Longrightarrow> key < 3 \<and> der = lw_der key" for key der
    by (simp add: lw_env_def split: if_splits)
  show ?thesis
    unfolding formats_ok_def Let_def p using r k by (auto dest!: m)
qed

lemma lw_login: "user_login lw_env (pl_keyManager lw_pool) {0} sample_ident ''platform'' lw_slots lw_stored"
  by (simp add: user_login_def lw_pool_def pool_New_def lw_reads lw_alters lw_updates lw_formats)


subsection \<open>The witness, and why the condition is needed\<close>

text \<open>What the calls of a rotation answer in this world.\<close>

lemma lw_now: "now lw_env s = (20000000000000000, s)"
  by (simp add: now_def local_call_def lw_env_def)

lemma lw_creds:
  "k < 3 \<Longrightarrow> unmarshalCredentials lw_env (lw_der k) t = Inr \<lparr>c_Username = ''platform'',
     c_PublicKey = base64_std (lw_der k), c_PrivateKey = lw_der k, c_RotatedAt = t\<rparr>"
  unfolding lw_key_cases
  by (auto simp: unmarshalCredentials_def lw_env_def lw_json_def lw_der_def lw_base64 [unfolded lw_der_def, simplified])

lemma lw_marshal:
  "k < 3 \<Longrightarrow> marshalCredentials lw_env \<lparr>c_Username = ''platform'',
     c_PublicKey = base64_std (lw_der k), c_PrivateKey = lw_der k, c_RotatedAt = t\<rparr> = Inr (lw_der k)"
  unfolding lw_key_cases
  by (auto simp: marshalCredentials_def lw_env_def lw_json_def lw_der_def lw_base64 [unfolded lw_der_def, simplified])

lemma lw_parse: "k < 3 \<Longrightarrow> parsePrivateKey lw_env (lw_der k) = Inr k"
  unfolding lw_key_cases by (auto simp: parsePrivateKey_def lw_env_def lw_der_def)

lemma lw_keys:
  "env_rsaGenerate lw_env n w = (Inr (lw_next w mod 3), w\<lparr>lw_next := Suc (lw_next w)\<rparr>)"
  "k < 3 \<Longrightarrow> env_marshalPKIX lw_env k = Inr (lw_der k)" "env_marshalPKCS8 lw_env k = Inr (lw_der k)"
  "env_pemEncode lw_env t b = b"
  by (simp_all add: lw_env_def)

lemma lw_new:
  "NewCredentials lw_env ''platform'' s = (let k = lw_next (world s) mod 3 in
     (Inr \<lparr>c_Username = ''platform'', c_PublicKey = base64_std (lw_der k), c_PrivateKey = lw_der k,
        c_RotatedAt = 20000000000000000\<rparr>, s\<lparr>world := (world s)\<lparr>lw_next := Suc (lw_next (world s))\<rparr>\<rparr>))"
  by (simp add: NewCredentials_def GenerateKeyPair_def lw_now Let_def local_call_def lw_keys)

lemma lw_target:
  "fst (lw_slots (world s)) = fp \<Longrightarrow> targetSlot lw_env 0 ''platform'' fp s =
     (Inr rsaPublicKey2Slot, s\<lparr>trace := trace s @ [QuerySQL 0 (desc_user_sql ''platform'') []]\<rparr>)"
  by (simp add: targetSlot_def db_executor_def call_def choose_slot_def lw_env_def lw_query_def sample_rows_def)

text \<open>One rotation away from key 0, which is in the first slot.\<close>

lemma lw_rotate:
  fixes s :: "login_world pool_sys"
  assumes "fst (lw_slots (world s)) = lw_fp 0" and "lw_next (world s) = k" "k < 3" and "lw_fates (world s) = f # fs"
    and "f \<noteq> Answered"
  shows "\<exists>e s'. rotateCredential lw_env lw_pool 0 sample_ident ''platform'' 0 s = (e, s') \<and>
    world s' = \<lparr>lw_slots = (lw_fp 0, lw_fp k), lw_stored = (if f = Lost then Live (lw_der k) 0 else lw_stored (world s)),
      lw_next = Suc k, lw_fates = fs\<rparr> \<and> km_entries s' = km_entries s"
proof -
  have fp: "publicKeyFingerprint lw_env 0 = lw_fp 0" by (simp add: lw_fingerprint)
  have x: "env_exec lw_env 0 (alter_user_sql ''platform'' rsaPublicKey2Slot (base64_std (lw_der k))) [] w =
      (None, w\<lparr>lw_slots := (fst (lw_slots w), lw_fp k)\<rparr>)" for w
    using assms(3) unfolding lw_key_cases by (auto simp: lw_env_def lw_exec_slots lw_base64)
  show ?thesis
    using assms(1,4,5) assms(2) [symmetric] assms(3) x
    by (auto simp: rotateCredential_def fp lw_target lw_new Let_def db_executor_def call_def
        UpdateCredentials_def lw_marshal km_update_def lw_pool_def pool_New_def lw_km_def lw_update_def
        split: fate.splits)
qed


abbreviation lw_cached :: cacheEntry where
  "lw_cached \<equiv> \<lparr>ce_value = lw_der 0, ce_modifiedAt = 0, ce_expires = 20000000000000000 + 300000000000\<rparr>"

text \<open>The key manager hands out key 0, from the store or from its cache.\<close>

lemma lw_get:
  fixes s :: "login_world pool_sys"
  assumes "km_entries s sample_ident = None \<and> lw_stored (world s) = Live (lw_der 0) 0 \<or>
    km_entries s sample_ident = Some lw_cached"
  shows "\<exists>s'. GetCredentials lw_env lw_km sample_ident s = (Inr \<lparr>c_Username = ''platform'',
      c_PublicKey = base64_std (lw_der 0), c_PrivateKey = lw_der 0, c_RotatedAt = 0\<rparr>, s') \<and>
    world s' = world s \<and> km_entries s' sample_ident = Some lw_cached"
  using assms
  by (auto simp: GetCredentials_def km_get_def km_fetch_def lw_now lw_creds lw_km_def call_def)

lemma lw_maybe:
  fixes s :: "login_world pool_sys"
  assumes "km_entries s sample_ident = None \<and> lw_stored (world s) = Live (lw_der 0) 0 \<or>
      km_entries s sample_ident = Some lw_cached"
    and "fst (lw_slots (world s)) = lw_fp 0" and "lw_next (world s) = k" "k < 3" and "lw_fates (world s) = f # fs"
    and "f \<noteq> Answered"
  shows "world (maybeRotateLocked lw_env lw_pool 0 sample_ident s) = \<lparr>lw_slots = (lw_fp 0, lw_fp k),
      lw_stored = (if f = Lost then Live (lw_der k) 0 else lw_stored (world s)), lw_next = Suc k, lw_fates = fs\<rparr> \<and>
    km_entries (maybeRotateLocked lw_env lw_pool 0 sample_ident s) sample_ident = Some lw_cached"
proof -
  from lw_get [OF assms(1)] obtain s1 where g: "GetCredentials lw_env lw_km sample_ident s =
      (Inr \<lparr>c_Username = ''platform'', c_PublicKey = base64_std (lw_der 0), c_PrivateKey = lw_der 0,
        c_RotatedAt = 0\<rparr>, s1)"
    and s1: "world s1 = world s" "km_entries s1 sample_ident = Some lw_cached" by blast
  from assms(2-6) s1 lw_rotate [of s1 k f fs] obtain e s2
    where r: "rotateCredential lw_env lw_pool 0 sample_ident ''platform'' 0 s1 = (e, s2)"
      and s2: "world s2 = \<lparr>lw_slots = (lw_fp 0, lw_fp k),
        lw_stored = (if f = Lost then Live (lw_der k) 0 else lw_stored (world s)), lw_next = Suc k, lw_fates = fs\<rparr>"
        "km_entries s2 = km_entries s1" by auto
  have p: "pl_keyManager lw_pool = lw_km" "pl_cfg lw_pool = sample_cfg" by (simp_all add: lw_pool_def pool_New_def)
  have "maybeRotateLocked lw_env lw_pool 0 sample_ident s = s2"
    using r by (simp add: maybeRotateLocked_def p g credentialDue_def lw_now lw_parse sample_cfg_def)
  with s2 s1 show ?thesis by simp
qed

lemma lw_start_logs_in: "stored_logs_in lw_env ''platform'' lw_slots lw_stored (world (lw_start fs))"
  by (simp add: stored_logs_in_def lw_start_def lw_creds logs_in_def lw_parse in_slot_def lw_fingerprint)
    (simp add: lw_fp_def)

text \<open>A process dies in a rotation whose update of the store was applied: the next one finds the new
  credential, and it logs in.\<close>

lemma rotation_never_locks_out_witness:
  "\<exists>s. rotations lw_env lw_pool {0} sample_ident ''platform'' lw_slots lw_stored s \<and>
     lw_stored (world s) = Live (lw_der 1) 0 \<and>
     stored_logs_in lw_env ''platform'' lw_slots lw_stored (world s)"
proof -
  let ?s = "lw_start [Lost]" and ?R = "rotations lw_env lw_pool {0} sample_ident ''platform'' lw_slots lw_stored"
  have "cache_current sample_ident lw_stored ?s" by (simp add: cache_current_def lw_start_def)
  with lw_start_logs_in have "?R ?s" by (rule rot_start)
  then have r: "?R (pool_restart (maybeRotateLocked lw_env lw_pool 0 sample_ident ?s))"
    by (rule rot_die) simp_all
  have "lw_stored (world (maybeRotateLocked lw_env lw_pool 0 sample_ident ?s)) = Live (lw_der 1) 0"
    using lw_maybe [of ?s 1 Lost "[]"] by (simp add: lw_start_def)
  with rotation_never_locks_out [OF lw_login r] r show ?thesis
    by (intro exI [of _ "pool_restart (maybeRotateLocked lw_env lw_pool 0 sample_ident ?s)"])
      (simp add: pool_restart_def)
qed

text \<open>The same failure in a process that lives on.  Its cache still holds key 0, so the next call
  rotates again, pushes key 2 over key 1, the one now in the store, and when this time the update is
  refused nothing can log in any more.  (SHA-256 gives the three keys three fingerprints; evaluating it
  in the kernel is too slow, so it is an assumption.)\<close>

lemma lost_update_locks_out:
  fixes s :: "login_world pool_sys"
  defines "s \<equiv> lw_start [Lost, Refused]"
  assumes "distinct [lw_fp 0, lw_fp 1, lw_fp 2]"
  shows "stored_logs_in lw_env ''platform'' lw_slots lw_stored (world s)"
    and "\<not> stored_logs_in lw_env ''platform'' lw_slots lw_stored (world
      (maybeRotateLocked lw_env lw_pool 0 sample_ident (maybeRotateLocked lw_env lw_pool 0 sample_ident s)))"
proof -
  show "stored_logs_in lw_env ''platform'' lw_slots lw_stored (world s)"
    by (simp add: s_def lw_start_logs_in)
  let ?r = "maybeRotateLocked lw_env lw_pool 0 sample_ident"
  have 1: "world (?r s) = \<lparr>lw_slots = (lw_fp 0, lw_fp 1), lw_stored = Live (lw_der 1) 0, lw_next = 2,
      lw_fates = [Refused]\<rparr>" "km_entries (?r s) sample_ident = Some lw_cached"
    using lw_maybe [of s 1 Lost "[Refused]"] by (simp_all add: s_def lw_start_def)
  have "world (?r (?r s)) = \<lparr>lw_slots = (lw_fp 0, lw_fp 2), lw_stored = Live (lw_der 1) 0, lw_next = 3,
      lw_fates = []\<rparr>"
    using lw_maybe [of "?r s" 2 Refused "[]"] 1 by simp
  with assms(2) show "\<not> stored_logs_in lw_env ''platform'' lw_slots lw_stored (world (?r (?r s)))"
    by (auto simp: stored_logs_in_def lw_creds [of "Suc 0"] logs_in_def
        lw_parse [of "Suc 0"] in_slot_def lw_fingerprint [of "Suc 0"])
qed

end
