(* ===== verification/Go_Heap.thy ===== *)
theory Go_Heap
  imports Prelude "HOL-Library.AList"
begin

text \<open>
  Go's memory, for the code whose point is aliasing: the generated deep copies.  A memory maps
  addresses to typed cells and knows the next free address; pointers, slice elements and map
  headers are addresses, \<open>nil\<close> is \<open>None\<close>.  \<open>view\<close> functions read the value a reference denotes
  together with the addresses it was read from, its footprint; the locale \<open>copyable\<close> is the
  contract of a deep copy, and its lemmas lift it from element to slice, pointer and map.
\<close>

subsection \<open>Memory\<close>

type_synonym addr = nat

record 'c mem =
  m_cells :: "addr \<Rightarrow> 'c option"
  m_next :: addr

text \<open>A Go type: how its values sit in a cell, and its zero value.\<close>

record ('v, 'c) gotype =
  gt_cell :: "'v \<Rightarrow> 'c"
  gt_val :: "'c \<Rightarrow> 'v option"
  gt_zero :: 'v

definition go_peek :: "('v, 'c) gotype \<Rightarrow> 'c mem \<Rightarrow> addr \<Rightarrow> 'v option" where
  "go_peek T h a = (case m_cells h a of None \<Rightarrow> None | Some c \<Rightarrow> gt_val T c)"

definition go_load :: "('v, 'c) gotype \<Rightarrow> 'c mem \<Rightarrow> addr \<Rightarrow> 'v" where
  "go_load T h a = (case go_peek T h a of None \<Rightarrow> gt_zero T | Some v \<Rightarrow> v)"

definition go_store :: "('v, 'c) gotype \<Rightarrow> addr \<Rightarrow> 'v \<Rightarrow> 'c mem \<Rightarrow> 'c mem" where
  "go_store T a v h = h\<lparr>m_cells := (m_cells h)(a \<mapsto> gt_cell T v)\<rparr>"

text \<open>\<open>new(T)\<close>, and the backing array of \<open>make([]T, n)\<close>: zeroed cells at fresh addresses.\<close>

definition go_alloc :: "('v, 'c) gotype \<Rightarrow> nat \<Rightarrow> 'c mem \<Rightarrow> addr \<times> 'c mem" where
  "go_alloc T n h =
     (m_next h,
      h\<lparr>m_cells := (\<lambda>a. if m_next h \<le> a \<and> a < m_next h + n then Some (gt_cell T (gt_zero T)) else m_cells h a),
        m_next := m_next h + n\<rparr>)"

definition go_new :: "('v, 'c) gotype \<Rightarrow> 'c mem \<Rightarrow> addr \<times> 'c mem" where
  "go_new T h = go_alloc T 1 h"

definition mem_ok :: "'c mem \<Rightarrow> bool" where
  "mem_ok h \<longleftrightarrow> (\<forall>a. m_next h \<le> a \<longrightarrow> m_cells h a = None)"

text \<open>\<open>grows h0 h\<close>: everything allocated in \<open>h0\<close> is still there, unchanged.\<close>

definition grows :: "'c mem \<Rightarrow> 'c mem \<Rightarrow> bool" where
  "grows h0 h \<longleftrightarrow> m_next h0 \<le> m_next h \<and> mem_ok h \<and> (\<forall>a. a < m_next h0 \<longrightarrow> m_cells h a = m_cells h0 a)"

lemma grows_refl: "mem_ok h \<Longrightarrow> grows h h"
  by (simp add: grows_def)

lemma grows_trans: "grows h0 h1 \<Longrightarrow> grows h1 h2 \<Longrightarrow> grows h0 h2"
  by (auto simp: grows_def)

lemma grows_ok: "grows h0 h \<Longrightarrow> mem_ok h"
  by (simp add: grows_def)

lemma store_next [simp]: "m_next (go_store T a v h) = m_next h"
  by (simp add: go_store_def)

lemma store_cells [simp]: "m_cells (go_store T a v h) b = (if b = a then Some (gt_cell T v) else m_cells h b)"
  by (simp add: go_store_def)

text \<open>A write to what was allocated since \<open>h0\<close>.\<close>

lemma grows_store: "grows h0 h \<Longrightarrow> m_next h0 \<le> a \<Longrightarrow> a < m_next h \<Longrightarrow> grows h0 (go_store T a v h)"
  by (auto simp: grows_def mem_ok_def)

lemma grows_alloc: "mem_ok h \<Longrightarrow> go_alloc T n h = (p, h') \<Longrightarrow> grows h h' \<and> p = m_next h \<and> m_next h' = m_next h + n"
  by (auto simp: go_alloc_def grows_def mem_ok_def)

subsection \<open>References\<close>

text \<open>A slice is nil, or its first element's address and its length; the copies never look at
  the capacity.\<close>

type_synonym slice = "(addr \<times> nat) option"

text \<open>\<open>for i := range *in { (*in)[i].DeepCopyInto(&(*out)[i]) }\<close>, and the same loop with plain
  assignments, which is what \<open>copy\<close> does.\<close>

fun copy_each :: "('v, 'c) gotype \<Rightarrow> ('v \<Rightarrow> 'c mem \<Rightarrow> 'v \<times> 'c mem) \<Rightarrow> addr \<Rightarrow> addr \<Rightarrow> nat \<Rightarrow> 'c mem \<Rightarrow> 'c mem" where
  "copy_each T into inp out 0 h = h"
| "copy_each T into inp out (Suc n) h =
     (case into (go_load T h inp) h of
        (v, h1) \<Rightarrow> copy_each T into (Suc inp) (Suc out) n (go_store T out v h1))"

definition copy_value :: "'v \<Rightarrow> 'c mem \<Rightarrow> 'v \<times> 'c mem" where
  "copy_value v h = (v, h)"

text \<open>\<open>*out = make([]T, len( *in))\<close> and the loop, and the guard \<open>if in.F != nil\<close> around it on a field.\<close>

definition make_slice :: "('v, 'c) gotype \<Rightarrow> ('v \<Rightarrow> 'c mem \<Rightarrow> 'v \<times> 'c mem) \<Rightarrow> slice \<Rightarrow> 'c mem \<Rightarrow> slice \<times> 'c mem" where
  "make_slice T into inp h =
     (case (case inp of None \<Rightarrow> (0, 0) | Some pn \<Rightarrow> pn) of (p, n) \<Rightarrow>
        (case go_alloc T n h of (q, h1) \<Rightarrow> (Some (q, n), copy_each T into p q n h1)))"

definition copy_slice :: "('v, 'c) gotype \<Rightarrow> ('v \<Rightarrow> 'c mem \<Rightarrow> 'v \<times> 'c mem) \<Rightarrow> slice \<Rightarrow> 'c mem \<Rightarrow> slice \<times> 'c mem" where
  "copy_slice T into inp h = (if inp = None then (None, h) else make_slice T into inp h)"

text \<open>\<open>if in != nil { out := new(T); in.DeepCopyInto(out) }\<close>, nil otherwise.\<close>

definition copy_ptr :: "('v, 'c) gotype \<Rightarrow> ('v \<Rightarrow> 'c mem \<Rightarrow> 'v \<times> 'c mem) \<Rightarrow> addr option \<Rightarrow> 'c mem
    \<Rightarrow> addr option \<times> 'c mem" where
  "copy_ptr T into inp h =
     (case inp of
        None \<Rightarrow> (None, h)
      | Some p \<Rightarrow>
          (case go_new T h of (q, h1) \<Rightarrow> (case into (go_load T h1 p) h1 of (v, h2) \<Rightarrow> (Some q, go_store T q v h2))))"

text \<open>A map is nil or the address of its entries.  The order of the entries is the order
  \<open>range\<close> happens to yield them in.\<close>

type_synonym 'e map_cell = "(string \<times> 'e) list"

definition map_put :: "('e map_cell, 'c) gotype \<Rightarrow> addr \<Rightarrow> string \<Rightarrow> 'e \<Rightarrow> 'c mem \<Rightarrow> 'c mem" where
  "map_put M m key v h = go_store M m (AList.update key v (go_load M h m)) h"

definition map_get :: "('e map_cell, 'c) gotype \<Rightarrow> 'e \<Rightarrow> 'c mem \<Rightarrow> addr \<Rightarrow> string \<Rightarrow> 'e" where
  "map_get M zero h m key = (case map_of (go_load M h m) key of None \<Rightarrow> zero | Some v \<Rightarrow> v)"

text \<open>\<open>for key, val := range *in\<close>, storing what \<open>copyVal\<close> makes of each entry; and the guard and
  \<open>make(map[string]E, len( *in))\<close> around it.  \<open>copyVal\<close> gets the address of the new map, which the
  loop body may write itself.\<close>

fun copy_entries :: "('e map_cell, 'c) gotype \<Rightarrow> (string \<Rightarrow> 'e \<Rightarrow> 'c mem \<Rightarrow> 'e \<times> 'c mem) \<Rightarrow> addr
    \<Rightarrow> 'e map_cell \<Rightarrow> 'c mem \<Rightarrow> 'c mem" where
  "copy_entries M copyVal out [] h = h"
| "copy_entries M copyVal out ((key, val) # entries) h =
     (case copyVal key val h of (v, h1) \<Rightarrow> copy_entries M copyVal out entries (map_put M out key v h1))"

definition copy_map :: "('e map_cell, 'c) gotype \<Rightarrow> (addr \<Rightarrow> addr \<Rightarrow> string \<Rightarrow> 'e \<Rightarrow> 'c mem \<Rightarrow> 'e \<times> 'c mem)
    \<Rightarrow> addr option \<Rightarrow> 'c mem \<Rightarrow> addr option \<times> 'c mem" where
  "copy_map M copyVal inp h =
     (case inp of
        None \<Rightarrow> (None, h)
      | Some m \<Rightarrow>
          (case go_new M h of (q, h1) \<Rightarrow> (Some q, copy_entries M (copyVal m q) q (go_load M h1 m) h1)))"

definition copy_string_val :: "addr \<Rightarrow> addr \<Rightarrow> string \<Rightarrow> 'e \<Rightarrow> 'c mem \<Rightarrow> 'e \<times> 'c mem" where
  "copy_string_val inp out key val h = (val, h)"

text \<open>The body for slice values: a nil value is stored as nil, any other is looked up again and copied.\<close>

definition copy_slice_val :: "(slice map_cell, 'c) gotype \<Rightarrow> ('v, 'c) gotype \<Rightarrow> ('v \<Rightarrow> 'c mem \<Rightarrow> 'v \<times> 'c mem)
    \<Rightarrow> addr \<Rightarrow> addr \<Rightarrow> string \<Rightarrow> slice \<Rightarrow> 'c mem \<Rightarrow> slice \<times> 'c mem" where
  "copy_slice_val M T into inp out key val h =
     (if val = None then (None, map_put M out key None h)
      else make_slice T into (map_get M None h inp key) h)"

subsection \<open>What references denote\<close>

type_synonym ('v, 'd, 'c) view = "'c mem \<Rightarrow> 'v \<Rightarrow> ('d \<times> addr set) option"

definition view_value :: "('v, 'v, 'c) view" where
  "view_value h v = Some (v, {})"

fun view_array :: "('v, 'c) gotype \<Rightarrow> ('v, 'd, 'c) view \<Rightarrow> 'c mem \<Rightarrow> addr \<Rightarrow> nat \<Rightarrow> ('d list \<times> addr set) option" where
  "view_array T V h p 0 = Some ([], {})"
| "view_array T V h p (Suc n) =
     (case go_peek T h p of None \<Rightarrow> None
      | Some v \<Rightarrow> (case V h v of None \<Rightarrow> None
         | Some (d, F) \<Rightarrow> (case view_array T V h (Suc p) n of None \<Rightarrow> None
            | Some (ds, G) \<Rightarrow> Some (d # ds, insert p (F \<union> G)))))"

text \<open>nil and the empty slice are different values.\<close>

definition view_slice :: "('v, 'c) gotype \<Rightarrow> ('v, 'd, 'c) view \<Rightarrow> (slice, 'd list option, 'c) view" where
  "view_slice T V h s =
     (case s of None \<Rightarrow> Some (None, {})
      | Some (p, n) \<Rightarrow> map_option (\<lambda>(ds, F). (Some ds, F)) (view_array T V h p n))"

definition view_ptr :: "('v, 'c) gotype \<Rightarrow> ('v, 'd, 'c) view \<Rightarrow> (addr option, 'd option, 'c) view" where
  "view_ptr T V h r =
     (case r of None \<Rightarrow> Some (None, {})
      | Some p \<Rightarrow> (case go_peek T h p of None \<Rightarrow> None
         | Some v \<Rightarrow> map_option (\<lambda>(d, F). (Some d, insert p F)) (V h v)))"

fun view_entries :: "('e, 'd, 'c) view \<Rightarrow> 'c mem \<Rightarrow> 'e map_cell \<Rightarrow> ((string \<times> 'd) list \<times> addr set) option" where
  "view_entries V h [] = Some ([], {})"
| "view_entries V h ((key, v) # entries) =
     (case V h v of None \<Rightarrow> None
      | Some (d, F) \<Rightarrow> (case view_entries V h entries of None \<Rightarrow> None
         | Some (ds, G) \<Rightarrow> Some ((key, d) # ds, F \<union> G)))"

definition view_map :: "('e map_cell, 'c) gotype \<Rightarrow> ('e, 'd, 'c) view \<Rightarrow> (addr option, (string \<Rightarrow> 'd option) option, 'c) view" where
  "view_map M V h r =
     (case r of None \<Rightarrow> Some (None, {})
      | Some m \<Rightarrow> (case go_peek M h m of None \<Rightarrow> None
         | Some entries \<Rightarrow>
             if distinct (map fst entries)
             then map_option (\<lambda>(ds, F). (Some (map_of ds), insert m F)) (view_entries V h entries)
             else None))"

subsection \<open>The contract of a deep copy\<close>

definition fresh_copy :: "('v, 'd, 'c) view \<Rightarrow> 'c mem \<Rightarrow> 'c mem \<Rightarrow> 'v \<Rightarrow> 'd \<Rightarrow> bool" where
  "fresh_copy V h0 h v d \<longleftrightarrow> (\<exists>F. V h v = Some (d, F) \<and> F \<subseteq> {m_next h0..<m_next h})"

text \<open>A view depends on its footprint only, and a copy of a value leaves all that was allocated
  untouched and denotes the same value on freshly allocated cells.\<close>

locale viewable =
  fixes V :: "('v, 'd, 'c) view"
  assumes view_local: "V h v = Some (d, F) \<Longrightarrow> (\<And>a. a \<in> F \<Longrightarrow> m_cells h' a = m_cells h a) \<Longrightarrow> V h' v = Some (d, F)"
    and view_alloc: "V h v = Some (d, F) \<Longrightarrow> a \<in> F \<Longrightarrow> m_cells h a \<noteq> None"

locale copyable = viewable V for V :: "('v, 'd, 'c) view" +
  fixes into :: "'v \<Rightarrow> 'c mem \<Rightarrow> 'v \<times> 'c mem"
  assumes into_grows: "mem_ok h \<Longrightarrow> V h v = Some (d, F) \<Longrightarrow> into v h = (v', h') \<Longrightarrow> grows h h'"
    and into_copies: "mem_ok h \<Longrightarrow> V h v = Some (d, F) \<Longrightarrow> into v h = (v', h') \<Longrightarrow> fresh_copy V h h' v' d"

text \<open>The types a cell can hold.\<close>

locale go_type =
  fixes T :: "('v, 'c) gotype"
  assumes val_cell: "gt_val T (gt_cell T v) = Some v"
begin

lemma peek_store [simp]: "go_peek T (go_store T a v h) b = (if b = a then Some v else go_peek T h b)"
  by (simp add: go_peek_def val_cell)

lemma load_store [simp]: "go_load T (go_store T a v h) b = (if b = a then v else go_load T h b)"
  by (simp add: go_load_def)

end

lemma peek_eq: "m_cells h' a = m_cells h a \<Longrightarrow> go_peek T h' a = go_peek T h a"
  by (simp add: go_peek_def)

lemma load_peek: "go_peek T h a = Some v \<Longrightarrow> go_load T h a = v"
  by (simp add: go_load_def)

lemma peek_alloc: "go_peek T h a = Some v \<Longrightarrow> m_cells h a \<noteq> None"
  by (auto simp: go_peek_def split: option.splits)

lemma alloc_lt_next: "mem_ok h \<Longrightarrow> m_cells h a \<noteq> None \<Longrightarrow> a < m_next h"
  by (auto simp: mem_ok_def not_le [symmetric])

lemma grows_cell: "grows h0 h \<Longrightarrow> a < m_next h0 \<Longrightarrow> m_cells h a = m_cells h0 a"
  by (simp add: grows_def)

lemma peek_grows:
  assumes "mem_ok h0" and "go_peek T h0 p = Some v" and "grows h0 h"
  shows "go_peek T h p = Some v" and "go_load T h p = v" and "p < m_next h0"
proof -
  show n: "p < m_next h0" by (rule alloc_lt_next [OF assms(1) peek_alloc [OF assms(2)]])
  show "go_peek T h p = Some v" using peek_eq [OF grows_cell [OF assms(3) n], of T] assms(2) by simp
  then show "go_load T h p = v" by (rule load_peek)
qed

context viewable
begin

lemma view_bound: "mem_ok h \<Longrightarrow> V h v = Some (d, F) \<Longrightarrow> F \<subseteq> {..<m_next h}"
  using view_alloc alloc_lt_next by blast

lemma view_grows:
  assumes "mem_ok h" and "V h v = Some (d, F)" and "grows h h'"
  shows "V h' v = Some (d, F)"
  by (rule view_local [OF assms(2)]) (use view_bound [OF assms(1,2)] assms(3) in \<open>auto simp: grows_cell\<close>)

text \<open>A fresh copy stays one while memory grows.\<close>

lemma fresh_mono:
  assumes "fresh_copy V h0 h v d" and "grows h h'"
  shows "fresh_copy V h0 h' v d"
proof -
  from assms(1) obtain F where F: "V h v = Some (d, F)" "F \<subseteq> {m_next h0..<m_next h}"
    unfolding fresh_copy_def by blast
  have "V h' v = Some (d, F)"
    by (rule view_local [OF F(1)]) (use F(2) assms(2) in \<open>auto simp: grows_cell\<close>)
  moreover have "F \<subseteq> {m_next h0..<m_next h'}" using F(2) assms(2) by (auto simp: grows_def)
  ultimately show ?thesis unfolding fresh_copy_def by blast
qed

end

lemma fresh_from: "fresh_copy V h1 h v d \<Longrightarrow> grows h0 h1 \<Longrightarrow> fresh_copy V h0 h v d"
  unfolding fresh_copy_def grows_def by (meson atLeastLessThan_iff order_trans subset_iff)

context copyable
begin

text \<open>One step of a copy that started in \<open>h0\<close>.\<close>

lemma into_step:
  assumes "mem_ok h0" and "V h0 v = Some (d, F)" and "grows h0 h" and "into v h = (v', h')"
  shows "grows h h' \<and> grows h0 h' \<and> fresh_copy V h h' v' d \<and> fresh_copy V h0 h' v' d"
proof -
  have V: "V h v = Some (d, F)" by (rule view_grows [OF assms(1-3)])
  note g = into_grows [OF grows_ok [OF assms(3)] V assms(4)]
  note c = into_copies [OF grows_ok [OF assms(3)] V assms(4)]
  from g c grows_trans [OF assms(3) g] fresh_from [OF c assms(3)] show ?thesis by blast
qed

end

subsection \<open>From elements to slices and pointers\<close>

locale copyable_cell = copyable V into + go_type T
  for V :: "('v, 'd, 'c) view" and into :: "'v \<Rightarrow> 'c mem \<Rightarrow> 'v \<times> 'c mem" and T :: "('v, 'c) gotype"
begin

lemma array_local:
  "view_array T V h p n = Some (ds, F) \<Longrightarrow> (\<And>a. a \<in> F \<Longrightarrow> m_cells h' a = m_cells h a) \<Longrightarrow>
     view_array T V h' p n = Some (ds, F)"
proof (induction n arbitrary: p ds F)
  case (Suc n)
  from Suc.prems(1) obtain v d E es G where e: "go_peek T h p = Some v" "V h v = Some (d, E)"
      "view_array T V h (Suc p) n = Some (es, G)" "ds = d # es" "F = insert p (E \<union> G)"
    by (auto split: option.splits)
  have "go_peek T h' p = Some v" using e(1,5) Suc.prems(2) peek_eq [of h' p h T] by simp
  moreover have "V h' v = Some (d, E)" by (rule view_local [OF e(2)]) (simp add: Suc.prems(2) e(5))
  moreover have "view_array T V h' (Suc p) n = Some (es, G)" by (rule Suc.IH [OF e(3)]) (simp add: Suc.prems(2) e(5))
  ultimately show ?case using e(4,5) by simp
qed simp

lemma array_alloc: "view_array T V h p n = Some (ds, F) \<Longrightarrow> a \<in> F \<Longrightarrow> m_cells h a \<noteq> None"
  by (induction n arbitrary: p ds F) (auto split: option.splits dest: view_alloc peek_alloc)

text \<open>The loop that fills a fresh backing array at \<open>q\<close>: nothing older than the array changes, nor does
  anything newer except its elements, and the array denotes what the source array did.\<close>

lemma copy_each_ok:
  assumes "mem_ok h0" and "view_array T V h0 p n = Some (ds, F)" and "grows h0 h"
    and "m_next h0 \<le> q" and "q + n \<le> m_next h"
  shows "grows h0 (copy_each T into p q n h) \<and> m_next h \<le> m_next (copy_each T into p q n h) \<and>
    (\<forall>a. a < m_next h \<longrightarrow> a \<notin> {q..<q + n} \<longrightarrow> m_cells (copy_each T into p q n h) a = m_cells h a) \<and>
    (\<exists>F'. view_array T V (copy_each T into p q n h) q n = Some (ds, F') \<and>
       F' \<subseteq> {q..<q + n} \<union> {m_next h..<m_next (copy_each T into p q n h)})"
  using assms(2-)
proof (induction n arbitrary: p q ds F h)
  case (Suc n)
  from Suc.prems(1) obtain v d E es G where e: "go_peek T h0 p = Some v" "V h0 v = Some (d, E)"
      "view_array T V h0 (Suc p) n = Some (es, G)" "ds = d # es"
    by (auto split: option.splits)
  have l: "go_load T h p = v" by (rule peek_grows(2) [OF assms(1) e(1) Suc.prems(2)])
  obtain v' h1 where i: "into v h = (v', h1)" by fastforce
  from into_step [OF assms(1) e(2) Suc.prems(2) i]
  have g: "grows h h1" "grows h0 h1" and c: "fresh_copy V h h1 v' d" by auto
  let ?h2 = "go_store T q v' h1" and ?r = "copy_each T into (Suc p) (Suc q) n (go_store T q v' h1)"
  have r: "copy_each T into p q (Suc n) h = ?r" by (simp add: l i)
  have nx: "m_next h \<le> m_next h1" using g(1) by (simp add: grows_def)
  have g2: "grows h0 ?h2" by (rule grows_store [OF g(2)]) (use Suc.prems(3,4) nx in auto)
  have q: "m_next h0 \<le> Suc q" "Suc q + n \<le> m_next ?h2" using Suc.prems(3,4) nx by auto
  from Suc.IH [OF e(3) g2 q] obtain F' where
    ih: "grows h0 ?r" "m_next h1 \<le> m_next ?r"
      "\<And>a. a < m_next h1 \<Longrightarrow> a \<notin> {Suc q..<Suc q + n} \<Longrightarrow> m_cells ?r a = m_cells ?h2 a"
      "view_array T V ?r (Suc q) n = Some (es, F')" "F' \<subseteq> {Suc q..<Suc q + n} \<union> {m_next h1..<m_next ?r}"
    by auto
  from c obtain E' where E': "V h1 v' = Some (d, E')" "E' \<subseteq> {m_next h..<m_next h1}"
    unfolding fresh_copy_def by blast
  have "V ?r v' = Some (d, E')"
  proof (rule view_local [OF E'(1)])
    fix a assume "a \<in> E'"
    with E'(2) Suc.prems(4) have "m_next h \<le> a" "a < m_next h1" "a \<notin> {Suc q..<Suc q + n}" "a \<noteq> q" by auto
    with ih(3) [of a] show "m_cells ?r a = m_cells h1 a" by simp
  qed
  moreover have "go_peek T ?r q = Some v'"
    using ih(3) [of q] Suc.prems(4) nx by (simp add: go_peek_def val_cell)
  ultimately have "view_array T V ?r q (Suc n) = Some (ds, insert q (E' \<union> F'))"
    using ih(4) e(4) by simp
  moreover have "insert q (E' \<union> F') \<subseteq> {q..<q + Suc n} \<union> {m_next h..<m_next ?r}"
    using E'(2) ih(2,5) nx by auto
  moreover have "m_cells ?r a = m_cells h a" if "a < m_next h" "a \<notin> {q..<q + Suc n}" for a
    using that ih(3) [of a] nx grows_cell [OF g(1), of a] by auto
  ultimately show ?case using ih(1,2) nx r by auto
qed simp

lemma make_slice_ok:
  assumes "mem_ok h0" and "view_slice T V h0 (Some pn) = Some (d, F)" and "grows h0 h"
    and "make_slice T into (Some pn) h = (s, h')"
  shows "grows h h' \<and> fresh_copy (view_slice T V) h h' s d"
proof -
  obtain p n where pn: "pn = (p, n)" by fastforce
  with assms(2) obtain ds where ds: "d = Some ds" "view_array T V h0 p n = Some (ds, F)"
    by (auto simp: view_slice_def)
  obtain q h1 where al: "go_alloc T n h = (q, h1)" by fastforce
  from grows_alloc [OF grows_ok [OF assms(3)] al] have g: "grows h h1" "q = m_next h" "m_next h1 = m_next h + n" by auto
  have g1: "grows h0 h1" by (rule grows_trans [OF assms(3) g(1)])
  have r: "s = Some (q, n)" "h' = copy_each T into p q n h1"
    using assms(4) al pn by (auto simp: make_slice_def)
  have "m_next h0 \<le> m_next h" using assms(3) by (simp add: grows_def)
  with copy_each_ok [OF assms(1) ds(2) g1, of q] g r obtain F' where
    c: "grows h0 h'" "m_next h1 \<le> m_next h'" "\<And>a. a < m_next h1 \<Longrightarrow> a \<notin> {q..<q + n} \<Longrightarrow> m_cells h' a = m_cells h1 a"
      "view_array T V h' q n = Some (ds, F')" "F' \<subseteq> {q..<q + n} \<union> {m_next h1..<m_next h'}" by auto
  have "grows h h'"
    using c(1-3) g grows_cell [OF g(1)] by (auto simp: grows_def)
  moreover have "F' \<subseteq> {m_next h..<m_next h'}" using c(2,5) g by auto
  ultimately show ?thesis using c(4) ds(1) r(1) by (auto simp: fresh_copy_def view_slice_def)
qed

lemma slice_copyable: "copyable (view_slice T V) (copy_slice T into)"
proof
  show "view_slice T V h s = Some (d, F) \<Longrightarrow> (\<And>a. a \<in> F \<Longrightarrow> m_cells h' a = m_cells h a) \<Longrightarrow> view_slice T V h' s = Some (d, F)"
    for h h' s d F using array_local [of h _ _ _ F h'] by (auto simp: view_slice_def split: option.splits)
  show "view_slice T V h s = Some (d, F) \<Longrightarrow> a \<in> F \<Longrightarrow> m_cells h a \<noteq> None" for h s d F a
    using array_alloc by (auto simp: view_slice_def split: option.splits)
  fix h s d F s' h'
  assume a: "mem_ok h" "view_slice T V h s = Some (d, F)" "copy_slice T into s h = (s', h')"
  have "grows h h' \<and> fresh_copy (view_slice T V) h h' s' d"
  proof (cases s)
    case None
    with a show ?thesis by (auto simp: copy_slice_def fresh_copy_def view_slice_def grows_refl)
  next
    case (Some pn)
    with a make_slice_ok [OF a(1) _ grows_refl [OF a(1)], of pn d F s' h'] show ?thesis by (simp add: copy_slice_def)
  qed
  then show "grows h h'" "fresh_copy (view_slice T V) h h' s' d" by auto
qed

lemma ptr_copyable: "copyable (view_ptr T V) (copy_ptr T into)"
proof
  show "view_ptr T V h r = Some (d, F) \<Longrightarrow> (\<And>a. a \<in> F \<Longrightarrow> m_cells h' a = m_cells h a) \<Longrightarrow> view_ptr T V h' r = Some (d, F)"
    for h h' r d F
    using peek_eq [of h' _ h T] by (fastforce simp: view_ptr_def intro: view_local split: option.splits)
  show "view_ptr T V h r = Some (d, F) \<Longrightarrow> a \<in> F \<Longrightarrow> m_cells h a \<noteq> None" for h r d F a
    using peek_alloc view_alloc by (fastforce simp: view_ptr_def split: option.splits)
  fix h r d F r' h'
  assume a: "mem_ok h" "view_ptr T V h r = Some (d, F)" "copy_ptr T into r h = (r', h')"
  have "grows h h' \<and> fresh_copy (view_ptr T V) h h' r' d"
  proof (cases r)
    case None
    with a show ?thesis by (auto simp: copy_ptr_def fresh_copy_def view_ptr_def grows_refl)
  next
    case (Some p)
    with a(2) obtain v x E where v: "go_peek T h p = Some v" "V h v = Some (x, E)" "d = Some x"
      by (auto simp: view_ptr_def split: option.splits)
    obtain q h1 where al: "go_alloc T 1 h = (q, h1)" by fastforce
    from grows_alloc [OF a(1) al] have g: "grows h h1" "q = m_next h" "m_next h1 = Suc (m_next h)" by auto
    have l: "go_load T h1 p = v" by (rule peek_grows(2) [OF a(1) v(1) g(1)])
    obtain v' h2 where i: "into v h1 = (v', h2)" by fastforce
    from into_step [OF a(1) v(2) g(1) i] have c: "grows h1 h2" "grows h h2" "fresh_copy V h1 h2 v' x" by auto
    have r: "r' = Some q" "h' = go_store T q v' h2" using a(3) Some al l i by (auto simp: copy_ptr_def go_new_def)
    have nx: "m_next h1 \<le> m_next h2" using c(1) by (simp add: grows_def)
    have gh: "grows h h'" unfolding r by (rule grows_store [OF c(2)]) (use g nx in auto)
    from c(3) obtain E' where E': "V h2 v' = Some (x, E')" "E' \<subseteq> {m_next h1..<m_next h2}"
      unfolding fresh_copy_def by blast
    have "V h' v' = Some (x, E')" by (rule view_local [OF E'(1)]) (use E'(2) g r in auto)
    moreover have "insert q E' \<subseteq> {m_next h..<m_next h'}" using E'(2) g nx r by auto
    ultimately have "fresh_copy (view_ptr T V) h h' r' d"
      using r v(3) by (auto simp: fresh_copy_def view_ptr_def)
    with gh show ?thesis ..
  qed
  then show "grows h h'" "fresh_copy (view_ptr T V) h h' r' d" by auto
qed

end

subsection \<open>Maps\<close>

locale copyable_map = viewable V + go_type M
  for V :: "('e, 'd, 'c) view" and M :: "('e map_cell, 'c) gotype" +
  fixes copyVal :: "addr \<Rightarrow> addr \<Rightarrow> string \<Rightarrow> 'e \<Rightarrow> 'c mem \<Rightarrow> 'e \<times> 'c mem"
  assumes val_copies: "mem_ok h0 \<Longrightarrow> V h0 val = Some (d, F) \<Longrightarrow> grows h0 h \<Longrightarrow>
    go_peek M h0 inp = Some al \<Longrightarrow> map_of al key = Some val \<Longrightarrow>
    m_next h0 \<le> out \<Longrightarrow> out < m_next h \<Longrightarrow> go_peek M h out = Some cur \<Longrightarrow>
    copyVal inp out key val h = (v, h1) \<Longrightarrow>
    grows h0 h1 \<and> m_next h \<le> m_next h1 \<and> (\<forall>a. a < m_next h \<longrightarrow> a \<noteq> out \<longrightarrow> m_cells h1 a = m_cells h a) \<and>
    fresh_copy V h h1 v d \<and> AList.update key v (go_load M h1 out) = AList.update key v cur"
begin

lemma entries_local:
  "view_entries V h es = Some (ds, F) \<Longrightarrow> (\<And>a. a \<in> F \<Longrightarrow> m_cells h' a = m_cells h a) \<Longrightarrow>
     view_entries V h' es = Some (ds, F)"
proof (induction es arbitrary: ds F)
  case (Cons e es)
  obtain k v where e: "e = (k, v)" by fastforce
  with Cons.prems(1) obtain d E bs G where b: "V h v = Some (d, E)" "view_entries V h es = Some (bs, G)"
      "ds = (k, d) # bs" "F = E \<union> G"
    by (auto split: option.splits)
  have "V h' v = Some (d, E)" by (rule view_local [OF b(1)]) (simp add: Cons.prems(2) b(4))
  moreover have "view_entries V h' es = Some (bs, G)" by (rule Cons.IH [OF b(2)]) (simp add: Cons.prems(2) b(4))
  ultimately show ?case using e b(3,4) by simp
qed simp

lemma entries_alloc: "view_entries V h es = Some (ds, F) \<Longrightarrow> a \<in> F \<Longrightarrow> m_cells h a \<noteq> None"
proof (induction es arbitrary: ds F)
  case (Cons e es)
  then show ?case by (cases e) (auto split: option.splits dest: view_alloc)
qed simp

text \<open>The loop appends the copied entries to the map at \<open>out\<close>, one by one.\<close>

lemma copy_entries_ok:
  assumes "mem_ok h0" and "go_peek M h0 inp = Some al"
    and "view_entries V h0 es = Some (ds, F)" and "grows h0 h" and "m_next h0 \<le> out" and "out < m_next h"
    and "go_peek M h out = Some pre" and "distinct (map fst pre @ map fst es)"
    and "\<And>k v. (k, v) \<in> set es \<Longrightarrow> map_of al k = Some v"
  shows "\<exists>es' F'. grows h0 (copy_entries M (copyVal inp out) out es h) \<and>
    m_next h \<le> m_next (copy_entries M (copyVal inp out) out es h) \<and>
    (\<forall>a. a < m_next h \<longrightarrow> a \<noteq> out \<longrightarrow> m_cells (copy_entries M (copyVal inp out) out es h) a = m_cells h a) \<and>
    go_peek M (copy_entries M (copyVal inp out) out es h) out = Some (pre @ es') \<and> map fst es' = map fst es \<and>
    view_entries V (copy_entries M (copyVal inp out) out es h) es' = Some (ds, F') \<and>
    F' \<subseteq> {m_next h..<m_next (copy_entries M (copyVal inp out) out es h)}"
  using assms(3-)
proof (induction es arbitrary: ds F h pre)
  case Nil
  then show ?case by simp
next
  case (Cons e es)
  obtain key val where e: "e = (key, val)" by fastforce
  with Cons.prems(1) obtain d E bs G where b: "V h0 val = Some (d, E)" "view_entries V h0 es = Some (bs, G)"
      "ds = (key, d) # bs"
    by (auto split: option.splits)
  obtain v h1 where cv: "copyVal inp out key val h = (v, h1)" by fastforce
  have mk: "map_of al key = Some val" using Cons.prems(7) e by simp
  from val_copies [OF assms(1) b(1) Cons.prems(2) assms(2) mk Cons.prems(3-5) cv]
  have c: "grows h0 h1" "m_next h \<le> m_next h1" "\<And>a. a < m_next h \<Longrightarrow> a \<noteq> out \<Longrightarrow> m_cells h1 a = m_cells h a"
      "fresh_copy V h h1 v d" "AList.update key v (go_load M h1 out) = AList.update key v pre" by auto
  have "key \<notin> fst ` set pre" using Cons.prems(6) e by auto
  then have up: "AList.update key v pre = pre @ [(key, v)]"
    by (induction pre) auto
  let ?h2 = "map_put M out key v h1"
  let ?r = "copy_entries M (copyVal inp out) out es ?h2"
  have h2: "?h2 = go_store M out (pre @ [(key, v)]) h1" using c(5) up by (simp add: map_put_def)
  have r: "copy_entries M (copyVal inp out) out (e # es) h = ?r" by (simp add: e cv)
  have g2: "grows h0 ?h2" unfolding map_put_def by (rule grows_store [OF c(1)]) (use Cons.prems(3,4) c(2) in auto)
  have pk: "go_peek M ?h2 out = Some (pre @ [(key, v)])" by (simp add: h2)
  have nx: "m_next ?h2 = m_next h1" by (simp add: h2)
  have o: "out < m_next ?h2" using Cons.prems(4) c(2) nx by simp
  have di: "distinct (map fst (pre @ [(key, v)]) @ map fst es)" using Cons.prems(6) e by auto
  have al: "\<And>k v. (k, v) \<in> set es \<Longrightarrow> map_of al k = Some v" using Cons.prems(7) by auto
  from Cons.IH [OF b(2) g2 Cons.prems(3) o pk di al] obtain es' F' where ih:
    "grows h0 ?r" "m_next h1 \<le> m_next ?r" "\<And>a. a < m_next h1 \<Longrightarrow> a \<noteq> out \<Longrightarrow> m_cells ?r a = m_cells ?h2 a"
    "go_peek M ?r out = Some ((pre @ [(key, v)]) @ es')" "map fst es' = map fst es"
    "view_entries V ?r es' = Some (bs, F')" "F' \<subseteq> {m_next h1..<m_next ?r}"
    unfolding nx by auto
  from c(4) obtain E' where E': "V h1 v = Some (d, E')" "E' \<subseteq> {m_next h..<m_next h1}"
    unfolding fresh_copy_def by blast
  have "V ?r v = Some (d, E')"
  proof (rule view_local [OF E'(1)])
    fix a assume "a \<in> E'"
    with E'(2) Cons.prems(4) have "a < m_next h1" "a \<noteq> out" by auto
    with ih(3) [of a] h2 show "m_cells ?r a = m_cells h1 a" by simp
  qed
  then have "view_entries V ?r ((key, v) # es') = Some (ds, E' \<union> F')" using ih(6) b(3) by simp
  moreover have "E' \<union> F' \<subseteq> {m_next h..<m_next ?r}" using E'(2) ih(2,7) c(2) by auto
  moreover have "m_cells ?r a = m_cells h a" if "a < m_next h" "a \<noteq> out" for a
    using that ih(3) [of a] c(2,3) h2 by simp
  moreover have "m_next h \<le> m_next ?r" using c(2) ih(2) by simp
  ultimately show ?case
    using ih(1,4,5) r e by (intro exI [of _ "(key, v) # es'"] exI [of _ "E' \<union> F'"]) simp
qed

lemma map_copyable: "gt_zero M = [] \<Longrightarrow> copyable (view_map M V) (copy_map M copyVal)"
proof
  assume z: "gt_zero M = []"
  show "view_map M V h r = Some (d, F) \<Longrightarrow> (\<And>a. a \<in> F \<Longrightarrow> m_cells h' a = m_cells h a) \<Longrightarrow> view_map M V h' r = Some (d, F)"
    for h h' r d F
    using peek_eq [of h' _ h M] entries_local [of h _ _ _ h']
    by (fastforce simp: view_map_def split: option.splits if_splits)
  show "view_map M V h r = Some (d, F) \<Longrightarrow> a \<in> F \<Longrightarrow> m_cells h a \<noteq> None" for h r d F a
    using peek_alloc [of M h] entries_alloc [of h] by (fastforce simp: view_map_def split: option.splits if_splits)
  fix h r d F r' h'
  assume a: "mem_ok h" "view_map M V h r = Some (d, F)" "copy_map M copyVal r h = (r', h')"
  have "grows h h' \<and> fresh_copy (view_map M V) h h' r' d"
  proof (cases r)
    case None
    with a show ?thesis by (auto simp: copy_map_def fresh_copy_def view_map_def grows_refl)
  next
    case (Some m)
    with a(2) obtain es ds E where v: "go_peek M h m = Some es" "distinct (map fst es)"
        "view_entries V h es = Some (ds, E)" "d = Some (map_of ds)"
      by (auto simp: view_map_def split: option.splits if_splits)
    obtain q h1 where al: "go_alloc M 1 h = (q, h1)" by fastforce
    from grows_alloc [OF a(1) al] have g: "grows h h1" "q = m_next h" "m_next h1 = Suc (m_next h)" by auto
    have l: "go_load M h1 m = es" by (rule peek_grows(2) [OF a(1) v(1) g(1)])
    have pk: "go_peek M h1 q = Some []"
      using al z val_cell [of "[]"] by (auto simp: go_alloc_def go_peek_def)
    have o: "m_next h \<le> q" "q < m_next h1" using g by auto
    have di: "distinct (map fst [] @ map fst es)" using v(2) by simp
    have mo: "\<And>k x. (k, x) \<in> set es \<Longrightarrow> map_of es k = Some x" using v(2) by (simp add: map_of_is_SomeI)
    let ?r = "copy_entries M (copyVal m q) q es h1"
    from copy_entries_ok [OF a(1) v(1,3) g(1) o pk di mo] obtain es' F' where c:
      "grows h ?r" "m_next h1 \<le> m_next ?r" "go_peek M ?r q = Some es'" "map fst es' = map fst es"
      "view_entries V ?r es' = Some (ds, F')" "F' \<subseteq> {m_next h1..<m_next ?r}"
      by auto
    have r: "r' = Some q" "h' = ?r" using a(3) Some al l by (auto simp: copy_map_def go_new_def)
    have "view_map M V h' r' = Some (d, insert q F')" using c(3-5) v(2,4) r by (simp add: view_map_def)
    moreover have "insert q F' \<subseteq> {m_next h..<m_next h'}" using c(2,6) g r(2) by auto
    ultimately show ?thesis using c(1) r(2) by (auto simp: fresh_copy_def)
  qed
  then show "grows h h'" "fresh_copy (view_map M V) h h' r' d" by auto
qed

end

lemma viewable_value: "viewable view_value"
  by unfold_locales (auto simp: view_value_def)

lemma copyable_value: "copyable view_value copy_value"
  by unfold_locales (auto simp: view_value_def copy_value_def fresh_copy_def grows_refl)

lemma fresh_value: "fresh_copy view_value h0 h v v"
  by (simp add: fresh_copy_def view_value_def)

lemma string_map_ok:
  assumes "go_type M"
  shows "copyable_map view_value M copy_string_val"
  by (rule copyable_map.intro [OF viewable_value assms], unfold_locales)
    (auto simp: view_value_def copy_string_val_def fresh_copy_def dest: load_peek)

lemma update_twice: "AList.update k v (AList.update k v al) = AList.update k v al"
  by (induction al) auto

context copyable_cell
begin

lemma slice_map_ok:
  assumes "go_type M"
  shows "copyable_map (view_slice T V) M (copy_slice_val M T into)"
proof (rule copyable_map.intro [OF copyable.axioms(1) [OF slice_copyable] assms], unfold_locales)
  fix h0 h h1 :: "'c mem" and val v F inp out key cur d al
  assume ok: "mem_ok h0" and V: "view_slice T V h0 val = Some (d, F)" and g: "grows h0 h"
    and al: "go_peek M h0 inp = Some al" and mk: "map_of al key = Some val"
    and out: "m_next h0 \<le> out" "out < m_next h" and cur: "go_peek M h out = Some cur"
    and c: "copy_slice_val M T into inp out key val h = (v, h1)"
  show "grows h0 h1 \<and> m_next h \<le> m_next h1 \<and> (\<forall>a. a < m_next h \<longrightarrow> a \<noteq> out \<longrightarrow> m_cells h1 a = m_cells h a) \<and>
    fresh_copy (view_slice T V) h h1 v d \<and> AList.update key v (go_load M h1 out) = AList.update key v cur"
  proof (cases val)
    case None
    with c V have r: "v = None" "h1 = map_put M out key None h" "d = None"
      by (auto simp: copy_slice_val_def view_slice_def)
    have "grows h0 h1" unfolding r map_put_def by (rule grows_store [OF g out])
    moreover have "go_load M h1 out = AList.update key None cur"
      using r(2) load_peek [OF cur] go_type.load_store [OF assms] by (simp add: map_put_def)
    ultimately show ?thesis using r by (simp add: map_put_def fresh_copy_def view_slice_def update_twice)
  next
    case (Some pn)
    have "map_get M None h inp key = Some pn"
      using peek_grows(2) [OF ok al g] mk Some by (simp add: map_get_def)
    with c Some have "make_slice T into (Some pn) h = (v, h1)" by (simp add: copy_slice_val_def)
    from make_slice_ok [OF ok _ g this] V Some
    have m: "grows h h1" "fresh_copy (view_slice T V) h h1 v d" by auto
    have "go_peek M h1 out = Some cur"
      using cur peek_eq [OF grows_cell [OF m(1) out(2)], of M] by simp
    then have "go_load M h1 out = cur" by (rule load_peek)
    with m grows_trans [OF g m(1)] show ?thesis by (auto simp: grows_def)
  qed
qed

end

subsection \<open>What a deep copy is for\<close>

text \<open>The two values share no memory: writing anywhere but the copy's own cells leaves the copy as it
  is, writing anywhere but the original's leaves the original.\<close>

definition isolated :: "('v, 'd, 'c) view \<Rightarrow> 'c mem \<Rightarrow> 'v \<Rightarrow> 'c mem \<Rightarrow> 'v \<Rightarrow> bool" where
  "isolated V h v h' v' \<longleftrightarrow>
     (\<exists>d F F'. V h v = Some (d, F) \<and> V h' v = Some (d, F) \<and> V h' v' = Some (d, F') \<and> F \<inter> F' = {} \<and>
        (\<forall>a. m_cells h a \<noteq> None \<longrightarrow> m_cells h' a = m_cells h a \<and> a \<notin> F') \<and>
        (\<forall>h''. (\<forall>a. a \<in> F' \<longrightarrow> m_cells h'' a = m_cells h' a) \<longrightarrow> V h'' v' = Some (d, F')) \<and>
        (\<forall>h''. (\<forall>a. a \<in> F \<longrightarrow> m_cells h'' a = m_cells h' a) \<longrightarrow> V h'' v = Some (d, F)))"

context copyable
begin

lemma copy_isolated:
  assumes "mem_ok h" and "V h v = Some (d, F)" and "into v h = (v', h')"
  shows "isolated V h v h' v'"
proof -
  have g: "grows h h'" and c: "fresh_copy V h h' v' d"
    using into_grows [OF assms] into_copies [OF assms] by auto
  from c obtain F' where F': "V h' v' = Some (d, F')" "F' \<subseteq> {m_next h..<m_next h'}"
    unfolding fresh_copy_def by blast
  have v: "V h' v = Some (d, F)" by (rule view_grows [OF assms(1,2) g])
  have "F \<inter> F' = {}" using view_bound [OF assms(1,2)] F'(2) by fastforce
  moreover have "m_cells h' a = m_cells h a \<and> a \<notin> F'" if "m_cells h a \<noteq> None" for a
    using alloc_lt_next [OF assms(1) that] grows_cell [OF g] F'(2) by auto
  moreover have "V h'' v' = Some (d, F')" if "\<forall>a. a \<in> F' \<longrightarrow> m_cells h'' a = m_cells h' a" for h''
    by (rule view_local [OF F'(1)]) (use that in simp)
  moreover have "V h'' v = Some (d, F)" if "\<forall>a. a \<in> F \<longrightarrow> m_cells h'' a = m_cells h' a" for h''
    by (rule view_local [OF v]) (use that in simp)
  ultimately show ?thesis using assms(2) F'(1) v unfolding isolated_def by blast
qed

end

subsection \<open>Structs\<close>

text \<open>A struct is copied field by field: its reference fields as nested pairs, the others as they are.\<close>

definition pair_view :: "('v, 'd, 'c) view \<Rightarrow> ('w, 'e, 'c) view \<Rightarrow> ('v \<times> 'w, 'd \<times> 'e, 'c) view" where
  "pair_view V W h p =
     (case V h (fst p) of None \<Rightarrow> None
      | Some (d, F) \<Rightarrow> (case W h (snd p) of None \<Rightarrow> None
         | Some (e, G) \<Rightarrow> Some ((d, e), F \<union> G)))"

definition pair_copy :: "('v \<Rightarrow> 'c mem \<Rightarrow> 'v \<times> 'c mem) \<Rightarrow> ('w \<Rightarrow> 'c mem \<Rightarrow> 'w \<times> 'c mem)
    \<Rightarrow> 'v \<times> 'w \<Rightarrow> 'c mem \<Rightarrow> ('v \<times> 'w) \<times> 'c mem" where
  "pair_copy i j p h = (case i (fst p) h of (v, h1) \<Rightarrow> (case j (snd p) h1 of (w, h2) \<Rightarrow> ((v, w), h2)))"

locale copyable_fields = v: copyable V i + w: copyable W j
  for V :: "('v, 'd, 'c) view" and i and W :: "('w, 'e, 'c) view" and j
begin

lemma pair_copyable: "copyable (pair_view V W) (pair_copy i j)"
proof
  show "pair_view V W h p = Some (x, F) \<Longrightarrow> (\<And>a. a \<in> F \<Longrightarrow> m_cells h' a = m_cells h a) \<Longrightarrow> pair_view V W h' p = Some (x, F)"
    for h h' p x F
    using v.view_local [of h _ _ _ h'] w.view_local [of h _ _ _ h']
    by (fastforce simp: pair_view_def split: option.splits)
  show "pair_view V W h p = Some (x, F) \<Longrightarrow> a \<in> F \<Longrightarrow> m_cells h a \<noteq> None" for h p x F a
    using v.view_alloc w.view_alloc by (fastforce simp: pair_view_def split: option.splits)
  fix h p x F p' h'
  assume a: "mem_ok h" "pair_view V W h p = Some (x, F)" "pair_copy i j p h = (p', h')"
  obtain d E e G where f: "V h (fst p) = Some (d, E)" "W h (snd p) = Some (e, G)" "x = (d, e)"
    using a(2) by (auto simp: pair_view_def split: option.splits)
  obtain x1 h1 where i: "i (fst p) h = (x1, h1)" by fastforce
  obtain x2 h2 where j: "j (snd p) h1 = (x2, h2)" by fastforce
  from v.into_step [OF a(1) f(1) grows_refl [OF a(1)] i]
  have 1: "grows h h1" "fresh_copy V h h1 x1 d" by auto
  from w.into_step [OF a(1) f(2) 1(1) j]
  have 2: "grows h1 h2" "grows h h2" "fresh_copy W h h2 x2 e" by auto
  have "fresh_copy V h h2 x1 d" by (rule v.fresh_mono [OF 1(2) 2(1)])
  with 2(3) have "fresh_copy (pair_view V W) h h2 (x1, x2) x"
    using f(3) by (auto simp: fresh_copy_def pair_view_def)
  moreover have "p' = (x1, x2)" "h' = h2" using a(3) i j by (auto simp: pair_copy_def)
  ultimately show "grows h h'" "fresh_copy (pair_view V W) h h' p' x" using 2(2) by simp_all
qed

end

lemmas copyable_pair = copyable_fields.pair_copyable [OF copyable_fields.intro]

text \<open>\<open>f\<close> takes the reference fields out of a struct, \<open>upd\<close> puts copies of them into a copy of it.\<close>

lemma copyable_struct:
  assumes c: "copyable V i"
    and view: "\<And>h s. V' h s = map_option (\<lambda>(d, F). (g s d, F)) (V h (f s))"
    and into: "\<And>s h. into' s h = (case i (f s) h of (x, h1) \<Rightarrow> (upd x s, h1))"
    and upd: "\<And>x s. f (upd x s) = x" "\<And>x s d. g (upd x s) d = g s d"
  shows "copyable V' into'"
proof
  note v = copyable.axioms(1) [OF c]
  show "V' h s = Some (d, F) \<Longrightarrow> (\<And>a. a \<in> F \<Longrightarrow> m_cells h' a = m_cells h a) \<Longrightarrow> V' h' s = Some (d, F)"
    for h h' s d F using viewable.view_local [OF v, of h _ _ F h'] by (auto simp: view)
  show "V' h s = Some (d, F) \<Longrightarrow> a \<in> F \<Longrightarrow> m_cells h a \<noteq> None" for h s d F a
    using viewable.view_alloc [OF v, of h] by (auto simp: view)
  fix h s d F s' h'
  assume a: "mem_ok h" "V' h s = Some (d, F)" "into' s h = (s', h')"
  obtain e where e: "V h (f s) = Some (e, F)" "d = g s e" using a(2) by (auto simp: view)
  obtain x where x: "i (f s) h = (x, h')" "s' = upd x s" using a(3) by (auto simp: into split: prod.splits)
  show "grows h h'" by (rule copyable.into_grows [OF c a(1) e(1) x(1)])
  from copyable.into_copies [OF c a(1) e(1) x(1)] show "fresh_copy V' h h' s' d"
    using e(2) x(2) by (auto simp: fresh_copy_def view upd)
qed

end
