(* ===== verification/DeepCopy.thy ===== *)
theory DeepCopy
  imports Api Go_Heap
begin

text \<open>
  \<open>apis/base/v1alpha1/zz_generated.deepcopy.go\<close>: the API types as they lie in memory, and their
  \<open>DeepCopyInto\<close>, \<open>DeepCopy\<close> and \<open>DeepCopyObject\<close>.  A struct is a record whose fields that are
  slices, pointers or maps are references; the same record with the values behind the references in
  their place is what it denotes, so every struct is parameterised over those fields.
  \<open>DeepCopyInto\<close> takes the struct \<open>in\<close> points to and returns the one it leaves in \<open>out\<close>, which is
  another variable.  The embedded library structs (ObjectMeta, ListMeta, ResourceStatus) and their
  own deep copies are the parameter \<open>copylib\<close>; their representation is the type \<open>'x\<close>.
\<close>

subsection \<open>Structs\<close>

record typeMeta =
  tm_Kind :: string
  tm_APIVersion :: string

record listMeta =
  lm_ResourceVersion :: string
  lm_Continue :: string
  lm_RemainingItemCount :: "int option"

record 's networkRuleS =
  nrs_Connection :: string
  nrs_AllowedIPs :: 's

record ('m, 's) customNetworkRulesS =
  nws_ServiceUsers :: 'm
  nws_AccountWide :: 's

record 's customAuthRulesS =
  ars_Exceptions :: 's

record ('g, 'b) identityIntegrationS =
  iis_Groups :: 'g
  iis_RoleBindings :: 'b

record ('i, 'nw, 'ar, 'mp) accountSpecS =
  ass_Description :: string
  ass_Contact :: string
  ass_Region :: string
  ass_Environment :: string
  ass_CreditQuota :: int
  ass_IdentityIntegration :: 'i
  ass_CustomNetworkRules :: 'nw
  ass_CustomAuthRules :: 'ar
  ass_ManagementPolicies :: 'mp

record ('r, 't) accountStatusS =
  sts_ResourceStatus :: 'r
  sts_AccountName :: string
  sts_AccountLocator :: string
  sts_AccountCreatedAt :: 't
  sts_AccountURL :: string

record ('o, 'spec, 'st) snowflakeAccountS =
  sas_TypeMeta :: typeMeta
  sas_ObjectMeta :: 'o
  sas_Spec :: 'spec
  sas_Status :: 'st

record ('l, 's) snowflakeAccountListS =
  sals_TypeMeta :: typeMeta
  sals_ListMeta :: 'l
  sals_Items :: 's

record 'mp permitSpecS =
  pss_TargetRef :: targetRef
  pss_Duration :: duration
  pss_Reason :: string
  pss_ManagementPolicies :: 'mp

record ('r, 't) permitStatusS =
  pts_ResourceStatus :: 'r
  pts_ValidUntil :: 't
  pts_State :: string

record ('o, 'spec, 'st) deletionPermitS =
  dps_TypeMeta :: typeMeta
  dps_ObjectMeta :: 'o
  dps_Spec :: 'spec
  dps_Status :: 'st

record ('l, 's) deletionPermitListS =
  dpls_TypeMeta :: typeMeta
  dpls_ListMeta :: 'l
  dpls_Items :: 's

text \<open>In memory: slices, pointers and maps are references.\<close>

type_synonym m_networkRule = "slice networkRuleS"
type_synonym m_customNetworkRules = "(addr option, slice) customNetworkRulesS"
type_synonym m_customAuthRules = "slice customAuthRulesS"
type_synonym m_identityIntegration = "(addr option, addr option) identityIntegrationS"
type_synonym m_accountSpec = "(m_identityIntegration, addr option, addr option, slice) accountSpecS"
type_synonym 'x m_accountStatus = "('x, addr option) accountStatusS"
type_synonym 'x m_account = "('x, m_accountSpec, 'x m_accountStatus) snowflakeAccountS"
type_synonym 'x m_accountList = "('x, slice) snowflakeAccountListS"
type_synonym m_permitSpec = "slice permitSpecS"
type_synonym 'x m_permitStatus = "('x, addr option) permitStatusS"
type_synonym 'x m_permit = "('x, m_permitSpec, 'x m_permitStatus) deletionPermitS"
type_synonym 'x m_permitList = "('x, slice) deletionPermitListS"

text \<open>What they denote: nil is \<open>None\<close>.\<close>

type_synonym d_networkRule = "string list option networkRuleS"
type_synonym d_customNetworkRules =
  "((string \<Rightarrow> d_networkRule list option option) option, d_networkRule list option) customNetworkRulesS"
type_synonym d_customAuthRules = "authException list option customAuthRulesS"
type_synonym d_identityIntegration =
  "((string \<Rightarrow> string list option option) option, (string \<Rightarrow> string option) option) identityIntegrationS"
type_synonym d_accountSpec =
  "(d_identityIntegration, d_customNetworkRules option, d_customAuthRules option, string list option) accountSpecS"
type_synonym d_accountStatus = "(condition list \<times> int, time option) accountStatusS"
type_synonym d_account = "(objectMeta, d_accountSpec, d_accountStatus) snowflakeAccountS"
type_synonym d_accountList = "(listMeta, d_account list option) snowflakeAccountListS"
type_synonym d_permitSpec = "string list option permitSpecS"
type_synonym d_permitStatus = "(condition list \<times> int, time option) permitStatusS"
type_synonym d_permit = "(objectMeta, d_permitSpec, d_permitStatus) deletionPermitS"
type_synonym d_permitList = "(listMeta, d_permit list option) deletionPermitListS"

subsection \<open>Memory cells\<close>

datatype 'x cell =
    CString string
  | CTime time
  | CStringMap "string map_cell"
  | CSliceMap "slice map_cell"
  | CNetworkRule m_networkRule
  | CCustomNetworkRules m_customNetworkRules
  | CAuthException authException
  | CCustomAuthRules m_customAuthRules
  | CIdentityIntegration m_identityIntegration
  | CAccountSpec m_accountSpec
  | CAccountStatus "'x m_accountStatus"
  | CAccount "'x m_account"
  | CAccountList "'x m_accountList"
  | CTargetRef targetRef
  | CPermitSpec m_permitSpec
  | CPermitStatus "'x m_permitStatus"
  | CPermit "'x m_permit"
  | CPermitList "'x m_permitList"
  | CLib 'x

type_synonym 'x cmem = "'x cell mem"

subsection \<open>The library's structs\<close>

text \<open>The deep copies of apimachinery and crossplane-runtime the generated code calls, and, for the
  specifications only, what their structs denote.\<close>

record 'x copylib =
  cl_zero :: 'x
  cl_ObjectMeta :: "'x \<Rightarrow> 'x cmem \<Rightarrow> 'x \<times> 'x cmem"
  cl_ListMeta :: "'x \<Rightarrow> 'x cmem \<Rightarrow> 'x \<times> 'x cmem"
  cl_ResourceStatus :: "'x \<Rightarrow> 'x cmem \<Rightarrow> 'x \<times> 'x cmem"
  cl_Time :: "addr option \<Rightarrow> 'x cmem \<Rightarrow> addr option \<times> 'x cmem"
  cv_ObjectMeta :: "('x, objectMeta, 'x cell) view"
  cv_ListMeta :: "('x, listMeta, 'x cell) view"
  cv_ResourceStatus :: "('x, condition list \<times> int, 'x cell) view"

subsection \<open>Zero values and cells\<close>

definition zero_typeMeta :: typeMeta where
  "zero_typeMeta = \<lparr>tm_Kind = [], tm_APIVersion = []\<rparr>"

definition zero_identityIntegration :: m_identityIntegration where
  "zero_identityIntegration = \<lparr>iis_Groups = None, iis_RoleBindings = None\<rparr>"

definition zero_accountSpec :: m_accountSpec where
  "zero_accountSpec =
     \<lparr>ass_Description = [], ass_Contact = [], ass_Region = [], ass_Environment = [], ass_CreditQuota = 0,
      ass_IdentityIntegration = zero_identityIntegration, ass_CustomNetworkRules = None,
      ass_CustomAuthRules = None, ass_ManagementPolicies = None\<rparr>"

definition zero_accountStatus :: "'x copylib \<Rightarrow> 'x m_accountStatus" where
  "zero_accountStatus L =
     \<lparr>sts_ResourceStatus = cl_zero L, sts_AccountName = [], sts_AccountLocator = [],
      sts_AccountCreatedAt = None, sts_AccountURL = []\<rparr>"

definition zero_permitSpec :: m_permitSpec where
  "zero_permitSpec =
     \<lparr>pss_TargetRef = \<lparr>tr_Kind = [], tr_Name = []\<rparr>, pss_Duration = 0, pss_Reason = [],
      pss_ManagementPolicies = None\<rparr>"

definition zero_permitStatus :: "'x copylib \<Rightarrow> 'x m_permitStatus" where
  "zero_permitStatus L = \<lparr>pts_ResourceStatus = cl_zero L, pts_ValidUntil = None, pts_State = []\<rparr>"

definition T_String :: "(string, 'x cell) gotype" where
  "T_String =
     \<lparr>gt_cell = CString, gt_val = (\<lambda>c. case c of CString v \<Rightarrow> Some v | _ \<Rightarrow> None),
      gt_zero = []\<rparr>"

definition T_Time :: "(time, 'x cell) gotype" where
  "T_Time =
     \<lparr>gt_cell = CTime, gt_val = (\<lambda>c. case c of CTime v \<Rightarrow> Some v | _ \<Rightarrow> None),
      gt_zero = 0\<rparr>"

definition T_StringMap :: "(string map_cell, 'x cell) gotype" where
  "T_StringMap =
     \<lparr>gt_cell = CStringMap, gt_val = (\<lambda>c. case c of CStringMap v \<Rightarrow> Some v | _ \<Rightarrow> None),
      gt_zero = []\<rparr>"

definition T_SliceMap :: "(slice map_cell, 'x cell) gotype" where
  "T_SliceMap =
     \<lparr>gt_cell = CSliceMap, gt_val = (\<lambda>c. case c of CSliceMap v \<Rightarrow> Some v | _ \<Rightarrow> None),
      gt_zero = []\<rparr>"

definition T_NetworkRule :: "(m_networkRule, 'x cell) gotype" where
  "T_NetworkRule =
     \<lparr>gt_cell = CNetworkRule, gt_val = (\<lambda>c. case c of CNetworkRule v \<Rightarrow> Some v | _ \<Rightarrow> None),
      gt_zero = \<lparr>nrs_Connection = [], nrs_AllowedIPs = None\<rparr>\<rparr>"

definition T_CustomNetworkRules :: "(m_customNetworkRules, 'x cell) gotype" where
  "T_CustomNetworkRules =
     \<lparr>gt_cell = CCustomNetworkRules, gt_val = (\<lambda>c. case c of CCustomNetworkRules v \<Rightarrow> Some v | _ \<Rightarrow> None),
      gt_zero = \<lparr>nws_ServiceUsers = None, nws_AccountWide = None\<rparr>\<rparr>"

definition T_AuthException :: "(authException, 'x cell) gotype" where
  "T_AuthException =
     \<lparr>gt_cell = CAuthException, gt_val = (\<lambda>c. case c of CAuthException v \<Rightarrow> Some v | _ \<Rightarrow> None),
      gt_zero = \<lparr>ae_User = [], ae_RSAKeyAllowed = False, ae_PATAllowed = False, ae_Reason = []\<rparr>\<rparr>"

definition T_CustomAuthRules :: "(m_customAuthRules, 'x cell) gotype" where
  "T_CustomAuthRules =
     \<lparr>gt_cell = CCustomAuthRules, gt_val = (\<lambda>c. case c of CCustomAuthRules v \<Rightarrow> Some v | _ \<Rightarrow> None),
      gt_zero = \<lparr>ars_Exceptions = None\<rparr>\<rparr>"

definition T_IdentityIntegration :: "(m_identityIntegration, 'x cell) gotype" where
  "T_IdentityIntegration =
     \<lparr>gt_cell = CIdentityIntegration, gt_val = (\<lambda>c. case c of CIdentityIntegration v \<Rightarrow> Some v | _ \<Rightarrow> None),
      gt_zero = zero_identityIntegration\<rparr>"

definition T_AccountSpec :: "(m_accountSpec, 'x cell) gotype" where
  "T_AccountSpec =
     \<lparr>gt_cell = CAccountSpec, gt_val = (\<lambda>c. case c of CAccountSpec v \<Rightarrow> Some v | _ \<Rightarrow> None),
      gt_zero = zero_accountSpec\<rparr>"

definition T_TargetRef :: "(targetRef, 'x cell) gotype" where
  "T_TargetRef =
     \<lparr>gt_cell = CTargetRef, gt_val = (\<lambda>c. case c of CTargetRef v \<Rightarrow> Some v | _ \<Rightarrow> None),
      gt_zero = \<lparr>tr_Kind = [], tr_Name = []\<rparr>\<rparr>"

definition T_PermitSpec :: "(m_permitSpec, 'x cell) gotype" where
  "T_PermitSpec =
     \<lparr>gt_cell = CPermitSpec, gt_val = (\<lambda>c. case c of CPermitSpec v \<Rightarrow> Some v | _ \<Rightarrow> None),
      gt_zero = zero_permitSpec\<rparr>"

definition T_AccountStatus :: "'x copylib \<Rightarrow> ('x m_accountStatus, 'x cell) gotype" where
  "T_AccountStatus L =
     \<lparr>gt_cell = CAccountStatus, gt_val = (\<lambda>c. case c of CAccountStatus v \<Rightarrow> Some v | _ \<Rightarrow> None),
      gt_zero = zero_accountStatus L\<rparr>"

definition T_Account :: "'x copylib \<Rightarrow> ('x m_account, 'x cell) gotype" where
  "T_Account L =
     \<lparr>gt_cell = CAccount, gt_val = (\<lambda>c. case c of CAccount v \<Rightarrow> Some v | _ \<Rightarrow> None),
      gt_zero = \<lparr>sas_TypeMeta = zero_typeMeta, sas_ObjectMeta = cl_zero L, sas_Spec = zero_accountSpec,
        sas_Status = zero_accountStatus L\<rparr>\<rparr>"

definition T_AccountList :: "'x copylib \<Rightarrow> ('x m_accountList, 'x cell) gotype" where
  "T_AccountList L =
     \<lparr>gt_cell = CAccountList, gt_val = (\<lambda>c. case c of CAccountList v \<Rightarrow> Some v | _ \<Rightarrow> None),
      gt_zero = \<lparr>sals_TypeMeta = zero_typeMeta, sals_ListMeta = cl_zero L, sals_Items = None\<rparr>\<rparr>"

definition T_PermitStatus :: "'x copylib \<Rightarrow> ('x m_permitStatus, 'x cell) gotype" where
  "T_PermitStatus L =
     \<lparr>gt_cell = CPermitStatus, gt_val = (\<lambda>c. case c of CPermitStatus v \<Rightarrow> Some v | _ \<Rightarrow> None),
      gt_zero = zero_permitStatus L\<rparr>"

definition T_Permit :: "'x copylib \<Rightarrow> ('x m_permit, 'x cell) gotype" where
  "T_Permit L =
     \<lparr>gt_cell = CPermit, gt_val = (\<lambda>c. case c of CPermit v \<Rightarrow> Some v | _ \<Rightarrow> None),
      gt_zero = \<lparr>dps_TypeMeta = zero_typeMeta, dps_ObjectMeta = cl_zero L, dps_Spec = zero_permitSpec,
        dps_Status = zero_permitStatus L\<rparr>\<rparr>"

definition T_PermitList :: "'x copylib \<Rightarrow> ('x m_permitList, 'x cell) gotype" where
  "T_PermitList L =
     \<lparr>gt_cell = CPermitList, gt_val = (\<lambda>c. case c of CPermitList v \<Rightarrow> Some v | _ \<Rightarrow> None),
      gt_zero = \<lparr>dpls_TypeMeta = zero_typeMeta, dpls_ListMeta = cl_zero L, dpls_Items = None\<rparr>\<rparr>"

subsection \<open>\<open>DeepCopyInto\<close>\<close>

definition AuthException_DeepCopyInto :: "authException \<Rightarrow> 'x cmem \<Rightarrow> authException \<times> 'x cmem" where
  "AuthException_DeepCopyInto inp h = (inp, h)"

definition TargetRef_DeepCopyInto :: "targetRef \<Rightarrow> 'x cmem \<Rightarrow> targetRef \<times> 'x cmem" where
  "TargetRef_DeepCopyInto inp h = (inp, h)"

definition CustomAuthRules_DeepCopyInto :: "m_customAuthRules \<Rightarrow> 'x cmem \<Rightarrow> m_customAuthRules \<times> 'x cmem" where
  "CustomAuthRules_DeepCopyInto inp h =
     (let out = inp;
          (exceptions, h1) = copy_slice T_AuthException copy_value (ars_Exceptions inp) h
      in (out\<lparr>ars_Exceptions := exceptions\<rparr>, h1))"

definition NetworkRule_DeepCopyInto :: "m_networkRule \<Rightarrow> 'x cmem \<Rightarrow> m_networkRule \<times> 'x cmem" where
  "NetworkRule_DeepCopyInto inp h =
     (let out = inp;
          (allowedIPs, h1) = copy_slice T_String copy_value (nrs_AllowedIPs inp) h
      in (out\<lparr>nrs_AllowedIPs := allowedIPs\<rparr>, h1))"

definition CustomNetworkRules_DeepCopyInto ::
  "m_customNetworkRules \<Rightarrow> 'x cmem \<Rightarrow> m_customNetworkRules \<times> 'x cmem" where
  "CustomNetworkRules_DeepCopyInto inp h =
     (let out = inp;
          (serviceUsers, h1) = copy_map T_SliceMap
            (copy_slice_val T_SliceMap T_NetworkRule NetworkRule_DeepCopyInto) (nws_ServiceUsers inp) h;
          (accountWide, h2) = copy_slice T_NetworkRule NetworkRule_DeepCopyInto (nws_AccountWide inp) h1
      in (out\<lparr>nws_ServiceUsers := serviceUsers, nws_AccountWide := accountWide\<rparr>, h2))"

definition IdentityIntegration_DeepCopyInto ::
  "m_identityIntegration \<Rightarrow> 'x cmem \<Rightarrow> m_identityIntegration \<times> 'x cmem" where
  "IdentityIntegration_DeepCopyInto inp h =
     (let out = inp;
          (groups, h1) = copy_map T_SliceMap (copy_slice_val T_SliceMap T_String copy_value) (iis_Groups inp) h;
          (roleBindings, h2) = copy_map T_StringMap copy_string_val (iis_RoleBindings inp) h1
      in (out\<lparr>iis_Groups := groups, iis_RoleBindings := roleBindings\<rparr>, h2))"

definition SnowflakeAccountSpec_DeepCopyInto :: "m_accountSpec \<Rightarrow> 'x cmem \<Rightarrow> m_accountSpec \<times> 'x cmem" where
  "SnowflakeAccountSpec_DeepCopyInto inp h =
     (let out = inp;
          (identityIntegration, h1) = IdentityIntegration_DeepCopyInto (ass_IdentityIntegration inp) h;
          (customNetworkRules, h2) =
            copy_ptr T_CustomNetworkRules CustomNetworkRules_DeepCopyInto (ass_CustomNetworkRules inp) h1;
          (customAuthRules, h3) =
            copy_ptr T_CustomAuthRules CustomAuthRules_DeepCopyInto (ass_CustomAuthRules inp) h2;
          (managementPolicies, h4) = copy_slice T_String copy_value (ass_ManagementPolicies inp) h3
      in (out\<lparr>ass_IdentityIntegration := identityIntegration, ass_CustomNetworkRules := customNetworkRules,
             ass_CustomAuthRules := customAuthRules, ass_ManagementPolicies := managementPolicies\<rparr>, h4))"

text \<open>\<open>if in.AccountCreatedAt != nil { *out = ( *in).DeepCopy() }\<close>.\<close>

definition copy_time :: "'x copylib \<Rightarrow> addr option \<Rightarrow> 'x cmem \<Rightarrow> addr option \<times> 'x cmem" where
  "copy_time L inp h = (if inp = None then (None, h) else cl_Time L inp h)"

definition SnowflakeAccountStatus_DeepCopyInto ::
  "'x copylib \<Rightarrow> 'x m_accountStatus \<Rightarrow> 'x cmem \<Rightarrow> 'x m_accountStatus \<times> 'x cmem" where
  "SnowflakeAccountStatus_DeepCopyInto L inp h =
     (let out = inp;
          (resourceStatus, h1) = cl_ResourceStatus L (sts_ResourceStatus inp) h;
          (accountCreatedAt, h2) = copy_time L (sts_AccountCreatedAt inp) h1
      in (out\<lparr>sts_ResourceStatus := resourceStatus, sts_AccountCreatedAt := accountCreatedAt\<rparr>, h2))"

definition SnowflakeAccount_DeepCopyInto ::
  "'x copylib \<Rightarrow> 'x m_account \<Rightarrow> 'x cmem \<Rightarrow> 'x m_account \<times> 'x cmem" where
  "SnowflakeAccount_DeepCopyInto L inp h =
     (let out = inp\<lparr>sas_TypeMeta := sas_TypeMeta inp\<rparr>;
          (objectMeta, h1) = cl_ObjectMeta L (sas_ObjectMeta inp) h;
          (spec, h2) = SnowflakeAccountSpec_DeepCopyInto (sas_Spec inp) h1;
          (status, h3) = SnowflakeAccountStatus_DeepCopyInto L (sas_Status inp) h2
      in (out\<lparr>sas_ObjectMeta := objectMeta, sas_Spec := spec, sas_Status := status\<rparr>, h3))"

definition SnowflakeAccountList_DeepCopyInto ::
  "'x copylib \<Rightarrow> 'x m_accountList \<Rightarrow> 'x cmem \<Rightarrow> 'x m_accountList \<times> 'x cmem" where
  "SnowflakeAccountList_DeepCopyInto L inp h =
     (let out = inp\<lparr>sals_TypeMeta := sals_TypeMeta inp\<rparr>;
          (listMeta, h1) = cl_ListMeta L (sals_ListMeta inp) h;
          (items, h2) = copy_slice (T_Account L) (SnowflakeAccount_DeepCopyInto L) (sals_Items inp) h1
      in (out\<lparr>sals_ListMeta := listMeta, sals_Items := items\<rparr>, h2))"

definition DeletionPermitSpec_DeepCopyInto :: "m_permitSpec \<Rightarrow> 'x cmem \<Rightarrow> m_permitSpec \<times> 'x cmem" where
  "DeletionPermitSpec_DeepCopyInto inp h =
     (let out = inp\<lparr>pss_TargetRef := pss_TargetRef inp, pss_Duration := pss_Duration inp\<rparr>;
          (managementPolicies, h1) = copy_slice T_String copy_value (pss_ManagementPolicies inp) h
      in (out\<lparr>pss_ManagementPolicies := managementPolicies\<rparr>, h1))"

definition DeletionPermitStatus_DeepCopyInto ::
  "'x copylib \<Rightarrow> 'x m_permitStatus \<Rightarrow> 'x cmem \<Rightarrow> 'x m_permitStatus \<times> 'x cmem" where
  "DeletionPermitStatus_DeepCopyInto L inp h =
     (let out = inp;
          (resourceStatus, h1) = cl_ResourceStatus L (pts_ResourceStatus inp) h;
          (validUntil, h2) = copy_time L (pts_ValidUntil inp) h1
      in (out\<lparr>pts_ResourceStatus := resourceStatus, pts_ValidUntil := validUntil\<rparr>, h2))"

definition DeletionPermit_DeepCopyInto ::
  "'x copylib \<Rightarrow> 'x m_permit \<Rightarrow> 'x cmem \<Rightarrow> 'x m_permit \<times> 'x cmem" where
  "DeletionPermit_DeepCopyInto L inp h =
     (let out = inp\<lparr>dps_TypeMeta := dps_TypeMeta inp\<rparr>;
          (objectMeta, h1) = cl_ObjectMeta L (dps_ObjectMeta inp) h;
          (spec, h2) = DeletionPermitSpec_DeepCopyInto (dps_Spec inp) h1;
          (status, h3) = DeletionPermitStatus_DeepCopyInto L (dps_Status inp) h2
      in (out\<lparr>dps_ObjectMeta := objectMeta, dps_Spec := spec, dps_Status := status\<rparr>, h3))"

definition DeletionPermitList_DeepCopyInto ::
  "'x copylib \<Rightarrow> 'x m_permitList \<Rightarrow> 'x cmem \<Rightarrow> 'x m_permitList \<times> 'x cmem" where
  "DeletionPermitList_DeepCopyInto L inp h =
     (let out = inp\<lparr>dpls_TypeMeta := dpls_TypeMeta inp\<rparr>;
          (listMeta, h1) = cl_ListMeta L (dpls_ListMeta inp) h;
          (items, h2) = copy_slice (T_Permit L) (DeletionPermit_DeepCopyInto L) (dpls_Items inp) h1
      in (out\<lparr>dpls_ListMeta := listMeta, dpls_Items := items\<rparr>, h2))"

subsection \<open>\<open>DeepCopy\<close>\<close>

definition AuthException_DeepCopy :: "addr option \<Rightarrow> 'x cmem \<Rightarrow> addr option \<times> 'x cmem" where
  "AuthException_DeepCopy inp h = copy_ptr T_AuthException AuthException_DeepCopyInto inp h"

definition CustomAuthRules_DeepCopy :: "addr option \<Rightarrow> 'x cmem \<Rightarrow> addr option \<times> 'x cmem" where
  "CustomAuthRules_DeepCopy inp h = copy_ptr T_CustomAuthRules CustomAuthRules_DeepCopyInto inp h"

definition CustomNetworkRules_DeepCopy :: "addr option \<Rightarrow> 'x cmem \<Rightarrow> addr option \<times> 'x cmem" where
  "CustomNetworkRules_DeepCopy inp h = copy_ptr T_CustomNetworkRules CustomNetworkRules_DeepCopyInto inp h"

definition DeletionPermit_DeepCopy :: "'x copylib \<Rightarrow> addr option \<Rightarrow> 'x cmem \<Rightarrow> addr option \<times> 'x cmem" where
  "DeletionPermit_DeepCopy L inp h = copy_ptr (T_Permit L) (DeletionPermit_DeepCopyInto L) inp h"

definition DeletionPermitList_DeepCopy :: "'x copylib \<Rightarrow> addr option \<Rightarrow> 'x cmem \<Rightarrow> addr option \<times> 'x cmem" where
  "DeletionPermitList_DeepCopy L inp h = copy_ptr (T_PermitList L) (DeletionPermitList_DeepCopyInto L) inp h"

definition DeletionPermitSpec_DeepCopy :: "addr option \<Rightarrow> 'x cmem \<Rightarrow> addr option \<times> 'x cmem" where
  "DeletionPermitSpec_DeepCopy inp h = copy_ptr T_PermitSpec DeletionPermitSpec_DeepCopyInto inp h"

definition DeletionPermitStatus_DeepCopy :: "'x copylib \<Rightarrow> addr option \<Rightarrow> 'x cmem \<Rightarrow> addr option \<times> 'x cmem" where
  "DeletionPermitStatus_DeepCopy L inp h = copy_ptr (T_PermitStatus L) (DeletionPermitStatus_DeepCopyInto L) inp h"

definition IdentityIntegration_DeepCopy :: "addr option \<Rightarrow> 'x cmem \<Rightarrow> addr option \<times> 'x cmem" where
  "IdentityIntegration_DeepCopy inp h = copy_ptr T_IdentityIntegration IdentityIntegration_DeepCopyInto inp h"

definition NetworkRule_DeepCopy :: "addr option \<Rightarrow> 'x cmem \<Rightarrow> addr option \<times> 'x cmem" where
  "NetworkRule_DeepCopy inp h = copy_ptr T_NetworkRule NetworkRule_DeepCopyInto inp h"

definition SnowflakeAccount_DeepCopy :: "'x copylib \<Rightarrow> addr option \<Rightarrow> 'x cmem \<Rightarrow> addr option \<times> 'x cmem" where
  "SnowflakeAccount_DeepCopy L inp h = copy_ptr (T_Account L) (SnowflakeAccount_DeepCopyInto L) inp h"

definition SnowflakeAccountList_DeepCopy :: "'x copylib \<Rightarrow> addr option \<Rightarrow> 'x cmem \<Rightarrow> addr option \<times> 'x cmem" where
  "SnowflakeAccountList_DeepCopy L inp h = copy_ptr (T_AccountList L) (SnowflakeAccountList_DeepCopyInto L) inp h"

definition SnowflakeAccountSpec_DeepCopy :: "addr option \<Rightarrow> 'x cmem \<Rightarrow> addr option \<times> 'x cmem" where
  "SnowflakeAccountSpec_DeepCopy inp h = copy_ptr T_AccountSpec SnowflakeAccountSpec_DeepCopyInto inp h"

definition SnowflakeAccountStatus_DeepCopy :: "'x copylib \<Rightarrow> addr option \<Rightarrow> 'x cmem \<Rightarrow> addr option \<times> 'x cmem" where
  "SnowflakeAccountStatus_DeepCopy L inp h = copy_ptr (T_AccountStatus L) (SnowflakeAccountStatus_DeepCopyInto L) inp h"

definition TargetRef_DeepCopy :: "addr option \<Rightarrow> 'x cmem \<Rightarrow> addr option \<times> 'x cmem" where
  "TargetRef_DeepCopy inp h = copy_ptr T_TargetRef TargetRef_DeepCopyInto inp h"

subsection \<open>\<open>DeepCopyObject\<close>\<close>

text \<open>A \<open>runtime.Object\<close>: the nil interface, or a pointer with its type.\<close>

datatype gobject = AccountObject addr | AccountListObject addr | PermitObject addr | PermitListObject addr

definition DeletionPermit_DeepCopyObject :: "'x copylib \<Rightarrow> addr option \<Rightarrow> 'x cmem \<Rightarrow> gobject option \<times> 'x cmem" where
  "DeletionPermit_DeepCopyObject L inp h =
     (case DeletionPermit_DeepCopy L inp h of
        (Some c, h1) \<Rightarrow> (Some (PermitObject c), h1)
      | (None, h1) \<Rightarrow> (None, h1))"

definition DeletionPermitList_DeepCopyObject :: "'x copylib \<Rightarrow> addr option \<Rightarrow> 'x cmem \<Rightarrow> gobject option \<times> 'x cmem" where
  "DeletionPermitList_DeepCopyObject L inp h =
     (case DeletionPermitList_DeepCopy L inp h of
        (Some c, h1) \<Rightarrow> (Some (PermitListObject c), h1)
      | (None, h1) \<Rightarrow> (None, h1))"

definition SnowflakeAccount_DeepCopyObject :: "'x copylib \<Rightarrow> addr option \<Rightarrow> 'x cmem \<Rightarrow> gobject option \<times> 'x cmem" where
  "SnowflakeAccount_DeepCopyObject L inp h =
     (case SnowflakeAccount_DeepCopy L inp h of
        (Some c, h1) \<Rightarrow> (Some (AccountObject c), h1)
      | (None, h1) \<Rightarrow> (None, h1))"

definition SnowflakeAccountList_DeepCopyObject :: "'x copylib \<Rightarrow> addr option \<Rightarrow> 'x cmem \<Rightarrow> gobject option \<times> 'x cmem" where
  "SnowflakeAccountList_DeepCopyObject L inp h =
     (case SnowflakeAccountList_DeepCopy L inp h of
        (Some c, h1) \<Rightarrow> (Some (AccountListObject c), h1)
      | (None, h1) \<Rightarrow> (None, h1))"

end
