(* ===== verification/DeepCopy_Properties.thy ===== *)
theory DeepCopy_Properties
  imports DeepCopy
begin

text \<open>
  The generated deep copies implement the contract \<open>copyable\<close>: the copy denotes the same
  value, nil-ness included, on memory of its own.  One view and one lemma per struct, composed
  the way the structs are; the properties say what the controllers rely on when they modify a
  copy of a cached object.
\<close>

subsection \<open>What the structs denote\<close>

definition view_strings :: "(slice, string list option, 'x cell) view" where
  "view_strings = view_slice T_String view_value"

definition view_time :: "(addr option, time option, 'x cell) view" where
  "view_time = view_ptr T_Time view_value"

definition view_networkRule :: "(m_networkRule, d_networkRule, 'x cell) view" where
  "view_networkRule h s =
     map_option (\<lambda>(ips, F). (\<lparr>nrs_Connection = nrs_Connection s, nrs_AllowedIPs = ips\<rparr>, F))
       (view_strings h (nrs_AllowedIPs s))"

definition view_rules :: "(slice, d_networkRule list option, 'x cell) view" where
  "view_rules = view_slice T_NetworkRule view_networkRule"

definition view_customNetworkRules :: "(m_customNetworkRules, d_customNetworkRules, 'x cell) view" where
  "view_customNetworkRules h s =
     map_option (\<lambda>((users, wide), F). (\<lparr>nws_ServiceUsers = users, nws_AccountWide = wide\<rparr>, F))
       (pair_view (view_map T_SliceMap view_rules) view_rules h (nws_ServiceUsers s, nws_AccountWide s))"

definition view_customAuthRules :: "(m_customAuthRules, d_customAuthRules, 'x cell) view" where
  "view_customAuthRules h s =
     map_option (\<lambda>(es, F). (\<lparr>ars_Exceptions = es\<rparr>, F)) (view_slice T_AuthException view_value h (ars_Exceptions s))"

definition view_identityIntegration :: "(m_identityIntegration, d_identityIntegration, 'x cell) view" where
  "view_identityIntegration h s =
     map_option (\<lambda>((groups, bindings), F). (\<lparr>iis_Groups = groups, iis_RoleBindings = bindings\<rparr>, F))
       (pair_view (view_map T_SliceMap view_strings) (view_map T_StringMap view_value) h
          (iis_Groups s, iis_RoleBindings s))"

definition spec_fields :: "('i, 'nw, 'ar, 'mp) accountSpecS \<Rightarrow> 'i \<times> 'nw \<times> 'ar \<times> 'mp" where
  "spec_fields s = (ass_IdentityIntegration s, ass_CustomNetworkRules s, ass_CustomAuthRules s, ass_ManagementPolicies s)"

definition spec_with :: "('i, 'nw, 'ar, 'mp) accountSpecS \<Rightarrow> 'j \<times> 'nv \<times> 'as \<times> 'mq \<Rightarrow> ('j, 'nv, 'as, 'mq) accountSpecS" where
  "spec_with s = (\<lambda>(identity, network, auth, policies).
     \<lparr>ass_Description = ass_Description s, ass_Contact = ass_Contact s, ass_Region = ass_Region s,
      ass_Environment = ass_Environment s, ass_CreditQuota = ass_CreditQuota s, ass_IdentityIntegration = identity,
      ass_CustomNetworkRules = network, ass_CustomAuthRules = auth, ass_ManagementPolicies = policies\<rparr>)"

definition view_accountSpec :: "(m_accountSpec, d_accountSpec, 'x cell) view" where
  "view_accountSpec h s =
     map_option (\<lambda>(d, F). (spec_with s d, F))
       (pair_view view_identityIntegration (pair_view (view_ptr T_CustomNetworkRules view_customNetworkRules)
          (pair_view (view_ptr T_CustomAuthRules view_customAuthRules) view_strings)) h (spec_fields s))"

definition status_with :: "('r, 't) accountStatusS \<Rightarrow> 'q \<times> 'u \<Rightarrow> ('q, 'u) accountStatusS" where
  "status_with s = (\<lambda>(status, t).
     \<lparr>sts_ResourceStatus = status, sts_AccountName = sts_AccountName s, sts_AccountLocator = sts_AccountLocator s,
      sts_AccountCreatedAt = t, sts_AccountURL = sts_AccountURL s\<rparr>)"

definition view_accountStatus :: "'x copylib \<Rightarrow> ('x m_accountStatus, d_accountStatus, 'x cell) view" where
  "view_accountStatus L h s =
     map_option (\<lambda>(d, F). (status_with s d, F))
       (pair_view (cv_ResourceStatus L) view_time h (sts_ResourceStatus s, sts_AccountCreatedAt s))"

definition view_account :: "'x copylib \<Rightarrow> ('x m_account, d_account, 'x cell) view" where
  "view_account L h s =
     map_option (\<lambda>((meta, spec, status), F).
         (\<lparr>sas_TypeMeta = sas_TypeMeta s, sas_ObjectMeta = meta, sas_Spec = spec, sas_Status = status\<rparr>, F))
       (pair_view (cv_ObjectMeta L) (pair_view view_accountSpec (view_accountStatus L)) h
          (sas_ObjectMeta s, sas_Spec s, sas_Status s))"

definition view_accountList :: "'x copylib \<Rightarrow> ('x m_accountList, d_accountList, 'x cell) view" where
  "view_accountList L h s =
     map_option (\<lambda>((meta, items), F).
         (\<lparr>sals_TypeMeta = sals_TypeMeta s, sals_ListMeta = meta, sals_Items = items\<rparr>, F))
       (pair_view (cv_ListMeta L) (view_slice (T_Account L) (view_account L)) h (sals_ListMeta s, sals_Items s))"

definition view_permitSpec :: "(m_permitSpec, d_permitSpec, 'x cell) view" where
  "view_permitSpec h s =
     map_option (\<lambda>(policies, F). (\<lparr>pss_TargetRef = pss_TargetRef s, pss_Duration = pss_Duration s,
         pss_Reason = pss_Reason s, pss_ManagementPolicies = policies\<rparr>, F))
       (view_strings h (pss_ManagementPolicies s))"

definition view_permitStatus :: "'x copylib \<Rightarrow> ('x m_permitStatus, d_permitStatus, 'x cell) view" where
  "view_permitStatus L h s =
     map_option (\<lambda>((status, t), F).
         (\<lparr>pts_ResourceStatus = status, pts_ValidUntil = t, pts_State = pts_State s\<rparr>, F))
       (pair_view (cv_ResourceStatus L) view_time h (pts_ResourceStatus s, pts_ValidUntil s))"

definition view_permit :: "'x copylib \<Rightarrow> ('x m_permit, d_permit, 'x cell) view" where
  "view_permit L h s =
     map_option (\<lambda>((meta, spec, status), F).
         (\<lparr>dps_TypeMeta = dps_TypeMeta s, dps_ObjectMeta = meta, dps_Spec = spec, dps_Status = status\<rparr>, F))
       (pair_view (cv_ObjectMeta L) (pair_view view_permitSpec (view_permitStatus L)) h
          (dps_ObjectMeta s, dps_Spec s, dps_Status s))"

definition view_permitList :: "'x copylib \<Rightarrow> ('x m_permitList, d_permitList, 'x cell) view" where
  "view_permitList L h s =
     map_option (\<lambda>((meta, items), F).
         (\<lparr>dpls_TypeMeta = dpls_TypeMeta s, dpls_ListMeta = meta, dpls_Items = items\<rparr>, F))
       (pair_view (cv_ListMeta L) (view_slice (T_Permit L) (view_permit L)) h (dpls_ListMeta s, dpls_Items s))"

text \<open>What the generated code relies on in the library: its deep copies keep the same contract.\<close>

definition copylib_ok :: "'x copylib \<Rightarrow> bool" where
  "copylib_ok L \<longleftrightarrow>
     copyable (cv_ObjectMeta L) (cl_ObjectMeta L) \<and> copyable (cv_ListMeta L) (cl_ListMeta L) \<and>
     copyable (cv_ResourceStatus L) (cl_ResourceStatus L) \<and> copyable view_time (cl_Time L)"

subsection \<open>The structs that need no library\<close>

interpretation any_value: copyable view_value copy_value
  by (rule copyable_value)

interpretation string_type: go_type T_String by unfold_locales (simp add: T_String_def)

interpretation string_map_type: go_type T_StringMap by unfold_locales (simp add: T_StringMap_def)

interpretation slice_map_type: go_type T_SliceMap by unfold_locales (simp add: T_SliceMap_def)

interpretation string_cell: copyable_cell view_value copy_value T_String ..

interpretation time_cell: copyable_cell view_value copy_value T_Time
  by unfold_locales (simp add: T_Time_def)

interpretation exception_cell: copyable_cell view_value copy_value T_AuthException
  by unfold_locales (simp add: T_AuthException_def)

interpretation strings: copyable view_strings "copy_slice T_String copy_value"
  unfolding view_strings_def by (rule string_cell.slice_copyable)

lemmas struct_copy = pair_copy_def Let_def case_prod_unfold

lemma networkRule_copyable: "copyable view_networkRule NetworkRule_DeepCopyInto"
  by (rule copyable_struct [where f = nrs_AllowedIPs and upd = "\<lambda>x s. s\<lparr>nrs_AllowedIPs := x\<rparr>"
        and g = "\<lambda>s d. \<lparr>nrs_Connection = nrs_Connection s, nrs_AllowedIPs = d\<rparr>", OF strings.copyable_axioms])
    (simp_all add: view_networkRule_def NetworkRule_DeepCopyInto_def)

interpretation rule_cell: copyable_cell view_networkRule NetworkRule_DeepCopyInto T_NetworkRule
  by (rule copyable_cell.intro [OF networkRule_copyable], unfold_locales) (simp add: T_NetworkRule_def)

lemma rules_copyable: "copyable view_rules (copy_slice T_NetworkRule NetworkRule_DeepCopyInto)"
  unfolding view_rules_def by (rule rule_cell.slice_copyable)

interpretation rules_map: copyable_map view_rules T_SliceMap
    "copy_slice_val T_SliceMap T_NetworkRule NetworkRule_DeepCopyInto"
  unfolding view_rules_def by (rule rule_cell.slice_map_ok [OF slice_map_type.go_type_axioms])

interpretation strings_map: copyable_map view_strings T_SliceMap "copy_slice_val T_SliceMap T_String copy_value"
  unfolding view_strings_def by (rule string_cell.slice_map_ok [OF slice_map_type.go_type_axioms])

interpretation bindings_map: copyable_map view_value T_StringMap copy_string_val
  by (rule string_map_ok [OF string_map_type.go_type_axioms])

lemma zero_maps [simp]: "gt_zero T_SliceMap = []" "gt_zero T_StringMap = []"
  by (simp_all add: T_SliceMap_def T_StringMap_def)

interpretation network_fields: copyable_fields "view_map T_SliceMap view_rules"
    "copy_map T_SliceMap (copy_slice_val T_SliceMap T_NetworkRule NetworkRule_DeepCopyInto)"
    view_rules "copy_slice T_NetworkRule NetworkRule_DeepCopyInto"
  by (rule copyable_fields.intro [OF rules_map.map_copyable rules_copyable]) simp

lemma customNetworkRules_copyable: "copyable view_customNetworkRules CustomNetworkRules_DeepCopyInto"
  by (rule copyable_struct [where f = "\<lambda>s. (nws_ServiceUsers s, nws_AccountWide s)"
        and upd = "\<lambda>(u, w) s. s\<lparr>nws_ServiceUsers := u, nws_AccountWide := w\<rparr>"
        and g = "\<lambda>s (u, w). \<lparr>nws_ServiceUsers = u, nws_AccountWide = w\<rparr>", OF network_fields.pair_copyable])
    (simp_all add: view_customNetworkRules_def CustomNetworkRules_DeepCopyInto_def struct_copy)

interpretation network_cell: copyable_cell view_customNetworkRules CustomNetworkRules_DeepCopyInto T_CustomNetworkRules
  by (rule copyable_cell.intro [OF customNetworkRules_copyable], unfold_locales) (simp add: T_CustomNetworkRules_def)

lemma customAuthRules_copyable: "copyable view_customAuthRules CustomAuthRules_DeepCopyInto"
  by (rule copyable_struct [where f = ars_Exceptions and upd = "\<lambda>x s. s\<lparr>ars_Exceptions := x\<rparr>"
        and g = "\<lambda>s d. \<lparr>ars_Exceptions = d\<rparr>", OF exception_cell.slice_copyable])
    (simp_all add: view_customAuthRules_def CustomAuthRules_DeepCopyInto_def)

interpretation auth_cell: copyable_cell view_customAuthRules CustomAuthRules_DeepCopyInto T_CustomAuthRules
  by (rule copyable_cell.intro [OF customAuthRules_copyable], unfold_locales) (simp add: T_CustomAuthRules_def)

lemma identityIntegration_copyable: "copyable view_identityIntegration IdentityIntegration_DeepCopyInto"
  by (rule copyable_struct [where f = "\<lambda>s. (iis_Groups s, iis_RoleBindings s)"
        and upd = "\<lambda>(x, y) s. s\<lparr>iis_Groups := x, iis_RoleBindings := y\<rparr>"
        and g = "\<lambda>s (x, y). \<lparr>iis_Groups = x, iis_RoleBindings = y\<rparr>",
        OF copyable_pair [OF strings_map.map_copyable bindings_map.map_copyable]])
    (simp_all add: view_identityIntegration_def IdentityIntegration_DeepCopyInto_def struct_copy)

interpretation identity_cell: copyable_cell view_identityIntegration IdentityIntegration_DeepCopyInto T_IdentityIntegration
  by (rule copyable_cell.intro [OF identityIntegration_copyable], unfold_locales) (simp add: T_IdentityIntegration_def)

lemma accountSpec_copyable: "copyable view_accountSpec SnowflakeAccountSpec_DeepCopyInto"
  by (rule copyable_struct [where f = spec_fields and upd = "\<lambda>x s. spec_with s x" and g = spec_with,
        OF copyable_pair [OF identityIntegration_copyable copyable_pair [OF network_cell.ptr_copyable
          copyable_pair [OF auth_cell.ptr_copyable strings.copyable_axioms]]]])
    (simp_all add: view_accountSpec_def SnowflakeAccountSpec_DeepCopyInto_def struct_copy spec_fields_def spec_with_def)

interpretation spec_cell: copyable_cell view_accountSpec SnowflakeAccountSpec_DeepCopyInto T_AccountSpec
  by (rule copyable_cell.intro [OF accountSpec_copyable], unfold_locales) (simp add: T_AccountSpec_def)

lemma permitSpec_copyable: "copyable view_permitSpec DeletionPermitSpec_DeepCopyInto"
  by (rule copyable_struct [where f = pss_ManagementPolicies and upd = "\<lambda>x s. s\<lparr>pss_ManagementPolicies := x\<rparr>"
        and g = "\<lambda>s d. \<lparr>pss_TargetRef = pss_TargetRef s, pss_Duration = pss_Duration s,
          pss_Reason = pss_Reason s, pss_ManagementPolicies = d\<rparr>", OF strings.copyable_axioms])
    (simp_all add: view_permitSpec_def DeletionPermitSpec_DeepCopyInto_def)

interpretation permitSpec_cell: copyable_cell view_permitSpec DeletionPermitSpec_DeepCopyInto T_PermitSpec
  by (rule copyable_cell.intro [OF permitSpec_copyable], unfold_locales) (simp add: T_PermitSpec_def)

subsection \<open>The objects\<close>

locale copy_library =
  fixes L :: "'x copylib"
  assumes lib: "copylib_ok L"
begin

lemma lib_copyable:
  "copyable (cv_ObjectMeta L) (cl_ObjectMeta L)" "copyable (cv_ListMeta L) (cl_ListMeta L)"
  "copyable (cv_ResourceStatus L) (cl_ResourceStatus L)" "copyable view_time (cl_Time L)"
  using lib by (simp_all add: copylib_ok_def)

text \<open>The guard around \<open>Time.DeepCopy\<close> changes nothing for the specification.\<close>

lemma time_copyable: "copyable view_time (copy_time L)"
proof (rule copyable.intro [OF copyable.axioms(1) [OF lib_copyable(4)]], unfold_locales)
  fix h r d F r' h'
  assume a: "mem_ok h" "view_time h r = Some (d, F)" "copy_time L r h = (r', h')"
  have "grows h h' \<and> fresh_copy view_time h h' r' d"
  proof (cases r)
    case None
    with a show ?thesis by (auto simp: copy_time_def view_time_def view_ptr_def fresh_copy_def grows_refl)
  next
    case (Some p)
    with a(3) have "cl_Time L r h = (r', h')" by (simp add: copy_time_def)
    with copyable.into_grows [OF lib_copyable(4) a(1,2)] copyable.into_copies [OF lib_copyable(4) a(1,2)]
    show ?thesis by blast
  qed
  then show "grows h h'" "fresh_copy view_time h h' r' d" by auto
qed

lemma accountStatus_copyable: "copyable (view_accountStatus L) (SnowflakeAccountStatus_DeepCopyInto L)"
  by (rule copyable_struct [where f = "\<lambda>s. (sts_ResourceStatus s, sts_AccountCreatedAt s)"
        and upd = "\<lambda>x s. status_with s x" and g = status_with,
        OF copyable_pair [OF lib_copyable(3) time_copyable]])
    (simp_all add: view_accountStatus_def SnowflakeAccountStatus_DeepCopyInto_def struct_copy status_with_def)

lemma account_copyable: "copyable (view_account L) (SnowflakeAccount_DeepCopyInto L)"
  by (rule copyable_struct [where f = "\<lambda>s. (sas_ObjectMeta s, sas_Spec s, sas_Status s)"
        and upd = "\<lambda>(m, p, t) s. s\<lparr>sas_ObjectMeta := m, sas_Spec := p, sas_Status := t\<rparr>"
        and g = "\<lambda>s (m, p, t). \<lparr>sas_TypeMeta = sas_TypeMeta s, sas_ObjectMeta = m, sas_Spec = p, sas_Status = t\<rparr>",
        OF copyable_pair [OF lib_copyable(1) copyable_pair [OF accountSpec_copyable accountStatus_copyable]]])
    (simp_all add: view_account_def SnowflakeAccount_DeepCopyInto_def struct_copy)

lemma permitStatus_copyable: "copyable (view_permitStatus L) (DeletionPermitStatus_DeepCopyInto L)"
  by (rule copyable_struct [where f = "\<lambda>s. (pts_ResourceStatus s, pts_ValidUntil s)"
        and upd = "\<lambda>(r, t) s. s\<lparr>pts_ResourceStatus := r, pts_ValidUntil := t\<rparr>"
        and g = "\<lambda>s (r, t). \<lparr>pts_ResourceStatus = r, pts_ValidUntil = t, pts_State = pts_State s\<rparr>",
        OF copyable_pair [OF lib_copyable(3) time_copyable]])
    (simp_all add: view_permitStatus_def DeletionPermitStatus_DeepCopyInto_def struct_copy)

lemma permit_copyable: "copyable (view_permit L) (DeletionPermit_DeepCopyInto L)"
  by (rule copyable_struct [where f = "\<lambda>s. (dps_ObjectMeta s, dps_Spec s, dps_Status s)"
        and upd = "\<lambda>(m, p, t) s. s\<lparr>dps_ObjectMeta := m, dps_Spec := p, dps_Status := t\<rparr>"
        and g = "\<lambda>s (m, p, t). \<lparr>dps_TypeMeta = dps_TypeMeta s, dps_ObjectMeta = m, dps_Spec = p, dps_Status = t\<rparr>",
        OF copyable_pair [OF lib_copyable(1) copyable_pair [OF permitSpec_copyable permitStatus_copyable]]])
    (simp_all add: view_permit_def DeletionPermit_DeepCopyInto_def struct_copy)

lemma account_type: "go_type (T_Account L)"
  by unfold_locales (simp add: T_Account_def)

lemma permit_type: "go_type (T_Permit L)"
  by unfold_locales (simp add: T_Permit_def)

lemma accountList_copyable: "copyable (view_accountList L) (SnowflakeAccountList_DeepCopyInto L)"
  by (rule copyable_struct [where f = "\<lambda>s. (sals_ListMeta s, sals_Items s)"
        and upd = "\<lambda>(m, i) s. s\<lparr>sals_ListMeta := m, sals_Items := i\<rparr>"
        and g = "\<lambda>s (m, i). \<lparr>sals_TypeMeta = sals_TypeMeta s, sals_ListMeta = m, sals_Items = i\<rparr>",
        OF copyable_pair [OF lib_copyable(2)
          copyable_cell.slice_copyable [OF copyable_cell.intro [OF account_copyable account_type]]]])
    (simp_all add: view_accountList_def SnowflakeAccountList_DeepCopyInto_def struct_copy)

lemma permitList_copyable: "copyable (view_permitList L) (DeletionPermitList_DeepCopyInto L)"
  by (rule copyable_struct [where f = "\<lambda>s. (dpls_ListMeta s, dpls_Items s)"
        and upd = "\<lambda>(m, i) s. s\<lparr>dpls_ListMeta := m, dpls_Items := i\<rparr>"
        and g = "\<lambda>s (m, i). \<lparr>dpls_TypeMeta = dpls_TypeMeta s, dpls_ListMeta = m, dpls_Items = i\<rparr>",
        OF copyable_pair [OF lib_copyable(2)
          copyable_cell.slice_copyable [OF copyable_cell.intro [OF permit_copyable permit_type]]]])
    (simp_all add: view_permitList_def DeletionPermitList_DeepCopyInto_def struct_copy)

end

sublocale copy_library \<subseteq> account: copyable_cell "view_account L" "SnowflakeAccount_DeepCopyInto L" "T_Account L"
  by (rule copyable_cell.intro [OF account_copyable account_type])

sublocale copy_library \<subseteq> permit: copyable_cell "view_permit L" "DeletionPermit_DeepCopyInto L" "T_Permit L"
  by (rule copyable_cell.intro [OF permit_copyable permit_type])

sublocale copy_library \<subseteq> accounts: copyable_cell "view_accountList L" "SnowflakeAccountList_DeepCopyInto L" "T_AccountList L"
  by (rule copyable_cell.intro [OF accountList_copyable], unfold_locales) (simp add: T_AccountList_def)

sublocale copy_library \<subseteq> permits: copyable_cell "view_permitList L" "DeletionPermitList_DeepCopyInto L" "T_PermitList L"
  by (rule copyable_cell.intro [OF permitList_copyable], unfold_locales) (simp add: T_PermitList_def)

subsection \<open>\<open>runtime.Object\<close>\<close>

text \<open>The four kinds behind the interface, and the method the scheme and the caches call.\<close>

datatype dobject = DAccount d_account | DAccountList d_accountList | DPermit d_permit | DPermitList d_permitList

definition view_object :: "'x copylib \<Rightarrow> (gobject option, dobject option, 'x cell) view" where
  "view_object L h obj =
     (case obj of None \<Rightarrow> Some (None, {})
      | Some (AccountObject a) \<Rightarrow>
          map_option (\<lambda>(d, F). (map_option DAccount d, F)) (view_ptr (T_Account L) (view_account L) h (Some a))
      | Some (AccountListObject a) \<Rightarrow>
          map_option (\<lambda>(d, F). (map_option DAccountList d, F)) (view_ptr (T_AccountList L) (view_accountList L) h (Some a))
      | Some (PermitObject a) \<Rightarrow>
          map_option (\<lambda>(d, F). (map_option DPermit d, F)) (view_ptr (T_Permit L) (view_permit L) h (Some a))
      | Some (PermitListObject a) \<Rightarrow>
          map_option (\<lambda>(d, F). (map_option DPermitList d, F)) (view_ptr (T_PermitList L) (view_permitList L) h (Some a)))"

text \<open>The call through \<open>runtime.Object\<close>, on an object that points to a struct or on a nil pointer:
  the method of a nil pointer of any kind returns the nil interface (\<open>nil_receiver\<close>), so one case
  stands for the four.  Go panics on a nil interface, which has no method to call; that is no case
  here.\<close>

definition DeepCopyObject :: "'x copylib \<Rightarrow> gobject option \<Rightarrow> 'x cmem \<Rightarrow> gobject option \<times> 'x cmem" where
  "DeepCopyObject L obj h =
     (case obj of None \<Rightarrow> SnowflakeAccount_DeepCopyObject L None h
      | Some (AccountObject a) \<Rightarrow> SnowflakeAccount_DeepCopyObject L (Some a) h
      | Some (AccountListObject a) \<Rightarrow> SnowflakeAccountList_DeepCopyObject L (Some a) h
      | Some (PermitObject a) \<Rightarrow> DeletionPermit_DeepCopyObject L (Some a) h
      | Some (PermitListObject a) \<Rightarrow> DeletionPermitList_DeepCopyObject L (Some a) h)"

lemma nil_receiver:
  "SnowflakeAccount_DeepCopyObject L None h = (None, h)" "SnowflakeAccountList_DeepCopyObject L None h = (None, h)"
  "DeletionPermit_DeepCopyObject L None h = (None, h)" "DeletionPermitList_DeepCopyObject L None h = (None, h)"
  by (simp_all add: SnowflakeAccount_DeepCopyObject_def SnowflakeAccountList_DeepCopyObject_def
      DeletionPermit_DeepCopyObject_def DeletionPermitList_DeepCopyObject_def SnowflakeAccount_DeepCopy_def
      SnowflakeAccountList_DeepCopy_def DeletionPermit_DeepCopy_def DeletionPermitList_DeepCopy_def copy_ptr_def)

lemma copied_ptr:
  assumes "copyable (view_ptr T V) (copy_ptr T into)" and "mem_ok h" and "view_ptr T V h (Some p) = Some (d, F)"
  shows "\<exists>q h' F'. copy_ptr T into (Some p) h = (Some q, h') \<and> grows h h' \<and> view_ptr T V h' (Some q) = Some (d, F') \<and>
    F' \<subseteq> {m_next h..<m_next h'}"
proof -
  have "\<exists>q h'. copy_ptr T into (Some p) h = (Some q, h')" by (simp add: copy_ptr_def case_prod_unfold)
  then obtain q h' where c: "copy_ptr T into (Some p) h = (Some q, h')" by blast
  from copyable.into_grows [OF assms c] copyable.into_copies [OF assms c] c show ?thesis
    unfolding fresh_copy_def by blast
qed

context copy_library
begin

lemmas object_ptrs = account.ptr_copyable accounts.ptr_copyable permit.ptr_copyable permits.ptr_copyable

lemmas DeepCopyObject_defs = DeepCopyObject_def SnowflakeAccount_DeepCopyObject_def SnowflakeAccountList_DeepCopyObject_def
  DeletionPermit_DeepCopyObject_def DeletionPermitList_DeepCopyObject_def SnowflakeAccount_DeepCopy_def
  SnowflakeAccountList_DeepCopy_def DeletionPermit_DeepCopy_def DeletionPermitList_DeepCopy_def

lemma object_viewable: "viewable (view_object L)"
proof
  note v = object_ptrs [THEN copyable.axioms(1)]
  show "view_object L h obj = Some (d, F) \<Longrightarrow> (\<And>a. a \<in> F \<Longrightarrow> m_cells h' a = m_cells h a) \<Longrightarrow>
      view_object L h' obj = Some (d, F)" for h h' obj d F
    using v [THEN viewable.view_local, of h _ _ F h'] 
    by (auto simp: view_object_def split: option.splits gobject.splits)
  show "view_object L h obj = Some (d, F) \<Longrightarrow> a \<in> F \<Longrightarrow> m_cells h a \<noteq> None" for h obj d F a
    using v [THEN viewable.view_alloc, of h _ _ F a] by (auto simp: view_object_def split: option.splits gobject.splits)
qed

lemma object_copyable: "copyable (view_object L) (DeepCopyObject L)"
proof (rule copyable.intro [OF object_viewable], unfold_locales)
  fix h obj d F obj' h'
  assume a: "mem_ok h" "view_object L h obj = Some (d, F)" "DeepCopyObject L obj h = (obj', h')"
  note step = object_ptrs [THEN copied_ptr, OF a(1)]
  have "grows h h' \<and> fresh_copy (view_object L) h h' obj' d"
  proof (cases obj)
    case None
    with a show ?thesis by (auto simp: DeepCopyObject_def nil_receiver view_object_def fresh_copy_def grows_refl)
  next
    case (Some x)
    show ?thesis
    proof (cases x)
      case (AccountObject p)
      with Some a(2) obtain e where e: "view_ptr (T_Account L) (view_account L) h (Some p) = Some (e, F)" "d = map_option DAccount e"
        by (auto simp: view_object_def)
      from step(1) [OF e(1)] Some AccountObject a(3) e(2) show ?thesis
        by (auto simp: DeepCopyObject_defs fresh_copy_def view_object_def)
    next
      case (AccountListObject p)
      with Some a(2) obtain e where e: "view_ptr (T_AccountList L) (view_accountList L) h (Some p) = Some (e, F)" "d = map_option DAccountList e"
        by (auto simp: view_object_def)
      from step(2) [OF e(1)] Some AccountListObject a(3) e(2) show ?thesis
        by (auto simp: DeepCopyObject_defs fresh_copy_def view_object_def)
    next
      case (PermitObject p)
      with Some a(2) obtain e where e: "view_ptr (T_Permit L) (view_permit L) h (Some p) = Some (e, F)" "d = map_option DPermit e"
        by (auto simp: view_object_def)
      from step(3) [OF e(1)] Some PermitObject a(3) e(2) show ?thesis
        by (auto simp: DeepCopyObject_defs fresh_copy_def view_object_def)
    next
      case (PermitListObject p)
      with Some a(2) obtain e where e: "view_ptr (T_PermitList L) (view_permitList L) h (Some p) = Some (e, F)" "d = map_option DPermitList e"
        by (auto simp: view_object_def)
      from step(4) [OF e(1)] Some PermitListObject a(3) e(2) show ?thesis
        by (auto simp: DeepCopyObject_defs fresh_copy_def view_object_def)
    qed
  qed
  then show "grows h h'" "fresh_copy (view_object L) h h' obj' d" by auto
qed

end

subsection \<open>The values the controllers work on\<close>

text \<open>The controllers' model of a resource forgets whether an empty list or map was nil.\<close>

definition elems :: "'a list option \<Rightarrow> 'a list" where
  "elems x = (case x of None \<Rightarrow> [] | Some xs \<Rightarrow> xs)"

definition lookup :: "(string \<Rightarrow> 'a option) option \<Rightarrow> string \<Rightarrow> 'a option" where
  "lookup m = (case m of None \<Rightarrow> Map.empty | Some f \<Rightarrow> f)"

definition api_networkRule :: "d_networkRule \<Rightarrow> networkRule" where
  "api_networkRule d = \<lparr>nr_Connection = nrs_Connection d, nr_AllowedIPs = elems (nrs_AllowedIPs d)\<rparr>"

definition api_customNetworkRules :: "d_customNetworkRules \<Rightarrow> customNetworkRules" where
  "api_customNetworkRules d =
     \<lparr>nw_ServiceUsers = (\<lambda>u. map_option (\<lambda>rs. map api_networkRule (elems rs)) (lookup (nws_ServiceUsers d) u)),
      nw_AccountWide = map api_networkRule (elems (nws_AccountWide d))\<rparr>"

definition api_identityIntegration :: "d_identityIntegration \<Rightarrow> identityIntegration" where
  "api_identityIntegration d =
     \<lparr>ii_Groups = (\<lambda>i. map_option elems (lookup (iis_Groups d) i)), ii_RoleBindings = lookup (iis_RoleBindings d)\<rparr>"

definition api_accountSpec :: "d_accountSpec \<Rightarrow> accountSpec" where
  "api_accountSpec d =
     \<lparr>as_Description = ass_Description d, as_Contact = ass_Contact d, as_Region = ass_Region d,
      as_Environment = ass_Environment d, as_CreditQuota = ass_CreditQuota d,
      as_IdentityIntegration = api_identityIntegration (ass_IdentityIntegration d),
      as_CustomNetworkRules = map_option api_customNetworkRules (ass_CustomNetworkRules d),
      as_CustomAuthRules = map_option (\<lambda>r. \<lparr>ar_Exceptions = elems (ars_Exceptions r)\<rparr>) (ass_CustomAuthRules d),
      as_ManagementPolicies = elems (ass_ManagementPolicies d)\<rparr>"

definition api_account :: "d_account \<Rightarrow> snowflakeAccount" where
  "api_account d =
     \<lparr>sa_Meta = sas_ObjectMeta d, sa_Spec = api_accountSpec (sas_Spec d),
      sa_Status = \<lparr>st_Conditions = fst (sts_ResourceStatus (sas_Status d)),
        st_ObservedGeneration = snd (sts_ResourceStatus (sas_Status d)),
        st_AccountName = sts_AccountName (sas_Status d), st_AccountLocator = sts_AccountLocator (sas_Status d),
        st_AccountCreatedAt = sts_AccountCreatedAt (sas_Status d), st_AccountURL = sts_AccountURL (sas_Status d)\<rparr>\<rparr>"

definition read_account :: "'x copylib \<Rightarrow> 'x cmem \<Rightarrow> addr \<Rightarrow> snowflakeAccount option" where
  "read_account L h a =
     (case go_peek (T_Account L) h a of None \<Rightarrow> None
      | Some v \<Rightarrow> map_option (\<lambda>(d, F). api_account d) (view_account L h v))"

subsection \<open>A library with that contract\<close>

text \<open>Metadata by value, conditions behind a slice.\<close>

datatype sample_lib = SMeta objectMeta | SListMeta listMeta | SStatus slice int | SCondition condition

definition T_Condition :: "(condition, sample_lib cell) gotype" where
  "T_Condition =
     \<lparr>gt_cell = (\<lambda>c. CLib (SCondition c)),
      gt_val = (\<lambda>x. case x of CLib y \<Rightarrow> (case y of SCondition c \<Rightarrow> Some c | _ \<Rightarrow> None) | _ \<Rightarrow> None),
      gt_zero = \<lparr>cd_Type = [], cd_Status = [], cd_Reason = [], cd_Message = []\<rparr>\<rparr>"

definition sample_copylib :: "sample_lib copylib" where
  "sample_copylib =
     \<lparr>cl_zero = SStatus None 0, cl_ObjectMeta = copy_value, cl_ListMeta = copy_value,
      cl_ResourceStatus = (\<lambda>x h. case x of
         SStatus s g \<Rightarrow> (case copy_slice T_Condition copy_value s h of (s', h1) \<Rightarrow> (SStatus s' g, h1))
       | _ \<Rightarrow> (x, h)),
      cl_Time = copy_ptr T_Time copy_value,
      cv_ObjectMeta = (\<lambda>h x. case x of SMeta m \<Rightarrow> Some (m, {}) | _ \<Rightarrow> None),
      cv_ListMeta = (\<lambda>h x. case x of SListMeta m \<Rightarrow> Some (m, {}) | _ \<Rightarrow> None),
      cv_ResourceStatus = (\<lambda>h x. case x of
         SStatus s g \<Rightarrow> map_option (\<lambda>(d, F). ((elems d, g), F)) (view_slice T_Condition view_value h s)
       | _ \<Rightarrow> None)\<rparr>"

interpretation condition_cell: copyable_cell view_value copy_value T_Condition
  by unfold_locales (simp add: T_Condition_def)

lemma sample_status_copyable: "copyable (cv_ResourceStatus sample_copylib) (cl_ResourceStatus sample_copylib)"
proof
  note c = condition_cell.slice_copyable
  note v = c [THEN copyable.axioms(1)]
  show "cv_ResourceStatus sample_copylib h x = Some (d, F) \<Longrightarrow> (\<And>a. a \<in> F \<Longrightarrow> m_cells h' a = m_cells h a) \<Longrightarrow>
      cv_ResourceStatus sample_copylib h' x = Some (d, F)" for h h' x d F
    using viewable.view_local [OF v, of h _ _ F h'] by (auto simp: sample_copylib_def split: sample_lib.splits)
  show "cv_ResourceStatus sample_copylib h x = Some (d, F) \<Longrightarrow> a \<in> F \<Longrightarrow> m_cells h a \<noteq> None" for h x d F a
    using viewable.view_alloc [OF v, of h _ _ F a] by (auto simp: sample_copylib_def split: sample_lib.splits)
  fix h x d F x' h'
  assume a: "mem_ok h" "cv_ResourceStatus sample_copylib h x = Some (d, F)"
    "cl_ResourceStatus sample_copylib x h = (x', h')"
  then obtain s g e s' where s: "x = SStatus s g" "view_slice T_Condition view_value h s = Some (e, F)" "d = (elems e, g)"
      "copy_slice T_Condition copy_value s h = (s', h')" "x' = SStatus s' g"
    by (auto simp: sample_copylib_def split: sample_lib.splits prod.splits)
  show "grows h h'" by (rule copyable.into_grows [OF c a(1) s(2,4)])
  from copyable.into_copies [OF c a(1) s(2,4)] show "fresh_copy (cv_ResourceStatus sample_copylib) h h' x' d"
    using s(3,5) by (auto simp: fresh_copy_def sample_copylib_def)
qed

lemma sample_copylib_ok: "copylib_ok sample_copylib"
proof -
  have "copyable (cv_ObjectMeta sample_copylib) (cl_ObjectMeta sample_copylib)"
    "copyable (cv_ListMeta sample_copylib) (cl_ListMeta sample_copylib)"
    by (unfold_locales; auto simp: sample_copylib_def copy_value_def fresh_copy_def grows_refl split: sample_lib.splits)+
  with sample_status_copyable time_cell.ptr_copyable show ?thesis
    by (simp add: copylib_ok_def view_time_def) (simp add: sample_copylib_def)
qed

interpretation sample_library: copy_library sample_copylib
  by unfold_locales (rule sample_copylib_ok)


text \<open>An account in a cache, with a shared backing array, a nil entry in a map and a condition.\<close>

definition cached_account :: "sample_lib m_account" where
  "cached_account =
     \<lparr>sas_TypeMeta = zero_typeMeta,
      sas_ObjectMeta = SMeta \<lparr>om_Name = ''acct'', om_Namespace = ''ns'', om_Generation = 1, om_CreationTimestamp = 0,
        om_DeletionTimestamp = None\<rparr>,
      sas_Spec = zero_accountSpec\<lparr>ass_IdentityIntegration := \<lparr>iis_Groups = None, iis_RoleBindings = Some 4\<rparr>,
        ass_CustomNetworkRules := Some 3\<rparr>,
      sas_Status = \<lparr>sts_ResourceStatus = SStatus (Some (5, 1)) 1, sts_AccountName = [], sts_AccountLocator = [],
        sts_AccountCreatedAt = Some 6, sts_AccountURL = []\<rparr>\<rparr>"

definition cache :: "sample_lib cmem" where
  "cache =
     \<lparr>m_cells = [0 \<mapsto> CString ''10.0.0.0/8'',
        1 \<mapsto> CNetworkRule \<lparr>nrs_Connection = ''vpn'', nrs_AllowedIPs = Some (0, 1)\<rparr>,
        2 \<mapsto> CSliceMap [(''etl'', Some (1, 1)), (''bi'', None)],
        3 \<mapsto> CCustomNetworkRules \<lparr>nws_ServiceUsers = Some 2, nws_AccountWide = Some (1, 1)\<rparr>,
        4 \<mapsto> CStringMap [(''ACCOUNTADMIN'', ''g'')],
        5 \<mapsto> CLib (SCondition \<lparr>cd_Type = ''Ready'', cd_Status = ''True'', cd_Reason = [], cd_Message = []\<rparr>),
        6 \<mapsto> CTime 7, 7 \<mapsto> CAccount cached_account],
      m_next = 8\<rparr>"

lemma cache_ok: "mem_ok cache"
  by (simp add: mem_ok_def cache_def)

lemmas cell_types = T_String_def T_Time_def T_StringMap_def T_SliceMap_def T_NetworkRule_def T_CustomNetworkRules_def
  T_Account_def T_Condition_def

lemma cache_view: "\<exists>d F. view_account sample_copylib cache cached_account = Some (d, F)"
  by (simp add: view_account_def view_accountSpec_def view_accountStatus_def pair_view_def cached_account_def
      sample_copylib_def spec_fields_def zero_accountSpec_def view_identityIntegration_def view_map_def view_ptr_def
      view_customNetworkRules_def view_rules_def view_networkRule_def view_strings_def view_slice_def view_time_def
      go_peek_def cache_def cell_types view_value_def)

lemma cache_peek: "go_peek (T_Account sample_copylib) cache 7 = Some cached_account"
  by (simp add: go_peek_def cache_def cell_types)

lemma cache_object: "\<exists>d F. view_object sample_copylib cache (Some (AccountObject 7)) = Some (d, F)"
  using cache_view cache_peek by (auto simp: view_object_def view_ptr_def)

subsection \<open>Properties\<close>

text \<open>C24: The generated code for the spec structs, which embed no library struct, is a deep copy without
  any assumption: from any well-formed memory the copy denotes the same value, nil slices and
  nil maps included, on cells allocated by the copy, and every older cell is unchanged.\<close>

theorem specs_deep_copied:
  "copyable view_accountSpec SnowflakeAccountSpec_DeepCopyInto \<and>
   copyable view_identityIntegration IdentityIntegration_DeepCopyInto \<and>
   copyable view_customNetworkRules CustomNetworkRules_DeepCopyInto \<and>
   copyable view_networkRule NetworkRule_DeepCopyInto \<and>
   copyable view_customAuthRules CustomAuthRules_DeepCopyInto \<and>
   copyable view_permitSpec DeletionPermitSpec_DeepCopyInto"
  by (intro conjI accountSpec_copyable identityIntegration_copyable customNetworkRules_copyable networkRule_copyable
      customAuthRules_copyable permitSpec_copyable)

text \<open>C23: DeepCopyObject of every registered kind returns an object of the same kind and value that
  shares no cell with the original: the memory of the original is untouched, whatever is written
  later outside the copy's cells leaves the copy as it is, and whatever is written outside the
  original's leaves the original as it is.  The method of a nil pointer returns nil.\<close>

theorem DeepCopyObject_isolated:
  assumes "copylib_ok L" and "mem_ok h" and "view_object L h obj = Some (d, F)" and "DeepCopyObject L obj h = (obj', h')"
  shows "isolated (view_object L) h obj h' obj' \<and> (obj' = None \<longleftrightarrow> obj = None)"
proof -
  have c: "copyable (view_object L) (DeepCopyObject L)"
    by (rule copy_library.object_copyable [OF copy_library.intro [OF assms(1)]])
  from copyable.copy_isolated [OF c assms(2-4)] have i: "isolated (view_object L) h obj h' obj'" .
  then obtain e E E' where "view_object L h obj = Some (e, E)" "view_object L h' obj' = Some (e, E')"
    unfolding isolated_def by blast
  then have "obj' = None \<longleftrightarrow> obj = None"
    by (auto simp: view_object_def view_ptr_def split: option.splits gobject.splits)
  with i show ?thesis ..
qed

lemma DeepCopyObject_isolated_witness:
  "\<exists>obj' h'. DeepCopyObject sample_copylib (Some (AccountObject 7)) cache = (Some obj', h') \<and>
     isolated (view_object sample_copylib) cache (Some (AccountObject 7)) h' (Some obj')"
proof -
  obtain d F where v: "view_object sample_copylib cache (Some (AccountObject 7)) = Some (d, F)" using cache_object by blast
  obtain r h' where c: "DeepCopyObject sample_copylib (Some (AccountObject 7)) cache = (r, h')" by fastforce
  from DeepCopyObject_isolated [OF sample_copylib_ok cache_ok v c] c show ?thesis by (cases r) auto
qed

text \<open>What the controllers do to a copied account never shows in the cache it came from: the copy
  reads as the same account, and after overwriting the copy with any account value, the cached
  one still reads as before.\<close>

theorem cached_account_unaffected:
  assumes "copylib_ok L" and "mem_ok h" and "read_account L h a = Some acct"
    and "SnowflakeAccount_DeepCopy L (Some a) h = (r, h')"
  shows "\<exists>q. r = Some q \<and> q \<noteq> a \<and> read_account L h' q = Some acct \<and> read_account L h' a = Some acct \<and>
    (\<forall>v. read_account L (go_store (T_Account L) q v h') a = Some acct)"
proof -
  note lib = copy_library.intro [OF assms(1)]
  note v = copyable.axioms(1) [OF copy_library.account_copyable [OF lib]]
  from assms(3) obtain x d F where x: "go_peek (T_Account L) h a = Some x" "view_account L h x = Some (d, F)" "acct = api_account d"
    by (auto simp: read_account_def split: option.splits)
  then have p: "view_ptr (T_Account L) (view_account L) h (Some a) = Some (Some d, insert a F)"
    by (simp add: view_ptr_def)
  from copied_ptr [OF copy_library.object_ptrs(1) [OF lib] assms(2) p] assms(4) obtain q F'
    where q: "r = Some q" "grows h h'" "view_ptr (T_Account L) (view_account L) h' (Some q) = Some (Some d, F')"
      "F' \<subseteq> {m_next h..<m_next h'}"
    by (auto simp: SnowflakeAccount_DeepCopy_def)
  have "q \<in> F'" using q(3) by (auto simp: view_ptr_def split: option.splits)
  with q(4) have "m_next h \<le> q" by auto
  then have qa: "q \<noteq> a" "q \<notin> F"
    using peek_grows(3) [OF assms(2) x(1) q(2)] viewable.view_bound [OF v assms(2) x(2)] by force+
  have stays: "read_account L h'' a = Some acct" if "\<And>b. b \<in> insert a F \<Longrightarrow> m_cells h'' b = m_cells h b" for h''
    using x peek_eq [OF that [of a], of "T_Account L"] viewable.view_local [OF v x(2), of h''] that
    by (simp add: read_account_def)
  have old: "m_cells h' b = m_cells h b" if "b \<in> insert a F" for b
    using that viewable.view_bound [OF v assms(2) x(2)] peek_grows(3) [OF assms(2) x(1) q(2)] grows_cell [OF q(2), of b]
    by auto
  have "read_account L h' q = Some acct"
    using q(3) x(3) by (auto simp: view_ptr_def read_account_def split: option.splits)
  moreover have "read_account L (go_store (T_Account L) q v h') a = Some acct" for v
    by (rule stays) (use qa old in auto)
  ultimately show ?thesis using q(1) qa(1) stays [OF old] by blast
qed

lemma cached_account_unaffected_witness:
  "\<exists>acct q h'. SnowflakeAccount_DeepCopy sample_copylib (Some 7) cache = (Some q, h') \<and>
     read_account sample_copylib h' q = Some acct \<and>
     read_account sample_copylib (go_store (T_Account sample_copylib) q cached_account h') 7 = Some acct"
proof -
  obtain d F where "view_account sample_copylib cache cached_account = Some (d, F)" using cache_view by blast
  with cache_peek have r: "read_account sample_copylib cache 7 = Some (api_account d)" by (simp add: read_account_def)
  obtain r h' where c: "SnowflakeAccount_DeepCopy sample_copylib (Some 7) cache = (r, h')" by fastforce
  from cached_account_unaffected [OF sample_copylib_ok cache_ok r c] c show ?thesis by blast
qed

end
