(* ===== verification/E2E_Support.thy ===== *)
theory E2E_Support
  imports Startup Admission Deletion "HOL-Library.Char_ord" "HOL-Library.List_Lexorder"
begin

text \<open>
  Package \<open>e2e/support\<close>: what the end-to-end tests share.  The configuration they read with
  the operator's own loaders, the polling loop, the namespace of a run with its accounts and
  its clean-up, the sweep of namespaces earlier runs left behind, the start-up checks, the
  look-ups in Snowflake and AWS, and the fixtures.  The Kubernetes, STS and Secrets Manager
  clients are the record \<open>e2e_clients\<close>.  The connection pool is the operator's own (Pool).
  A listing that is only checked for its error (\<open>client.Limit(1)\<close>) is the full listing.  What
  a call changes in the cluster is appended to the ghost list \<open>e_calls\<close>.  Every loop
  that polls is an option: \<open>None\<close> is a loop that does not end.
\<close>

subsection \<open>Configuration (config.go)\<close>

definition DefaultMaxAccounts :: int where "DefaultMaxAccounts = 10"
definition HardMaxAccounts :: int where "HardMaxAccounts = 10"
definition snowflakeLabelLimit :: int where "snowflakeLabelLimit = 63"

record e2e_config =
  ec_Dir :: string
  ec_Base :: config
  ec_Backplane :: backplane
  ec_MaxAccounts :: int

text \<open>\<open>filepath.Dir\<close> and \<open>filepath.Join\<close> on the clean absolute paths they are used on.\<close>

definition path_dir :: "string \<Rightarrow> string" where
  "path_dir d =
     (let up = rev (drop 1 (dropWhile (\<lambda>c. c \<noteq> CHR ''/'') (rev d))) in if up = [] then ''/'' else up)"

lemma path_dir_shorter: "path_dir d \<noteq> ''/'' \<Longrightarrow> length (path_dir d) < length d"
proof -
  assume "path_dir d \<noteq> ''/''"
  then have up: "path_dir d = rev (drop 1 (dropWhile (\<lambda>c. c \<noteq> CHR ''/'') (rev d)))"
      "drop 1 (dropWhile (\<lambda>c. c \<noteq> CHR ''/'') (rev d)) \<noteq> []"
    by (auto simp: path_dir_def Let_def split: if_splits)
  have "length (dropWhile (\<lambda>c. c \<noteq> CHR ''/'') (rev d)) \<le> length d"
    by (metis length_dropWhile_le length_rev)
  with up show ?thesis by simp
qed

lemma path_dir_root [simp]: "path_dir ''/'' = ''/''"
  by (simp add: path_dir_def)

definition path_join :: "string \<Rightarrow> string \<Rightarrow> string" where
  "path_join d n = (if d = ''/'' then d @ n else d @ ''/'' @ n)"

definition no_gomod_error :: gerror where
  "no_gomod_error = plain_error ''go.mod not found above the working directory; set E2E_CONFIG_DIR''"

function find_root :: "(string \<Rightarrow> bool) \<Rightarrow> string \<Rightarrow> string result" where
  "find_root stat dir =
     (if stat (path_join dir ''go.mod'') then Inr dir
      else if path_dir dir = dir then Inl no_gomod_error
      else find_root stat (path_dir dir))"
  by pat_completeness auto
termination
  by (relation "measure (\<lambda>(stat, dir). if dir = ''/'' then 0 else Suc (length dir))")
    (auto simp: path_dir_shorter)

definition repoRoot :: "string result \<Rightarrow> (string \<Rightarrow> bool) \<Rightarrow> string result" where
  "repoRoot getwd stat = and_then getwd (find_root stat)"

record config_env =
  cf_Getenv :: "string \<Rightarrow> string"
  cf_Getwd :: "string result"
  cf_Stat :: "string \<Rightarrow> bool"
    \<comment> \<open>\<open>os.Stat\<close> finds the file\<close>
  cf_base :: base_io
  cf_backplane :: backplane_io

definition max_accounts_error :: "string \<Rightarrow> gerror" where
  "max_accounts_error v =
     plain_error (''E2E_MAX_ACCOUNTS must be an integer from 1 to '' @ show_int HardMaxAccounts @
       '', got '' @ quote_go v)"

definition max_accounts :: "string \<Rightarrow> int result" where
  "max_accounts v =
     (if v = [] then Inr DefaultMaxAccounts
      else case atoi v of
        None \<Rightarrow> Inl (max_accounts_error v)
      | Some n \<Rightarrow> if n < 1 \<or> n > HardMaxAccounts then Inl (max_accounts_error v) else Inr n)"

definition LoadConfig :: "config_env \<Rightarrow> e2e_config result" where
  "LoadConfig F =
     and_then
       (if cf_Getenv F ''E2E_CONFIG_DIR'' = []
        then and_then (repoRoot (cf_Getwd F) (cf_Stat F)) (\<lambda>root.
               Inr (path_join (path_join root ''_output'') ''config''))
        else Inr (cf_Getenv F ''E2E_CONFIG_DIR'')) (\<lambda>dir.
     (case base_Load (cf_base F) dir of
        Inl e \<Rightarrow> Inl (wrap (''reading base.yaml from '' @ dir @
          '' (run `make dev` once to generate it, or set E2E_CONFIG_DIR): '') e)
      | Inr b \<Rightarrow>
          (case backplane_Load (cf_backplane F) dir of
             Inl e \<Rightarrow> Inl (wrap (''reading backplane.yaml from '' @ dir @ '': '') e)
           | Inr bp \<Rightarrow>
               and_then (max_accounts (cf_Getenv F ''E2E_MAX_ACCOUNTS'')) (\<lambda>n.
               Inr \<lparr>ec_Dir = dir, ec_Base = b, ec_Backplane = bp, ec_MaxAccounts = n\<rparr>))))"

definition ec_Org :: "e2e_config \<Rightarrow> string" where
  "ec_Org c = sf_Org (cfg_Snowflake (ec_Base c))"

definition ec_OrgAdminAccount :: "e2e_config \<Rightarrow> string" where
  "ec_OrgAdminAccount c = sf_OrgAdminAccount (cfg_Snowflake (ec_Base c))"

text \<open>\<open>names\<close> are the keys of the region map in the order the range visits them.\<close>

definition AvailableRegion :: "string list \<Rightarrow> e2e_config \<Rightarrow> string result" where
  "AvailableRegion names c =
     (let available = filter (\<lambda>n. case bp_Regions (ec_Backplane c) n of
            None \<Rightarrow> False | Some r \<Rightarrow> rg_Available r) names in
      if available = []
      then Inl (plain_error (''no region is marked available in backplane.yaml in '' @ ec_Dir c))
      else Inr (hd (sort available)))"

definition unknown_region_name :: "nat \<Rightarrow> string" where
  "unknown_region_name i = ''aws-e2e-unknown-'' @ show_nat i"

partial_function (option) unknown_region_from :: "backplane \<Rightarrow> string \<Rightarrow> nat \<Rightarrow> string option" where
  "unknown_region_from bp name i =
     (if bp_Regions bp name = None then Some name
      else unknown_region_from bp (unknown_region_name i) (i + 1))"

definition UnknownRegion :: "e2e_config \<Rightarrow> string option" where
  "UnknownRegion c = unknown_region_from (ec_Backplane c) ''aws-e2e-unknown-1'' 2"

definition MaxAccountNameLength :: "e2e_config \<Rightarrow> string \<Rightarrow> int" where
  "MaxAccountNameLength c namespace =
     (let suffixLen = int (length (ResolveName ''a'' namespace)) - 1
      in snowflakeLabelLimit - 1 - int (length (ec_Org c)) - suffixLen)"

subsection \<open>Polling (wait.go)\<close>

text \<open>What the \<open>select\<close> between two attempts finds: the next tick, the timeout, or a parent
  context that is done.\<close>

datatype wait = Tick | TimedOut | Interrupted

partial_function (option) poll_loop ::
  "('s \<Rightarrow> wait \<times> 's) \<Rightarrow> (gerror option \<Rightarrow> gerror) \<Rightarrow> gerror \<Rightarrow> ('s \<Rightarrow> (bool \<times> gerror option) \<times> 's)
     \<Rightarrow> gerror option \<Rightarrow> 's \<Rightarrow> (gerror option \<times> 's) option" where
  "poll_loop sel timedOut interrupted cond lastErr s =
     (case cond s of ((ok, err), s1) \<Rightarrow>
        if err = None \<and> ok then Some (None, s1)
        else let lastErr1 = (case err of None \<Rightarrow> lastErr | Some e \<Rightarrow> Some e) in
          (case sel s1 of (w, s2) \<Rightarrow>
             if w = Tick then poll_loop sel timedOut interrupted cond lastErr1 s2
             else if w = Interrupted then Some (Some interrupted, s2)
             else Some (Some (timedOut lastErr1), s2)))"

definition timed_out_error :: "string \<Rightarrow> string \<Rightarrow> gerror option \<Rightarrow> gerror" where
  "timed_out_error timeout what lastErr =
     (case lastErr of
        Some e \<Rightarrow> Errorf (''timed out after '' @ timeout @ '' waiting for '' @ what @ '' (last error: '' @
          err_text e @ '')'') [e]
      | None \<Rightarrow> plain_error (''timed out after '' @ timeout @ '' waiting for '' @ what))"

definition Poll ::
  "('s \<Rightarrow> wait \<times> 's) \<Rightarrow> string \<Rightarrow> string \<Rightarrow> ('s \<Rightarrow> (bool \<times> gerror option) \<times> 's) \<Rightarrow> 's
     \<Rightarrow> (gerror option \<times> 's) option" where
  "Poll sel timeout what cond s =
     poll_loop sel (timed_out_error timeout what)
       (plain_error (''interrupted while waiting for '' @ what)) cond None s"

subsection \<open>State\<close>

datatype e2e_call =
    CreateNamespaceCall string
  | DeleteNamespaceCall string
  | CreatePermitCall string string
  | CreateAccountCall string string
  | DeleteAccountCall string string
  | ListAccountsCall string "string list result"

text \<open>A fixture: the fields a \<open>sync.Once\<close> guards are \<open>None\<close> until it has run.\<close>

record fixture =
  fx_Name :: string
  fx_build :: snowflakeAccount
  fx_start :: "snowflakeAccount result option"
  fx_ready :: "(snowflakeAccount option \<times> gerror option) option"
  fx_delete :: "gerror option option"

record 'w e2e_sys = "'w pool_sys" +
  e_Namespace :: string
  e_fixtures :: "(string \<times> fixture) list"
  e_started :: int
  e_store :: "'w awsKeyStore result option"
    \<comment> \<open>\<open>poolOnce\<close>: the key store the pool was opened with, or \<open>poolErr\<close>\<close>
  e_calls :: "e2e_call list"

record namespaceInfo =
  ni_Name :: string
  ni_CreationTimestamp :: time
  ni_Deleting :: bool

record ('w, 'cfg) e2e_clients =
  ek_CreateNamespace :: "string \<Rightarrow> (string \<times> string) list \<Rightarrow> 'w \<Rightarrow> gerror option \<times> 'w"
  ek_DeleteNamespace :: "string \<Rightarrow> 'w \<Rightarrow> gerror option \<times> 'w"
  ek_ListNamespaces :: "'w \<Rightarrow> namespaceInfo list result \<times> 'w"
  ek_CreatePermit :: "deletionPermit \<Rightarrow> 'w \<Rightarrow> gerror option \<times> 'w"
  ek_GetPermit :: "string \<Rightarrow> string \<Rightarrow> 'w \<Rightarrow> deletionPermit result \<times> 'w"
  ek_ListPermits :: "string \<Rightarrow> 'w \<Rightarrow> gerror option \<times> 'w"
  ek_CreateAccount :: "snowflakeAccount \<Rightarrow> 'w \<Rightarrow> gerror option \<times> 'w"
  ek_GetAccount :: "string \<Rightarrow> string \<Rightarrow> 'w \<Rightarrow> snowflakeAccount result \<times> 'w"
  ek_DeleteAccount :: "string \<Rightarrow> string \<Rightarrow> 'w \<Rightarrow> gerror option \<times> 'w"
  ek_ListAccounts :: "string \<Rightarrow> 'w \<Rightarrow> snowflakeAccount list result \<times> 'w"
  ek_IsNotFound :: "gerror \<Rightarrow> bool"
  ek_IsAlreadyExists :: "gerror \<Rightarrow> bool"
  ek_CallerIdentity :: "'w \<Rightarrow> string result \<times> 'w"
  ek_DescribeSecret :: "string \<Rightarrow> 'w \<Rightarrow> time option result \<times> 'w"
    \<comment> \<open>the deletion date of the secret\<close>
  ek_loadConfig :: "string \<Rightarrow> 'cfg result"
  ek_newFromConfig :: "'cfg \<Rightarrow> 'w aws_client"
  ek_select :: "'w \<Rightarrow> wait \<times> 'w"
  ek_Intn :: "nat \<Rightarrow> 'w \<Rightarrow> nat \<times> 'w"
  ek_stamp :: "time \<Rightarrow> string"
    \<comment> \<open>\<open>Format("20060102150405")\<close>\<close>

text \<open>\<open>Env\<close>, without the fields that change, which are in the state.\<close>

record ('w, 'cfg) e2e =
  en_Cfg :: e2e_config
  en_Region :: string
  en_cl :: "('w, 'cfg) e2e_clients"

definition kcall ::
  "('a \<Rightarrow> e2e_call) \<Rightarrow> ('w \<Rightarrow> 'a \<times> 'w) \<Rightarrow> ('w, 'z) e2e_sys_scheme \<Rightarrow> 'a \<times> ('w, 'z) e2e_sys_scheme" where
  "kcall mk f s =
     (case local_call f s of (r, s1) \<Rightarrow> (r, s1\<lparr>e_calls := e_calls s1 @ [mk r]\<rparr>))"

definition e_select :: "('w, 'cfg) e2e \<Rightarrow> ('w, 'z) sys_scheme \<Rightarrow> wait \<times> ('w, 'z) sys_scheme" where
  "e_select e s = local_call (ek_select (en_cl e)) s"

text \<open>A condition that also sets a variable of the caller works on the state paired with it.\<close>

definition with_var :: "('s \<Rightarrow> 'a \<times> 's) \<Rightarrow> 's \<times> 'v \<Rightarrow> 'a \<times> ('s \<times> 'v)" where
  "with_var f sv = (case sv of (s, v) \<Rightarrow> (case f s of (r, s1) \<Rightarrow> (r, (s1, v))))"

definition show_hex4 :: "nat \<Rightarrow> string" where
  "show_hex4 n =
     [hex_digit (n div 4096 mod 16), hex_digit (n div 256 mod 16), hex_digit (n div 16 mod 16),
      hex_digit (n mod 16)]"

subsection \<open>Accounts and conditions (env.go, fixtures.go)\<close>

definition zero_meta :: "string \<Rightarrow> string \<Rightarrow> objectMeta" where
  "zero_meta name namespace =
     \<lparr>om_Name = name, om_Namespace = namespace, om_Generation = 0, om_CreationTimestamp = zero_time,
      om_DeletionTimestamp = None\<rparr>"

definition zero_accountStatus :: accountStatus where
  "zero_accountStatus =
     \<lparr>st_Conditions = [], st_ObservedGeneration = 0, st_AccountName = [], st_AccountLocator = [],
      st_AccountCreatedAt = None, st_AccountURL = []\<rparr>"

definition NewAccount :: "string \<Rightarrow> string \<Rightarrow> string \<Rightarrow> snowflakeAccount" where
  "NewAccount name namespace region =
     \<lparr>sa_Meta = zero_meta name namespace,
      sa_Spec =
        \<lparr>as_Description = [], as_Contact = ''e2e@example.com'', as_Region = region,
         as_Environment = ''dev'', as_CreditQuota = 1,
         as_IdentityIntegration =
           \<lparr>ii_Groups = [''giam'' \<mapsto> [''E2E_GROUP'']], ii_RoleBindings = [''ACCOUNTADMIN'' \<mapsto> ''E2E_GROUP'']\<rparr>,
         as_CustomNetworkRules = None, as_CustomAuthRules = None, as_ManagementPolicies = []\<rparr>,
      sa_Status = zero_accountStatus\<rparr>"

definition condition_text :: "condition \<Rightarrow> string" where
  "condition_text c =
     cd_Type c @ ''='' @ cd_Status c @ '' ('' @ cd_Reason c @ '': '' @ cd_Message c @ '')''"

definition DescribeConditions :: "snowflakeAccount \<Rightarrow> string" where
  "DescribeConditions a =
     (let parts = map condition_text (st_Conditions (sa_Status a)) in
      if parts = [] then ''no conditions yet'' else str_join ''; '' parts)"

subsection \<open>Snowflake (snowflake.go)\<close>

definition e2e_key_manager :: "('w, 'cfg) e2e \<Rightarrow> 'w awsKeyStore \<Rightarrow> 'w key_manager" where
  "e2e_key_manager e store =
     NewKeyManager (aws_key_store store) (sec_CacheTTL (cfg_Secrets (ec_Base (en_Cfg e))))"

text \<open>The body of \<open>poolOnce.Do\<close>.\<close>

definition open_pool ::
  "('w, 'cfg) e2e \<Rightarrow> ('w, 'z) e2e_sys_scheme \<Rightarrow> 'w awsKeyStore result \<times> ('w, 'z) e2e_sys_scheme" where
  "open_pool e s =
     (case e_store s of
        Some r \<Rightarrow> (r, s)
      | None \<Rightarrow>
          let base = ec_Base (en_Cfg e) in
          (case aws_New (ek_loadConfig (en_cl e)) (ek_newFromConfig (en_cl e)) (aws_Region (cfg_AWS base))
                  (aws_KmsKeyId (cfg_AWS base)) (del_GracePeriodDays (cfg_Deletion base)) s of
             (Inl err, s1) \<Rightarrow>
               let r = Inl (wrap ''creating the AWS key store: '' err) in (r, s1\<lparr>e_store := Some r\<rparr>)
           | (Inr store, s1) \<Rightarrow> (Inr store, s1\<lparr>e_store := Some (Inr store)\<rparr>)))"

definition e2e_pool ::
  "'w env \<Rightarrow> ('w, 'cfg) e2e \<Rightarrow> 'w awsKeyStore \<Rightarrow> ('w, ('w, 'z) pool_sys_scheme) pool" where
  "e2e_pool E e store = pool_New E (e2e_key_manager e store) (ec_Base (en_Cfg e))"

definition orgAdminDB ::
  "'w env \<Rightarrow> ('w, 'cfg) e2e \<Rightarrow> ('w, 'z) e2e_sys_scheme \<Rightarrow> db result \<times> ('w, 'z) e2e_sys_scheme" where
  "orgAdminDB E e s =
     (case open_pool e s of
        (Inl err, s1) \<Rightarrow> (Inl err, s1)
      | (Inr store, s1) \<Rightarrow> OrgAdminDB E (e2e_pool E e store) s1)"

definition AccountRow ::
  "'w env \<Rightarrow> ('w, 'cfg) e2e \<Rightarrow> string \<Rightarrow> ('w, 'z) e2e_sys_scheme
     \<Rightarrow> row option result \<times> ('w, 'z) e2e_sys_scheme" where
  "AccountRow E e resolvedName s =
     (case orgAdminDB E e s of
        (Inl err, s1) \<Rightarrow> (Inl (wrap ''connecting to Snowflake as the org admin: '' err), s1)
      | (Inr d, s1) \<Rightarrow>
          (case runner_Query (statement_New (db_executor E d)) ''e2e: look up the account''
                  show_accounts_sql [resolvedName] s1 of
             (Inl err, s2) \<Rightarrow> (Inl err, s2)
           | (Inr res, s2) \<Rightarrow> (Inr (FindRow res ''account_name'' resolvedName), s2)))"

definition e2e_Close ::
  "'w env \<Rightarrow> ('w, 'z) e2e_sys_scheme \<Rightarrow> ('w, 'z) e2e_sys_scheme" where
  "e2e_Close E s =
     (case e_store s of
        Some (Inr store) \<Rightarrow> (case pool_Close E s of (_, s1) \<Rightarrow> s1)
      | _ \<Rightarrow> s)"

definition PlatformEmail ::
  "'w env \<Rightarrow> ('w, 'cfg) e2e \<Rightarrow> snowflakeAccount \<Rightarrow> ('w, 'z) e2e_sys_scheme
     \<Rightarrow> string result \<times> ('w, 'z) e2e_sys_scheme" where
  "PlatformEmail E e account s =
     (case orgAdminDB E e s of
        (Inl err, s1) \<Rightarrow> (Inl err, s1)
      | (Inr _, s1) \<Rightarrow>
          (case e_store s1 of
             Some (Inr store) \<Rightarrow>
               (case TenantDB E (e2e_pool E e store) (om_Namespace (sa_Meta account))
                       (om_Name (sa_Meta account)) (st_AccountLocator (sa_Status account))
                       (as_Region (sa_Spec account)) s1 of
                  (Inl err, s2) \<Rightarrow> (Inl (wrap ''connecting to the account: '' err), s2)
                | (Inr d, s2) \<Rightarrow>
                    (case runner_Query (statement_New (db_executor E d)) ''e2e: look up the platform user''
                            show_users_sql [''platform''] s2 of
                       (Inl err, s3) \<Rightarrow> (Inl err, s3)
                     | (Inr res, s3) \<Rightarrow>
                         (Inr (deref (row_StringValue (FindRow res ''name'' ''platform'') ''email'') []), s3)))
           | _ \<Rightarrow> (Inl (plain_error ''nil pointer dereference''), s1)))"

subsection \<open>Start-up checks and AWS (env.go)\<close>

record secretInfo =
  si_Exists :: bool
  si_ScheduledForDeletion :: bool

definition SecretInfoIn ::
  "('w, 'cfg) e2e \<Rightarrow> string \<Rightarrow> string \<Rightarrow> ('w, 'z) sys_scheme \<Rightarrow> secretInfo result \<times> ('w, 'z) sys_scheme" where
  "SecretInfoIn e namespace accountName s =
     (case NewTenantIdentifier (ec_Org (en_Cfg e)) namespace accountName of
        Inl err \<Rightarrow> (Inl err, s)
      | Inr idt \<Rightarrow>
          (case local_call (ek_DescribeSecret (en_cl e) (ident_value idt)) s of
             (Inr deletedDate, s1) \<Rightarrow>
               (Inr \<lparr>si_Exists = True, si_ScheduledForDeletion = (deletedDate \<noteq> None)\<rparr>, s1)
           | (Inl err, s1) \<Rightarrow>
               if isNotFound err then (Inr \<lparr>si_Exists = False, si_ScheduledForDeletion = False\<rparr>, s1)
               else (Inl err, s1)))"

definition SecretInfo ::
  "('w, 'cfg) e2e \<Rightarrow> string \<Rightarrow> ('w, 'z) e2e_sys_scheme \<Rightarrow> secretInfo result \<times> ('w, 'z) e2e_sys_scheme" where
  "SecretInfo e accountName s = SecretInfoIn e (e_Namespace s) accountName s"

definition SecretExists ::
  "('w, 'cfg) e2e \<Rightarrow> string \<Rightarrow> ('w, 'z) e2e_sys_scheme \<Rightarrow> bool result \<times> ('w, 'z) e2e_sys_scheme" where
  "SecretExists e accountName s =
     (case SecretInfo e accountName s of
        (Inl err, s1) \<Rightarrow> (Inl err, s1)
      | (Inr info, s1) \<Rightarrow> (Inr (si_Exists info), s1))"

definition checkKubernetes ::
  "('w, 'cfg) e2e \<Rightarrow> ('w, 'z) sys_scheme \<Rightarrow> gerror option \<times> ('w, 'z) sys_scheme" where
  "checkKubernetes e s =
     (case local_call (ek_ListAccounts (en_cl e) ''default'') s of
        (Inl err, s1) \<Rightarrow>
          (Some (wrap ''Kubernetes check failed: cannot list SnowflakeAccounts (cluster unreachable, or the Yukimi CRDs are not installed; `make dev` installs them): '' err), s1)
      | (Inr _, s1) \<Rightarrow>
          (case local_call (ek_ListPermits (en_cl e) ''default'') s1 of
             (Some err, s2) \<Rightarrow>
               (Some (wrap ''Kubernetes check failed: cannot list DeletionPermits: '' err), s2)
           | (None, s2) \<Rightarrow> (None, s2)))"

definition checkAWS ::
  "('w, 'cfg) e2e \<Rightarrow> ('w, 'z) sys_scheme \<Rightarrow> string result \<times> ('w, 'z) sys_scheme" where
  "checkAWS e s =
     (case local_call (ek_CallerIdentity (en_cl e)) s of
        (Inl err, s1) \<Rightarrow>
          (Inl (wrap ''AWS check failed: the default AWS credentials do not work (log in with the AWS CLI and select the profile with the AWS_PROFILE environment variable; `--profile` on the CLI does not apply to this process): '' err), s1)
      | (Inr account, s1) \<Rightarrow>
          (case NewOrgAdminIdentifier (ec_Org (en_Cfg e)) (ec_OrgAdminAccount (en_Cfg e)) of
             Inl err \<Rightarrow>
               (Inl (wrap ''AWS check failed: building the org-admin secret identifier: '' err), s1)
           | Inr idt \<Rightarrow>
               (case local_call (ek_DescribeSecret (en_cl e) (ident_value idt)) s1 of
                  (Inl err, s2) \<Rightarrow>
                    (Inl (wrap (''AWS check failed: the org-admin secret '' @ quote_go (ident_value idt) @
                       '' is not reachable with these credentials: '') err), s2)
                | (Inr _, s2) \<Rightarrow> (Inr account, s2))))"

definition Check ::
  "('w, 'cfg) e2e \<Rightarrow> ('w, 'z) sys_scheme \<Rightarrow> string result \<times> ('w, 'z) sys_scheme" where
  "Check e s =
     (case checkKubernetes e s of
        (Some err, s1) \<Rightarrow> (Inl err, s1)
      | (None, s1) \<Rightarrow> checkAWS e s1)"

text \<open>\<open>None\<close> when the poll, or the search for an unknown region, does not end.\<close>

definition CheckOperatorAlive ::
  "('w, 'cfg) e2e \<Rightarrow> string \<Rightarrow> ('w, 'z) e2e_sys_scheme \<Rightarrow> (gerror option \<times> ('w, 'z) e2e_sys_scheme) option" where
  "CheckOperatorAlive e timeout s =
     Option.bind (UnknownRegion (en_Cfg e)) (\<lambda>region.
     let ns = e_Namespace s; probe = NewAccount ''operator-probe'' ns region in
     (case kcall (\<lambda>_. CreateAccountCall ns ''operator-probe'') (ek_CreateAccount (en_cl e) probe) s of
        (Some err, s1) \<Rightarrow>
          Some (Some (wrap ''operator check failed: cannot create the probe account: '' err), s1)
      | (None, s1) \<Rightarrow>
          Option.bind
            (Poll (e_select e) timeout ''the controller to report a condition on the probe account''
               (\<lambda>s. case local_call (ek_GetAccount (en_cl e) ns ''operator-probe'') s of
                  (Inl err, s1) \<Rightarrow> ((False, Some err), s1)
                | (Inr got, s1) \<Rightarrow> ((st_Conditions (sa_Status got) \<noteq> [], None), s1)) s1) (\<lambda>(err, s2).
          Some (map_option (wrap ''operator check failed: the operator does not seem to run against this cluster (start it with `make dev`): '') err, s2))))"

subsection \<open>The namespace of a run (namespace.go)\<close>

definition runNamespaceLabels :: "(string \<times> string) list" where
  "runNamespaceLabels =
     [(''alpha-tester'', ''true''), (''department'', ''e2e''), (''cost-center'', ''000000''),
      (''credit-quota'', ''1000'')]"

definition CreateRunNamespace ::
  "'w env \<Rightarrow> ('w, 'cfg) e2e \<Rightarrow> ('w, 'z) e2e_sys_scheme \<Rightarrow> gerror option \<times> ('w, 'z) e2e_sys_scheme" where
  "CreateRunNamespace E e s =
     (case now E s of (t, s1) \<Rightarrow>
     (case local_call (ek_Intn (en_cl e) 65536) s1 of (n, s2) \<Rightarrow>
        let name = ''e2e-'' @ ek_stamp (en_cl e) t @ ''-'' @ show_hex4 n in
        (case kcall (\<lambda>_. CreateNamespaceCall name)
                (ek_CreateNamespace (en_cl e) name runNamespaceLabels) s2 of
           (Some err, s3) \<Rightarrow>
             (Some (wrap (''creating the run namespace '' @ name @ '': '') err), s3)
         | (None, s3) \<Rightarrow> (None, s3\<lparr>e_Namespace := name\<rparr>))))"

definition delete_permit :: "string \<Rightarrow> string \<Rightarrow> nat \<Rightarrow> deletionPermit" where
  "delete_permit namespace name n =
     \<lparr>dp_Meta = zero_meta (''delete-'' @ name @ ''-'' @ show_hex4 n) namespace,
      dp_Spec = \<lparr>ps_TargetRef = \<lparr>tr_Kind = snowflakeAccountKind, tr_Name = name\<rparr>,
        ps_Duration = int hour, ps_Reason = ''e2e test cleanup'', ps_ManagementPolicies = []\<rparr>,
      dp_Status = \<lparr>pt_Conditions = [], pt_ObservedGeneration = 0, pt_ValidUntil = None, pt_State = []\<rparr>\<rparr>"

definition permit_processed ::
  "('w, 'cfg) e2e \<Rightarrow> string \<Rightarrow> string \<Rightarrow> ('w, 'z) sys_scheme
     \<Rightarrow> (bool \<times> gerror option) \<times> ('w, 'z) sys_scheme" where
  "permit_processed e namespace name s =
     (case local_call (ek_GetPermit (en_cl e) namespace name) s of
        (Inl err, s1) \<Rightarrow> ((False, Some err), s1)
      | (Inr got, s1) \<Rightarrow> ((pt_State (dp_Status got) \<noteq> [], None), s1))"

definition deleteAccountIn ::
  "'w env \<Rightarrow> ('w, 'cfg) e2e \<Rightarrow> string \<Rightarrow> string \<Rightarrow> ('w, 'z) e2e_sys_scheme
     \<Rightarrow> (gerror option \<times> ('w, 'z) e2e_sys_scheme) option" where
  "deleteAccountIn E e namespace name s =
     (case local_call (ek_Intn (en_cl e) 65536) s of (n, s1) \<Rightarrow>
        let permit = delete_permit namespace name n in
        (case kcall (\<lambda>_. CreatePermitCall namespace name) (ek_CreatePermit (en_cl e) permit) s1 of
           (created_err, s2) \<Rightarrow>
             if (case created_err of Some err \<Rightarrow> \<not> ek_IsAlreadyExists (en_cl e) err | None \<Rightarrow> False)
             then Some (map_option (wrap (''creating the deletion permit for '' @ name @ '': '')) created_err, s2)
             else Option.bind
               (Poll (e_select e) (env_durationText E (30 * int second)) ''the deletion permit to be processed''
                  (permit_processed e namespace (om_Name (dp_Meta permit))) s2) (\<lambda>(_, s3).
               (case kcall (\<lambda>_. DeleteAccountCall namespace name)
                       (ek_DeleteAccount (en_cl e) namespace name) s3 of
                  (Some err, s4) \<Rightarrow>
                    if ek_IsNotFound (en_cl e) err then Some (None, s4)
                    else Some (Some (wrap (''deleting account '' @ name @ '': '') err), s4)
                | (None, s4) \<Rightarrow> Some (None, s4)))))"

definition DeleteAccount ::
  "'w env \<Rightarrow> ('w, 'cfg) e2e \<Rightarrow> string \<Rightarrow> ('w, 'z) e2e_sys_scheme
     \<Rightarrow> (gerror option \<times> ('w, 'z) e2e_sys_scheme) option" where
  "DeleteAccount E e name s = deleteAccountIn E e (e_Namespace s) name s"

definition account_names :: "snowflakeAccount list result \<Rightarrow> string list result" where
  "account_names r =
     (case r of Inl err \<Rightarrow> Inl err | Inr as \<Rightarrow> Inr (sort (map (\<lambda>a. om_Name (sa_Meta a)) as)))"

definition accountsIn ::
  "('w, 'cfg) e2e \<Rightarrow> string \<Rightarrow> ('w, 'z) e2e_sys_scheme \<Rightarrow> string list result \<times> ('w, 'z) e2e_sys_scheme" where
  "accountsIn e namespace s =
     (case kcall (\<lambda>r. ListAccountsCall namespace (account_names r)) (ek_ListAccounts (en_cl e) namespace) s of
        (r, s1) \<Rightarrow> (account_names r, s1))"

definition AccountsIn ::
  "('w, 'cfg) e2e \<Rightarrow> ('w, 'z) e2e_sys_scheme \<Rightarrow> string list result \<times> ('w, 'z) e2e_sys_scheme" where
  "AccountsIn e s = accountsIn e (e_Namespace s) s"

text \<open>The loop of the clean-up over the accounts, which stops at the first error.\<close>

fun delete_accounts ::
  "'w env \<Rightarrow> ('w, 'cfg) e2e \<Rightarrow> string \<Rightarrow> string list \<Rightarrow> ('w, 'z) e2e_sys_scheme
     \<Rightarrow> (gerror option \<times> ('w, 'z) e2e_sys_scheme) option" where
  "delete_accounts E e namespace [] s = Some (None, s)"
| "delete_accounts E e namespace (name # names) s =
     (case deleteAccountIn E e namespace name s of
        None \<Rightarrow> None
      | Some (Some err, s1) \<Rightarrow> Some (Some err, s1)
      | Some (None, s1) \<Rightarrow> delete_accounts E e namespace names s1)"

text \<open>The condition of the wait: it also sets \<open>left\<close>, which a failed listing sets to nil.\<close>

definition accounts_gone ::
  "('w, 'cfg) e2e \<Rightarrow> string \<Rightarrow> ('w, 'z) e2e_sys_scheme \<times> string list
     \<Rightarrow> (bool \<times> gerror option) \<times> ('w, 'z) e2e_sys_scheme \<times> string list" where
  "accounts_gone e namespace sl =
     (case accountsIn e namespace (fst sl) of
        (Inl err, s1) \<Rightarrow> ((False, Some err), s1, [])
      | (Inr left, s1) \<Rightarrow> ((left = [], None), s1, left))"

definition snowflake_leftover :: "string \<Rightarrow> row option result \<Rightarrow> string list" where
  "snowflake_leftover resolved r =
     (case r of
        Inl err \<Rightarrow> [''cannot check Snowflake for '' @ resolved @ '': '' @ err_text err]
      | Inr row \<Rightarrow>
          if row_Found row
          then [''Snowflake still lists the account '' @ resolved @
                ''; drop it as org admin: DROP ACCOUNT '' @ resolved @ '' GRACE_PERIOD_IN_DAYS = 7'']
          else [])"

definition secret_leftover :: "string \<Rightarrow> string \<Rightarrow> secretInfo result \<Rightarrow> string list" where
  "secret_leftover namespace name r =
     (case r of
        Inl err \<Rightarrow> [''cannot check the AWS secret of '' @ name @ '': '' @ err_text err]
      | Inr info \<Rightarrow>
          if si_Exists info \<and> \<not> si_ScheduledForDeletion info
          then [''the AWS secret of '' @ name @ '' (namespace '' @ namespace @
                '') still exists and is not scheduled for deletion'']
          else [])"

fun leftovers ::
  "'w env \<Rightarrow> ('w, 'cfg) e2e \<Rightarrow> string \<Rightarrow> string list \<Rightarrow> ('w, 'z) e2e_sys_scheme
     \<Rightarrow> string list \<times> ('w, 'z) e2e_sys_scheme" where
  "leftovers E e namespace [] s = ([], s)"
| "leftovers E e namespace (name # names) s =
     (let resolved = ResolveName name namespace in
      case AccountRow E e resolved s of (row, s1) \<Rightarrow>
     (case SecretInfoIn e namespace name s1 of (info, s2) \<Rightarrow>
     (case leftovers E e namespace names s2 of (problems, s3) \<Rightarrow>
        (snowflake_leftover resolved row @ secret_leftover namespace name info @ problems, s3))))"

definition still_exist_error :: "string \<Rightarrow> string list \<Rightarrow> gerror \<Rightarrow> gerror" where
  "still_exist_error namespace left err =
     Errorf (show_nat (length left) @ '' account(s) still exist in namespace '' @ namespace @ '' ('' @
       str_join '', '' left @ ''); the namespace was NOT dropped, because that would leave the Snowflake account(s) behind. Check the operator and delete them: '' @
       err_text err) [err]"

definition left_behind_error :: "string list \<Rightarrow> gerror" where
  "left_behind_error problems =
     plain_error (''left behind:'' @ [CHR 0x0A] @ ''  - '' @ str_join ([CHR 0x0A] @ ''  - '') problems)"

text \<open>The end of the clean-up, once no account is left: the checks, then the drop.\<close>

definition drop_namespace ::
  "'w env \<Rightarrow> ('w, 'cfg) e2e \<Rightarrow> string \<Rightarrow> string list \<Rightarrow> ('w, 'z) e2e_sys_scheme
     \<Rightarrow> gerror option \<times> ('w, 'z) e2e_sys_scheme" where
  "drop_namespace E e namespace names s =
     (case leftovers E e namespace names s of (problems, s1) \<Rightarrow>
     (case kcall (\<lambda>_. DeleteNamespaceCall namespace) (ek_DeleteNamespace (en_cl e) namespace) s1 of
        (err, s2) \<Rightarrow>
          let all = problems @
                (case err of
                   Some x \<Rightarrow> if ek_IsNotFound (en_cl e) x then []
                     else [''dropping namespace '' @ namespace @ '': '' @ err_text x]
                 | None \<Rightarrow> [])
          in (if all \<noteq> [] then Some (left_behind_error all) else None, s2)))"

definition cleanupNamespace ::
  "'w env \<Rightarrow> ('w, 'cfg) e2e \<Rightarrow> string \<Rightarrow> duration \<Rightarrow> ('w, 'z) e2e_sys_scheme
     \<Rightarrow> (gerror option \<times> ('w, 'z) e2e_sys_scheme) option" where
  "cleanupNamespace E e namespace timeout s =
     (case accountsIn e namespace s of
        (Inl err, s1) \<Rightarrow> Some (Some (wrap (''listing the accounts of '' @ namespace @ '': '') err), s1)
      | (Inr names, s1) \<Rightarrow>
          (case delete_accounts E e namespace names s1 of
             None \<Rightarrow> None
           | Some (Some err, s2) \<Rightarrow> Some (Some err, s2)
           | Some (None, s2) \<Rightarrow>
               (case Poll (with_var (e_select e)) (env_durationText E timeout)
                       ''all accounts of the run to be gone'' (accounts_gone e namespace) (s2, []) of
                  None \<Rightarrow> None
                | Some (Some pollErr, s3, left) \<Rightarrow> Some (Some (still_exist_error namespace left pollErr), s3)
                | Some (None, s3, left) \<Rightarrow> Some (drop_namespace E e namespace names s3))))"

definition Cleanup ::
  "'w env \<Rightarrow> ('w, 'cfg) e2e \<Rightarrow> duration \<Rightarrow> ('w, 'z) e2e_sys_scheme
     \<Rightarrow> (gerror option \<times> ('w, 'z) e2e_sys_scheme) option" where
  "Cleanup E e timeout s =
     (if e_Namespace s = [] then Some (None, s) else cleanupNamespace E e (e_Namespace s) timeout s)"

definition lower_hex :: "char \<Rightarrow> bool" where
  "lower_hex c \<longleftrightarrow> is_digit c \<or> in_range 97 102 c"

definition runNamespacePattern :: rexp where
  "runNamespacePattern =
     RSeq (re_lit ''e2e-'') (RSeq (re_rep 14 (RCls is_digit))
       (RAlt ROne (RSeq (re_lit ''-'') (re_rep 4 (RCls lower_hex)))))"

text \<open>Whether the sweep cleans a namespace up, at the time \<open>t\<close> that \<open>time.Since\<close> reads.\<close>

definition stale :: "duration \<Rightarrow> time \<Rightarrow> namespaceInfo \<Rightarrow> bool" where
  "stale olderThan t ns \<longleftrightarrow>
     \<not> (\<not> re_match runNamespacePattern (ni_Name ns) \<or> ni_Deleting ns \<or>
        t - ni_CreationTimestamp ns < olderThan)"

text \<open>The clock is read only when the first two conditions hold.\<close>

definition check_stale ::
  "'w env \<Rightarrow> duration \<Rightarrow> namespaceInfo \<Rightarrow> ('w, 'z) sys_scheme \<Rightarrow> bool \<times> ('w, 'z) sys_scheme" where
  "check_stale E olderThan ns s =
     (if \<not> re_match runNamespacePattern (ni_Name ns) \<or> ni_Deleting ns then (False, s)
      else (case now E s of (t, s1) \<Rightarrow> (stale olderThan t ns, s1)))"

fun sweep ::
  "'w env \<Rightarrow> ('w, 'cfg) e2e \<Rightarrow> duration \<Rightarrow> duration \<Rightarrow> namespaceInfo list \<Rightarrow> ('w, 'z) e2e_sys_scheme
     \<Rightarrow> (string list \<times> ('w, 'z) e2e_sys_scheme) option" where
  "sweep E e olderThan timeout [] s = Some ([], s)"
| "sweep E e olderThan timeout (ns # rest) s =
     (case check_stale E olderThan ns s of
        (False, s1) \<Rightarrow> sweep E e olderThan timeout rest s1
      | (True, s1) \<Rightarrow>
          Option.bind (cleanupNamespace E e (ni_Name ns) timeout s1) (\<lambda>(err, s2).
          Option.bind (sweep E e olderThan timeout rest s2) (\<lambda>(lines, s3).
          Some ((case err of
                   Some x \<Rightarrow> ''namespace '' @ ni_Name ns @ '' of an earlier run: '' @ err_text x
                 | None \<Rightarrow> ''cleaned up namespace '' @ ni_Name ns @ '' of an earlier run'') # lines, s3))))"

definition SweepStale ::
  "'w env \<Rightarrow> ('w, 'cfg) e2e \<Rightarrow> duration \<Rightarrow> duration \<Rightarrow> ('w, 'z) e2e_sys_scheme
     \<Rightarrow> (string list \<times> ('w, 'z) e2e_sys_scheme) option" where
  "SweepStale E e olderThan timeout s =
     (case local_call (ek_ListNamespaces (en_cl e)) s of
        (Inl err, s1) \<Rightarrow> Some ([''could not list the namespaces of earlier runs: '' @ err_text err], s1)
      | (Inr namespaces, s1) \<Rightarrow> sweep E e olderThan timeout namespaces s1)"

subsection \<open>Fixtures (fixtures.go)\<close>

definition typeSynced :: string where "typeSynced = ''Synced''"

definition set_fixture :: "string \<Rightarrow> fixture \<Rightarrow> ('w, 'z) e2e_sys_scheme \<Rightarrow> ('w, 'z) e2e_sys_scheme" where
  "set_fixture name f s = s\<lparr>e_fixtures := AList.update name f (e_fixtures s)\<rparr>"

text \<open>\<open>Env.Fixture\<close> returns a pointer into the map: here the name.\<close>

definition Fixture ::
  "string \<Rightarrow> snowflakeAccount \<Rightarrow> ('w, 'z) e2e_sys_scheme \<Rightarrow> ('w, 'z) e2e_sys_scheme" where
  "Fixture name build s =
     (case map_of (e_fixtures s) name of
        Some f \<Rightarrow> s
      | None \<Rightarrow>
          set_fixture name \<lparr>fx_Name = name, fx_build = build, fx_start = None, fx_ready = None,
            fx_delete = None\<rparr> s)"

definition too_many_error :: "string \<Rightarrow> int \<Rightarrow> int \<Rightarrow> gerror" where
  "too_many_error name n cap =
     plain_error (''fixture '' @ quote_go name @ '' would be real account number '' @ show_int n @
       '', but E2E_MAX_ACCOUNTS is '' @ show_int cap)"

text \<open>The body of \<open>startOnce.Do\<close>.\<close>

definition start_account ::
  "('w, 'cfg) e2e \<Rightarrow> fixture \<Rightarrow> ('w, 'z) e2e_sys_scheme
     \<Rightarrow> snowflakeAccount result \<times> ('w, 'z) e2e_sys_scheme" where
  "start_account e f s =
     (let n = e_started s + 1; s1 = s\<lparr>e_started := n\<rparr> in
      if n > ec_MaxAccounts (en_Cfg e)
      then (Inl (too_many_error (fx_Name f) n (ec_MaxAccounts (en_Cfg e))), s1)
      else
        let account = fx_build f in
        (case kcall (\<lambda>_. CreateAccountCall (om_Namespace (sa_Meta account)) (om_Name (sa_Meta account)))
                (ek_CreateAccount (en_cl e) account) s1 of
           (Some err, s2) \<Rightarrow>
             (Inl (wrap (''creating fixture '' @ quote_go (fx_Name f) @ '': '') err), s2)
         | (None, s2) \<Rightarrow> (Inr account, s2)))"

definition fixture_Start ::
  "('w, 'cfg) e2e \<Rightarrow> fixture \<Rightarrow> ('w, 'z) e2e_sys_scheme
     \<Rightarrow> snowflakeAccount result \<times> fixture \<times> ('w, 'z) e2e_sys_scheme" where
  "fixture_Start e f s =
     (case fx_start f of
        Some r \<Rightarrow> (r, f, s)
      | None \<Rightarrow>
          (case start_account e f s of
             (r, s1) \<Rightarrow>
               let f1 = f\<lparr>fx_start := Some r\<rparr> in (r, f1, set_fixture (fx_Name f) f1 s1)))"

definition is_ready :: "xpv1 \<Rightarrow> snowflakeAccount \<Rightarrow> bool" where
  "is_ready X a \<longleftrightarrow>
     cd_Status (sa_GetCondition X typeReady a) = conditionTrue \<and>
     cd_Status (sa_GetCondition X typeSynced a) = conditionTrue"

text \<open>The condition \<open>Ready\<close> polls, which also sets \<open>f.ready\<close>.\<close>

definition becomes_ready ::
  "xpv1 \<Rightarrow> ('w, 'cfg) e2e \<Rightarrow> string \<Rightarrow> string \<Rightarrow> ('w, 'z) e2e_sys_scheme \<times> snowflakeAccount option
     \<Rightarrow> (bool \<times> gerror option) \<times> ('w, 'z) e2e_sys_scheme \<times> snowflakeAccount option" where
  "becomes_ready X e namespace name sr =
     (case local_call (ek_GetAccount (en_cl e) namespace name) (fst sr) of
        (Inl err, s1) \<Rightarrow> ((False, Some err), s1, snd sr)
      | (Inr got, s1) \<Rightarrow>
          if is_ready X got then ((True, None), s1, Some got)
          else ((False, Some (plain_error (''not ready yet: '' @ DescribeConditions got))), s1, snd sr))"

definition fixture_Ready ::
  "'w env \<Rightarrow> xpv1 \<Rightarrow> ('w, 'cfg) e2e \<Rightarrow> fixture \<Rightarrow> duration \<Rightarrow> ('w, 'z) e2e_sys_scheme
     \<Rightarrow> ((snowflakeAccount option \<times> gerror option) \<times> fixture \<times> ('w, 'z) e2e_sys_scheme) option" where
  "fixture_Ready E X e f timeout s =
     (case fixture_Start e f s of
        (Inl err, f1, s1) \<Rightarrow> Some ((None, Some err), f1, s1)
      | (Inr account, f1, s1) \<Rightarrow>
          (case fx_ready f1 of
             Some r \<Rightarrow> Some (r, f1, s1)
           | None \<Rightarrow>
               Option.bind
                 (Poll (with_var (e_select e)) (env_durationText E timeout)
                    (''fixture '' @ quote_go (fx_Name f1) @ '' to become ready'')
                    (becomes_ready X e (om_Namespace (sa_Meta account)) (om_Name (sa_Meta account)))
                    (s1, None)) (\<lambda>(err, s2, ready).
               let f2 = f1\<lparr>fx_ready := Some (ready, err)\<rparr> in
               Some ((ready, err), f2, set_fixture (fx_Name f2) f2 s2))))"

definition account_gone ::
  "('w, 'cfg) e2e \<Rightarrow> string \<Rightarrow> string \<Rightarrow> ('w, 'z) sys_scheme
     \<Rightarrow> (bool \<times> gerror option) \<times> ('w, 'z) sys_scheme" where
  "account_gone e namespace name s =
     (case local_call (ek_GetAccount (en_cl e) namespace name) s of
        (Inl err, s1) \<Rightarrow> if ek_IsNotFound (en_cl e) err then ((True, None), s1) else ((False, Some err), s1)
      | (Inr got, s1) \<Rightarrow>
          ((False, Some (plain_error (''still present: '' @ DescribeConditions got))), s1))"

text \<open>A nil \<open>account\<close> without an error does not occur: \<open>Ready\<close> returns one or the other.\<close>

definition fixture_Delete ::
  "'w env \<Rightarrow> xpv1 \<Rightarrow> ('w, 'cfg) e2e \<Rightarrow> fixture \<Rightarrow> duration \<Rightarrow> duration \<Rightarrow> ('w, 'z) e2e_sys_scheme
     \<Rightarrow> (gerror option \<times> fixture \<times> ('w, 'z) e2e_sys_scheme) option" where
  "fixture_Delete E X e f readyTimeout deleteTimeout s =
     (case fixture_Ready E X e f readyTimeout s of
        None \<Rightarrow> None
      | Some ((_, Some err), f1, s1) \<Rightarrow> Some (Some err, f1, s1)
      | Some ((None, None), f1, s1) \<Rightarrow> Some (Some (plain_error ''nil pointer dereference''), f1, s1)
      | Some ((Some account, None), f1, s1) \<Rightarrow>
          (case fx_delete f1 of
             Some err \<Rightarrow> Some (err, f1, s1)
           | None \<Rightarrow>
               Option.bind (DeleteAccount E e (om_Name (sa_Meta account)) s1) (\<lambda>(err, s2).
               Option.bind
                 (if err \<noteq> None then Some (err, s2)
                  else Poll (e_select e) (env_durationText E deleteTimeout)
                    (''fixture '' @ quote_go (fx_Name f1) @ '' to be gone'')
                    (account_gone e (om_Namespace (sa_Meta account)) (om_Name (sa_Meta account))) s2)
                 (\<lambda>(err2, s3).
               let f2 = f1\<lparr>fx_delete := Some err2\<rparr> in
               Some (err2, f2, set_fixture (fx_Name f2) f2 s3)))))"

subsection \<open>Given, When, Then (gwt.go)\<close>

text \<open>\<open>t.Run\<close> is an argument; \<open>t.FailNow\<close> ends the enclosing test, here \<open>False\<close>.\<close>

definition gwt_run ::
  "(string \<Rightarrow> ('s \<Rightarrow> bool \<times> 's) \<Rightarrow> 's \<Rightarrow> bool \<times> 's) \<Rightarrow> string \<Rightarrow> ('s \<Rightarrow> bool \<times> 's) \<Rightarrow> 's \<Rightarrow> bool \<times> 's" where
  "gwt_run t_Run name step s = (case t_Run name step s of (ok, s1) \<Rightarrow> (ok, s1))"

definition Given ::
  "(string \<Rightarrow> ('s \<Rightarrow> bool \<times> 's) \<Rightarrow> 's \<Rightarrow> bool \<times> 's) \<Rightarrow> string \<Rightarrow> ('s \<Rightarrow> bool \<times> 's) \<Rightarrow> 's \<Rightarrow> bool \<times> 's" where
  "Given t_Run description step s = gwt_run t_Run (''Given '' @ description) step s"

definition When ::
  "(string \<Rightarrow> ('s \<Rightarrow> bool \<times> 's) \<Rightarrow> 's \<Rightarrow> bool \<times> 's) \<Rightarrow> string \<Rightarrow> ('s \<Rightarrow> bool \<times> 's) \<Rightarrow> 's \<Rightarrow> bool \<times> 's" where
  "When t_Run description step s = gwt_run t_Run (''When '' @ description) step s"

definition Then ::
  "(string \<Rightarrow> ('s \<Rightarrow> bool \<times> 's) \<Rightarrow> 's \<Rightarrow> bool \<times> 's) \<Rightarrow> string \<Rightarrow> ('s \<Rightarrow> bool \<times> 's) \<Rightarrow> 's \<Rightarrow> bool \<times> 's" where
  "Then t_Run description step s = gwt_run t_Run (''Then '' @ description) step s"

text \<open>A test body is a sequence of steps; the first that fails ends it.\<close>

fun scenario :: "('s \<Rightarrow> bool \<times> 's) list \<Rightarrow> 's \<Rightarrow> bool \<times> 's" where
  "scenario [] s = (True, s)"
| "scenario (step # steps) s = (case step s of (ok, s1) \<Rightarrow> if ok then scenario steps s1 else (False, s1))"

end
