(* ===== verification/E2E_Support_Properties.thy ===== *)
theory E2E_Support_Properties
  imports E2E_Support Controller_Properties Admission_Properties
begin

text \<open>
  What the end-to-end tests rely on: a poll ends and reports what it saw, the namespace of a
  run is dropped only when its accounts are gone and nothing else is touched, a fixture never
  takes the run over its limit, the probe of the start-up check is admitted and then refused
  before anything is created, and the longest name the tests use is the operator's own limit.
\<close>

subsection \<open>Polling\<close>

text \<open>The rule of the loop: what the condition and the wait keep holds at the end, and a poll
  that succeeds ends with an attempt that reported true without an error.\<close>

lemma poll_loop_raw:
  assumes "poll_loop sel timedOut lastCall cond lastErr s = Some z"
  shows "\<forall>s x s1. I s \<longrightarrow> cond s = (x, s1) \<longrightarrow> I s1 \<Longrightarrow> \<forall>s w s1. I s \<longrightarrow> sel s = (w, s1) \<longrightarrow> I s1 \<Longrightarrow> I s \<Longrightarrow>
     I (snd z) \<and> (fst z = None \<longrightarrow> (\<exists>s0. I s0 \<and> cond s0 = ((True, None), snd z)))"
  using assms
proof (induction sel timedOut lastCall cond lastErr s z rule: poll_loop.raw_induct [rotated, consumes 1])
  case (1 rec sel timedOut lastCall cond lastErr s z)
  obtain ok err s1 where c: "cond s = ((ok, err), s1)" by (metis prod.exhaust)
  obtain w s2 where w: "sel s1 = (w, s2)" by fastforce
  from 1(3,4,5) c w have inv: "I s1" "I s2" by blast+
  show ?case
  proof (cases "err = None \<and> ok")
    case True
    with 1(2) c have "z = (None, s1)" by simp
    with True inv c 1(5) show ?thesis by auto
  next
    case False
    show ?thesis
    proof (cases "w = Tick")
      case True
      from 1(2) have "rec sel timedOut lastCall cond (case err of None \<Rightarrow> lastErr | Some e \<Rightarrow> Some e) s2 = Some z"
        using c w False True by (auto simp: Let_def)
      from 1(1) [OF this 1(3,4) inv(2)] show ?thesis .
    next
      case False
      with 1(2) c w \<open>\<not> (err = None \<and> ok)\<close> have "snd z = s2" "fst z \<noteq> None"
        by (auto simp: Let_def split: if_splits)
      with inv show ?thesis by auto
    qed
  qed
qed

lemma Poll_rule:
  assumes "Poll sel timeout what cond s = Some (r, s')" and "I s"
    and "\<And>s x s1. I s \<Longrightarrow> cond s = (x, s1) \<Longrightarrow> I s1"
    and "\<And>s w s1. I s \<Longrightarrow> sel s = (w, s1) \<Longrightarrow> I s1"
  shows "I s' \<and> (r = None \<longrightarrow> (\<exists>s0. I s0 \<and> cond s0 = ((True, None), s')))"
  using poll_loop_raw [OF assms(1) [unfolded Poll_def], of I] assms(2-4) by (metis fst_conv snd_conv)

text \<open>A poll ends when every tick brings the deadline closer and the condition does not put it off.\<close>

lemma Poll_ends:
  fixes left :: "'s \<Rightarrow> nat"
  assumes "\<And>s x s1. cond s = (x, s1) \<Longrightarrow> left s1 \<le> left s"
    and "\<And>s s1. sel s = (Tick, s1) \<Longrightarrow> left s1 < left s"
  shows "\<exists>r s'. Poll sel timeout what cond s = Some (r, s')"
proof -
  have "\<exists>z. poll_loop sel t i cond le s = Some z" for t i le
  proof (induction "left s" arbitrary: s le rule: less_induct)
    case less
    obtain ok err s1 where c: "cond s = ((ok, err), s1)" by (metis prod.exhaust)
    obtain w s2 where w: "sel s1 = (w, s2)" by fastforce
    show ?case
    proof (cases "w = Tick")
      case True
      with w c assms have "left s2 < left s" by (meson le_less_trans less_le_trans)
      from less [OF this] c w show ?thesis
        by (subst poll_loop.simps) (auto simp: Let_def)
    qed (subst poll_loop.simps, use c w in \<open>auto simp: Let_def\<close>)
  qed
  then show ?thesis by (force simp: Poll_def)
qed

text \<open>The condition is checked before anything is waited for.\<close>

lemma Poll_immediate:
  "cond s = ((True, None), s1) \<Longrightarrow> Poll sel timeout what cond s = Some (None, s1)"
  by (simp add: Poll_def poll_loop.simps)

subsection \<open>What each operation changes of the cluster\<close>

text \<open>\<open>issued cs s s'\<close>: between the two states exactly the calls \<open>cs\<close> were made, in this order,
  and the run and its fixtures are the same.\<close>

definition issued :: "e2e_call list \<Rightarrow> ('w, 'z) e2e_sys_scheme \<Rightarrow> ('w, 'z) e2e_sys_scheme \<Rightarrow> bool" where
  "issued cs s s' \<longleftrightarrow>
     e_calls s' = e_calls s @ cs \<and> e_Namespace s' = e_Namespace s \<and> e_fixtures s' = e_fixtures s \<and>
     e_started s' = e_started s"

lemma issued_refl [simp, intro]: "issued [] s s"
  by (simp add: issued_def)

lemma issued_trans: "issued cs s s1 \<Longrightarrow> issued ds s1 s2 \<Longrightarrow> issued (cs @ ds) s s2"
  by (simp add: issued_def)

lemma issued_quiet: "issued [] s s1 \<Longrightarrow> issued ds s1 s2 \<Longrightarrow> issued ds s s2"
  "issued cs s s1 \<Longrightarrow> issued [] s1 s2 \<Longrightarrow> issued cs s s2"
  by (simp_all add: issued_def)

lemma issued_pool_more:
  fixes s s' :: "('w, 'z) e2e_sys_scheme"
  shows "pool_sys.more s' = pool_sys.more s \<Longrightarrow> issued [] s s'"
  by (cases s; cases s') (simp add: issued_def)

lemma issued_sys_more:
  fixes s s' :: "('w, 'z) e2e_sys_scheme"
  shows "sys.more s' = sys.more s \<Longrightarrow> issued [] s s'"
  by (cases s; cases s') (simp add: issued_def)

lemma local_call_issued:
  fixes s s' :: "('w, 'z) e2e_sys_scheme"
  shows "local_call f s = (r, s') \<Longrightarrow> issued [] s s'"
  by (rule issued_sys_more) (drule local_call_frame, simp)

lemma e_select_issued:
  fixes s s' :: "('w, 'z) e2e_sys_scheme"
  shows "e_select e s = (w, s') \<Longrightarrow> issued [] s s'"
  unfolding e_select_def by (rule local_call_issued)

lemma kcall_issued: "kcall mk f s = (r, s') \<Longrightarrow> issued [mk r] s s'"
  by (auto simp: kcall_def issued_def dest!: local_call_issued split: prod.splits)

lemma aws_New_issued:
  fixes s s' :: "('w, 'z) e2e_sys_scheme"
  shows "aws_New l n r k g s = (res, s') \<Longrightarrow> issued [] s s'"
  by (rule issued_sys_more) (auto simp: aws_New_def Let_def split: if_splits sum.splits)

lemma open_pool_issued: "open_pool e s = (r, s') \<Longrightarrow> issued [] s s'"
  by (auto simp: open_pool_def Let_def issued_def dest!: aws_New_issued
      split: option.splits prod.splits sum.splits)

lemma OrgAdminDB_issued:
  fixes s s' :: "('w, 'z) e2e_sys_scheme"
  shows "OrgAdminDB E (e2e_pool E e store) s = (r, s') \<Longrightarrow> issued [] s s'"
  by (rule issued_pool_more) (auto simp: e2e_pool_def pooled_def dest!: OrgAdminDB_pooled [OF pool_New_dial])

lemma orgAdminDB_issued: "orgAdminDB E e s = (r, s') \<Longrightarrow> issued [] s s'"
  by (auto simp: orgAdminDB_def dest!: open_pool_issued OrgAdminDB_issued intro: issued_quiet
      split: prod.splits sum.splits)

lemma runner_Query_issued:
  fixes s s' :: "('w, 'z) e2e_sys_scheme"
  shows "runner_Query (statement_New (db_executor E d)) l q as s = (r, s') \<Longrightarrow> issued [] s s'"
  by (rule issued_sys_more) (drule runner_Query_frame, simp)

lemma AccountRow_issued: "AccountRow E e n s = (r, s') \<Longrightarrow> issued [] s s'"
  by (auto simp: AccountRow_def dest!: orgAdminDB_issued runner_Query_issued intro: issued_quiet
      split: prod.splits sum.splits)

lemma SecretInfoIn_issued:
  fixes s s' :: "('w, 'z) e2e_sys_scheme"
  shows "SecretInfoIn e ns n s = (r, s') \<Longrightarrow> issued [] s s'"
  by (auto simp: SecretInfoIn_def dest!: local_call_issued split: prod.splits sum.splits if_splits)

lemma leftovers_issued: "leftovers E e ns names s = (ps, s') \<Longrightarrow> issued [] s s'"
proof (induction E e ns names s arbitrary: ps s' rule: leftovers.induct)
  case (2 E e ns name names s)
  then show ?case
    by (auto simp: Let_def dest!: AccountRow_issued SecretInfoIn_issued intro: issued_quiet split: prod.splits)
qed simp

subsection \<open>The clean-up of a namespace\<close>

definition deletion_calls :: "string \<Rightarrow> string list \<Rightarrow> e2e_call list" where
  "deletion_calls ns names = concat (map (\<lambda>n. [CreatePermitCall ns n, DeleteAccountCall ns n]) names)"

lemma deletion_calls_simps [simp]:
  "deletion_calls ns [] = []"
  "deletion_calls ns (n # names) = CreatePermitCall ns n # DeleteAccountCall ns n # deletion_calls ns names"
  by (simp_all add: deletion_calls_def)

lemma permit_processed_issued:
  fixes s s' :: "('w, 'z) e2e_sys_scheme"
  shows "permit_processed e ns n s = (r, s') \<Longrightarrow> issued [] s s'"
  by (auto simp: permit_processed_def dest!: local_call_issued split: prod.splits sum.splits)

text \<open>A poll whose condition only reads makes no calls.\<close>

lemma Poll_issued:
  fixes s s' :: "('w, 'z) e2e_sys_scheme"
  assumes "Poll (e_select e) t w cond s = Some (r, s')"
    and "\<And>(s :: ('w, 'z) e2e_sys_scheme) x s1. cond s = (x, s1) \<Longrightarrow> issued [] s s1"
  shows "issued [] s s'"
proof -
  have "issued [] s s' \<and> (r = None \<longrightarrow> (\<exists>s0. issued [] s s0 \<and> cond s0 = ((True, None), s')))"
    by (rule Poll_rule [OF assms(1)]) (auto intro: issued_quiet assms(2) e_select_issued)
  then show ?thesis ..
qed

text \<open>Deleting one account: a permit for it, and only then the delete.\<close>

lemma deleteAccountIn_issued:
  assumes "deleteAccountIn E e ns n s = Some (r, s')"
  shows "issued [CreatePermitCall ns n] s s' \<and> r \<noteq> None \<or>
    issued [CreatePermitCall ns n, DeleteAccountCall ns n] s s'"
proof -
  obtain k s1 where k: "local_call (ek_Intn (en_cl e) 65536) s = (k, s1)" by fastforce
  let ?p = "delete_permit ns n k"
  obtain ce s2 where c: "kcall (\<lambda>_. CreatePermitCall ns n) (ek_CreatePermit (en_cl e) ?p) s1 = (ce, s2)" by fastforce
  have i2: "issued [CreatePermitCall ns n] s s2"
    using issued_quiet(1) [OF local_call_issued [OF k] kcall_issued [OF c]] .
  show ?thesis
  proof (cases "case ce of Some err \<Rightarrow> \<not> ek_IsAlreadyExists (en_cl e) err | None \<Rightarrow> False")
    case True
    with assms k c i2 show ?thesis by (auto simp: deleteAccountIn_def Let_def split: option.splits)
  next
    case False
    with assms k c obtain r3 s3 where
      p: "Poll (e_select e) (env_durationText E (30 * int second)) ''the deletion permit to be processed''
           (permit_processed e ns (om_Name (dp_Meta ?p))) s2 = Some (r3, s3)"
      and d: "(case kcall (\<lambda>_. DeleteAccountCall ns n) (ek_DeleteAccount (en_cl e) ns n) s3 of
          (Some err, s4) \<Rightarrow> if ek_IsNotFound (en_cl e) err then Some (None, s4)
            else Some (Some (wrap (''deleting account '' @ n @ '': '') err), s4)
        | (None, s4) \<Rightarrow> Some (None, s4)) = Some (r, s')"
      by (auto simp: deleteAccountIn_def Let_def bind_eq_Some_conv)
    have i3: "issued [] s2 s3" by (rule Poll_issued [OF p]) (rule permit_processed_issued)
    obtain de s4 where k4: "kcall (\<lambda>_. DeleteAccountCall ns n) (ek_DeleteAccount (en_cl e) ns n) s3 = (de, s4)"
      by fastforce
    with d have "s' = s4" by (auto split: option.splits if_splits)
    with issued_trans [OF i2 issued_quiet(1) [OF i3 kcall_issued [OF k4]]] show ?thesis by simp
  qed
qed

lemma delete_accounts_issued:
  assumes "delete_accounts E e ns names s = Some (r, s')"
  shows "(\<exists>k. issued (take k (deletion_calls ns names)) s s') \<and> (r = None \<longrightarrow> issued (deletion_calls ns names) s s')"
  using assms
proof (induction names arbitrary: s)
  case (Cons n names)
  from Cons.prems obtain r1 s1 where d: "deleteAccountIn E e ns n s = Some (r1, s1)"
    by (auto split: option.splits)
  note i = deleteAccountIn_issued [OF d]
  show ?case
  proof (cases r1)
    case (Some err)
    with Cons.prems d have "r \<noteq> None" "s' = s1" by auto
    with i have "issued (take 1 (deletion_calls ns (n # names))) s s' \<or> issued (take 2 (deletion_calls ns (n # names))) s s'"
      by (auto simp: numeral_2_eq_2)
    with \<open>r \<noteq> None\<close> show ?thesis by blast
  next
    case None
    with i have i1: "issued [CreatePermitCall ns n, DeleteAccountCall ns n] s s1" by simp
    from Cons.prems d None have "delete_accounts E e ns names s1 = Some (r, s')" by simp
    from Cons.IH [OF this] obtain k where k: "issued (take k (deletion_calls ns names)) s1 s'"
      and all: "r = None \<longrightarrow> issued (deletion_calls ns names) s1 s'" by blast
    from issued_trans [OF i1 k] have "issued (take (Suc (Suc k)) (deletion_calls ns (n # names))) s s'" by simp
    moreover from issued_trans [OF i1] all have "r = None \<longrightarrow> issued (deletion_calls ns (n # names)) s s'" by fastforce
    ultimately show ?thesis by blast
  qed
qed (auto intro!: exI [of _ 0])

text \<open>Waiting for the accounts to go only lists them.\<close>

definition listing :: "string \<Rightarrow> e2e_call \<Rightarrow> bool" where
  "listing ns c \<longleftrightarrow> (\<exists>r. c = ListAccountsCall ns r)"

lemma accountsIn_issued: "accountsIn e ns s = (r, s') \<Longrightarrow> issued [ListAccountsCall ns r] s s'"
  by (auto simp: accountsIn_def dest!: kcall_issued split: prod.splits)

lemma accounts_gone_issued:
  assumes "accounts_gone e ns (s, v) = ((ok, err), s', v')"
  shows "\<exists>r. issued [ListAccountsCall ns r] s s' \<and> (ok \<and> err = None \<longrightarrow> r = Inr [])"
  using assms by (auto simp: accounts_gone_def dest!: accountsIn_issued split: prod.splits sum.splits)

lemma wait_gone_issued:
  assumes "Poll (with_var (e_select e)) t w (accounts_gone e ns) (s, v) = Some (r, s', v')"
  shows "\<exists>cs. list_all (listing ns) cs \<and>
    (issued cs s s' \<and> r \<noteq> None \<or> issued (cs @ [ListAccountsCall ns (Inr [])]) s s' \<and> r = None)"
proof -
  let ?I = "\<lambda>sv. \<exists>cs. list_all (listing ns) cs \<and> issued cs s (fst sv)"
  have "?I (s', v') \<and> (r = None \<longrightarrow> (\<exists>s0. ?I s0 \<and> accounts_gone e ns s0 = ((True, None), s', v')))"
  proof (rule Poll_rule [OF assms, of ?I])
    fix sv x sv1
    assume "?I sv" and g: "accounts_gone e ns sv = (x, sv1)"
    then obtain cs where "list_all (listing ns) cs" "issued cs s (fst sv)" by blast
    moreover from g obtain c where "issued [ListAccountsCall ns c] (fst sv) (fst sv1)"
      using accounts_gone_issued [of e ns "fst sv" "snd sv" "fst x" "snd x" "fst sv1" "snd sv1"] by auto
    ultimately have "list_all (listing ns) (cs @ [ListAccountsCall ns c])" "issued (cs @ [ListAccountsCall ns c]) s (fst sv1)"
      by (auto simp: listing_def intro: issued_trans)
    then show "?I sv1" by blast
  next
    fix sv x sv1
    assume "?I sv" and "with_var (e_select e) sv = (x, sv1)"
    then show "?I sv1"
      by (cases sv) (force simp: with_var_def intro: issued_quiet(2) dest: e_select_issued split: prod.splits)
  qed (auto intro!: exI [of _ "[]"])
  then show ?thesis
  proof (cases r)
    case None
    with \<open>?I (s', v') \<and> (r = None \<longrightarrow> (\<exists>s0. ?I s0 \<and> accounts_gone e ns s0 = ((True, None), s', v')))\<close>
    obtain s0 cs where "list_all (listing ns) cs" "issued cs s (fst s0)"
      and g: "accounts_gone e ns s0 = ((True, None), s', v')" by blast
    moreover from accounts_gone_issued [of e ns "fst s0" "snd s0" True None s' v'] g
    have "issued [ListAccountsCall ns (Inr [])] (fst s0) s'" by auto
    ultimately show ?thesis using None issued_trans by blast
  qed auto
qed

lemma drop_namespace_issued:
  "drop_namespace E e ns names s = (r, s') \<Longrightarrow> issued [DeleteNamespaceCall ns] s s'"
  by (auto simp: drop_namespace_def Let_def dest!: leftovers_issued kcall_issued intro: issued_quiet split: prod.splits)

text \<open>The calls of one clean-up: either the namespace is not dropped, or everything before was
  done.\<close>

lemma cleanup_issued:
  assumes "cleanupNamespace E e ns t s = Some (r, s')"
  obtains (kept) cs where "issued cs s s'" "r \<noteq> None"
      "\<forall>c \<in> set cs. listing ns c \<or> (\<exists>n. c = CreatePermitCall ns n \<or> c = DeleteAccountCall ns n)"
  | (dropped) names lists where "list_all (listing ns) lists"
      "issued (ListAccountsCall ns (Inr names) # deletion_calls ns names @ lists @
        [ListAccountsCall ns (Inr []), DeleteNamespaceCall ns]) s s'"
proof -
  obtain ls s1 where l: "accountsIn e ns s = (ls, s1)" by fastforce
  note i1 = accountsIn_issued [OF l]
  show thesis
  proof (cases ls)
    case (Inl err)
    with assms l have "s' = s1" "r \<noteq> None" by (auto simp: cleanupNamespace_def)
    with i1 show thesis by (auto intro!: kept simp: listing_def)
  next
    case (Inr names)
    with assms l obtain r2 s2 where d: "delete_accounts E e ns names s1 = Some (r2, s2)"
      by (auto simp: cleanupNamespace_def split: option.splits)
    note i2 = delete_accounts_issued [OF d]
    have sub: "\<forall>c \<in> set (deletion_calls ns names). \<exists>n. c = CreatePermitCall ns n \<or> c = DeleteAccountCall ns n"
      by (auto simp: deletion_calls_def)
    show thesis
    proof (cases r2)
      case (Some err)
      with assms l Inr d have z: "s' = s2" "r \<noteq> None" by (auto simp: cleanupNamespace_def)
      from i2 obtain k where "issued (take k (deletion_calls ns names)) s1 s2" by blast
      moreover from sub have "\<forall>c \<in> set (take k (deletion_calls ns names)).
        \<exists>n. c = CreatePermitCall ns n \<or> c = DeleteAccountCall ns n" by (meson in_set_takeD)
      ultimately show thesis
        using issued_trans [OF i1] z by (intro kept [of "[ListAccountsCall ns ls] @ take k (deletion_calls ns names)"])
          (auto simp: listing_def)
    next
      case None
      with i2 have i2: "issued (deletion_calls ns names) s1 s2" by simp
      from None assms l Inr d obtain r3 s3 left where
        p: "Poll (with_var (e_select e)) (env_durationText E t) ''all accounts of the run to be gone''
          (accounts_gone e ns) (s2, []) = Some (r3, s3, left)"
        by (auto simp: cleanupNamespace_def split: option.splits)
      from wait_gone_issued [OF p] obtain lists where ll: "list_all (listing ns) lists" and
        i3: "issued lists s2 s3 \<and> r3 \<noteq> None \<or> issued (lists @ [ListAccountsCall ns (Inr [])]) s2 s3 \<and> r3 = None"
        by blast
      show thesis
      proof (cases r3)
        case (Some err)
        with assms l Inr d None p have z: "s' = s3" "r \<noteq> None" by (auto simp: cleanupNamespace_def)
        from i3 Some have "issued lists s2 s3" by simp
        from issued_trans [OF i1 issued_trans [OF i2 this]] z ll show thesis
          by (intro kept) (auto simp: listing_def list_all_iff deletion_calls_def)
      next
        case n: None
        with assms l Inr d None p have "drop_namespace E e ns names s3 = (r, s')"
          by (auto simp: cleanupNamespace_def)
        note i4 = drop_namespace_issued [OF this]
        from i3 n have "issued (lists @ [ListAccountsCall ns (Inr [])]) s2 s3" by simp
        from issued_trans [OF i1 issued_trans [OF i2 issued_trans [OF this i4]]] ll Inr show thesis
          by (intro dropped [of lists names]) auto
      qed
    qed
  qed
qed

text \<open>C38: A clean-up drops a namespace only as its last call, right after a listing that found no
  account in it.  Before that it listed the accounts once and, for each of them in order, created
  a deletion permit and only then deleted the account; in between it only listed.\<close>

theorem namespace_dropped_last:
  assumes "cleanupNamespace E e ns t s = Some (r, s')" and "e_calls s' = e_calls s @ cs"
    and "DeleteNamespaceCall n \<in> set cs"
  shows "n = ns \<and> (\<exists>names lists. list_all (listing ns) lists \<and>
    cs = ListAccountsCall ns (Inr names) # deletion_calls ns names @ lists @
      [ListAccountsCall ns (Inr []), DeleteNamespaceCall ns])"
  using assms(1)
proof (cases rule: cleanup_issued)
  case (kept ds)
  with assms(2,3) show ?thesis by (auto simp: issued_def listing_def)
next
  case (dropped names lists)
  with assms(2) have cs: "cs = ListAccountsCall ns (Inr names) # deletion_calls ns names @ lists @
      [ListAccountsCall ns (Inr []), DeleteNamespaceCall ns]" by (simp add: issued_def)
  with assms(3) dropped(1) have "n = ns" by (auto simp: deletion_calls_def list_all_iff listing_def)
  with cs dropped(1) show ?thesis by blast
qed

subsection \<open>The sweep\<close>

fun call_namespace :: "e2e_call \<Rightarrow> string" where
  "call_namespace (CreateNamespaceCall n) = n"
| "call_namespace (DeleteNamespaceCall n) = n"
| "call_namespace (CreatePermitCall n a) = n"
| "call_namespace (CreateAccountCall n a) = n"
| "call_namespace (DeleteAccountCall n a) = n"
| "call_namespace (ListAccountsCall n r) = n"

lemma cleanup_scope:
  assumes "cleanupNamespace E e ns t s = Some (r, s')"
  shows "\<exists>cs. issued cs s s' \<and> (\<forall>c \<in> set cs. call_namespace c = ns)"
  using assms
proof (cases rule: cleanup_issued)
  case (kept cs)
  then show ?thesis by (force simp: listing_def)
next
  case (dropped names lists)
  have "\<forall>c \<in> set (ListAccountsCall ns (Inr names) # deletion_calls ns names @ lists @
      [ListAccountsCall ns (Inr []), DeleteNamespaceCall ns]). call_namespace c = ns"
    using dropped(1) by (auto simp: deletion_calls_def list_all_iff listing_def)
  with dropped(2) show ?thesis by blast
qed

text \<open>A namespace of \<open>listed\<close> that is stale at some reading of the clock.\<close>

definition swept :: "'w env \<Rightarrow> duration \<Rightarrow> namespaceInfo list \<Rightarrow> string \<Rightarrow> bool" where
  "swept E olderThan listed n \<longleftrightarrow>
     (\<exists>ns \<in> set listed. ni_Name ns = n \<and> (\<exists>w t w'. env_now E w = (t, w') \<and> stale olderThan t ns))"

lemma check_stale_issued:
  fixes s s' :: "('w, 'z) e2e_sys_scheme"
  assumes "check_stale E olderThan ns s = (b, s')"
  shows "issued [] s s' \<and> (b \<longrightarrow> (\<exists>w t w'. env_now E w = (t, w') \<and> stale olderThan t ns))"
proof (cases "\<not> re_match runNamespacePattern (ni_Name ns) \<or> ni_Deleting ns")
  case False
  obtain t s1 where n: "now E s = (t, s1)" by fastforce
  with False assms have "b = stale olderThan t ns" "s' = s1" by (auto simp: check_stale_def)
  with now_frame [OF n] issued_sys_more show ?thesis by blast
qed (use assms in \<open>auto simp: check_stale_def\<close>)

lemma sweep_issued:
  assumes "sweep E e olderThan t nss s = Some (lines, s')" and "set nss \<subseteq> set listed"
  shows "\<exists>cs. issued cs s s' \<and> (\<forall>c \<in> set cs. swept E olderThan listed (call_namespace c))"
  using assms
proof (induction nss arbitrary: s lines)
  case (Cons ns nss)
  obtain b s1 where b: "check_stale E olderThan ns s = (b, s1)" by fastforce
  note i1 = check_stale_issued [OF b]
  show ?case
  proof (cases b)
    case False
    with Cons.prems(1) b have "sweep E e olderThan t nss s1 = Some (lines, s')" by simp
    from Cons.IH [OF this] Cons.prems(2) obtain cs where
      "issued cs s1 s'" "\<forall>c \<in> set cs. swept E olderThan listed (call_namespace c)" by auto
    with i1 issued_quiet(1) show ?thesis by blast
  next
    case True
    with Cons.prems(1) b obtain r s2 lines2 where c: "cleanupNamespace E e (ni_Name ns) t s1 = Some (r, s2)"
      and rest: "sweep E e olderThan t nss s2 = Some (lines2, s')"
      by (auto simp: bind_eq_Some_conv)
    from cleanup_scope [OF c] obtain cs where cs: "issued cs s1 s2" "\<forall>c \<in> set cs. call_namespace c = ni_Name ns" by blast
    from Cons.IH [OF rest] Cons.prems(2) obtain ds where
      ds: "issued ds s2 s'" "\<forall>c \<in> set ds. swept E olderThan listed (call_namespace c)" by auto
    have "swept E olderThan listed (ni_Name ns)" using i1 True Cons.prems(2) by (auto simp: swept_def)
    with cs(2) ds(2) have "\<forall>c \<in> set (cs @ ds). swept E olderThan listed (call_namespace c)" by auto
    moreover from i1 issued_trans [OF cs(1) ds(1)] issued_quiet(1) have "issued (cs @ ds) s s'" by blast
    ultimately show ?thesis by blast
  qed
qed auto

text \<open>Whatever a sweep does, it does to a namespace that was listed, has a name of the run
  pattern, is not being deleted and is old enough.\<close>

theorem sweep_scope:
  assumes "SweepStale E e olderThan t s = Some (lines, s')" and "e_calls s' = e_calls s @ cs" and "c \<in> set cs"
  shows "\<exists>listed w ns. ek_ListNamespaces (en_cl e) (world s) = (Inr listed, w) \<and> ns \<in> set listed \<and>
    call_namespace c = ni_Name ns \<and> re_match runNamespacePattern (ni_Name ns) \<and> \<not> ni_Deleting ns \<and>
    (\<exists>w t w'. env_now E w = (t, w') \<and> olderThan \<le> t - ni_CreationTimestamp ns)"
proof -
  obtain l s1 where l: "local_call (ek_ListNamespaces (en_cl e)) s = (l, s1)" by fastforce
  note i1 = local_call_issued [OF l]
  show ?thesis
  proof (cases l)
    case (Inl err)
    with assms l i1 show ?thesis by (auto simp: SweepStale_def issued_def)
  next
    case (Inr listed)
    with assms(1) l have "sweep E e olderThan t listed s1 = Some (lines, s')" by (simp add: SweepStale_def)
    from sweep_issued [OF this subset_refl] obtain ds where ds: "issued ds s1 s'"
      "\<forall>c \<in> set ds. swept E olderThan listed (call_namespace c)" by blast
    with i1 assms(2,3) have "swept E olderThan listed (call_namespace c)" by (simp add: issued_def)
    moreover from local_call_frame [OF l] Inr
    have "ek_ListNamespaces (en_cl e) (world s) = (Inr listed, world s1)" by simp
    ultimately show ?thesis unfolding swept_def stale_def by (metis linorder_not_less)
  qed
qed

subsection \<open>The limit on real accounts\<close>

fun is_account_create :: "e2e_call \<Rightarrow> bool" where
  "is_account_create (CreateAccountCall n a) = True"
| "is_account_create _ = False"

definition accounts_created :: "('w, 'z) e2e_sys_scheme \<Rightarrow> int" where
  "accounts_created s = int (length (filter is_account_create (e_calls s)))"

text \<open>What the tests do with fixtures, in any order.\<close>

inductive fixture_step ::
  "'w env \<Rightarrow> xpv1 \<Rightarrow> ('w, 'cfg) e2e \<Rightarrow> ('w, 'z) e2e_sys_scheme \<Rightarrow> ('w, 'z) e2e_sys_scheme \<Rightarrow> bool" for E X e where
  fx_declare: "fixture_step E X e s (Fixture name build s)"
| fx_started: "map_of (e_fixtures s) name = Some f \<Longrightarrow> fixture_Start e f s = (r, f1, s') \<Longrightarrow> fixture_step E X e s s'"
| fx_readied: "map_of (e_fixtures s) name = Some f \<Longrightarrow> fixture_Ready E X e f t s = Some (r, f1, s') \<Longrightarrow>
    fixture_step E X e s s'"
| fx_deleted: "map_of (e_fixtures s) name = Some f \<Longrightarrow> fixture_Delete E X e f t u s = Some (r, f1, s') \<Longrightarrow>
    fixture_step E X e s s'"

inductive fixture_steps ::
  "'w env \<Rightarrow> xpv1 \<Rightarrow> ('w, 'cfg) e2e \<Rightarrow> ('w, 'z) e2e_sys_scheme \<Rightarrow> ('w, 'z) e2e_sys_scheme \<Rightarrow> bool" for E X e where
  fs_refl: "fixture_steps E X e s s"
| fs_step: "fixture_steps E X e s s1 \<Longrightarrow> fixture_step E X e s1 s2 \<Longrightarrow> fixture_steps E X e s s2"

text \<open>The invariant: as many creates as the counter allows, and the limit.\<close>

definition capped :: "int \<Rightarrow> ('w, 'z) e2e_sys_scheme \<Rightarrow> bool" where
  "capped cap s \<longleftrightarrow> 0 \<le> e_started s \<and> accounts_created s \<le> e_started s \<and> accounts_created s \<le> max 0 cap"

lemma capped_issued:
  "issued cs s s' \<Longrightarrow> \<forall>c \<in> set cs. \<not> is_account_create c \<Longrightarrow> capped cap s \<Longrightarrow> capped cap s'"
  by (simp add: capped_def issued_def accounts_created_def)

lemma capped_set_fixture [simp]: "capped cap (set_fixture n f s) = capped cap s"
  by (simp add: capped_def set_fixture_def accounts_created_def)

lemma start_account_capped:
  assumes "start_account e f s = (r, s')" and "capped (ec_MaxAccounts (en_Cfg e)) s"
  shows "capped (ec_MaxAccounts (en_Cfg e)) s'"
  using assms
  by (auto simp: start_account_def Let_def capped_def accounts_created_def issued_def dest!: kcall_issued
      split: if_splits prod.splits option.splits)

lemma fixture_Start_capped:
  "fixture_Start e f s = (r, f1, s') \<Longrightarrow> capped (ec_MaxAccounts (en_Cfg e)) s \<Longrightarrow> capped (ec_MaxAccounts (en_Cfg e)) s'"
  by (auto simp: fixture_Start_def Let_def dest: start_account_capped split: option.splits prod.splits)

lemma becomes_ready_issued: "becomes_ready X e ns n sr = (x, sr1) \<Longrightarrow> issued [] (fst sr) (fst sr1)"
  by (auto simp: becomes_ready_def dest!: local_call_issued split: prod.splits sum.splits if_splits)

lemma Poll_var_issued:
  fixes s s' :: "('w, 'z) e2e_sys_scheme"
  assumes "Poll (with_var (e_select e)) t w cond (s, v) = Some (r, s', v')"
    and "\<And>(sv :: ('w, 'z) e2e_sys_scheme \<times> 'v) x sv1. cond sv = (x, sv1) \<Longrightarrow> issued [] (fst sv) (fst sv1)"
  shows "issued [] s s'"
proof -
  have "issued [] s (fst (s', v')) \<and> (r = None \<longrightarrow> (\<exists>s0. issued [] s (fst s0) \<and> cond s0 = ((True, None), (s', v'))))"
    by (rule Poll_rule [OF assms(1), of "\<lambda>sv. issued [] s (fst sv)"])
      (auto simp: with_var_def intro: issued_quiet(1) [OF _ assms(2)] issued_quiet(1) [OF _ e_select_issued]
        split: prod.splits)
  then show ?thesis by simp
qed

lemma fixture_Ready_capped:
  assumes "fixture_Ready E X e f t s = Some (r, f1, s')" and "capped (ec_MaxAccounts (en_Cfg e)) s"
  shows "capped (ec_MaxAccounts (en_Cfg e)) s'"
proof -
  obtain a f2 s1 where a: "fixture_Start e f s = (a, f2, s1)" by (metis prod_cases3)
  note c1 = fixture_Start_capped [OF a assms(2)]
  show ?thesis
  proof (cases "\<exists>acc. a = Inr acc \<and> fx_ready f2 = None")
    case True
    then obtain acc where acc: "a = Inr acc" "fx_ready f2 = None" by blast
    with assms(1) a obtain err s2 ready where
      p: "Poll (with_var (e_select e)) (env_durationText E t) (''fixture '' @ quote_go (fx_Name f2) @ '' to become ready'')
        (becomes_ready X e (om_Namespace (sa_Meta acc)) (om_Name (sa_Meta acc))) (s1, None) = Some (err, s2, ready)"
      and z: "s' = set_fixture (fx_Name f2) (f2\<lparr>fx_ready := Some (ready, err)\<rparr>) s2"
      by (auto simp: fixture_Ready_def Let_def bind_eq_Some_conv)
    have "issued [] s1 s2" by (rule Poll_var_issued [OF p]) (rule becomes_ready_issued)
    from capped_issued [OF this _ c1] z show ?thesis by simp
  next
    case False
    with assms(1) a have "s' = s1" by (auto simp: fixture_Ready_def split: sum.splits option.splits)
    with c1 show ?thesis by simp
  qed
qed

lemma account_gone_issued:
  fixes s s' :: "('w, 'z) e2e_sys_scheme"
  shows "account_gone e ns n s = (x, s') \<Longrightarrow> issued [] s s'"
  by (auto simp: account_gone_def dest!: local_call_issued split: prod.splits sum.splits if_splits)

lemma fixture_Delete_capped:
  assumes "fixture_Delete E X e f t u s = Some (r, f1, s')" and "capped (ec_MaxAccounts (en_Cfg e)) s"
  shows "capped (ec_MaxAccounts (en_Cfg e)) s'"
proof -
  from assms(1) obtain ready err f2 s1 where r: "fixture_Ready E X e f t s = Some ((ready, err), f2, s1)"
    by (auto simp: fixture_Delete_def split: option.splits)
  note c1 = fixture_Ready_capped [OF r assms(2)]
  show ?thesis
  proof (cases "\<exists>acc. ready = Some acc \<and> err = None \<and> fx_delete f2 = None")
    case True
    then obtain acc where acc: "ready = Some acc" "err = None" "fx_delete f2 = None" by blast
    with assms(1) r obtain derr s2 err2 s3 where
      d: "DeleteAccount E e (om_Name (sa_Meta acc)) s1 = Some (derr, s2)"
      and p: "(if derr \<noteq> None then Some (derr, s2) else Poll (e_select e) (env_durationText E u)
          (''fixture '' @ quote_go (fx_Name f2) @ '' to be gone'')
          (account_gone e (om_Namespace (sa_Meta acc)) (om_Name (sa_Meta acc))) s2) = Some (err2, s3)"
      and z: "s' = set_fixture (fx_Name f2) (f2\<lparr>fx_delete := Some err2\<rparr>) s3"
      by (auto simp: fixture_Delete_def Let_def bind_eq_Some_conv)
    from deleteAccountIn_issued [OF d [unfolded DeleteAccount_def]] capped_issued [OF _ _ c1]
    have c2: "capped (ec_MaxAccounts (en_Cfg e)) s2" by fastforce
    have "issued [] s2 s3"
      using p by (auto split: if_splits intro: Poll_issued account_gone_issued)
    from capped_issued [OF this _ c2] z show ?thesis by simp
  next
    case False
    with assms(1) r have "s' = s1" by (auto simp: fixture_Delete_def split: option.splits)
    with c1 show ?thesis by simp
  qed
qed

lemma fixture_step_capped:
  "fixture_step E X e s s' \<Longrightarrow> capped (ec_MaxAccounts (en_Cfg e)) s \<Longrightarrow> capped (ec_MaxAccounts (en_Cfg e)) s'"
  by (induction rule: fixture_step.induct)
    (auto simp: Fixture_def intro: fixture_Start_capped fixture_Ready_capped fixture_Delete_capped split: option.splits)

lemma fixture_steps_capped:
  "fixture_steps E X e s s' \<Longrightarrow> capped (ec_MaxAccounts (en_Cfg e)) s \<Longrightarrow> capped (ec_MaxAccounts (en_Cfg e)) s'"
  by (induction rule: fixture_steps.induct) (auto intro: fixture_step_capped)

lemma LoadConfig_Inr:
  assumes "LoadConfig F = Inr c"
  shows "1 \<le> ec_MaxAccounts c \<and> ec_MaxAccounts c \<le> HardMaxAccounts \<and>
    (\<exists>dir. base_Load (cf_base F) dir = Inr (ec_Base c) \<and> backplane_Load (cf_backplane F) dir = Inr (ec_Backplane c))"
  using assms
  by (auto simp: LoadConfig_def and_then_def max_accounts_def DefaultMaxAccounts_def HardMaxAccounts_def
      split: sum.splits if_splits option.splits)

text \<open>However the tests declare, start, await and delete fixtures, a run creates no more accounts
  for them than the loaded limit, and never more than the hard one.\<close>

theorem accounts_capped:
  assumes "fixture_steps E X e s s'" and "e_started s = 0" and "accounts_created s = 0"
    and "LoadConfig F = Inr (en_Cfg e)"
  shows "accounts_created s' \<le> ec_MaxAccounts (en_Cfg e) \<and> ec_MaxAccounts (en_Cfg e) \<le> HardMaxAccounts"
proof -
  note cap = LoadConfig_Inr [OF assms(4)]
  from assms(2,3) have "capped (ec_MaxAccounts (en_Cfg e)) s" by (simp add: capped_def)
  from fixture_steps_capped [OF assms(1) this]
  cap show ?thesis by (simp add: capped_def)
qed

text \<open>The limit counts every account the run has started: deleting one makes no room.\<close>

lemma limit_counts_deleted:
  assumes "e_started s \<ge> ec_MaxAccounts (en_Cfg e)" and "DeleteAccount E e n s = Some (None, s')"
    and "fx_start f = None"
  shows "\<exists>k. fst (fixture_Start e f s') = Inl (too_many_error (fx_Name f) k (ec_MaxAccounts (en_Cfg e)))"
proof -
  from deleteAccountIn_issued [OF assms(2) [unfolded DeleteAccount_def]] have "e_started s' = e_started s"
    by (auto simp: issued_def)
  with assms(1,3) show ?thesis by (auto simp: fixture_Start_def start_account_def Let_def)
qed

text \<open>When the last listing fails, the error says that no account is left.\<close>

lemma failed_listing_forgets:
  "accountsIn e ns (fst sl) = (Inl err, s1) \<Longrightarrow> accounts_gone e ns sl = ((False, Some err), s1, [])"
  by (simp add: accounts_gone_def)

subsection \<open>Names, regions and the probe\<close>

lemma name_limit:
  assumes "am_org m = ec_Org c" and "bp_Regions (am_backplane m) (as_Region (sa_Spec cr)) = Some rg"
    and "AlphaTester ls = Inr alpha" and "rg_Available rg \<or> alpha"
  shows "checkCreatable m cr (ResolveName (om_Name (sa_Meta cr)) ns) ls = None \<longleftrightarrow>
    int (length (om_Name (sa_Meta cr))) \<le> MaxAccountNameLength c ns"
  using assms
  by (auto simp: checkCreatable_def Region_def Let_def MaxAccountNameLength_def maxAccountLabelLen_def
      snowflakeLabelLimit_def)

text \<open>The labels of a run namespace lift the check that the region is available.\<close>

lemma run_namespace_is_alpha: "AlphaTester (map_of runNamespaceLabels) = Inr True"
  by (simp add: runNamespaceLabels_def AlphaTester_def alphaTesterLabel_def parse_bool_def)

lemma load_regions_finite:
  "load_regions raws names regions = Inr regions' \<Longrightarrow> finite (dom regions) \<Longrightarrow> finite (dom regions')"
  by (induction raws names regions rule: load_regions.induct)
    (auto simp: and_then_Inr split: option.splits)

lemma unknown_region_name_inj: "unknown_region_name i = unknown_region_name j \<Longrightarrow> i = j"
  by (simp add: unknown_region_name_def)

lemma unknown_region_ends:
  assumes "finite (dom (bp_Regions bp))"
  shows "\<exists>k. unknown_region_from bp (unknown_region_name i) (i + 1) = Some (unknown_region_name k) \<and>
    bp_Regions bp (unknown_region_name k) = None"
proof -
  have inj: "inj unknown_region_name" by (rule injI) (rule unknown_region_name_inj)
  have fin: "finite {j. unknown_region_name j \<in> dom (bp_Regions bp)}"
    using finite_vimageI [OF assms inj] by (simp add: vimage_def)
  show ?thesis
  proof (induction "card ({j. unknown_region_name j \<in> dom (bp_Regions bp)} \<inter> {i..})" arbitrary: i rule: less_induct)
    case less
    show ?case
    proof (cases "bp_Regions bp (unknown_region_name i)")
      case None
      then show ?thesis by (subst unknown_region_from.simps) auto
    next
      case (Some r)
      let ?S = "\<lambda>i. {j. unknown_region_name j \<in> dom (bp_Regions bp)} \<inter> {i..}"
      have "i \<in> ?S i" "i \<notin> ?S (i + 1)" "?S (i + 1) \<subseteq> ?S i" using Some by auto
      then have "?S (i + 1) \<subset> ?S i" by blast
      from psubset_card_mono [OF _ this] fin have "card (?S (i + 1)) < card (?S i)" by blast
      from less [OF this] Some show ?thesis by (subst unknown_region_from.simps) auto
    qed
  qed
qed

lemma LoadConfig_finite: "LoadConfig F = Inr c \<Longrightarrow> finite (dom (bp_Regions (ec_Backplane c)))"
proof -
  assume "LoadConfig F = Inr c"
  from LoadConfig_Inr [OF this] obtain dir where
    "backplane_Load (cf_backplane F) dir = Inr (ec_Backplane c)" by blast
  with backplane_Load_Inr obtain raws where
    "load_regions raws (sort (map fst raws)) (\<lambda>_. None) = Inr (bp_Regions (ec_Backplane c))" by blast
  from load_regions_finite [OF this] show ?thesis by simp
qed

lemma first_unknown_region: "''aws-e2e-unknown-1'' = unknown_region_name 1"
  by code_simp

lemma UnknownRegion_fresh:
  assumes "LoadConfig F = Inr c"
  shows "\<exists>k. UnknownRegion c = Some (unknown_region_name k) \<and> bp_Regions (ec_Backplane c) (unknown_region_name k) = None"
  using unknown_region_ends [OF LoadConfig_finite [OF assms], of 1]
  by (simp add: UnknownRegion_def first_unknown_region numeral_2_eq_2)

lemma unknown_region_admitted: "re_match regionPattern (unknown_region_name k)"
proof -
  have tail: "''e2e-unknown-'' @ show_nat k \<in> re_lang (re_head_tail is_lower (\<lambda>c. is_lower c \<or> is_digit c \<or> c = CHR ''-''))"
    unfolding re_match_iff [symmetric] re_match_head_tail
    using show_nat_digits [of k] by (auto simp: list_all_iff byte_class_defs)
  have conc: "xs \<in> re_lang r \<Longrightarrow> ys \<in> re_lang q \<Longrightarrow> xs @ ys \<in> re_lang (RSeq r q)" for xs ys r q
    by (auto simp: re_conc_iff)
  have "''aws'' @ ''-'' @ ''e2e-unknown-'' @ show_nat k \<in> re_lang regionPattern"
    unfolding regionPattern_def by (intro conc tail) simp_all
  then show ?thesis unfolding re_match_iff by (simp add: unknown_region_name_def)
qed

lemma probe_name_valid: "accountName_valid ''operator-probe''"
  by code_simp

lemma probe_contact_valid: "re_match contactPattern ''e2e@example.com''"
  by code_simp

lemma probe_admitted:
  "account_valid (NewAccount ''operator-probe'' ns (unknown_region_name k))"
  using probe_name_valid probe_contact_valid unknown_region_admitted [of k]
  by (simp add: account_valid_def NewAccount_def zero_meta_def accountSpec_valid_def rune_count_def
      environments_def identityIntegration_valid_def)

lemma unknown_region_Apply:
  assumes "bp_Regions (am_backplane m) (as_Region (sa_Spec (ac_cr s))) = None" and "cr_locator s = []"
    and "account_Apply E m data s = (out, s')"
  shows "trace s' = trace s \<and> cr_locator s' = [] \<and> oc_State out = StateFailed \<and> oc_Err out \<noteq> None"
  using assms
  by (auto simp: account_Apply_def account_apply_def createAccount_def checkCreatable_def Region_def syncStatus_def
      set_status_def Let_def Abort_def Failed_def split: prod.splits)

text \<open>C39: The probe of the start-up check is harmless: with the configuration the operator runs on,
  the API server admits it, and the operator's Create for it fails without a call to Snowflake or
  to the secret store and without recording a locator.\<close>

theorem probe_refused:
  fixes s :: "('w, 'z) acc_sys_scheme"
  assumes "LoadConfig F = Inr c" and "UnknownRegion c = Some region"
    and "sa_Spec (ac_cr s) = sa_Spec (NewAccount ''operator-probe'' ns region)" and "cr_locator s = []"
    and "Create E X (account_client E kube cfg km (ec_Backplane c)) s = (r, s')"
  shows "account_valid (NewAccount ''operator-probe'' ns region) \<and> emits is_controller s s' \<and>
    cr_locator s' = [] \<and> r \<noteq> None"
proof -
  from UnknownRegion_fresh [OF assms(1)] assms(2) obtain k where
    k: "region = unknown_region_name k" "bp_Regions (ec_Backplane c) region = None" by auto
  from assms(3) have reg: "as_Region (sa_Spec (ac_cr s)) = region" by (simp add: NewAccount_def)
  let ?e = "account_client E kube cfg km (ec_Backplane c)"
  let ?m = "account_module_of cfg km (ec_Backplane c)"
  from assms(5) have a: "apply_cr E X ?e s = (r, s')" by (simp add: Create_def)
  have "emits is_controller s s' \<and> cr_locator s' = [] \<and> r \<noteq> None"
    using a
  proof (cases rule: apply_cr_cases)
    case no_labels
    with assms(4) show ?thesis by simp
  next
    case (ran data s2 res s3 u s4)
    from pipeline_Apply_account [OF account_client_fields(4) ran(5)] obtain out s1 where
      o: "account_Apply E ?m data s2 = (out, s1)" "trace s3 = trace s1" "cr_locator s3 = cr_locator s1"
        "ar_Outcomes res = [out\<lparr>oc_Module := accountModuleName\<rparr>]" by metis
    have "bp_Regions (am_backplane ?m) (as_Region (sa_Spec (ac_cr s2))) = None" "cr_locator s2 = []"
      using ran(2) reg k(2) assms(4) by (simp_all add: account_module_of_def account_New_def)
    note f = unknown_region_Apply [OF this o(1)]
    have "emits is_controller s2 s3" using f o(2) by (simp add: emits_same)
    moreover have "emits is_controller s4 s'" by (rule emits_mono [OF ran(7)]) (rule is_controllerI)
    ultimately have "emits is_controller s s'" using ran(1,6) emits_trans by blast
    moreover have "cr_locator s' = []" using ran(9) o(3) f by (simp add: same_record_def)
    moreover have "r \<noteq> None" using ran(13) o(4) f by simp
    ultimately show ?thesis by blast
  qed
  with probe_admitted k(1) show ?thesis by simp
qed

definition account_gone_for_good ::
  "'w env \<Rightarrow> ('w, 'cfg) e2e \<Rightarrow> string \<Rightarrow> string \<Rightarrow> ('w, 'z) e2e_sys_scheme \<Rightarrow> bool" where
  "account_gone_for_good E e ns n s \<longleftrightarrow>
     (\<exists>s1 info s2. AccountRow E e (ResolveName n ns) s = (Inr None, s1) \<and>
        SecretInfoIn e ns n s1 = (Inr info, s2) \<and> (si_Exists info \<longrightarrow> si_ScheduledForDeletion info))"

text \<open>A clean-up that reports success found nothing of any account it deleted: Snowflake does not
  list it and its secret is gone or scheduled for deletion.\<close>

lemma leftovers_Nil:
  fixes s :: "('w, 'z) e2e_sys_scheme"
  shows "leftovers E e ns names s = ([], s') \<Longrightarrow> n \<in> set names \<Longrightarrow>
    \<exists>s0 :: ('w, 'z) e2e_sys_scheme. account_gone_for_good E e ns n s0"
proof (induction names arbitrary: s s')
  case (Cons m names)
  obtain row s1 where a: "AccountRow E e (ResolveName m ns) s = (row, s1)" by fastforce
  obtain info s2 where b: "SecretInfoIn e ns m s1 = (info, s2)" by fastforce
  obtain ps s3 where l: "leftovers E e ns names s2 = (ps, s3)" by fastforce
  from Cons.prems(1) a b l have "snowflake_leftover (ResolveName m ns) row = []" "secret_leftover ns m info = []" "ps = []"
    by (auto simp: Let_def)
  note clean = this
  show ?case
  proof (cases "n = m")
    case True
    from clean(1) have "row = Inr None"
      by (auto simp: snowflake_leftover_def row_Found_def split: sum.splits if_splits)
    moreover from clean(2) obtain i where "info = Inr i" "si_Exists i \<longrightarrow> si_ScheduledForDeletion i"
      by (auto simp: secret_leftover_def split: sum.splits if_splits)
    ultimately show ?thesis using a b True by (auto simp: account_gone_for_good_def)
  next
    case False
    with Cons.prems(2) have "n \<in> set names" by simp
    from Cons.IH [OF l [unfolded clean(3)] this] show ?thesis .
  qed
qed simp

lemma cleanup_success:
  fixes s :: "('w, 'z) e2e_sys_scheme"
  assumes "cleanupNamespace E e ns t s = Some (None, s')"
  shows "\<exists>names s1. accountsIn e ns s = (Inr names, s1) \<and>
    (\<forall>n \<in> set names. \<exists>s0 :: ('w, 'z) e2e_sys_scheme. account_gone_for_good E e ns n s0)"
proof -
  obtain ls s1 where l: "accountsIn e ns s = (ls, s1)" by fastforce
  with assms obtain names where ls: "ls = Inr names" by (cases ls) (auto simp: cleanupNamespace_def)
  with assms l obtain s3 where "drop_namespace E e ns names s3 = (None, s')"
    by (auto simp: cleanupNamespace_def split: option.splits prod.splits)
  then obtain s4 where "leftovers E e ns names s3 = ([], s4)"
    by (auto simp: drop_namespace_def Let_def split: prod.splits if_splits)
  with l ls leftovers_Nil show ?thesis by blast
qed

subsection \<open>Concrete runs\<close>

text \<open>The world is the number of accounts that exist; deleting one leaves none.\<close>

definition sample_aws :: "nat aws_client" where
  "sample_aws =
     \<lparr>sm_GetSecretValue = (\<lambda>n w. (Inl (Foreign ''none''), w)), sm_CreateSecret = (\<lambda>i w. (None, w)),
      sm_PutSecretValue = (\<lambda>n v w. (None, w)), sm_DeleteSecret = (\<lambda>n d w. (None, w))\<rparr>"

definition sample_clients :: "(nat, unit) e2e_clients" where
  "sample_clients =
     \<lparr>ek_CreateNamespace = (\<lambda>n l w. (None, w)), ek_DeleteNamespace = (\<lambda>n w. (None, w)),
      ek_ListNamespaces = (\<lambda>w. (Inr [\<lparr>ni_Name = ''e2e-20260101000000'', ni_CreationTimestamp = 0, ni_Deleting = False\<rparr>], w)),
      ek_CreatePermit = (\<lambda>p w. (None, w)),
      ek_GetPermit = (\<lambda>ns n w. (Inl (Foreign ''not found''), w)),
      ek_ListPermits = (\<lambda>ns w. (None, w)), ek_CreateAccount = (\<lambda>a w. (None, w + 1)),
      ek_GetAccount = (\<lambda>ns n w. (Inl (Foreign ''not found''), w)),
      ek_DeleteAccount = (\<lambda>ns n w. (None, 0)),
      ek_ListAccounts = (\<lambda>ns w. (Inr (if w = 0 then [] else [NewAccount ''acct'' ns ''aws-eu-central-1'']), w)),
      ek_IsNotFound = (\<lambda>e. e = Foreign ''not found''), ek_IsAlreadyExists = (\<lambda>e. False),
      ek_CallerIdentity = (\<lambda>w. (Inr ''1'', w)),
      ek_DescribeSecret = (\<lambda>n w. (Inl (ResourceNotFoundException ''none''), w)),
      ek_loadConfig = (\<lambda>r. Inl (Foreign ''no config'')), ek_newFromConfig = (\<lambda>_. sample_aws),
      ek_select = (\<lambda>w. (TimedOut, w)), ek_Intn = (\<lambda>n w. (7, w)), ek_stamp = (\<lambda>t. ''20260101000000'')\<rparr>"

definition sample_e2e :: "e2e_config \<Rightarrow> (nat, unit) e2e" where
  "sample_e2e c = \<lparr>en_Cfg = c, en_Region = ''aws-eu-central-1'', en_cl = sample_clients\<rparr>"

definition sample_e2e_config :: e2e_config where
  "sample_e2e_config =
     \<lparr>ec_Dir = ''/etc'', ec_Base = sample_cfg, ec_Backplane = sample_backplane, ec_MaxAccounts = 10\<rparr>"

definition sample_e2e_sys :: "nat \<Rightarrow> nat e2e_sys" where
  "sample_e2e_sys w =
     \<lparr>world = w, trace = [], km_entries = (\<lambda>_. None), ps_orgAdminDB = None, ps_entries = [],
      ps_keyLocks = [], e_Namespace = ''e2e-20260101000000'', e_fixtures = [], e_started = 0,
      e_store = None, e_calls = []\<rparr>"

definition sample_config_env :: config_env where
  "sample_config_env =
     \<lparr>cf_Getenv = (\<lambda>v. if v = ''E2E_CONFIG_DIR'' then ''/etc'' else []), cf_Getwd = Inr ''/repo/e2e'',
      cf_Stat = (\<lambda>p. p = ''/repo/go.mod''), cf_base = sample_io, cf_backplane = sample_backplane_io\<rparr>"

lemma repoRoot_example: "repoRoot (Inr ''/repo/e2e'') (\<lambda>p. p = ''/repo/go.mod'') = Inr ''/repo''"
  by code_simp

lemma sample_LoadConfig: "\<exists>c. LoadConfig sample_config_env = Inr c"
proof -
  obtain b where "base_Load sample_io ''/etc'' = Inr b" using sample_loads by blast
  moreover obtain bp where "backplane_Load sample_backplane_io ''/etc'' = Inr bp"
    using sample_backplane_loads by blast
  ultimately show ?thesis
    by (simp add: LoadConfig_def sample_config_env_def and_then_def max_accounts_def)
qed

lemma sample_cleanup:
  obtains r s' where
    "cleanupNamespace sample_env (sample_e2e c) ''e2e-20260101000000'' 0 (sample_e2e_sys 1) = Some (r, s')"
    "e_calls s' =
       [ListAccountsCall ''e2e-20260101000000'' (Inr [''acct'']),
        CreatePermitCall ''e2e-20260101000000'' ''acct'', DeleteAccountCall ''e2e-20260101000000'' ''acct'',
        ListAccountsCall ''e2e-20260101000000'' (Inr []), DeleteNamespaceCall ''e2e-20260101000000'']"
proof -
  let ?ns = "''e2e-20260101000000''"
  define s3 :: "nat e2e_sys" where "s3 = (sample_e2e_sys 0)\<lparr>e_calls :=
    [ListAccountsCall ?ns (Inr [''acct'']), CreatePermitCall ?ns ''acct'', DeleteAccountCall ?ns ''acct'',
     ListAccountsCall ?ns (Inr [])]\<rparr>"
  obtain r s' where d: "drop_namespace sample_env (sample_e2e c) ?ns [''acct''] s3 = (r, s')" by fastforce
  have "cleanupNamespace sample_env (sample_e2e c) ?ns 0 (sample_e2e_sys 1) = Some (r, s')"
    using d
    by (simp add: cleanupNamespace_def accountsIn_def kcall_def local_call_def account_names_def sample_e2e_def
        sample_clients_def NewAccount_def zero_meta_def sample_e2e_sys_def deleteAccountIn_def Poll_def
        poll_loop.simps [of _ _ _ "permit_processed _ _ _"] poll_loop.simps [of _ _ _ "accounts_gone _ _"]
        permit_processed_def e_select_def accounts_gone_def with_var_def s3_def Let_def)
  moreover have "e_calls s' = e_calls s3 @ [DeleteNamespaceCall ?ns]"
    using drop_namespace_issued [OF d] by (simp add: issued_def)
  ultimately show thesis using that by (simp add: s3_def)
qed

lemma namespace_dropped_last_witness:
  "\<exists>r s'. cleanupNamespace sample_env (sample_e2e sample_e2e_config) ''e2e-20260101000000'' 0 (sample_e2e_sys 1) = Some (r, s') \<and>
     (\<exists>names lists. list_all (listing ''e2e-20260101000000'') lists \<and>
       e_calls s' = ListAccountsCall ''e2e-20260101000000'' (Inr names) #
         deletion_calls ''e2e-20260101000000'' names @ lists @
         [ListAccountsCall ''e2e-20260101000000'' (Inr []), DeleteNamespaceCall ''e2e-20260101000000''])"
proof -
  obtain r s' where c: "cleanupNamespace sample_env (sample_e2e sample_e2e_config) ''e2e-20260101000000'' 0 (sample_e2e_sys 1) = Some (r, s')"
    and e: "e_calls s' = [ListAccountsCall ''e2e-20260101000000'' (Inr [''acct'']),
        CreatePermitCall ''e2e-20260101000000'' ''acct'', DeleteAccountCall ''e2e-20260101000000'' ''acct'',
        ListAccountsCall ''e2e-20260101000000'' (Inr []), DeleteNamespaceCall ''e2e-20260101000000'']"
    by (rule sample_cleanup)
  have "e_calls s' = e_calls (sample_e2e_sys 1) @ e_calls s'" by (simp add: sample_e2e_sys_def)
  from namespace_dropped_last [OF c this, of "''e2e-20260101000000''"] e c show ?thesis by auto
qed

lemma run_namespace_example: "re_match runNamespacePattern ''e2e-20260101000000''"
  by code_simp

lemma sample_sweep:
  obtains lines s' cs where
    "SweepStale sample_env (sample_e2e c) 1000 0 (sample_e2e_sys 1) = Some (lines, s')"
    "e_calls s' = cs" "DeleteNamespaceCall ''e2e-20260101000000'' \<in> set cs"
proof -
  obtain r s' where "cleanupNamespace sample_env (sample_e2e c) ''e2e-20260101000000'' 0 (sample_e2e_sys 1) = Some (r, s')"
    and "e_calls s' = [ListAccountsCall ''e2e-20260101000000'' (Inr [''acct'']),
        CreatePermitCall ''e2e-20260101000000'' ''acct'', DeleteAccountCall ''e2e-20260101000000'' ''acct'',
        ListAccountsCall ''e2e-20260101000000'' (Inr []), DeleteNamespaceCall ''e2e-20260101000000'']"
    by (rule sample_cleanup)
  moreover have "check_stale sample_env 1000 \<lparr>ni_Name = ''e2e-20260101000000'', ni_CreationTimestamp = 0, ni_Deleting = False\<rparr>
      (sample_e2e_sys 1) = (True, sample_e2e_sys 1)"
    using run_namespace_example
    by (simp add: check_stale_def stale_def now_def local_call_def sample_env_def sample_e2e_sys_def)
  ultimately show thesis
    using that by (force simp: SweepStale_def local_call_def sample_e2e_def sample_clients_def sample_e2e_sys_def)
qed

lemma sweep_scope_witness:
  "\<exists>lines s'. SweepStale sample_env (sample_e2e sample_e2e_config) 1000 0 (sample_e2e_sys 1) = Some (lines, s') \<and>
     (\<exists>listed w ns. ek_ListNamespaces sample_clients 1 = (Inr listed, w) \<and> ns \<in> set listed \<and>
        ni_Name ns = ''e2e-20260101000000'' \<and> \<not> ni_Deleting ns)"
proof -
  obtain lines s' cs where "SweepStale sample_env (sample_e2e sample_e2e_config) 1000 0 (sample_e2e_sys 1) = Some (lines, s')"
    "e_calls s' = cs" "DeleteNamespaceCall ''e2e-20260101000000'' \<in> set cs" by (rule sample_sweep)
  moreover from this(2) have "e_calls s' = e_calls (sample_e2e_sys 1) @ cs" by (simp add: sample_e2e_sys_def)
  ultimately show ?thesis
    using sweep_scope [of sample_env "sample_e2e sample_e2e_config" 1000 0 "sample_e2e_sys 1" lines s' cs
      "DeleteNamespaceCall ''e2e-20260101000000''"]
    by (auto simp: sample_e2e_def sample_e2e_sys_def)
qed

lemma accounts_capped_witness:
  "\<exists>c s'. LoadConfig sample_config_env = Inr c \<and>
     fixture_steps sample_env simple_xpv1 (sample_e2e c) (sample_e2e_sys 0) s' \<and>
     accounts_created s' = 1 \<and> accounts_created s' \<le> ec_MaxAccounts c"
proof -
  obtain c where c: "LoadConfig sample_config_env = Inr c" using sample_LoadConfig by blast
  let ?e = "sample_e2e c" and ?s = "sample_e2e_sys 0"
  let ?s1 = "Fixture ''lifecycle'' (NewAccount ''acct'' ''ns'' ''aws-eu-central-1'') ?s"
  obtain f where f: "map_of (e_fixtures ?s1) ''lifecycle'' = Some f" "fx_start f = None"
    by (simp add: Fixture_def set_fixture_def sample_e2e_sys_def)
  obtain r f1 s' where st: "fixture_Start ?e f ?s1 = (r, f1, s')" by (metis prod_cases3)
  have "\<not> 1 > ec_MaxAccounts c" using LoadConfig_Inr [OF c] by simp
  with st f(2) have one: "accounts_created s' = 1"
    by (auto simp: fixture_Start_def start_account_def sample_e2e_def sample_clients_def kcall_def local_call_def
        set_fixture_def accounts_created_def Fixture_def sample_e2e_sys_def Let_def)
  have "fixture_steps sample_env simple_xpv1 ?e ?s s'"
    by (rule fs_step [OF fs_step [OF fs_refl fx_declare] fx_started [OF f(1) st]])
  moreover from accounts_capped [OF this, of sample_config_env] c one
  have "accounts_created s' \<le> ec_MaxAccounts c" by (simp add: sample_e2e_def sample_e2e_sys_def accounts_created_def)
  ultimately show ?thesis using c one by blast
qed

lemma probe_refused_witness:
  "\<exists>c region r s'. LoadConfig sample_config_env = Inr c \<and> UnknownRegion c = Some region \<and>
     Create sample_env simple_xpv1 (account_client sample_env (sample_kube []) sample_cfg sample_km (ec_Backplane c))
       (sample_acc_sys (NewAccount ''operator-probe'' ''ns'' region)) = (r, s') \<and> cr_locator s' = [] \<and> r \<noteq> None"
proof -
  obtain c where c: "LoadConfig sample_config_env = Inr c" using sample_LoadConfig by blast
  from UnknownRegion_fresh [OF c] obtain region where u: "UnknownRegion c = Some region" by blast
  let ?s = "sample_acc_sys (NewAccount ''operator-probe'' ''ns'' region)"
  obtain r s' where a: "Create sample_env simple_xpv1
      (account_client sample_env (sample_kube []) sample_cfg sample_km (ec_Backplane c)) ?s = (r, s')" by fastforce
  have "sa_Spec (ac_cr ?s) = sa_Spec (NewAccount ''operator-probe'' ''ns'' region)" "cr_locator ?s = []"
    by (simp_all add: sample_acc_sys_def NewAccount_def zero_accountStatus_def)
  from probe_refused [OF c u this a] a c u show ?thesis by blast
qed

end
