(* ===== verification/E2E_Report.thy ===== *)
theory E2E_Report
  imports Errors Go_Net Complex_Main "HOL-Library.AList" "HOL-Library.Char_ord" "HOL-Library.List_Lexorder"
begin

text \<open>
  The command \<open>e2e/report/main.go\<close>: it folds the event stream of \<open>go test -json\<close> into a
  report, prints the summary and decides the exit status of an end-to-end run.  The decoding
  of one JSON line is the argument \<open>decode\<close>; a \<open>float64\<close> is the rational it stands for;
  text is a byte list, and the case and width of characters are those of ASCII.  A map is an
  association list in the order a range visits it; \<open>sort.Slice\<close>, which is not stable, is an
  insertion sort, one of the orders it may give.  What is written is returned: a list of lines
  or a string.
\<close>

subsection \<open>Strings\<close>

abbreviation newline :: char where "newline \<equiv> CHR 0x0A"

definition trim_right :: "char \<Rightarrow> string \<Rightarrow> string" where
  "trim_right c s = rev (dropWhile (\<lambda>x. x = c) (rev s))"

definition go_space :: "char \<Rightarrow> bool" where
  "go_space c \<longleftrightarrow> in_range 9 13 c \<or> byte_of c = 32"

definition trim_space :: "string \<Rightarrow> string" where
  "trim_space s = rev (dropWhile go_space (rev (dropWhile go_space s)))"

definition pad :: "nat \<Rightarrow> string \<Rightarrow> string" where
  "pad n s = s @ replicate (n - length s) (CHR '' '')"

text \<open>\<open>fmt.Sprintf("%.2f", x)\<close>: the nearest hundredth, ties to the even one.\<close>

definition hundredths :: "rat \<Rightarrow> nat" where
  "hundredths x =
     (let y = 100 * x; k = nat (floor y); r = y - of_nat k in
      if r > 1 / 2 \<or> r = 1 / 2 \<and> odd k then k + 1 else k)"

definition show_fixed2 :: "rat \<Rightarrow> string" where
  "show_fixed2 x =
     (let k = hundredths \<bar>x\<bar> in
      (if x < 0 then ''-'' else []) @ show_nat (k div 100) @ ''.'' @
      [digit_char (k div 10 mod 10), digit_char (k mod 10)])"

text \<open>\<open>sort.Slice\<close> with the comparison \<open>lt\<close>.\<close>

fun insert_by :: "('a \<Rightarrow> 'a \<Rightarrow> bool) \<Rightarrow> 'a \<Rightarrow> 'a list \<Rightarrow> 'a list" where
  "insert_by lt x [] = [x]"
| "insert_by lt x (y # ys) = (if lt y x then y # insert_by lt x ys else x # y # ys)"

definition sort_slice :: "('a \<Rightarrow> 'a \<Rightarrow> bool) \<Rightarrow> 'a list \<Rightarrow> 'a list" where
  "sort_slice lt xs = foldr (insert_by lt) xs []"

subsection \<open>Data\<close>

record testEvent =
  tv_Action :: string
  tv_Package :: string
  tv_ImportPath :: string
  tv_Test :: string
  tv_Output :: string
  tv_Elapsed :: rat

record failedStep =
  fs_step :: string
  fs_lines :: "string list"

record testResult =
  rs_name :: string
  rs_id :: string
  rs_status :: string
  rs_elapsed :: rat
  rs_cases :: nat
  rs_failures :: "failedStep list"

record testReport =
  tp_results :: "(string \<times> testResult) list"
  tp_pkgLines :: "(string \<times> string list) list"
  tp_pkgFail :: "string list"
    \<comment> \<open>the packages mapped to true\<close>
  tp_stray :: "string list"
  tp_build :: "string list"
  tp_outputs :: "string \<Rightarrow> string list"
  tp_progress :: "string list"

subsection \<open>Test names\<close>

text \<open>\<open>testNamePattern.FindStringSubmatch\<close>: the two groups of
  \<open>^Test([A-Z][0-9]+)_(.+)$\<close>.\<close>

definition match_test_name :: "string \<Rightarrow> (string \<times> string) option" where
  "match_test_name s =
     (if \<not> has_prefix s ''Test'' then None
      else case drop 4 s of
        [] \<Rightarrow> None
      | c # cs \<Rightarrow>
          (let ds = takeWhile is_digit cs in
           if \<not> is_upper c \<or> ds = [] then None
           else case dropWhile is_digit cs of
             [] \<Rightarrow> None
           | u # rest \<Rightarrow>
               if u = CHR ''_'' \<and> rest \<noteq> [] \<and> newline \<notin> set rest then Some (c # ds, rest) else None))"

definition word_boundary :: "char \<Rightarrow> char \<Rightarrow> char option \<Rightarrow> bool" where
  "word_boundary prev cur nxt \<longleftrightarrow>
     is_upper cur \<and> (is_lower prev \<or> is_digit prev \<or>
       is_upper prev \<and> (case nxt of None \<Rightarrow> False | Some n \<Rightarrow> is_lower n))"

fun first_rune :: "string \<Rightarrow> char option" where
  "first_rune [] = None"
| "first_rune (c # cs) = Some c"

text \<open>The scan of \<open>humanize\<close>: \<open>word\<close> is \<open>runes[start:i]\<close> and \<open>prev\<close> is \<open>runes[i-1]\<close>.\<close>

fun humanize_words :: "string \<Rightarrow> char \<Rightarrow> string \<Rightarrow> string list" where
  "humanize_words word prev [] = [word]"
| "humanize_words word prev (cur # rest) =
     (if word_boundary prev cur (first_rune rest) then word # humanize_words [cur] cur rest
      else humanize_words (word @ [cur]) cur rest)"

definition camel_words :: "string \<Rightarrow> string list" where
  "camel_words s = (case s of [] \<Rightarrow> [[]] | c # cs \<Rightarrow> humanize_words [c] c cs)"

definition lower_word :: "string \<Rightarrow> string" where
  "lower_word w = (if length w > 1 \<and> to_upper w = w then w else to_lower w)"

definition humanize :: "string \<Rightarrow> string" where
  "humanize s =
     (case camel_words s of [] \<Rightarrow> [] | w # ws \<Rightarrow> str_join '' '' (w # map lower_word ws))"

definition isStep :: "string \<Rightarrow> bool" where
  "isStep name \<longleftrightarrow>
     has_prefix name ''Given_'' \<or> has_prefix name ''When_'' \<or> has_prefix name ''Then_''"

definition meaningful :: "string list \<Rightarrow> string list" where
  "meaningful lines =
     filter (\<lambda>t. \<not> (t = [] \<or> has_prefix t ''=== '' \<or> contains_sub t ''--- PASS'' \<or>
               contains_sub t ''--- FAIL'' \<or> contains_sub t ''--- SKIP''))
       (map trim_space lines)"

definition caseID :: "testResult \<Rightarrow> string" where
  "caseID res = (if rs_id res = [] then ''-'' else rs_id res)"

definition title :: "testResult \<Rightarrow> string" where
  "title res =
     (case match_test_name (rs_name res) of
        Some (_, t) \<Rightarrow> humanize t
      | None \<Rightarrow>
          humanize (if has_prefix (rs_name res) ''Test'' then drop 4 (rs_name res) else rs_name res))"

definition detail :: "testResult \<Rightarrow> string" where
  "detail res =
     (let d = show_fixed2 (rs_elapsed res) @ ''s'' in
      if rs_cases res > 0 then show_nat (rs_cases res) @ '' cases, '' @ d else d)"

text \<open>\<open>idLess\<close>.  \<open>strconv.Atoi\<close> reports a number out of range with the largest \<open>int\<close>, and the
  error is dropped.\<close>

definition case_number :: "string \<Rightarrow> int" where
  "case_number ds =
     (case read_nat ds of None \<Rightarrow> 0 | Some n \<Rightarrow> if n < 2 ^ 63 then int n else 2 ^ 63 - 1)"

definition idLess :: "string \<Rightarrow> string \<Rightarrow> bool" where
  "idLess a b \<longleftrightarrow>
     (if hd a \<noteq> hd b then byte_of (hd a) < byte_of (hd b)
      else case_number (tl a) < case_number (tl b))"

subsection \<open>Collecting the events\<close>

definition row_line :: "nat \<Rightarrow> string \<Rightarrow> testResult \<Rightarrow> string" where
  "row_line width i res =
     pad 5 i @ '' '' @ pad 6 (to_upper (rs_status res)) @ '' '' @ pad width (title res) @ ''  '' @
     detail res"

definition append_at :: "string \<Rightarrow> string \<Rightarrow> (string \<times> string list) list \<Rightarrow> (string \<times> string list) list" where
  "append_at k v m = AList.update k ((case map_of m k of None \<Rightarrow> [] | Some vs \<Rightarrow> vs) @ [v]) m"

definition new_result :: "string \<Rightarrow> testResult" where
  "new_result tn =
     \<lparr>rs_name = tn, rs_id = (case match_test_name tn of Some (i, _) \<Rightarrow> i | None \<Rightarrow> []),
      rs_status = [], rs_elapsed = 0, rs_cases = 0, rs_failures = []\<rparr>"

definition terminal_action :: "string \<Rightarrow> bool" where
  "terminal_action a \<longleftrightarrow> a = ''pass'' \<or> a = ''fail'' \<or> a = ''skip''"

text \<open>The branch of \<open>add\<close> for the end of a test: what becomes of the result of its top-level
  test, with the outputs collected so far.\<close>

definition finish_test ::
  "(string \<Rightarrow> string list) \<Rightarrow> testEvent \<Rightarrow> string list \<Rightarrow> testResult \<Rightarrow> testResult" where
  "finish_test outputs ev parts res =
     (let depth = length parts - 1; last_part = last parts in
      if depth = 0 then
        (let res1 = res\<lparr>rs_status := tv_Action ev, rs_elapsed := tv_Elapsed ev\<rparr> in
         if tv_Action ev = ''fail'' \<and> rs_failures res1 = []
         then res1\<lparr>rs_failures :=
                [\<lparr>fs_step = ''(test body)'', fs_lines = meaningful (outputs (tv_Test ev))\<rparr>]\<rparr>
         else res1)
      else if \<not> isStep last_part then
        (if depth = 1 then res\<lparr>rs_cases := rs_cases res + 1\<rparr> else res)
      else if tv_Action ev = ''fail'' then
        res\<lparr>rs_failures := rs_failures res @
          [\<lparr>fs_step = replace_all (CHR ''_'') '' '' (str_join '' / '' (tl parts)),
            fs_lines = meaningful (outputs (tv_Test ev))\<rparr>]\<rparr>
      else res)"

definition report_add :: "testEvent \<Rightarrow> testReport \<Rightarrow> testReport" where
  "report_add ev r =
     (let text = trim_right newline (tv_Output ev) in
      if tv_Action ev = ''build-output'' then
        (if text \<noteq> [] then r\<lparr>tp_build := tp_build r @ [text]\<rparr> else r)
      else if tv_Test ev = [] then
        (let r1 = (if text \<noteq> [] then r\<lparr>tp_pkgLines := append_at (tv_Package ev) text (tp_pkgLines r)\<rparr>
                   else r)
         in if tv_Action ev = ''fail'' then r1\<lparr>tp_pkgFail := List.insert (tv_Package ev) (tp_pkgFail r1)\<rparr>
            else r1)
      else
        (let parts = split_on (CHR ''/'') (tv_Test ev);
             tn = hd parts;
             res = (case map_of (tp_results r) tn of None \<Rightarrow> new_result tn | Some res \<Rightarrow> res);
             outputs = (if text \<noteq> []
                        then (tp_outputs r)(tv_Test ev := tp_outputs r (tv_Test ev) @ [text])
                        else tp_outputs r);
             res1 = (if terminal_action (tv_Action ev) then finish_test outputs ev parts res else res);
             lines = (if terminal_action (tv_Action ev) \<and> length parts = 1
                      then [row_line 60 (caseID res1) res1] else [])
         in r\<lparr>tp_results := AList.update tn res1 (tp_results r), tp_outputs := outputs,
              tp_progress := tp_progress r @ lines\<rparr>))"

definition new_report :: testReport where
  "new_report =
     \<lparr>tp_results = [], tp_pkgLines = [], tp_pkgFail = [], tp_stray = [], tp_build = [],
      tp_outputs = (\<lambda>_. []), tp_progress = []\<rparr>"

text \<open>\<open>bufio.Scanner\<close> over the input: the lines it delivers, without the newline and one
  carriage return before it, and the error it ends with.  A line that fills the buffer of
  4 MiB stops it.\<close>

definition max_token :: nat where
  "max_token = 4 * 1024 * 1024"

definition drop_cr :: "string \<Rightarrow> string" where
  "drop_cr s = (if s \<noteq> [] \<and> last s = CHR 0x0D then butlast s else s)"

definition ErrTooLong :: gerror where
  "ErrTooLong = plain_error ''bufio.Scanner: token too long''"

fun scan_lines :: "gerror option \<Rightarrow> string list \<Rightarrow> string list \<times> gerror option" where
  "scan_lines readErr [] = ([], readErr)"
| "scan_lines readErr (l # ls) =
     (if length l \<ge> max_token then ([], Some ErrTooLong)
      else if ls = [] \<and> l = [] then ([], readErr)
      else case scan_lines readErr ls of (out, e) \<Rightarrow> (drop_cr l # out, e))"

definition scan_input :: "string \<Rightarrow> gerror option \<Rightarrow> string list \<times> gerror option" where
  "scan_input data readErr = scan_lines readErr (split_on newline data)"

text \<open>One round of the loop of \<open>process\<close>, with the text written to \<open>raw\<close> and to \<open>echo\<close>.\<close>

definition process_line ::
  "(string \<Rightarrow> testEvent option) \<Rightarrow> string \<Rightarrow> testReport \<times> string \<Rightarrow> testReport \<times> string" where
  "process_line decode line st =
     (case st of (rep, out) \<Rightarrow>
        (case decode line of
           None \<Rightarrow> (rep\<lparr>tp_stray := tp_stray rep @ [line]\<rparr>, out @ line @ [newline])
         | Some ev \<Rightarrow> (report_add ev rep, out @ tv_Output ev)))"

definition process ::
  "(string \<Rightarrow> testEvent option) \<Rightarrow> string \<Rightarrow> gerror option
     \<Rightarrow> testReport \<times> string \<times> gerror option" where
  "process decode data readErr =
     (case scan_input data readErr of (lines, e) \<Rightarrow>
        (case fold (process_line decode) lines (new_report, []) of (rep, out) \<Rightarrow> (rep, out, e)))"

subsection \<open>The summary\<close>

definition countCases :: "testResult list \<Rightarrow> string \<Rightarrow> nat" where
  "countCases results status = length (filter (\<lambda>r. rs_status r = status) results)"

definition banner_line :: "string \<Rightarrow> bool" where
  "banner_line l \<longleftrightarrow> has_prefix l ''e2e target:'' \<or> has_prefix l ''e2e sweep:''"

definition pkg_lines :: "testReport \<Rightarrow> string \<Rightarrow> string list" where
  "pkg_lines rep pkg = (case map_of (tp_pkgLines rep) pkg of None \<Rightarrow> [] | Some ls \<Rightarrow> ls)"

definition withID :: "testReport \<Rightarrow> testResult list" where
  "withID rep =
     sort_slice (\<lambda>a b. idLess (rs_id a) (rs_id b)) (filter (\<lambda>r. rs_id r \<noteq> []) (map snd (tp_results rep)))"

definition withoutID :: "testReport \<Rightarrow> testResult list" where
  "withoutID rep =
     sort_slice (\<lambda>a b. rs_name a < rs_name b) (filter (\<lambda>r. rs_id r = []) (map snd (tp_results rep)))"

definition indent :: "string list \<Rightarrow> string list" where
  "indent ls = map (\<lambda>l. ''  '' @ l) ls"

definition step_lines :: "failedStep \<Rightarrow> string list" where
  "step_lines f = (''  step: '' @ fs_step f) # indent (indent (fs_lines f))"

definition test_failed :: "testResult \<Rightarrow> bool" where
  "test_failed res \<longleftrightarrow> rs_status res = [] \<or> rs_status res = ''fail''"

definition test_failure_lines :: "testResult \<Rightarrow> string list" where
  "test_failure_lines res =
     (if rs_status res = [] then
        [''FAILED '' @ rs_id res @ '' '' @ title res @
         '': the test did not finish; go test was probably killed (for example by its timeout)'']
      else if rs_status res \<noteq> ''fail'' then []
      else (''FAILED '' @ rs_id res @ '' '' @ title res) # concat (map step_lines (rs_failures res)))"

definition pkg_noise :: "string \<Rightarrow> bool" where
  "pkg_noise l \<longleftrightarrow> l = ''FAIL'' \<or> has_prefix l (''FAIL'' @ [CHR 0x09]) \<or> has_prefix l ''ok ''"

definition pkg_failure_lines :: "testReport \<Rightarrow> string \<Rightarrow> string list" where
  "pkg_failure_lines rep pkg =
     (if pkg \<notin> set (tp_pkgFail rep) then []
      else if \<exists>r \<in> set (map snd (tp_results rep)). rs_status r = ''fail'' then []
      else (''FAILED: '' @ pkg @ '' stopped before or outside of any test:'') #
        indent (filter (\<lambda>l. \<not> pkg_noise l) (pkg_lines rep pkg)))"

definition summary_counts :: "testResult list \<Rightarrow> string" where
  "summary_counts results =
     show_nat (length (remdups (map rs_id results))) @ '' cases ran: '' @
     show_nat (countCases results ''pass'') @ '' passed, '' @
     show_nat (countCases results ''fail'') @ '' failed, '' @
     show_nat (countCases results ''skip'') @ '' skipped.''"

definition render_summary :: "testReport \<Rightarrow> string \<Rightarrow> string list \<times> bool" where
  "render_summary rep rawPath =
     (let pkgs = sort (map fst (tp_pkgLines rep));
          banner = concat (map (\<lambda>pkg. filter banner_line (pkg_lines rep pkg)) pkgs);
          wid = withID rep;
          other = withoutID rep;
          width = foldl (\<lambda>w r. max w (length (title r))) 0 (wid @ other);
          table = (pad 5 ''Case'' @ '' '' @ pad 6 ''Result'' @ '' '' @ pad width ''Test'' @ ''  Detail'') #
            map (\<lambda>r. row_line width (rs_id r) r) wid @ map (\<lambda>r. row_line width (caseID r) r) other;
          failed1 = (\<exists>r \<in> set (wid @ other). test_failed r);
          tests = concat (map test_failure_lines (wid @ other));
          failed2 = (failed1 \<or> (\<exists>pkg \<in> set pkgs. pkg \<in> set (tp_pkgFail rep)));
          packages = concat (map (pkg_failure_lines rep) pkgs);
          build = (if tp_build rep \<noteq> [] \<and> failed2 then ''FAILED to build:'' # indent (tp_build rep) else []);
          nothing = (if tp_results rep = [] \<and> \<not> failed2 then [''FAILED: no test ran''] else []);
          failed = (failed2 \<or> tp_results rep = []);
          stray = (if tp_stray rep \<noteq> [] \<and> failed
                   then ''FAILED to build or start:'' # indent (tp_stray rep) else []);
          path = (if rawPath \<noteq> [] then [''Full output: '' @ rawPath] else []);
          verdict = (if failed then ''RESULT: FAILED'' else ''RESULT: ok'')
      in (banner @ [[]] @ table @ [[]] @ tests @ packages @ build @ nothing @ stray @
          [summary_counts wid] @ path @ [verdict], failed))"

subsection \<open>The command\<close>

text \<open>The operating system under \<open>main\<close>: creating the directory and the file of the full log,
  and standard input with the error reading it may end with.\<close>

record report_io =
  ri_MkdirAll :: "string \<Rightarrow> gerror option"
  ri_Create :: "string \<Rightarrow> gerror option"
  ri_stdin :: string
  ri_readErr :: "gerror option"
  ri_decode :: "string \<Rightarrow> testEvent option"

record report_run_result =
  rr_exit :: nat
  rr_stdout :: string
  rr_stderr :: string
  rr_raw :: string

definition unlines :: "string list \<Rightarrow> string" where
  "unlines ls = concat (map (\<lambda>l. l @ [newline]) ls)"

definition report_abort :: "string \<Rightarrow> string \<Rightarrow> gerror \<Rightarrow> report_run_result" where
  "report_abort out raw e =
     \<lparr>rr_exit = 2, rr_stdout = out, rr_stderr = ''report: '' @ err_text e @ [newline], rr_raw = raw\<rparr>"

definition report_main :: "report_io \<Rightarrow> string \<Rightarrow> bool \<Rightarrow> report_run_result" where
  "report_main io rawPath verbose =
     (case (if rawPath = [] then None
            else case ri_MkdirAll io rawPath of Some e \<Rightarrow> Some e | None \<Rightarrow> ri_Create io rawPath) of
        Some e \<Rightarrow> report_abort [] [] e
      | None \<Rightarrow>
          (case process (ri_decode io) (ri_stdin io) (ri_readErr io) of
             (rep, written, err) \<Rightarrow>
               let shown = (if verbose then written else unlines (tp_progress rep));
                   kept = (if rawPath = [] then [] else written)
               in case err of
                 Some e \<Rightarrow> report_abort shown kept e
               | None \<Rightarrow>
                   (case render_summary rep rawPath of (lines, failed) \<Rightarrow>
                      \<lparr>rr_exit = (if failed then 1 else 0),
                       rr_stdout = shown @ unlines lines,
                       rr_stderr = [],
                       rr_raw = (if rawPath = [] then []
                                 else written @ [newline] @ ''=== e2e summary ==='' @ [newline] @ unlines lines)\<rparr>)))"

end
