(* ===== verification/E2E_Report_Properties.thy ===== *)
theory E2E_Report_Properties
  imports E2E_Report "HOL-Library.Multiset"
begin

text \<open>
  The exit status of the report command against what it documents, in terms of the event stream, what the summary
  shows of a failed step, the order of the table, and what \<open>humanize\<close> keeps of a name.
\<close>

subsection \<open>The verdict of a stream\<close>

definition test_event :: "testEvent \<Rightarrow> bool" where
  "test_event ev \<longleftrightarrow> tv_Action ev \<noteq> ''build-output'' \<and> tv_Test ev \<noteq> []"

definition top_test :: "testEvent \<Rightarrow> string" where
  "top_test ev = hd (split_on (CHR ''/'') (tv_Test ev))"

definition test_ran :: "string \<Rightarrow> testEvent list \<Rightarrow> bool" where
  "test_ran t evs \<longleftrightarrow> (\<exists>ev \<in> set evs. test_event ev \<and> top_test ev = t)"

text \<open>The event is the end of the top-level test \<open>t\<close>.\<close>

definition ends_test :: "string \<Rightarrow> testEvent \<Rightarrow> bool" where
  "ends_test t ev \<longleftrightarrow>
     test_event ev \<and> split_on (CHR ''/'') (tv_Test ev) = [t] \<and> terminal_action (tv_Action ev)"

definition final_status :: "string \<Rightarrow> testEvent list \<Rightarrow> string" where
  "final_status t evs =
     (case filter (ends_test t) (rev evs) of [] \<Rightarrow> [] | ev # _ \<Rightarrow> tv_Action ev)"

definition package_event :: "string \<Rightarrow> testEvent \<Rightarrow> bool" where
  "package_event pkg ev \<longleftrightarrow>
     tv_Action ev \<noteq> ''build-output'' \<and> tv_Test ev = [] \<and> tv_Package ev = pkg"

definition package_spoke :: "string \<Rightarrow> testEvent list \<Rightarrow> bool" where
  "package_spoke pkg evs \<longleftrightarrow>
     (\<exists>ev \<in> set evs. package_event pkg ev \<and> trim_right newline (tv_Output ev) \<noteq> [])"

definition package_failed :: "string \<Rightarrow> testEvent list \<Rightarrow> bool" where
  "package_failed pkg evs \<longleftrightarrow> (\<exists>ev \<in> set evs. package_event pkg ev \<and> tv_Action ev = ''fail'')"


definition collect :: "testEvent list \<Rightarrow> testReport" where
  "collect evs = fold report_add evs new_report"

lemma collect_snoc [simp]: "collect (evs @ [ev]) = report_add ev (collect evs)"
  by (simp add: collect_def)

lemma collect_Nil [simp]: "collect [] = new_report"
  by (simp add: collect_def)

lemma split_on_not_Nil [simp]: "split_on c s \<noteq> []"
  by (induction s) (auto split: list.splits)

lemma snoc_specs [simp]:
  "test_ran t (evs @ [ev]) \<longleftrightarrow> test_ran t evs \<or> test_event ev \<and> top_test ev = t"
  "final_status t (evs @ [ev]) = (if ends_test t ev then tv_Action ev else final_status t evs)"
  "package_spoke pkg (evs @ [ev]) \<longleftrightarrow>
     package_spoke pkg evs \<or> package_event pkg ev \<and> trim_right newline (tv_Output ev) \<noteq> []"
  "package_failed pkg (evs @ [ev]) \<longleftrightarrow>
     package_failed pkg evs \<or> package_event pkg ev \<and> tv_Action ev = ''fail''"
  by (auto simp: test_ran_def final_status_def package_spoke_def package_failed_def)

lemma Nil_specs [simp]:
  "\<not> test_ran t []" "final_status t [] = []" "\<not> package_spoke pkg []" "\<not> package_failed pkg []"
  by (auto simp: test_ran_def final_status_def package_spoke_def package_failed_def)

text \<open>What one event changes of the fields the verdict reads.\<close>

lemma finish_status:
  "parts \<noteq> [] \<Longrightarrow>
     rs_status (finish_test outputs ev parts res) =
       (if length parts = 1 then tv_Action ev else rs_status res)"
  by (cases parts) (auto simp: finish_test_def Let_def)

lemma finish_name [simp]:
  "rs_name (finish_test outputs ev parts res) = rs_name res"
  "rs_id (finish_test outputs ev parts res) = rs_id res"
  by (auto simp: finish_test_def Let_def)

definition result_at :: "testReport \<Rightarrow> string \<Rightarrow> testResult" where
  "result_at r t = (case map_of (tp_results r) t of None \<Rightarrow> new_result t | Some res \<Rightarrow> res)"

definition outputs_after :: "testEvent \<Rightarrow> testReport \<Rightarrow> string \<Rightarrow> string list" where
  "outputs_after ev r =
     (let text = trim_right newline (tv_Output ev) in
      if text \<noteq> [] then (tp_outputs r)(tv_Test ev := tp_outputs r (tv_Test ev) @ [text])
      else tp_outputs r)"

lemma add_test_event:
  "test_event ev \<Longrightarrow>
     tp_results (report_add ev r) =
       AList.update (top_test ev)
         (if terminal_action (tv_Action ev)
          then finish_test (outputs_after ev r) ev (split_on (CHR ''/'') (tv_Test ev))
                 (result_at r (top_test ev))
          else result_at r (top_test ev)) (tp_results r) \<and>
     tp_outputs (report_add ev r) = outputs_after ev r \<and>
     tp_pkgLines (report_add ev r) = tp_pkgLines r \<and> tp_pkgFail (report_add ev r) = tp_pkgFail r"
  by (auto simp: report_add_def test_event_def top_test_def result_at_def outputs_after_def Let_def)

lemma add_other_event:
  "\<not> test_event ev \<Longrightarrow>
     tp_results (report_add ev r) = tp_results r \<and> tp_outputs (report_add ev r) = tp_outputs r"
  by (auto simp: report_add_def test_event_def Let_def)

lemma add_results:
  "map_of (tp_results (report_add ev r)) t =
     (if test_event ev \<and> top_test ev = t
      then Some (if terminal_action (tv_Action ev)
                 then finish_test (outputs_after ev r) ev (split_on (CHR ''/'') (tv_Test ev)) (result_at r t)
                 else result_at r t)
      else map_of (tp_results r) t)"
  by (cases "test_event ev") (auto simp: add_test_event add_other_event update_conv')


lemma split_one: "split_on c s = [t] \<Longrightarrow> s = t"
  by (induction s arbitrary: t) (auto split: if_splits list.splits)

text \<open>The report of a stream.\<close>

lemma collect_status:
  "map_option rs_status (map_of (tp_results (collect evs)) t) =
     (if test_ran t evs then Some (final_status t evs) else None)"
proof (induction evs rule: rev_induct)
  case Nil
  show ?case by (simp add: new_report_def)
next
  case (snoc ev evs)
  have fresh: "\<not> test_ran t evs \<Longrightarrow> final_status t evs = []"
    by (induction evs rule: rev_induct) (auto simp: ends_test_def top_test_def)
  have old: "rs_status (result_at (collect evs) t) = final_status t evs"
    using snoc.IH fresh by (auto simp: result_at_def new_result_def split: option.splits if_splits)
  have one: "length (split_on (CHR ''/'') (tv_Test ev)) = 1 \<longleftrightarrow>
    split_on (CHR ''/'') (tv_Test ev) = [top_test ev]"
    by (auto simp: top_test_def length_Suc_conv)
  show ?case
    using snoc.IH old one
    by (auto simp: add_results finish_status ends_test_def top_test_def)
qed

lemma collect_distinct: "distinct (map fst (tp_results (collect evs)))"
proof (induction evs rule: rev_induct)
  case (snoc ev evs)
  then show ?case
    by (cases "test_event ev") (simp_all add: add_test_event add_other_event distinct_update)
qed (simp add: new_report_def)

lemma collect_names:
  "map_of (tp_results (collect evs)) t = Some res \<Longrightarrow> rs_name res = t"
proof (induction evs arbitrary: res rule: rev_induct)
  case (snoc ev evs)
  have "rs_name (result_at (collect evs) t) = t"
    using snoc.IH by (auto simp: result_at_def new_result_def split: option.splits)
  then show ?case
    using snoc by (auto simp: add_results split: if_splits)
qed (simp add: new_report_def)


lemma collect_result_iff:
  "res \<in> snd ` set (tp_results (collect evs)) \<longleftrightarrow>
     (\<exists>t. map_of (tp_results (collect evs)) t = Some res)"
  using map_of_eq_Some_iff [OF collect_distinct [of evs]] by force

text \<open>The summary of any report.\<close>

lemma set_insert_by [simp]: "set (insert_by lt x xs) = insert x (set xs)"
  by (induction xs) auto

lemma set_sort_slice [simp]: "set (sort_slice lt xs) = set xs"
  by (induction xs) (auto simp: sort_slice_def)

lemma all_results: "set (withID rep) \<union> set (withoutID rep) = snd ` set (tp_results rep)"
  by (auto simp: withID_def withoutID_def)












definition stdin_events :: "report_io \<Rightarrow> testEvent list" where
  "stdin_events io = List.map_filter (ri_decode io) (fst (scan_input (ri_stdin io) (ri_readErr io)))"


text \<open>What the command documents, read off the events: a test, a step, a package or a build is
  reported as failed, or a test that started is never reported as ended.\<close>

definition anything_failed :: "testEvent list \<Rightarrow> bool" where
  "anything_failed evs \<longleftrightarrow>
     (\<exists>ev \<in> set evs. tv_Action ev = ''fail'' \<or> tv_Action ev = ''build-fail'') \<or>
     (\<exists>ev \<in> set evs. test_event ev \<and> \<not> (\<exists>ev' \<in> set evs. ends_test (top_test ev) ev'))"


text \<open>A package is reported as failed, and nothing it printed outside its tests is in the stream.\<close>

definition fails_silently :: "string \<Rightarrow> testEvent list \<Rightarrow> bool" where
  "fails_silently pkg evs \<longleftrightarrow> package_failed pkg evs \<and> \<not> package_spoke pkg evs"







subsection \<open>What the summary shows\<close>

definition output_texts :: "string \<Rightarrow> testEvent list \<Rightarrow> string list" where
  "output_texts t evs =
     filter (\<lambda>s. s \<noteq> [])
       (map (\<lambda>ev. trim_right newline (tv_Output ev)) (filter (\<lambda>ev. test_event ev \<and> tv_Test ev = t) evs))"

lemma collect_outputs: "tp_outputs (collect evs) t = output_texts t evs"
proof (induction evs rule: rev_induct)
  case (snoc ev evs)
  then show ?case
    by (cases "test_event ev")
      (auto simp: add_test_event add_other_event outputs_after_def output_texts_def Let_def)
qed (simp add: new_report_def output_texts_def)

lemma collect_outputs_after: "test_event ev \<Longrightarrow> outputs_after ev (collect evs) t = output_texts t (evs @ [ev])"
  using add_test_event [of ev "collect evs"] collect_outputs [of "evs @ [ev]"] by simp

lemma finish_keeps_failures: "set (rs_failures res) \<subseteq> set (rs_failures (finish_test o' ev parts res))"
  by (auto simp: finish_test_def Let_def)

lemma add_keeps_failures:
  "set (rs_failures (result_at r t)) \<subseteq> set (rs_failures (result_at (report_add ev r) t))"
  using finish_keeps_failures by (auto simp: result_at_def [of "report_add ev r"] add_results result_at_def [of r])

lemma collect_keeps_failures:
  "set (rs_failures (result_at (collect evs) t)) \<subseteq> set (rs_failures (result_at (collect (evs @ later)) t))"
proof (induction later rule: rev_induct)
  case (snoc ev later)
  then show ?case
    using add_keeps_failures [of "collect (evs @ later)" t ev] by (simp flip: append_assoc)
qed simp

text \<open>A failed step, as the report records it.\<close>

definition failed_step :: "testEvent \<Rightarrow> bool" where
  "failed_step ev \<longleftrightarrow>
     test_event ev \<and> tv_Action ev = ''fail'' \<and> length (split_on (CHR ''/'') (tv_Test ev)) \<ge> 2 \<and>
     isStep (last (split_on (CHR ''/'') (tv_Test ev)))"

definition step_record :: "testEvent \<Rightarrow> testEvent list \<Rightarrow> failedStep" where
  "step_record ev pre =
     \<lparr>fs_step = replace_all (CHR ''_'') '' '' (str_join '' / '' (tl (split_on (CHR ''/'') (tv_Test ev)))),
      fs_lines = meaningful (output_texts (tv_Test ev) (pre @ [ev]))\<rparr>"

lemma failed_step_recorded:
  assumes "failed_step ev"
  shows "step_record ev pre \<in> set (rs_failures (result_at (collect (pre @ [ev])) (top_test ev)))"
  using assms
  by (auto simp: failed_step_def result_at_def add_results step_record_def finish_test_def terminal_action_def
      collect_outputs_after Let_def)

lemma concat_map_block: "x \<in> set xs \<Longrightarrow> \<exists>as bs. concat (map f xs) = as @ f x @ bs"
  by (induction xs) (auto, metis append.assoc)

lemma append_block: "\<exists>pre post. a @ b @ c @ d @ xs @ r = pre @ xs @ post"
  by (rule exI [where x = "a @ b @ c @ d"]) auto

lemma render_shows_failures:
  assumes "res \<in> snd ` set (tp_results rep)" and "rs_status res = ''fail''" and "f \<in> set (rs_failures res)"
  shows "\<exists>as bs. fst (render_summary rep rawPath) = as @ step_lines f @ bs"
proof -
  have "res \<in> set (withID rep @ withoutID rep)" using assms(1) all_results [of rep] by auto
  from concat_map_block [OF this, of test_failure_lines] obtain as bs where
    t: "concat (map test_failure_lines (withID rep @ withoutID rep)) = as @ test_failure_lines res @ bs" by blast
  from concat_map_block [OF assms(3), of step_lines] obtain cs ds where
    "concat (map step_lines (rs_failures res)) = cs @ step_lines f @ ds" by blast
  with assms(2) have "test_failure_lines res = ((''FAILED '' @ rs_id res @ '' '' @ title res) # cs) @ step_lines f @ ds"
    by (simp add: test_failure_lines_def)
  with t have blk: "concat (map test_failure_lines (withID rep @ withoutID rep)) =
      (as @ ((''FAILED '' @ rs_id res @ '' '' @ title res) # cs)) @ step_lines f @ (ds @ bs)" by simp
  obtain pre post where "fst (render_summary rep rawPath) =
      pre @ concat (map test_failure_lines (withID rep @ withoutID rep)) @ post"
    unfolding render_summary_def Let_def fst_conv using append_block by blast
  with blk show ?thesis by (metis append.assoc)
qed

text \<open>A step that failed inside a test that failed is shown with the lines it had printed.\<close>

theorem failed_step_shown:
  assumes "failed_step ev" and "final_status (top_test ev) (pre @ ev # post) = ''fail''"
  shows "\<exists>as bs. fst (render_summary (collect (pre @ ev # post)) rawPath) =
           as @ step_lines (step_record ev pre) @ bs"
proof -
  let ?evs = "pre @ ev # post" and ?t = "top_test ev"
  have "test_ran ?t ?evs" using assms(1) by (auto simp: test_ran_def failed_step_def)
  with assms(2) collect_status [of ?evs ?t] obtain res where
    res: "map_of (tp_results (collect ?evs)) ?t = Some res" "rs_status res = ''fail''" by auto
  have "step_record ev pre \<in> set (rs_failures (result_at (collect ((pre @ [ev]) @ post)) ?t))"
    using failed_step_recorded [OF assms(1)] collect_keeps_failures [of "pre @ [ev]"] by blast
  then have "step_record ev pre \<in> set (rs_failures res)" using res(1) by (simp add: result_at_def)
  moreover have "res \<in> snd ` set (tp_results (collect ?evs))" using res(1) collect_result_iff by blast
  ultimately show ?thesis using render_shows_failures res(2) by blast
qed

subsection \<open>The order of the table\<close>

lemma insert_by_sorted:
  assumes "\<And>a b. lt a b \<Longrightarrow> \<not> lt b a" and "\<And>a b c. \<not> lt b a \<Longrightarrow> \<not> lt c b \<Longrightarrow> \<not> lt c a"
    and "sorted_wrt (\<lambda>a b. \<not> lt b a) xs"
  shows "sorted_wrt (\<lambda>a b. \<not> lt b a) (insert_by lt x xs)"
  using assms(3)
proof (induction xs)
  case (Cons y ys)
  then show ?case using assms(1) [of y x] assms(2) by (auto simp: ball_Un)
qed simp

lemma sort_slice_sorted:
  assumes "\<And>a b. lt a b \<Longrightarrow> \<not> lt b a" and "\<And>a b c. \<not> lt b a \<Longrightarrow> \<not> lt c b \<Longrightarrow> \<not> lt c a"
  shows "sorted_wrt (\<lambda>a b. \<not> lt b a) (sort_slice lt xs)"
proof (induction xs)
  case (Cons x xs)
  show ?case
    using insert_by_sorted [OF assms Cons.IH] by (simp add: sort_slice_def)
qed (simp add: sort_slice_def)

lemma mset_sort_slice [simp]: "mset (sort_slice lt xs) = mset xs"
proof -
  have ins: "mset (insert_by lt x ys) = add_mset x (mset ys)" for x ys
    by (induction ys) auto
  show ?thesis by (induction xs) (simp_all add: sort_slice_def ins)
qed

lemma idLess_asym: "idLess a b \<Longrightarrow> \<not> idLess b a"
  by (auto simp: idLess_def split: if_splits)

lemma idLess_trans: "\<not> idLess b a \<Longrightarrow> \<not> idLess c b \<Longrightarrow> \<not> idLess c a"
proof -
  have inj: "byte_of x = byte_of y \<Longrightarrow> x = y" for x y by (simp add: byte_of_def)
  show "\<not> idLess b a \<Longrightarrow> \<not> idLess c b \<Longrightarrow> \<not> idLess c a"
    unfolding idLess_def by (smt (verit) inj linorder_neqE_nat order.strict_trans)
qed

lemma table_order:
  "sorted_wrt (\<lambda>a b. \<not> idLess (rs_id b) (rs_id a)) (withID rep)"
  unfolding withID_def by (rule sort_slice_sorted) (auto dest: idLess_asym idLess_trans)

text \<open>Every result is listed exactly once.\<close>

lemma table_complete: "mset (withID rep @ withoutID rep) = mset (map snd (tp_results rep))"
  by (simp add: withID_def withoutID_def multiset_eq_iff)

subsection \<open>Names\<close>

lemma concat_humanize_words: "concat (humanize_words w p s) = w @ s"
  by (induction w p s rule: humanize_words.induct) auto

lemma concat_camel_words: "concat (camel_words s) = s"
  by (auto simp: camel_words_def concat_humanize_words split: list.splits)

lemma str_join_drop: "\<forall>w \<in> set ws. c \<notin> set w \<Longrightarrow> filter (\<lambda>x. x \<noteq> c) (str_join [c] ws) = concat ws"
proof (induction ws rule: induct_list012)
  case (2 w)
  then show ?case by (auto simp: filter_id_conv)
next
  case (3 w v ws)
  then have "filter (\<lambda>x. x \<noteq> c) w = w" by (auto simp: filter_id_conv)
  then show ?case using 3 by simp
qed simp

lemma lower_char_idem [simp]: "lower_char (lower_char c) = lower_char c"
  by (auto simp: lower_char_def is_upper_def in_range_def byte_of_def of_char_of)

lemma to_lower_word [simp]: "to_lower (lower_word w) = to_lower w"
  by (simp add: lower_word_def to_lower_def)

lemma to_lower_join: "to_lower (str_join '' '' ws) = str_join '' '' (map to_lower ws)"
  by (induction ws rule: induct_list012) (simp_all add: to_lower_def lower_char_def is_upper_def in_range_def byte_of_def)

lemma lower_char_space [simp]: "lower_char c = CHR '' '' \<longleftrightarrow> c = CHR '' ''"
proof
  assume l: "lower_char c = CHR '' ''"
  show "c = CHR '' ''"
  proof (cases "is_upper c")
    case True
    then have "byte_of (lower_char c) = byte_of c + 32"
      by (auto simp: lower_char_def is_upper_def in_range_def byte_of_def of_char_of)
    with l have "byte_of c + 32 = 32" by (simp add: byte_of_def)
    with True show ?thesis by (simp add: is_upper_def in_range_def)
  qed (use l in \<open>simp add: lower_char_def\<close>)
qed (simp add: lower_char_def is_upper_def in_range_def byte_of_def)

lemma humanize_words_not_Nil [simp]: "humanize_words w p s \<noteq> []"
  by (induction w p s rule: humanize_words.induct) auto

lemma camel_words_not_Nil: "camel_words s \<noteq> []"
  by (simp add: camel_words_def split: list.splits)

lemma humanize_keeps_letters:
  assumes "CHR '' '' \<notin> set s"
  shows "filter (\<lambda>c. c \<noteq> CHR '' '') (to_lower (humanize s)) = to_lower s"
proof -
  obtain w ws where c: "camel_words s = w # ws"
    using camel_words_not_Nil [of s] by (cases "camel_words s") auto
  have "concat (w # ws) = s" using concat_camel_words [of s] c by simp
  then have "\<forall>v \<in> set (map to_lower (w # ws)). CHR '' '' \<notin> set v"
    using assms by (auto simp: to_lower_def dest!: sym [of "CHR '' ''"])
  then show ?thesis
    using str_join_drop [of "map to_lower (w # ws)" "CHR '' ''"] concat_camel_words [of s] c
    by (simp add: humanize_def to_lower_join comp_def) (auto simp: to_lower_def [abs_def] map_concat)
qed

subsection \<open>Concrete runs\<close>

definition sample_event :: "string \<Rightarrow> string \<Rightarrow> string \<Rightarrow> testEvent" where
  "sample_event a t out =
     \<lparr>tv_Action = a, tv_Package = ''p'', tv_ImportPath = [], tv_Test = t, tv_Output = out, tv_Elapsed = 1 / 100\<rparr>"

definition sample_step :: testEvent where
  "sample_step = sample_event ''fail'' ''TestB2_NameIsRejected/Then_it_is_rejected'' []"

definition sample_before :: "testEvent list" where
  "sample_before =
     [sample_event ''output'' [] ''e2e target: kind'',
      sample_event ''pass'' ''TestB1_NameIsKept'' [],
      sample_event ''output'' ''TestB2_NameIsRejected/Then_it_is_rejected'' ''    accepted'']"

definition sample_after :: "testEvent list" where
  "sample_after = [sample_event ''fail'' ''TestB2_NameIsRejected'' [], sample_event ''fail'' [] []]"

lemma failed_step_shown_witness:
  "\<exists>as bs. fst (render_summary (collect (sample_before @ sample_step # sample_after)) ''run.log'') =
     as @ step_lines (step_record sample_step sample_before) @ bs"
  by (rule failed_step_shown) code_simp+

text \<open>A report over a list of events: line \<open>n\<close> of the input, a run of \<open>n\<close> marks, is event \<open>n\<close>.\<close>

definition report_of :: "testEvent list \<Rightarrow> report_io" where
  "report_of evs =
     \<lparr>ri_MkdirAll = (\<lambda>p. None), ri_Create = (\<lambda>p. None),
      ri_stdin = concat (map (\<lambda>n. replicate n (CHR ''+'') @ [newline]) [0..<length evs]),
      ri_readErr = None,
      ri_decode = (\<lambda>l. if length l < length evs then Some (evs ! length l) else None)\<rparr>"



text \<open>The documented status is not kept for a package that fails in silence: the summary goes over the
  packages that printed something.\<close>

definition silent_package :: "testEvent list" where
  "silent_package =
     [sample_event ''pass'' ''TestB1_NameIsKept'' [], sample_event ''fail'' [] []]"

lemma silent_package_passes:
  "anything_failed (stdin_events (report_of silent_package)) \<and>
   fails_silently ''p'' (stdin_events (report_of silent_package)) \<and>
   rr_exit (report_main (report_of silent_package) [] False) = 0"
  by code_simp

lemma sample_summary:
  "render_summary (collect (sample_before @ sample_step # sample_after)) ''run.log'' =
     ([''e2e target: kind'', [],
       ''Case  Result Test              Detail'',
       ''B1    PASS   Name is kept      0.01s'',
       ''B2    FAIL   Name is rejected  0.01s'', [],
       ''FAILED B2 Name is rejected'',
       ''  step: Then it is rejected'',
       ''    accepted'',
       ''2 cases ran: 1 passed, 1 failed, 0 skipped.'',
       ''Full output: run.log'', ''RESULT: FAILED''], True)"
  by code_simp

text \<open>A case of a table that fails outside its steps: what it printed is not in the summary.\<close>

definition silent_stream :: "testEvent list" where
  "silent_stream =
     [sample_event ''output'' ''TestB4_Regions/upper'' ''    wrong region'',
      sample_event ''fail'' ''TestB4_Regions/upper'' [],
      sample_event ''fail'' ''TestB4_Regions'' []]"

lemma table_case_output_lost:
  "render_summary (collect silent_stream) [] =
     ([[], ''Case  Result Test     Detail'', ''B4    FAIL   Regions  1 cases, 0.01s'', [],
       ''FAILED B4 Regions'', ''  step: (test body)'',
       ''1 cases ran: 0 passed, 1 failed, 0 skipped.'', ''RESULT: FAILED''], True)"
  by code_simp

lemma humanize_examples:
  "humanize ''NameBoundariesAreRejected'' = ''Name boundaries are rejected''"
  "humanize ''NonASCIINameIsRejected'' = ''Non ASCII name is rejected''"
  "humanize ''NameOverTheCRDLimitIsRejected'' = ''Name over the CRD limit is rejected''"
  "humanize ''AValidAccountIsAccepted'' = ''A valid account is accepted''"
  "humanize ''AnAccountThatNeverGotALocatorCanBeDeleted'' = ''An account that never got a locator can be deleted''"
  by code_simp+

end
