(* ===== verification/Spec2Isabelle.thy ===== *)
theory Spec2Isabelle
  imports Controller_Properties Account_Properties Secrets_Properties Pool_Properties
    Pool_Schedules Startup_Properties Deprovisioning Crash_Properties Provisioning_Properties
    Admission_Properties Store_History
    Rotation_Properties
    DeepCopy_Properties E2E_Support_Properties E2E_Report_Properties
begin

text \<open>
  Yukimi is a Kubernetes controller that provisions Snowflake accounts for tenants.  This
  library models its own logic, package by package, and proves what it promises.

  The program.  A tenant creates a \<open>SnowflakeAccount\<close>; crossplane-runtime's managed reconciler
  calls the external client of \<open>internal/controller/snowflakeaccount\<close>, which builds a
  \<open>ResourceData\<close> and hands it to the pipeline of modules (\<open>internal/account/pipeline\<close>).  The one
  registered module, \<open>internal/account/modules/account\<close>, creates, observes, reconciles and drops
  the account through \<open>internal/snowflake/statement\<close> over connections of
  \<open>internal/snowflake/pool\<close>, which reads and rotates credentials through the key manager of
  \<open>internal/secrets\<close> and its AWS store.  Deleting an account needs a \<open>DeletionPermit\<close>
  (\<open>internal/deletion\<close>, \<open>internal/controller/deletionpermit\<close>).  \<open>internal/config/base\<close> and
  \<open>internal/config/backplane\<close> are the operator's settings.  \<open>cmd/provider/main.go\<close> loads both,
  builds the key store, the key manager and the pool, opens the org-admin connection, registers
  the two controllers with a gate and closes the pool when the manager stops.

  The theories, in the order of their imports.
  \<^item> \<open>Prelude\<close>: bytes and strings, decimal and quoted text, the string functions of Go's library
    the source uses.  Strings are byte lists; EqualFold and the case functions are those of ASCII.
  \<^item> \<open>Go_Regex\<close>, \<open>Go_Crypto\<close>, \<open>Go_Duration\<close>, \<open>Go_Net\<close>: the parts of Go's standard library the source
    rests on: regular expressions by derivatives with their language, SHA-256 and the base32 and
    base64 encodings on words, ParseDuration with its 64-bit bounds, ParseCIDR and Contains.
  \<^item> \<open>Errors\<close> (\<open>internal/errors\<close>): the error tree, errors.Is and errors.As over it, user errors.
  \<^item> \<open>Host\<close>, \<open>Tenant\<close>, \<open>Identifier\<close>: host names, resolved account names, labels, URLs and secret
    identifiers.
  \<^item> \<open>World\<close>: the boundary.  What is not under \<open>src/\<close> (clock, UUIDs, RSA keys and codecs, the
    Snowflake driver) is a field of the parameter record \<open>env\<close> over an abstract world; the
    process state is the record \<open>sys\<close>, extended by the components, whose ghost \<open>trace\<close> lists
    every call that left the process, in order.
  \<^item> \<open>Credentials\<close>, \<open>KeyStore\<close>, \<open>FakeKeyStore\<close>, \<open>AwsKeyStore\<close>, \<open>KeyManager\<close> (\<open>internal/secrets\<close>): the
    locale \<open>key_store\<close> is the contract of the interface, extended by \<open>scheduling_key_store\<close>;
    both stores are shown to keep it, and the manager's coherence is proved once from it.  A write
    that reports an error may have been carried out, in the contract and in what is assumed of AWS
    (\<open>aws_contract\<close>).  \<open>Store_History\<close>: what a sequence of calls leaves readable, whichever of them failed.
  \<^item> \<open>Statement\<close>, \<open>Logger\<close>: SQL rendering, decorated errors, rows, the runner; Handle.
  \<^item> \<open>BaseConfig\<close>, \<open>Backplane\<close>: the two loaders with every check, in the order of the code.
  \<^item> \<open>Pool\<close>: dialling, the tenant cache, rotation, eviction, Close, and the step relation of a pool.
  \<^item> \<open>Pool_Concurrent\<close>, \<open>KeyManager_Concurrent\<close>: the same operations interleaved.  A call is a program
    counter, the mutexes (one per target, \<open>orgAdminMu\<close>, \<open>entriesMu\<close>, \<open>mu\<close>) are owners in the state
    or critical sections that are one step, a schedule is a list of picks, and calls may arrive
    at any time.  \<open>conc_inv\<close> is the ownership and connection-accounting invariant, \<open>total_left\<close> the
    measure behind termination.
  \<^item> \<open>Api\<close>, \<open>ResourceData\<close>, \<open>Pipeline\<close>, \<open>AccountModule\<close>: the resource types, the locale \<open>db_pool\<close>
    (interpreted on the connection pool), the locales \<open>pipeline_module\<close> and \<open>module_list\<close>
    (interpreted on the account module), the runs over modules, and the account module itself.
  \<^item> \<open>Deletion\<close>, \<open>Controller\<close>: permits and their controller; the SnowflakeAccount external client.
  \<^item> \<open>Registration\<close>, \<open>Startup\<close>: group and kind constants, the scheme, Setup and SetupGated of both
    controllers with their reconciler options; main, whose fatal exits are values.
  \<^item> \<open>Admission\<close> (\<open>apis/base/v1alpha1\<close>): the kubebuilder markers of the two resource types as predicates on
    what the API server stores: patterns, lengths, enumerations and CEL rules, transition rules
    included.
  \<^item> \<open>Go_Heap\<close>, \<open>DeepCopy\<close> (\<open>zz_generated.deepcopy.go\<close>): memory as a map from addresses to typed cells,
    slices, pointers and maps as references into it, and the generated deep copies over it.  The
    locale \<open>copyable\<close> is their contract, \<open>copyable_cell\<close>, \<open>copyable_map\<close> and \<open>copyable_fields\<close> carry it
    from elements to slices, pointers, maps and structs; each struct interprets them.
  \<^item> \<open>Crash_Recovery\<close>: creates that are cut off anywhere.  \<open>tenant_slot\<close> says what calls that may fail or
    lose their answer do to two facts about the world, the account's existence and its stored
    credential; \<open>calls_keep\<close> carries a predicate on worlds through every operation below the module,
    and \<open>interrupted\<close> is the history of attempts.
  \<^item> \<open>Rotation_Recovery\<close>: key rotations that are cut off anywhere.  \<open>user_login\<close> says what the calls of a
    rotation, failed ones included, do to a user's two key slots in Snowflake and to its credential
    in the store; \<open>rotations\<close> is the history of rotations, process deaths and everything else.
  \<^item> \<open>E2E_Support\<close> (\<open>e2e/support\<close>): what the end-to-end tests stand on: the settings read with the
    operator's loaders, the polling loop, the namespace of a run, its clean-up and the sweep of old
    ones, the start-up checks, look-ups over the operator's own pool, fixtures.  What a call changes
    in the cluster is listed in the ghost field \<open>e_calls\<close>.
  \<^item> \<open>E2E_Report\<close> (\<open>e2e/report\<close>): the command that folds the events of go test into a summary and an
    exit status.
  \<^item> \<open>Sample_World\<close>, \<open>Sample_Controller\<close>: one concrete environment, for the witnesses.
  \<^item> \<open>Pool_Properties\<close>, \<open>Pool_Schedules\<close>, \<open>Secrets_Properties\<close>, \<open>Account_Properties\<close>,
    \<open>Controller_Properties\<close>, \<open>Startup_Properties\<close>, \<open>Provisioning\<close>, \<open>Deprovisioning\<close>,
    \<open>Crash_Properties\<close>, \<open>Provisioning_Properties\<close>, \<open>Rotation_Properties\<close>, \<open>Admission_Properties\<close>,
    \<open>DeepCopy_Properties\<close>, \<open>E2E_Support_Properties\<close>,
    \<open>E2E_Report_Properties\<close>: the properties that need a
    concrete environment for their witness or span components; the other properties stand at the
    end of their component's theory.

  Bounds and fuel.  All loops of the source are structural recursions here, apart from the
  parsers of \<open>Go_Duration\<close> and \<open>Go_Net\<close>, whose recursions consume input, the walk up to the
  repository root, and two loops of \<open>E2E_Support\<close> that are options: the poll, which ends when its
  ticks approach a deadline (\<open>Poll_ends\<close>), and the search for an unknown region, which ends for
  every loaded configuration (\<open>UnknownRegion_fresh\<close>); no definition takes fuel
  (the bit count of \<open>root_bits\<close> is the number of bits wanted, and a schedule is finite by nature:
  \<open>conc_finishes\<close> bounds it by eight steps for each call).
  Go's int and int64 are integers with the 64-bit range written out where a value can leave it
  (Atoi, ParseDuration); times and durations are integers in nanoseconds.

  The copies of \<open>DeepCopy\<close> recurse over the length of a slice or the entries of a map.

  What the properties show together.  What admission lets through the controllers can work with: a
  stored account has a name that is a valid and unique secret identifier and Snowflake name, and
  a permit's window ends within eight hours of its creation.  Deletion needs a permit and creation happens once; when the
  systems around it answer according to the world (\<open>answering\<close> of \<open>Crash_Recovery\<close> and \<open>healthy\<close> of
  \<open>Provisioning_Properties\<close>, which a directory of accounts and secrets satisfies), a new account is
  Ready after two runs, and if they
  fail in between, wherever, the next run that gets its answers finishes the create without making
  a second account (\<open>Crash_Properties\<close>, which also shows the one case in which the recovery takes
  a foreign account for its own); an account under deletion with a live permit is dropped, its
  credential deleted and its permit consumed in one run (\<open>Deprovisioning\<close>, which also shows what an
  undeleted credential leaves behind once the account is dropped); however often key
  rotation fails, the stored credential keeps logging in, provided a process whose update of the
  store was applied without an answer does not rotate on from its cache (\<open>Rotation_Properties\<close>, with
  the lockout that follows otherwise); every run
  of a controller keeps the recorded locator truthful and hides system errors; the pool loses no
  connection in any interleaving, works on a target one call at a time, cannot deadlock, and a
  call that runs alone is the whole-call definition the other theories use, so the sequential
  results carry over to calls on different targets; the key manager returns what the store holds
  as long as operations on one secret do not overlap, which those locks give, and no write of it was
  carried out without an answer (\<open>lost_answer\<close> of \<open>Secrets_Properties\<close>); and main puts the
  parts together the way these results assume, touching no account before the manager runs.  The
  end-to-end tests leave nothing behind unnoticed: a namespace is dropped only when it is empty,
  a clean-up that reports success saw every account gone from Snowflake and its secret scheduled
  for deletion, the probe of the start-up check never reaches Snowflake, and the exit status of
  a run is 0 exactly when a test ran and nothing failed, for a stream in which a failing package
  prints a line (\<open>silent_package_passes\<close> shows what happens without).  Two checks fall short of their
  meaning at one point each, which the properties name: the containment of address ranges for
  IPv4-mapped ones (\<open>Backplane\<close>), and the recovery of a create for a name another account holds
  (\<open>foreign_account_adopted\<close> of \<open>Crash_Properties\<close>).

  Not modelled.  Contexts: cancellation is one of the errors a call may return, so the 30-second
  limit of the first connection is too.  The scheduling of reconciles (rate limits, requeues,
  leader election, the work queue) and Kubernetes' API machinery belong to controller-runtime and
  crossplane-runtime: the manager, the scheme and the gate's trigger are parameters.  kingpin's
  parsing of the command line and of the environment, zap, the metrics registry and the constant
  that selects Leases for leader election are calls into libraries.  The components work on
  resources as values; that this is sound for objects shared with a cache is what
  \<open>DeepCopy_Properties\<close> shows of the copies the manager hands out.  Of the API server's admission only
  the markers of this repository are modelled.  The test functions under \<open>e2e\<close> and beside the
  packages are tests, not the program; of the harness under them the construction of the clients
  (\<open>Scheme\<close>, \<open>Connect\<close>, \<open>KubeContext\<close>) is library calls, and fixtures are used one call at a time.
\<close>

end
